(* ===== verification/Prelude.thy ===== *)
theory Prelude
  imports Main "HOL-Library.Word"
begin

text \<open>
  Shared ground of the development: the result type of C code that may run into undefined or
  aborting behaviour, its sequencing operator, C integer conversions, and the list lemmas the
  component theories use.  Facts about the result type are collected in \<open>res_simps\<close>, unfolding
  equations of small accessors in \<open>model_simps\<close>, and the preservation lemmas of component
  invariants in \<open>inv_intros\<close>.
\<close>

named_theorems res_simps
named_theorems model_simps
named_theorems inv_intros

section \<open>Results of C functions\<close>

text \<open>
  A C function either returns or runs into one of these faults: a read of a NULL pointer, an
  access outside an object, a read of an object that was never written, a failing
  \<open>g_assert\<close>, a call of \<open>abort\<close> or \<open>exit\<close>, a free of something that is no allocated block, a loop
  that never ends, a use of an object that was freed, or a division of floating-point numbers by zero,
  whose result is infinite or no number at all (C goes on with it; the model, which has real numbers, does not).
\<close>

datatype fault =
    Null_Deref
  | Out_Of_Bounds
  | Uninit_Read
  | Bad_Free
  | Assert_Failed
  | Abort_Called
  | No_Return
  | Use_After_Free
  | Float_Div_Zero

type_synonym 'a res = "fault + 'a"

definition rbind :: "'a res \<Rightarrow> ('a \<Rightarrow> 'b res) \<Rightarrow> 'b res" where
  "rbind m f = (case m of Inl e \<Rightarrow> Inl e | Inr x \<Rightarrow> f x)"

abbreviation ret :: "'a \<Rightarrow> 'a res" where
  "ret \<equiv> Inr"

abbreviation returns :: "'a res \<Rightarrow> bool" where
  "returns m \<equiv> \<exists>x. m = Inr x"

lemma rbind_simps [simp, res_simps]:
  "rbind (Inl e) f = Inl e"
  "rbind (Inr x) f = f x"
  by (simp_all add: rbind_def)

lemma rbind_eq_Inr [res_simps]:
  "rbind m f = Inr y \<longleftrightarrow> (\<exists>x. m = Inr x \<and> f x = Inr y)"
  by (cases m) simp_all

lemma rbind_Inl_iff [res_simps]:
  "rbind m f = Inl e \<longleftrightarrow> m = Inl e \<or> (\<exists>x. m = Inr x \<and> f x = Inl e)"
  by (cases m) simp_all

lemma rbind_assoc: "rbind (rbind m f) g = rbind m (\<lambda>x. rbind (f x) g)"
  by (cases m) simp_all

lemma rbind_ret [simp]: "rbind m Inr = m"
  by (cases m) simp_all

primrec rfold :: "('a \<Rightarrow> 's \<Rightarrow> 's res) \<Rightarrow> 'a list \<Rightarrow> 's \<Rightarrow> 's res" where
  "rfold f [] s = ret s"
| "rfold f (x # xs) s = rbind (f x s) (rfold f xs)"

text \<open>A \<open>g_slist_foreach\<close> preserves what each call preserves, and returns when each call does.\<close>

lemma rfold_total:
  assumes "P s"
    and "\<And>x s. x \<in> set xs \<Longrightarrow> P s \<Longrightarrow> \<exists>s'. f x s = Inr s' \<and> P s'"
  shows "\<exists>s'. rfold f xs s = Inr s' \<and> P s'"
  using assms
proof (induction xs arbitrary: s)
  case Nil
  then show ?case by simp
next
  case (Cons x xs)
  obtain s1 where s1: "f x s = Inr s1" "P s1"
    using Cons.prems(1) Cons.prems(2) [of x s] by auto
  have "\<exists>s'. rfold f xs s1 = Inr s' \<and> P s'"
    using Cons.IH [OF s1(2)] Cons.prems(2) by simp
  then show ?case using s1(1) by simp
qed

section \<open>What holds when a function returns\<close>

text \<open>
  \<open>rpost Q m\<close>: if \<open>m\<close> returns, its result satisfies \<open>Q\<close>.  The equations compute it through the
  sequencing operator, so that a post-condition of a handler follows by simplification from those
  of the operations it calls.
\<close>

definition rpost :: "('a \<Rightarrow> bool) \<Rightarrow> 'a res \<Rightarrow> bool" where
  "rpost Q m = (\<forall>x. m = Inr x \<longrightarrow> Q x)"

lemma rpost_simps [simp]:
  "rpost Q (Inl e)"
  "rpost Q (Inr x) = Q x"
  "rpost Q (rbind m f) = rpost (\<lambda>x. rpost Q (f x)) m"
  by (auto simp: rpost_def res_simps)

lemma rpost_mono: "rpost P m \<Longrightarrow> (\<And>x. P x \<Longrightarrow> Q x) \<Longrightarrow> rpost Q m"
  by (auto simp: rpost_def)

lemma rpostD: "rpost Q m \<Longrightarrow> m = Inr x \<Longrightarrow> Q x"
  by (simp add: rpost_def)

lemma rpostI: "(\<And>x. m = Inr x \<Longrightarrow> Q x) \<Longrightarrow> rpost Q m"
  by (simp add: rpost_def)

lemma rpost_conj: "rpost (\<lambda>x. P x \<and> Q x) m \<longleftrightarrow> rpost P m \<and> rpost Q m"
  by (auto simp: rpost_def)

lemma rpost_if: "(b \<Longrightarrow> rpost Q x) \<Longrightarrow> (\<not> b \<Longrightarrow> rpost Q y) \<Longrightarrow> rpost Q (if b then x else y)"
  by simp

lemma rpost_rbindI: "rpost P m \<Longrightarrow> (\<And>x. P x \<Longrightarrow> rpost Q (f x)) \<Longrightarrow> rpost Q (rbind m f)"
  by (auto simp: rpost_def res_simps)

lemma rpost_rfold:
  assumes "P s" and "\<And>x s. x \<in> set xs \<Longrightarrow> P s \<Longrightarrow> rpost P (f x s)"
  shows "rpost P (rfold f xs s)"
  using assms
proof (induction xs arbitrary: s)
  case Nil
  then show ?case by simp
next
  case (Cons x xs)
  have "rpost P (f x s)" using Cons.prems by simp
  then have "rpost (\<lambda>s'. rpost P (rfold f xs s')) (f x s)"
    by (rule rpost_mono) (use Cons in auto)
  then show ?case by simp
qed

text \<open>
  \<open>rwp t Q m\<close>: the same, and if \<open>t\<close> holds \<open>m\<close> also returns.  A lemma over \<open>t\<close> is a partial and
  a total correctness result at once.
\<close>

definition rwp :: "bool \<Rightarrow> ('a \<Rightarrow> bool) \<Rightarrow> 'a res \<Rightarrow> bool" where
  "rwp t Q m = (case m of Inl e \<Rightarrow> \<not> t | Inr x \<Rightarrow> Q x)"

lemma rwp_simps [simp]:
  "rwp t Q (Inl e) = (\<not> t)"
  "rwp t Q (Inr x) = Q x"
  "rwp t Q (rbind m f) = rwp t (\<lambda>x. rwp t Q (f x)) m"
  by (auto simp: rwp_def split: sum.splits)

lemma rwp_False: "rwp False Q m = rpost Q m"
  by (cases m) simp_all

lemma rwp_True: "rwp True Q m = (\<exists>x. m = Inr x \<and> Q x)"
  by (cases m) simp_all

lemma rwp_mono: "rwp t P m \<Longrightarrow> (\<And>x. P x \<Longrightarrow> Q x) \<Longrightarrow> rwp t Q m"
  by (cases m) simp_all

lemma rwp_rbindI: "rwp t P m \<Longrightarrow> (\<And>x. P x \<Longrightarrow> rwp t Q (f x)) \<Longrightarrow> rwp t Q (rbind m f)"
  by (cases m) simp_all

lemma rwp_if: "(b \<Longrightarrow> rwp t Q x) \<Longrightarrow> (\<not> b \<Longrightarrow> rwp t Q y) \<Longrightarrow> rwp t Q (if b then x else y)"
  by simp

text \<open>A \<open>g_hash_table_foreach\<close> whose function works on the value of its entry only.\<close>

primrec rmap :: "('a \<Rightarrow> 'b res) \<Rightarrow> 'a list \<Rightarrow> 'b list res" where
  "rmap f [] = ret []"
| "rmap f (x # xs) = rbind (f x) (\<lambda>y. rbind (rmap f xs) (\<lambda>ys. ret (y # ys)))"

lemma rpost_rmap:
  "(\<And>x. x \<in> set xs \<Longrightarrow> rpost (P x) (f x)) \<Longrightarrow> rpost (list_all2 P xs) (rmap f xs)"
proof (induction xs)
  case (Cons x xs)
  have x: "rpost (P x) (f x)" and xs: "rpost (list_all2 P xs) (rmap f xs)"
    using Cons by simp_all
  show ?case
    unfolding rmap.simps
    by (intro rpost_rbindI [OF x] rpost_rbindI [OF xs]) simp
qed simp

section \<open>Loops without a bound\<close>

text \<open>\<open>while (!result) result = step ();\<close>: \<open>None\<close> when no step ever succeeds.\<close>

partial_function (option) until_success :: "('s \<Rightarrow> bool \<times> 's) \<Rightarrow> 's \<Rightarrow> 's option" where
  "until_success step s =
     (let (result, s') = step s in if result then Some s' else until_success step s')"

lemma until_success_post:
  assumes "until_success step s = Some s'" "P s"
    and "\<And>s s1. P s \<Longrightarrow> step s = (False, s1) \<Longrightarrow> P s1"
    and "\<And>s s1. P s \<Longrightarrow> step s = (True, s1) \<Longrightarrow> Q s1"
  shows "Q s'"
proof -
  have "step = st \<longrightarrow> P s \<longrightarrow> Q s'" if "until_success st s = Some s'" for st s s'
  proof (rule until_success.raw_induct [where P = "\<lambda>st s s'. step = st \<longrightarrow> P s \<longrightarrow> Q s'", OF _ that])
    fix loop :: "('a \<Rightarrow> bool \<times> 'a) \<Rightarrow> 'a \<Rightarrow> 'a option" and st s s'
    assume IH: "\<And>st s s'. loop st s = Some s' \<Longrightarrow> step = st \<longrightarrow> P s \<longrightarrow> Q s'"
      and run: "(let (result, s1) = st s in if result then Some s1 else loop st s1) = Some s'"
    obtain r s1 where "st s = (r, s1)" by (metis prod.exhaust)
    then show "step = st \<longrightarrow> P s \<longrightarrow> Q s'"
      using run IH [of st s1 s'] assms(3,4) by (cases r) auto
  qed
  then show ?thesis using assms(1,2) by blast
qed

text \<open>The loop returns when a measure decreases with every failing step.\<close>

lemma until_success_returns:
  fixes m :: "'s \<Rightarrow> nat"
  assumes "P s" and "\<And>s s1. P s \<Longrightarrow> step s = (False, s1) \<Longrightarrow> P s1 \<and> m s1 < m s"
  shows "\<exists>s'. until_success step s = Some s'"
  using assms(1)
proof (induction "m s" arbitrary: s rule: less_induct)
  case less
  obtain r s1 where st: "step s = (r, s1)" by (metis prod.exhaust)
  show ?case
  proof (cases r)
    case True
    then show ?thesis using st by (subst until_success.simps) simp
  next
    case False
    then have "\<exists>s'. until_success step s1 = Some s'"
      using less assms(2) [of s s1] st by auto
    then show ?thesis using st False by (subst until_success.simps) simp
  qed
qed

section \<open>C integers\<close>

text \<open>The value of an integer after conversion to a 32-bit \<open>int\<close>, as gcc defines it.\<close>

definition to_int32 :: "int \<Rightarrow> int" where
  "to_int32 x = (x + 2 ^ 31) mod 2 ^ 32 - 2 ^ 31"

lemma to_int32_id [simp]:
  "- (2 ^ 31) \<le> x \<Longrightarrow> x < 2 ^ 31 \<Longrightarrow> to_int32 x = x"
  by (simp add: to_int32_def)

lemma to_int32_bounds: "- (2 ^ 31) \<le> to_int32 x" "to_int32 x < 2 ^ 31"
proof -
  have "0 \<le> (x + 2 ^ 31) mod 2 ^ 32" "(x + 2 ^ 31) mod 2 ^ 32 < (2::int) ^ 32"
    by simp_all
  then show "- (2 ^ 31) \<le> to_int32 x" "to_int32 x < 2 ^ 31"
    by (simp_all add: to_int32_def)
qed

section \<open>Lists\<close>

text \<open>Writing a run of values into an array, starting at a given index.\<close>

definition overwrite :: "'a list \<Rightarrow> nat \<Rightarrow> 'a list \<Rightarrow> 'a list" where
  "overwrite buf i xs = take i buf @ xs @ drop (i + length xs) buf"

lemma overwrite_Nil [simp]: "overwrite buf i [] = buf"
  by (simp add: overwrite_def)

lemma length_overwrite [simp]:
  "i + length xs \<le> length buf \<Longrightarrow> length (overwrite buf i xs) = length buf"
  by (simp add: overwrite_def)

lemma overwrite_overwrite:
  "i + length xs + length ys \<le> length buf \<Longrightarrow>
     overwrite (overwrite buf i xs) (i + length xs) ys = overwrite buf i (xs @ ys)"
  by (simp add: overwrite_def add.assoc add.commute [of "length ys"])

lemma overwrite_whole: "length xs = length buf \<Longrightarrow> overwrite buf 0 xs = xs"
  by (simp add: overwrite_def)

lemma take_overwrite_0:
  "n = length xs \<Longrightarrow> take n (overwrite buf 0 xs) = xs"
  by (simp add: overwrite_def)

text \<open>A prefix test, as \<open>strncmp (a, p, strlen (p)) == 0\<close> and \<open>g_str_has_prefix\<close> perform it.\<close>

primrec has_prefix :: "'a list \<Rightarrow> 'a list \<Rightarrow> bool" where
  "has_prefix [] s = True"
| "has_prefix (p # ps) s = (case s of [] \<Rightarrow> False | c # cs \<Rightarrow> p = c \<and> has_prefix ps cs)"

lemma has_prefix_append [simp]: "has_prefix p (p @ s)"
  by (induction p) simp_all

lemma has_prefix_iff: "has_prefix p s \<longleftrightarrow> (\<exists>t. s = p @ t)"
  by (induction p arbitrary: s) (auto split: list.splits)

text \<open>\<open>strstr\<close>: the suffix of the first string that starts at the first occurrence of the second.\<close>

fun strstr :: "'a list \<Rightarrow> 'a list \<Rightarrow> 'a list option" where
  "strstr [] p = (if p = [] then Some [] else None)"
| "strstr (c # cs) p = (if has_prefix p (c # cs) then Some (c # cs) else strstr cs p)"

lemma strstr_Some_iff: "(\<exists>r. strstr s p = Some r) \<longleftrightarrow> (\<exists>u v. s = u @ p @ v)"
proof (induction s)
  case Nil
  then show ?case by auto
next
  case (Cons c cs)
  have "(\<exists>u v. c # cs = u @ p @ v) \<longleftrightarrow> has_prefix p (c # cs) \<or> (\<exists>u v. cs = u @ p @ v)"
    unfolding has_prefix_iff
    by (metis Cons_eq_append_conv append_Cons append_Nil)
  then show ?case using Cons by auto
qed

lemma strstr_prefix: "p \<noteq> [] \<Longrightarrow> strstr (p @ v) p = Some (p @ v)"
  by (cases p) simp_all

text \<open>The conversion \<open>%u\<close>: the decimal digits of a number.\<close>

fun dec_digits :: "nat \<Rightarrow> string" where
  "dec_digits n =
     (let d = char_of (48 + n mod 10 :: nat) in if n < 10 then [d] else dec_digits (n div 10) @ [d])"

declare dec_digits.simps [simp del]

end
