(* ===== verification/GHash.thy ===== *)
theory GHash
  imports Prelude "HOL-Library.AList"
begin

text \<open>
  The hash tables of GLib as the program uses them: the cookie tables of the listener and the job
  table of the manager.  A table is the list of its entries in the order an iteration visits them;
  the contract the client components rely on is the locale \<open>hash_table\<close>, interpreted here on these
  operations.
\<close>

type_synonym ('k, 'v) ghash = "('k \<times> 'v) list"

definition gh_lookup :: "('k, 'v) ghash \<Rightarrow> 'k \<Rightarrow> 'v option" where
  "gh_lookup h k = map_of h k"

definition gh_insert :: "'k \<Rightarrow> 'v \<Rightarrow> ('k, 'v) ghash \<Rightarrow> ('k, 'v) ghash" where
  "gh_insert k v h = AList.update k v h"

definition gh_remove :: "'k \<Rightarrow> ('k, 'v) ghash \<Rightarrow> ('k, 'v) ghash" where
  "gh_remove k h = filter (\<lambda>(k', v). k' \<noteq> k) h"

definition gh_size :: "('k, 'v) ghash \<Rightarrow> nat" where
  "gh_size h = length h"

text \<open>The effect of a loop over the table that removes the entries satisfying a test.\<close>

definition gh_remove_if :: "('v \<Rightarrow> bool) \<Rightarrow> ('k, 'v) ghash \<Rightarrow> ('k, 'v) ghash" where
  "gh_remove_if P h = filter (\<lambda>(k, v). \<not> P v) h"

definition gh_ok :: "('k, 'v) ghash \<Rightarrow> bool" where
  "gh_ok h = distinct (map fst h)"

locale hash_table =
  fixes empty :: "'t"
    and lookup :: "'t \<Rightarrow> 'k \<Rightarrow> 'v option"
    and insert :: "'k \<Rightarrow> 'v \<Rightarrow> 't \<Rightarrow> 't"
    and remove :: "'k \<Rightarrow> 't \<Rightarrow> 't"
    and remove_if :: "('v \<Rightarrow> bool) \<Rightarrow> 't \<Rightarrow> 't"
    and size :: "'t \<Rightarrow> nat"
    and ok :: "'t \<Rightarrow> bool"
  assumes ok_empty: "ok empty"
    and ok_insert: "ok t \<Longrightarrow> ok (insert k v t)"
    and ok_remove: "ok t \<Longrightarrow> ok (remove k t)"
    and ok_remove_if: "ok t \<Longrightarrow> ok (remove_if P t)"
    and lookup_empty: "lookup empty k = None"
    and lookup_insert: "lookup (insert k v t) k' = (if k' = k then Some v else lookup t k')"
    and lookup_remove: "lookup (remove k t) k' = (if k' = k then None else lookup t k')"
    and lookup_remove_if: "ok t \<Longrightarrow> lookup (remove_if P t) k =
          (case lookup t k of None \<Rightarrow> None | Some v \<Rightarrow> if P v then None else Some v)"
    and size_pos: "0 < size t \<longleftrightarrow> (\<exists>k. lookup t k \<noteq> None)"
begin

lemma insert_not_empty: "0 < size (insert k v t)"
proof -
  have "lookup (insert k v t) k \<noteq> None" by (simp add: lookup_insert)
  then show ?thesis using size_pos by blast
qed

lemma remove_after_insert:
  "lookup t k = None \<Longrightarrow> lookup (remove k (insert k v t)) = lookup t"
  by (rule ext) (simp add: lookup_insert lookup_remove)

lemma insert_keeps: "lookup t k = None \<Longrightarrow> lookup t k' = Some v' \<Longrightarrow> lookup (insert k v t) k' = Some v'"
  by (auto simp: lookup_insert)

lemma remove_if_none_left: "ok t \<Longrightarrow> lookup (remove_if P t) k = Some v \<Longrightarrow> \<not> P v"
  by (simp add: lookup_remove_if split: option.splits if_splits)

lemma size_0_iff: "size t = 0 \<longleftrightarrow> (\<forall>k. lookup t k = None)"
  using size_pos [of t] by auto

end

lemma map_of_filter_key:
  "map_of (filter (\<lambda>(k', v). k' \<noteq> k) h) k' = (if k' = k then None else map_of h k')"
  by (induction h) auto

lemma map_of_filter_val:
  "distinct (map fst h) \<Longrightarrow> map_of (filter (\<lambda>(k, v). \<not> P v) h) k =
     (case map_of h k of None \<Rightarrow> None | Some v \<Rightarrow> if P v then None else Some v)"
proof (induction h)
  case Nil
  then show ?case by simp
next
  case (Cons e h)
  obtain a b where e: "e = (a, b)" by (cases e)
  have "map_of h a = None" using Cons.prems e by (simp add: map_of_eq_None_iff)
  then show ?case using Cons e by auto
qed

lemma distinct_filter_keys:
  "distinct (map fst h) \<Longrightarrow> distinct (map fst (filter Q h))"
  by (induction h) auto

interpretation gh: hash_table "[]" gh_lookup gh_insert gh_remove gh_remove_if gh_size gh_ok
proof unfold_locales
  show "gh_ok ([] :: ('a, 'b) ghash)" by (simp add: gh_ok_def)
next
  fix t :: "('a, 'b) ghash" and k v assume "gh_ok t"
  then show "gh_ok (gh_insert k v t)"
    unfolding gh_ok_def gh_insert_def by (rule distinct_update)
next
  fix t :: "('a, 'b) ghash" and k assume "gh_ok t"
  then show "gh_ok (gh_remove k t)" by (simp add: gh_ok_def gh_remove_def distinct_filter_keys)
next
  fix t :: "('a, 'b) ghash" and P assume "gh_ok t"
  then show "gh_ok (gh_remove_if P t)" by (simp add: gh_ok_def gh_remove_if_def distinct_filter_keys)
next
  fix k show "gh_lookup ([] :: ('a, 'b) ghash) k = None" by (simp add: gh_lookup_def)
next
  fix k v and t :: "('a, 'b) ghash" and k'
  show "gh_lookup (gh_insert k v t) k' = (if k' = k then Some v else gh_lookup t k')"
    by (simp add: gh_lookup_def gh_insert_def update_conv')
next
  fix k and t :: "('a, 'b) ghash" and k'
  show "gh_lookup (gh_remove k t) k' = (if k' = k then None else gh_lookup t k')"
    unfolding gh_lookup_def gh_remove_def by (rule map_of_filter_key)
next
  fix t :: "('a, 'b) ghash" and P k assume "gh_ok t"
  then show "gh_lookup (gh_remove_if P t) k =
          (case gh_lookup t k of None \<Rightarrow> None | Some v \<Rightarrow> if P v then None else Some v)"
    unfolding gh_lookup_def gh_remove_if_def gh_ok_def by (rule map_of_filter_val)
next
  fix t :: "('a, 'b) ghash"
  show "0 < gh_size t \<longleftrightarrow> (\<exists>k. gh_lookup t k \<noteq> None)"
    by (cases t) (auto simp: gh_size_def gh_lookup_def)
qed

lemmas gh_simps [simp] = gh.ok_empty gh.ok_insert gh.ok_remove gh.ok_remove_if
  gh.lookup_empty gh.lookup_insert gh.lookup_remove

end
