(* ===== verification/GS_Listener.thy ===== *)
theory GS_Listener
  imports GHash
begin

text \<open>
  \<open>src/gs-listener-dbus.c\<close>: the D-Bus side of the daemon.  It keeps the session-idle and active
  flags, the tables of inhibitors and throttlers with their cookies, and the connections to the
  session and the system bus.  libdbus, logind and the session manager are parameters, collected
  in a record: how a message answers the inspection functions of libdbus, and what remote calls
  return.  The handlers the monitor connects to the listener's signals are parameters too; they
  work on the listener together with the rest of the daemon.  The messages the listener sends are
  collected in \<open>l_sent\<close>, newest first.
\<close>

section \<open>Constants and data\<close>

definition GS_LISTENER_SERVICE :: string where "GS_LISTENER_SERVICE = ''org.mate.ScreenSaver''"
definition GS_LISTENER_PATH :: string where "GS_LISTENER_PATH = ''/org/mate/ScreenSaver''"
definition GS_FDO_LISTENER_SERVICE :: string where
  "GS_FDO_LISTENER_SERVICE = ''org.freedesktop.ScreenSaver''"
definition GS_FDO_LISTENER_PATH :: string where
  "GS_FDO_LISTENER_PATH = ''/org/freedesktop/ScreenSaver''"
definition GS_FDO_LISTENER_PATH2 :: string where "GS_FDO_LISTENER_PATH2 = ''/ScreenSaver''"
definition SYSTEMD_LOGIND_INTERFACE :: string where
  "SYSTEMD_LOGIND_INTERFACE = ''org.freedesktop.login1.Manager''"
definition SYSTEMD_LOGIND_SESSION_INTERFACE :: string where
  "SYSTEMD_LOGIND_SESSION_INTERFACE = ''org.freedesktop.login1.Session''"
definition CK_SESSION_INTERFACE :: string where
  "CK_SESSION_INTERFACE = ''org.freedesktop.ConsoleKit.Session''"
definition DBUS_INTERFACE_LOCAL :: string where
  "DBUS_INTERFACE_LOCAL = ''org.freedesktop.DBus.Local''"
definition DBUS_PATH_LOCAL :: string where "DBUS_PATH_LOCAL = ''/org/freedesktop/DBus/Local''"
definition DBUS_INTERFACE_DBUS :: string where "DBUS_INTERFACE_DBUS = ''org.freedesktop.DBus''"
definition DBUS_INTERFACE_PROPERTIES :: string where
  "DBUS_INTERFACE_PROPERTIES = ''org.freedesktop.DBus.Properties''"

datatype ref_entry_type = REF_ENTRY_TYPE_INHIBIT | REF_ENTRY_TYPE_THROTTLE

record ref_entry =
  re_entry_type :: ref_entry_type
  re_application :: string
  re_reason :: string
  re_connection :: "string option"
  re_cookie :: "32 word"
  re_foreign_cookie :: "32 word"
  re_since :: int

datatype dbus_out =
    Sig_ActiveChanged bool
  | Err_Syntax string
  | Err_Type_Mismatch
  | Ret_Empty
  | Ret_Cookie "32 word"
  | Ret_Strings "string list"
  | Ret_Bool bool
  | Ret_Secs "32 word"
  | Ret_Introspection string
  | Call_Session_Inhibit string string
  | Call_Session_Uninhibit "32 word"
  | Call_Logind_Inhibit

datatype handler_result = HANDLED | NOT_YET_HANDLED

text \<open>
  A connection object carries what has been registered on it.  The arguments of a message, as an
  iterator meets them; an array shows the type of its elements.
\<close>

record bus_conn =
  conn_paths :: "string list"
  conn_filter :: bool
  conn_matches :: "(string \<times> string) list"

datatype arg_type = T_String | T_Dict_Entry | T_Other

datatype dbus_arg =
    A_String string
  | A_Bool bool
  | A_Array arg_type "dbus_arg list"
  | A_Dict_Entry string
  | A_Other

record gs_listener =
  l_connection :: "bus_conn option"
  l_system_connection :: "bus_conn option"
  l_session_idle :: bool
  l_active :: bool
  l_activation_enabled :: bool
  l_throttled :: bool
  l_inhibitors :: "(32 word, ref_entry) ghash"
  l_throttlers :: "(32 word, ref_entry) ghash"
  l_active_start :: int
  l_session_idle_start :: int
  l_session_id :: "string option"
  l_have_systemd :: bool
  l_logind_inhibit_lock :: int
  l_ck_throttle_cookie :: "32 word"
  l_draws :: nat
  l_reinit :: nat
  l_sent :: "dbus_out list"

text \<open>
  What the surroundings answer: the clock, the random numbers
  (\<open>g_random_int_range (1, G_MAXINT32)\<close>, one value per draw), whether the session bus is
  connected, whether memory for a message is short, the replies of the session manager and of
  logind (\<open>None\<close> for an error), and how libdbus reads a message.
\<close>

record 'msg dbus_env =
  env_now :: int
  env_random :: "nat \<Rightarrow> int"
  env_connected :: bool
  env_no_memory :: bool
  env_session_inhibit :: "string \<Rightarrow> string \<Rightarrow> 32 word option"
  env_logind_inhibit :: "int option"
  env_iso8601 :: "int \<Rightarrow> string"
  env_sd_session_is_active :: "string option \<Rightarrow> bool"
  msg_is_method_call :: "'msg \<Rightarrow> string \<Rightarrow> string \<Rightarrow> bool"
  msg_is_signal :: "'msg \<Rightarrow> string \<Rightarrow> string \<Rightarrow> bool"
  msg_path :: "'msg \<Rightarrow> string option"
  msg_destination :: "'msg \<Rightarrow> string option"
  msg_sender :: "'msg \<Rightarrow> string option"
  msg_get_2_strings :: "'msg \<Rightarrow> (string \<times> string) option"
  msg_get_3_strings :: "'msg \<Rightarrow> (string \<times> string \<times> string) option"
  msg_get_uint32 :: "'msg \<Rightarrow> 32 word option"
  msg_get_boolean :: "'msg \<Rightarrow> bool option"
  msg_body :: "'msg \<Rightarrow> dbus_arg list"

type_synonym 's ls = "gs_listener \<times> 's"
type_synonym 's active_handler = "bool \<Rightarrow> 's ls \<Rightarrow> (bool \<times> 's ls) res"
type_synonym 's throttle_handler = "bool \<Rightarrow> 's ls \<Rightarrow> 's ls res"

record 's listener_signals =
  sig_lock :: "'s ls \<Rightarrow> 's ls res"
  sig_cycle :: "'s ls \<Rightarrow> 's ls res"
  sig_quit :: "'s ls \<Rightarrow> 's ls res"
  sig_simulate_user_activity :: "'s ls \<Rightarrow> 's ls res"
  sig_active_changed :: "'s active_handler"
  sig_throttle_changed :: "'s throttle_handler"
  sig_show_message :: "string \<Rightarrow> string \<Rightarrow> string \<Rightarrow> 's ls \<Rightarrow> 's ls res"
  sig_prepare_for_sleep :: "bool \<Rightarrow> 's ls \<Rightarrow> 's ls res"

section \<open>Sending\<close>

definition l_send :: "dbus_out \<Rightarrow> gs_listener \<Rightarrow> gs_listener" where
  "l_send m l = l\<lparr>l_sent := m # l_sent l\<rparr>"

definition send_dbus_message :: "'msg dbus_env \<Rightarrow> dbus_out \<Rightarrow> gs_listener \<Rightarrow> bool \<times> gs_listener" where
  "send_dbus_message e m l =
     (if l_connection l = None then (False, l)
      else if \<not> env_connected e then (False, l)
      else if env_no_memory e then (False, l)
      else (True, l_send m l))"

definition send_dbus_boolean_signal :: "'msg dbus_env \<Rightarrow> bool \<Rightarrow> gs_listener \<Rightarrow> gs_listener" where
  "send_dbus_boolean_signal e value l = snd (send_dbus_message e (Sig_ActiveChanged value) l)"

definition gs_listener_send_signal_active_changed :: "'msg dbus_env \<Rightarrow> gs_listener \<Rightarrow> gs_listener" where
  "gs_listener_send_signal_active_changed e l = send_dbus_boolean_signal e (l_active l) l"

text \<open>Creating and sending a reply; running out of memory is \<open>g_error\<close>, which aborts.\<close>

definition send_reply :: "'msg dbus_env \<Rightarrow> dbus_out \<Rightarrow> 's ls \<Rightarrow> 's ls res" where
  "send_reply e m ls = (case ls of (l, s) \<Rightarrow>
     if env_no_memory e then Inl Abort_Called else ret (l_send m l, s))"

definition raise_syntax :: "'msg dbus_env \<Rightarrow> string \<Rightarrow> 's ls \<Rightarrow> 's ls res" where
  "raise_syntax e method_name ls = send_reply e (Err_Syntax method_name) ls"

definition raise_property_type_error :: "'msg dbus_env \<Rightarrow> 's ls \<Rightarrow> 's ls res" where
  "raise_property_type_error e ls = send_reply e Err_Type_Mismatch ls"

section \<open>Reference entries and activation\<close>

definition get_name_for_entry_type :: "ref_entry_type \<Rightarrow> string" where
  "get_name_for_entry_type t =
     (case t of REF_ENTRY_TYPE_INHIBIT \<Rightarrow> ''inhibitor'' | REF_ENTRY_TYPE_THROTTLE \<Rightarrow> ''throttler'')"

definition get_hash_for_entry_type :: "gs_listener \<Rightarrow> ref_entry_type \<Rightarrow> (32 word, ref_entry) ghash" where
  "get_hash_for_entry_type l t =
     (case t of REF_ENTRY_TYPE_INHIBIT \<Rightarrow> l_inhibitors l | REF_ENTRY_TYPE_THROTTLE \<Rightarrow> l_throttlers l)"

definition put_hash :: "ref_entry_type \<Rightarrow> (32 word, ref_entry) ghash \<Rightarrow> gs_listener \<Rightarrow> gs_listener" where
  "put_hash t h l =
     (case t of REF_ENTRY_TYPE_INHIBIT \<Rightarrow> l\<lparr>l_inhibitors := h\<rparr>
              | REF_ENTRY_TYPE_THROTTLE \<Rightarrow> l\<lparr>l_throttlers := h\<rparr>)"

definition listener_ref_entry_is_present :: "gs_listener \<Rightarrow> ref_entry_type \<Rightarrow> bool" where
  "listener_ref_entry_is_present l t = (0 < gh_size (get_hash_for_entry_type l t))"

definition listener_set_session_idle_internal :: "'msg dbus_env \<Rightarrow> bool \<Rightarrow> gs_listener \<Rightarrow> gs_listener" where
  "listener_set_session_idle_internal e idle l =
     l\<lparr>l_session_idle := idle, l_session_idle_start := (if idle then env_now e else 0)\<rparr>"

definition listener_set_active_internal :: "'msg dbus_env \<Rightarrow> bool \<Rightarrow> gs_listener \<Rightarrow> gs_listener" where
  "listener_set_active_internal e active l =
     (let l = l\<lparr>l_active := active\<rparr>;
          l = (if l_session_idle l \<noteq> active then listener_set_session_idle_internal e active l else l);
          l = l\<lparr>l_active_start := (if active then env_now e else 0)\<rparr> in
      gs_listener_send_signal_active_changed e l)"

definition gs_listener_set_active ::
  "'msg dbus_env \<Rightarrow> 's active_handler \<Rightarrow> bool \<Rightarrow> 's ls \<Rightarrow> (bool \<times> 's ls) res" where
  "gs_listener_set_active e active_changed active ls =
     (case ls of (l, s) \<Rightarrow>
        if l_active l = active then ret (False, l, s)
        else
          rbind (active_changed active (l, s)) (\<lambda>(res, l, s).
          if \<not> res then
            ret (False, if active then listener_set_session_idle_internal e False l else l, s)
          else ret (True, listener_set_active_internal e active l, s)))"

definition listener_check_activation ::
  "'msg dbus_env \<Rightarrow> 's active_handler \<Rightarrow> 's ls \<Rightarrow> (bool \<times> 's ls) res" where
  "listener_check_activation e active_changed ls =
     (case ls of (l, s) \<Rightarrow>
        if \<not> l_activation_enabled l then ret (True, l, s)
        else if \<not> l_session_idle l then ret (True, l, s)
        else if \<not> listener_ref_entry_is_present l REF_ENTRY_TYPE_INHIBIT then
          gs_listener_set_active e active_changed True (l, s)
        else ret (False, l, s))"

definition gs_listener_set_throttle :: "'s throttle_handler \<Rightarrow> bool \<Rightarrow> 's ls \<Rightarrow> 's ls res" where
  "gs_listener_set_throttle throttle_changed throttled ls =
     (case ls of (l, s) \<Rightarrow>
        if l_throttled l \<noteq> throttled then
          throttle_changed throttled (l\<lparr>l_throttled := throttled\<rparr>, s)
        else ret (l, s))"

definition listener_check_throttle :: "'s throttle_handler \<Rightarrow> 's ls \<Rightarrow> (bool \<times> 's ls) res" where
  "listener_check_throttle throttle_changed ls =
     (case ls of (l, s) \<Rightarrow>
        let throttled = listener_ref_entry_is_present l REF_ENTRY_TYPE_THROTTLE in
        if throttled \<noteq> l_throttled l then
          rbind (gs_listener_set_throttle throttle_changed throttled (l, s)) (\<lambda>ls. ret (True, ls))
        else ret (True, l, s))"

definition gs_listener_set_session_idle ::
  "'msg dbus_env \<Rightarrow> 's active_handler \<Rightarrow> bool \<Rightarrow> 's ls \<Rightarrow> (bool \<times> 's ls) res" where
  "gs_listener_set_session_idle e active_changed idle ls =
     (case ls of (l, s) \<Rightarrow>
        if l_session_idle l = idle then ret (False, l, s)
        else if idle \<and> listener_ref_entry_is_present l REF_ENTRY_TYPE_INHIBIT then ret (False, l, s)
        else
          rbind (listener_check_activation e active_changed (l\<lparr>l_session_idle := idle\<rparr>, s))
            (\<lambda>(res, l, s).
          if res then ret (True, listener_set_session_idle_internal e idle l, s)
          else ret (False, l\<lparr>l_session_idle := \<not> idle\<rparr>, s)))"

definition gs_listener_get_activation_enabled :: "gs_listener \<Rightarrow> bool" where
  "gs_listener_get_activation_enabled l = l_activation_enabled l"

definition gs_listener_is_inhibited :: "gs_listener \<Rightarrow> bool" where
  "gs_listener_is_inhibited l = listener_ref_entry_is_present l REF_ENTRY_TYPE_INHIBIT"

definition gs_listener_set_activation_enabled :: "bool \<Rightarrow> gs_listener \<Rightarrow> gs_listener" where
  "gs_listener_set_activation_enabled enabled l =
     (if l_activation_enabled l \<noteq> enabled then l\<lparr>l_activation_enabled := enabled\<rparr> else l)"

section \<open>Cookies\<close>

definition generate_cookie :: "'msg dbus_env \<Rightarrow> nat \<Rightarrow> 32 word" where
  "generate_cookie e n = word_of_int (env_random e n)"

text \<open>
  Drawing until the cookie is not in the table.  The loop ends only if some draw is fresh; the
  result is the cookie and the number of draws made since the daemon started.
\<close>

partial_function (option) draw_unique ::
  "'msg dbus_env \<Rightarrow> (32 word, ref_entry) ghash \<Rightarrow> nat \<Rightarrow> (32 word \<times> nat) option" where
  "draw_unique e hash n =
     (let cookie = generate_cookie e n in
      if gh_lookup hash cookie \<noteq> None then draw_unique e hash (Suc n)
      else Some (cookie, Suc n))"

definition listener_generate_unique_key ::
  "'msg dbus_env \<Rightarrow> ref_entry_type \<Rightarrow> gs_listener \<Rightarrow> (32 word \<times> gs_listener) res" where
  "listener_generate_unique_key e t l =
     (case draw_unique e (get_hash_for_entry_type l t) (l_draws l) of
        None \<Rightarrow> Inl No_Return
      | Some (cookie, n) \<Rightarrow> ret (cookie, l\<lparr>l_draws := n\<rparr>))"

section \<open>Adding and removing entries\<close>

definition listener_ref_entry_check ::
  "'msg dbus_env \<Rightarrow> 's active_handler \<Rightarrow> 's throttle_handler \<Rightarrow> ref_entry_type \<Rightarrow> 's ls \<Rightarrow> 's ls res" where
  "listener_ref_entry_check e ac tc t ls =
     (case t of
        REF_ENTRY_TYPE_INHIBIT \<Rightarrow> rbind (listener_check_activation e ac ls) (\<lambda>(_, ls). ret ls)
      | REF_ENTRY_TYPE_THROTTLE \<Rightarrow> rbind (listener_check_throttle tc ls) (\<lambda>(_, ls). ret ls))"

text \<open>
  The proxied calls to the session manager.  libdbus does not accept a NULL connection.  A failed
  call leaves the foreign cookie as it was.
\<close>

definition add_session_inhibit ::
  "'msg dbus_env \<Rightarrow> ref_entry \<Rightarrow> gs_listener \<Rightarrow> (ref_entry \<times> gs_listener) res" where
  "add_session_inhibit e entry l =
     (if env_no_memory e then ret (entry, l)
      else if l_connection l = None then Inl Null_Deref
      else
        (let l = l_send (Call_Session_Inhibit (re_application entry) (re_reason entry)) l in
         case env_session_inhibit e (re_application entry) (re_reason entry) of
           None \<Rightarrow> ret (entry, l)
         | Some c \<Rightarrow> ret (entry\<lparr>re_foreign_cookie := c\<rparr>, l)))"

definition remove_session_inhibit ::
  "'msg dbus_env \<Rightarrow> ref_entry \<Rightarrow> gs_listener \<Rightarrow> gs_listener res" where
  "remove_session_inhibit e entry l =
     (if re_foreign_cookie entry = 0 then ret l
      else if env_no_memory e then ret l
      else if l_connection l = None then Inl Null_Deref
      else ret (l_send (Call_Session_Uninhibit (re_foreign_cookie entry)) l))"

text \<open>
  The table holds a pointer to the entry, so a foreign cookie stored after the insertion is in the
  table too.
\<close>

definition listener_add_ref_entry ::
  "'msg dbus_env \<Rightarrow> 's active_handler \<Rightarrow> 's throttle_handler \<Rightarrow> ref_entry_type \<Rightarrow> ref_entry \<Rightarrow>
   's ls \<Rightarrow> 's ls res" where
  "listener_add_ref_entry e ac tc t entry ls =
     (case ls of (l, s) \<Rightarrow>
        let l = put_hash t (gh_insert (re_cookie entry) entry (get_hash_for_entry_type l t)) l in
        rbind (if t = REF_ENTRY_TYPE_INHIBIT then
                 rbind (add_session_inhibit e entry l) (\<lambda>(entry, l).
                 ret (put_hash t (gh_insert (re_cookie entry) entry (get_hash_for_entry_type l t)) l))
               else ret l) (\<lambda>l.
        listener_ref_entry_check e ac tc t (l, s)))"

definition listener_remove_ref_entry ::
  "'msg dbus_env \<Rightarrow> 's active_handler \<Rightarrow> 's throttle_handler \<Rightarrow> ref_entry_type \<Rightarrow> 32 word \<Rightarrow>
   's ls \<Rightarrow> (bool \<times> 's ls) res" where
  "listener_remove_ref_entry e ac tc t cookie ls =
     (case ls of (l, s) \<Rightarrow>
        case gh_lookup (get_hash_for_entry_type l t) cookie of
          None \<Rightarrow> ret (False, l, s)
        | Some entry \<Rightarrow>
            rbind (if t = REF_ENTRY_TYPE_INHIBIT then remove_session_inhibit e entry l else ret l) (\<lambda>l.
            let l = put_hash t (gh_remove cookie (get_hash_for_entry_type l t)) l in
            rbind (listener_ref_entry_check e ac tc t (l, s)) (\<lambda>ls. ret (True, ls))))"

definition accumulate_ref_entry :: "'msg dbus_env \<Rightarrow> ref_entry \<Rightarrow> string" where
  "accumulate_ref_entry e entry =
     ''Application='' @ [CHR 0x22] @ re_application entry @ [CHR 0x22] @ ''; Since='' @ [CHR 0x22]
     @ env_iso8601 e (re_since entry) @ [CHR 0x22] @ ''; Reason='' @ [CHR 0x22] @ re_reason entry
     @ [CHR 0x22] @ '';''"

definition listener_dbus_get_ref_entries ::
  "'msg dbus_env \<Rightarrow> ref_entry_type \<Rightarrow> 's ls \<Rightarrow> (handler_result \<times> 's ls) res" where
  "listener_dbus_get_ref_entries e t ls =
     rbind (send_reply e
       (Ret_Strings (map (\<lambda>(k, en). accumulate_ref_entry e en) (get_hash_for_entry_type (fst ls) t))) ls)
     (\<lambda>ls. ret (HANDLED, ls))"

definition listener_add_ck_ref_entry ::
  "'msg dbus_env \<Rightarrow> 's active_handler \<Rightarrow> 's throttle_handler \<Rightarrow> ref_entry_type \<Rightarrow> 'msg \<Rightarrow>
   's ls \<Rightarrow> (32 word \<times> 's ls) res" where
  "listener_add_ck_ref_entry e ac tc t message ls =
     (case ls of (l, s) \<Rightarrow>
        rbind (listener_generate_unique_key e t l) (\<lambda>(cookie, l).
        let entry = \<lparr>re_entry_type = t, re_application = ''ConsoleKit'',
                     re_reason = ''Session is not active'', re_connection = msg_sender e message,
                     re_cookie = cookie, re_foreign_cookie = 0, re_since = env_now e\<rparr> in
        rbind (listener_add_ref_entry e ac tc t entry (l, s)) (\<lambda>ls. ret (cookie, ls))))"

definition listener_remove_ck_ref_entry ::
  "'msg dbus_env \<Rightarrow> 's active_handler \<Rightarrow> 's throttle_handler \<Rightarrow> ref_entry_type \<Rightarrow> 32 word \<Rightarrow>
   's ls \<Rightarrow> 's ls res" where
  "listener_remove_ck_ref_entry e ac tc t cookie ls =
     rbind (listener_remove_ref_entry e ac tc t cookie ls) (\<lambda>(_, ls). ret ls)"

definition listener_dbus_add_ref_entry ::
  "'msg dbus_env \<Rightarrow> 's active_handler \<Rightarrow> 's throttle_handler \<Rightarrow> ref_entry_type \<Rightarrow> 'msg \<Rightarrow>
   's ls \<Rightarrow> (handler_result \<times> 's ls) res" where
  "listener_dbus_add_ref_entry e ac tc t message ls =
     (case ls of (l, s) \<Rightarrow>
        case msg_get_2_strings e message of
          None \<Rightarrow>
            rbind (raise_syntax e
              (case t of REF_ENTRY_TYPE_INHIBIT \<Rightarrow> ''Inhibit'' | REF_ENTRY_TYPE_THROTTLE \<Rightarrow> ''Throttle'')
              (l, s)) (\<lambda>ls. ret (HANDLED, ls))
        | Some (application, reason) \<Rightarrow>
            if env_no_memory e then Inl Abort_Called
            else
              rbind (listener_generate_unique_key e t l) (\<lambda>(cookie, l).
              let entry = \<lparr>re_entry_type = t, re_application = application, re_reason = reason,
                           re_connection = msg_sender e message, re_cookie = cookie,
                           re_foreign_cookie = 0, re_since = env_now e\<rparr> in
              rbind (listener_add_ref_entry e ac tc t entry (l, s)) (\<lambda>ls.
              rbind (send_reply e (Ret_Cookie cookie) ls) (\<lambda>ls. ret (HANDLED, ls)))))"

definition listener_dbus_remove_ref_entry ::
  "'msg dbus_env \<Rightarrow> 's active_handler \<Rightarrow> 's throttle_handler \<Rightarrow> ref_entry_type \<Rightarrow> 'msg \<Rightarrow>
   's ls \<Rightarrow> (handler_result \<times> 's ls) res" where
  "listener_dbus_remove_ref_entry e ac tc t message ls =
     (case msg_get_uint32 e message of
        None \<Rightarrow>
          rbind (raise_syntax e
            (case t of REF_ENTRY_TYPE_INHIBIT \<Rightarrow> ''UnInhibit'' | REF_ENTRY_TYPE_THROTTLE \<Rightarrow> ''UnThrottle'')
            ls) (\<lambda>ls. ret (HANDLED, ls))
      | Some cookie \<Rightarrow>
          if env_no_memory e then Inl Abort_Called
          else
            rbind (listener_remove_ref_entry e ac tc t cookie ls) (\<lambda>(_, ls).
            rbind (send_reply e Ret_Empty ls) (\<lambda>ls. ret (HANDLED, ls))))"

text \<open>The loop over the table, entry by entry, removing the entries of one connection.\<close>

fun remove_for_connection_loop ::
  "'msg dbus_env \<Rightarrow> ref_entry_type \<Rightarrow> string \<Rightarrow> (32 word \<times> ref_entry) list \<Rightarrow> bool \<Rightarrow> gs_listener \<Rightarrow>
   (bool \<times> gs_listener) res" where
  "remove_for_connection_loop e t connection [] removed l = ret (removed, l)"
| "remove_for_connection_loop e t connection ((k, entry) # rest) removed l =
     (if re_connection entry \<noteq> None \<and> connection = the (re_connection entry) then
        rbind (if re_entry_type entry = REF_ENTRY_TYPE_INHIBIT then remove_session_inhibit e entry l
               else ret l) (\<lambda>l.
        remove_for_connection_loop e t connection rest True
          (put_hash t (gh_remove k (get_hash_for_entry_type l t)) l))
      else remove_for_connection_loop e t connection rest removed l)"

definition listener_ref_entry_remove_for_connection ::
  "'msg dbus_env \<Rightarrow> ref_entry_type \<Rightarrow> string option \<Rightarrow> gs_listener \<Rightarrow> (bool \<times> gs_listener) res" where
  "listener_ref_entry_remove_for_connection e t connection l =
     (case connection of
        None \<Rightarrow> ret (False, l)
      | Some c \<Rightarrow> remove_for_connection_loop e t c (get_hash_for_entry_type l t) False l)"

definition listener_service_deleted ::
  "'msg dbus_env \<Rightarrow> 's active_handler \<Rightarrow> 's throttle_handler \<Rightarrow> 'msg \<Rightarrow> 's ls \<Rightarrow> 's ls res" where
  "listener_service_deleted e ac tc message ls =
     (case ls of (l, s) \<Rightarrow>
        case msg_get_2_strings e message of
          None \<Rightarrow> Inl Abort_Called
        | Some (old_service_name, new_service_name) \<Rightarrow>
            rbind (listener_ref_entry_remove_for_connection e REF_ENTRY_TYPE_THROTTLE
                     (Some new_service_name) l) (\<lambda>(removed, l).
            rbind (if removed then listener_ref_entry_check e ac tc REF_ENTRY_TYPE_THROTTLE (l, s)
                   else ret (l, s)) (\<lambda>(l, s).
            rbind (listener_ref_entry_remove_for_connection e REF_ENTRY_TYPE_INHIBIT
                     (Some new_service_name) l) (\<lambda>(removed, l).
            if removed then listener_ref_entry_check e ac tc REF_ENTRY_TYPE_INHIBIT (l, s)
            else ret (l, s)))))"

section \<open>Drawing cookies\<close>

lemma draw_unique_fresh:
  assumes "draw_unique e hash n = Some r"
  shows "gh_lookup hash (fst r) = None \<and> (\<exists>m \<ge> n. fst r = generate_cookie e m \<and> snd r = Suc m)"
proof (rule draw_unique.raw_induct [where P = "\<lambda>e hash n r. gh_lookup hash (fst r) = None
     \<and> (\<exists>m \<ge> n. fst r = generate_cookie e m \<and> snd r = Suc m)", OF _ assms])
  fix draw :: "'a dbus_env \<Rightarrow> (32 word, ref_entry) ghash \<Rightarrow> nat \<Rightarrow> (32 word \<times> nat) option"
    and e hash n r
  assume IH: "\<And>e hash n r. draw e hash n = Some r \<Longrightarrow>
        gh_lookup hash (fst r) = None \<and> (\<exists>m \<ge> n. fst r = generate_cookie e m \<and> snd r = Suc m)"
    and step: "(let cookie = generate_cookie e n in
        if gh_lookup hash cookie \<noteq> None then draw e hash (Suc n) else Some (cookie, Suc n)) = Some r"
  show "gh_lookup hash (fst r) = None \<and> (\<exists>m \<ge> n. fst r = generate_cookie e m \<and> snd r = Suc m)"
  proof (cases "gh_lookup hash (generate_cookie e n) = None")
    case True
    then show ?thesis using step by (auto simp: Let_def)
  next
    case False
    then have "draw e hash (Suc n) = Some r" using step by (simp add: Let_def)
    then show ?thesis using IH [of e hash "Suc n" r] by (auto dest: Suc_leD)
  qed
qed

lemma draw_unique_returns:
  assumes "n \<le> m" "gh_lookup hash (generate_cookie e m) = None"
  shows "\<exists>r. draw_unique e hash n = Some r"
  using assms
proof (induction "m - n" arbitrary: n)
  case 0
  then show ?case by (subst draw_unique.simps) (simp add: Let_def)
next
  case (Suc d)
  show ?case
  proof (cases "gh_lookup hash (generate_cookie e n) = None")
    case True
    then show ?thesis by (subst draw_unique.simps) (simp add: Let_def)
  next
    case False
    then have "n \<noteq> m" using Suc.prems by auto
    then have "\<exists>r. draw_unique e hash (Suc n) = Some r"
      using Suc.hyps(2) Suc.prems by (intro Suc.hyps(1)) auto
    then show ?thesis using False by (subst draw_unique.simps) (simp add: Let_def)
  qed
qed

text \<open>\<open>g_random_int_range (1, G_MAXINT32)\<close> yields values from 1 below \<open>G_MAXINT32\<close>.\<close>

definition random_in_range :: "'msg dbus_env \<Rightarrow> bool" where
  "random_in_range e = (\<forall>n. 1 \<le> env_random e n \<and> env_random e n < 2 ^ 31 - 1)"

lemma generate_cookie_range:
  assumes "random_in_range e"
  shows "0 < generate_cookie e n \<and> unat (generate_cookie e n) < 2 ^ 31 - 1"
proof -
  have r: "1 \<le> env_random e n" "env_random e n < 2 ^ 31 - 1"
    using assms by (auto simp: random_in_range_def)
  then have u: "uint (generate_cookie e n) = env_random e n"
    by (simp add: generate_cookie_def uint_word_of_int)
  have "0 < uint (generate_cookie e n)" using r(1) u by simp
  then have "0 < generate_cookie e n" by (simp add: word_less_def)
  moreover have "unat (generate_cookie e n) < 2 ^ 31 - 1"
    using r u by (simp add: unat_eq_nat_uint nat_less_iff)
  ultimately show ?thesis by simp
qed

lemma unique_key_post:
  "rpost (\<lambda>(cookie, l'). gh_lookup (get_hash_for_entry_type l t) cookie = None
      \<and> (\<exists>m. cookie = generate_cookie e m) \<and> l' = l\<lparr>l_draws := l_draws l'\<rparr>)
    (listener_generate_unique_key e t l)"
  by (auto simp: listener_generate_unique_key_def dest!: draw_unique_fresh split: option.splits)

section \<open>Table invariant\<close>

text \<open>
  Every entry of a table is filed under its own cookie and has the type of its table, and the
  throttle flag says whether there are throttlers.
\<close>

definition entries_ok :: "ref_entry_type \<Rightarrow> (32 word, ref_entry) ghash \<Rightarrow> bool" where
  "entries_ok t h =
     (gh_ok h \<and> list_all (\<lambda>(k, en). re_cookie en = k \<and> re_entry_type en = t) h)"

definition throttle_ok :: "gs_listener \<Rightarrow> bool" where
  "throttle_ok l = (l_throttled l = listener_ref_entry_is_present l REF_ENTRY_TYPE_THROTTLE)"

definition listener_ok :: "gs_listener \<Rightarrow> bool" where
  "listener_ok l =
     (entries_ok REF_ENTRY_TYPE_INHIBIT (l_inhibitors l)
      \<and> entries_ok REF_ENTRY_TYPE_THROTTLE (l_throttlers l) \<and> throttle_ok l)"

definition tables_ok :: "gs_listener \<Rightarrow> bool" where
  "tables_ok l =
     (entries_ok REF_ENTRY_TYPE_INHIBIT (l_inhibitors l)
      \<and> entries_ok REF_ENTRY_TYPE_THROTTLE (l_throttlers l))"

lemma listener_ok_split: "listener_ok l = (tables_ok l \<and> throttle_ok l)"
  by (auto simp: listener_ok_def tables_ok_def)

lemmas hash_defs = get_hash_for_entry_type_def put_hash_def

lemma hash_put [simp]:
  "get_hash_for_entry_type (put_hash t h l) t' = (if t' = t then h else get_hash_for_entry_type l t')"
  by (cases t; cases t') (simp_all add: hash_defs)

lemma entries_ok_insert:
  "entries_ok t h \<Longrightarrow> re_entry_type en = t \<Longrightarrow> re_cookie en = k \<Longrightarrow> entries_ok t (gh_insert k en h)"
proof -
  assume a: "entries_ok t h" "re_entry_type en = t" "re_cookie en = k"
  have "set (gh_insert k en h) \<subseteq> insert (k, en) (set h)"
    unfolding gh_insert_def by (induction h) auto
  then show ?thesis using a by (auto simp: entries_ok_def list_all_iff)
qed

lemma entries_ok_remove: "entries_ok t h \<Longrightarrow> entries_ok t (gh_remove k h)"
  using gh.ok_remove [of h k] by (auto simp: entries_ok_def list_all_iff gh_remove_def)

lemma entries_ok_remove_if: "entries_ok t h \<Longrightarrow> entries_ok t (gh_remove_if P h)"
  using gh.ok_remove_if [of h P] by (auto simp: entries_ok_def list_all_iff gh_remove_if_def)

lemma tables_ok_alt: "tables_ok l \<longleftrightarrow> (\<forall>t. entries_ok t (get_hash_for_entry_type l t))"
  by (auto simp: tables_ok_def hash_defs split: ref_entry_type.splits)

text \<open>Updates that leave the tables and the throttle flag alone.\<close>

definition same_tables :: "gs_listener \<Rightarrow> gs_listener \<Rightarrow> bool" where
  "same_tables l l' =
     (l_inhibitors l' = l_inhibitors l \<and> l_throttlers l' = l_throttlers l
      \<and> l_throttled l' = l_throttled l \<and> l_connection l' = l_connection l)"

lemma same_tables_refl [simp]: "same_tables l l"
  by (simp add: same_tables_def)

lemma same_tables_trans: "same_tables l l1 \<Longrightarrow> same_tables l1 l2 \<Longrightarrow> same_tables l l2"
  by (simp add: same_tables_def)

lemma same_tables_hash: "same_tables l l' \<Longrightarrow> get_hash_for_entry_type l' t = get_hash_for_entry_type l t"
  by (cases t) (simp_all add: same_tables_def hash_defs)

lemma same_tables_all:
  "same_tables l l' \<Longrightarrow>
     (\<forall>t. get_hash_for_entry_type l' t = get_hash_for_entry_type l t) \<and> l_connection l' = l_connection l"
  by (intro conjI allI, erule same_tables_hash) (simp add: same_tables_def)

lemma same_tables_ok:
  "same_tables l l' \<Longrightarrow> tables_ok l' = tables_ok l"
  "same_tables l l' \<Longrightarrow> throttle_ok l' = throttle_ok l"
  "same_tables l l' \<Longrightarrow> listener_ok l' = listener_ok l"
  by (simp_all add: same_tables_def tables_ok_def throttle_ok_def listener_ok_def
      listener_ref_entry_is_present_def hash_defs)

lemma same_tables_updates [simp]:
  "same_tables l (l'\<lparr>l_session_idle := a\<rparr>) = same_tables l l'"
  "same_tables l (l'\<lparr>l_active := b\<rparr>) = same_tables l l'"
  "same_tables l (l'\<lparr>l_active_start := i\<rparr>) = same_tables l l'"
  "same_tables l (l'\<lparr>l_session_idle_start := j\<rparr>) = same_tables l l'"
  "same_tables l (l'\<lparr>l_draws := n\<rparr>) = same_tables l l'"
  "same_tables l (l'\<lparr>l_ck_throttle_cookie := c\<rparr>) = same_tables l l'"
  "same_tables l (l'\<lparr>l_logind_inhibit_lock := d\<rparr>) = same_tables l l'"
  "same_tables l (l_send m l') = same_tables l l'"
  by (simp_all add: same_tables_def l_send_def)

lemma same_tables_session_idle_internal [simp]:
  "same_tables l (listener_set_session_idle_internal e idle l') = same_tables l l'"
  by (simp add: listener_set_session_idle_internal_def)

lemma same_tables_active_internal [simp]:
  "same_tables l (listener_set_active_internal e a l') = same_tables l l'"
  by (simp add: listener_set_active_internal_def gs_listener_send_signal_active_changed_def
      send_dbus_boolean_signal_def send_dbus_message_def Let_def)

lemma add_session_inhibit_post:
  "rpost (\<lambda>(en', l'). same_tables l l' \<and> (\<exists>c. en' = en\<lparr>re_foreign_cookie := c\<rparr>)) (add_session_inhibit e en l)"
proof -
  have "\<exists>c. en = en\<lparr>re_foreign_cookie := c\<rparr>"
    by (rule exI [of _ "re_foreign_cookie en"]) simp
  then show ?thesis by (auto simp: add_session_inhibit_def Let_def split: option.splits)
qed

lemma remove_session_inhibit_post: "rpost (same_tables l) (remove_session_inhibit e en l)"
  by (simp add: remove_session_inhibit_def)

section \<open>The contract with the connected handlers\<close>

text \<open>
  The handlers of the active and throttle signals do not touch the listener, and keep an invariant
  of the rest of the daemon.  Under this contract the table operations do exactly what their names
  say and keep the table invariant.
\<close>

locale listener_core =
  fixes e :: "'msg dbus_env"
    and ac :: "'s active_handler"
    and tc :: "'s throttle_handler"
    and I :: "'s \<Rightarrow> bool"
  assumes ac_frame: "I s \<Longrightarrow> rpost (\<lambda>(r, l', s'). l' = l \<and> I s') (ac b (l, s))"
    and tc_frame: "I s \<Longrightarrow> rpost (\<lambda>(l', s'). l' = l \<and> I s') (tc b (l, s))"
begin

lemma set_active_post:
  assumes "I s"
  shows "rpost (\<lambda>(r, l', s'). same_tables l l' \<and> I s') (gs_listener_set_active e ac a (l, s))"
proof -
  have "rpost (\<lambda>x. rpost (\<lambda>(r, l', s'). same_tables l l' \<and> I s')
      (case x of (res, l, s) \<Rightarrow>
         if \<not> res then Inr (False, if a then listener_set_session_idle_internal e False l else l, s)
         else Inr (True, listener_set_active_internal e a l, s))) (ac a (l, s))"
    using ac_frame [OF assms, of l a] by (rule rpost_mono) auto
  then show ?thesis using assms by (simp add: gs_listener_set_active_def)
qed

lemma check_activation_post:
  "I s \<Longrightarrow> rpost (\<lambda>(r, l', s'). same_tables l l' \<and> I s') (listener_check_activation e ac (l, s))"
  by (simp add: listener_check_activation_def set_active_post)

lemma set_session_idle_post:
  assumes "I s"
  shows "rpost (\<lambda>(r, l', s'). same_tables l l' \<and> I s') (gs_listener_set_session_idle e ac b (l, s))"
proof -
  have "rpost (\<lambda>(r, l', s'). same_tables (l\<lparr>l_session_idle := b\<rparr>) l' \<and> I s')
      (listener_check_activation e ac (l\<lparr>l_session_idle := b\<rparr>, s))"
    using check_activation_post [OF assms] .
  then have "rpost (\<lambda>(r, l', s'). same_tables l l' \<and> I s')
      (listener_check_activation e ac (l\<lparr>l_session_idle := b\<rparr>, s))"
    by (rule rpost_mono) (auto simp: same_tables_def)
  then have "rpost (\<lambda>x. rpost (\<lambda>(r, l', s'). same_tables l l' \<and> I s')
      (case x of (res, l, s) \<Rightarrow>
         if res then Inr (True, listener_set_session_idle_internal e b l, s)
         else Inr (False, l\<lparr>l_session_idle := \<not> b\<rparr>, s)))
      (listener_check_activation e ac (l\<lparr>l_session_idle := b\<rparr>, s))"
    by (rule rpost_mono) auto
  then show ?thesis using assms by (simp add: gs_listener_set_session_idle_def)
qed

lemma check_throttle_post:
  assumes "I s"
  shows "rpost (\<lambda>(r, l', s'). l' = l\<lparr>l_throttled := listener_ref_entry_is_present l REF_ENTRY_TYPE_THROTTLE\<rparr> \<and> I s')
           (listener_check_throttle tc (l, s))"
proof -
  let ?p = "listener_ref_entry_is_present l REF_ENTRY_TYPE_THROTTLE"
  have "rpost (\<lambda>x. case x of (l', s') \<Rightarrow> l' = l\<lparr>l_throttled := ?p\<rparr> \<and> I s')
      (tc ?p (l\<lparr>l_throttled := ?p\<rparr>, s))"
    using tc_frame [OF assms] .
  then show ?thesis
    using assms by (auto simp: listener_check_throttle_def gs_listener_set_throttle_def Let_def
        split_def)
qed

text \<open>The check after a change of a table leaves the tables alone and restores the flag.\<close>

lemma ref_entry_check_post:
  assumes "I s" "tables_ok l" "t = REF_ENTRY_TYPE_INHIBIT \<Longrightarrow> throttle_ok l"
  shows "rpost (\<lambda>(l', s'). (\<forall>t. get_hash_for_entry_type l' t = get_hash_for_entry_type l t)
             \<and> l_connection l' = l_connection l \<and> listener_ok l' \<and> I s')
           (listener_ref_entry_check e ac tc t (l, s))"
proof (cases t)
  case REF_ENTRY_TYPE_INHIBIT
  have "rpost (\<lambda>(r, l', s'). same_tables l l' \<and> I s') (listener_check_activation e ac (l, s))"
    using check_activation_post assms(1) by blast
  then have "rpost (\<lambda>x. rpost (\<lambda>(l', s'). (\<forall>t. get_hash_for_entry_type l' t = get_hash_for_entry_type l t)
             \<and> l_connection l' = l_connection l \<and> listener_ok l' \<and> I s') (case x of (_, ls) \<Rightarrow> Inr ls))
      (listener_check_activation e ac (l, s))"
  proof (rule rpost_mono, clarify)
    fix r l' s' assume l': "same_tables l l'" "I s'"
    then have "listener_ok l'"
      using assms REF_ENTRY_TYPE_INHIBIT by (simp add: same_tables_ok(1,2) [OF l'(1)] listener_ok_split)
    then show "rpost (\<lambda>(l', s'). (\<forall>t. get_hash_for_entry_type l' t = get_hash_for_entry_type l t)
             \<and> l_connection l' = l_connection l \<and> listener_ok l' \<and> I s') (Inr (l', s'))"
      using same_tables_all [OF l'(1)] l'(2) by simp
  qed
  then show ?thesis using REF_ENTRY_TYPE_INHIBIT by (simp add: listener_ref_entry_check_def)
next
  case REF_ENTRY_TYPE_THROTTLE
  let ?p = "listener_ref_entry_is_present l REF_ENTRY_TYPE_THROTTLE"
  have "listener_ok (l\<lparr>l_throttled := ?p\<rparr>)"
    using assms(2) by (simp add: listener_ok_def tables_ok_def throttle_ok_def
        listener_ref_entry_is_present_def hash_defs)
  moreover have "get_hash_for_entry_type (l\<lparr>l_throttled := ?p\<rparr>) t' = get_hash_for_entry_type l t'" for t'
    by (cases t') (simp_all add: hash_defs)
  ultimately have "rpost (\<lambda>x. rpost (\<lambda>(l', s'). (\<forall>t. get_hash_for_entry_type l' t = get_hash_for_entry_type l t)
             \<and> l_connection l' = l_connection l \<and> listener_ok l' \<and> I s') (case x of (_, ls) \<Rightarrow> Inr ls))
      (listener_check_throttle tc (l, s))"
    by (intro rpost_mono [OF check_throttle_post [OF assms(1)]]) auto
  then show ?thesis using REF_ENTRY_TYPE_THROTTLE by (simp add: listener_ref_entry_check_def)
qed

lemma tables_ok_put:
  "tables_ok l \<Longrightarrow> entries_ok t h \<Longrightarrow> tables_ok (put_hash t h l)"
  by (simp add: tables_ok_alt)

lemma throttle_ok_put_inhibit [simp]:
  "throttle_ok (put_hash REF_ENTRY_TYPE_INHIBIT h l) = throttle_ok l"
  by (simp add: throttle_ok_def listener_ref_entry_is_present_def hash_defs)

lemma put_hash_frame [simp]:
  "l_connection (put_hash t h l) = l_connection l"
  "l_throttled (put_hash t h l) = l_throttled l"
  by (cases t; simp add: put_hash_def)+

text \<open>Adding: the table gains exactly the entry, under its cookie, up to the foreign cookie.\<close>

lemma add_ref_entry_post:
  assumes "listener_ok l" "I s" "re_entry_type en = t"
  shows "rpost (\<lambda>(l', s').
           (\<exists>c. gh_lookup (get_hash_for_entry_type l' t) =
                  (gh_lookup (get_hash_for_entry_type l t))(re_cookie en \<mapsto> en\<lparr>re_foreign_cookie := c\<rparr>))
           \<and> (\<forall>t'. t' \<noteq> t \<longrightarrow> get_hash_for_entry_type l' t' = get_hash_for_entry_type l t')
           \<and> listener_ok l' \<and> I s')
         (listener_add_ref_entry e ac tc t en (l, s))"
proof -
  let ?h = "get_hash_for_entry_type l t"
  let ?l1 = "put_hash t (gh_insert (re_cookie en) en ?h) l"
  let ?l2 = "\<lambda>c l. put_hash t (gh_insert (re_cookie en) (en\<lparr>re_foreign_cookie := c\<rparr>)
                    (gh_insert (re_cookie en) en ?h)) l"
  have ok: "tables_ok l" "throttle_ok l" using assms(1) by (simp_all add: listener_ok_split)
  have t1: "entries_ok t (gh_insert (re_cookie en) en ?h)"
    using ok(1) assms(3) by (auto simp: tables_ok_alt intro: entries_ok_insert)
  have t2: "entries_ok t (gh_insert (re_cookie en) (en\<lparr>re_foreign_cookie := c\<rparr>) (gh_insert (re_cookie en) en ?h))" for c
    using entries_ok_insert [OF t1, of "en\<lparr>re_foreign_cookie := c\<rparr>"] assms(3) by simp
  have self: "en = en\<lparr>re_foreign_cookie := re_foreign_cookie en\<rparr>" by simp
  have ins: "rpost (\<lambda>l'. tables_ok l' \<and> (t = REF_ENTRY_TYPE_INHIBIT \<longrightarrow> throttle_ok l')
       \<and> (\<exists>c. gh_lookup (get_hash_for_entry_type l' t) = (gh_lookup ?h)(re_cookie en \<mapsto> en\<lparr>re_foreign_cookie := c\<rparr>))
       \<and> (\<forall>t'. t' \<noteq> t \<longrightarrow> get_hash_for_entry_type l' t' = get_hash_for_entry_type l t'))
     (if t = REF_ENTRY_TYPE_INHIBIT then
        rbind (add_session_inhibit e en ?l1) (\<lambda>(entry, l).
          Inr (put_hash t (gh_insert (re_cookie entry) entry (get_hash_for_entry_type l t)) l))
      else Inr ?l1)" (is "rpost ?Q _")
  proof (cases "t = REF_ENTRY_TYPE_INHIBIT")
    case False
    then show ?thesis
      using ok t1 self by (auto simp: tables_ok_put intro!: exI [of _ "re_foreign_cookie en"])
  next
    case True
    have q: "?Q (put_hash t (gh_insert (re_cookie en') en' (get_hash_for_entry_type l' t)) l')"
      if "same_tables ?l1 l'" "en' = en\<lparr>re_foreign_cookie := c\<rparr>" for en' l' c
    proof -
      have "tables_ok l'" "throttle_ok l'"
        using that(1) ok t1 True by (simp_all add: same_tables_ok tables_ok_put)
      moreover have h: "get_hash_for_entry_type l' t'' =
          (if t'' = t then gh_insert (re_cookie en) en ?h else get_hash_for_entry_type l t'')" for t''
        using same_tables_hash [OF that(1)] by simp
      ultimately show ?thesis
        using that(2) t2 True by (auto simp: tables_ok_put intro!: exI [of _ c])
    qed
    have "rpost (\<lambda>x. rpost ?Q (case x of (entry, l) \<Rightarrow>
          Inr (put_hash t (gh_insert (re_cookie entry) entry (get_hash_for_entry_type l t)) l)))
        (add_session_inhibit e en ?l1)"
      by (rule rpost_mono [OF add_session_inhibit_post]) (clarify, simp only: rpost_simps prod.case, rule q, blast+)
    then show ?thesis by (simp only: rpost_simps if_P [OF True])
  qed
  have chk: "rpost (\<lambda>(l', s').
           (\<exists>c. gh_lookup (get_hash_for_entry_type l' t) = (gh_lookup ?h)(re_cookie en \<mapsto> en\<lparr>re_foreign_cookie := c\<rparr>))
           \<and> (\<forall>t'. t' \<noteq> t \<longrightarrow> get_hash_for_entry_type l' t' = get_hash_for_entry_type l t')
           \<and> listener_ok l' \<and> I s') (listener_ref_entry_check e ac tc t (l1, s))"
    if "?Q l1" for l1
    using that by (intro rpost_mono [OF ref_entry_check_post [OF assms(2)]]) auto
  show ?thesis
    using rpost_mono [OF ins chk] by (simp add: listener_add_ref_entry_def Let_def)
qed

text \<open>Removing: the table loses exactly the entry of the cookie; an unknown cookie changes nothing.\<close>

lemma remove_ref_entry_post:
  assumes "listener_ok l" "I s"
  shows "rpost (\<lambda>(r, l', s').
           r = (gh_lookup (get_hash_for_entry_type l t) cookie \<noteq> None)
           \<and> gh_lookup (get_hash_for_entry_type l' t) = (gh_lookup (get_hash_for_entry_type l t))(cookie := None)
           \<and> (\<forall>t'. t' \<noteq> t \<longrightarrow> get_hash_for_entry_type l' t' = get_hash_for_entry_type l t')
           \<and> listener_ok l' \<and> I s')
         (listener_remove_ref_entry e ac tc t cookie (l, s))"
proof (cases "gh_lookup (get_hash_for_entry_type l t) cookie")
  case None
  then show ?thesis using assms by (auto simp: listener_remove_ref_entry_def)
next
  case (Some en)
  have ok: "tables_ok l" "throttle_ok l" using assms(1) by (simp_all add: listener_ok_split)
  let ?put = "\<lambda>l'. put_hash t (gh_remove cookie (get_hash_for_entry_type l' t)) l'"
  let ?Q = "\<lambda>(l', s'). gh_lookup (get_hash_for_entry_type l' t) = (gh_lookup (get_hash_for_entry_type l t))(cookie := None)
           \<and> (\<forall>t'. t' \<noteq> t \<longrightarrow> get_hash_for_entry_type l' t' = get_hash_for_entry_type l t')
           \<and> listener_ok l' \<and> I s'"
  have chk: "rpost ?Q (listener_ref_entry_check e ac tc t (?put l', s))" if st: "same_tables l l'" for l'
  proof -
    have h: "\<And>t'. get_hash_for_entry_type l' t' = get_hash_for_entry_type l t'"
      using same_tables_hash [OF st] .
    have "tables_ok (?put l')"
      using ok st same_tables_ok(1) [OF st] by (intro tables_ok_put) (simp_all add: tables_ok_alt entries_ok_remove)
    moreover have "throttle_ok (?put l')" if "t = REF_ENTRY_TYPE_INHIBIT"
      using that ok(2) same_tables_ok(2) [OF st] by simp
    ultimately show ?thesis
      by (intro rpost_mono [OF ref_entry_check_post [OF assms(2)]]) (auto simp: h)
  qed
  have "rpost (same_tables l) (if t = REF_ENTRY_TYPE_INHIBIT then remove_session_inhibit e en l else Inr l)"
    by (simp add: remove_session_inhibit_post)
  then have "rpost (\<lambda>l'. rpost ?Q (listener_ref_entry_check e ac tc t (?put l', s)))
      (if t = REF_ENTRY_TYPE_INHIBIT then remove_session_inhibit e en l else Inr l)"
    by (rule rpost_mono) (rule chk)
  then show ?thesis
    using Some by (simp add: listener_remove_ref_entry_def Let_def split_def split: if_splits)
qed

text \<open>Adding and removing through a bus message.\<close>

lemma dbus_add_ref_entry_post:
  assumes "listener_ok l" "I s"
  shows "rpost (\<lambda>(r, l', s').
           ((\<exists>cookie en. gh_lookup (get_hash_for_entry_type l t) cookie = None
               \<and> (\<exists>m. cookie = generate_cookie e m)
               \<and> re_cookie en = cookie \<and> re_connection en = msg_sender e msg
               \<and> gh_lookup (get_hash_for_entry_type l' t) = (gh_lookup (get_hash_for_entry_type l t))(cookie \<mapsto> en)
               \<and> hd (l_sent l') = Ret_Cookie cookie)
            \<or> msg_get_2_strings e msg = None \<and> get_hash_for_entry_type l' t = get_hash_for_entry_type l t)
           \<and> (\<forall>t'. t' \<noteq> t \<longrightarrow> get_hash_for_entry_type l' t' = get_hash_for_entry_type l t')
           \<and> r = HANDLED \<and> listener_ok l' \<and> I s')
         (listener_dbus_add_ref_entry e ac tc t msg (l, s))" (is "rpost ?Q _")
proof (cases "msg_get_2_strings e msg")
  case None
  let ?l = "l_send (Err_Syntax (case t of REF_ENTRY_TYPE_INHIBIT \<Rightarrow> ''Inhibit'' | REF_ENTRY_TYPE_THROTTLE \<Rightarrow> ''Throttle'')) l"
  have st: "same_tables l ?l" by simp
  then show ?thesis
    using None assms same_tables_all [OF st] same_tables_ok(3) [OF st]
    by (simp add: listener_dbus_add_ref_entry_def raise_syntax_def send_reply_def)
next
  case (Some p)
  obtain app reason where p: "p = (app, reason)" by (cases p)
  let ?en = "\<lambda>c. \<lparr>re_entry_type = t, re_application = app, re_reason = reason,
       re_connection = msg_sender e msg, re_cookie = c, re_foreign_cookie = 0, re_since = env_now e\<rparr>"
  have fin: "rpost (\<lambda>ls. rpost ?Q (rbind (send_reply e (Ret_Cookie c) ls) (\<lambda>ls. Inr (HANDLED, ls))))
      (listener_add_ref_entry e ac tc t (?en c) (l1, s))"
    if c: "gh_lookup (get_hash_for_entry_type l t) c = None" "\<exists>m. c = generate_cookie e m"
      and l1: "l1 = l\<lparr>l_draws := n\<rparr>" for c l1 n
  proof -
    have st: "same_tables l l1" using l1 by simp
    have ok1: "listener_ok l1" using same_tables_ok(3) [OF st] assms(1) by simp
    show ?thesis
    proof (rule rpost_mono [OF add_ref_entry_post [OF ok1 assms(2), of "?en c" t]], simp, clarify)
      fix l' s' k
      assume h: "gh_lookup (get_hash_for_entry_type l' t) = (gh_lookup (get_hash_for_entry_type l1 t))(re_cookie (?en c) \<mapsto> (?en c)\<lparr>re_foreign_cookie := k\<rparr>)"
        "\<forall>t'. t' \<noteq> t \<longrightarrow> get_hash_for_entry_type l' t' = get_hash_for_entry_type l1 t'"
        "listener_ok l'" "I s'"
      let ?l2 = "l_send (Ret_Cookie c) l'"
      have st2: "same_tables l' ?l2" by simp
      have "?Q (HANDLED, ?l2, s')"
        using h c same_tables_all [OF st] same_tables_all [OF st2] same_tables_ok(3) [OF st2]
        by (auto simp: l_send_def intro!: exI [of _ c] exI [of _ "(?en c)\<lparr>re_foreign_cookie := k\<rparr>"])
      then show "rpost ?Q (rbind (send_reply e (Ret_Cookie c) (l', s')) (\<lambda>ls. Inr (HANDLED, ls)))"
        by (simp add: send_reply_def)
    qed
  qed
  have "rpost (\<lambda>x. rpost ?Q (case x of (c, l1) \<Rightarrow>
      rbind (listener_add_ref_entry e ac tc t (?en c) (l1, s)) (\<lambda>ls.
      rbind (send_reply e (Ret_Cookie c) ls) (\<lambda>ls. Inr (HANDLED, ls)))))
    (listener_generate_unique_key e t l)"
  proof (rule rpost_mono [OF unique_key_post [of l t e]])
    fix x assume x: "case x of (cookie, l') \<Rightarrow> gh_lookup (get_hash_for_entry_type l t) cookie = None
        \<and> (\<exists>m. cookie = generate_cookie e m) \<and> l' = l\<lparr>l_draws := l_draws l'\<rparr>"
    obtain c l1 where "x = (c, l1)" by (cases x)
    then show "rpost ?Q (case x of (c, l1) \<Rightarrow>
      rbind (listener_add_ref_entry e ac tc t (?en c) (l1, s)) (\<lambda>ls.
      rbind (send_reply e (Ret_Cookie c) ls) (\<lambda>ls. Inr (HANDLED, ls))))"
      using fin [of c l1 "l_draws l1"] x by (simp only: rpost_simps prod.case)
  qed
  then show ?thesis
    using Some p by (simp add: listener_dbus_add_ref_entry_def Let_def)
qed

lemma dbus_remove_ref_entry_post:
  assumes "listener_ok l" "I s"
  shows "rpost (\<lambda>(r, l', s').
           gh_lookup (get_hash_for_entry_type l' t) =
             (case msg_get_uint32 e msg of None \<Rightarrow> gh_lookup (get_hash_for_entry_type l t)
              | Some cookie \<Rightarrow> (gh_lookup (get_hash_for_entry_type l t))(cookie := None))
           \<and> (\<forall>t'. t' \<noteq> t \<longrightarrow> get_hash_for_entry_type l' t' = get_hash_for_entry_type l t')
           \<and> r = HANDLED \<and> listener_ok l' \<and> I s')
         (listener_dbus_remove_ref_entry e ac tc t msg (l, s))" (is "rpost ?Q _")
proof (cases "msg_get_uint32 e msg")
  case None
  let ?l = "l_send (Err_Syntax (case t of REF_ENTRY_TYPE_INHIBIT \<Rightarrow> ''UnInhibit'' | REF_ENTRY_TYPE_THROTTLE \<Rightarrow> ''UnThrottle'')) l"
  have st: "same_tables l ?l" by simp
  then show ?thesis
    using None assms same_tables_all [OF st] same_tables_ok(3) [OF st]
    by (simp add: listener_dbus_remove_ref_entry_def raise_syntax_def send_reply_def)
next
  case (Some cookie)
  have "rpost (\<lambda>x. rpost ?Q (case x of (_, ls) \<Rightarrow> rbind (send_reply e Ret_Empty ls) (\<lambda>ls. Inr (HANDLED, ls))))
      (listener_remove_ref_entry e ac tc t cookie (l, s))"
  proof (rule rpost_mono [OF remove_ref_entry_post [OF assms]], clarify)
    fix r l' s'
    assume h: "gh_lookup (get_hash_for_entry_type l' t) = (gh_lookup (get_hash_for_entry_type l t))(cookie := None)"
      "\<forall>t'. t' \<noteq> t \<longrightarrow> get_hash_for_entry_type l' t' = get_hash_for_entry_type l t'"
      "listener_ok l'" "I s'"
    let ?l2 = "l_send Ret_Empty l'"
    have st2: "same_tables l' ?l2" by simp
    have "?Q (HANDLED, ?l2, s')"
      using h Some same_tables_all [OF st2] same_tables_ok(3) [OF st2] by auto
    then show "rpost ?Q (rbind (send_reply e Ret_Empty (l', s')) (\<lambda>ls. Inr (HANDLED, ls)))"
      by (simp add: send_reply_def)
  qed
  then show ?thesis using Some by (simp add: listener_dbus_remove_ref_entry_def)
qed

end

section \<open>Entries of a connection that goes away\<close>

abbreviation of_connection :: "string \<Rightarrow> ref_entry \<Rightarrow> bool" where
  "of_connection c en \<equiv> re_connection en = Some c"

lemma remove_for_connection_loop_post:
  "rpost (\<lambda>(r, l'). r = (removed \<or> (\<exists>x \<in> set es. of_connection c (snd x)))
      \<and> get_hash_for_entry_type l' t =
          filter (\<lambda>x. fst x \<notin> fst ` {x \<in> set es. of_connection c (snd x)}) (get_hash_for_entry_type l t)
      \<and> (\<forall>t'. t' \<noteq> t \<longrightarrow> get_hash_for_entry_type l' t' = get_hash_for_entry_type l t')
      \<and> l_throttled l' = l_throttled l \<and> l_connection l' = l_connection l)
    (remove_for_connection_loop e t c es removed l)"
proof (induction es arbitrary: removed l)
  case Nil
  then show ?case by simp
next
  case (Cons x es)
  obtain k en where x: "x = (k, en)" by (cases x)
  show ?case
  proof (cases "of_connection c en")
    case False
    then have eq: "remove_for_connection_loop e t c (x # es) removed l = remove_for_connection_loop e t c es removed l"
      using x by auto
    have keys: "{y \<in> set (x # es). of_connection c (snd y)} = {y \<in> set es. of_connection c (snd y)}"
      "(\<exists>y \<in> set (x # es). of_connection c (snd y)) = (\<exists>y \<in> set es. of_connection c (snd y))"
      using False x by auto
    show ?thesis using Cons.IH [of removed l] by (simp only: eq keys)
  next
    case True
    let ?put = "\<lambda>l. put_hash t (gh_remove k (get_hash_for_entry_type l t)) l"
    have rs: "rpost (same_tables l)
        (if re_entry_type en = REF_ENTRY_TYPE_INHIBIT then remove_session_inhibit e en l else Inr l)"
      by (simp add: remove_session_inhibit_post)
    have frame: "l_throttled (?put l1) = l_throttled l1" "l_connection (?put l1) = l_connection l1" for l1
      by (cases t; simp add: put_hash_def)+
    have keys: "{y \<in> set (x # es). of_connection c (snd y)} = insert (k, en) {y \<in> set es. of_connection c (snd y)}"
      using True x by auto
    have step: "rpost (\<lambda>(r, l'). r = (removed \<or> (\<exists>y \<in> set (x # es). of_connection c (snd y)))
        \<and> get_hash_for_entry_type l' t =
            filter (\<lambda>y. fst y \<notin> fst ` {y \<in> set (x # es). of_connection c (snd y)}) (get_hash_for_entry_type l t)
        \<and> (\<forall>t'. t' \<noteq> t \<longrightarrow> get_hash_for_entry_type l' t' = get_hash_for_entry_type l t')
        \<and> l_throttled l' = l_throttled l \<and> l_connection l' = l_connection l)
      (remove_for_connection_loop e t c es True (?put l1))" if st: "same_tables l l1" for l1
    proof (rule rpost_mono [OF Cons.IH [of True "?put l1"]], clarify)
      fix r l'
      assume a: "get_hash_for_entry_type l' t =
            filter (\<lambda>y. fst y \<notin> fst ` {y \<in> set es. of_connection c (snd y)}) (get_hash_for_entry_type (?put l1) t)"
        "\<forall>t'. t' \<noteq> t \<longrightarrow> get_hash_for_entry_type l' t' = get_hash_for_entry_type (?put l1) t'"
        "l_throttled l' = l_throttled (?put l1)" "l_connection l' = l_connection (?put l1)"
      have h: "\<And>t'. get_hash_for_entry_type l1 t' = get_hash_for_entry_type l t'"
        using same_tables_hash [OF st] .
      have "get_hash_for_entry_type l' t =
          filter (\<lambda>y. fst y \<notin> fst ` {y \<in> set (x # es). of_connection c (snd y)}) (get_hash_for_entry_type l t)"
        unfolding a(1) keys by (auto simp: h gh_remove_def split_def intro!: filter_cong)
      moreover have "l_throttled l' = l_throttled l" "l_connection l' = l_connection l"
        using a(3,4) st by (simp_all add: frame same_tables_def)
      ultimately show "(True \<or> (\<exists>x \<in> set es. of_connection c (snd x))) = (removed \<or> (\<exists>y \<in> set (x # es). of_connection c (snd y)))
        \<and> get_hash_for_entry_type l' t =
            filter (\<lambda>y. fst y \<notin> fst ` {y \<in> set (x # es). of_connection c (snd y)}) (get_hash_for_entry_type l t)
        \<and> (\<forall>t'. t' \<noteq> t \<longrightarrow> get_hash_for_entry_type l' t' = get_hash_for_entry_type l t')
        \<and> l_throttled l' = l_throttled l \<and> l_connection l' = l_connection l"
        using a(2) h True x by simp
    qed
    show ?thesis
      using rpost_mono [OF rs step] True x by simp
  qed
qed

lemma filter_keys_of_connection:
  assumes "gh_ok h"
  shows "filter (\<lambda>x. fst x \<notin> fst ` {x \<in> set h. P (snd x)}) h = gh_remove_if P h"
  unfolding gh_remove_if_def
proof (rule filter_cong, simp)
  fix x assume "x \<in> set h"
  then show "(fst x \<notin> fst ` {x \<in> set h. P (snd x)}) = (case x of (k, v) \<Rightarrow> \<not> P v)"
    using assms by (auto simp: gh_ok_def) (metis eq_key_imp_eq_value prod.collapse)
qed

text \<open>The loop removes exactly the entries of the connection from the table.\<close>

lemma remove_for_connection_post:
  assumes "tables_ok l"
  shows "rpost (\<lambda>(r, l'). r = (\<exists>x \<in> set (get_hash_for_entry_type l t). of_connection c (snd x))
      \<and> get_hash_for_entry_type l' t = gh_remove_if (of_connection c) (get_hash_for_entry_type l t)
      \<and> (\<forall>t'. t' \<noteq> t \<longrightarrow> get_hash_for_entry_type l' t' = get_hash_for_entry_type l t')
      \<and> l_throttled l' = l_throttled l \<and> l_connection l' = l_connection l)
    (listener_ref_entry_remove_for_connection e t (Some c) l)"
proof -
  have "gh_ok (get_hash_for_entry_type l t)"
    using assms by (simp add: tables_ok_alt entries_ok_def)
  note fk = filter_keys_of_connection [OF this, of "of_connection c"]
  show ?thesis
    using remove_for_connection_loop_post
      [where removed = False and es = "get_hash_for_entry_type l t" and l = l and c = c and t = t and e = e]
    by (simp add: listener_ref_entry_remove_for_connection_def fk)
qed

lemma gh_remove_if_none: "\<not> (\<exists>x \<in> set h. P (snd x)) \<Longrightarrow> gh_remove_if P h = h"
  by (auto simp: gh_remove_if_def filter_id_conv)

context listener_core
begin

lemma removed_then_check_post:
  assumes "listener_ok l" "I s"
    and "r = (\<exists>x \<in> set (get_hash_for_entry_type l t). of_connection c (snd x))"
    and "get_hash_for_entry_type l1 t = gh_remove_if (of_connection c) (get_hash_for_entry_type l t)"
    and "\<forall>t'. t' \<noteq> t \<longrightarrow> get_hash_for_entry_type l1 t' = get_hash_for_entry_type l t'"
    and "l_throttled l1 = l_throttled l"
  shows "rpost (\<lambda>(l', s'). (\<forall>t'. get_hash_for_entry_type l' t' =
            (if t' = t then gh_remove_if (of_connection c) (get_hash_for_entry_type l t)
             else get_hash_for_entry_type l t')) \<and> listener_ok l' \<and> I s')
         (if r then listener_ref_entry_check e ac tc t (l1, s) else Inr (l1, s))"
proof -
  have ok: "tables_ok l" "throttle_ok l" using assms(1) by (simp_all add: listener_ok_split)
  have h: "get_hash_for_entry_type l1 t' = (if t' = t then gh_remove_if (of_connection c) (get_hash_for_entry_type l t)
             else get_hash_for_entry_type l t')" for t'
    using assms(4,5) by simp
  have t1: "tables_ok l1" using ok(1) by (simp add: tables_ok_alt h entries_ok_remove_if)
  have th: "throttle_ok l1" if "t = REF_ENTRY_TYPE_INHIBIT \<or> \<not> r"
    using that ok(2) assms(3,6) gh_remove_if_none [of "get_hash_for_entry_type l t" "of_connection c"]
    by (auto simp: throttle_ok_def listener_ref_entry_is_present_def h)
  show ?thesis
  proof (cases r)
    case True
    have "rpost (\<lambda>(l', s'). (\<forall>t. get_hash_for_entry_type l' t = get_hash_for_entry_type l1 t)
             \<and> l_connection l' = l_connection l1 \<and> listener_ok l' \<and> I s')
           (listener_ref_entry_check e ac tc t (l1, s))"
      by (rule ref_entry_check_post [OF assms(2) t1]) (use th in auto)
    then show ?thesis unfolding if_P [OF True]
      by (rule rpost_mono) (auto simp: h)
  next
    case False
    then show ?thesis using t1 th assms(2) by (simp add: h listener_ok_split)
  qed
qed

lemma service_deleted_post:
  assumes "listener_ok l" "I s" "msg_get_2_strings e m = Some (n, c)"
  shows "rpost (\<lambda>(l', s'). (\<forall>t. get_hash_for_entry_type l' t =
            gh_remove_if (of_connection c) (get_hash_for_entry_type l t)) \<and> listener_ok l' \<and> I s')
         (listener_service_deleted e ac tc m (l, s))" (is "rpost ?Q _")
proof -
  let ?T = REF_ENTRY_TYPE_THROTTLE and ?N = REF_ENTRY_TYPE_INHIBIT
  let ?rem = "\<lambda>t l. listener_ref_entry_remove_for_connection e t (Some c) l"
  let ?chk = "\<lambda>t r l s. if r then listener_ref_entry_check e ac tc t (l, s) else Inr (l, s)"
  have both: "rpost P (?rem t l)"
    if ok: "listener_ok l" and P: "\<And>r l1. rpost Q (?chk t r l1 s) \<Longrightarrow> P (r, l1)"
      and Q: "\<And>l' s'. \<forall>t'. get_hash_for_entry_type l' t' =
            (if t' = t then gh_remove_if (of_connection c) (get_hash_for_entry_type l t)
             else get_hash_for_entry_type l t') \<Longrightarrow> listener_ok l' \<Longrightarrow> I s' \<Longrightarrow> Q (l', s')"
      and s: "I s" for t l P Q s
  proof -
    have "tables_ok l" using ok by (simp add: listener_ok_split)
    from remove_for_connection_post [OF this, of t c e] show ?thesis
    proof (rule rpost_mono, clarify)
      fix r l1
      assume a: "get_hash_for_entry_type l1 t = gh_remove_if (of_connection c) (get_hash_for_entry_type l t)"
        "\<forall>t'. t' \<noteq> t \<longrightarrow> get_hash_for_entry_type l1 t' = get_hash_for_entry_type l t'"
        "l_throttled l1 = l_throttled l"
      show "P (\<exists>x \<in> set (get_hash_for_entry_type l t). of_connection c (snd x), l1)"
        by (rule P, rule rpost_mono [OF removed_then_check_post [OF ok s refl a]]) (use Q in auto)
    qed
  qed
  have inh: "rpost (\<lambda>(removed, l'). rpost ?Q (?chk ?N removed l' s1)) (?rem ?N l1)"
    if "\<forall>t'. get_hash_for_entry_type l1 t' = (if t' = ?T then gh_remove_if (of_connection c) (get_hash_for_entry_type l ?T)
             else get_hash_for_entry_type l t')" "listener_ok l1" "I s1" for l1 s1
    by (rule both [OF that(2) _ _ that(3), where Q = ?Q])
      (use that(1) in \<open>auto, metis ref_entry_type.exhaust\<close>)
  have "rpost (\<lambda>(removed, l'). rpost (\<lambda>(l1, s1). rpost (\<lambda>(removed, l'). rpost ?Q (?chk ?N removed l' s1)) (?rem ?N l1))
          (?chk ?T removed l' s)) (?rem ?T l)"
    by (rule both [OF assms(1) _ _ assms(2), where Q = "\<lambda>(l1, s1). rpost (\<lambda>(removed, l'). rpost ?Q (?chk ?N removed l' s1)) (?rem ?N l1)"])
      (use inh in auto)
  then show ?thesis
    using assms(3) by (simp add: listener_service_deleted_def split_def split del: if_split cong: if_cong)
qed

end

section \<open>Properties\<close>

text \<open>Handlers that leave the listener alone meet the contract with the trivial invariant.\<close>

lemma listener_core_trivial:
  assumes "\<And>b l s. rpost (\<lambda>(r, l', s'). l' = l) (ac b (l, s))"
    and "\<And>b l s. rpost (\<lambda>(l', s'). l' = l) (tc b (l, s))"
  shows "listener_core ac tc (\<lambda>_. True)"
  using assms by unfold_locales (simp_all add: case_prod_beta)

text \<open>
  C22: inhibit and uninhibit.  An Inhibit call that returns has filed one new entry, of the caller's
  connection, under a cookie no other entry has and that lies between 1 and \<open>G_MAXINT32\<close>, has
  answered with that cookie and has kept every other entry; an UnInhibit call with that cookie
  restores the table of inhibitors, and the throttlers and the invariant of the tables stay.
\<close>

theorem inhibit_uninhibit_roundtrip:
  assumes "\<And>b l s. rpost (\<lambda>(r, l', s'). l' = l) (ac b (l, s))"
    and "\<And>b l s. rpost (\<lambda>(l', s'). l' = l) (tc b (l, s))"
    and "random_in_range e" "listener_ok l" "msg_get_2_strings e m \<noteq> None"
    and add: "listener_dbus_add_ref_entry e ac tc REF_ENTRY_TYPE_INHIBIT m (l, s) = Inr (r1, l1, s1)"
    and rem: "listener_dbus_remove_ref_entry e ac tc REF_ENTRY_TYPE_INHIBIT m' (l1, s1) = Inr (r2, l2, s2)"
    and "l_sent l1 = Ret_Cookie cookie # sent" "msg_get_uint32 e m' = Some cookie"
  shows "gh_lookup (l_inhibitors l) cookie = None \<and> 0 < cookie \<and> unat cookie < 2 ^ 31 - 1
       \<and> (\<exists>en. gh_lookup (l_inhibitors l1) = (gh_lookup (l_inhibitors l))(cookie \<mapsto> en)
             \<and> re_connection en = msg_sender e m)
       \<and> gh_lookup (l_inhibitors l2) = gh_lookup (l_inhibitors l)
       \<and> l_throttlers l2 = l_throttlers l \<and> listener_ok l2"
proof -
  note core = listener_core_trivial [OF assms(1,2)]
  note post = rpostD [OF listener_core.dbus_add_ref_entry_post [OF core assms(4) TrueI] add]
  note post2 = rpostD [OF listener_core.dbus_remove_ref_entry_post [OF core _ TrueI] rem]
  show ?thesis
    using post post2 assms(5,8,9) generate_cookie_range [OF assms(3)]
    by (auto simp: hash_defs)
qed

text \<open>
  A concrete surrounding for the witnesses: message 0 carries two strings, any other message the
  cookie of its number; the session manager answers with foreign cookie 5.
\<close>

definition sample_env :: "nat dbus_env" where
  "sample_env =
     \<lparr>env_now = 100, env_random = (\<lambda>n. 1 + int n mod 1000), env_connected = True, env_no_memory = False,
      env_session_inhibit = (\<lambda>_ _. Some 5), env_logind_inhibit = Some 9, env_iso8601 = (\<lambda>_. ''T''),
      env_sd_session_is_active = (\<lambda>_. True), msg_is_method_call = (\<lambda>m _ _. False),
      msg_is_signal = (\<lambda>m _ _. False), msg_path = (\<lambda>_. None), msg_destination = (\<lambda>_. None), msg_sender = (\<lambda>_. Some '':1.7''),
      msg_get_2_strings = (\<lambda>m. if m = 0 then Some (''vlc'', '':1.7'') else None),
      msg_get_3_strings = (\<lambda>_. None), msg_get_uint32 = (\<lambda>m. Some (word_of_nat m)),
      msg_get_boolean = (\<lambda>_. None), msg_body = (\<lambda>_. [])\<rparr>"

definition sample_listener :: gs_listener where
  "sample_listener =
     \<lparr>l_connection = Some \<lparr>conn_paths = [], conn_filter = True, conn_matches = []\<rparr>,
      l_system_connection = None, l_session_idle = False, l_active = False,
      l_activation_enabled = True, l_throttled = False, l_inhibitors = [], l_throttlers = [],
      l_active_start = 0, l_session_idle_start = 0, l_session_id = None, l_have_systemd = True,
      l_logind_inhibit_lock = 0, l_ck_throttle_cookie = 0, l_draws = 0, l_reinit = 0, l_sent = []\<rparr>"

lemma sample_random: "random_in_range sample_env"
proof -
  have "0 \<le> int n mod 1000" "int n mod 1000 < 1000" for n by simp_all
  then show ?thesis by (auto simp: random_in_range_def sample_env_def)
qed

lemma sample_ok: "listener_ok sample_listener"
  by (simp add: listener_ok_def sample_listener_def entries_ok_def throttle_ok_def
      listener_ref_entry_is_present_def hash_defs gh_size_def)

lemmas listener_eval =
  sample_env_def sample_listener_def listener_dbus_add_ref_entry_def listener_dbus_remove_ref_entry_def
  listener_generate_unique_key_def listener_add_ref_entry_def listener_remove_ref_entry_def
  listener_ref_entry_check_def listener_check_activation_def listener_check_throttle_def
  gs_listener_set_throttle_def gs_listener_set_active_def listener_ref_entry_is_present_def
  add_session_inhibit_def remove_session_inhibit_def send_reply_def l_send_def hash_defs
  generate_cookie_def gh_lookup_def gh_insert_def gh_remove_def gh_size_def draw_unique.simps Let_def

theorem inhibit_uninhibit_roundtrip_witness:
  "\<exists>l1 l2. listener_dbus_add_ref_entry sample_env (\<lambda>b (l, s). Inr (True, l, s)) (\<lambda>b (l, s). Inr (l, s))
        REF_ENTRY_TYPE_INHIBIT 0 (sample_listener, ()) = Inr (HANDLED, l1, ())
     \<and> listener_dbus_remove_ref_entry sample_env (\<lambda>b (l, s). Inr (True, l, s)) (\<lambda>b (l, s). Inr (l, s))
        REF_ENTRY_TYPE_INHIBIT 1 (l1, ()) = Inr (HANDLED, l2, ())
     \<and> gh_lookup (l_inhibitors l1) \<noteq> gh_lookup (l_inhibitors sample_listener)
     \<and> gh_lookup (l_inhibitors l2) = gh_lookup (l_inhibitors sample_listener) \<and> listener_ok l2"
proof -
  let ?ac = "\<lambda>b (l, s). Inr (True, l, s)" and ?tc = "\<lambda>b (l, s). Inr (l, s)"
  obtain l1 where add: "listener_dbus_add_ref_entry sample_env ?ac ?tc REF_ENTRY_TYPE_INHIBIT 0 (sample_listener, ()) = Inr (HANDLED, l1, ())"
    and s1: "l_sent l1 = Ret_Cookie 1 # [Call_Session_Inhibit ''vlc'' '':1.7'']"
    and one: "gh_lookup (l_inhibitors l1) 1 \<noteq> None" "l_connection l1 \<noteq> None"
      "re_foreign_cookie (the (gh_lookup (l_inhibitors l1) 1)) = 5" "gh_size (gh_remove 1 (l_inhibitors l1)) = 0"
      "l_activation_enabled l1" "\<not> l_session_idle l1"
    by (simp add: listener_eval)
  obtain l2 where rem: "listener_dbus_remove_ref_entry sample_env ?ac ?tc REF_ENTRY_TYPE_INHIBIT 1 (l1, ()) = Inr (HANDLED, l2, ())"
    using one by (auto simp: listener_dbus_remove_ref_entry_def listener_remove_ref_entry_def
        remove_session_inhibit_def listener_ref_entry_check_def listener_check_activation_def
        send_reply_def hash_defs sample_env_def Let_def l_send_def)
  have "msg_get_2_strings sample_env 0 \<noteq> None" "msg_get_uint32 sample_env 1 = Some 1"
    by (simp_all add: sample_env_def)
  note rt = inhibit_uninhibit_roundtrip [OF _ _ sample_random sample_ok this(1) add rem s1 this(2)]
  have "gh_lookup (l_inhibitors sample_listener) 1 = None" by (simp add: sample_listener_def)
  then have "gh_lookup (l_inhibitors l1) \<noteq> gh_lookup (l_inhibitors sample_listener)"
    using one(1) by metis
  then show ?thesis using add rem rt by auto
qed

lemma set_active_internal_fields [simp]:
  "l_active (listener_set_active_internal e a l) = a"
  "l_session_idle (listener_set_active_internal e a l) = a"
  "l_active_start (listener_set_active_internal e a l) = (if a then env_now e else 0)"
  "l_sent (listener_set_active_internal e a l) =
     (if l_connection l \<noteq> None \<and> env_connected e \<and> \<not> env_no_memory e then Sig_ActiveChanged a # l_sent l
      else l_sent l)"
  by (simp_all add: listener_set_active_internal_def Let_def listener_set_session_idle_internal_def
      gs_listener_send_signal_active_changed_def send_dbus_boolean_signal_def send_dbus_message_def
      l_send_def)

lemma set_session_idle_internal_fields [simp]:
  "l_active (listener_set_session_idle_internal e i l) = l_active l"
  "l_session_idle (listener_set_session_idle_internal e i l) = i"
  "l_sent (listener_set_session_idle_internal e i l) = l_sent l"
  by (simp_all add: listener_set_session_idle_internal_def)

lemma set_active_outcome_aux:
  assumes "\<And>b l s. rpost (\<lambda>(r, l', s'). l' = l) (ac b (l, s))"
    and "gs_listener_set_active e ac a (l, s) = Inr (r, l', s')"
  shows "l_active l' = (if r then a else l_active l)
       \<and> (r \<longrightarrow> l_active l \<noteq> a \<and> l_session_idle l' = a \<and> l_active_start l' = (if a then env_now e else 0)
             \<and> (l_connection l \<noteq> None \<and> env_connected e \<and> \<not> env_no_memory e \<longrightarrow>
                  l_sent l' = Sig_ActiveChanged a # l_sent l))
       \<and> (\<not> r \<longrightarrow> l_sent l' = l_sent l
             \<and> l_session_idle l' = (l_session_idle l \<and> \<not> (a \<and> \<not> l_active l)))"
proof (cases "l_active l = a")
  case True
  then show ?thesis using assms(2) by (auto simp: gs_listener_set_active_def)
next
  case False
  obtain res l1 s1 where h: "ac a (l, s) = Inr (res, l1, s1)"
    using assms(2) False by (auto simp: gs_listener_set_active_def res_simps)
  have "l1 = l" using rpostD [OF assms(1) h] by simp
  then show ?thesis
    using assms(2) False h
    by (cases res) (auto simp: gs_listener_set_active_def)
qed

lemma set_active_refused:
  assumes "\<And>b l s. rpost (\<lambda>(r, l', s'). l' = l) (ac b (l, s))"
    and "gs_listener_set_active e ac a (l, s) = Inr (False, l', s')"
  shows "l' = l \<or> l' = listener_set_session_idle_internal e False l"
proof (cases "l_active l = a")
  case False
  obtain res l1 s1 where h: "ac a (l, s) = Inr (res, l1, s1)"
    using assms(2) False by (auto simp: gs_listener_set_active_def res_simps)
  then show ?thesis
    using assms(2) False rpostD [OF assms(1) h] by (cases res) (auto simp: gs_listener_set_active_def)
qed (use assms(2) in \<open>simp add: gs_listener_set_active_def\<close>)

text \<open>
  Switching the screensaver on or off through the listener.  With handlers that leave the
  listener alone, success means that the state really changed, that the idle flag follows it, that
  the start time is the current time or cleared, and that the change is announced on the bus;
  failure means that nothing changed and nothing was announced, except that a refused activation
  clears the idle flag.
\<close>

theorem set_active_outcome:
  assumes "\<And>b l s. rpost (\<lambda>(r, l', s'). l' = l) (ac b (l, s))"
    and "gs_listener_set_active e ac a (l, s) = Inr (r, l', s')"
  shows "l_active l' = (if r then a else l_active l)
       \<and> (r \<longrightarrow> l_active l \<noteq> a \<and> l_session_idle l' = a \<and> l_active_start l' = (if a then env_now e else 0)
             \<and> (l_connection l \<noteq> None \<and> env_connected e \<and> \<not> env_no_memory e \<longrightarrow>
                  l_sent l' = Sig_ActiveChanged a # l_sent l))
       \<and> (\<not> r \<longrightarrow> l_sent l' = l_sent l
             \<and> l_session_idle l' = (l_session_idle l \<and> \<not> (a \<and> \<not> l_active l)))"
  using set_active_outcome_aux [OF assms] .

theorem set_active_outcome_witness:
  "\<exists>l'. gs_listener_set_active sample_env (\<lambda>b (l, s). Inr (True, l, s)) True (sample_listener, ()) = Inr (True, l', ())
     \<and> l_active l' \<and> l_session_idle l' \<and> l_active_start l' = 100 \<and> l_sent l' = [Sig_ActiveChanged True]"
proof -
  obtain l' where r: "gs_listener_set_active sample_env (\<lambda>b (l, s). Inr (True, l, s)) True (sample_listener, ()) = Inr (True, l', ())"
    by (simp add: gs_listener_set_active_def sample_listener_def)
  have "env_connected sample_env" "\<not> env_no_memory sample_env" "env_now sample_env = 100"
    "l_connection sample_listener \<noteq> None" "l_sent sample_listener = []"
    by (simp_all add: sample_env_def sample_listener_def)
  then show ?thesis using set_active_outcome [OF _ r] r by auto
qed

text \<open>
  C19: idleness and inhibition.  A session that becomes idle is accepted as idle only if it was not idle and
  nobody inhibits.  With activation enabled it is accepted only together with the activation of a
  screensaver that was off, which is announced on the bus; with activation disabled the idleness is only
  noted, with its time.  A refusal has one of these reasons: the session was idle already, somebody
  inhibits, or activation is enabled and it was refused.  It leaves the listener as it was, but for the start
  of the idleness, which may be cleared.
\<close>

theorem session_idle_outcome:
  assumes "\<And>b l s. rpost (\<lambda>(r, l', s'). l' = l) (ac b (l, s))"
    and "gs_listener_set_session_idle e ac True (l, s) = Inr (r, l', s')"
  shows "if r then \<not> gs_listener_is_inhibited l \<and> \<not> l_session_idle l \<and> l_session_idle l' \<and> l_session_idle_start l' = env_now e
           \<and> (if l_activation_enabled l
              then \<not> l_active l \<and> l_active l' \<and> l_active_start l' = env_now e
                 \<and> (l_connection l \<noteq> None \<and> env_connected e \<and> \<not> env_no_memory e \<longrightarrow> l_sent l' = Sig_ActiveChanged True # l_sent l)
              else l' = l\<lparr>l_session_idle := True, l_session_idle_start := env_now e\<rparr> \<and> s' = s)
         else (l_session_idle l \<or> gs_listener_is_inhibited l \<or> l_activation_enabled l)
           \<and> (l' = l \<or> l' = l\<lparr>l_session_idle_start := 0\<rparr>)"
proof (cases "l_session_idle l \<or> listener_ref_entry_is_present l REF_ENTRY_TYPE_INHIBIT")
  case True
  then have "gs_listener_set_session_idle e ac True (l, s) = Inr (False, l, s)"
    by (cases "l_session_idle l") (simp_all add: gs_listener_set_session_idle_def)
  then show ?thesis using assms(2) True by (auto simp: gs_listener_is_inhibited_def)
next
  case False
  let ?l = "l\<lparr>l_session_idle := True\<rparr>"
  have ni: "\<not> listener_ref_entry_is_present ?l REF_ENTRY_TYPE_INHIBIT"
    using False by (simp add: listener_ref_entry_is_present_def hash_defs)
  have same: "?l\<lparr>l_session_idle := False\<rparr> = l" "l\<lparr>l_session_idle_start := 0, l_session_idle := False\<rparr> = l\<lparr>l_session_idle_start := 0\<rparr>"
    using False by (cases l, simp)+
  show ?thesis
  proof (cases "l_activation_enabled l")
    case en: False
    then show ?thesis
      using assms(2) False by (auto simp: gs_listener_set_session_idle_def listener_check_activation_def
          listener_set_session_idle_internal_def gs_listener_is_inhibited_def)
  next
    case en: True
    then obtain r1 l1 s1 where h: "gs_listener_set_active e ac True (?l, s) = Inr (r1, l1, s1)"
      and fin: "r = r1" "l' = (if r1 then listener_set_session_idle_internal e True l1 else l1\<lparr>l_session_idle := False\<rparr>)"
      using assms(2) False ni
      by (auto simp: gs_listener_set_session_idle_def listener_check_activation_def res_simps split: if_splits)
    note out = set_active_outcome_aux [OF assms(1) h]
    have "\<not> r1 \<Longrightarrow> l1 = ?l \<or> l1 = listener_set_session_idle_internal e False ?l"
      using set_active_refused [OF assms(1)] h by simp
    then have "\<not> r1 \<Longrightarrow> l' = l \<or> l' = l\<lparr>l_session_idle_start := 0\<rparr>"
      using fin(2) same by (auto simp: listener_set_session_idle_internal_def)
    then show ?thesis
      using out fin en False
      by (cases r1) (auto simp: listener_set_session_idle_internal_def gs_listener_is_inhibited_def)
  qed
qed

theorem session_idle_outcome_witness:
  "\<exists>l'. gs_listener_set_session_idle sample_env (\<lambda>b (l, s). Inr (True, l, s)) True (sample_listener, ()) = Inr (True, l', ())
     \<and> l_session_idle l' \<and> l_active l' \<and> l_sent l' = Sig_ActiveChanged True # l_sent sample_listener"
proof -
  obtain l' where r: "gs_listener_set_session_idle sample_env (\<lambda>b (l, s). Inr (True, l, s)) True (sample_listener, ()) = Inr (True, l', ())"
    by (simp add: gs_listener_set_session_idle_def listener_check_activation_def gs_listener_set_active_def
        listener_ref_entry_is_present_def hash_defs sample_listener_def gh_size_def)
  have "l_activation_enabled sample_listener" "l_connection sample_listener \<noteq> None" "env_connected sample_env" "\<not> env_no_memory sample_env"
    by (simp_all add: sample_listener_def sample_env_def)
  then show ?thesis using session_idle_outcome [OF _ r] r by auto
qed

text \<open>
  A change of name ownership drops the entries of the connection named as the previous owner,
  all of them and no others, from both tables, whatever name changed hands; the throttle flag
  follows.  So a client that only gives up one of its well-known names loses its inhibitors too.
\<close>

theorem service_deleted_removes:
  assumes "\<And>b l s. rpost (\<lambda>(r, l', s'). l' = l) (ac b (l, s))"
    and "\<And>b l s. rpost (\<lambda>(l', s'). l' = l) (tc b (l, s))"
    and "listener_ok l" "msg_get_2_strings e m = Some (name, owner)"
    and run: "listener_service_deleted e ac tc m (l, s) = Inr (l', s')"
  shows "l_inhibitors l' = filter (\<lambda>(k, en). re_connection en \<noteq> Some owner) (l_inhibitors l)
       \<and> l_throttlers l' = filter (\<lambda>(k, en). re_connection en \<noteq> Some owner) (l_throttlers l)
       \<and> l_throttled l' = (l_throttlers l' \<noteq> [])"
proof -
  note core = listener_core_trivial [OF assms(1,2)]
  have post: "\<forall>t. get_hash_for_entry_type l' t = gh_remove_if (of_connection owner) (get_hash_for_entry_type l t)"
      "listener_ok l'"
    using rpostD [OF listener_core.service_deleted_post [OF core assms(3) TrueI assms(4)] run] by simp_all
  have "l_inhibitors l' = get_hash_for_entry_type l' REF_ENTRY_TYPE_INHIBIT"
    "l_throttlers l' = get_hash_for_entry_type l' REF_ENTRY_TYPE_THROTTLE" by (simp_all add: hash_defs)
  then show ?thesis
    using post unfolding post(1) [rule_format]
    by (auto simp: gh_remove_if_def hash_defs listener_ok_def throttle_ok_def
        listener_ref_entry_is_present_def gh_size_def)
qed

theorem service_deleted_removes_witness:
  "\<exists>l'. listener_service_deleted sample_env (\<lambda>b (l, s). Inr (True, l, s)) (\<lambda>b (l, s). Inr (l, s)) 0
      (sample_listener\<lparr>l_throttled := True, l_throttlers :=
         [(3, \<lparr>re_entry_type = REF_ENTRY_TYPE_THROTTLE, re_application = ''a'', re_reason = ''r'',
               re_connection = Some '':1.7'', re_cookie = 3, re_foreign_cookie = 0, re_since = 1\<rparr>)]\<rparr>, ())
      = Inr (l', ()) \<and> l_throttlers l' = [] \<and> \<not> l_throttled l'"
proof -
  let ?l = "sample_listener\<lparr>l_throttled := True, l_throttlers :=
         [(3, \<lparr>re_entry_type = REF_ENTRY_TYPE_THROTTLE, re_application = ''a'', re_reason = ''r'',
               re_connection = Some '':1.7'', re_cookie = 3, re_foreign_cookie = 0, re_since = 1\<rparr>)]\<rparr>"
  have ok: "listener_ok ?l"
    by (simp add: listener_ok_def sample_listener_def entries_ok_def throttle_ok_def gh_ok_def
        listener_ref_entry_is_present_def hash_defs gh_size_def)
  have m: "msg_get_2_strings sample_env 0 = Some (''vlc'', '':1.7'')" by (simp add: sample_env_def)
  obtain l' where run: "listener_service_deleted sample_env (\<lambda>b (l, s). Inr (True, l, s)) (\<lambda>b (l, s). Inr (l, s)) 0 (?l, ()) = Inr (l', ())"
    by (simp add: listener_service_deleted_def listener_ref_entry_remove_for_connection_def listener_eval)
  then show ?thesis
    using service_deleted_removes [OF _ _ ok m run] by (auto simp: sample_listener_def)
qed

end
