(* ===== verification/GS_Introspect_Text.thy ===== *)
theory GS_Introspect_Text
  imports GS_Listener
begin

text \<open>
  The description of the objects and methods of the daemon that \<open>src/gs-listener-dbus.c\<close> builds for
  \<open>org.freedesktop.DBus.Introspectable.Introspect\<close>: the tables in the code, and the text made of them.
\<close>

section \<open>The description\<close>

record intro_arg =
  ia_name :: string
  ia_direction :: "string option"
  ia_type :: string

datatype intro_item =
    Intro_Method string "intro_arg list"
  | Intro_Signal string "intro_arg list"

definition arg_in :: "string \<Rightarrow> string \<Rightarrow> intro_arg" where
  "arg_in name type = \<lparr>ia_name = name, ia_direction = Some ''in'', ia_type = type\<rparr>"

definition arg_out :: "string \<Rightarrow> string \<Rightarrow> intro_arg" where
  "arg_out name type = \<lparr>ia_name = name, ia_direction = Some ''out'', ia_type = type\<rparr>"

definition common_methods :: "intro_item list" where
  "common_methods =
     [Intro_Method ''Inhibit'' [arg_in ''application_name'' ''s'', arg_in ''reason'' ''s'', arg_out ''cookie'' ''u''],
      Intro_Method ''UnInhibit'' [arg_in ''cookie'' ''u'']]"

definition internal_items :: "intro_item list" where
  "internal_items =
     [Intro_Method ''Lock'' [], Intro_Method ''Unlock'' [], Intro_Method ''Cycle'' [], Intro_Method ''SimulateUserActivity'' [],
      Intro_Method ''GetInhibitors'' [arg_out ''list'' ''as''],
      Intro_Method ''Throttle'' [arg_in ''application_name'' ''s'', arg_in ''reason'' ''s'', arg_out ''cookie'' ''u''],
      Intro_Method ''UnThrottle'' [arg_in ''cookie'' ''u''],
      Intro_Method ''GetActive'' [arg_out ''value'' ''b''],
      Intro_Method ''GetActiveTime'' [arg_out ''seconds'' ''u''],
      Intro_Method ''SetActive'' [arg_in ''value'' ''b''],
      Intro_Method ''ShowMessage'' [arg_in ''summary'' ''s'', arg_in ''body'' ''s'', arg_in ''icon'' ''s''],
      Intro_Signal ''ActiveChanged'' [\<lparr>ia_name = ''new_value'', ia_direction = None, ia_type = ''b''\<rparr>]]"

text \<open>The interface and the service have the same name.\<close>

definition screensaver_items :: "string \<Rightarrow> intro_item list" where
  "screensaver_items interface = common_methods @ (if interface = GS_LISTENER_SERVICE then internal_items else [])"

section \<open>Its text\<close>

definition in_quotes :: "string \<Rightarrow> string" where "in_quotes s = [CHR 0x22] @ s @ [CHR 0x22]"

definition text_line :: "string \<Rightarrow> string" where "text_line s = s @ ''\<newline>''"

definition intro_arg_text :: "intro_arg \<Rightarrow> string" where
  "intro_arg_text a =
     text_line (''      <arg name='' @ in_quotes (ia_name a)
           @ (case ia_direction a of None \<Rightarrow> '''' | Some d \<Rightarrow> '' direction='' @ in_quotes d)
           @ '' type='' @ in_quotes (ia_type a) @ ''/>'')"

primrec intro_item_text :: "intro_item \<Rightarrow> string" where
  "intro_item_text (Intro_Method name args) =
     text_line (''    <method name='' @ in_quotes name @ ''>'') @ concat (map intro_arg_text args) @ text_line ''    </method>''"
| "intro_item_text (Intro_Signal name args) =
     text_line (''    <signal name='' @ in_quotes name @ ''>'') @ concat (map intro_arg_text args) @ text_line ''    </signal>''"

definition add_org_freedesktop_DBus_Introspectable :: "string \<Rightarrow> string" where
  "add_org_freedesktop_DBus_Introspectable xml =
     xml @ text_line (''  <interface name='' @ in_quotes ''org.freedesktop.DBus.Introspectable'' @ ''>'')
     @ intro_item_text (Intro_Method ''Introspect'' [arg_out ''data'' ''s'']) @ text_line ''  </interface>''"

definition add_screensaver_interface :: "string \<Rightarrow> string \<Rightarrow> string" where
  "add_screensaver_interface interface xml =
     xml @ text_line (''  <interface name='' @ in_quotes interface @ ''>'')
     @ concat (map intro_item_text (screensaver_items interface)) @ text_line ''  </interface>''"

definition intro_paths :: "(string \<times> string) list" where
  "intro_paths =
     [(GS_LISTENER_PATH, GS_LISTENER_SERVICE), (GS_FDO_LISTENER_PATH, GS_FDO_LISTENER_SERVICE),
      (GS_FDO_LISTENER_PATH2, GS_FDO_LISTENER_SERVICE)]"

text \<open>
  The name of the child below \<open>path\<close> that leads to \<open>path_i\<close>.  The paths begin with a slash, so that the byte before
  the end of the prefix is there; the byte behind the last one is the terminator.
\<close>

definition child_node :: "string \<Rightarrow> string \<Rightarrow> string option" where
  "child_node path path_i =
     (if has_prefix path path_i
         \<and> ((length path < length path_i \<and> path_i ! length path = CHR ''/'') \<or> path_i ! (length path - 1) = CHR ''/'')
      then Some (drop (length path + (if length path < length path_i \<and> path_i ! length path = CHR ''/'' then 1 else 0)) path_i)
      else None)"

definition introspect_node :: "string \<Rightarrow> string \<Rightarrow> string \<times> string \<Rightarrow> string \<Rightarrow> string" where
  "introspect_node path interface entry xml =
     (case entry of (path_i, interface_i) \<Rightarrow>
        if interface_i \<noteq> interface then xml
        else if path_i = path then add_screensaver_interface interface (add_org_freedesktop_DBus_Introspectable xml)
        else (case child_node path path_i of None \<Rightarrow> xml | Some name \<Rightarrow> xml @ text_line (''<node name='' @ in_quotes name @ ''/>'')))"

text \<open>The text of the reply to a message with the path and the destination.\<close>

definition introspect_xml :: "string \<Rightarrow> string \<Rightarrow> string" where
  "introspect_xml path interface =
     (let xml = text_line (''<!DOCTYPE node PUBLIC '' @ in_quotes ''-//freedesktop//DTD D-BUS Object Introspection 1.0//EN'')
                @ text_line (in_quotes ''http://www.freedesktop.org/standards/dbus/1.0/introspect.dtd'' @ ''>'');
          xml = xml @ text_line (''<node name='' @ in_quotes path @ ''>'');
          xml = fold (introspect_node path interface) intro_paths xml in
      xml @ text_line ''</node>'')"

end
