(* ===== verification/GS_Listener_Bus.thy ===== *)
theory GS_Listener_Bus
  imports GS_Listener GS_Introspect_Text
begin

text \<open>
  The second half of \<open>src/gs-listener-dbus.c\<close>: the dispatch of session and system bus messages,
  the filter functions, and the life cycle of the two bus connections.  The build options for
  systemd and ConsoleKit are both taken as enabled; \<open>l_have_systemd\<close> selects at run time, as in the
  code.
\<close>

section \<open>Properties and queries\<close>

definition listener_property_set_bool ::
  "'msg dbus_env \<Rightarrow> 's active_handler \<Rightarrow> bool \<Rightarrow> 's ls \<Rightarrow> (bool \<times> 's ls) res" where
  "listener_property_set_bool e ac value ls =
     rbind (gs_listener_set_active e ac value ls) (\<lambda>(_, ls). ret (True, ls))"

definition listener_set_property ::
  "'msg dbus_env \<Rightarrow> 's active_handler \<Rightarrow> 'msg \<Rightarrow> 's ls \<Rightarrow> (handler_result \<times> 's ls) res" where
  "listener_set_property e ac message ls =
     rbind (case msg_body e message of
              A_Bool v # _ \<Rightarrow> listener_property_set_bool e ac v ls
            | _ \<Rightarrow> ret (False, ls)) (\<lambda>(rc, ls).
     rbind (if \<not> rc then raise_property_type_error e ls else send_reply e Ret_Empty ls) (\<lambda>ls.
     ret (HANDLED, ls)))"

definition listener_get_property ::
  "'msg dbus_env \<Rightarrow> 's ls \<Rightarrow> (handler_result \<times> 's ls) res" where
  "listener_get_property e ls =
     rbind (send_reply e (Ret_Bool (l_active (fst ls))) ls) (\<lambda>ls. ret (HANDLED, ls))"

definition active_seconds :: "'msg dbus_env \<Rightarrow> gs_listener \<Rightarrow> 32 word" where
  "active_seconds e l =
     (if l_active l then
        (if env_now e < l_active_start l then 0
         else if l_active_start l \<le> 0 then 0
         else word_of_int (env_now e - l_active_start l))
      else 0)"

definition listener_get_active_time ::
  "'msg dbus_env \<Rightarrow> 's ls \<Rightarrow> (handler_result \<times> 's ls) res" where
  "listener_get_active_time e ls =
     rbind (send_reply e (Ret_Secs (active_seconds e (fst ls))) ls) (\<lambda>ls. ret (HANDLED, ls))"

definition listener_show_message ::
  "'msg dbus_env \<Rightarrow> (string \<Rightarrow> string \<Rightarrow> string \<Rightarrow> 's ls \<Rightarrow> 's ls res) \<Rightarrow> 'msg \<Rightarrow> 's ls \<Rightarrow>
   (handler_result \<times> 's ls) res" where
  "listener_show_message e show_message message ls =
     (if env_no_memory e then Inl Abort_Called
      else if l_active (fst ls) then
        (case msg_get_3_strings e message of
           None \<Rightarrow> rbind (raise_syntax e ''ShowMessage'' ls) (\<lambda>ls. ret (HANDLED, ls))
         | Some (summary, body, icon) \<Rightarrow>
             rbind (show_message summary body icon ls) (\<lambda>ls.
             rbind (send_reply e Ret_Empty ls) (\<lambda>ls. ret (HANDLED, ls))))
      else rbind (send_reply e Ret_Empty ls) (\<lambda>ls. ret (HANDLED, ls)))"

text \<open>The destination of the message is compared and its path printed without a test for NULL.\<close>

definition do_introspect :: "'msg dbus_env \<Rightarrow> 'msg \<Rightarrow> 's ls \<Rightarrow> (handler_result \<times> 's ls) res" where
  "do_introspect e m ls =
     (case (msg_path e m, msg_destination e m) of
        (Some path, Some interface) \<Rightarrow>
          rbind (send_reply e (Ret_Introspection (introspect_xml path interface)) ls) (\<lambda>ls. ret (HANDLED, ls))
      | _ \<Rightarrow> Inl Null_Deref)"

section \<open>Session bus messages\<close>

definition handled :: "'s ls res \<Rightarrow> (handler_result \<times> 's ls) res" where
  "handled m = rbind m (\<lambda>ls. ret (HANDLED, ls))"

definition listener_dbus_handle_session_message ::
  "'msg dbus_env \<Rightarrow> 's listener_signals \<Rightarrow> 'msg \<Rightarrow> 's ls \<Rightarrow> (handler_result \<times> 's ls) res" where
  "listener_dbus_handle_session_message e sg m ls =
     (let ac = sig_active_changed sg; tc = sig_throttle_changed sg;
          call = msg_is_method_call e m GS_LISTENER_SERVICE;
          fdo_call = msg_is_method_call e m GS_FDO_LISTENER_SERVICE in
      if call ''Lock'' then handled (sig_lock sg ls)
      else if call ''Unlock'' then
        handled (rbind (gs_listener_set_active e ac False ls) (\<lambda>(_, ls). ret ls))
      else if call ''Quit'' then handled (sig_quit sg ls)
      else if call ''Cycle'' then handled (sig_cycle sg ls)
      else if call ''Inhibit'' \<or> fdo_call ''Inhibit'' then
        listener_dbus_add_ref_entry e ac tc REF_ENTRY_TYPE_INHIBIT m ls
      else if call ''UnInhibit'' \<or> fdo_call ''UnInhibit'' then
        listener_dbus_remove_ref_entry e ac tc REF_ENTRY_TYPE_INHIBIT m ls
      else if call ''GetInhibitors'' then listener_dbus_get_ref_entries e REF_ENTRY_TYPE_INHIBIT ls
      else if call ''Throttle'' then listener_dbus_add_ref_entry e ac tc REF_ENTRY_TYPE_THROTTLE m ls
      else if call ''UnThrottle'' then
        listener_dbus_remove_ref_entry e ac tc REF_ENTRY_TYPE_THROTTLE m ls
      else if call ''SetActive'' then listener_set_property e ac m ls
      else if call ''GetActive'' then listener_get_property e ls
      else if call ''GetActiveTime'' then listener_get_active_time e ls
      else if call ''ShowMessage'' then listener_show_message e (sig_show_message sg) m ls
      else if call ''SimulateUserActivity'' then handled (sig_simulate_user_activity sg ls)
      else if msg_is_method_call e m ''org.freedesktop.DBus.Introspectable'' ''Introspect'' then
        do_introspect e m ls
      else ret (NOT_YET_HANDLED, ls))"

section \<open>System bus messages\<close>

definition listener_message_path_is_our_session :: "'msg dbus_env \<Rightarrow> gs_listener \<Rightarrow> 'msg \<Rightarrow> bool" where
  "listener_message_path_is_our_session e l m =
     (case msg_path e m of
        None \<Rightarrow> False
      | Some ssid \<Rightarrow> (case l_session_id l of None \<Rightarrow> False | Some sid \<Rightarrow> ssid = sid))"

text \<open>
  Walking through a \<open>PropertiesChanged\<close> message: the dictionary of changed properties, then the list
  of invalidated ones; \<open>None\<close> is the \<open>failure\<close> label.
\<close>

primrec scan_dict_entries :: "string \<Rightarrow> dbus_arg list \<Rightarrow> bool option" where
  "scan_dict_entries property [] = Some False"
| "scan_dict_entries property (a # as) =
     (case a of
        A_Dict_Entry name \<Rightarrow> if name = property then Some True else scan_dict_entries property as
      | _ \<Rightarrow> None)"

primrec scan_strings :: "string \<Rightarrow> dbus_arg list \<Rightarrow> bool option" where
  "scan_strings property [] = Some False"
| "scan_strings property (a # as) =
     (case a of
        A_String name \<Rightarrow> if name = property then Some True else scan_strings property as
      | _ \<Rightarrow> None)"

definition properties_changed_match :: "'msg dbus_env \<Rightarrow> 'msg \<Rightarrow> string \<Rightarrow> bool" where
  "properties_changed_match e m property =
     (case msg_body e m of
        A_String interface_name # A_Array T_Dict_Entry changed # rest \<Rightarrow>
          (case scan_dict_entries property changed of
             None \<Rightarrow> False
           | Some True \<Rightarrow> True
           | Some False \<Rightarrow>
               (case rest of
                  A_Array T_String invalidated # _ \<Rightarrow>
                    (case scan_strings property invalidated of Some True \<Rightarrow> True | _ \<Rightarrow> False)
                | _ \<Rightarrow> False))
      | _ \<Rightarrow> False)"

definition take_logind_inhibit_lock :: "'msg dbus_env \<Rightarrow> gs_listener \<Rightarrow> int \<times> gs_listener" where
  "take_logind_inhibit_lock e l =
     (if l_system_connection l = None then (0, l)
      else if env_no_memory e then (0, l)
      else
        (let l = l_send Call_Logind_Inhibit l in
         case env_logind_inhibit e of None \<Rightarrow> (0, l) | Some fd \<Rightarrow> (fd, l)))"

definition handle_prepare_for_sleep ::
  "'msg dbus_env \<Rightarrow> (bool \<Rightarrow> 's ls \<Rightarrow> 's ls res) \<Rightarrow> 'msg \<Rightarrow> 's ls \<Rightarrow> 's ls res" where
  "handle_prepare_for_sleep e prepare_for_sleep m ls =
     (let active = (case msg_get_boolean e m of None \<Rightarrow> False | Some b \<Rightarrow> b) in
      if active then
        rbind (prepare_for_sleep active ls) (\<lambda>(l, s).
        ret (if l_logind_inhibit_lock l \<noteq> 0 then l\<lparr>l_logind_inhibit_lock := 0\<rparr> else l, s))
      else
        (case ls of (l, s) \<Rightarrow>
           let (fd, l) = take_logind_inhibit_lock e l in
           prepare_for_sleep active (l\<lparr>l_logind_inhibit_lock := fd\<rparr>, s)))"

definition handle_systemd_message ::
  "'msg dbus_env \<Rightarrow> 's listener_signals \<Rightarrow> 'msg \<Rightarrow> 's ls \<Rightarrow> (handler_result \<times> 's ls) res" where
  "handle_systemd_message e sg m ls =
     (let ours = listener_message_path_is_our_session e (fst ls) m in
      if msg_is_signal e m SYSTEMD_LOGIND_SESSION_INTERFACE ''Unlock'' then
        handled (if ours then
                   rbind (gs_listener_set_active e (sig_active_changed sg) False ls) (\<lambda>(_, ls). ret ls)
                 else ret ls)
      else if msg_is_signal e m SYSTEMD_LOGIND_SESSION_INTERFACE ''Lock'' then
        handled (if ours then sig_lock sg ls else ret ls)
      else if msg_is_signal e m SYSTEMD_LOGIND_INTERFACE ''PrepareForSleep'' then
        handled (handle_prepare_for_sleep e (sig_prepare_for_sleep sg) m ls)
      else if msg_is_signal e m DBUS_INTERFACE_PROPERTIES ''PropertiesChanged'' then
        handled (if ours \<and> properties_changed_match e m ''Active''
                    \<and> env_sd_session_is_active e (l_session_id (fst ls))
                 then sig_simulate_user_activity sg ls else ret ls)
      else ret (NOT_YET_HANDLED, ls))"

definition ck_drop_throttle ::
  "'msg dbus_env \<Rightarrow> 's active_handler \<Rightarrow> 's throttle_handler \<Rightarrow> 's ls \<Rightarrow> 's ls res" where
  "ck_drop_throttle e ac tc ls =
     (if l_ck_throttle_cookie (fst ls) \<noteq> 0 then
        rbind (listener_remove_ck_ref_entry e ac tc REF_ENTRY_TYPE_THROTTLE
                 (l_ck_throttle_cookie (fst ls)) ls) (\<lambda>(l, s).
        ret (l\<lparr>l_ck_throttle_cookie := 0\<rparr>, s))
      else ret ls)"

definition handle_ck_active_changed ::
  "'msg dbus_env \<Rightarrow> 's listener_signals \<Rightarrow> 'msg \<Rightarrow> 's ls \<Rightarrow> 's ls res" where
  "handle_ck_active_changed e sg m ls =
     (let ac = sig_active_changed sg; tc = sig_throttle_changed sg in
      case msg_get_boolean e m of
        None \<Rightarrow> ret ls
      | Some True \<Rightarrow> rbind (ck_drop_throttle e ac tc ls) (sig_simulate_user_activity sg)
      | Some False \<Rightarrow>
          rbind (ck_drop_throttle e ac tc ls) (\<lambda>ls.
          rbind (listener_add_ck_ref_entry e ac tc REF_ENTRY_TYPE_THROTTLE m ls) (\<lambda>(cookie, l, s).
          ret (l\<lparr>l_ck_throttle_cookie := cookie\<rparr>, s))))"

definition handle_ck_message ::
  "'msg dbus_env \<Rightarrow> 's listener_signals \<Rightarrow> 'msg \<Rightarrow> 's ls \<Rightarrow> (handler_result \<times> 's ls) res" where
  "handle_ck_message e sg m ls =
     (let ours = listener_message_path_is_our_session e (fst ls) m in
      if msg_is_signal e m CK_SESSION_INTERFACE ''Unlock'' then
        handled (if ours then
                   rbind (gs_listener_set_active e (sig_active_changed sg) False ls) (\<lambda>(_, ls). ret ls)
                 else ret ls)
      else if msg_is_signal e m CK_SESSION_INTERFACE ''Lock'' then
        handled (if ours then sig_lock sg ls else ret ls)
      else if msg_is_signal e m CK_SESSION_INTERFACE ''ActiveChanged'' then
        handled (if ours then handle_ck_active_changed e sg m ls else ret ls)
      else ret (NOT_YET_HANDLED, ls))"

definition listener_dbus_handle_system_message ::
  "'msg dbus_env \<Rightarrow> 's listener_signals \<Rightarrow> 'msg \<Rightarrow> 's ls \<Rightarrow> (handler_result \<times> 's ls) res" where
  "listener_dbus_handle_system_message e sg m ls =
     (if l_have_systemd (fst ls) then handle_systemd_message e sg m ls
      else handle_ck_message e sg m ls)"

section \<open>Handlers and filters\<close>

text \<open>\<open>strcmp\<close> on the path of a message that has none reads a NULL pointer.\<close>

definition is_disconnected :: "'msg dbus_env \<Rightarrow> 'msg \<Rightarrow> bool res" where
  "is_disconnected e m =
     (if msg_is_signal e m DBUS_INTERFACE_LOCAL ''Disconnected'' then
        (case msg_path e m of None \<Rightarrow> Inl Null_Deref | Some p \<Rightarrow> ret (p = DBUS_PATH_LOCAL))
      else ret False)"

definition gs_listener_message_handler ::
  "'msg dbus_env \<Rightarrow> 's listener_signals \<Rightarrow> 'msg \<Rightarrow> 's ls \<Rightarrow> (handler_result \<times> 's ls) res" where
  "gs_listener_message_handler e sg m ls =
     (if msg_is_method_call e m ''org.freedesktop.DBus'' ''AddMatch'' then
        handled (send_reply e Ret_Empty ls)
      else
        rbind (is_disconnected e m) (\<lambda>gone.
        if gone then ret (HANDLED, ls) else listener_dbus_handle_session_message e sg m ls))"

definition listener_dbus_filter_function ::
  "'msg dbus_env \<Rightarrow> 's listener_signals \<Rightarrow> 'msg \<Rightarrow> 's ls \<Rightarrow> (handler_result \<times> 's ls) res" where
  "listener_dbus_filter_function e sg m ls =
     rbind (is_disconnected e m) (\<lambda>gone.
     if gone then
       (case ls of (l, s) \<Rightarrow> ret (HANDLED, l\<lparr>l_connection := None, l_reinit := Suc (l_reinit l)\<rparr>, s))
     else if msg_is_signal e m DBUS_INTERFACE_DBUS ''NameOwnerChanged'' then
       handled (listener_service_deleted e (sig_active_changed sg) (sig_throttle_changed sg) m ls)
     else listener_dbus_handle_session_message e sg m ls)"

definition listener_dbus_system_filter_function ::
  "'msg dbus_env \<Rightarrow> 's listener_signals \<Rightarrow> 'msg \<Rightarrow> 's ls \<Rightarrow> (handler_result \<times> 's ls) res" where
  "listener_dbus_system_filter_function e sg m ls =
     rbind (is_disconnected e m) (\<lambda>gone.
     if gone then
       (case ls of (l, s) \<Rightarrow>
          ret (HANDLED, l\<lparr>l_system_connection := None, l_reinit := Suc (l_reinit l)\<rparr>, s))
     else listener_dbus_handle_system_message e sg m ls)"

section \<open>Connections\<close>

definition fresh_conn :: bus_conn where
  "fresh_conn = \<lparr>conn_paths = [], conn_filter = False, conn_matches = []\<rparr>"

text \<open>The two arguments say whether \<open>dbus_bus_get\<close> yields a session and a system connection.\<close>

definition gs_listener_dbus_init :: "bool \<Rightarrow> bool \<Rightarrow> gs_listener \<Rightarrow> bool \<times> gs_listener" where
  "gs_listener_dbus_init session_bus system_bus l =
     (if l_connection l = None \<and> \<not> session_bus then (False, l)
      else
        (let l = (if l_connection l = None then l\<lparr>l_connection := Some fresh_conn\<rparr> else l) in
         if l_system_connection l = None \<and> \<not> system_bus then (False, l)
         else
           (True, if l_system_connection l = None then l\<lparr>l_system_connection := Some fresh_conn\<rparr>
                  else l)))"

text \<open>The 10-second timeout; the result says whether GLib keeps the source.\<close>

definition reinit_dbus :: "bool \<Rightarrow> bool \<Rightarrow> gs_listener \<Rightarrow> bool \<times> gs_listener" where
  "reinit_dbus session_bus system_bus l =
     (let (initialized, l) = gs_listener_dbus_init session_bus system_bus l in
      (\<not> initialized, if initialized then l\<lparr>l_reinit := l_reinit l - 1\<rparr> else l))"

text \<open>
  The bus daemon's part in acquiring the name: whether the name has an owner, which object paths
  can be registered, and the reply to a name request with its error flag.
\<close>

record bus_names =
  bn_has_owner :: bool
  bn_register :: "string \<Rightarrow> bool"
  bn_request :: "string \<Rightarrow> int \<times> bool"

definition DBUS_REQUEST_NAME_REPLY_EXISTS :: int where "DBUS_REQUEST_NAME_REPLY_EXISTS = 3"

definition register_path :: "bus_names \<Rightarrow> string \<Rightarrow> bus_conn \<Rightarrow> bus_conn" where
  "register_path b p c = (if bn_register b p then c\<lparr>conn_paths := p # conn_paths c\<rparr> else c)"

definition add_filter :: "bus_conn \<Rightarrow> bus_conn" where
  "add_filter c = c\<lparr>conn_filter := True\<rparr>"

definition add_match :: "string \<Rightarrow> string \<Rightarrow> bus_conn \<Rightarrow> bus_conn" where
  "add_match interface member c = c\<lparr>conn_matches := (interface, member) # conn_matches c\<rparr>"

definition acquire_system :: "'msg dbus_env \<Rightarrow> gs_listener \<Rightarrow> gs_listener" where
  "acquire_system e l =
     (case l_system_connection l of
        None \<Rightarrow> l
      | Some c \<Rightarrow>
          if l_have_systemd l then
            (let c = add_match SYSTEMD_LOGIND_INTERFACE ''PrepareForSleep''
                    (add_match SYSTEMD_LOGIND_SESSION_INTERFACE ''Lock''
                    (add_match SYSTEMD_LOGIND_SESSION_INTERFACE ''Unlock'' (add_filter c)));
                 (fd, l) = take_logind_inhibit_lock e (l\<lparr>l_system_connection := Some c\<rparr>) in
             l\<lparr>l_logind_inhibit_lock := fd,
               l_system_connection := Some (add_match DBUS_INTERFACE_PROPERTIES ''PropertiesChanged'' c)\<rparr>)
          else
            l\<lparr>l_system_connection :=
               Some (add_match CK_SESSION_INTERFACE ''ActiveChanged''
                    (add_match CK_SESSION_INTERFACE ''Lock''
                    (add_match CK_SESSION_INTERFACE ''Unlock'' (add_filter c))))\<rparr>)"

definition gs_listener_acquire ::
  "'msg dbus_env \<Rightarrow> bus_names \<Rightarrow> gs_listener \<Rightarrow> bool \<times> gs_listener" where
  "gs_listener_acquire e b l =
     (case l_connection l of
        None \<Rightarrow> (False, l)
      | Some c \<Rightarrow>
          if \<not> env_connected e then (False, l)
          else if bn_has_owner b then (False, l)
          else if \<not> bn_register b GS_LISTENER_PATH then (False, l)
          else
            (let c = register_path b GS_LISTENER_PATH c;
                 (acquired, err) = bn_request b GS_LISTENER_SERVICE in
             if acquired = DBUS_REQUEST_NAME_REPLY_EXISTS then (False, l\<lparr>l_connection := Some c\<rparr>)
             else
               (let (fdo_acquired, fdo_err) = bn_request b GS_FDO_LISTENER_SERVICE;
                    c = (if fdo_acquired \<noteq> - 1
                         then register_path b GS_FDO_LISTENER_PATH2 (register_path b GS_FDO_LISTENER_PATH c)
                         else c);
                    c = add_match DBUS_INTERFACE_DBUS ''NameOwnerChanged'' (add_filter c) in
                (acquired \<noteq> - 1, acquire_system e (l\<lparr>l_connection := Some c\<rparr>)))))"

text \<open>The replies to the three session queries, \<open>None\<close> for an error.\<close>

record session_replies =
  sr_no_memory :: bool
  sr_by_pid :: "string option"
  sr_auto :: "string option"
  sr_console_kit :: "string option"

definition query_session_id :: "session_replies \<Rightarrow> gs_listener \<Rightarrow> string option" where
  "query_session_id r l =
     (if l_system_connection l = None then None
      else if sr_no_memory r then None
      else if l_have_systemd l then
        (case sr_by_pid r of Some ssid \<Rightarrow> Some ssid | None \<Rightarrow> sr_auto r)
      else sr_console_kit r)"

definition init_session_id :: "session_replies \<Rightarrow> gs_listener \<Rightarrow> gs_listener" where
  "init_session_id r l = l\<lparr>l_session_id := query_session_id r l\<rparr>"

definition gs_listener_init :: "bool \<Rightarrow> bool \<Rightarrow> bool \<Rightarrow> session_replies \<Rightarrow> gs_listener" where
  "gs_listener_init have_systemd session_bus system_bus r =
     (let l = \<lparr>l_connection = None, l_system_connection = None, l_session_idle = False,
               l_active = False, l_activation_enabled = False, l_throttled = False,
               l_inhibitors = [], l_throttlers = [], l_active_start = 0, l_session_idle_start = 0,
               l_session_id = None, l_have_systemd = have_systemd, l_logind_inhibit_lock = 0,
               l_ck_throttle_cookie = 0, l_draws = 0, l_reinit = 0, l_sent = []\<rparr>;
          l = snd (gs_listener_dbus_init session_bus system_bus l) in
      init_session_id r l)"

section \<open>Every message keeps the tables\<close>

text \<open>
  The contract of all the handlers the monitor connects: those of the active and throttle signals
  do not touch the listener; the others may, but keep its table invariant.
\<close>

definition ls_ok :: "('s \<Rightarrow> bool) \<Rightarrow> 's ls \<Rightarrow> bool" where
  "ls_ok I ls = (listener_ok (fst ls) \<and> I (snd ls))"

definition keeps_listener :: "('s \<Rightarrow> bool) \<Rightarrow> ('s ls \<Rightarrow> 's ls res) \<Rightarrow> bool" where
  "keeps_listener I f = (\<forall>ls. ls_ok I ls \<longrightarrow> rpost (ls_ok I) (f ls))"

lemma keeps_listenerD: "keeps_listener I f \<Longrightarrow> ls_ok I ls \<Longrightarrow> rpost (ls_ok I) (f ls)"
  unfolding keeps_listener_def by blast

abbreviation kept :: "('s \<Rightarrow> bool) \<Rightarrow> 'r \<times> 's ls \<Rightarrow> bool" where
  "kept I x \<equiv> ls_ok I (snd x)"

lemma kept_handled: "rpost (ls_ok I) m \<Longrightarrow> rpost (kept I) (handled m)"
  by (simp add: handled_def)

lemma kept_drop: "rpost (kept I) m \<Longrightarrow> rpost (ls_ok I) (rbind m (\<lambda>(_, ls). Inr ls))"
  by (simp add: case_prod_beta)

locale listener_client = listener_core e "sig_active_changed sg" "sig_throttle_changed sg" I
  for e :: "'msg dbus_env" and sg :: "'s listener_signals" and I :: "'s \<Rightarrow> bool" +
  assumes lock_keeps: "keeps_listener I (sig_lock sg)"
    and cycle_keeps: "keeps_listener I (sig_cycle sg)"
    and quit_keeps: "keeps_listener I (sig_quit sg)"
    and simulate_keeps: "keeps_listener I (sig_simulate_user_activity sg)"
    and show_message_keeps: "keeps_listener I (sig_show_message sg a b c)"
    and sleep_keeps: "keeps_listener I (sig_prepare_for_sleep sg d)"
begin

lemma send_reply_kept: "ls_ok I ls \<Longrightarrow> rpost (ls_ok I) (send_reply e m ls)"
  using same_tables_ok(3) [of "fst ls" "l_send m (fst ls)"]
  by (simp add: send_reply_def ls_ok_def case_prod_beta)

lemma reply_kept: "rpost (ls_ok I) m \<Longrightarrow> rpost (kept I) (rbind m (\<lambda>ls. rbind (send_reply e r ls) (\<lambda>ls. Inr (HANDLED, ls))))"
  by (erule rpost_rbindI) (simp add: send_reply_kept)

lemma set_active_kept:
  assumes "ls_ok I ls"
  shows "rpost (kept I) (gs_listener_set_active e (sig_active_changed sg) a ls)"
proof -
  obtain l s where ls: "ls = (l, s)" by (cases ls)
  have "listener_ok l" "I s" using assms ls by (simp_all add: ls_ok_def)
  then have "rpost (\<lambda>(r, l', s'). same_tables l l' \<and> I s') (gs_listener_set_active e (sig_active_changed sg) a ls)"
    unfolding ls by (intro set_active_post)
  then show ?thesis
    by (rule rpost_mono) (use \<open>listener_ok l\<close> same_tables_ok(3) in \<open>auto simp: ls_ok_def\<close>)
qed

lemma set_property_kept:
  assumes "ls_ok I ls"
  shows "rpost (kept I) (listener_set_property e (sig_active_changed sg) m ls)"
  unfolding listener_set_property_def
proof (rule rpost_rbindI [where P = "kept I"])
  show "rpost (kept I) (case msg_body e m of A_Bool v # _ \<Rightarrow> listener_property_set_bool e (sig_active_changed sg) v ls
       | _ \<Rightarrow> Inr (False, ls))"
    using assms set_active_kept [OF assms]
    by (auto simp: listener_property_set_bool_def case_prod_beta split: list.splits dbus_arg.splits)
next
  fix x :: "bool \<times> 's ls" assume "kept I x"
  then show "rpost (kept I) (case x of (rc, ls) \<Rightarrow>
      rbind (if \<not> rc then raise_property_type_error e ls else send_reply e Ret_Empty ls) (\<lambda>ls. Inr (HANDLED, ls)))"
    by (simp add: raise_property_type_error_def case_prod_beta send_reply_kept)
qed

lemma add_kept:
  "ls_ok I ls \<Longrightarrow> rpost (kept I) (listener_dbus_add_ref_entry e (sig_active_changed sg) (sig_throttle_changed sg) t m ls)"
  using rpost_mono [OF dbus_add_ref_entry_post [of "fst ls" "snd ls" t m], of "kept I"]
  by (auto simp: ls_ok_def)

lemma remove_kept:
  "ls_ok I ls \<Longrightarrow> rpost (kept I) (listener_dbus_remove_ref_entry e (sig_active_changed sg) (sig_throttle_changed sg) t m ls)"
  using rpost_mono [OF dbus_remove_ref_entry_post [of "fst ls" "snd ls" t m], of "kept I"]
  by (auto simp: ls_ok_def)

lemma queries_kept:
  assumes "ls_ok I ls"
  shows "rpost (kept I) (listener_dbus_get_ref_entries e t ls)"
    and "rpost (kept I) (listener_get_property e ls)"
    and "rpost (kept I) (listener_get_active_time e ls)"
    and "rpost (kept I) (do_introspect e m ls)"
  using send_reply_kept [OF assms]
  by (simp_all add: listener_dbus_get_ref_entries_def listener_get_property_def
      listener_get_active_time_def do_introspect_def split: option.splits)

lemma show_message_kept:
  assumes "ls_ok I ls"
  shows "rpost (kept I) (listener_show_message e (sig_show_message sg) m ls)"
proof -
  have "rpost (kept I) (rbind (sig_show_message sg a b c ls) (\<lambda>ls. rbind (send_reply e Ret_Empty ls) (\<lambda>ls. Inr (HANDLED, ls))))" for a b c
    by (rule reply_kept) (rule keeps_listenerD [OF show_message_keeps assms])
  then show ?thesis
    using send_reply_kept [OF assms]
    by (simp add: listener_show_message_def raise_syntax_def split: option.splits)
qed

lemma session_message_kept:
  assumes "ls_ok I ls"
  shows "rpost (kept I) (listener_dbus_handle_session_message e sg m ls)"
  unfolding listener_dbus_handle_session_message_def Let_def
  by (intro rpost_if kept_handled kept_drop set_active_kept add_kept remove_kept queries_kept
      set_property_kept show_message_kept keeps_listenerD [OF lock_keeps] keeps_listenerD [OF quit_keeps]
      keeps_listenerD [OF cycle_keeps] keeps_listenerD [OF simulate_keeps] assms)
    (simp add: assms)

lemma prepare_for_sleep_kept:
  assumes "ls_ok I ls"
  shows "rpost (ls_ok I) (handle_prepare_for_sleep e (sig_prepare_for_sleep sg) m ls)"
proof -
  have up: "ls_ok I (l\<lparr>l_logind_inhibit_lock := d\<rparr>, s) = ls_ok I (l, s)" for l d s
    using same_tables_ok(3) [of l "l\<lparr>l_logind_inhibit_lock := d\<rparr>"] by (simp add: ls_ok_def)
  have tk: "ls_ok I (snd (take_logind_inhibit_lock e l), s) = ls_ok I (l, s)" for l s
    using same_tables_ok(3) [of l "l_send Call_Logind_Inhibit l"]
    by (auto simp: take_logind_inhibit_lock_def ls_ok_def Let_def split: option.splits)
  obtain l s where ls: "ls = (l, s)" by (cases ls)
  have "ls_ok I ((snd (take_logind_inhibit_lock e l))\<lparr>l_logind_inhibit_lock := fst (take_logind_inhibit_lock e l)\<rparr>, s)"
    using assms ls by (simp add: up tk)
  note off = keeps_listenerD [OF sleep_keeps this, of False]
  have "rpost (ls_ok I) (rbind (sig_prepare_for_sleep sg True ls) (\<lambda>(l, s).
        Inr (if l_logind_inhibit_lock l \<noteq> 0 then l\<lparr>l_logind_inhibit_lock := 0\<rparr> else l, s)))"
    by (rule rpost_rbindI [OF keeps_listenerD [OF sleep_keeps assms]]) (auto simp: up)
  then show ?thesis
    using off ls by (simp add: handle_prepare_for_sleep_def Let_def case_prod_beta)
qed

lemma systemd_message_kept:
  assumes "ls_ok I ls"
  shows "rpost (kept I) (handle_systemd_message e sg m ls)"
  unfolding handle_systemd_message_def Let_def
  by (intro rpost_if kept_handled kept_drop set_active_kept prepare_for_sleep_kept
      keeps_listenerD [OF lock_keeps] keeps_listenerD [OF simulate_keeps] assms)
    (simp_all add: assms)

lemma remove_ck_kept:
  "ls_ok I ls \<Longrightarrow> rpost (ls_ok I)
     (listener_remove_ck_ref_entry e (sig_active_changed sg) (sig_throttle_changed sg) t c ls)"
  unfolding listener_remove_ck_ref_entry_def
  using rpost_mono [OF remove_ref_entry_post [of "fst ls" "snd ls" t c], of "kept I"]
  by (intro kept_drop) (auto simp: ls_ok_def)

lemma add_ck_kept:
  assumes "ls_ok I ls"
  shows "rpost (kept I) (listener_add_ck_ref_entry e (sig_active_changed sg) (sig_throttle_changed sg) t m ls)"
proof -
  obtain l s where ls: "ls = (l, s)" by (cases ls)
  have "rpost (ls_ok I) (listener_add_ref_entry e (sig_active_changed sg) (sig_throttle_changed sg) t en (l', s))"
    if "l' = l\<lparr>l_draws := n\<rparr>" "re_entry_type en = t" for l' n en
  proof -
    have "same_tables l l'" using that by simp
    then have "listener_ok l'" "I s" using assms ls same_tables_ok(3) [of l l'] by (simp_all add: ls_ok_def)
    then show ?thesis
      by (rule rpost_mono [OF add_ref_entry_post [OF _ _ that(2)]]) (auto simp: ls_ok_def)
  qed
  then have "rpost (ls_ok I) (listener_add_ref_entry e (sig_active_changed sg) (sig_throttle_changed sg) t en (l', s))"
    if "l' = l\<lparr>l_draws := l_draws l'\<rparr>" "re_entry_type en = t" for l' en
    using that by blast
  then show ?thesis
    unfolding listener_add_ck_ref_entry_def ls prod.case
    by (intro rpost_rbindI [OF unique_key_post]) (auto simp: Let_def)
qed

lemma ck_drop_kept:
  assumes "ls_ok I ls"
  shows "rpost (ls_ok I) (ck_drop_throttle e (sig_active_changed sg) (sig_throttle_changed sg) ls)"
proof -
  have up: "ls_ok I (l\<lparr>l_ck_throttle_cookie := d\<rparr>, s) = ls_ok I (l, s)" for l d s
    using same_tables_ok(3) [of l "l\<lparr>l_ck_throttle_cookie := d\<rparr>"] by (simp add: ls_ok_def)
  have "rpost (ls_ok I) (rbind (listener_remove_ck_ref_entry e (sig_active_changed sg) (sig_throttle_changed sg)
      REF_ENTRY_TYPE_THROTTLE c ls) (\<lambda>(l, s). Inr (l\<lparr>l_ck_throttle_cookie := 0\<rparr>, s)))" for c
    by (rule rpost_rbindI [OF remove_ck_kept [OF assms]]) (auto simp: up)
  then show ?thesis using assms by (simp add: ck_drop_throttle_def)
qed

lemma ck_active_changed_kept:
  assumes "ls_ok I ls"
  shows "rpost (ls_ok I) (handle_ck_active_changed e sg m ls)"
proof -
  have up: "ls_ok I (l\<lparr>l_ck_throttle_cookie := d\<rparr>, s) = ls_ok I (l, s)" for l d s
    using same_tables_ok(3) [of l "l\<lparr>l_ck_throttle_cookie := d\<rparr>"] by (simp add: ls_ok_def)
  have on: "rpost (ls_ok I) (rbind (ck_drop_throttle e (sig_active_changed sg) (sig_throttle_changed sg) ls)
      (sig_simulate_user_activity sg))"
    by (rule rpost_rbindI [OF ck_drop_kept [OF assms]]) (rule keeps_listenerD [OF simulate_keeps])
  have "rpost (ls_ok I) (rbind (ck_drop_throttle e (sig_active_changed sg) (sig_throttle_changed sg) ls) (\<lambda>ls.
      rbind (listener_add_ck_ref_entry e (sig_active_changed sg) (sig_throttle_changed sg) REF_ENTRY_TYPE_THROTTLE m ls)
        (\<lambda>(cookie, l, s). Inr (l\<lparr>l_ck_throttle_cookie := cookie\<rparr>, s))))"
    by (rule rpost_rbindI [OF ck_drop_kept [OF assms]], erule rpost_rbindI [OF add_ck_kept]) (auto simp: up)
  then show ?thesis
    using assms on by (simp add: handle_ck_active_changed_def Let_def split: option.splits bool.splits)
qed

lemma system_message_kept:
  assumes "ls_ok I ls"
  shows "rpost (kept I) (listener_dbus_handle_system_message e sg m ls)"
  unfolding listener_dbus_handle_system_message_def handle_ck_message_def Let_def
  by (intro rpost_if kept_handled kept_drop set_active_kept systemd_message_kept ck_active_changed_kept
      keeps_listenerD [OF lock_keeps] assms)
    (simp_all add: assms)

lemma message_handler_kept:
  assumes "ls_ok I ls"
  shows "rpost (kept I) (gs_listener_message_handler e sg m ls)"
proof -
  have "rpost (kept I) (rbind (is_disconnected e m) (\<lambda>gone.
      if gone then ret (HANDLED, ls) else listener_dbus_handle_session_message e sg m ls))"
    by (rule rpost_rbindI [where P = "\<lambda>_. True"]) (simp_all add: rpost_def [of "\<lambda>_. True"] assms session_message_kept)
  then show ?thesis
    using kept_handled [OF send_reply_kept [OF assms]] unfolding gs_listener_message_handler_def by (intro rpost_if)
qed

text \<open>Whatever arrives on either connection.\<close>

lemma filters_kept:
  assumes "ls_ok I ls"
  shows "rpost (kept I) (listener_dbus_filter_function e sg m ls)"
    and "rpost (kept I) (listener_dbus_system_filter_function e sg m ls)"
proof -
  have up: "ls_ok I (l\<lparr>l_connection := c, l_reinit := n\<rparr>, s) = ls_ok I (l, s)"
      "ls_ok I (l\<lparr>l_system_connection := c, l_reinit := n\<rparr>, s) = ls_ok I (l, s)" for l c n s
    by (simp_all add: ls_ok_def listener_ok_def throttle_ok_def listener_ref_entry_is_present_def hash_defs)
  have "rpost (ls_ok I) (listener_service_deleted e (sig_active_changed sg) (sig_throttle_changed sg) m ls)"
  proof (cases "msg_get_2_strings e m")
    case None
    then show ?thesis by (simp add: listener_service_deleted_def case_prod_beta)
  next
    case (Some p)
    obtain a b where "p = (a, b)" by (cases p)
    then show ?thesis
      using rpost_mono [OF service_deleted_post [of "fst ls" "snd ls" m a b], of "ls_ok I"] Some assms
      by (auto simp: ls_ok_def)
  qed
  then show "rpost (kept I) (listener_dbus_filter_function e sg m ls)"
    using assms session_message_kept [OF assms]
    by (auto simp: listener_dbus_filter_function_def up case_prod_beta rpost_def [of _ "is_disconnected e m"]
        intro!: rpost_if kept_handled)
  show "rpost (kept I) (listener_dbus_system_filter_function e sg m ls)"
    using assms system_message_kept [OF assms]
    by (auto simp: listener_dbus_system_filter_function_def up case_prod_beta rpost_def [of _ "is_disconnected e m"])
qed

end

section \<open>Properties\<close>

text \<open>Handlers for the witnesses: every signal is accepted and changes nothing.\<close>

definition sample_signals :: "unit listener_signals" where
  "sample_signals =
     \<lparr>sig_lock = ret, sig_cycle = ret, sig_quit = ret, sig_simulate_user_activity = ret,
      sig_active_changed = (\<lambda>b ls. ret (True, ls)), sig_throttle_changed = (\<lambda>b. ret),
      sig_show_message = (\<lambda>a b c. ret), sig_prepare_for_sleep = (\<lambda>b. ret)\<rparr>"

text \<open>
  C18: session messages of others.  A signal on the system bus whose object path is not the path of
  this session changes nothing, in particular it neither locks nor unlocks; the only exception is
  the announcement of a suspend, which concerns every session.
\<close>

theorem foreign_session_ignored:
  assumes "\<not> listener_message_path_is_our_session e l m"
    and "\<not> msg_is_signal e m SYSTEMD_LOGIND_INTERFACE ''PrepareForSleep''"
  shows "\<exists>h. listener_dbus_handle_system_message e sg m (l, s) = Inr (h, l, s)"
  using assms
  by (simp add: listener_dbus_handle_system_message_def handle_systemd_message_def
      handle_ck_message_def handled_def Let_def)

theorem foreign_session_ignored_witness:
  "\<exists>h. listener_dbus_handle_system_message
        (sample_env\<lparr>msg_is_signal := (\<lambda>m i n. i = SYSTEMD_LOGIND_SESSION_INTERFACE \<and> n = ''Unlock''),
                    msg_path := (\<lambda>_. Some ''/org/freedesktop/login1/session/_32'')\<rparr>)
        sample_signals 0 (sample_listener\<lparr>l_session_id := Some ''/org/freedesktop/login1/session/_31'', l_active := True\<rparr>, ())
      = Inr (h, sample_listener\<lparr>l_session_id := Some ''/org/freedesktop/login1/session/_31'', l_active := True\<rparr>, ())"
  by (rule foreign_session_ignored)
    (simp_all add: listener_message_path_is_our_session_def SYSTEMD_LOGIND_SESSION_INTERFACE_def
      SYSTEMD_LOGIND_INTERFACE_def)

lemma scan_dict_entries_map: "scan_dict_entries p (map A_Dict_Entry ps) = Some (p \<in> set ps)"
  by (induction ps) auto

lemma scan_strings_map: "scan_strings p (map A_String ps) = Some (p \<in> set ps)"
  by (induction ps) auto

text \<open>
  Reading a PropertiesChanged message.  On a message of the documented shape the scan answers
  exactly whether the property is among the changed or the invalidated ones.
\<close>

theorem properties_changed_match_iff:
  assumes "msg_body e m = A_String interface_name # A_Array T_Dict_Entry (map A_Dict_Entry changed)
             # A_Array T_String (map A_String invalidated) # rest"
  shows "properties_changed_match e m p \<longleftrightarrow> p \<in> set changed \<or> p \<in> set invalidated"
  using assms
  by (auto simp: properties_changed_match_def scan_dict_entries_map scan_strings_map split: bool.splits)

theorem properties_changed_match_iff_witness:
  "properties_changed_match
     (sample_env\<lparr>msg_body := (\<lambda>_. [A_String ''i'', A_Array T_Dict_Entry [A_Dict_Entry ''IdleHint''], A_Array T_String [A_String ''Active'']])\<rparr>)
     0 ''Active''"
  using properties_changed_match_iff [of "sample_env\<lparr>msg_body := (\<lambda>_. [A_String ''i'', A_Array T_Dict_Entry [A_Dict_Entry ''IdleHint''], A_Array T_String [A_String ''Active'']])\<rparr>"
      0 "''i''" "[''IdleHint'']" "[''Active'']" "[]" "''Active''"]
  by simp

text \<open>
  Acquiring the service.  When \<open>gs_listener_acquire\<close> succeeds, no other screensaver owned the
  name, the object path is registered, and the message filter and the match for vanishing clients
  are installed on the session connection.
\<close>

theorem acquire_registers:
  assumes "gs_listener_acquire e b l = (True, l')"
  shows "\<not> bn_has_owner b \<and> fst (bn_request b GS_LISTENER_SERVICE) \<noteq> DBUS_REQUEST_NAME_REPLY_EXISTS
       \<and> (\<exists>c. l_connection l' = Some c \<and> conn_filter c \<and> GS_LISTENER_PATH \<in> set (conn_paths c)
            \<and> (DBUS_INTERFACE_DBUS, ''NameOwnerChanged'') \<in> set (conn_matches c))"
proof -
  have "l_connection (acquire_system e x) = l_connection x" for x
    by (auto simp: acquire_system_def take_logind_inhibit_lock_def l_send_def Let_def split: option.splits prod.splits)
  then show ?thesis
    using assms
    by (auto simp: gs_listener_acquire_def register_path_def add_match_def add_filter_def Let_def
        split: option.splits if_splits prod.splits)
qed

theorem acquire_registers_witness:
  "\<exists>c. l_connection (snd (gs_listener_acquire sample_env
      \<lparr>bn_has_owner = False, bn_register = (\<lambda>_. True), bn_request = (\<lambda>_. (1, False))\<rparr> sample_listener)) = Some c
    \<and> conn_filter c"
proof -
  let ?r = "gs_listener_acquire sample_env \<lparr>bn_has_owner = False, bn_register = (\<lambda>_. True), bn_request = (\<lambda>_. (1, False))\<rparr> sample_listener"
  have "fst ?r" by (simp add: gs_listener_acquire_def sample_listener_def sample_env_def DBUS_REQUEST_NAME_REPLY_EXISTS_def)
  then have "?r = (True, snd ?r)" by (metis prod.collapse)
  from acquire_registers [OF this] show ?thesis by blast
qed

text \<open>
  After the session bus goes away the listener reconnects, but only to an empty connection: no
  object path, no filter and no match is registered on it, so no request reaches the daemon again.
\<close>

theorem reconnect_is_deaf:
  assumes "msg_is_signal e m DBUS_INTERFACE_LOCAL ''Disconnected''" "msg_path e m = Some DBUS_PATH_LOCAL"
    and "listener_dbus_filter_function e sg m (l, s) = Inr (h, l1, s1)"
    and "reinit_dbus True system_bus l1 = (again, l2)"
  shows "l_connection l2 = Some \<lparr>conn_paths = [], conn_filter = False, conn_matches = []\<rparr>"
  using assms
  by (auto simp: listener_dbus_filter_function_def is_disconnected_def reinit_dbus_def
      gs_listener_dbus_init_def fresh_conn_def Let_def split: if_splits prod.splits)

theorem reconnect_is_deaf_witness:
  "\<exists>l1 l2. listener_dbus_filter_function
       (sample_env\<lparr>msg_is_signal := (\<lambda>m i n. i = DBUS_INTERFACE_LOCAL \<and> n = ''Disconnected''),
                   msg_path := (\<lambda>_. Some DBUS_PATH_LOCAL)\<rparr>) sample_signals 0 (sample_listener, ()) = Inr (HANDLED, l1, ())
     \<and> reinit_dbus True True l1 = (False, l2)
     \<and> l_connection l2 = Some \<lparr>conn_paths = [], conn_filter = False, conn_matches = []\<rparr>"
proof -
  let ?e = "sample_env\<lparr>msg_is_signal := (\<lambda>m i n. i = DBUS_INTERFACE_LOCAL \<and> n = ''Disconnected''),
                   msg_path := (\<lambda>_. Some DBUS_PATH_LOCAL)\<rparr>"
  obtain l1 where f: "listener_dbus_filter_function ?e sample_signals 0 (sample_listener, ()) = Inr (HANDLED, l1, ())"
    and n: "l_connection l1 = None" "l_system_connection l1 = None"
    by (simp add: listener_dbus_filter_function_def is_disconnected_def sample_listener_def)
  obtain l2 where r: "reinit_dbus True True l1 = (False, l2)"
    using n by (simp add: reinit_dbus_def gs_listener_dbus_init_def)
  show ?thesis using f r reconnect_is_deaf [OF _ _ f r] by simp
qed

end
