(* ===== verification/GS_Listener_Sync.thy ===== *)
theory GS_Listener_Sync
  imports GS_Listener_Bus
begin

text \<open>
  The listener and the rest of the daemon in step: a relation \<open>P\<close> between the two flags of the
  listener (active, throttled) and the state of the handlers survives every message, if the
  handlers of the two signals establish it for the value they accept.
\<close>

section \<open>Flags\<close>

definition synced :: "(bool \<Rightarrow> bool \<Rightarrow> 's \<Rightarrow> bool) \<Rightarrow> 's ls \<Rightarrow> bool" where
  "synced P ls = P (l_active (fst ls)) (l_throttled (fst ls)) (snd ls)"

definition same_flags :: "gs_listener \<Rightarrow> gs_listener \<Rightarrow> bool" where
  "same_flags l l' = (l_active l' = l_active l \<and> l_throttled l' = l_throttled l)"

lemma synced_move: "same_flags l l' \<Longrightarrow> synced P (l, s) \<Longrightarrow> synced P (l', s)"
  by (simp add: synced_def same_flags_def)

lemma same_flags_simps [simp]:
  "same_flags l l" "same_flags l (l_send m l') = same_flags l l'" "same_flags l (put_hash t h l') = same_flags l l'"
  "same_flags l (l'\<lparr>l_session_idle := b\<rparr>) = same_flags l l'" "same_flags l (l'\<lparr>l_draws := n\<rparr>) = same_flags l l'"
  "same_flags l (listener_set_session_idle_internal e b l') = same_flags l l'"
  "same_flags l (l'\<lparr>l_logind_inhibit_lock := d\<rparr>) = same_flags l l'"
  "same_flags l (l'\<lparr>l_ck_throttle_cookie := c\<rparr>) = same_flags l l'"
  by (simp_all add: same_flags_def l_send_def put_hash_def listener_set_session_idle_internal_def split: ref_entry_type.splits)

lemma same_flags_trans: "same_flags a b \<Longrightarrow> same_flags b c \<Longrightarrow> same_flags a c"
  by (simp add: same_flags_def)

lemma active_internal_flags:
  "l_active (listener_set_active_internal e a l) = a" "l_throttled (listener_set_active_internal e a l) = l_throttled l"
  by (simp_all add: listener_set_active_internal_def gs_listener_send_signal_active_changed_def
      send_dbus_boolean_signal_def send_dbus_message_def l_send_def listener_set_session_idle_internal_def Let_def)

lemma unique_key_flags: "rpost (\<lambda>(c, l'). same_flags l l') (listener_generate_unique_key e t l)"
  by (simp add: listener_generate_unique_key_def split: option.splits)

lemma add_inhibit_flags: "rpost (\<lambda>(en', l'). same_flags l l') (add_session_inhibit e en l)"
  by (simp add: add_session_inhibit_def Let_def split: option.splits)

lemma remove_inhibit_flags: "rpost (same_flags l) (remove_session_inhibit e en l)"
  by (simp add: remove_session_inhibit_def)

lemma remove_loop_flags:
  "same_flags l0 l \<Longrightarrow> rpost (\<lambda>(r, l'). same_flags l0 l') (remove_for_connection_loop e t c es r l)"
proof (induction e t c es r l rule: remove_for_connection_loop.induct)
  case (2 e t c k en rest r l)
  have "rpost (same_flags l0) (if re_entry_type en = REF_ENTRY_TYPE_INHIBIT then remove_session_inhibit e en l else ret l)"
    using 2(3) rpost_mono [OF remove_inhibit_flags [of l e en]] same_flags_trans by auto
  then show ?case
    using 2 by (auto intro!: rpost_rbindI simp del: rpost_simps(3))
qed simp

lemma remove_conn_flags: "rpost (\<lambda>(r, l'). same_flags l l') (listener_ref_entry_remove_for_connection e t c l)"
  using remove_loop_flags [of l l e t] by (simp add: listener_ref_entry_remove_for_connection_def split: option.splits)

lemma send_reply_synced: "synced P ls \<Longrightarrow> rpost (synced P) (send_reply e m ls)"
  by (cases ls) (simp add: send_reply_def synced_def l_send_def)

abbreviation syncs :: "(bool \<Rightarrow> bool \<Rightarrow> 's \<Rightarrow> bool) \<Rightarrow> 'r \<times> 's ls \<Rightarrow> bool" where
  "syncs P x \<equiv> synced P (snd x)"

lemma syncs_handled: "rpost (synced P) m \<Longrightarrow> rpost (syncs P) (handled m)"
  by (simp add: handled_def)

lemma syncs_drop: "rpost (syncs P) m \<Longrightarrow> rpost (synced P) (rbind m (\<lambda>(_, ls). ret ls))"
  by (simp add: case_prod_beta)

lemma syncs_reply:
  "rpost (synced P) m \<Longrightarrow> rpost (syncs P) (rbind m (\<lambda>ls. rbind (send_reply e r ls) (\<lambda>ls. ret (HANDLED, ls))))"
  by (erule rpost_rbindI) (simp add: send_reply_synced)

section \<open>The contract\<close>

text \<open>
  Everything but a request to deactivate needs the handler of the active signal for TRUE only.
\<close>

locale listener_up =
  fixes e :: "'msg dbus_env" and ac :: "'s active_handler" and tc :: "'s throttle_handler" and P :: "bool \<Rightarrow> bool \<Rightarrow> 's \<Rightarrow> bool"
  assumes ac_up: "P (l_active l) (l_throttled l) s \<Longrightarrow> \<not> l_active l \<Longrightarrow>
      rpost (\<lambda>(r, l', s'). l' = l \<and> P r (l_throttled l) s') (ac True (l, s))"
    and tc_sync: "P (l_active l) t s \<Longrightarrow> l_throttled l = b \<Longrightarrow>
      rpost (\<lambda>(l', s'). l' = l \<and> P (l_active l) b s') (tc b (l, s))"
begin

lemma set_active_true:
  assumes "synced P ls"
  shows "rpost (syncs P) (gs_listener_set_active e ac True ls)"
proof -
  obtain l s where ls: "ls = (l, s)" by (cases ls)
  show ?thesis
  proof (cases "l_active l")
    case True
    then show ?thesis using assms ls by (simp add: gs_listener_set_active_def)
  next
    case False
    have p: "P (l_active l) (l_throttled l) s" using assms ls by (simp add: synced_def)
    have "rpost (syncs P) (rbind (ac True (l, s)) (\<lambda>(res, l, s).
          if \<not> res then ret (False, listener_set_session_idle_internal e False l, s)
          else ret (True, listener_set_active_internal e True l, s)))"
      by (rule rpost_rbindI [OF ac_up [OF p False]])
        (use False in \<open>auto simp: synced_def active_internal_flags listener_set_session_idle_internal_def\<close>)
    then show ?thesis using False ls by (simp add: gs_listener_set_active_def cong: if_cong)
  qed
qed

lemma check_activation_sync:
  "synced P ls \<Longrightarrow> rpost (syncs P) (listener_check_activation e ac ls)"
  using set_active_true [of ls] by (cases ls) (simp add: listener_check_activation_def)

lemma set_session_idle_sync:
  assumes "synced P ls"
  shows "rpost (syncs P) (gs_listener_set_session_idle e ac b ls)"
proof -
  obtain l s where ls: "ls = (l, s)" by (cases ls)
  have p: "synced P (l\<lparr>l_session_idle := b\<rparr>, s)" using assms ls by (simp add: synced_def)
  have "rpost (syncs P) (rbind (listener_check_activation e ac (l\<lparr>l_session_idle := b\<rparr>, s)) (\<lambda>(res, l, s).
      if res then ret (True, listener_set_session_idle_internal e b l, s) else ret (False, l\<lparr>l_session_idle := \<not> b\<rparr>, s)))"
    by (rule rpost_rbindI [OF check_activation_sync [OF p]]) (auto simp: synced_def listener_set_session_idle_internal_def)
  then show ?thesis using assms ls by (simp add: gs_listener_set_session_idle_def)
qed

lemma check_throttle_sync:
  assumes "synced P ls"
  shows "rpost (syncs P) (listener_check_throttle tc ls)"
proof -
  obtain l s where ls: "ls = (l, s)" by (cases ls)
  let ?b = "listener_ref_entry_is_present l REF_ENTRY_TYPE_THROTTLE"
  have "rpost (synced P) (tc ?b (l\<lparr>l_throttled := ?b\<rparr>, s))"
    by (rule rpost_mono [OF tc_sync [where t = "l_throttled l"]]) (use assms ls in \<open>auto simp: synced_def\<close>)
  then show ?thesis
    using assms ls by (auto simp: listener_check_throttle_def gs_listener_set_throttle_def Let_def)
qed

lemma ref_entry_check_sync:
  assumes "synced P ls"
  shows "rpost (synced P) (listener_ref_entry_check e ac tc t ls)"
  by (cases t) (auto simp: listener_ref_entry_check_def intro!: syncs_drop check_activation_sync check_throttle_sync assms
      simp del: rpost_simps(3))

lemma add_ref_entry_sync:
  assumes "synced P ls"
  shows "rpost (synced P) (listener_add_ref_entry e ac tc t entry ls)"
proof -
  obtain l s where ls: "ls = (l, s)" by (cases ls)
  let ?l = "put_hash t (gh_insert (re_cookie entry) entry (get_hash_for_entry_type l t)) l"
  have "rpost (same_flags l) (rbind (add_session_inhibit e entry ?l) (\<lambda>(entry, l).
      ret (put_hash t (gh_insert (re_cookie entry) entry (get_hash_for_entry_type l t)) l)))"
    by (rule rpost_rbindI [OF add_inhibit_flags]) (auto simp: same_flags_def put_hash_def split: ref_entry_type.splits)
  then have "rpost (same_flags l) (if t = REF_ENTRY_TYPE_INHIBIT then
               rbind (add_session_inhibit e entry ?l) (\<lambda>(entry, l).
               ret (put_hash t (gh_insert (re_cookie entry) entry (get_hash_for_entry_type l t)) l))
             else ret ?l)"
    by auto
  then show ?thesis
    unfolding listener_add_ref_entry_def ls case_prod_conv Let_def
    by (rule rpost_rbindI) (rule ref_entry_check_sync, rule synced_move, assumption, use assms ls in simp)
qed

lemma remove_ref_entry_sync:
  assumes "synced P ls"
  shows "rpost (syncs P) (listener_remove_ref_entry e ac tc t cookie ls)"
proof -
  obtain l s where ls: "ls = (l, s)" by (cases ls)
  have chk: "rpost (syncs P) (rbind (listener_ref_entry_check e ac tc t
        (put_hash t h l1, s)) (\<lambda>ls. ret (True, ls)))" if "same_flags l l1" for h l1
  proof -
    have "synced P (put_hash t h l1, s)" by (rule synced_move [of l]) (use that assms ls in simp_all)
    then show ?thesis using ref_entry_check_sync by simp
  qed
  have "rpost (same_flags l) (if t = REF_ENTRY_TYPE_INHIBIT then remove_session_inhibit e en l else ret l)" for en
    by (intro rpost_if remove_inhibit_flags) simp
  note run = rpost_rbindI [OF this chk]
  show ?thesis
    using run assms ls by (auto simp: listener_remove_ref_entry_def Let_def simp del: rpost_simps(3) split: option.split)
qed

lemma dbus_add_sync:
  assumes "synced P ls"
  shows "rpost (syncs P) (listener_dbus_add_ref_entry e ac tc t m ls)"
proof -
  obtain l s where ls: "ls = (l, s)" by (cases ls)
  have "rpost (syncs P) (rbind (listener_add_ref_entry e ac tc t en (l1, s)) (\<lambda>ls.
      rbind (send_reply e r ls) (\<lambda>ls. ret (HANDLED, ls))))" if "same_flags l l1" for en l1 r
    by (intro syncs_reply add_ref_entry_sync synced_move [OF that]) (use assms ls in simp)
  then have run: "rpost (syncs P) (rbind (listener_generate_unique_key e t l) (\<lambda>(cookie, l).
      let entry = f cookie in
      rbind (listener_add_ref_entry e ac tc t entry (l, s)) (\<lambda>ls.
      rbind (send_reply e (Ret_Cookie cookie) ls) (\<lambda>ls. ret (HANDLED, ls)))))" for f
    by (intro rpost_rbindI [OF unique_key_flags]) (auto simp del: rpost_simps(3) simp: Let_def)
  show ?thesis
    using run send_reply_synced [OF assms, where e = e] unfolding ls
    by (simp add: listener_dbus_add_ref_entry_def raise_syntax_def del: rpost_simps(3) split: option.split) simp
qed

lemma dbus_remove_sync:
  assumes "synced P ls"
  shows "rpost (syncs P) (listener_dbus_remove_ref_entry e ac tc t m ls)"
proof -
  have "rpost (syncs P) (rbind (listener_remove_ref_entry e ac tc t c ls) (\<lambda>(_, ls).
      rbind (send_reply e Ret_Empty ls) (\<lambda>ls. ret (HANDLED, ls))))" for c
    by (rule rpost_rbindI [OF remove_ref_entry_sync [OF assms]]) (simp add: split_def send_reply_synced)
  then show ?thesis
    by (auto simp: listener_dbus_remove_ref_entry_def raise_syntax_def send_reply_synced [OF assms] split: option.split)
qed

lemma service_deleted_sync:
  assumes "synced P ls"
  shows "rpost (synced P) (listener_service_deleted e ac tc m ls)"
proof -
  have one: "rpost (synced P) (rbind (listener_ref_entry_remove_for_connection e t c l) (\<lambda>(removed, l).
      if removed then listener_ref_entry_check e ac tc t (l, s) else ret (l, s)))"
    if sync: "synced P (l, s)" for t c l s
  proof (rule rpost_rbindI [OF remove_conn_flags], clarify)
    fix r l1 assume "same_flags l l1"
    then have "synced P (l1, s)" using sync by (rule synced_move)
    then show "rpost (synced P) (if r then listener_ref_entry_check e ac tc t (l1, s)
        else ret (l1, s))"
      by (simp add: ref_entry_check_sync)
  qed
  obtain l s where ls: "ls = (l, s)" by (cases ls)
  have both: "rpost (synced P) (rbind (listener_ref_entry_remove_for_connection e REF_ENTRY_TYPE_THROTTLE c l) (\<lambda>(removed, l).
      rbind (if removed then listener_ref_entry_check e ac tc REF_ENTRY_TYPE_THROTTLE (l, s)
             else ret (l, s)) (\<lambda>(l, s).
      rbind (listener_ref_entry_remove_for_connection e REF_ENTRY_TYPE_INHIBIT c l) (\<lambda>(removed, l).
      if removed then listener_ref_entry_check e ac tc REF_ENTRY_TYPE_INHIBIT (l, s)
      else ret (l, s)))))" for c
  proof (rule rpost_rbindI [OF remove_conn_flags], clarify)
    fix r l1 assume "same_flags l l1"
    then have "synced P (l1, s)" using assms unfolding ls by (rule synced_move)
    then have "rpost (synced P) (if r then listener_ref_entry_check e ac tc
        REF_ENTRY_TYPE_THROTTLE (l1, s) else ret (l1, s))"
      by (simp add: ref_entry_check_sync)
    then show "rpost (synced P) (rbind (if r then listener_ref_entry_check e ac tc
          REF_ENTRY_TYPE_THROTTLE (l1, s) else ret (l1, s)) (\<lambda>(l, s).
        rbind (listener_ref_entry_remove_for_connection e REF_ENTRY_TYPE_INHIBIT c l) (\<lambda>(removed, l).
        if removed then listener_ref_entry_check e ac tc REF_ENTRY_TYPE_INHIBIT (l, s)
        else ret (l, s))))"
      by (rule rpost_rbindI) (clarify, rule one)
  qed
  show ?thesis
  proof (cases "msg_get_2_strings e m")
    case (Some ab)
    then show ?thesis using both [of "Some (snd ab)"] unfolding listener_service_deleted_def ls by (simp only: option.case prod.case split_beta fst_conv snd_conv)
  qed (simp add: listener_service_deleted_def ls)
qed

lemma queries_sync:
  assumes "synced P ls"
  shows "rpost (syncs P) (listener_dbus_get_ref_entries e t ls)"
    and "rpost (syncs P) (listener_get_property e ls)"
    and "rpost (syncs P) (listener_get_active_time e ls)"
    and "rpost (syncs P) (do_introspect e m ls)"
  by (simp_all add: listener_dbus_get_ref_entries_def listener_get_property_def
      listener_get_active_time_def do_introspect_def send_reply_synced [OF assms] split: option.splits)

lemma ck_drop_sync:
  assumes "synced P ls"
  shows "rpost (synced P) (ck_drop_throttle e ac tc ls)"
proof -
  have "rpost (synced P) (rbind (listener_remove_ck_ref_entry e ac tc
      REF_ENTRY_TYPE_THROTTLE c ls) (\<lambda>(l, s). ret (l\<lparr>l_ck_throttle_cookie := 0\<rparr>, s)))" for c
    unfolding listener_remove_ck_ref_entry_def
    by (rule rpost_rbindI [OF syncs_drop [OF remove_ref_entry_sync [OF assms]]]) (auto simp: synced_def)
  then show ?thesis using assms by (simp add: ck_drop_throttle_def)
qed

lemma add_ck_sync:
  assumes "synced P ls"
  shows "rpost (syncs P) (listener_add_ck_ref_entry e ac tc t m ls)"
proof -
  obtain l s where ls: "ls = (l, s)" by (cases ls)
  have "synced P (l1, s)" if "same_flags l l1" for l1 by (rule synced_move [OF that]) (use assms ls in simp)
  then show ?thesis
    unfolding listener_add_ck_ref_entry_def ls case_prod_conv
    by (intro rpost_rbindI [OF unique_key_flags]) (clarsimp simp: Let_def, rule add_ref_entry_sync, blast)
qed

end

text \<open>
  All signals.  A message that does not ask to end the screensaver needs no more than this.
\<close>

definition unlock_call :: "'msg dbus_env \<Rightarrow> 'msg \<Rightarrow> bool" where
  "unlock_call e m =
     (msg_is_method_call e m GS_LISTENER_SERVICE ''Unlock'' \<or> msg_is_method_call e m GS_LISTENER_SERVICE ''Quit''
      \<or> msg_is_method_call e m GS_LISTENER_SERVICE ''SetActive'' \<and> (\<exists>as. msg_body e m = A_Bool False # as))"

definition unlock_signal :: "'msg dbus_env \<Rightarrow> gs_listener \<Rightarrow> 'msg \<Rightarrow> bool" where
  "unlock_signal e l m =
     ((msg_is_signal e m SYSTEMD_LOGIND_SESSION_INTERFACE ''Unlock'' \<or> msg_is_signal e m CK_SESSION_INTERFACE ''Unlock'')
      \<and> listener_message_path_is_our_session e l m)"

locale listener_calm = listener_up e "sig_active_changed sg" "sig_throttle_changed sg" P
  for e :: "'msg dbus_env" and sg :: "'s listener_signals" and P :: "bool \<Rightarrow> bool \<Rightarrow> 's \<Rightarrow> bool" +
  assumes lock_sync: "synced P ls \<Longrightarrow> rpost (synced P) (sig_lock sg ls)"
    and cycle_sync: "synced P ls \<Longrightarrow> rpost (synced P) (sig_cycle sg ls)"
    and simulate_sync: "synced P ls \<Longrightarrow> rpost (synced P) (sig_simulate_user_activity sg ls)"
    and message_sync: "synced P ls \<Longrightarrow> rpost (synced P) (sig_show_message sg a b' c ls)"
    and sleep_sync: "synced P ls \<Longrightarrow> rpost (synced P) (sig_prepare_for_sleep sg d ls)"
begin

lemma show_message_sync:
  assumes "synced P ls"
  shows "rpost (syncs P) (listener_show_message e (sig_show_message sg) m ls)"
proof -
  have "rpost (syncs P) (rbind (sig_show_message sg a b c ls) (\<lambda>ls. rbind (send_reply e Ret_Empty ls) (\<lambda>ls. Inr (HANDLED, ls))))" for a b c
    by (rule syncs_reply) (rule message_sync [OF assms])
  then show ?thesis
    by (auto simp: listener_show_message_def raise_syntax_def send_reply_synced [OF assms] split: option.splits)
qed

lemma prepare_for_sleep_sync:
  assumes "synced P ls"
  shows "rpost (synced P) (handle_prepare_for_sleep e (sig_prepare_for_sleep sg) m ls)"
proof -
  obtain l s where ls: "ls = (l, s)" by (cases ls)
  have "same_flags l ((snd (take_logind_inhibit_lock e l))\<lparr>l_logind_inhibit_lock := fst (take_logind_inhibit_lock e l)\<rparr>)"
    by (simp add: take_logind_inhibit_lock_def Let_def split: option.split)
  then have "synced P ((snd (take_logind_inhibit_lock e l))\<lparr>l_logind_inhibit_lock := fst (take_logind_inhibit_lock e l)\<rparr>, s)"
    by (rule synced_move) (use assms ls in simp)
  note off = sleep_sync [OF this, of False]
  have "rpost (synced P) (rbind (sig_prepare_for_sleep sg True ls) (\<lambda>(l, s).
        Inr (if l_logind_inhibit_lock l \<noteq> 0 then l\<lparr>l_logind_inhibit_lock := 0\<rparr> else l, s)))"
    by (rule rpost_rbindI [OF sleep_sync [OF assms]]) (auto simp: synced_def)
  then show ?thesis using off ls by (simp add: handle_prepare_for_sleep_def Let_def case_prod_beta)
qed

lemma ck_active_changed_sync:
  assumes "synced P ls"
  shows "rpost (synced P) (handle_ck_active_changed e sg m ls)"
proof -
  have on: "rpost (synced P) (rbind (ck_drop_throttle e (sig_active_changed sg) (sig_throttle_changed sg) ls)
      (sig_simulate_user_activity sg))"
    by (rule rpost_rbindI [OF ck_drop_sync [OF assms]]) (rule simulate_sync)
  have "rpost (synced P) (rbind (listener_add_ck_ref_entry e (sig_active_changed sg) (sig_throttle_changed sg)
      REF_ENTRY_TYPE_THROTTLE m ls) (\<lambda>(cookie, l, s). ret (l\<lparr>l_ck_throttle_cookie := cookie\<rparr>, s)))" if "synced P ls" for ls
    by (rule rpost_rbindI [OF add_ck_sync [OF that]]) (auto simp: synced_def)
  then have "rpost (synced P) (rbind (ck_drop_throttle e (sig_active_changed sg) (sig_throttle_changed sg) ls) (\<lambda>ls.
      rbind (listener_add_ck_ref_entry e (sig_active_changed sg) (sig_throttle_changed sg) REF_ENTRY_TYPE_THROTTLE m ls)
        (\<lambda>(cookie, l, s). ret (l\<lparr>l_ck_throttle_cookie := cookie\<rparr>, s))))"
    by (rule rpost_rbindI [OF ck_drop_sync [OF assms]])
  then show ?thesis
    using on assms by (auto simp: handle_ck_active_changed_def Let_def simp del: rpost_simps(3) split: option.split bool.split)
qed

lemma gone_sync: "rpost (\<lambda>_. True) (is_disconnected e m)"
  by (simp add: rpost_def)

lemma set_property_by:
  assumes ok: "synced P ls"
    and set: "\<And>v as. msg_body e m = A_Bool v # as \<Longrightarrow> rpost (syncs P) (gs_listener_set_active e (sig_active_changed sg) v ls)"
  shows "rpost (syncs P) (listener_set_property e (sig_active_changed sg) m ls)"
  unfolding listener_set_property_def
proof (rule rpost_rbindI [where P = "syncs P"])
  show "rpost (syncs P) (case msg_body e m of A_Bool v # _ \<Rightarrow> listener_property_set_bool e (sig_active_changed sg) v ls
       | _ \<Rightarrow> Inr (False, ls))"
    using ok set by (auto simp: listener_property_set_bool_def case_prod_beta split: list.splits dbus_arg.splits)
next
  fix x :: "bool \<times> 's ls" assume "syncs P x"
  then show "rpost (syncs P) (case x of (rc, ls) \<Rightarrow>
      rbind (if \<not> rc then raise_property_type_error e ls else send_reply e Ret_Empty ls) (\<lambda>ls. Inr (HANDLED, ls)))"
    by (simp add: raise_property_type_error_def case_prod_beta send_reply_synced)
qed

lemma set_property_calm:
  assumes "synced P ls" "\<And>as. msg_body e m \<noteq> A_Bool False # as"
  shows "rpost (syncs P) (listener_set_property e (sig_active_changed sg) m ls)"
proof (rule set_property_by [OF assms(1)])
  fix v as assume "msg_body e m = A_Bool v # as"
  then have v using assms(2) by (cases v) auto
  then show "rpost (syncs P) (gs_listener_set_active e (sig_active_changed sg) v ls)" using set_active_true [OF assms(1)] by simp
qed

lemma session_calm:
  assumes "synced P ls" "\<not> unlock_call e m"
  shows "rpost (syncs P) (listener_dbus_handle_session_message e sg m ls)"
proof -
  have no: "msg_is_method_call e m GS_LISTENER_SERVICE ''Unlock'' = False" "msg_is_method_call e m GS_LISTENER_SERVICE ''Quit'' = False"
    and set: "msg_is_method_call e m GS_LISTENER_SERVICE ''SetActive'' \<Longrightarrow> msg_body e m \<noteq> A_Bool False # as" for as
    using assms(2) by (auto simp: unlock_call_def)
  show ?thesis
    unfolding listener_dbus_handle_session_message_def Let_def no if_False
    by (intro rpost_if syncs_handled dbus_add_sync dbus_remove_sync queries_sync
        show_message_sync lock_sync cycle_sync simulate_sync set_property_calm assms(1))
      (simp_all add: assms(1) set)
qed

lemma system_calm:
  assumes "synced P ls" "\<not> unlock_signal e (fst ls) m"
  shows "rpost (syncs P) (listener_dbus_handle_system_message e sg m ls)"
proof -
  have no: "rpost (synced P) (if listener_message_path_is_our_session e (fst ls) m then x else Inr ls)"
    if "msg_is_signal e m SYSTEMD_LOGIND_SESSION_INTERFACE ''Unlock'' \<or> msg_is_signal e m CK_SESSION_INTERFACE ''Unlock''" for x
    using that assms by (simp add: unlock_signal_def)
  have "rpost (syncs P) (handle_systemd_message e sg m ls)"
    unfolding handle_systemd_message_def Let_def
    by (rule rpost_if, intro syncs_handled no, simp)
      (intro rpost_if syncs_handled prepare_for_sleep_sync lock_sync simulate_sync assms(1), simp_all add: assms(1))
  moreover have "rpost (syncs P) (handle_ck_message e sg m ls)"
    unfolding handle_ck_message_def Let_def
    by (rule rpost_if, intro syncs_handled no, simp)
      (intro rpost_if syncs_handled ck_active_changed_sync lock_sync assms(1), simp_all add: assms(1))
  ultimately show ?thesis by (simp add: listener_dbus_handle_system_message_def)
qed

text \<open>The three entry points, over any behaviour of the two kinds of message.\<close>

lemma session_filters:
  assumes ok: "synced P ls" and session: "rpost (syncs P) (listener_dbus_handle_session_message e sg m ls)"
  shows "rpost (syncs P) (gs_listener_message_handler e sg m ls)"
    and "rpost (syncs P) (listener_dbus_filter_function e sg m ls)"
proof -
  show "rpost (syncs P) (gs_listener_message_handler e sg m ls)"
    unfolding gs_listener_message_handler_def
    by (intro rpost_if syncs_handled send_reply_synced ok rpost_rbindI [OF gone_sync] session) (simp add: ok)
  show "rpost (syncs P) (listener_dbus_filter_function e sg m ls)"
    unfolding listener_dbus_filter_function_def
    by (intro rpost_rbindI [OF gone_sync] rpost_if syncs_handled service_deleted_sync session ok)
      (use ok in \<open>cases ls, simp add: synced_def\<close>)
qed

lemma system_filter:
  assumes ok: "synced P ls" and system: "rpost (syncs P) (listener_dbus_handle_system_message e sg m ls)"
  shows "rpost (syncs P) (listener_dbus_system_filter_function e sg m ls)"
  unfolding listener_dbus_system_filter_function_def
  by (intro rpost_rbindI [OF gone_sync] rpost_if system ok)
    (use ok in \<open>cases ls, simp add: synced_def\<close>)

end

text \<open>Every message, with a handler that can end the screensaver.\<close>

locale listener_sync = listener_calm +
  assumes ac_down: "P (l_active l) (l_throttled l) s \<Longrightarrow> l_active l \<Longrightarrow>
      rpost (\<lambda>(r, l', s'). l' = l \<and> P (\<not> r) (l_throttled l) s') (sig_active_changed sg False (l, s))"
    and quit_sync: "synced P ls \<Longrightarrow> rpost (synced P) (sig_quit sg ls)"
begin

lemma set_active_sync:
  assumes "synced P ls"
  shows "rpost (syncs P) (gs_listener_set_active e (sig_active_changed sg) a ls)"
proof (cases a)
  case True
  then show ?thesis using set_active_true [OF assms] by simp
next
  case False
  obtain l s where ls: "ls = (l, s)" by (cases ls)
  have p: "P (l_active l) (l_throttled l) s" using assms ls by (simp add: synced_def)
  have "rpost (syncs P) (rbind (sig_active_changed sg False (l, s)) (\<lambda>(res, l, s).
        if \<not> res then ret (False, l, s) else ret (True, listener_set_active_internal e False l, s)))" if "l_active l"
    by (rule rpost_rbindI [OF ac_down [OF p that]]) (use that in \<open>auto simp: synced_def active_internal_flags\<close>)
  then show ?thesis using False ls assms by (auto simp: gs_listener_set_active_def cong: if_cong)
qed

lemma set_property_sync:
  assumes "synced P ls"
  shows "rpost (syncs P) (listener_set_property e (sig_active_changed sg) m ls)"
  by (rule set_property_by [OF assms]) (rule set_active_sync [OF assms])

lemma session_message_sync:
  assumes "synced P ls"
  shows "rpost (syncs P) (listener_dbus_handle_session_message e sg m ls)"
  unfolding listener_dbus_handle_session_message_def Let_def
  by (intro rpost_if syncs_handled syncs_drop set_active_sync dbus_add_sync dbus_remove_sync queries_sync
      set_property_sync show_message_sync lock_sync quit_sync cycle_sync simulate_sync assms)
    (simp add: assms)

lemma systemd_message_sync:
  assumes "synced P ls"
  shows "rpost (syncs P) (handle_systemd_message e sg m ls)"
  unfolding handle_systemd_message_def Let_def
  by (intro rpost_if syncs_handled syncs_drop set_active_sync prepare_for_sleep_sync lock_sync simulate_sync assms)
    (simp_all add: assms)

lemma system_message_sync:
  assumes "synced P ls"
  shows "rpost (syncs P) (listener_dbus_handle_system_message e sg m ls)"
proof -
  have "rpost (syncs P) (handle_ck_message e sg m ls)"
    unfolding handle_ck_message_def Let_def
    by (intro rpost_if syncs_handled syncs_drop set_active_sync ck_active_changed_sync lock_sync assms) (simp_all add: assms)
  then show ?thesis using systemd_message_sync [OF assms] by (simp add: listener_dbus_handle_system_message_def)
qed

lemma filters_sync:
  assumes "synced P ls"
  shows "rpost (syncs P) (gs_listener_message_handler e sg m ls)"
    and "rpost (syncs P) (listener_dbus_filter_function e sg m ls)"
    and "rpost (syncs P) (listener_dbus_system_filter_function e sg m ls)"
  by (intro session_filters system_filter assms session_message_sync system_message_sync)+

end

end
