(* ===== verification/GS_Watcher.thy ===== *)
theory GS_Watcher
  imports Prelude
begin

text \<open>
  \<open>src/gs-watcher-x11.c\<close>: the watcher turns the presence status of the session into the two
  signals ``idle notice'' and ``idle''.  The signals are answered by handlers that may call back
  into the watcher (the monitor switches it off while the screensaver is active), so a handler
  works on the watcher together with the rest of the daemon.  A GLib source id is \<open>None\<close> for 0 and
  \<open>Some\<close> of its interval otherwise.
\<close>

record gs_watcher =
  w_enabled :: bool
  w_delta_notice_timeout :: nat
  w_active :: bool
  w_idle :: bool
  w_idle_notice :: bool
  w_idle_id :: "nat option"
  w_status_message :: "string option"
  w_presence_proxy :: bool
  w_watchdog_timer_id :: "nat option"

text \<open>A signal handler: its boolean return value and the state it leaves.\<close>

type_synonym 's watcher_handler = "bool \<Rightarrow> gs_watcher \<times> 's \<Rightarrow> (bool \<times> gs_watcher \<times> 's) res"
type_synonym 's watcher_notify = "gs_watcher \<times> 's \<Rightarrow> (gs_watcher \<times> 's) res"

section \<open>Operations\<close>

definition remove_watchdog_timer :: "gs_watcher \<Rightarrow> gs_watcher" where
  "remove_watchdog_timer w =
     (if w_watchdog_timer_id w \<noteq> None then w\<lparr>w_watchdog_timer_id := None\<rparr> else w)"

definition add_watchdog_timer :: "gs_watcher \<Rightarrow> nat \<Rightarrow> gs_watcher" where
  "add_watchdog_timer w timeout = w\<lparr>w_watchdog_timer_id := Some timeout\<rparr>"

definition set_status_text ::
  "'s watcher_notify \<Rightarrow> string option \<Rightarrow> gs_watcher \<times> 's \<Rightarrow> (gs_watcher \<times> 's) res" where
  "set_status_text notify text ws =
     (case ws of (w, s) \<Rightarrow> notify (w\<lparr>w_status_message := text\<rparr>, s))"

definition gs_watcher_set_session_idle_notice ::
  "'s watcher_handler \<Rightarrow> bool \<Rightarrow> gs_watcher \<times> 's \<Rightarrow> (bool \<times> gs_watcher \<times> 's) res" where
  "gs_watcher_set_session_idle_notice idle_notice_changed in_effect ws =
     (case ws of (w, s) \<Rightarrow>
        if in_effect \<noteq> w_idle_notice w then
          rbind (idle_notice_changed in_effect (w, s)) (\<lambda>(res, w, s).
          if res then ret (True, w\<lparr>w_idle_notice := in_effect\<rparr>, s)
          else ret (False, w, s))
        else ret (False, w, s))"

definition gs_watcher_set_session_idle ::
  "'s watcher_handler \<Rightarrow> bool \<Rightarrow> gs_watcher \<times> 's \<Rightarrow> (bool \<times> gs_watcher \<times> 's) res" where
  "gs_watcher_set_session_idle idle_changed is_idle ws =
     (case ws of (w, s) \<Rightarrow>
        if is_idle \<noteq> w_idle w then
          rbind (idle_changed is_idle (w, s)) (\<lambda>(res, w, s).
          if res then ret (True, w\<lparr>w_idle := is_idle\<rparr>, s)
          else ret (False, w, s))
        else ret (False, w, s))"

definition gs_watcher_get_active :: "gs_watcher \<Rightarrow> bool" where
  "gs_watcher_get_active w = w_active w"

definition gs_watcher_reset_state :: "gs_watcher \<Rightarrow> gs_watcher" where
  "gs_watcher_reset_state w = w\<lparr>w_idle := False, w_idle_notice := False\<rparr>"

definition gs_watcher_set_active_internal :: "gs_watcher \<Rightarrow> bool \<Rightarrow> bool \<times> gs_watcher" where
  "gs_watcher_set_active_internal w active =
     (if active \<noteq> w_active w then (True, (gs_watcher_reset_state w)\<lparr>w_active := active\<rparr>)
      else (True, w))"

definition gs_watcher_set_active :: "gs_watcher \<Rightarrow> bool \<Rightarrow> bool \<times> gs_watcher" where
  "gs_watcher_set_active w active =
     (if w_active w = active then (False, w)
      else if \<not> w_enabled w then (False, w)
      else gs_watcher_set_active_internal w active)"

definition gs_watcher_set_enabled :: "gs_watcher \<Rightarrow> bool \<Rightarrow> bool \<times> gs_watcher" where
  "gs_watcher_set_enabled w enabled =
     (if w_enabled w \<noteq> enabled then
        (let is_active = gs_watcher_get_active w; w = w\<lparr>w_enabled := enabled\<rparr> in
         if \<not> enabled \<and> is_active then (True, snd (gs_watcher_set_active_internal w False))
         else (True, w))
      else (True, w))"

definition gs_watcher_get_enabled :: "gs_watcher \<Rightarrow> bool" where
  "gs_watcher_get_enabled w = w_enabled w"

text \<open>
  The timeout armed by an idle presence status.  The result says whether GLib keeps the source.
\<close>

definition on_idle_timeout ::
  "'s watcher_handler \<Rightarrow> 's watcher_handler \<Rightarrow> gs_watcher \<times> 's \<Rightarrow> (bool \<times> gs_watcher \<times> 's) res" where
  "on_idle_timeout idle_changed idle_notice_changed ws =
     rbind (gs_watcher_set_session_idle idle_changed True ws) (\<lambda>(res, ws).
     rbind (gs_watcher_set_session_idle_notice idle_notice_changed False ws) (\<lambda>(_, w, s).
     ret (\<not> res, if res then w\<lparr>w_idle_id := None\<rparr> else w, s)))"

text \<open>Presence status 3 is ``idle''.\<close>

definition set_status ::
  "'s watcher_handler \<Rightarrow> 's watcher_handler \<Rightarrow> nat \<Rightarrow> gs_watcher \<times> 's \<Rightarrow> (gs_watcher \<times> 's) res" where
  "set_status idle_changed idle_notice_changed status ws =
     (case ws of (w, s) \<Rightarrow>
        if \<not> w_active w then ret (w, s)
        else
          (let is_idle = (status = 3) in
           if \<not> is_idle \<and> \<not> w_idle_notice w then ret (w, s)
           else if is_idle then
             rbind (gs_watcher_set_session_idle_notice idle_notice_changed is_idle (w, s)) (\<lambda>(_, w, s).
             let w = (if w_idle_id w \<noteq> None then w\<lparr>w_idle_id := None\<rparr> else w) in
             ret (w\<lparr>w_idle_id := Some (w_delta_notice_timeout w)\<rparr>, s))
           else
             (let w = (if w_idle_id w \<noteq> None then w\<lparr>w_idle_id := None\<rparr> else w) in
              rbind (gs_watcher_set_session_idle idle_changed False (w, s)) (\<lambda>(_, ws).
              rbind (gs_watcher_set_session_idle_notice idle_notice_changed False ws) (\<lambda>(_, ws).
              ret ws)))))"

definition on_presence_status_changed ::
  "'s watcher_handler \<Rightarrow> 's watcher_handler \<Rightarrow> nat \<Rightarrow> gs_watcher \<times> 's \<Rightarrow> (gs_watcher \<times> 's) res" where
  "on_presence_status_changed = set_status"

definition on_presence_status_text_changed ::
  "'s watcher_notify \<Rightarrow> string option \<Rightarrow> gs_watcher \<times> 's \<Rightarrow> (gs_watcher \<times> 's) res" where
  "on_presence_status_text_changed = set_status_text"

text \<open>
  What the session bus answers while the watcher connects to the presence service: whether a bus
  and a proxy could be had, and the replies to the two property requests (\<open>None\<close> for an error).
\<close>

record presence_bus =
  pb_bus :: bool
  pb_presence_proxy :: bool
  pb_properties_proxy :: bool
  pb_status :: "nat option"
  pb_status_text :: "string option option"

definition connect_presence_watcher ::
  "presence_bus \<Rightarrow> 's watcher_handler \<Rightarrow> 's watcher_handler \<Rightarrow> 's watcher_notify \<Rightarrow>
   gs_watcher \<times> 's \<Rightarrow> (bool \<times> gs_watcher \<times> 's) res" where
  "connect_presence_watcher b idle_changed idle_notice_changed notify ws =
     (case ws of (w, s) \<Rightarrow>
        if \<not> pb_bus b then ret (False, w, s)
        else if \<not> pb_presence_proxy b then ret (False, w\<lparr>w_presence_proxy := False\<rparr>, s)
        else
          (let w = w\<lparr>w_presence_proxy := True\<rparr> in
           if \<not> pb_properties_proxy b then ret (True, w, s)
           else
             (case pb_status b of
                None \<Rightarrow> ret (False, w, s)
              | Some status \<Rightarrow>
                  rbind (set_status idle_changed idle_notice_changed status (w, s)) (\<lambda>ws.
                  rbind (set_status_text notify
                          (case pb_status_text b of None \<Rightarrow> None | Some t \<Rightarrow> t) ws) (\<lambda>(w, s).
                  ret (True, w, s))))))"

text \<open>
  An instance starts zeroed; no handler is connected yet, so the signals of the first status go
  nowhere and return FALSE.
\<close>

definition no_handler :: "'s watcher_handler" where
  "no_handler b ws = ret (False, ws)"

definition gs_watcher_init :: "presence_bus \<Rightarrow> gs_watcher res" where
  "gs_watcher_init b =
     (let w = \<lparr>w_enabled = True, w_delta_notice_timeout = 0, w_active = False, w_idle = False,
               w_idle_notice = False, w_idle_id = None, w_status_message = None,
               w_presence_proxy = False, w_watchdog_timer_id = None\<rparr> in
      rbind (connect_presence_watcher b no_handler no_handler ret (w, ())) (\<lambda>(_, w, _).
      ret (add_watchdog_timer (w\<lparr>w_delta_notice_timeout := 10000\<rparr>) 600000)))"

definition gs_watcher_finalize :: "gs_watcher \<Rightarrow> gs_watcher" where
  "gs_watcher_finalize w =
     (let w = remove_watchdog_timer w;
          w = (if w_idle_id w \<noteq> None then w\<lparr>w_idle_id := None\<rparr> else w);
          w = w\<lparr>w_active := False\<rparr> in
      w\<lparr>w_presence_proxy := False, w_status_message := None\<rparr>)"

text \<open>The screensaver settings of the X server, as \<open>XGetScreenSaver\<close> reports them.\<close>

record x_saver =
  x_timeout :: int
  x_interval :: int
  x_prefer_blank :: int
  x_allow_exp :: int

definition AllowExposures :: int where "AllowExposures = 1"

text \<open>The second component says whether the running server saver was reset.\<close>

definition disable_builtin_screensaver :: "bool \<Rightarrow> x_saver \<Rightarrow> x_saver \<times> bool" where
  "disable_builtin_screensaver unblank_screen cur =
     (let desired_server_interval = 0; desired_allow_exp = AllowExposures; desired_server_timeout = 0;
          desired_prefer_blank = x_prefer_blank cur;
          new =
            (if desired_server_timeout \<noteq> x_timeout cur \<or> desired_server_interval \<noteq> x_interval cur
                \<or> desired_prefer_blank \<noteq> x_prefer_blank cur \<or> desired_allow_exp \<noteq> x_allow_exp cur
             then \<lparr>x_timeout = desired_server_timeout, x_interval = desired_server_interval,
                   x_prefer_blank = desired_prefer_blank, x_allow_exp = desired_allow_exp\<rparr>
             else cur) in
      (new, unblank_screen))"

definition watchdog_timer :: "x_saver \<Rightarrow> bool \<times> x_saver" where
  "watchdog_timer x = (True, fst (disable_builtin_screensaver False x))"

section \<open>Invariant\<close>

text \<open>A disabled watcher is never active, and idle periods are only counted with the notice delay.\<close>

definition watcher_ok :: "gs_watcher \<Rightarrow> bool" where
  "watcher_ok w = (w_active w \<longrightarrow> w_enabled w)"

lemmas watcher_defs =
  gs_watcher_get_active_def gs_watcher_get_enabled_def gs_watcher_reset_state_def
  gs_watcher_set_active_internal_def gs_watcher_set_active_def gs_watcher_set_enabled_def

lemma watcher_ok_set_active [inv_intros]:
  "watcher_ok w \<Longrightarrow> watcher_ok (snd (gs_watcher_set_active w a))"
  by (auto simp: watcher_defs watcher_ok_def)

lemma watcher_ok_set_enabled [inv_intros]:
  "watcher_ok w \<Longrightarrow> watcher_ok (snd (gs_watcher_set_enabled w a))"
  by (simp add: watcher_defs watcher_ok_def Let_def)

lemma watcher_ok_updates [simp]:
  "watcher_ok (w\<lparr>w_idle := a\<rparr>) = watcher_ok w"
  "watcher_ok (w\<lparr>w_idle_notice := a\<rparr>) = watcher_ok w"
  "watcher_ok (w\<lparr>w_idle_id := i\<rparr>) = watcher_ok w"
  "watcher_ok (w\<lparr>w_status_message := t\<rparr>) = watcher_ok w"
  "watcher_ok (w\<lparr>w_presence_proxy := p\<rparr>) = watcher_ok w"
  by (simp_all add: watcher_ok_def)

text \<open>
  The contract between the watcher and the handlers connected to it: they keep an invariant of the
  watcher and the rest of the daemon that does not depend on the fields only the watcher itself
  writes.  Under it every entry point of the watcher keeps the invariant.
\<close>

locale watcher_client =
  fixes idle_changed :: "'s watcher_handler"
    and idle_notice_changed :: "'s watcher_handler"
    and status_notify :: "'s watcher_notify"
    and J :: "gs_watcher \<times> 's \<Rightarrow> bool"
  assumes idle_keeps: "J ws \<Longrightarrow> rpost (\<lambda>(r, ws'). J ws') (idle_changed b ws)"
    and notice_keeps: "J ws \<Longrightarrow> rpost (\<lambda>(r, ws'). J ws') (idle_notice_changed b ws)"
    and notify_keeps: "J ws \<Longrightarrow> rpost J (status_notify ws)"
    and J_idle: "J (w\<lparr>w_idle := x\<rparr>, s) = J (w, s)"
    and J_notice: "J (w\<lparr>w_idle_notice := x\<rparr>, s) = J (w, s)"
    and J_idle_id: "J (w\<lparr>w_idle_id := i\<rparr>, s) = J (w, s)"
    and J_status: "J (w\<lparr>w_status_message := t\<rparr>, s) = J (w, s)"
begin

lemma set_session_idle_keeps:
  assumes "J ws"
  shows "rpost (\<lambda>(r, ws'). J ws') (gs_watcher_set_session_idle idle_changed b ws)"
proof -
  have "rpost (\<lambda>(r, ws'). J ws') (rbind (idle_changed b ws) (\<lambda>(res, w, s).
      if res then ret (True, w\<lparr>w_idle := b\<rparr>, s) else ret (False, w, s)))"
    by (rule rpost_rbindI [OF idle_keeps [OF assms]]) (auto simp: J_idle)
  then show ?thesis using assms by (cases ws) (auto simp: gs_watcher_set_session_idle_def)
qed

lemma set_session_idle_notice_keeps:
  assumes "J ws"
  shows "rpost (\<lambda>(r, ws'). J ws') (gs_watcher_set_session_idle_notice idle_notice_changed b ws)"
proof -
  have "rpost (\<lambda>(r, ws'). J ws') (rbind (idle_notice_changed b ws) (\<lambda>(res, w, s).
      if res then ret (True, w\<lparr>w_idle_notice := b\<rparr>, s) else ret (False, w, s)))"
    by (rule rpost_rbindI [OF notice_keeps [OF assms]]) (auto simp: J_notice)
  then show ?thesis using assms by (cases ws) (auto simp: gs_watcher_set_session_idle_notice_def)
qed

lemma on_idle_timeout_keeps:
  assumes "J ws"
  shows "rpost (\<lambda>(r, ws'). J ws') (on_idle_timeout idle_changed idle_notice_changed ws)"
  unfolding on_idle_timeout_def
proof (rule rpost_rbindI [OF set_session_idle_keeps [OF assms]], clarify)
  fix r w s assume "J (w, s)"
  then show "rpost (\<lambda>(r, ws'). J ws') (rbind (gs_watcher_set_session_idle_notice idle_notice_changed False (w, s))
      (\<lambda>(_, w, s). ret (\<not> r, if r then w\<lparr>w_idle_id := None\<rparr> else w, s)))"
    by (rule rpost_rbindI [OF set_session_idle_notice_keeps]) (auto simp: J_idle_id)
qed

lemma set_status_keeps:
  assumes "J ws"
  shows "rpost J (set_status idle_changed idle_notice_changed n ws)"
proof -
  obtain w s where ws: "ws = (w, s)" by (cases ws)
  let ?w = "if w_idle_id w \<noteq> None then w\<lparr>w_idle_id := None\<rparr> else w"
  have on: "rpost J (rbind (gs_watcher_set_session_idle_notice idle_notice_changed True (w, s)) (\<lambda>(_, w, s).
      let w = (if w_idle_id w \<noteq> None then w\<lparr>w_idle_id := None\<rparr> else w) in ret (w\<lparr>w_idle_id := Some (w_delta_notice_timeout w)\<rparr>, s)))"
    by (rule rpost_rbindI [OF set_session_idle_notice_keeps]) (use assms ws in \<open>auto simp: J_idle_id Let_def\<close>)
  have "J (?w, s)" using assms ws by (simp add: J_idle_id)
  then have "rpost J (rbind (gs_watcher_set_session_idle idle_changed False (?w, s)) (\<lambda>(_, ws).
      rbind (gs_watcher_set_session_idle_notice idle_notice_changed False ws) (\<lambda>(_, ws). ret ws)))"
    by (rule rpost_rbindI [OF set_session_idle_keeps], clarify)
      (rule rpost_rbindI [OF set_session_idle_notice_keeps], auto)
  then show ?thesis using on assms ws by (simp add: set_status_def Let_def)
qed

lemma set_status_text_keeps: "J ws \<Longrightarrow> rpost J (set_status_text status_notify t ws)"
  by (cases ws) (simp add: set_status_text_def notify_keeps J_status)

end

section \<open>The idle timeout\<close>

text \<open>
  What the idle timeout does, whatever the handler does to the watcher meanwhile, as long as it
  leaves no notice in effect.  It asks the handler exactly when the watcher is not idle yet; if the
  handler accepts, the watcher is idle and the timeout is gone; if it refuses, the timeout stays.
\<close>

lemma on_idle_timeout_cases:
  assumes "\<not> w_idle w" and "idle_changed True (w, s) = Inr (res, w1, s1)"
    and "\<not> w_idle_notice w1"
  shows "on_idle_timeout idle_changed idle_notice_changed (w, s) =
           Inr (if res then (False, w1\<lparr>w_idle := True, w_idle_id := None\<rparr>, s1)
                else (True, w1, s1))"
  using assms
  by (simp add: on_idle_timeout_def gs_watcher_set_session_idle_def
      gs_watcher_set_session_idle_notice_def)

lemma set_status_inactive [simp]:
  "\<not> w_active w \<Longrightarrow> set_status ic nc n (w, s) = Inr (w, s)"
  by (simp add: set_status_def)

end
