(* ===== verification/GS_Fade.thy ===== *)
theory GS_Fade
  imports Prelude Complex_Main
begin

text \<open>
  \<open>src/gs-fade.c\<close>: fading the screen to black through the gamma ramps of the CRTCs (RandR) or the
  gamma of the VidMode extension.  What the X server reports is a parameter; what was last written
  to it is kept in \<open>f_ramps\<close> and \<open>f_gamma\<close>.  Alpha values are rational numbers: the rounding of
  floating point is not modelled.  Both VidMode build options are taken as enabled.
\<close>

section \<open>State\<close>

datatype fade_type = FADE_TYPE_NONE | FADE_TYPE_GAMMA_NUMBER | FADE_TYPE_GAMMA_RAMP | FADE_TYPE_XRANDR

record gamma_info =
  gi_size :: nat
  gi_r :: "nat list"
  gi_g :: "nat list"
  gi_b :: "nat list"

text \<open>The three function pointers of the screen are set together.\<close>

datatype fade_methods = No_Methods | Gamma_Methods | Xrandr_Methods

text \<open>A handler connected to ``faded'': that of \<open>gs_fade_async\<close>, or that of \<open>gs_fade_sync\<close>.\<close>

datatype fade_callback = Async_Callback nat | Sync_Callback

record gs_fade =
  f_enabled :: bool
  f_active :: bool
  f_timeout :: nat
  f_step :: nat
  f_timer_id :: "nat option"
  f_alpha_per_iter :: "rat option"
  f_current_alpha :: rat
  f_type :: fade_type
  f_methods :: fade_methods
  f_info :: "gamma_info list option"
  f_vmg :: "rat \<times> rat \<times> rat"
  f_rrscreen :: bool
  f_callbacks :: "fade_callback list"
  f_ramps :: "nat \<Rightarrow> gamma_info option"
  f_gamma :: "(rat \<times> rat \<times> rat) option"

text \<open>
  The X server: whether there is a RandR screen, its CRTCs (whether one has a mode, and its ramps
  unless reading them fails), and the answers of the VidMode extension; the version comes with
  whether the request caused an X error.
\<close>

record fade_env =
  fe_rr_screen :: bool
  fe_crtcs :: "(bool \<times> gamma_info option) list"
  fe_vm_extension :: bool
  fe_vm_version :: "bool \<times> bool \<times> int \<times> int"
  fe_vm_ramp_size :: "nat option"
  fe_vm_ramp :: "(nat list \<times> nat list \<times> nat list) option"
  fe_vm_gamma :: "(rat \<times> rat \<times> rat) option"

section \<open>Writing gamma\<close>

definition clamp_ratio :: "rat \<Rightarrow> rat" where
  "clamp_ratio ratio = (let ratio = (if ratio < 0 then 0 else ratio) in if ratio > 1 then 1 else ratio)"

definition scale_ramp :: "rat \<Rightarrow> nat list \<Rightarrow> nat list" where
  "scale_ramp ratio xs = map (\<lambda>x. nat \<lfloor>ratio * of_nat x\<rfloor>) xs"

definition scale_info :: "rat \<Rightarrow> gamma_info \<Rightarrow> gamma_info" where
  "scale_info ratio gi =
     gi\<lparr>gi_r := scale_ramp ratio (take (gi_size gi) (gi_r gi)), gi_g := scale_ramp ratio (take (gi_size gi) (gi_g gi)),
        gi_b := scale_ramp ratio (take (gi_size gi) (gi_b gi))\<rparr>"

definition XF86_MIN_GAMMA :: rat where "XF86_MIN_GAMMA = 1 / 10"

definition xf86_whack_gamma :: "rat \<Rightarrow> gs_fade \<Rightarrow> gs_fade res" where
  "xf86_whack_gamma ratio f =
     (case f_info f of
        None \<Rightarrow> ret f
      | Some [] \<Rightarrow> Inl Out_Of_Bounds
      | Some (gi # _) \<Rightarrow>
          (let ratio = clamp_ratio ratio in
           if gi_size gi = 0 then
             (case f_vmg f of (r, g, b) \<Rightarrow>
                ret (f\<lparr>f_gamma := Some (max XF86_MIN_GAMMA (r * ratio), max XF86_MIN_GAMMA (g * ratio),
                                          max XF86_MIN_GAMMA (b * ratio))\<rparr>))
           else ret (f\<lparr>f_ramps := (f_ramps f)(0 \<mapsto> scale_info ratio gi)\<rparr>)))"

definition gamma_fade_set_alpha_gamma :: "rat \<Rightarrow> gs_fade \<Rightarrow> (bool \<times> gs_fade) res" where
  "gamma_fade_set_alpha_gamma alpha f = rbind (xf86_whack_gamma alpha f) (\<lambda>f. ret (True, f))"

definition xrandr_crtc_whack_gamma :: "nat \<Rightarrow> gamma_info \<Rightarrow> rat \<Rightarrow> gs_fade \<Rightarrow> gs_fade" where
  "xrandr_crtc_whack_gamma crtc gi ratio f =
     (if gi_size gi = 0 then f
      else f\<lparr>f_ramps := (f_ramps f)(crtc \<mapsto> scale_info (clamp_ratio ratio) gi)\<rparr>)"

text \<open>The loop over the CRTCs of the screen reads the saved ramps at the same index.\<close>

definition xrandr_fade_set_alpha_gamma :: "fade_env \<Rightarrow> rat \<Rightarrow> gs_fade \<Rightarrow> (bool \<times> gs_fade) res" where
  "xrandr_fade_set_alpha_gamma e alpha f =
     (case f_info f of
        None \<Rightarrow> ret (False, f)
      | Some infos \<Rightarrow>
          rbind (rfold (\<lambda>i f. if i < length infos then ret (xrandr_crtc_whack_gamma i (infos ! i) alpha f)
                              else Inl Out_Of_Bounds) [0..<length (fe_crtcs e)] f) (\<lambda>f. ret (True, f)))"

section \<open>Setup and finish\<close>

definition gs_fade_get_enabled :: "gs_fade \<Rightarrow> bool" where
  "gs_fade_get_enabled f = f_enabled f"

definition gs_fade_set_enabled :: "bool \<Rightarrow> gs_fade \<Rightarrow> gs_fade" where
  "gs_fade_set_enabled enabled f = (if f_enabled f \<noteq> enabled then f\<lparr>f_enabled := enabled\<rparr> else f)"

definition empty_info :: gamma_info where
  "empty_info = \<lparr>gi_size = 0, gi_r = [], gi_g = [], gi_b = []\<rparr>"

text \<open>
  The ramps of the VidMode extension, with the fall back to a single gamma value.  On the way to
  \<open>test_number\<close> the size that was read stays in the record.
\<close>

definition gamma_ramp_setup :: "fade_env \<Rightarrow> gs_fade \<Rightarrow> gs_fade" where
  "gamma_ramp_setup e f =
     (let f = f\<lparr>f_info := Some [empty_info]\<rparr> in
      if f_type f = FADE_TYPE_GAMMA_RAMP then
        (case fe_vm_ramp_size e of
           None \<Rightarrow> f\<lparr>f_type := FADE_TYPE_GAMMA_NUMBER\<rparr>
         | Some n \<Rightarrow>
             if n = 0 then f\<lparr>f_type := FADE_TYPE_GAMMA_NUMBER\<rparr>
             else
               (let zero = replicate n 0 in
                case fe_vm_ramp e of
                  None \<Rightarrow>
                    f\<lparr>f_type := FADE_TYPE_GAMMA_NUMBER,
                      f_info := Some [\<lparr>gi_size = n, gi_r = zero, gi_g = zero, gi_b = zero\<rparr>]\<rparr>
                | Some (r, g, b) \<Rightarrow> f\<lparr>f_info := Some [\<lparr>gi_size = n, gi_r = r, gi_g = g, gi_b = b\<rparr>]\<rparr>))
      else f)"

definition gamma_fade_setup :: "fade_env \<Rightarrow> gs_fade \<Rightarrow> bool \<times> gs_fade" where
  "gamma_fade_setup e f =
     (if f_info f \<noteq> None then (True, f)
      else
        (let f = gamma_ramp_setup e f;
             f = (if f_type f = FADE_TYPE_GAMMA_NUMBER then
                    (case fe_vm_gamma e of None \<Rightarrow> f\<lparr>f_type := FADE_TYPE_NONE\<rparr> | Some g \<Rightarrow> f\<lparr>f_vmg := g\<rparr>)
                  else f) in
         (f_type f \<noteq> FADE_TYPE_NONE, f)))"

definition screen_fade_finish :: "gs_fade \<Rightarrow> gs_fade" where
  "screen_fade_finish f = (if f_info f = None then f else f\<lparr>f_info := None\<rparr>)"

definition check_gamma_extension :: "fade_env \<Rightarrow> gs_fade \<Rightarrow> gs_fade" where
  "check_gamma_extension e f =
     (case fe_vm_version e of (result, error_hit, major, minor) \<Rightarrow>
        if \<not> fe_vm_extension e then f\<lparr>f_type := FADE_TYPE_NONE\<rparr>
        else if error_hit \<or> \<not> result then f\<lparr>f_type := FADE_TYPE_NONE\<rparr>
        else if major < 2 \<or> major = 2 \<and> minor < 0 then f\<lparr>f_type := FADE_TYPE_NONE\<rparr>
        else
          (let f = f\<lparr>f_methods := Gamma_Methods\<rparr> in
           if major < 2 \<or> major = 2 \<and> minor < 1 then f\<lparr>f_type := FADE_TYPE_GAMMA_NUMBER\<rparr>
           else f\<lparr>f_type := FADE_TYPE_GAMMA_RAMP\<rparr>))"

text \<open>Filling in the saved ramps; the first CRTC whose ramps cannot be read ends the loop.\<close>

primrec fill_infos :: "(bool \<times> gamma_info option) list \<Rightarrow> gamma_info list \<Rightarrow> bool \<times> gamma_info list" where
  "fill_infos [] infos = (True, infos)"
| "fill_infos (c # cs) infos =
     (case c of (has_mode, gamma) \<Rightarrow>
        if \<not> has_mode then fill_infos cs (infos @ [empty_info])
        else (case gamma of None \<Rightarrow> (False, infos) | Some gi \<Rightarrow> fill_infos cs (infos @ [gi])))"

definition xrandr_fade_setup :: "fade_env \<Rightarrow> gs_fade \<Rightarrow> bool \<times> gs_fade" where
  "xrandr_fade_setup e f =
     (if f_info f \<noteq> None then (True, f)
      else
        (let crtc_count = length (fe_crtcs e); (res, infos) = fill_infos (fe_crtcs e) [] in
         (res, f\<lparr>f_info := Some (infos @ replicate (crtc_count - length infos) empty_info)\<rparr>)))"

definition check_randr_extension :: "fade_env \<Rightarrow> gs_fade \<Rightarrow> gs_fade" where
  "check_randr_extension e f =
     (let f = f\<lparr>f_rrscreen := fe_rr_screen e\<rparr> in
      if \<not> f_rrscreen f then f\<lparr>f_type := FADE_TYPE_NONE\<rparr>
      else f\<lparr>f_type := FADE_TYPE_XRANDR, f_methods := Xrandr_Methods\<rparr>)"

text \<open>Calls through the function pointers.\<close>

definition fade_setup :: "fade_env \<Rightarrow> gs_fade \<Rightarrow> (bool \<times> gs_fade) res" where
  "fade_setup e f =
     (case f_methods f of No_Methods \<Rightarrow> Inl Null_Deref | Gamma_Methods \<Rightarrow> ret (gamma_fade_setup e f)
      | Xrandr_Methods \<Rightarrow> ret (xrandr_fade_setup e f))"

definition fade_set_alpha_gamma :: "fade_env \<Rightarrow> rat \<Rightarrow> gs_fade \<Rightarrow> (bool \<times> gs_fade) res" where
  "fade_set_alpha_gamma e alpha f =
     (case f_methods f of No_Methods \<Rightarrow> Inl Null_Deref | Gamma_Methods \<Rightarrow> gamma_fade_set_alpha_gamma alpha f
      | Xrandr_Methods \<Rightarrow> xrandr_fade_set_alpha_gamma e alpha f)"

definition fade_finish :: "gs_fade \<Rightarrow> gs_fade res" where
  "fade_finish f = (if f_methods f = No_Methods then Inl Null_Deref else ret (screen_fade_finish f))"

definition gs_fade_set_alpha :: "fade_env \<Rightarrow> rat \<Rightarrow> gs_fade \<Rightarrow> (bool \<times> gs_fade) res" where
  "gs_fade_set_alpha e alpha f =
     (if f_type f \<noteq> FADE_TYPE_NONE then fade_set_alpha_gamma e alpha f else ret (False, f))"

section \<open>The fade\<close>

text \<open>
  A fade with timeout 0 divides by zero: the step is infinite, here \<open>None\<close>, and takes the alpha value
  below zero, where every reader clamps it to 0.
\<close>

definition gs_fade_out_iter :: "fade_env \<Rightarrow> gs_fade \<Rightarrow> (bool \<times> gs_fade) res" where
  "gs_fade_out_iter e f =
     (if f_current_alpha f < 1 / 100 then ret (False, f)
      else
        (let alpha = (case f_alpha_per_iter f of None \<Rightarrow> - 1 | Some d \<Rightarrow> f_current_alpha f - d) in
         gs_fade_set_alpha e alpha (f\<lparr>f_current_alpha := alpha\<rparr>)))"

definition gs_fade_stop :: "gs_fade \<Rightarrow> gs_fade" where
  "gs_fade_stop f =
     (let f = (if f_timer_id f \<noteq> None then f\<lparr>f_timer_id := None\<rparr> else f) in f\<lparr>f_step := 0, f_active := False\<rparr>)"

text \<open>
  The signal ``faded'' runs every connected handler, each of which disconnects itself; the result
  lists them.
\<close>

definition gs_fade_finish :: "gs_fade \<Rightarrow> fade_callback list \<times> gs_fade" where
  "gs_fade_finish f =
     (if \<not> f_active f then ([], f)
      else
        (let f = gs_fade_stop f; cbs = f_callbacks f in (cbs, f\<lparr>f_callbacks := [], f_active := False\<rparr>)))"

definition fade_out_timer :: "fade_env \<Rightarrow> gs_fade \<Rightarrow> (bool \<times> fade_callback list \<times> gs_fade) res" where
  "fade_out_timer e f =
     rbind (gs_fade_out_iter e f) (\<lambda>(res, f).
     if \<not> res then (case gs_fade_finish f of (cbs, f) \<Rightarrow> ret (False, cbs, f)) else ret (True, [], f))"

definition gs_fade_get_active :: "gs_fade \<Rightarrow> bool" where
  "gs_fade_get_active f = f_active f"

definition gs_fade_set_timeout :: "nat \<Rightarrow> gs_fade \<Rightarrow> gs_fade" where
  "gs_fade_set_timeout timeout f = f\<lparr>f_timeout := timeout\<rparr>"

definition gs_fade_start :: "fade_env \<Rightarrow> nat \<Rightarrow> gs_fade \<Rightarrow> (fade_callback list \<times> gs_fade) res" where
  "gs_fade_start e timeout f =
     rbind (if f_type f \<noteq> FADE_TYPE_NONE then fade_setup e f else ret (True, f)) (\<lambda>(res, f).
     if \<not> res then ret ([], f)
     else
       (let f = (if f_timer_id f \<noteq> None then gs_fade_stop f else f);
            f = gs_fade_set_timeout timeout (f\<lparr>f_active := True\<rparr>) in
        if f_type f \<noteq> FADE_TYPE_NONE then
          (let num_steps = of_nat (f_timeout f) * 60 / 1000 in
           ret ([], f\<lparr>f_alpha_per_iter := (if num_steps = 0 then None else Some (1 / num_steps)), f_timer_id := Some 16\<rparr>))
        else ret (gs_fade_finish f)))"

definition gs_fade_async :: "fade_env \<Rightarrow> nat \<Rightarrow> nat option \<Rightarrow> gs_fade \<Rightarrow> (fade_callback list \<times> gs_fade) res" where
  "gs_fade_async e timeout func f =
     (let f = (if f_active f then gs_fade_stop f else f);
          f = (case func of None \<Rightarrow> f | Some cb \<Rightarrow> f\<lparr>f_callbacks := f_callbacks f @ [Async_Callback cb]\<rparr>) in
      gs_fade_start e timeout f)"

text \<open>
  One turn of the main loop inside \<open>gs_fade_sync\<close>, which runs the fade timer if there is one; the
  first component says that the flag was set.
\<close>

definition sync_turn :: "fade_env \<Rightarrow> gs_fade res \<Rightarrow> bool \<times> gs_fade res" where
  "sync_turn e r =
     (case r of
        Inl x \<Rightarrow> (True, Inl x)
      | Inr f \<Rightarrow>
          if f_timer_id f = None then (False, Inr f)
          else
            (case fade_out_timer e f of
               Inl x \<Rightarrow> (True, Inl x)
             | Inr (_, cbs, f) \<Rightarrow> (Sync_Callback \<in> set cbs, Inr f)))"

definition gs_fade_sync :: "fade_env \<Rightarrow> nat \<Rightarrow> gs_fade \<Rightarrow> gs_fade res" where
  "gs_fade_sync e timeout f =
     (let f = (if f_active f then gs_fade_stop f else f);
          f = f\<lparr>f_callbacks := f_callbacks f @ [Sync_Callback]\<rparr> in
      rbind (gs_fade_start e timeout f) (\<lambda>(cbs, f).
      if Sync_Callback \<in> set cbs then ret f
      else (case until_success (sync_turn e) (Inr f) of None \<Rightarrow> Inl No_Return | Some r \<Rightarrow> r)))"

definition gs_fade_reset :: "fade_env \<Rightarrow> gs_fade \<Rightarrow> gs_fade res" where
  "gs_fade_reset e f =
     (let f = (if f_active f then gs_fade_stop f else f);
          f = f\<lparr>f_current_alpha := 1\<rparr> in
      rbind (gs_fade_set_alpha e (f_current_alpha f) f) (\<lambda>(_, f).
      if f_type f \<noteq> FADE_TYPE_NONE then fade_finish f else ret f))"

definition gs_fade_init :: "fade_env \<Rightarrow> gs_fade" where
  "gs_fade_init e =
     (let f = \<lparr>f_enabled = False, f_active = False, f_timeout = 1000, f_step = 0, f_timer_id = None,
               f_alpha_per_iter = Some 0, f_current_alpha = 1, f_type = FADE_TYPE_NONE, f_methods = No_Methods,
               f_info = None, f_vmg = (0, 0, 0), f_rrscreen = False, f_callbacks = [], f_ramps = (\<lambda>_. None),
               f_gamma = None\<rparr>;
          f = check_randr_extension e f in
      if f_type f = FADE_TYPE_NONE then check_gamma_extension e f else f)"

definition gs_fade_finalize :: "gs_fade \<Rightarrow> gs_fade res" where
  "gs_fade_finalize f = rbind (fade_finish f) (\<lambda>f. ret (f\<lparr>f_rrscreen := False\<rparr>))"

section \<open>Resetting\<close>

text \<open>Saved ramps have the size they say.\<close>

definition info_ok :: "gamma_info \<Rightarrow> bool" where
  "info_ok gi = (length (gi_r gi) = gi_size gi \<and> length (gi_g gi) = gi_size gi \<and> length (gi_b gi) = gi_size gi)"

lemma scale_ramp_1 [simp]: "scale_ramp 1 xs = xs"
  by (simp add: scale_ramp_def)

lemma scale_info_1: "info_ok gi \<Longrightarrow> scale_info 1 gi = gi"
  by (simp add: scale_info_def info_ok_def)

lemma scale_ramp_le: "0 \<le> ratio \<Longrightarrow> ratio \<le> 1 \<Longrightarrow> list_all2 (\<le>) (scale_ramp ratio xs) xs"
proof (induction xs)
  case (Cons x xs)
  have "ratio * of_nat x \<le> of_nat x" using Cons.prems mult_right_mono [of ratio 1 "of_nat x"] by simp
  then have "\<lfloor>ratio * of_nat x\<rfloor> \<le> int x" by (simp add: floor_le_iff)
  then show ?case using Cons by (simp add: scale_ramp_def nat_le_iff)
qed (simp add: scale_ramp_def)

text \<open>The loop over the CRTCs writes each of them once.\<close>

definition whacked :: "gamma_info list \<Rightarrow> rat \<Rightarrow> nat \<Rightarrow> gs_fade \<Rightarrow> gs_fade" where
  "whacked infos alpha n f =
     f\<lparr>f_ramps := (\<lambda>i. if i < n \<and> gi_size (infos ! i) \<noteq> 0 then Some (scale_info (clamp_ratio alpha) (infos ! i)) else f_ramps f i)\<rparr>"

lemma rfold_append: "rfold f (xs @ ys) s = rbind (rfold f xs s) (rfold f ys)"
proof (induction xs arbitrary: s)
  case (Cons x xs)
  then show ?case by (cases "f x s") simp_all
qed simp

lemma whack_loop:
  "n \<le> length infos \<Longrightarrow>
     rfold (\<lambda>i f. if i < length infos then ret (xrandr_crtc_whack_gamma i (infos ! i) alpha f) else Inl Out_Of_Bounds) [0..<n] f
     = Inr (whacked infos alpha n f)"
proof (induction n)
  case 0
  then show ?case by (simp add: whacked_def)
next
  case (Suc n)
  have "xrandr_crtc_whack_gamma n (infos ! n) alpha (whacked infos alpha n f) = whacked infos alpha (Suc n) f"
    by (auto simp: xrandr_crtc_whack_gamma_def whacked_def less_Suc_eq fun_eq_iff)
  then show ?case using Suc by (simp add: rfold_append)
qed

lemma xrandr_set_alpha:
  assumes "f_info f = Some infos" "length (fe_crtcs e) \<le> length infos"
  shows "xrandr_fade_set_alpha_gamma e alpha f = Inr (True, whacked infos alpha (length (fe_crtcs e)) f)"
  using assms by (simp add: xrandr_fade_set_alpha_gamma_def whack_loop)

text \<open>
  C30: resetting a RandR fade gives every CRTC the very ramps that were read when the fade was set up,
  frees the saved ramps, and leaves no fade running, so that the next fade starts from full alpha.
\<close>

theorem fade_reset_restores:
  assumes "f_type f = FADE_TYPE_XRANDR" "f_methods f = Xrandr_Methods" "f_info f = Some infos"
    and "length (fe_crtcs e) \<le> length infos" "\<forall>gi \<in> set infos. info_ok gi"
  shows "\<exists>f'. gs_fade_reset e f = Inr f'
           \<and> (\<forall>i < length (fe_crtcs e). gi_size (infos ! i) \<noteq> 0 \<longrightarrow> f_ramps f' i = Some (infos ! i))
           \<and> f_info f' = None \<and> f_current_alpha f' = 1 \<and> \<not> f_active f' \<and> (f_active f \<longrightarrow> f_timer_id f' = None)"
proof -
  let ?f = "(if f_active f then gs_fade_stop f else f)\<lparr>f_current_alpha := 1\<rparr>"
  have st: "f_info ?f = Some infos" "f_type ?f = FADE_TYPE_XRANDR" "f_methods ?f = Xrandr_Methods" "\<not> f_active ?f"
      "f_current_alpha ?f = 1" "f_active f \<longrightarrow> f_timer_id ?f = None"
    using assms by (simp_all add: gs_fade_stop_def Let_def)
  have "infos ! i \<in> set infos" if "i < length (fe_crtcs e)" for i using that assms(4) by simp
  then have "scale_info 1 (infos ! i) = infos ! i" if "i < length (fe_crtcs e)" for i
    using that assms(5) scale_info_1 by blast
  moreover have "clamp_ratio 1 = 1" by (simp add: clamp_ratio_def)
  ultimately show ?thesis
    using st xrandr_set_alpha [OF st(1) assms(4), of 1]
    by (simp add: gs_fade_reset_def gs_fade_set_alpha_def fade_set_alpha_gamma_def fade_finish_def Let_def
        screen_fade_finish_def whacked_def)
qed

definition sample_ramp :: gamma_info where
  "sample_ramp = \<lparr>gi_size = 3, gi_r = [0, 30000, 65535], gi_g = [0, 20000, 65535], gi_b = [0, 10000, 65535]\<rparr>"

definition sample_fade_env :: fade_env where
  "sample_fade_env =
     \<lparr>fe_rr_screen = True, fe_crtcs = [(True, Some sample_ramp), (False, None)], fe_vm_extension = False,
      fe_vm_version = (False, False, 0, 0), fe_vm_ramp_size = None, fe_vm_ramp = None, fe_vm_gamma = None\<rparr>"

lemmas sample_fade_defs = sample_fade_env_def sample_ramp_def gs_fade_init_def check_randr_extension_def

theorem fade_reset_restores_witness:
  "\<exists>f'. gs_fade_reset sample_fade_env
          ((gs_fade_init sample_fade_env)\<lparr>f_info := Some [sample_ramp, empty_info], f_current_alpha := 0, f_active := True\<rparr>) = Inr f'
     \<and> f_ramps f' 0 = Some sample_ramp"
proof -
  let ?f = "(gs_fade_init sample_fade_env)\<lparr>f_info := Some [sample_ramp, empty_info], f_current_alpha := 0, f_active := True\<rparr>"
  have "f_type ?f = FADE_TYPE_XRANDR" "f_methods ?f = Xrandr_Methods" "f_info ?f = Some [sample_ramp, empty_info]"
    "length (fe_crtcs sample_fade_env) \<le> length [sample_ramp, empty_info]" "\<forall>gi \<in> set [sample_ramp, empty_info]. info_ok gi"
    by (simp_all add: sample_fade_defs Let_def info_ok_def empty_info_def)
  from fade_reset_restores [OF this] show ?thesis by (auto simp: sample_fade_defs)
qed

section \<open>Fades that end, and one that does not\<close>

lemma until_success_stuck: "step s = (False, s) \<Longrightarrow> until_success step s = None"
  using until_success_post [of step s _ "\<lambda>x. x = s" "\<lambda>_. False"] by (cases "until_success step s") auto

text \<open>The saved ramps cover the CRTCs.\<close>

definition covers :: "fade_env \<Rightarrow> gs_fade \<Rightarrow> bool" where
  "covers e f =
     (f_type f = FADE_TYPE_XRANDR \<and> f_methods f = Xrandr_Methods
      \<and> (case f_info f of None \<Rightarrow> False | Some infos \<Rightarrow> length (fe_crtcs e) \<le> length infos))"

definition fading :: "fade_env \<Rightarrow> gs_fade res \<Rightarrow> bool" where
  "fading e r =
     (case r of Inl _ \<Rightarrow> False
      | Inr f \<Rightarrow> covers e f \<and> f_active f \<and> f_timer_id f \<noteq> None \<and> Sync_Callback \<in> set (f_callbacks f)
          \<and> (case f_alpha_per_iter f of None \<Rightarrow> True | Some d \<Rightarrow> 0 < d))"

definition steps_left :: "gs_fade res \<Rightarrow> nat" where
  "steps_left r =
     (case r of Inl _ \<Rightarrow> 0
      | Inr f \<Rightarrow> (case f_alpha_per_iter f of None \<Rightarrow> if f_current_alpha f < 0 then 0 else 1
                  | Some d \<Rightarrow> nat \<lceil>f_current_alpha f / d\<rceil>))"

lemma sync_turn_step:
  assumes "fading e (Inr f)" "1 / 100 \<le> f_current_alpha f"
  shows "\<exists>f'. sync_turn e (Inr f) = (False, Inr f') \<and> fading e (Inr f') \<and> steps_left (Inr f') < steps_left (Inr f)"
proof -
  let ?a = "case f_alpha_per_iter f of None \<Rightarrow> - 1 | Some d \<Rightarrow> f_current_alpha f - d"
  let ?f = "f\<lparr>f_current_alpha := ?a\<rparr>"
  obtain infos where i: "f_info ?f = Some infos" "length (fe_crtcs e) \<le> length infos"
    using assms(1) by (auto simp: fading_def covers_def split: option.splits)
  let ?f' = "whacked infos ?a (length (fe_crtcs e)) ?f"
  have "gs_fade_out_iter e f = Inr (True, ?f')"
    using assms xrandr_set_alpha [OF i, of ?a]
    by (simp add: gs_fade_out_iter_def gs_fade_set_alpha_def fade_set_alpha_gamma_def fading_def covers_def Let_def)
  then have "sync_turn e (Inr f) = (False, Inr ?f')"
    using assms(1) by (auto simp: sync_turn_def fade_out_timer_def fading_def)
  moreover have "fading e (Inr ?f')" using assms(1) by (simp add: fading_def covers_def whacked_def)
  moreover have "steps_left (Inr ?f') < steps_left (Inr f)"
  proof (cases "f_alpha_per_iter f")
    case None
    then show ?thesis using assms(2) by (simp add: steps_left_def whacked_def)
  next
    case (Some d)
    then have d: "0 < d" using assms(1) by (simp add: fading_def)
    have "(f_current_alpha f - d) / d = f_current_alpha f / d - 1" using d by (simp add: diff_divide_distrib)
    then have "\<lceil>(f_current_alpha f - d) / d\<rceil> = \<lceil>f_current_alpha f / d\<rceil> - 1" by simp
    moreover have "0 < \<lceil>f_current_alpha f / d\<rceil>" using d assms(2) by (simp add: zero_less_ceiling)
    ultimately show ?thesis using Some by (simp add: steps_left_def whacked_def)
  qed
  ultimately show ?thesis by blast
qed

lemma sync_turn_end:
  assumes "fading e (Inr f)" "f_current_alpha f < 1 / 100"
  shows "\<exists>f'. sync_turn e (Inr f) = (True, Inr f') \<and> \<not> f_active f' \<and> f_timer_id f' = None \<and> f_current_alpha f' < 1 / 100"
  using assms
  by (auto simp: sync_turn_def fade_out_timer_def gs_fade_out_iter_def gs_fade_finish_def gs_fade_stop_def fading_def Let_def)

lemma sync_loop_returns:
  assumes "fading e (Inr f)"
  shows "\<exists>f'. until_success (sync_turn e) (Inr f) = Some (Inr f') \<and> \<not> f_active f' \<and> f_timer_id f' = None
           \<and> f_current_alpha f' < 1 / 100"
proof -
  have step: "fading e s1 \<and> steps_left s1 < steps_left s" if "fading e s" "sync_turn e s = (False, s1)" for s s1
  proof (cases s)
    case (Inr f)
    then show ?thesis
      using that sync_turn_step [of e f] sync_turn_end [of e f] by (cases "f_current_alpha f < 1 / 100") auto
  qed (use that in \<open>simp add: fading_def\<close>)
  obtain r where r: "until_success (sync_turn e) (Inr f) = Some r"
    using until_success_returns [of "fading e" "Inr f" "sync_turn e" steps_left] assms step by blast
  have "\<exists>f'. r = Inr f' \<and> \<not> f_active f' \<and> f_timer_id f' = None \<and> f_current_alpha f' < 1 / 100"
    using r assms
  proof (rule until_success_post [where P = "fading e"])
    fix s s1 assume s: "fading e s" "sync_turn e s = (True, s1)"
    then obtain f where "s = Inr f" by (cases s) (simp_all add: fading_def)
    then show "\<exists>f'. s1 = Inr f' \<and> \<not> f_active f' \<and> f_timer_id f' = None \<and> f_current_alpha f' < 1 / 100"
      using s sync_turn_step [of e f] sync_turn_end [of e f] by (cases "f_current_alpha f < 1 / 100") auto
  qed (use step in blast)
  then show ?thesis using r by blast
qed

lemma fill_infos_ok:
  "(\<forall>(has_mode, gamma) \<in> set cs. has_mode \<longrightarrow> gamma \<noteq> None) \<Longrightarrow>
     fst (fill_infos cs infos) \<and> length (snd (fill_infos cs infos)) = length infos + length cs"
  by (induction cs arbitrary: infos) (auto split: option.splits)

lemma fill_infos_fails:
  "(True, None) \<in> set cs \<Longrightarrow> \<not> fst (fill_infos cs infos)"
  by (induction cs arbitrary: infos) (auto split: option.splits if_splits)

text \<open>
  A synchronous fade ends.  When the ramps of every CRTC in use can be read, \<open>gs_fade_sync\<close> returns
  for every timeout, also 0; then the screen is black, the timer is gone and no fade is active.
\<close>

theorem fade_sync_returns:
  assumes "f_type f = FADE_TYPE_XRANDR" "f_methods f = Xrandr_Methods" "f_info f = None"
    and "\<forall>(has_mode, gamma) \<in> set (fe_crtcs e). has_mode \<longrightarrow> gamma \<noteq> None"
  shows "\<exists>f'. gs_fade_sync e timeout f = Inr f' \<and> \<not> f_active f' \<and> f_timer_id f' = None \<and> f_current_alpha f' < 1 / 100"
proof -
  obtain infos where infos: "fill_infos (fe_crtcs e) [] = (True, infos)" "length infos = length (fe_crtcs e)"
    using fill_infos_ok [OF assms(4), of "[]"] by (metis add_0 list.size(3) prod.collapse)
  let ?f = "(if f_active f then gs_fade_stop f else f)"
  let ?f1 = "?f\<lparr>f_callbacks := f_callbacks ?f @ [Sync_Callback]\<rparr>"
  have st: "f_type ?f1 = FADE_TYPE_XRANDR" "f_methods ?f1 = Xrandr_Methods" "f_info ?f1 = None"
    "Sync_Callback \<in> set (f_callbacks ?f1)"
    using assms by (simp_all add: gs_fade_stop_def Let_def)
  have "\<exists>f2. gs_fade_start e timeout ?f1 = Inr ([], f2) \<and> fading e (Inr f2)"
    using st infos
    by (simp add: gs_fade_start_def fade_setup_def xrandr_fade_setup_def gs_fade_set_timeout_def gs_fade_stop_def
        fading_def covers_def Let_def)
  then obtain f2 where f2: "gs_fade_start e timeout ?f1 = Inr ([], f2)" "fading e (Inr f2)" by blast
  obtain f' where "until_success (sync_turn e) (Inr f2) = Some (Inr f')" "\<not> f_active f'" "f_timer_id f' = None"
    "f_current_alpha f' < 1 / 100"
    using sync_loop_returns [OF f2(2)] by blast
  then show ?thesis using f2(1) by (simp add: gs_fade_sync_def Let_def)
qed

theorem fade_sync_returns_witness:
  "\<exists>f'. gs_fade_sync sample_fade_env 1000 (gs_fade_init sample_fade_env) = Inr f' \<and> f_current_alpha f' < 1 / 100"
proof -
  have "f_type (gs_fade_init sample_fade_env) = FADE_TYPE_XRANDR" "f_methods (gs_fade_init sample_fade_env) = Xrandr_Methods"
    "f_info (gs_fade_init sample_fade_env) = None"
    "\<forall>(has_mode, gamma) \<in> set (fe_crtcs sample_fade_env). has_mode \<longrightarrow> gamma \<noteq> None"
    by (simp_all add: sample_fade_defs Let_def)
  from fade_sync_returns [OF this] show ?thesis by blast
qed

text \<open>
  When the ramps of a CRTC in use cannot be read, the fade is not started, yet \<open>gs_fade_sync\<close> waits
  for its end: it never returns.
\<close>

theorem fade_sync_hangs:
  assumes "f_type f = FADE_TYPE_XRANDR" "f_methods f = Xrandr_Methods" "f_info f = None"
    and "(True, None) \<in> set (fe_crtcs e)" "f_active f \<or> f_timer_id f = None"
  shows "gs_fade_sync e timeout f = Inl No_Return"
proof -
  let ?f = "(if f_active f then gs_fade_stop f else f)"
  let ?f1 = "?f\<lparr>f_callbacks := f_callbacks ?f @ [Sync_Callback]\<rparr>"
  obtain infos where infos: "fill_infos (fe_crtcs e) [] = (False, infos)"
    using fill_infos_fails [OF assms(4), of "[]"] by (metis prod.collapse)
  have st: "f_type ?f1 = FADE_TYPE_XRANDR" "f_methods ?f1 = Xrandr_Methods" "f_info ?f1 = None" "f_timer_id ?f1 = None"
    using assms by (auto simp: gs_fade_stop_def Let_def)
  then obtain f2 where f2: "gs_fade_start e timeout ?f1 = Inr ([], f2)" "f_timer_id f2 = None"
    using infos by (simp add: gs_fade_start_def fade_setup_def xrandr_fade_setup_def)
  then have "until_success (sync_turn e) (Inr f2) = None"
    by (intro until_success_stuck) (simp add: sync_turn_def)
  then show ?thesis using f2(1) by (simp add: gs_fade_sync_def Let_def)
qed

theorem fade_sync_hangs_witness:
  "gs_fade_sync (sample_fade_env\<lparr>fe_crtcs := [(True, None)]\<rparr>) 1000 (gs_fade_init sample_fade_env) = Inl No_Return"
  by (rule fade_sync_hangs) (simp_all add: sample_fade_defs Let_def)

text \<open>
  With the VidMode extension, a ramp whose size can be read but whose values cannot is taken to be
  all zero: resetting the fade then programs a black screen instead of restoring it.
\<close>

theorem fade_reset_blackens:
  assumes "f_type f = FADE_TYPE_GAMMA_RAMP" "f_methods f = Gamma_Methods" "f_info f = None"
    and "fe_vm_ramp_size e = Some n" "0 < n" "fe_vm_ramp e = None" "fe_vm_gamma e = Some g"
    and "gs_fade_start e timeout f = Inr (cbs, f1)" "gs_fade_reset e f1 = Inr f2"
  shows "\<exists>gi. f_ramps f2 0 = Some gi \<and> gi_size gi = n \<and> gi_r gi = replicate n 0 \<and> gi_g gi = replicate n 0
           \<and> gi_b gi = replicate n 0"
proof -
  let ?gi = "\<lparr>gi_size = n, gi_r = replicate n 0, gi_g = replicate n 0, gi_b = replicate n 0\<rparr>"
  have f1: "f_info f1 = Some [?gi]" "f_type f1 = FADE_TYPE_GAMMA_NUMBER" "f_methods f1 = Gamma_Methods"
    using assms(1-8)
    by (auto simp: gs_fade_start_def fade_setup_def gamma_fade_setup_def gamma_ramp_setup_def gs_fade_set_timeout_def
        gs_fade_stop_def Let_def split: if_splits)
  have "info_ok ?gi" by (simp add: info_ok_def)
  then have "scale_info (clamp_ratio 1) ?gi = ?gi" using scale_info_1 by (simp add: clamp_ratio_def)
  then show ?thesis
    using assms(5,9) f1
    by (auto simp: gs_fade_reset_def gs_fade_set_alpha_def fade_set_alpha_gamma_def gamma_fade_set_alpha_gamma_def
        xf86_whack_gamma_def fade_finish_def screen_fade_finish_def gs_fade_stop_def Let_def split: if_splits)
qed

definition sample_vm_env :: fade_env where
  "sample_vm_env = sample_fade_env\<lparr>fe_rr_screen := False, fe_vm_extension := True, fe_vm_version := (True, False, 2, 1),
     fe_vm_ramp_size := Some 2, fe_vm_gamma := Some (1, 1, 1)\<rparr>"

theorem fade_reset_blackens_witness:
  "\<exists>f1 f2 gi. gs_fade_start sample_vm_env 1000 (gs_fade_init sample_vm_env) = Inr ([], f1)
     \<and> gs_fade_reset sample_vm_env f1 = Inr f2 \<and> f_ramps f2 0 = Some gi \<and> gi_r gi = [0, 0]"
proof -
  let ?f = "gs_fade_init sample_vm_env"
  have i: "f_type ?f = FADE_TYPE_GAMMA_RAMP" "f_methods ?f = Gamma_Methods" "f_info ?f = None"
    "fe_vm_ramp_size sample_vm_env = Some 2" "(0::nat) < 2" "fe_vm_ramp sample_vm_env = None" "fe_vm_gamma sample_vm_env = Some (1, 1, 1)"
    by (simp_all add: sample_vm_env_def sample_fade_defs check_gamma_extension_def Let_def)
  have "f_timer_id ?f = None" by (simp add: sample_vm_env_def sample_fade_defs check_gamma_extension_def Let_def)
  then obtain f1 where f1: "gs_fade_start sample_vm_env 1000 ?f = Inr ([], f1)"
    using i by (simp add: gs_fade_start_def fade_setup_def gamma_fade_setup_def gamma_ramp_setup_def Let_def gs_fade_set_timeout_def)
  have m: "f_methods f1 = Gamma_Methods" "f_type f1 = FADE_TYPE_GAMMA_NUMBER" "\<exists>gi. f_info f1 = Some [gi]"
    using f1 i by (auto simp: gs_fade_start_def fade_setup_def gamma_fade_setup_def gamma_ramp_setup_def Let_def
        gs_fade_set_timeout_def gs_fade_stop_def split: if_splits)
  then have "\<exists>f2. gs_fade_reset sample_vm_env f1 = Inr f2"
    by (cases "f_active f1"; cases "f_vmg f1") (auto simp: gs_fade_reset_def gs_fade_set_alpha_def fade_set_alpha_gamma_def
        gamma_fade_set_alpha_gamma_def xf86_whack_gamma_def fade_finish_def gs_fade_stop_def Let_def)
  then obtain f2 where f2: "gs_fade_reset sample_vm_env f1 = Inr f2" by blast
  from fade_reset_blackens [OF i f1 f2] f1 f2 show ?thesis by (auto simp: numeral_2_eq_2)
qed

end
