(* ===== verification/GS_Grab.thy ===== *)
theory GS_Grab
  imports Prelude
begin

text \<open>
  \<open>src/gs-grab-x11.c\<close>: taking and moving the keyboard and pointer grab.  Whether the X server
  grants a grab is a parameter, indexed by the number of \<open>gdk_seat_grab\<close> calls made so far
  (\<open>g_attempts\<close>); \<open>g_seat\<close> records for which window the seat is held.  There is one display, the
  default one.
\<close>

datatype grab_status =
    GDK_GRAB_SUCCESS | GDK_GRAB_ALREADY_GRABBED | GDK_GRAB_INVALID_TIME
  | GDK_GRAB_NOT_VIEWABLE | GDK_GRAB_FROZEN | GDK_GRAB_FAILED

type_synonym gdk_window = nat

record x_seat =
  xs_grab :: "nat \<Rightarrow> grab_status"
  xs_pointer_grabbed :: "nat \<Rightarrow> bool"

record gs_grab =
  g_window :: "gdk_window option"
  g_display :: bool
  g_no_pointer_grab :: bool
  g_hide_cursor :: bool
  g_invisible :: "gdk_window option"
  g_attempts :: nat
  g_seat :: "gdk_window option"

section \<open>Operations\<close>

definition gs_grab_reset :: "gs_grab \<Rightarrow> gs_grab" where
  "gs_grab_reset g = g\<lparr>g_window := None, g_display := False\<rparr>"

definition gdk_seat_ungrab :: "gs_grab \<Rightarrow> gs_grab" where
  "gdk_seat_ungrab g = g\<lparr>g_seat := None\<rparr>"

text \<open>Flushing the display does not change the state of the grab.\<close>

definition gs_grab_release :: "gs_grab \<Rightarrow> bool \<Rightarrow> gs_grab" where
  "gs_grab_release g flush = gs_grab_reset (gdk_seat_ungrab g)"

definition gdk_seat_grab :: "x_seat \<Rightarrow> gdk_window \<Rightarrow> gs_grab \<Rightarrow> grab_status \<times> gs_grab" where
  "gdk_seat_grab x window g =
     (let status = xs_grab x (g_attempts g); g = g\<lparr>g_attempts := Suc (g_attempts g)\<rparr> in
      (status, if status = GDK_GRAB_SUCCESS then g\<lparr>g_seat := Some window\<rparr> else g))"

text \<open>
  \<open>gs_grab_get\<close>.  For a NULL window \<open>g_return_val_if_fail\<close> returns FALSE, which is 0, which is
  \<open>GDK_GRAB_SUCCESS\<close>.
\<close>

definition gs_grab_get ::
  "x_seat \<Rightarrow> gs_grab \<Rightarrow> gdk_window option \<Rightarrow> bool \<Rightarrow> bool \<Rightarrow> grab_status \<times> gs_grab" where
  "gs_grab_get x g window_arg no_pointer_grab hide_cursor =
     (case window_arg of
        None \<Rightarrow> (GDK_GRAB_SUCCESS, g)
      | Some window \<Rightarrow>
          (let (status, g) = gdk_seat_grab x window g;
               (status, g) =
                 (if status = GDK_GRAB_SUCCESS \<and> no_pointer_grab \<and> xs_pointer_grabbed x (g_attempts g)
                  then gdk_seat_grab x window (gs_grab_release g False)
                  else (status, g)) in
           (status,
            if status = GDK_GRAB_SUCCESS
            then g\<lparr>g_window := Some window, g_display := True, g_no_pointer_grab := no_pointer_grab,
                   g_hide_cursor := hide_cursor\<rparr>
            else g)))"

definition gs_grab_move ::
  "x_seat \<Rightarrow> gs_grab \<Rightarrow> gdk_window option \<Rightarrow> bool \<Rightarrow> bool \<Rightarrow> bool \<times> gs_grab" where
  "gs_grab_move x g window no_pointer_grab hide_cursor =
     (if g_window g = window \<and> g_no_pointer_grab g = no_pointer_grab then (True, g)
      else
        (let old_window = g_window g;
             old_hide_cursor = g_hide_cursor g;
             g = (if old_window \<noteq> None then gs_grab_release g False else g);
             (result, g) = gs_grab_get x g window no_pointer_grab hide_cursor;
             (result, g) =
               (if result \<noteq> GDK_GRAB_SUCCESS then gs_grab_get x g window no_pointer_grab hide_cursor
                else (result, g));
             g = (if result \<noteq> GDK_GRAB_SUCCESS \<and> old_window \<noteq> None
                  then snd (gs_grab_get x g old_window no_pointer_grab old_hide_cursor) else g) in
         (result = GDK_GRAB_SUCCESS, g)))"

text \<open>
  The retry loop, from the \<open>i\<close>-th of \<open>retries\<close> attempts on; the last component says whether the
  input focus was taken away (at the attempt in the middle).
\<close>

function grab_window_loop ::
  "x_seat \<Rightarrow> gdk_window option \<Rightarrow> bool \<Rightarrow> bool \<Rightarrow> nat \<Rightarrow> nat \<Rightarrow> grab_status \<Rightarrow> gs_grab \<Rightarrow> bool \<Rightarrow>
   grab_status \<times> gs_grab \<times> bool" where
  "grab_window_loop x window no_pointer_grab hide_cursor retries i status g nuked =
     (if i < retries then
        (let (status, g) = gs_grab_get x g window no_pointer_grab hide_cursor in
         if status = GDK_GRAB_SUCCESS then (status, g, nuked)
         else grab_window_loop x window no_pointer_grab hide_cursor retries (Suc i) status g
                (nuked \<or> i = retries div 2))
      else (status, g, nuked))"
  by pat_completeness auto
termination
  by (relation "measure (\<lambda>(x, window, np, hc, retries, i, status, g, nuked). retries - i)") auto

declare grab_window_loop.simps [simp del]

text \<open>\<open>status\<close> starts as FALSE, which is the number of \<open>GDK_GRAB_SUCCESS\<close>.\<close>

definition gs_grab_grab_window ::
  "x_seat \<Rightarrow> gs_grab \<Rightarrow> gdk_window option \<Rightarrow> bool \<Rightarrow> bool \<Rightarrow> bool \<times> gs_grab" where
  "gs_grab_grab_window x g window no_pointer_grab hide_cursor =
     (let (status, g, nuked) =
            grab_window_loop x window no_pointer_grab hide_cursor 12 0 GDK_GRAB_SUCCESS g False in
      if status \<noteq> GDK_GRAB_SUCCESS then (False, g) else (True, g))"

text \<open>The root window of the screen under the pointer is a parameter.\<close>

definition gs_grab_grab_root :: "x_seat \<Rightarrow> gdk_window \<Rightarrow> gs_grab \<Rightarrow> bool \<Rightarrow> bool \<Rightarrow> bool \<times> gs_grab" where
  "gs_grab_grab_root x root g no_pointer_grab hide_cursor =
     gs_grab_grab_window x g (Some root) no_pointer_grab hide_cursor"

definition gs_grab_grab_offscreen :: "x_seat \<Rightarrow> gs_grab \<Rightarrow> bool \<Rightarrow> bool \<Rightarrow> bool \<times> gs_grab" where
  "gs_grab_grab_offscreen x g no_pointer_grab hide_cursor =
     gs_grab_grab_window x g (g_invisible g) no_pointer_grab hide_cursor"

text \<open>The loop of \<open>gs_grab_move_to_window\<close> has no bound: not returning is \<open>None\<close>.\<close>

definition gs_grab_move_to_window ::
  "x_seat \<Rightarrow> gs_grab \<Rightarrow> gdk_window option \<Rightarrow> bool \<Rightarrow> bool \<Rightarrow> gs_grab res" where
  "gs_grab_move_to_window x g window no_pointer_grab hide_cursor =
     (case until_success (\<lambda>g. gs_grab_move x g window no_pointer_grab hide_cursor) g of
        None \<Rightarrow> Inl No_Return
      | Some g \<Rightarrow> ret g)"

text \<open>
  Destroying the window the seat is held for: the X server ends the grab, and the weak pointer to the
  window is cleared.
\<close>

definition grab_window_destroyed :: "gdk_window \<Rightarrow> gs_grab \<Rightarrow> gs_grab" where
  "grab_window_destroyed w g =
     (let g = (if g_seat g = Some w then g\<lparr>g_seat := None\<rparr> else g) in
      if g_window g = Some w then g\<lparr>g_window := None\<rparr> else g)"

definition gs_grab_init :: "gdk_window \<Rightarrow> gs_grab" where
  "gs_grab_init invisible =
     \<lparr>g_window = None, g_display = False, g_no_pointer_grab = False, g_hide_cursor = False,
      g_invisible = Some invisible, g_attempts = 0, g_seat = None\<rparr>"

section \<open>Invariant\<close>

text \<open>The window the grab object remembers is the window the seat is held for.\<close>

definition grab_ok :: "gs_grab \<Rightarrow> bool" where
  "grab_ok g = (\<forall>w. g_window g = Some w \<longrightarrow> g_seat g = Some w)"

lemma grab_ok_reset [inv_intros, simp]: "grab_ok (gs_grab_reset g)"
  by (simp add: grab_ok_def gs_grab_reset_def)

lemma grab_ok_release [inv_intros, simp]: "grab_ok (gs_grab_release g flush)"
  by (simp add: gs_grab_release_def)

lemma grab_ok_init [inv_intros]: "grab_ok (gs_grab_init w)"
  by (simp add: grab_ok_def gs_grab_init_def)

lemma grab_ok_destroyed [inv_intros]: "grab_ok g \<Longrightarrow> grab_ok (grab_window_destroyed w g)"
  by (cases "g_window g") (auto simp: grab_ok_def grab_window_destroyed_def Let_def)

text \<open>
  One \<open>gs_grab_get\<close> on a real window: on success the seat is held for it and remembered; on failure
  nothing but the attempt counter changed, unless the pointer had to be let go in between.
\<close>

lemma gs_grab_get_success:
  assumes "gs_grab_get x g (Some w) np hc = (GDK_GRAB_SUCCESS, g')"
  shows "g_window g' = Some w \<and> g_seat g' = Some w \<and> g_no_pointer_grab g' = np"
  using assms
  by (auto simp: gs_grab_get_def gdk_seat_grab_def gs_grab_release_def gs_grab_reset_def gdk_seat_ungrab_def
      Let_def split: if_splits)

lemma gs_grab_get_failure:
  assumes "gs_grab_get x g (Some w) np hc = (status, g')" "status \<noteq> GDK_GRAB_SUCCESS"
  shows "g_window g' = None \<or> g_window g' = g_window g \<and> g_seat g' = g_seat g"
  using assms
  by (auto simp: gs_grab_get_def gdk_seat_grab_def gs_grab_release_def gs_grab_reset_def gdk_seat_ungrab_def
      Let_def split: if_splits)

lemma gs_grab_get_ok [inv_intros]:
  "grab_ok g \<Longrightarrow> grab_ok (snd (gs_grab_get x g w np hc))"
proof (cases w)
  case None
  then show "grab_ok g \<Longrightarrow> ?thesis" by (simp add: gs_grab_get_def)
next
  case (Some v)
  obtain st g' where r: "gs_grab_get x g (Some v) np hc = (st, g')" by (metis prod.exhaust)
  assume "grab_ok g"
  then show ?thesis
    using r Some gs_grab_get_success [of x g v np hc g'] gs_grab_get_failure [OF r]
    by (cases "st = GDK_GRAB_SUCCESS") (auto simp: grab_ok_def)
qed

lemma gs_grab_get_invisible [simp]: "g_invisible (snd (gs_grab_get x g w np hc)) = g_invisible g"
  by (simp add: gs_grab_get_def gdk_seat_grab_def gs_grab_release_def gs_grab_reset_def gdk_seat_ungrab_def
      Let_def split: option.splits prod.splits)

lemma grab_window_loop_ok:
  "grab_ok g \<Longrightarrow> grab_ok (fst (snd (grab_window_loop x w np hc n i st g nk)))"
proof (induction x w np hc n i st g nk rule: grab_window_loop.induct)
  case (1 x w np hc n i st g nk)
  obtain st' g' where r: "gs_grab_get x g w np hc = (st', g')" by (metis prod.exhaust)
  have "grab_ok g'" using gs_grab_get_ok [OF 1(2), of x w np hc] r by simp
  then show ?case
    using 1(1) [OF _ r [symmetric]] 1(2) r by (subst grab_window_loop.simps) (auto simp: Let_def)
qed

lemma grab_window_ok [inv_intros]:
  assumes "grab_ok g"
  shows "grab_ok (snd (gs_grab_grab_window x g w np hc))"
  using grab_window_loop_ok [OF assms, of x w np hc 12 0 GDK_GRAB_SUCCESS False]
  by (auto simp: gs_grab_grab_window_def Let_def split: prod.splits)

lemma grab_move_ok [inv_intros]:
  "grab_ok g \<Longrightarrow> grab_ok (snd (gs_grab_move x g w np hc))"
  using gs_grab_get_ok [of _ x] by (simp add: gs_grab_move_def Let_def case_prod_beta)

text \<open>A move that reports success ends with the seat held for the new window.\<close>

lemma grab_move_success:
  assumes "grab_ok g" "gs_grab_move x g (Some w) np hc = (True, g')"
  shows "g_window g' = Some w \<and> g_seat g' = Some w \<and> g_no_pointer_grab g' = np"
proof (cases "g_window g = Some w \<and> g_no_pointer_grab g = np")
  case True
  then show ?thesis using assms by (simp add: gs_grab_move_def grab_ok_def)
next
  case False
  let ?g = "if g_window g \<noteq> None then gs_grab_release g False else g"
  obtain s1 g1 where r1: "gs_grab_get x ?g (Some w) np hc = (s1, g1)" by (metis prod.exhaust)
  obtain s2 g2 where r2: "gs_grab_get x g1 (Some w) np hc = (s2, g2)" by (metis prod.exhaust)
  show ?thesis
    using assms(2) False r1 r2 gs_grab_get_success [of x ?g w np hc g1] gs_grab_get_success [of x g1 w np hc g2]
    by (cases "s1 = GDK_GRAB_SUCCESS") (auto simp: gs_grab_move_def Let_def split: if_splits)
qed

section \<open>The contract the manager relies on\<close>

text \<open>
  A service that moves the devices grab to a window: when it returns, the seat is held for that
  window, and the invariant of the service is kept.
\<close>

locale device_grab =
  fixes move_to :: "'g \<Rightarrow> gdk_window \<Rightarrow> bool \<Rightarrow> 'g res"
    and release :: "'g \<Rightarrow> 'g"
    and held :: "'g \<Rightarrow> gdk_window option"
    and ok :: "'g \<Rightarrow> bool"
  assumes move_holds: "ok g \<Longrightarrow> rpost (\<lambda>g'. held g' = Some w \<and> ok g') (move_to g w np)"
    and release_frees: "held (release g) = None"
    and release_ok: "ok (release g)"
begin

lemma move_twice:
  assumes "ok g"
  shows "rpost (\<lambda>g'. held g' = Some w2 \<and> ok g') (rbind (move_to g w1 np1) (\<lambda>g. move_to g w2 np2))"
  by (rule rpost_rbindI [OF move_holds [OF assms]]) (simp add: move_holds)

lemma release_after_move:
  "ok g \<Longrightarrow> rpost (\<lambda>g'. held (release g') = None \<and> ok (release g')) (move_to g w np)"
  by (rule rpost_mono [OF move_holds]) (simp_all add: release_frees release_ok)

end

lemma grab_move_to_window_post:
  assumes "grab_ok g"
  shows "rpost (\<lambda>g'. g_window g' = Some w \<and> g_seat g' = Some w \<and> g_no_pointer_grab g' = np \<and> grab_ok g')
           (gs_grab_move_to_window x g (Some w) np hc)"
proof -
  have "g_window g' = Some w \<and> g_seat g' = Some w \<and> g_no_pointer_grab g' = np \<and> grab_ok g'"
    if "until_success (\<lambda>g. gs_grab_move x g (Some w) np hc) g = Some g'" for g'
    using that assms
  proof (rule until_success_post [where P = grab_ok])
    fix g g1 assume "grab_ok g" "gs_grab_move x g (Some w) np hc = (False, g1)"
    then show "grab_ok g1" using grab_move_ok [of g x "Some w" np hc] by simp
  next
    fix g g1 assume "grab_ok g" "gs_grab_move x g (Some w) np hc = (True, g1)"
    then show "g_window g1 = Some w \<and> g_seat g1 = Some w \<and> g_no_pointer_grab g1 = np \<and> grab_ok g1"
      using grab_move_ok [of g x "Some w" np hc] grab_move_success by auto
  qed
  then show ?thesis by (auto simp: gs_grab_move_to_window_def split: option.splits)
qed

interpretation seat: device_grab
  "\<lambda>g w np. gs_grab_move_to_window x g (Some w) np False" "\<lambda>g. gs_grab_release g True" g_seat grab_ok
proof unfold_locales
  fix g w np assume "grab_ok g"
  then show "rpost (\<lambda>g'. g_seat g' = Some w \<and> grab_ok g') (gs_grab_move_to_window x g (Some w) np False)"
    by (rule rpost_mono [OF grab_move_to_window_post]) simp
next
  fix g show "g_seat (gs_grab_release g True) = None"
    by (simp add: gs_grab_release_def gs_grab_reset_def gdk_seat_ungrab_def)
next
  fix g show "grab_ok (gs_grab_release g True)" by simp
qed

section \<open>Properties\<close>

text \<open>Counting attempts: a \<open>gs_grab_get\<close> that keeps the pointer makes exactly one.\<close>

lemma gs_grab_get_pointer:
  "gs_grab_get x g (Some w) False hc =
     (xs_grab x (g_attempts g),
      if xs_grab x (g_attempts g) = GDK_GRAB_SUCCESS
      then g\<lparr>g_attempts := Suc (g_attempts g), g_seat := Some w, g_window := Some w, g_display := True,
             g_no_pointer_grab := False, g_hide_cursor := hc\<rparr>
      else g\<lparr>g_attempts := Suc (g_attempts g)\<rparr>)"
  by (simp add: gs_grab_get_def gdk_seat_grab_def Let_def)

lemma grab_window_loop_iff:
  assumes "i \<le> n" "i = n \<Longrightarrow> st \<noteq> GDK_GRAB_SUCCESS"
  shows "fst (grab_window_loop x (Some w) False hc n i st g nk) = GDK_GRAB_SUCCESS
     \<longleftrightarrow> (\<exists>k < n - i. xs_grab x (g_attempts g + k) = GDK_GRAB_SUCCESS)"
  using assms
proof (induction "n - i" arbitrary: i st g nk)
  case 0
  then show ?case by (subst grab_window_loop.simps) simp
next
  case (Suc d)
  then have lt: "i < n" by simp
  show ?case
  proof (cases "xs_grab x (g_attempts g) = GDK_GRAB_SUCCESS")
    case True
    then have "\<exists>k < n - i. xs_grab x (g_attempts g + k) = GDK_GRAB_SUCCESS"
      using lt by (intro exI [of _ 0]) simp
    then show ?thesis using True lt by (subst grab_window_loop.simps) (simp add: gs_grab_get_pointer)
  next
    case False
    let ?g = "g\<lparr>g_attempts := Suc (g_attempts g)\<rparr>"
    have "fst (grab_window_loop x (Some w) False hc n (Suc i) (xs_grab x (g_attempts g)) ?g (nk \<or> i = n div 2))
        = GDK_GRAB_SUCCESS \<longleftrightarrow> (\<exists>k < n - Suc i. xs_grab x (g_attempts ?g + k) = GDK_GRAB_SUCCESS)"
      using Suc.hyps(2) lt False by (intro Suc.hyps(1)) auto
    moreover have "(\<exists>k < n - Suc i. xs_grab x (g_attempts ?g + k) = GDK_GRAB_SUCCESS)
        \<longleftrightarrow> (\<exists>k < n - i. xs_grab x (g_attempts g + k) = GDK_GRAB_SUCCESS)"
    proof -
      have "(\<exists>k < n - i. xs_grab x (g_attempts g + k) = GDK_GRAB_SUCCESS) \<longleftrightarrow>
          (\<exists>k < Suc (n - Suc i). xs_grab x (g_attempts g + k) = GDK_GRAB_SUCCESS)"
        using lt by (simp add: Suc_diff_Suc)
      also have "\<dots> \<longleftrightarrow> (\<exists>k < n - Suc i. xs_grab x (g_attempts g + Suc k) = GDK_GRAB_SUCCESS)"
        using False by (auto simp: Ex_less_Suc2)
      finally show ?thesis by simp
    qed
    ultimately show ?thesis
      using False lt by (subst grab_window_loop.simps) (simp add: gs_grab_get_pointer)
  qed
qed

lemma grab_window_loop_held:
  "i < n \<Longrightarrow> fst (grab_window_loop x (Some w) np hc n i st g nk) = GDK_GRAB_SUCCESS \<Longrightarrow>
     g_seat (fst (snd (grab_window_loop x (Some w) np hc n i st g nk))) = Some w"
proof (induction "n - i" arbitrary: i st g nk)
  case 0
  then show ?case by simp
next
  case (Suc d)
  obtain st' g' where r: "gs_grab_get x g (Some w) np hc = (st', g')" by (metis prod.exhaust)
  show ?case
  proof (cases "st' = GDK_GRAB_SUCCESS")
    case True
    then show ?thesis
      using r Suc.prems gs_grab_get_success [of x g w np hc g'] by (subst grab_window_loop.simps) simp
  next
    case False
    have step: "grab_window_loop x (Some w) np hc n i st g nk =
        grab_window_loop x (Some w) np hc n (Suc i) st' g' (nk \<or> i = n div 2)"
      using r Suc.prems False by (subst grab_window_loop.simps) simp
    have "Suc i < n"
    proof (rule ccontr)
      assume "\<not> Suc i < n"
      then have "fst (grab_window_loop x (Some w) np hc n (Suc i) st' g' (nk \<or> i = n div 2)) = st'"
        by (subst grab_window_loop.simps) simp
      then show False using Suc.prems(2) step False by simp
    qed
    then show ?thesis using Suc step by (metis Suc.hyps(1) diff_Suc_Suc Suc_diff_Suc Suc_inject)
  qed
qed

text \<open>
  The screen is never blanked without a devices grab.  \<open>gs_grab_grab_root\<close> reports success
  exactly if the X server granted one of at most twelve attempts, and then the seat is held for the
  root window.
\<close>

theorem grab_root_iff:
  "fst (gs_grab_grab_root x root g False hc) = (\<exists>k < 12. xs_grab x (g_attempts g + k) = GDK_GRAB_SUCCESS)
   \<and> (fst (gs_grab_grab_root x root g False hc) \<longrightarrow> g_seat (snd (gs_grab_grab_root x root g False hc)) = Some root)"
  using grab_window_loop_iff [of 0 12 GDK_GRAB_SUCCESS x root hc g False]
    grab_window_loop_held [of 0 12 x root False hc GDK_GRAB_SUCCESS g False]
  by (auto simp: gs_grab_grab_root_def gs_grab_grab_window_def Let_def case_prod_beta)

theorem grab_root_iff_witness:
  "fst (gs_grab_grab_root \<lparr>xs_grab = (\<lambda>n. if n < 3 then GDK_GRAB_FROZEN else GDK_GRAB_SUCCESS), xs_pointer_grabbed = (\<lambda>_. False)\<rparr>
      0 (gs_grab_init 1) False False)
   \<and> g_seat (snd (gs_grab_grab_root \<lparr>xs_grab = (\<lambda>n. if n < 3 then GDK_GRAB_FROZEN else GDK_GRAB_SUCCESS), xs_pointer_grabbed = (\<lambda>_. False)\<rparr>
      0 (gs_grab_init 1) False False)) = Some 0"
proof -
  have "\<exists>k < 12. xs_grab \<lparr>xs_grab = (\<lambda>n. if n < 3 then GDK_GRAB_FROZEN else GDK_GRAB_SUCCESS), xs_pointer_grabbed = (\<lambda>_. False)\<rparr>
      (g_attempts (gs_grab_init 1) + k) = GDK_GRAB_SUCCESS"
    by (intro exI [of _ 3]) (simp add: gs_grab_init_def)
  then show ?thesis using grab_root_iff by blast
qed

lemma gs_grab_get_attempts: "g_attempts g < g_attempts (snd (gs_grab_get x g (Some w) np hc))"
  by (simp add: gs_grab_get_def gdk_seat_grab_def gs_grab_release_def gs_grab_reset_def gdk_seat_ungrab_def
      Let_def)

lemma gs_grab_get_granted:
  "\<forall>n \<ge> N. xs_grab x n = GDK_GRAB_SUCCESS \<Longrightarrow> N \<le> g_attempts g \<Longrightarrow>
     fst (gs_grab_get x g (Some w) np hc) = GDK_GRAB_SUCCESS"
  by (simp add: gs_grab_get_def gdk_seat_grab_def gs_grab_release_def gs_grab_reset_def gdk_seat_ungrab_def
      Let_def)

lemma gs_grab_move_progress:
  assumes "\<forall>n \<ge> N. xs_grab x n = GDK_GRAB_SUCCESS" "gs_grab_move x g (Some w) np hc = (False, g1)"
  shows "N - g_attempts g1 < N - g_attempts g"
proof -
  have fresh: "\<not> (g_window g = Some w \<and> g_no_pointer_grab g = np)"
    using assms(2) by (auto simp: gs_grab_move_def split: if_splits)
  let ?g = "if g_window g \<noteq> None then gs_grab_release g False else g"
  have at: "g_attempts ?g = g_attempts g" by (simp add: gs_grab_release_def gs_grab_reset_def gdk_seat_ungrab_def)
  obtain s1 h1 where r1: "gs_grab_get x ?g (Some w) np hc = (s1, h1)" by (metis prod.exhaust)
  obtain s2 h2 where r2: "gs_grab_get x h1 (Some w) np hc = (s2, h2)" by (metis prod.exhaust)
  have lt1: "g_attempts g < g_attempts h1" using gs_grab_get_attempts [of ?g x w np hc] r1 at by simp
  have lt2: "g_attempts h1 < g_attempts h2" using gs_grab_get_attempts [of h1 x w np hc] r2 by simp
  have fail: "s1 \<noteq> GDK_GRAB_SUCCESS" using assms(2) fresh r1 by (auto simp: gs_grab_move_def Let_def)
  have "\<not> N \<le> g_attempts g" using gs_grab_get_granted [OF assms(1), of ?g w np hc] fail r1 at by auto
  moreover have "g_attempts h2 \<le> g_attempts g1"
    using assms(2) fresh r1 r2 fail gs_grab_get_attempts [of h2 x "the (g_window g)" np "g_hide_cursor g"]
    by (cases "g_window g") (auto simp: gs_grab_move_def Let_def)
  ultimately show ?thesis using lt1 lt2 by linarith
qed

text \<open>
  Moving the grab.  If from some attempt on the X server grants grabs, the loop of
  \<open>gs_grab_move_to_window\<close> ends, and then the seat is held for the new window with the requested
  kind of pointer grab.
\<close>

theorem move_to_window_returns:
  assumes "grab_ok g" "\<forall>n \<ge> N. xs_grab x n = GDK_GRAB_SUCCESS"
  shows "\<exists>g'. gs_grab_move_to_window x g (Some w) np hc = Inr g'
       \<and> g_seat g' = Some w \<and> g_window g' = Some w \<and> g_no_pointer_grab g' = np"
proof -
  obtain g' where r: "until_success (\<lambda>g. gs_grab_move x g (Some w) np hc) g = Some g'"
    using until_success_returns [where P = "\<lambda>_. True" and m = "\<lambda>g. N - g_attempts g"
        and step = "\<lambda>g. gs_grab_move x g (Some w) np hc" and s = g]
      gs_grab_move_progress [OF assms(2)] by blast
  then have m: "gs_grab_move_to_window x g (Some w) np hc = Inr g'"
    by (simp add: gs_grab_move_to_window_def)
  show ?thesis using rpostD [OF grab_move_to_window_post [OF assms(1)] m] m by blast
qed

theorem move_to_window_returns_witness:
  "\<exists>g'. gs_grab_move_to_window
        \<lparr>xs_grab = (\<lambda>n. if n < 5 then GDK_GRAB_FROZEN else GDK_GRAB_SUCCESS), xs_pointer_grabbed = (\<lambda>_. True)\<rparr>
        ((gs_grab_init 1)\<lparr>g_window := Some 7, g_seat := Some 7\<rparr>) (Some 9) True False = Inr g'
     \<and> g_seat g' = Some 9 \<and> g_window g' = Some 9 \<and> g_no_pointer_grab g'"
  using move_to_window_returns [of "(gs_grab_init 1)\<lparr>g_window := Some 7, g_seat := Some 7\<rparr>" 5
      "\<lparr>xs_grab = (\<lambda>n. if n < 5 then GDK_GRAB_FROZEN else GDK_GRAB_SUCCESS), xs_pointer_grabbed = (\<lambda>_. True)\<rparr>" 9 True False]
  by (simp add: grab_ok_def)

text \<open>
  A NULL window.  The guard of \<open>gs_grab_get\<close> returns FALSE, which is the number of
  \<open>GDK_GRAB_SUCCESS\<close>: grabbing a window that does not exist is reported as a success although no
  request was sent and the seat is not held.
\<close>

theorem grab_null_window_succeeds:
  "gs_grab_grab_window x g None np hc = (True, g)"
  by (simp add: gs_grab_grab_window_def grab_window_loop.simps gs_grab_get_def Let_def)

end
