(* ===== verification/GS_Prefs.thy ===== *)
theory GS_Prefs
  imports Prelude
begin

text \<open>
  \<open>src/gs-prefs.c\<close>: the preferences the daemon reads from GSettings.  The stored values are a
  parameter: a settings object answers each typed request for a key.  Boolean values are already
  normalised to \<open>bool\<close>, and the enumeration of the mode to its constructors.
\<close>

section \<open>State\<close>

datatype gs_saver_mode = GS_MODE_BLANK_ONLY | GS_MODE_RANDOM | GS_MODE_SINGLE

record gs_prefs =
  p_idle_activation_enabled :: bool
  p_lock_enabled :: bool
  p_logout_enabled :: bool
  p_lock_disabled :: bool
  p_user_switch_disabled :: bool
  p_user_switch_enabled :: bool
  p_keyboard_enabled :: bool
  p_status_message_enabled :: bool
  p_power_timeout :: int
  p_timeout :: int
  p_lock_timeout :: int
  p_logout_timeout :: int
  p_cycle :: int
  p_logout_command :: "string option"
  p_keyboard_command :: "string option"
  p_themes :: "string list"
  p_mode :: gs_saver_mode

record gsettings =
  gset_boolean :: "string \<Rightarrow> bool"
  gset_int :: "string \<Rightarrow> int"
  gset_enum :: "string \<Rightarrow> gs_saver_mode"
  gset_strv :: "string \<Rightarrow> string list"
  gset_string :: "string \<Rightarrow> string"

record pref_settings =
  ps_settings :: gsettings
  ps_lockdown_settings :: gsettings
  ps_session_settings :: gsettings

definition KEY_LOCK_DISABLE :: string where "KEY_LOCK_DISABLE = ''disable-lock-screen''"
definition KEY_USER_SWITCH_DISABLE :: string where "KEY_USER_SWITCH_DISABLE = ''disable-user-switching''"
definition KEY_IDLE_DELAY :: string where "KEY_IDLE_DELAY = ''idle-delay''"
definition KEY_IDLE_ACTIVATION_ENABLED :: string where "KEY_IDLE_ACTIVATION_ENABLED = ''idle-activation-enabled''"
definition KEY_LOCK_ENABLED :: string where "KEY_LOCK_ENABLED = ''lock-enabled''"
definition KEY_MODE :: string where "KEY_MODE = ''mode''"
definition KEY_POWER_DELAY :: string where "KEY_POWER_DELAY = ''power-management-delay''"
definition KEY_LOCK_DELAY :: string where "KEY_LOCK_DELAY = ''lock-delay''"
definition KEY_CYCLE_DELAY :: string where "KEY_CYCLE_DELAY = ''cycle-delay''"
definition KEY_THEMES :: string where "KEY_THEMES = ''themes''"
definition KEY_USER_SWITCH_ENABLED :: string where "KEY_USER_SWITCH_ENABLED = ''user-switch-enabled''"
definition KEY_LOGOUT_ENABLED :: string where "KEY_LOGOUT_ENABLED = ''logout-enabled''"
definition KEY_LOGOUT_DELAY :: string where "KEY_LOGOUT_DELAY = ''logout-delay''"
definition KEY_LOGOUT_COMMAND :: string where "KEY_LOGOUT_COMMAND = ''logout-command''"
definition KEY_KEYBOARD_ENABLED :: string where "KEY_KEYBOARD_ENABLED = ''embedded-keyboard-enabled''"
definition KEY_KEYBOARD_COMMAND :: string where "KEY_KEYBOARD_COMMAND = ''embedded-keyboard-command''"
definition KEY_STATUS_MESSAGE_ENABLED :: string where "KEY_STATUS_MESSAGE_ENABLED = ''status-message-enabled''"

lemmas key_defs =
  KEY_LOCK_DISABLE_def KEY_USER_SWITCH_DISABLE_def KEY_IDLE_DELAY_def KEY_IDLE_ACTIVATION_ENABLED_def
  KEY_LOCK_ENABLED_def KEY_MODE_def KEY_POWER_DELAY_def KEY_LOCK_DELAY_def KEY_CYCLE_DELAY_def KEY_THEMES_def
  KEY_USER_SWITCH_ENABLED_def KEY_LOGOUT_ENABLED_def KEY_LOGOUT_DELAY_def KEY_LOGOUT_COMMAND_def
  KEY_KEYBOARD_ENABLED_def KEY_KEYBOARD_COMMAND_def KEY_STATUS_MESSAGE_ENABLED_def

section \<open>Setting one preference\<close>

definition gs_prefs_set_timeout :: "int \<Rightarrow> gs_prefs \<Rightarrow> gs_prefs" where
  "gs_prefs_set_timeout value p =
     (let value = (if value < 1 then 10 else value); value = (if value > 480 then 480 else value) in
      p\<lparr>p_timeout := value * 60000\<rparr>)"

definition gs_prefs_set_power_timeout :: "int \<Rightarrow> gs_prefs \<Rightarrow> gs_prefs" where
  "gs_prefs_set_power_timeout value p =
     (let value = (if value < 1 then 60 else value); value = (if value > 480 then 480 else value) in
      p\<lparr>p_power_timeout := value * 1000\<rparr>)"

definition gs_prefs_set_lock_timeout :: "int \<Rightarrow> gs_prefs \<Rightarrow> gs_prefs" where
  "gs_prefs_set_lock_timeout value p =
     (let value = (if value < 0 then 0 else value); value = (if value > 480 then 480 else value) in
      p\<lparr>p_lock_timeout := value * 60000\<rparr>)"

definition gs_prefs_set_cycle_timeout :: "int \<Rightarrow> gs_prefs \<Rightarrow> gs_prefs" where
  "gs_prefs_set_cycle_timeout value p =
     (let value = (if value < 1 then 1 else value); value = (if value > 480 then 480 else value) in
      p\<lparr>p_cycle := value * 60000\<rparr>)"

definition gs_prefs_set_mode :: "gs_saver_mode \<Rightarrow> gs_prefs \<Rightarrow> gs_prefs" where
  "gs_prefs_set_mode mode p = p\<lparr>p_mode := mode\<rparr>"

definition gs_prefs_set_themes :: "string list \<Rightarrow> gs_prefs \<Rightarrow> gs_prefs" where
  "gs_prefs_set_themes values p = p\<lparr>p_themes := foldl (\<lambda>l v. l @ [v]) [] values\<rparr>"

definition gs_prefs_set_keyboard_command :: "string option \<Rightarrow> gs_prefs \<Rightarrow> gs_prefs" where
  "gs_prefs_set_keyboard_command value p = p\<lparr>p_keyboard_command := value\<rparr>"

definition gs_prefs_set_logout_command :: "string option \<Rightarrow> gs_prefs \<Rightarrow> gs_prefs" where
  "gs_prefs_set_logout_command value p = p\<lparr>p_logout_command := value\<rparr>"

definition gs_prefs_set_logout_timeout :: "int \<Rightarrow> gs_prefs \<Rightarrow> gs_prefs" where
  "gs_prefs_set_logout_timeout value p =
     (let value = (if value < 0 then 0 else value); value = (if value > 480 then 480 else value) in
      p\<lparr>p_logout_timeout := value * 60000\<rparr>)"

section \<open>Loading\<close>

definition gs_prefs_load_from_settings :: "pref_settings \<Rightarrow> gs_prefs \<Rightarrow> gs_prefs" where
  "gs_prefs_load_from_settings s p =
     (let settings = ps_settings s; lockdown = ps_lockdown_settings s; session = ps_session_settings s;
          p = p\<lparr>p_idle_activation_enabled := gset_boolean settings KEY_IDLE_ACTIVATION_ENABLED\<rparr>;
          p = p\<lparr>p_lock_enabled := gset_boolean settings KEY_LOCK_ENABLED\<rparr>;
          p = p\<lparr>p_lock_disabled := gset_boolean lockdown KEY_LOCK_DISABLE\<rparr>;
          p = p\<lparr>p_user_switch_disabled := gset_boolean lockdown KEY_USER_SWITCH_DISABLE\<rparr>;
          p = gs_prefs_set_timeout (gset_int session KEY_IDLE_DELAY) p;
          p = gs_prefs_set_power_timeout (gset_int settings KEY_POWER_DELAY) p;
          p = gs_prefs_set_lock_timeout (gset_int settings KEY_LOCK_DELAY) p;
          p = gs_prefs_set_cycle_timeout (gset_int settings KEY_CYCLE_DELAY) p;
          p = gs_prefs_set_mode (gset_enum settings KEY_MODE) p;
          p = gs_prefs_set_themes (gset_strv settings KEY_THEMES) p;
          p = p\<lparr>p_keyboard_enabled := gset_boolean settings KEY_KEYBOARD_ENABLED\<rparr>;
          p = gs_prefs_set_keyboard_command (Some (gset_string settings KEY_KEYBOARD_COMMAND)) p;
          p = p\<lparr>p_status_message_enabled := gset_boolean settings KEY_STATUS_MESSAGE_ENABLED\<rparr>;
          p = p\<lparr>p_logout_enabled := gset_boolean settings KEY_LOGOUT_ENABLED\<rparr>;
          p = gs_prefs_set_logout_command (Some (gset_string settings KEY_LOGOUT_COMMAND)) p;
          p = gs_prefs_set_logout_timeout (gset_int settings KEY_LOGOUT_DELAY) p in
      p\<lparr>p_user_switch_enabled := gset_boolean settings KEY_USER_SWITCH_ENABLED\<rparr>)"

text \<open>The signal ``changed'' at the end is emitted for every key.\<close>

definition key_changed_cb :: "gsettings \<Rightarrow> string \<Rightarrow> gs_prefs \<Rightarrow> gs_prefs" where
  "key_changed_cb settings key p =
     (if key = KEY_MODE then gs_prefs_set_mode (gset_enum settings key) p
      else if key = KEY_THEMES then gs_prefs_set_themes (gset_strv settings key) p
      else if key = KEY_IDLE_DELAY then gs_prefs_set_timeout (gset_int settings key) p
      else if key = KEY_POWER_DELAY then gs_prefs_set_power_timeout (gset_int settings key) p
      else if key = KEY_LOCK_DELAY then gs_prefs_set_lock_timeout (gset_int settings key) p
      else if key = KEY_IDLE_ACTIVATION_ENABLED then p\<lparr>p_idle_activation_enabled := gset_boolean settings key\<rparr>
      else if key = KEY_LOCK_ENABLED then p\<lparr>p_lock_enabled := gset_boolean settings key\<rparr>
      else if key = KEY_LOCK_DISABLE then p\<lparr>p_lock_disabled := gset_boolean settings key\<rparr>
      else if key = KEY_USER_SWITCH_DISABLE then p\<lparr>p_user_switch_disabled := gset_boolean settings key\<rparr>
      else if key = KEY_CYCLE_DELAY then gs_prefs_set_cycle_timeout (gset_int settings key) p
      else if key = KEY_KEYBOARD_ENABLED then p\<lparr>p_keyboard_enabled := gset_boolean settings key\<rparr>
      else if key = KEY_KEYBOARD_COMMAND then gs_prefs_set_keyboard_command (Some (gset_string settings key)) p
      else if key = KEY_STATUS_MESSAGE_ENABLED then p\<lparr>p_status_message_enabled := gset_boolean settings key\<rparr>
      else if key = KEY_LOGOUT_ENABLED then p\<lparr>p_logout_enabled := gset_boolean settings key\<rparr>
      else if key = KEY_LOGOUT_DELAY then gs_prefs_set_logout_timeout (gset_int settings key) p
      else if key = KEY_LOGOUT_COMMAND then gs_prefs_set_logout_command (Some (gset_string settings key)) p
      else if key = KEY_USER_SWITCH_ENABLED then p\<lparr>p_user_switch_enabled := gset_boolean settings key\<rparr>
      else p)"

definition gs_prefs_init :: "pref_settings \<Rightarrow> gs_prefs" where
  "gs_prefs_init s =
     gs_prefs_load_from_settings s
       \<lparr>p_idle_activation_enabled = True, p_lock_enabled = True, p_logout_enabled = False, p_lock_disabled = False,
        p_user_switch_disabled = False, p_user_switch_enabled = False, p_keyboard_enabled = False,
        p_status_message_enabled = False, p_power_timeout = 60000, p_timeout = 600000, p_lock_timeout = 0,
        p_logout_timeout = 14400000, p_cycle = 600000, p_logout_command = None, p_keyboard_command = None,
        p_themes = [], p_mode = GS_MODE_SINGLE\<rparr>"

section \<open>Properties\<close>

lemmas prefs_setter_defs =
  gs_prefs_set_timeout_def gs_prefs_set_power_timeout_def gs_prefs_set_lock_timeout_def gs_prefs_set_cycle_timeout_def
  gs_prefs_set_mode_def gs_prefs_set_themes_def gs_prefs_set_keyboard_command_def gs_prefs_set_logout_command_def
  gs_prefs_set_logout_timeout_def

text \<open>The delays, in milliseconds, that the rest of the daemon may rely on.\<close>

definition prefs_ok :: "gs_prefs \<Rightarrow> bool" where
  "prefs_ok p =
     (60000 \<le> p_timeout p \<and> p_timeout p \<le> 28800000 \<and> 1000 \<le> p_power_timeout p \<and> p_power_timeout p \<le> 480000
      \<and> 0 \<le> p_lock_timeout p \<and> p_lock_timeout p \<le> 28800000 \<and> 60000 \<le> p_cycle p \<and> p_cycle p \<le> 28800000
      \<and> 0 \<le> p_logout_timeout p \<and> p_logout_timeout p \<le> 28800000)"

lemma load_ok: "prefs_ok (gs_prefs_load_from_settings s p)"
  by (simp add: gs_prefs_load_from_settings_def prefs_setter_defs prefs_ok_def Let_def)

lemma key_changed_ok: "prefs_ok p \<Longrightarrow> prefs_ok (key_changed_cb settings key p)"
  unfolding key_changed_cb_def prefs_setter_defs Let_def
  by (simp add: prefs_ok_def split del: if_split) (simp split: if_split)

text \<open>
  Whatever is stored in the settings, and whichever keys change, in any order, the delays stay in
  their ranges: no delay is negative, none exceeds eight hours, and the idle and cycle delays are at
  least a minute, so none of them overflows the 32-bit counters they are kept in.
\<close>

theorem prefs_delays_bounded:
  "prefs_ok (fold (\<lambda>(settings, key). key_changed_cb settings key) changes (gs_prefs_init s))"
proof -
  have "prefs_ok p \<Longrightarrow> prefs_ok (fold (\<lambda>(settings, key). key_changed_cb settings key) changes p)" for p
    by (induction changes arbitrary: p) (auto intro: key_changed_ok)
  then show ?thesis by (simp add: gs_prefs_init_def load_ok)
qed

text \<open>Two states of the settings that differ in one key, and the object that holds a key.\<close>

definition same_but :: "string \<Rightarrow> gsettings \<Rightarrow> gsettings \<Rightarrow> bool" where
  "same_but key a b =
     (\<forall>k. k \<noteq> key \<longrightarrow> gset_boolean a k = gset_boolean b k \<and> gset_int a k = gset_int b k
        \<and> gset_enum a k = gset_enum b k \<and> gset_strv a k = gset_strv b k \<and> gset_string a k = gset_string b k)"

definition key_owner :: "string \<Rightarrow> pref_settings \<Rightarrow> gsettings" where
  "key_owner key s =
     (if key = KEY_LOCK_DISABLE \<or> key = KEY_USER_SWITCH_DISABLE then ps_lockdown_settings s
      else if key = KEY_IDLE_DELAY then ps_session_settings s else ps_settings s)"

definition pref_keys :: "string list" where
  "pref_keys =
    [KEY_MODE, KEY_THEMES, KEY_IDLE_DELAY, KEY_POWER_DELAY, KEY_LOCK_DELAY, KEY_IDLE_ACTIVATION_ENABLED,
     KEY_LOCK_ENABLED, KEY_LOCK_DISABLE, KEY_USER_SWITCH_DISABLE, KEY_CYCLE_DELAY, KEY_KEYBOARD_ENABLED, KEY_KEYBOARD_COMMAND,
     KEY_STATUS_MESSAGE_ENABLED, KEY_LOGOUT_ENABLED, KEY_LOGOUT_DELAY, KEY_LOGOUT_COMMAND, KEY_USER_SWITCH_ENABLED]"

lemma pref_keys_distinct: "distinct pref_keys"
  unfolding pref_keys_def key_defs by code_simp

lemma pref_keys_distinct_rev: "distinct (rev pref_keys)"
  using pref_keys_distinct by simp

lemmas key_neq =
  pref_keys_distinct [unfolded pref_keys_def, simplified]
  pref_keys_distinct_rev [unfolded pref_keys_def, simplified]

lemma same_but_eq:
  assumes "same_but key a b"
  shows "k \<noteq> key \<Longrightarrow> gset_boolean b k = gset_boolean a k" "k \<noteq> key \<Longrightarrow> gset_int b k = gset_int a k"
    "k \<noteq> key \<Longrightarrow> gset_enum b k = gset_enum a k" "k \<noteq> key \<Longrightarrow> gset_strv b k = gset_strv a k"
    "k \<noteq> key \<Longrightarrow> gset_string b k = gset_string a k"
  using assms by (simp_all add: same_but_def)

text \<open>All fields of the loaded preferences.\<close>

definition delay :: "int \<Rightarrow> int \<Rightarrow> int \<Rightarrow> int" where
  "delay low dflt value = (let value = (if value < low then dflt else value) in if value > 480 then 480 else value)"

lemma setters_delay:
  "gs_prefs_set_timeout v p = p\<lparr>p_timeout := delay 1 10 v * 60000\<rparr>"
  "gs_prefs_set_power_timeout v p = p\<lparr>p_power_timeout := delay 1 60 v * 1000\<rparr>"
  "gs_prefs_set_lock_timeout v p = p\<lparr>p_lock_timeout := delay 0 0 v * 60000\<rparr>"
  "gs_prefs_set_cycle_timeout v p = p\<lparr>p_cycle := delay 1 1 v * 60000\<rparr>"
  "gs_prefs_set_logout_timeout v p = p\<lparr>p_logout_timeout := delay 0 0 v * 60000\<rparr>"
  by (simp_all add: prefs_setter_defs delay_def Let_def)

lemma load_eq:
  "gs_prefs_load_from_settings s p =
     (let a = ps_settings s; l = ps_lockdown_settings s in
     \<lparr>p_idle_activation_enabled = gset_boolean a KEY_IDLE_ACTIVATION_ENABLED,
      p_lock_enabled = gset_boolean a KEY_LOCK_ENABLED, p_logout_enabled = gset_boolean a KEY_LOGOUT_ENABLED,
      p_lock_disabled = gset_boolean l KEY_LOCK_DISABLE, p_user_switch_disabled = gset_boolean l KEY_USER_SWITCH_DISABLE,
      p_user_switch_enabled = gset_boolean a KEY_USER_SWITCH_ENABLED, p_keyboard_enabled = gset_boolean a KEY_KEYBOARD_ENABLED,
      p_status_message_enabled = gset_boolean a KEY_STATUS_MESSAGE_ENABLED,
      p_power_timeout = delay 1 60 (gset_int a KEY_POWER_DELAY) * 1000,
      p_timeout = delay 1 10 (gset_int (ps_session_settings s) KEY_IDLE_DELAY) * 60000,
      p_lock_timeout = delay 0 0 (gset_int a KEY_LOCK_DELAY) * 60000,
      p_logout_timeout = delay 0 0 (gset_int a KEY_LOGOUT_DELAY) * 60000,
      p_cycle = delay 1 1 (gset_int a KEY_CYCLE_DELAY) * 60000,
      p_logout_command = Some (gset_string a KEY_LOGOUT_COMMAND), p_keyboard_command = Some (gset_string a KEY_KEYBOARD_COMMAND),
      p_themes = foldl (\<lambda>l v. l @ [v]) [] (gset_strv a KEY_THEMES), p_mode = gset_enum a KEY_MODE\<rparr>)"
  by (simp add: gs_prefs_load_from_settings_def setters_delay gs_prefs_set_mode_def gs_prefs_set_themes_def
      gs_prefs_set_keyboard_command_def gs_prefs_set_logout_command_def Let_def)

text \<open>
  C31: handling the change of one key is the same as reading all preferences again: the daemon's view
  never drifts from the settings, whichever key changes and whichever of the three schemas holds it.
\<close>

theorem key_changed_is_reload:
  assumes "same_but key (ps_settings s) (ps_settings s')"
    and "same_but key (ps_lockdown_settings s) (ps_lockdown_settings s')"
    and "same_but key (ps_session_settings s) (ps_session_settings s')"
  shows "key_changed_cb (key_owner key s') key (gs_prefs_load_from_settings s p) = gs_prefs_load_from_settings s' p"
proof -
  note eqs = same_but_eq [OF assms(1)] same_but_eq [OF assms(2)] same_but_eq [OF assms(3)]
  note defs = key_changed_cb_def load_eq key_owner_def setters_delay gs_prefs_set_mode_def gs_prefs_set_themes_def
    gs_prefs_set_keyboard_command_def gs_prefs_set_logout_command_def Let_def
  show ?thesis
  proof (cases "key \<in> set pref_keys")
    case False
    then show ?thesis by (simp add: defs pref_keys_def eqs [OF not_sym])
  next
    case True
    then consider "key = KEY_MODE"
      | "key = KEY_THEMES"
      | "key = KEY_IDLE_DELAY"
      | "key = KEY_POWER_DELAY"
      | "key = KEY_LOCK_DELAY"
      | "key = KEY_IDLE_ACTIVATION_ENABLED"
      | "key = KEY_LOCK_ENABLED"
      | "key = KEY_LOCK_DISABLE"
      | "key = KEY_USER_SWITCH_DISABLE"
      | "key = KEY_CYCLE_DELAY"
      | "key = KEY_KEYBOARD_ENABLED"
      | "key = KEY_KEYBOARD_COMMAND"
      | "key = KEY_STATUS_MESSAGE_ENABLED"
      | "key = KEY_LOGOUT_ENABLED"
      | "key = KEY_LOGOUT_DELAY"
      | "key = KEY_LOGOUT_COMMAND"
      | "key = KEY_USER_SWITCH_ENABLED"
      by (auto simp: pref_keys_def)
    then show ?thesis by cases (simp_all add: defs key_neq eqs)
  qed
qed

definition sample_gsettings :: gsettings where
  "sample_gsettings = \<lparr>gset_boolean = (\<lambda>_. True), gset_int = (\<lambda>_. 5), gset_enum = (\<lambda>_. GS_MODE_RANDOM),
     gset_strv = (\<lambda>_. [''cosmos'']), gset_string = (\<lambda>_. [])\<rparr>"

definition sample_pref_settings :: "bool \<Rightarrow> pref_settings" where
  "sample_pref_settings b =
     \<lparr>ps_settings = sample_gsettings,
      ps_lockdown_settings = sample_gsettings\<lparr>gset_boolean := (\<lambda>_. True)(KEY_LOCK_DISABLE := b)\<rparr>,
      ps_session_settings = sample_gsettings\<rparr>"

theorem key_changed_is_reload_witness:
  "key_changed_cb (ps_lockdown_settings (sample_pref_settings False)) KEY_LOCK_DISABLE (gs_prefs_init (sample_pref_settings True))
   = gs_prefs_init (sample_pref_settings False)
   \<and> p_lock_disabled (gs_prefs_init (sample_pref_settings True)) \<and> \<not> p_lock_disabled (gs_prefs_init (sample_pref_settings False))"
proof -
  let ?s = "sample_pref_settings True" and ?s' = "sample_pref_settings False"
  have "same_but KEY_LOCK_DISABLE (ps_settings ?s) (ps_settings ?s')"
    "same_but KEY_LOCK_DISABLE (ps_lockdown_settings ?s) (ps_lockdown_settings ?s')"
    "same_but KEY_LOCK_DISABLE (ps_session_settings ?s) (ps_session_settings ?s')"
    by (simp_all add: sample_pref_settings_def same_but_def)
  note r = key_changed_is_reload [OF this]
  have "key_owner KEY_LOCK_DISABLE ?s' = ps_lockdown_settings ?s'" by (simp add: key_owner_def)
  then show ?thesis using r by (simp add: gs_prefs_init_def, simp add: load_eq sample_pref_settings_def)
qed

end
