(* ===== verification/GS_Theme.thy ===== *)
theory GS_Theme
  imports Prelude
begin

text \<open>
  \<open>src/gs-theme-manager.c\<close>: looking up a screensaver theme in the menu tree and checking that its
  program is one of the installed screensavers.  The menu library, GLib's path functions and the
  file system are parameters.
\<close>

record gs_theme_info =
  ti_name :: string
  ti_exec :: "string option"
  ti_file_id :: "string option"
  ti_refcount :: nat

datatype tree_item =
    Tree_Entry "string option" string "string option" \<comment> \<open>desktop file id, name, command line\<close>
  | Tree_Other

record theme_env =
  te_known_engine_locations :: "string list"
  te_is_absolute :: "string \<Rightarrow> bool"
  te_dirname :: "string \<Rightarrow> string"
  te_build_filename :: "string \<Rightarrow> string \<Rightarrow> string"
  te_is_executable :: "string \<Rightarrow> bool"
  te_is_dir :: "string \<Rightarrow> bool"
  te_parse_argv :: "string \<Rightarrow> string list option"
  te_menu_root :: "tree_item list option"

section \<open>Programs\<close>

primrec find_absolute :: "theme_env \<Rightarrow> string \<Rightarrow> string \<Rightarrow> string list \<Rightarrow> string option" where
  "find_absolute te command dirname [] = None"
| "find_absolute te command dirname (loc # locs) =
     (if dirname = loc \<and> te_is_executable te command \<and> \<not> te_is_dir te command then Some command
      else find_absolute te command dirname locs)"

primrec find_relative :: "theme_env \<Rightarrow> string \<Rightarrow> string list \<Rightarrow> string option" where
  "find_relative te command [] = None"
| "find_relative te command (loc # locs) =
     (let path = te_build_filename te loc command in
      if te_is_executable te path \<and> \<not> te_is_dir te path then Some path
      else find_relative te command locs)"

definition find_command :: "theme_env \<Rightarrow> string \<Rightarrow> string option" where
  "find_command te command =
     (if te_is_absolute te command
      then find_absolute te command (te_dirname te command) (te_known_engine_locations te)
      else find_relative te command (te_known_engine_locations te))"

text \<open>
  \<open>argv\<close> is not initialised, and the result of \<open>g_shell_parse_argv\<close> is not looked at: a command
  line that does not parse leaves it unset.
\<close>

definition check_command :: "theme_env \<Rightarrow> string option \<Rightarrow> bool res" where
  "check_command te command =
     (case command of
        None \<Rightarrow> ret False
      | Some c \<Rightarrow>
          (case te_parse_argv te c of
             None \<Rightarrow> Inl Uninit_Read
           | Some [] \<Rightarrow> Inl Null_Deref
           | Some (prog # args) \<Rightarrow> ret (find_command te prog \<noteq> None)))"

definition gs_theme_info_get_exec :: "theme_env \<Rightarrow> gs_theme_info \<Rightarrow> string option res" where
  "gs_theme_info_get_exec te info =
     rbind (check_command te (ti_exec info)) (\<lambda>ok. ret (if ok then ti_exec info else None))"

text \<open>The new search path: the locations that exist are appended, once.\<close>

primrec append_locations :: "theme_env \<Rightarrow> string list \<Rightarrow> string \<Rightarrow> string" where
  "append_locations te [] str = str"
| "append_locations te (loc # locs) str =
     append_locations te locs (if te_is_dir te loc then str @ '':'' @ loc else str)"

definition add_known_engine_locations_to_path :: "theme_env \<Rightarrow> bool \<times> string \<Rightarrow> bool \<times> string" where
  "add_known_engine_locations_to_path te st =
     (case st of (already_added, path) \<Rightarrow>
        if already_added then (already_added, path)
        else (True, append_locations te (te_known_engine_locations te) path))"

section \<open>Theme records\<close>

definition gs_theme_info_ref :: "gs_theme_info \<Rightarrow> gs_theme_info option" where
  "gs_theme_info_ref info =
     (if 0 < ti_refcount info then Some (info\<lparr>ti_refcount := Suc (ti_refcount info)\<rparr>) else None)"

text \<open>\<open>None\<close>: the record is freed.\<close>

definition gs_theme_info_unref :: "gs_theme_info \<Rightarrow> gs_theme_info option" where
  "gs_theme_info_unref info =
     (if \<not> 0 < ti_refcount info then Some info
      else if ti_refcount info = 1 then None
      else Some (info\<lparr>ti_refcount := ti_refcount info - 1\<rparr>))"

text \<open>\<open>g_strrstr\<close>: the part before the last occurrence.\<close>

fun before_last :: "string \<Rightarrow> string \<Rightarrow> string option" where
  "before_last [] p = (if p = [] then Some [] else None)"
| "before_last (c # cs) p =
     (case before_last cs p of
        Some pre \<Rightarrow> Some (c # pre)
      | None \<Rightarrow> if has_prefix p (c # cs) then Some [] else None)"

text \<open>A desktop file id of NULL is passed to \<open>g_strrstr\<close>, which gives NULL, and copied as NULL.\<close>

definition gs_theme_info_new_from_matemenu_tree_entry ::
  "string option \<Rightarrow> string \<Rightarrow> string option \<Rightarrow> gs_theme_info" where
  "gs_theme_info_new_from_matemenu_tree_entry desktop_file_id name commandline =
     \<lparr>ti_name = name, ti_exec = commandline,
      ti_file_id =
        (case desktop_file_id of
           None \<Rightarrow> None
         | Some str \<Rightarrow> Some (case before_last str ''.desktop'' of Some pre \<Rightarrow> pre | None \<Rightarrow> str)),
      ti_refcount = 1\<rparr>"

fun find_in_items :: "string \<Rightarrow> gs_theme_info option \<Rightarrow> tree_item list \<Rightarrow> gs_theme_info option" where
  "find_in_items ident info [] = info"
| "find_in_items ident info (Tree_Other # items) = find_in_items ident info items"
| "find_in_items ident info (Tree_Entry file_id name exec # items) =
     (if info = None \<and> file_id \<noteq> None \<and> the file_id = ident
      then find_in_items ident (Some (gs_theme_info_new_from_matemenu_tree_entry file_id name exec)) items
      else find_in_items ident info items)"

definition find_info_for_id :: "theme_env \<Rightarrow> string \<Rightarrow> gs_theme_info option" where
  "find_info_for_id te ident =
     (case te_menu_root te of None \<Rightarrow> None | Some items \<Rightarrow> find_in_items ident None items)"

definition gs_theme_manager_lookup_theme_info :: "theme_env \<Rightarrow> string \<Rightarrow> gs_theme_info option" where
  "gs_theme_manager_lookup_theme_info te name = find_info_for_id te (name @ ''.desktop'')"

fun make_theme_list :: "tree_item list \<Rightarrow> gs_theme_info list" where
  "make_theme_list [] = []"
| "make_theme_list (Tree_Other # items) = make_theme_list items"
| "make_theme_list (Tree_Entry file_id name exec # items) =
     gs_theme_info_new_from_matemenu_tree_entry file_id name exec # make_theme_list items"

definition gs_theme_manager_get_info_list :: "theme_env \<Rightarrow> gs_theme_info list" where
  "gs_theme_manager_get_info_list te =
     (case te_menu_root te of None \<Rightarrow> [] | Some items \<Rightarrow> make_theme_list items)"

section \<open>Lemmas\<close>

text \<open>
  What \<open>check_command\<close> takes for granted of the themes of the menu: their command lines parse, to at
  least the name of a program.  Nothing is asked of other strings; \<open>g_shell_parse_argv\<close> fails on empty
  lines and on unbalanced quotes.
\<close>

definition command_parses :: "theme_env \<Rightarrow> string \<Rightarrow> bool" where
  "command_parses te c = (case te_parse_argv te c of Some (prog # args) \<Rightarrow> True | _ \<Rightarrow> False)"

fun item_parses :: "theme_env \<Rightarrow> tree_item \<Rightarrow> bool" where
  "item_parses te (Tree_Entry file_id name (Some c)) = command_parses te c"
| "item_parses te item = True"

definition themes_parse :: "theme_env \<Rightarrow> bool" where
  "themes_parse te = (case te_menu_root te of None \<Rightarrow> True | Some items \<Rightarrow> \<forall>item \<in> set items. item_parses te item)"

lemma before_last_None: "before_last s p = None \<longleftrightarrow> strstr s p = None"
  by (induction s) (auto split: option.splits)

lemma before_last_suffix:
  assumes "p \<noteq> []" "strstr (drop 1 p) p = None"
  shows "before_last (s @ p) p = Some s"
proof (induction s)
  case Nil
  obtain c cs where p: "p = c # cs" using assms(1) by (cases p) auto
  have "before_last cs p = None" using assms(2) p by (simp add: before_last_None)
  then show ?case using p has_prefix_append [of p "[]"] by simp
next
  case (Cons c s)
  then show ?case by simp
qed

lemma find_in_items_Some:
  "find_in_items ident info items = Some i \<Longrightarrow>
     info = Some i \<or> (\<exists>name exec. Tree_Entry (Some ident) name exec \<in> set items
        \<and> i = gs_theme_info_new_from_matemenu_tree_entry (Some ident) name exec)"
proof (induction ident info items rule: find_in_items.induct)
  case (3 ident info file_id name exec items)
  then show ?case by (cases "info = None \<and> file_id = Some ident") (auto split: if_splits)
qed auto

lemma lookup_exec_returns:
  assumes "themes_parse te" "gs_theme_manager_lookup_theme_info te name = Some info"
  shows "\<exists>c. gs_theme_info_get_exec te info = Inr c"
proof -
  obtain items where root: "te_menu_root te = Some items"
    and f: "find_in_items (name @ ''.desktop'') None items = Some info"
    using assms(2) by (auto simp: gs_theme_manager_lookup_theme_info_def find_info_for_id_def split: option.splits)
  obtain n ex where e: "Tree_Entry (Some (name @ ''.desktop'')) n ex \<in> set items" "ti_exec info = ex"
    using find_in_items_Some [OF f] by (auto simp: gs_theme_info_new_from_matemenu_tree_entry_def)
  have "item_parses te (Tree_Entry (Some (name @ ''.desktop'')) n ex)" using assms(1) root e(1) by (simp add: themes_parse_def)
  then show ?thesis
    using e(2) by (cases ex) (auto simp: gs_theme_info_get_exec_def check_command_def command_parses_def
        split: option.splits list.splits)
qed

lemma find_absolute_Some:
  "find_absolute te c d locs = Some p \<Longrightarrow> p = c \<and> d \<in> set locs \<and> te_is_executable te p \<and> \<not> te_is_dir te p"
  by (induction locs) (auto split: if_splits)

lemma find_relative_Some:
  "find_relative te c locs = Some p \<Longrightarrow>
     (\<exists>loc \<in> set locs. p = te_build_filename te loc c) \<and> te_is_executable te p \<and> \<not> te_is_dir te p"
  by (induction locs) (auto simp: Let_def split: if_splits)

section \<open>Properties\<close>

text \<open>
  Looking up a theme by its name yields a theme of the menu with that very name as its id: the
  suffix added for the lookup is the one taken off again.
\<close>

theorem lookup_theme_roundtrip:
  assumes "gs_theme_manager_lookup_theme_info te name = Some info"
  shows "ti_file_id info = Some name \<and> info \<in> set (gs_theme_manager_get_info_list te)"
proof -
  obtain items where root: "te_menu_root te = Some items"
    and f: "find_in_items (name @ ''.desktop'') None items = Some info"
    using assms by (auto simp: gs_theme_manager_lookup_theme_info_def find_info_for_id_def split: option.splits)
  obtain n ex where e: "Tree_Entry (Some (name @ ''.desktop'')) n ex \<in> set items"
      "info = gs_theme_info_new_from_matemenu_tree_entry (Some (name @ ''.desktop'')) n ex"
    using find_in_items_Some [OF f] by auto
  have "before_last (name @ ''.desktop'') ''.desktop'' = Some name"
    by (rule before_last_suffix) simp_all
  then have "ti_file_id info = Some name"
    using e(2) by (simp add: gs_theme_info_new_from_matemenu_tree_entry_def)
  moreover have "info \<in> set (make_theme_list items)"
    using e by (induction items rule: make_theme_list.induct) auto
  ultimately show ?thesis using root by (simp add: gs_theme_manager_get_info_list_def)
qed

text \<open>A parser for command lines without quotes: the words between the blanks, at least one.\<close>

fun blank_words :: "string \<Rightarrow> string \<Rightarrow> string list" where
  "blank_words w [] = (if w = [] then [] else [w])"
| "blank_words w (c # cs) =
     (if c = CHR '' '' then (if w = [] then [] else [w]) @ blank_words [] cs else blank_words (w @ [c]) cs)"

definition sample_parse_argv :: "string \<Rightarrow> string list option" where
  "sample_parse_argv c =
     (if CHR 0x22 \<in> set c \<or> CHR 0x27 \<in> set c \<or> CHR 0x5C \<in> set c \<or> blank_words [] c = [] then None
      else Some (blank_words [] c))"

definition sample_themes :: theme_env where
  "sample_themes =
     \<lparr>te_known_engine_locations = [''/usr/lib/x''], te_is_absolute = (\<lambda>c. has_prefix ''/'' c),
      te_dirname = (\<lambda>_. ''/usr/lib/x''), te_build_filename = (\<lambda>d c. d @ ''/'' @ c),
      te_is_executable = (\<lambda>p. p = ''/usr/lib/x/cube''), te_is_dir = (\<lambda>_. False),
      te_parse_argv = sample_parse_argv,
      te_menu_root = Some [Tree_Other, Tree_Entry (Some ''cube.desktop'') ''Cube'' (Some ''cube'')]\<rparr>"

lemma sample_themes_parse: "themes_parse sample_themes"
  by (simp add: themes_parse_def sample_themes_def command_parses_def sample_parse_argv_def)

theorem lookup_theme_roundtrip_witness:
  "\<exists>info. gs_theme_manager_lookup_theme_info sample_themes ''cube'' = Some info \<and> ti_file_id info = Some ''cube''"
proof -
  obtain info where i: "gs_theme_manager_lookup_theme_info sample_themes ''cube'' = Some info"
    by (simp add: gs_theme_manager_lookup_theme_info_def find_info_for_id_def sample_themes_def)
  then show ?thesis using lookup_theme_roundtrip [OF i] by blast
qed

text \<open>
  Only installed screensavers are run.  A theme yields a command only if the command line
  parses and its program is an executable file, not a directory, that lies in one of the known
  directories or is reached from one of them.
\<close>

theorem theme_exec_is_known:
  assumes "gs_theme_info_get_exec te info = Inr (Some c)"
  shows "ti_exec info = Some c \<and> (\<exists>prog args path. te_parse_argv te c = Some (prog # args)
       \<and> te_is_executable te path \<and> \<not> te_is_dir te path
       \<and> (if te_is_absolute te prog then path = prog \<and> te_dirname te prog \<in> set (te_known_engine_locations te)
          else \<exists>loc \<in> set (te_known_engine_locations te). path = te_build_filename te loc prog))"
proof -
  obtain prog args path where p: "ti_exec info = Some c" "te_parse_argv te c = Some (prog # args)"
      "find_command te prog = Some path"
    using assms by (auto simp: gs_theme_info_get_exec_def check_command_def res_simps
        split: option.splits list.splits if_splits)
  show ?thesis
    using p(1,2) p(3) find_absolute_Some [of te prog "te_dirname te prog" "te_known_engine_locations te" path]
      find_relative_Some [of te prog "te_known_engine_locations te" path]
    by (auto simp: find_command_def split: if_splits)
qed

theorem theme_exec_is_known_witness:
  "\<exists>prog args path. te_parse_argv sample_themes ''cube'' = Some (prog # args) \<and> te_is_executable sample_themes path"
proof -
  have "gs_theme_info_get_exec sample_themes \<lparr>ti_name = ''Cube'', ti_exec = Some ''cube'', ti_file_id = Some ''cube'', ti_refcount = 1\<rparr>
      = Inr (Some ''cube'')"
    by (simp add: gs_theme_info_get_exec_def check_command_def find_command_def sample_themes_def sample_parse_argv_def)
  from theme_exec_is_known [OF this] show ?thesis by blast
qed

end
