(* ===== verification/GS_Job.thy ===== *)
theory GS_Job
  imports Prelude
begin

text \<open>
  \<open>src/gs-job.c\<close> and \<open>src/subprocs.c\<close>: starting, suspending and stopping the screensaver program of
  a window.  GLib's process spawning, the settings and the behaviour of the child are parameters.
  The record carries two facts about the child that the kernel keeps: whether it is stopped and
  whether a SIGTERM was sent to it.  Waiting for a child that never exits is the fault
  \<open>No_Return\<close>.
\<close>

datatype gs_job_status = GS_JOB_INVALID | GS_JOB_RUNNING | GS_JOB_STOPPED | GS_JOB_KILLED | GS_JOB_DEAD

datatype proc_signal = SIGTERM | SIGSTOP | SIGCONT

record gs_job =
  j_widget :: "nat option"
  j_status :: gs_job_status
  j_pid :: int
  j_watch_id :: bool
  j_command :: "string option"
  j_child_stopped :: bool
  j_child_term :: bool

text \<open>
  The surroundings: shell parsing, spawning (the pid, or \<open>None\<close>), the environment variables, the
  settings dictionary of extra arguments, the trial run with \<open>--help\<close>, and whether a child that is
  not stopped exits, without and after a SIGTERM.
\<close>

record proc_env =
  pe_parse_argv :: "string \<Rightarrow> string list option"
  pe_spawn :: "string list \<Rightarrow> string list \<Rightarrow> int option"
  pe_display :: string
  pe_home :: string
  pe_getenv :: "string \<Rightarrow> string option"
  pe_basename :: "string \<Rightarrow> string"
  pe_saved_args :: "string \<Rightarrow> string option"
  pe_test_run :: "string \<Rightarrow> bool"
  pe_xid :: "nat \<Rightarrow> nat"
  pe_exits :: "int \<Rightarrow> bool \<Rightarrow> bool"

section \<open>Signals (subprocs.c)\<close>

text \<open>
  \<open>block_sigchld\<close> and \<open>unblock_sigchld\<close> count; \<open>signal_pid\<close> aborts when it is called with signals
  blocked.  The result is the counter it leaves.
\<close>

definition block_sigchld :: "int \<Rightarrow> int" where "block_sigchld n = n + 1"
definition unblock_sigchld :: "int \<Rightarrow> int" where "unblock_sigchld n = n - 1"

definition signal_pid :: "int \<Rightarrow> int res" where
  "signal_pid block_sigchld_handler =
     (if block_sigchld_handler \<noteq> 0 then Inl Abort_Called
      else
        (let b = unblock_sigchld (block_sigchld block_sigchld_handler) in
         if b < 0 then Inl Abort_Called else ret b))"

lemma signal_pid_0 [simp]: "signal_pid 0 = Inr 0"
  by (simp add: signal_pid_def block_sigchld_def unblock_sigchld_def)

text \<open>
  Sending a signal to the child of a job: in the daemon the counter is zero outside of
  \<open>signal_pid\<close>.
\<close>

definition kill_child :: "proc_signal \<Rightarrow> gs_job \<Rightarrow> gs_job res" where
  "kill_child sig j =
     rbind (signal_pid 0) (\<lambda>_.
     ret (case sig of
            SIGTERM \<Rightarrow> j\<lparr>j_child_term := True\<rparr>
          | SIGSTOP \<Rightarrow> j\<lparr>j_child_stopped := True\<rparr>
          | SIGCONT \<Rightarrow> j\<lparr>j_child_stopped := False\<rparr>))"

section \<open>Child processes\<close>

definition wait_on_child :: "proc_env \<Rightarrow> gs_job \<Rightarrow> unit res" where
  "wait_on_child pe j =
     (if \<not> j_child_stopped j \<and> pe_exits pe (j_pid j) (j_child_term j) then ret () else Inl No_Return)"

definition gs_job_died :: "proc_env \<Rightarrow> gs_job \<Rightarrow> gs_job res" where
  "gs_job_died pe j =
     rbind (if 0 < j_pid j then rbind (wait_on_child pe j) (\<lambda>_. ret (j\<lparr>j_status := GS_JOB_DEAD\<rparr>))
            else ret j) (\<lambda>j.
     ret (j\<lparr>j_pid := 0\<rparr>))"

fun hex_digits :: "nat \<Rightarrow> string" where
  "hex_digits n =
     (let d = ''0123456789ABCDEF'' ! (n mod 16) in
      if n < 16 then [d] else hex_digits (n div 16) @ [d])"

definition widget_get_id_string :: "proc_env \<Rightarrow> nat \<Rightarrow> string" where
  "widget_get_id_string pe widget = ''0x'' @ hex_digits (pe_xid pe widget mod 2 ^ 32)"

definition allowed_env_vars :: "string list" where
  "allowed_env_vars =
     [''PATH'', ''SESSION_MANAGER'', ''XAUTHORITY'', ''XAUTHLOCALHOSTNAME'', ''LANG'', ''LANGUAGE'',
      ''DBUS_SESSION_BUS_ADDRESS'']"

primrec add_env_vars :: "proc_env \<Rightarrow> string list \<Rightarrow> string list" where
  "add_env_vars pe [] = []"
| "add_env_vars pe (var # vars) =
     (case pe_getenv pe var of
        None \<Rightarrow> add_env_vars pe vars
      | Some val \<Rightarrow> (var @ ''='' @ val) # add_env_vars pe vars)"

definition get_env_vars :: "proc_env \<Rightarrow> nat \<Rightarrow> string list" where
  "get_env_vars pe widget =
     [''DISPLAY='' @ pe_display pe, ''HOME='' @ pe_home pe] @ add_env_vars pe allowed_env_vars
     @ [''XSCREENSAVER_WINDOW='' @ widget_get_id_string pe widget]"

text \<open>The pid of the child and whether a watch was added; \<open>None\<close> for the return value FALSE.\<close>

definition spawn_on_widget :: "proc_env \<Rightarrow> nat \<Rightarrow> string option \<Rightarrow> int option" where
  "spawn_on_widget pe widget command =
     (case command of
        None \<Rightarrow> None
      | Some c \<Rightarrow>
          (case pe_parse_argv pe c of
             None \<Rightarrow> None
           | Some argv \<Rightarrow> pe_spawn pe argv (get_env_vars pe widget)))"

section \<open>Jobs\<close>

definition gs_job_new :: gs_job where
  "gs_job_new = \<lparr>j_widget = None, j_status = GS_JOB_INVALID, j_pid = 0, j_watch_id = False,
                 j_command = None, j_child_stopped = False, j_child_term = False\<rparr>"

definition gs_job_is_running :: "gs_job \<Rightarrow> bool" where
  "gs_job_is_running j = (0 < j_pid j)"

definition gs_job_set_command :: "string option \<Rightarrow> gs_job \<Rightarrow> gs_job" where
  "gs_job_set_command command j = j\<lparr>j_command := command\<rparr>"

text \<open>The command with the configured arguments, if the program accepts them.\<close>

definition final_command :: "proc_env \<Rightarrow> string \<Rightarrow> string" where
  "final_command pe command =
     (case pe_parse_argv pe command of
        None \<Rightarrow> command
      | Some argv \<Rightarrow>
          (case pe_saved_args pe (pe_basename pe (hd argv)) of
             None \<Rightarrow> command
           | Some args \<Rightarrow>
               if args \<noteq> [] \<and> pe_test_run pe (command @ '' '' @ args @ '' --help'')
               then command @ '' '' @ args else command))"

definition gs_job_start :: "proc_env \<Rightarrow> gs_job \<Rightarrow> bool \<times> gs_job" where
  "gs_job_start pe j =
     (if j_pid j \<noteq> 0 then (False, j)
      else
        (case j_widget j of
           None \<Rightarrow> (False, j)
         | Some widget \<Rightarrow>
             (case j_command j of
                None \<Rightarrow> (False, j)
              | Some command \<Rightarrow>
                  (case spawn_on_widget pe widget (Some (final_command pe command)) of
                     None \<Rightarrow> (False, j)
                   | Some pid \<Rightarrow>
                       (True, j\<lparr>j_pid := pid, j_watch_id := True, j_status := GS_JOB_RUNNING,
                                j_child_stopped := False, j_child_term := False\<rparr>)))))"

definition remove_command_watch :: "gs_job \<Rightarrow> gs_job" where
  "remove_command_watch j = (if j_watch_id j then j\<lparr>j_watch_id := False\<rparr> else j)"

definition gs_job_suspend :: "bool \<Rightarrow> gs_job \<Rightarrow> (bool \<times> gs_job) res" where
  "gs_job_suspend suspend j =
     (if j_pid j = 0 then ret (False, j)
      else
        rbind (kill_child (if suspend then SIGSTOP else SIGCONT) j) (\<lambda>j.
        ret (True, j\<lparr>j_status := (if suspend then GS_JOB_STOPPED else GS_JOB_RUNNING)\<rparr>)))"

definition gs_job_stop :: "proc_env \<Rightarrow> gs_job \<Rightarrow> (bool \<times> gs_job) res" where
  "gs_job_stop pe j =
     (if j_pid j = 0 then ret (False, j)
      else
        rbind (if j_status j = GS_JOB_STOPPED then
                 rbind (gs_job_suspend False j) (\<lambda>(_, j). ret j)
               else ret j) (\<lambda>j.
        rbind (kill_child SIGTERM (remove_command_watch j)) (\<lambda>j.
        rbind (gs_job_died pe (j\<lparr>j_status := GS_JOB_KILLED\<rparr>)) (\<lambda>j.
        ret (True, j)))))"

definition gs_job_set_widget :: "proc_env \<Rightarrow> nat option \<Rightarrow> gs_job \<Rightarrow> gs_job res" where
  "gs_job_set_widget pe widget j =
     (if widget \<noteq> j_widget j then
        (let j = j\<lparr>j_widget := widget\<rparr> in
         if gs_job_is_running j then
           rbind (gs_job_stop pe j) (\<lambda>(_, j). ret (snd (gs_job_start pe j)))
         else ret j)
      else ret j)"

definition gs_job_new_for_widget :: "proc_env \<Rightarrow> nat \<Rightarrow> gs_job res" where
  "gs_job_new_for_widget pe widget = gs_job_set_widget pe (Some widget) gs_job_new"

text \<open>
  The watch on the child's standard error.  A wake-up carries input with the outcome of reading a
  line, or a hang-up, or something else; the result says whether the watch stays.
\<close>

datatype io_status = IO_NORMAL | IO_EOF | IO_AGAIN | IO_ERROR
datatype io_condition = Cond_In io_status | Cond_Hup | Cond_Other

definition command_watch :: "proc_env \<Rightarrow> io_condition \<Rightarrow> gs_job \<Rightarrow> (bool \<times> gs_job) res" where
  "command_watch pe condition j =
     (if condition = Cond_In IO_EOF \<or> condition = Cond_Hup then
        rbind (gs_job_died pe j) (\<lambda>j. ret (False, j\<lparr>j_watch_id := False\<rparr>))
      else ret (True, j))"

definition gs_job_finalize :: "proc_env \<Rightarrow> gs_job \<Rightarrow> gs_job res" where
  "gs_job_finalize pe j =
     rbind (if 0 < j_pid j then rbind (kill_child SIGTERM j) (gs_job_died pe) else ret j) (\<lambda>j.
     ret (j\<lparr>j_command := None\<rparr>))"

section \<open>Invariant\<close>

text \<open>
  A job has a child exactly when it is in a running or stopped state; the recorded state is the
  state of the child; and a watch belongs to a child.
\<close>

definition job_ok :: "gs_job \<Rightarrow> bool" where
  "job_ok j =
     (0 \<le> j_pid j
      \<and> (0 < j_pid j \<longleftrightarrow> j_status j = GS_JOB_RUNNING \<or> j_status j = GS_JOB_STOPPED)
      \<and> (0 < j_pid j \<longrightarrow> j_child_stopped j = (j_status j = GS_JOB_STOPPED) \<and> \<not> j_child_term j)
      \<and> (j_watch_id j \<longrightarrow> 0 < j_pid j))"

text \<open>Spawning yields positive process ids, and children exit when they are asked to.\<close>

definition spawn_ok :: "proc_env \<Rightarrow> bool" where
  "spawn_ok pe = (\<forall>argv env pid. pe_spawn pe argv env = Some pid \<longrightarrow> 0 < pid)"

definition children_obey :: "proc_env \<Rightarrow> bool" where
  "children_obey pe = (\<forall>pid. pe_exits pe pid True)"

lemma job_ok_new [inv_intros, simp]: "job_ok gs_job_new"
  by (simp add: job_ok_def gs_job_new_def)

lemma job_ok_set_command [inv_intros, simp]: "job_ok (gs_job_set_command c j) = job_ok j"
  by (simp add: job_ok_def gs_job_set_command_def)

lemma spawn_on_widget_pos:
  "spawn_ok pe \<Longrightarrow> spawn_on_widget pe w c = Some pid \<Longrightarrow> 0 < pid"
  by (auto simp: spawn_ok_def spawn_on_widget_def split: option.splits)

lemma job_ok_start [inv_intros]:
  assumes "spawn_ok pe" "job_ok j"
  shows "job_ok (snd (gs_job_start pe j))"
  using assms(2)
  by (auto simp: gs_job_start_def job_ok_def split: option.splits dest!: spawn_on_widget_pos [OF assms(1)])

lemma job_ok_suspend [inv_intros]:
  assumes "job_ok j"
  shows "\<exists>r j'. gs_job_suspend s j = Inr (r, j') \<and> job_ok j' \<and> (j_pid j' = j_pid j)"
  using assms by (auto simp: gs_job_suspend_def kill_child_def job_ok_def)

text \<open>Stopping returns when children obey, and leaves no child, no watch and no pid.\<close>

lemma gs_job_stop_post:
  assumes "children_obey pe" "job_ok j"
  shows "\<exists>r j'. gs_job_stop pe j = Inr (r, j') \<and> j_pid j' = 0 \<and> \<not> j_watch_id j' \<and> job_ok j'
           \<and> j_widget j' = j_widget j \<and> j_command j' = j_command j \<and> r = (0 < j_pid j)"
  using assms
  by (cases "j_status j")
    (auto simp: gs_job_stop_def job_ok_def gs_job_suspend_def kill_child_def gs_job_died_def
      wait_on_child_def remove_command_watch_def children_obey_def)

lemma job_ok_set_widget [inv_intros]:
  assumes "children_obey pe" "spawn_ok pe" "job_ok j"
  shows "\<exists>j'. gs_job_set_widget pe w j = Inr j' \<and> job_ok j'"
proof -
  have ok: "job_ok (j\<lparr>j_widget := w\<rparr>)" using assms(3) by (auto simp: job_ok_def)
  obtain r j1 where "gs_job_stop pe (j\<lparr>j_widget := w\<rparr>) = Inr (r, j1)" "job_ok j1"
    using gs_job_stop_post [OF assms(1) ok] by blast
  then show ?thesis using assms(3) ok job_ok_start [OF assms(2), of j1] by (simp add: gs_job_set_widget_def Let_def)
qed

lemma gs_job_new_for_widget_eq [simp]:
  "gs_job_new_for_widget pe w = Inr (gs_job_new\<lparr>j_widget := Some w\<rparr>)"
  by (simp add: gs_job_new_for_widget_def gs_job_set_widget_def gs_job_new_def gs_job_is_running_def Let_def)

section \<open>Properties\<close>

text \<open>
  No screensaver program outlives its job.  Stopping a job whose program exits on SIGTERM
  returns, whatever state the job is in; a suspended program is continued first, so that the signal
  reaches it; afterwards there is no child, no pid and no watch, and the invariant of jobs holds.
\<close>

theorem gs_job_stop_reaps:
  assumes "children_obey pe" "job_ok j"
  shows "\<exists>r j'. gs_job_stop pe j = Inr (r, j') \<and> \<not> gs_job_is_running j' \<and> j_pid j' = 0
           \<and> \<not> j_watch_id j' \<and> job_ok j' \<and> r = gs_job_is_running j"
  using gs_job_stop_post [OF assms] by (auto simp: gs_job_is_running_def)

definition sample_procs :: proc_env where
  "sample_procs =
     \<lparr>pe_parse_argv = (\<lambda>c. Some [c]), pe_spawn = (\<lambda>_ _. Some 4242), pe_display = '':0'', pe_home = ''/h'',
      pe_getenv = (\<lambda>v. if v = ''LANG'' then Some ''C'' else None), pe_basename = id,
      pe_saved_args = (\<lambda>_. None), pe_test_run = (\<lambda>_. False), pe_xid = id, pe_exits = (\<lambda>_ t. t)\<rparr>"

theorem gs_job_stop_reaps_witness:
  "\<exists>j'. gs_job_stop sample_procs (gs_job_new\<lparr>j_pid := 4242, j_status := GS_JOB_STOPPED, j_child_stopped := True,
           j_watch_id := True\<rparr>) = Inr (True, j') \<and> j_pid j' = 0"
proof -
  let ?j = "gs_job_new\<lparr>j_pid := 4242, j_status := GS_JOB_STOPPED, j_child_stopped := True, j_watch_id := True\<rparr>"
  have "children_obey sample_procs" "job_ok ?j" "gs_job_is_running ?j"
    by (simp_all add: children_obey_def sample_procs_def job_ok_def gs_job_new_def gs_job_is_running_def)
  then show ?thesis using gs_job_stop_reaps [of sample_procs ?j] by auto
qed

lemma add_env_vars_set:
  "set (add_env_vars pe vars) = {v @ ''='' @ x | v x. v \<in> set vars \<and> pe_getenv pe v = Some x}"
  by (induction vars) (auto split: option.splits)

text \<open>
  The environment of a screensaver program holds the display, the home directory, the window to
  draw on and nothing else but variables of the fixed list of allowed names, with their values.
\<close>

theorem get_env_vars_whitelist:
  "set (get_env_vars pe w) =
     {''DISPLAY='' @ pe_display pe, ''HOME='' @ pe_home pe, ''XSCREENSAVER_WINDOW='' @ widget_get_id_string pe w}
     \<union> {v @ ''='' @ x | v x. v \<in> set allowed_env_vars \<and> pe_getenv pe v = Some x}"
  unfolding get_env_vars_def set_append add_env_vars_set by auto

text \<open>
  A program that closes its standard error while it keeps running makes the daemon wait for it
  without end: the hang-up on the pipe is taken for the death of the child.
\<close>

theorem command_watch_may_block:
  assumes "0 < j_pid j" "\<not> pe_exits pe (j_pid j) (j_child_term j)"
  shows "command_watch pe Cond_Hup j = Inl No_Return"
  using assms by (simp add: command_watch_def gs_job_died_def wait_on_child_def)

theorem command_watch_may_block_witness:
  "command_watch sample_procs Cond_Hup (gs_job_new\<lparr>j_pid := 4242, j_status := GS_JOB_RUNNING, j_watch_id := True\<rparr>)
   = Inl No_Return"
  by (rule command_watch_may_block) (simp_all add: sample_procs_def gs_job_new_def)

end
