(* ===== verification/GS_Window.thy ===== *)
theory GS_Window
  imports Complex_Main GS_Job
begin

text \<open>
  \<open>src/gs-window-x11.c\<close>: a window that covers one monitor, with its unlock dialog.  The dialog is a
  child process whose standard output the window reads line by line.  The operations return the
  window and the list of signals it emits, in order; the statements that follow a signal touch no
  field the handlers of the manager read.  Queuing the idle source that later emits
  ``deactivated'' is the event \<open>Deactivated_Queued\<close>.  GTK, process spawning and the clock are
  parameters.
\<close>

section \<open>Data\<close>

datatype dialog_response = DIALOG_RESPONSE_CANCEL | DIALOG_RESPONSE_OK

datatype win_event = Dialog_Up_Changed | Obscured_Changed | Activity | Deactivated_Queued | Shown

record key_event =
  ke_keyval :: nat
  ke_hardware_keycode :: nat

record rect =
  r_x :: int
  r_y :: int
  r_width :: int
  r_height :: int

text \<open>
  \<open>win_id\<close> stands for the address of the object and of its \<open>GdkWindow\<close>; source ids and widget
  pointers are booleans (set or not); \<open>win_forwarded\<close> are the key events handed to the dialog and
  \<open>win_lock_killed\<close> says whether the dialog was sent SIGTERM on its own request;
  \<open>win_freed\<close> marks a window whose memory was released.
\<close>

record gs_window =
  win_id :: nat
  win_monitor :: nat
  win_geometry :: rect
  win_obscured :: bool
  win_dialog_up :: bool
  win_lock_enabled :: bool
  win_user_switch_enabled :: bool
  win_logout_enabled :: bool
  win_keyboard_enabled :: bool
  win_logout_timeout :: nat
  win_logout_command :: "string option"
  win_keyboard_command :: "string option"
  win_status_message :: "string option"
  win_lock_box :: bool
  win_lock_socket :: bool
  win_keyboard_socket :: bool
  win_info_content :: "(string option \<times> string \<times> string option) option"
  win_background :: "nat option"
  win_popup_dialog_idle_id :: bool
  win_watchdog_timer_id :: bool
  win_info_bar_timer_id :: bool
  win_lock_pid :: int
  win_lock_watch_id :: bool
  win_dialog_response :: dialog_response
  win_dialog_quit_requested :: bool
  win_dialog_shake_in_progress :: bool
  win_keyboard_pid :: int
  win_keyboard_watch_id :: bool
  win_key_events :: "key_event list"
  win_last_x :: rat
  win_last_y :: rat
  win_timer :: "int option"
  win_visible :: bool
  win_sensitive :: bool
  win_forwarded :: "key_event list"
  win_lock_killed :: bool
  win_freed :: bool

text \<open>
  Shell parsing and quoting, spawning, the environment, whether a child that was sent SIGTERM exits,
  the clock in microseconds, the width of the screen.
\<close>

record win_env =
  we_parse_argv :: "string \<Rightarrow> string list option"
  we_spawn :: "string list \<Rightarrow> string list \<Rightarrow> int option"
  we_environ :: "string list"
  we_display :: string
  we_exits :: "int \<Rightarrow> bool"
  we_now :: int
  we_shell_quote :: "string \<Rightarrow> string"
  we_debug_enabled :: bool
  we_dialog_path :: string
  we_screen_width :: nat

type_synonym 'a win_op = "gs_window \<Rightarrow> (gs_window \<times> 'a) res"

section \<open>Geometry\<close>

text \<open>
  A window takes the part of its monitor that no earlier monitor of the display shows (mirrored or
  overlapping outputs).  Cairo's extents of a rectangle less a list of rectangles are a parameter.
\<close>

definition in_rect :: "int \<times> int \<Rightarrow> rect \<Rightarrow> bool" where
  "in_rect p r = (case p of (x, y) \<Rightarrow>
     r_x r \<le> x \<and> x < r_x r + r_width r \<and> r_y r \<le> y \<and> y < r_y r + r_height r)"

primrec get_outside_region :: "(nat \<Rightarrow> rect) \<Rightarrow> nat \<Rightarrow> nat list \<Rightarrow> rect list" where
  "get_outside_region geom monitor [] = []"
| "get_outside_region geom monitor (mon # mons) =
     (if mon \<noteq> monitor then geom mon # get_outside_region geom monitor mons else [])"

definition update_geometry ::
  "(rect \<Rightarrow> rect list \<Rightarrow> rect) \<Rightarrow> (nat \<Rightarrow> rect) \<Rightarrow> nat list \<Rightarrow> gs_window \<Rightarrow> gs_window" where
  "update_geometry extents geom monitors w =
     w\<lparr>win_geometry := extents (geom (win_monitor w)) (get_outside_region geom (win_monitor w) monitors)\<rparr>"

text \<open>The size the window asks for, and whether it has to be moved and resized (when realized).\<close>

definition gs_window_real_size_request ::
  "(rect \<Rightarrow> rect list \<Rightarrow> rect) \<Rightarrow> (nat \<Rightarrow> rect) \<Rightarrow> nat list \<Rightarrow> gs_window \<Rightarrow> gs_window \<times> (bool \<times> bool)" where
  "gs_window_real_size_request extents geom monitors w =
     (let old = win_geometry w; w = update_geometry extents geom monitors w; new = win_geometry w in
      (w, r_x old \<noteq> r_x new \<or> r_y old \<noteq> r_y new, r_width old \<noteq> r_width new \<or> r_height old \<noteq> r_height new))"

section \<open>Reading numbers from the output of a child\<close>

definition c_isspace :: "char \<Rightarrow> bool" where
  "c_isspace c = (c = CHR '' '' \<or> 9 \<le> (of_char c :: nat) \<and> (of_char c :: nat) \<le> 13)"

definition c_isdigit :: "char \<Rightarrow> bool" where
  "c_isdigit c = (48 \<le> (of_char c :: nat) \<and> (of_char c :: nat) \<le> 57)"

definition skip_ws :: "string \<Rightarrow> string" where
  "skip_ws s = dropWhile c_isspace s"

definition digits_value :: "string \<Rightarrow> nat" where
  "digits_value ds = foldl (\<lambda>n c. 10 * n + (of_char c - 48)) 0 ds"

definition strip_literal :: "string \<Rightarrow> string \<Rightarrow> string option" where
  "strip_literal p s = (if has_prefix p s then Some (drop (length p) s) else None)"

text \<open>
  The conversion \<open>%u\<close>: white space, an optional sign, decimal digits; the value is that of
  \<open>strtoul\<close> (saturating at 64 bits, negated for a minus sign), stored in 32 bits.
\<close>

definition scan_uint :: "string \<Rightarrow> (nat \<times> string) option" where
  "scan_uint s =
     (let s = skip_ws s;
          neg = has_prefix ''-'' s;
          s = (if neg \<or> has_prefix ''+'' s then tl s else s);
          ds = takeWhile c_isdigit s;
          v = min (digits_value ds) (2 ^ 64 - 1);
          v = (if neg \<and> digits_value ds < 2 ^ 64 then (2 ^ 64 - v) mod 2 ^ 64 else v) in
      if ds = [] then None else Some (v mod 2 ^ 32, dropWhile c_isdigit s))"

text \<open>\<open>1 == sscanf (line, " %u %c", &id, &c)\<close>: a number and nothing but white space after it.\<close>

definition scan_id :: "string \<Rightarrow> nat option" where
  "scan_id s =
     (case scan_uint (skip_ws s) of
        None \<Rightarrow> None
      | Some (n, rest) \<Rightarrow> if skip_ws rest = [] then Some n else None)"

text \<open>\<open>1 == sscanf (line, " WINDOW ID= %u %c", &id, &c)\<close>\<close>

definition scan_window_id :: "string \<Rightarrow> nat option" where
  "scan_window_id s =
     (case strip_literal ''WINDOW'' (skip_ws s) of
        None \<Rightarrow> None
      | Some s \<Rightarrow>
          (case strip_literal ''ID='' (skip_ws s) of None \<Rightarrow> None | Some s \<Rightarrow> scan_id s))"

section \<open>Timers and messages\<close>

definition win_remove_watchdog_timer :: "gs_window \<Rightarrow> gs_window" where
  "win_remove_watchdog_timer w = (if win_watchdog_timer_id w then w\<lparr>win_watchdog_timer_id := False\<rparr> else w)"

definition win_add_watchdog_timer :: "gs_window \<Rightarrow> gs_window" where
  "win_add_watchdog_timer w = w\<lparr>win_watchdog_timer_id := True\<rparr>"

definition remove_popup_dialog_idle :: "gs_window \<Rightarrow> gs_window" where
  "remove_popup_dialog_idle w =
     (if win_popup_dialog_idle_id w then w\<lparr>win_popup_dialog_idle_id := False\<rparr> else w)"

definition add_popup_dialog_idle :: "gs_window \<Rightarrow> gs_window" where
  "add_popup_dialog_idle w = w\<lparr>win_popup_dialog_idle_id := True\<rparr>"

definition gs_window_set_background_surface :: "nat option \<Rightarrow> gs_window \<Rightarrow> gs_window" where
  "gs_window_set_background_surface surface w = w\<lparr>win_background := surface\<rparr>"

text \<open>\<open>gtk_widget_show\<close> runs the class method and then the handlers, unless the window is visible.\<close>

definition gs_window_real_show :: "win_env \<Rightarrow> gs_window \<Rightarrow> gs_window" where
  "gs_window_real_show e w =
     win_add_watchdog_timer (win_remove_watchdog_timer (w\<lparr>win_visible := True, win_timer := Some (we_now e)\<rparr>))"

definition gs_window_show :: "win_env \<Rightarrow> gs_window \<Rightarrow> gs_window \<times> win_event list" where
  "gs_window_show e w = (if win_visible w then (w, []) else (gs_window_real_show e w, [Shown]))"

definition gs_window_real_hide :: "gs_window \<Rightarrow> gs_window" where
  "gs_window_real_hide w = (win_remove_watchdog_timer w)\<lparr>win_visible := False\<rparr>"

text \<open>What \<open>printf\<close> makes of a NULL string.\<close>

definition c_str :: "string option \<Rightarrow> string" where
  "c_str s = (case s of None \<Rightarrow> ''(null)'' | Some s \<Rightarrow> s)"

definition set_info_text_and_icon ::
  "string option \<Rightarrow> string option \<Rightarrow> string option \<Rightarrow> gs_window \<Rightarrow> gs_window" where
  "set_info_text_and_icon icon_name primary_text secondary_text w =
     w\<lparr>win_info_content :=
         Some (icon_name, ''<b>'' @ c_str primary_text @ ''</b>'',
               map_option (\<lambda>t. ''<small>'' @ t @ ''</small>'') secondary_text)\<rparr>"

definition gs_window_show_message ::
  "string option \<Rightarrow> string option \<Rightarrow> string option \<Rightarrow> gs_window \<Rightarrow> gs_window" where
  "gs_window_show_message summary body icon w =
     (set_info_text_and_icon icon summary body w)\<lparr>win_info_bar_timer_id := True\<rparr>"

definition info_bar_timeout :: "gs_window \<Rightarrow> gs_window" where
  "info_bar_timeout w = w\<lparr>win_info_bar_timer_id := False\<rparr>"

section \<open>Children of the window\<close>

text \<open>
  The environment of a child: the last entry that starts with the letters DISPLAY is replaced.
\<close>

primrec display_index :: "string list \<Rightarrow> nat \<Rightarrow> nat option \<Rightarrow> nat option" where
  "display_index [] i found = found"
| "display_index (v # vs) i found =
     display_index vs (Suc i) (if has_prefix ''DISPLAY'' v then Some i else found)"

definition spawn_make_environment_for_display :: "string \<Rightarrow> string list \<Rightarrow> string list" where
  "spawn_make_environment_for_display display_name envp =
     (case display_index envp 0 None of
        None \<Rightarrow> envp
      | Some i \<Rightarrow> envp[i := ''DISPLAY='' @ display_name])"

text \<open>The pid of the child, or \<open>None\<close> for the return value FALSE.\<close>

definition spawn_on_window :: "win_env \<Rightarrow> string \<Rightarrow> int option" where
  "spawn_on_window e command =
     (case we_parse_argv e command of
        None \<Rightarrow> None
      | Some argv \<Rightarrow> we_spawn e argv (spawn_make_environment_for_display (we_display e) (we_environ e)))"

definition win_wait_on_child :: "win_env \<Rightarrow> int \<Rightarrow> unit res" where
  "win_wait_on_child e pid = (if we_exits e pid then ret () else Inl No_Return)"

definition kill_keyboard_command :: "gs_window \<Rightarrow> unit res" where
  "kill_keyboard_command w =
     (if 0 < win_keyboard_pid w then rbind (signal_pid 0) (\<lambda>_. ret ()) else ret ())"

definition kill_dialog_command :: "gs_window \<Rightarrow> unit res" where
  "kill_dialog_command w =
     (if 0 < win_lock_pid w then rbind (signal_pid 0) (\<lambda>_. ret ()) else ret ())"

definition keyboard_command_finish :: "win_env \<Rightarrow> gs_window \<Rightarrow> gs_window res" where
  "keyboard_command_finish e w =
     rbind (kill_keyboard_command w) (\<lambda>_.
     if 0 < win_keyboard_pid w then
       rbind (win_wait_on_child e (win_keyboard_pid w)) (\<lambda>_. ret (w\<lparr>win_keyboard_pid := 0\<rparr>))
     else ret w)"

section \<open>Key events\<close>

text \<open>The queue holds the newest event first; forwarding reverses it and empties it.\<close>

definition forward_key_events :: "gs_window \<Rightarrow> gs_window" where
  "forward_key_events w =
     w\<lparr>win_forwarded := win_forwarded w @ rev (win_key_events w), win_key_events := []\<rparr>"

definition remove_key_events :: "gs_window \<Rightarrow> gs_window" where
  "remove_key_events w = w\<lparr>win_key_events := []\<rparr>"

definition MAX_QUEUED_EVENTS :: nat where "MAX_QUEUED_EVENTS = 16"

definition GDK_KEY_Return :: nat where "GDK_KEY_Return = 0xff0d"
definition GDK_KEY_KP_Enter :: nat where "GDK_KEY_KP_Enter = 0xff8d"
definition GDK_KEY_Escape :: nat where "GDK_KEY_Escape = 0xff1b"
definition GDK_KEY_space :: nat where "GDK_KEY_space = 0x020"
definition GDK_KEY_Tab :: nat where "GDK_KEY_Tab = 0xff09"
definition GDK_KEY_Up :: nat where "GDK_KEY_Up = 0xff52"
definition GDK_KEY_Down :: nat where "GDK_KEY_Down = 0xff54"

definition queue_key_event :: "key_event \<Rightarrow> gs_window \<Rightarrow> gs_window" where
  "queue_key_event event w =
     (if win_key_events w = []
         \<and> (ke_keyval event = GDK_KEY_Return \<or> ke_keyval event = GDK_KEY_KP_Enter
            \<or> ke_keyval event = GDK_KEY_Escape \<or> ke_keyval event = GDK_KEY_space)
      then w
      else if length (win_key_events w) < MAX_QUEUED_EVENTS \<and> ke_keyval event \<noteq> GDK_KEY_Tab
              \<and> ke_keyval event \<noteq> GDK_KEY_Up \<and> ke_keyval event \<noteq> GDK_KEY_Down
      then w\<lparr>win_key_events := event # win_key_events w\<rparr>
      else w)"

definition maybe_handle_activity :: "gs_window \<Rightarrow> win_event list" where
  "maybe_handle_activity w = (if \<not> win_lock_socket w \<and> win_sensitive w then [Activity] else [])"

text \<open>
  \<open>gs_window_real_key_press_event\<close> in its two steps: the keys for the brightness apart, the activity is
  emitted, and once the manager has handled it the key is queued.
\<close>

definition is_brightness_key :: "key_event \<Rightarrow> bool" where
  "is_brightness_key event = (ke_hardware_keycode event = 101 \<or> ke_hardware_keycode event = 212)"

definition key_press_activity :: "key_event \<Rightarrow> gs_window \<Rightarrow> win_event list" where
  "key_press_activity event w = (if is_brightness_key event then [] else maybe_handle_activity w)"

definition gs_window_real_key_press_event :: "key_event \<Rightarrow> gs_window \<Rightarrow> gs_window" where
  "gs_window_real_key_press_event event w = (if is_brightness_key event then w else queue_key_event event w)"

definition gs_window_real_motion_notify_event ::
  "win_env \<Rightarrow> rat \<Rightarrow> rat \<Rightarrow> gs_window \<Rightarrow> gs_window \<times> win_event list" where
  "gs_window_real_motion_notify_event e x y w =
     (let min_distance = of_nat (we_screen_width e) * (1 / 10) in
      if win_last_x w < 0 \<or> win_last_y w < 0 then (w\<lparr>win_last_x := x, win_last_y := y\<rparr>, [])
      else
        (let distance = max \<bar>win_last_x w - x\<bar> \<bar>win_last_y w - y\<bar> in
         if min_distance < distance
         then (w\<lparr>win_last_x := -1, win_last_y := -1\<rparr>, maybe_handle_activity w)
         else (w, [])))"

definition gs_window_real_button_press_event :: "gs_window \<Rightarrow> gs_window \<times> win_event list" where
  "gs_window_real_button_press_event w = (w, maybe_handle_activity w)"

definition gs_window_real_scroll_event :: "gs_window \<Rightarrow> gs_window \<times> win_event list" where
  "gs_window_real_scroll_event w = (w, maybe_handle_activity w)"

section \<open>Sockets\<close>

text \<open>Removing the box from the window destroys the socket in it, which clears the pointer.\<close>

definition lock_plug_removed :: "gs_window \<Rightarrow> gs_window" where
  "lock_plug_removed w = w\<lparr>win_lock_box := False, win_lock_socket := False\<rparr>"

definition keyboard_plug_removed :: "gs_window \<Rightarrow> gs_window" where
  "keyboard_plug_removed w = w\<lparr>win_keyboard_socket := False\<rparr>"

definition lock_socket_show :: "gs_window \<Rightarrow> gs_window" where
  "lock_socket_show w = forward_key_events w"

definition create_keyboard_socket :: "nat \<Rightarrow> gs_window \<Rightarrow> gs_window" where
  "create_keyboard_socket ident w = w\<lparr>win_keyboard_socket := True\<rparr>"

text \<open>
  A wake-up of a watch: input, with the outcome of reading a line, or a hang-up, or something else.
\<close>

datatype line_status = Line string | Line_EOF | Line_Error | Line_Again
datatype watch_condition = Watch_In line_status | Watch_Hup | Watch_Other

text \<open>The first component is the value the watch returns: whether GLib keeps it.\<close>

definition keyboard_command_watch :: "win_env \<Rightarrow> watch_condition \<Rightarrow> gs_window \<Rightarrow> (bool \<times> gs_window) res" where
  "keyboard_command_watch e condition w =
     (let finish = rbind (keyboard_command_finish e (w\<lparr>win_keyboard_watch_id := False\<rparr>)) (\<lambda>w. ret (False, w)) in
      case condition of
        Watch_In (Line line) \<Rightarrow>
          ret (True, case scan_id line of None \<Rightarrow> w | Some n \<Rightarrow> create_keyboard_socket n w)
      | Watch_In Line_EOF \<Rightarrow> finish
      | Watch_In Line_Error \<Rightarrow> ret (False, w)
      | Watch_In Line_Again \<Rightarrow> ret (True, w)
      | Watch_Hup \<Rightarrow> finish
      | Watch_Other \<Rightarrow> ret (True, w))"

definition embed_keyboard :: "win_env \<Rightarrow> gs_window \<Rightarrow> gs_window" where
  "embed_keyboard e w =
     (if \<not> win_keyboard_enabled w then w
      else
        (case win_keyboard_command w of
           None \<Rightarrow> w
         | Some command \<Rightarrow>
             (case spawn_on_window e command of
                None \<Rightarrow> w
              | Some pid \<Rightarrow> w\<lparr>win_keyboard_pid := pid, win_keyboard_watch_id := True\<rparr>)))"

definition create_lock_socket :: "win_env \<Rightarrow> nat \<Rightarrow> gs_window \<Rightarrow> gs_window" where
  "create_lock_socket e ident w =
     (let w = w\<lparr>win_lock_socket := True, win_lock_box := True\<rparr> in
      if win_keyboard_enabled w then embed_keyboard e w else w)"

section \<open>The dialog\<close>

definition gs_window_dialog_finish :: "win_env \<Rightarrow> gs_window \<Rightarrow> gs_window res" where
  "gs_window_dialog_finish e w =
     rbind (keyboard_command_finish e w) (\<lambda>w.
     rbind (kill_dialog_command w) (\<lambda>_.
     rbind (if 0 < win_lock_pid w then
              rbind (win_wait_on_child e (win_lock_pid w)) (\<lambda>_. ret (w\<lparr>win_lock_pid := 0\<rparr>))
            else ret w) (\<lambda>w.
     ret (remove_key_events w))))"

definition maybe_kill_dialog :: "gs_window \<Rightarrow> gs_window" where
  "maybe_kill_dialog w =
     (if \<not> win_dialog_shake_in_progress w \<and> win_dialog_quit_requested w \<and> 0 < win_lock_pid w
      then w\<lparr>win_lock_killed := True\<rparr> else w)"

text \<open>
  The animation runs the main loop in each of its eight rounds, as long as the box is there; what
  that does to the window is a parameter.
\<close>

primrec shake_rounds :: "(nat \<Rightarrow> gs_window \<Rightarrow> gs_window) \<Rightarrow> nat \<Rightarrow> gs_window \<Rightarrow> gs_window" where
  "shake_rounds pump 0 w = w"
| "shake_rounds pump (Suc n) w = (if \<not> win_lock_box w then w else shake_rounds pump n (pump n w))"

definition shake_dialog :: "(nat \<Rightarrow> gs_window \<Rightarrow> gs_window) \<Rightarrow> gs_window \<Rightarrow> gs_window" where
  "shake_dialog pump w =
     maybe_kill_dialog
       ((shake_rounds pump 8 (w\<lparr>win_dialog_shake_in_progress := True\<rparr>))\<lparr>win_dialog_shake_in_progress := False\<rparr>)"

definition window_set_dialog_up :: "bool \<Rightarrow> gs_window \<Rightarrow> gs_window \<times> win_event list" where
  "window_set_dialog_up dialog_up w =
     (if win_dialog_up w = dialog_up then (w, []) else (w\<lparr>win_dialog_up := dialog_up\<rparr>, [Dialog_Up_Changed]))"

definition remove_command_watches :: "gs_window \<Rightarrow> gs_window" where
  "remove_command_watches w =
     (let w = (if win_lock_watch_id w then w\<lparr>win_lock_watch_id := False\<rparr> else w) in
      if win_keyboard_watch_id w then w\<lparr>win_keyboard_watch_id := False\<rparr> else w)"

definition popdown_dialog :: "win_env \<Rightarrow> gs_window \<Rightarrow> (gs_window \<times> win_event list) res" where
  "popdown_dialog e w =
     rbind (gs_window_dialog_finish e w) (\<lambda>w.
     let (w, evs) = window_set_dialog_up False w;
         w = w\<lparr>win_last_x := -1, win_last_y := -1\<rparr>;
         w = (if win_lock_box w then w\<lparr>win_lock_box := False, win_lock_socket := False\<rparr> else w) in
     ret (remove_command_watches (remove_popup_dialog_idle w), evs))"

text \<open>
  What a line of the dialog's output does: the window, and whether the dialog is finished.
\<close>

definition dialog_line ::
  "win_env \<Rightarrow> (nat \<Rightarrow> gs_window \<Rightarrow> gs_window) \<Rightarrow> string \<Rightarrow> gs_window \<Rightarrow> gs_window \<times> bool" where
  "dialog_line e pump line w =
     (if strstr line ''WINDOW ID='' \<noteq> None then
        (case scan_window_id line of None \<Rightarrow> (w, False) | Some n \<Rightarrow> (create_lock_socket e n w, False))
      else if strstr line ''NOTICE='' \<noteq> None then
        (if strstr line ''NOTICE=AUTH FAILED'' \<noteq> None then (shake_dialog pump w, False) else (w, False))
      else if strstr line ''RESPONSE='' \<noteq> None then
        (w\<lparr>win_dialog_response :=
            (if strstr line ''RESPONSE=OK'' \<noteq> None then DIALOG_RESPONSE_OK else DIALOG_RESPONSE_CANCEL)\<rparr>, True)
      else if strstr line ''REQUEST QUIT'' \<noteq> None then
        (maybe_kill_dialog (w\<lparr>win_dialog_quit_requested := True\<rparr>), False)
      else (w, False))"

definition lock_command_finished :: "win_env \<Rightarrow> gs_window \<Rightarrow> (bool \<times> gs_window \<times> win_event list) res" where
  "lock_command_finished e w =
     rbind (popdown_dialog e w) (\<lambda>(w, evs).
     ret (False, w\<lparr>win_lock_watch_id := False\<rparr>,
          evs @ (if win_dialog_response w = DIALOG_RESPONSE_OK then [Deactivated_Queued] else [])))"

definition lock_command_watch ::
  "win_env \<Rightarrow> (nat \<Rightarrow> gs_window \<Rightarrow> gs_window) \<Rightarrow> watch_condition \<Rightarrow> gs_window \<Rightarrow>
   (bool \<times> gs_window \<times> win_event list) res" where
  "lock_command_watch e pump condition w =
     (case condition of
        Watch_In (Line line) \<Rightarrow>
          (let (w, finished) = dialog_line e pump line w in
           if finished then lock_command_finished e w else ret (True, w, []))
      | Watch_In Line_EOF \<Rightarrow> lock_command_finished e w
      | Watch_In Line_Error \<Rightarrow> ret (False, w, [])
      | Watch_In Line_Again \<Rightarrow> ret (True, w, [])
      | Watch_Hup \<Rightarrow> lock_command_finished e w
      | Watch_Other \<Rightarrow> ret (True, w, []))"

definition is_logout_enabled :: "win_env \<Rightarrow> gs_window \<Rightarrow> bool" where
  "is_logout_enabled e w =
     (if \<not> win_logout_enabled w then False
      else if win_logout_command w = None then False
      else
        (let elapsed_us = (case win_timer w of None \<Rightarrow> 0 | Some t \<Rightarrow> we_now e - t) in
         int (win_logout_timeout w) * 1000 < elapsed_us))"

definition is_user_switch_enabled :: "gs_window \<Rightarrow> bool" where
  "is_user_switch_enabled w = win_user_switch_enabled w"

definition popup_command :: "win_env \<Rightarrow> gs_window \<Rightarrow> string" where
  "popup_command e w =
     we_dialog_path e
     @ (if is_logout_enabled e w
        then '' --enable-logout'' @ '' --logout-command='' @ [CHR 0x27] @ c_str (win_logout_command w) @ [CHR 0x27]
        else [])
     @ (case win_status_message w of
          None \<Rightarrow> [] | Some m \<Rightarrow> '' --status-message='' @ we_shell_quote e m)
     @ (if is_user_switch_enabled w then '' --enable-switch'' else [])
     @ (if we_debug_enabled e then '' --verbose'' else [])"

definition popup_dialog :: "win_env \<Rightarrow> gs_window \<Rightarrow> gs_window" where
  "popup_dialog e w =
     (let command = popup_command e w;
          w = w\<lparr>win_dialog_quit_requested := False, win_dialog_shake_in_progress := False\<rparr> in
      case spawn_on_window e command of
        None \<Rightarrow> w
      | Some pid \<Rightarrow> w\<lparr>win_lock_pid := pid, win_lock_watch_id := True, win_lock_killed := False\<rparr>)"

definition popup_dialog_idle :: "win_env \<Rightarrow> gs_window \<Rightarrow> gs_window" where
  "popup_dialog_idle e w = (popup_dialog e w)\<lparr>win_popup_dialog_idle_id := False\<rparr>"

definition gs_window_request_unlock :: "gs_window \<Rightarrow> gs_window \<times> win_event list" where
  "gs_window_request_unlock w =
     (if \<not> win_visible w then (w, [])
      else if win_lock_watch_id w then (w, [])
      else if \<not> win_lock_enabled w then (w, [Deactivated_Queued])
      else
        window_set_dialog_up True (if \<not> win_popup_dialog_idle_id w then add_popup_dialog_idle w else w))"

definition gs_window_cancel_unlock_request :: "win_env \<Rightarrow> gs_window \<Rightarrow> (gs_window \<times> win_event list) res" where
  "gs_window_cancel_unlock_request e w = popdown_dialog e w"

section \<open>Properties of the window object\<close>

definition gs_window_set_lock_enabled :: "bool \<Rightarrow> gs_window \<Rightarrow> gs_window" where
  "gs_window_set_lock_enabled lock_enabled w =
     (if win_lock_enabled w = lock_enabled then w else w\<lparr>win_lock_enabled := lock_enabled\<rparr>)"

definition gs_window_set_keyboard_enabled :: "bool \<Rightarrow> gs_window \<Rightarrow> gs_window" where
  "gs_window_set_keyboard_enabled enabled w = w\<lparr>win_keyboard_enabled := enabled\<rparr>"

definition gs_window_set_keyboard_command :: "string option \<Rightarrow> gs_window \<Rightarrow> gs_window" where
  "gs_window_set_keyboard_command command w = w\<lparr>win_keyboard_command := command\<rparr>"

definition gs_window_set_logout_enabled :: "bool \<Rightarrow> gs_window \<Rightarrow> gs_window" where
  "gs_window_set_logout_enabled logout_enabled w = w\<lparr>win_logout_enabled := logout_enabled\<rparr>"

definition gs_window_set_user_switch_enabled :: "bool \<Rightarrow> gs_window \<Rightarrow> gs_window" where
  "gs_window_set_user_switch_enabled user_switch_enabled w = w\<lparr>win_user_switch_enabled := user_switch_enabled\<rparr>"

definition gs_window_set_logout_timeout :: "int \<Rightarrow> gs_window \<Rightarrow> gs_window" where
  "gs_window_set_logout_timeout logout_timeout w =
     (if logout_timeout < 0 then w\<lparr>win_logout_timeout := 0\<rparr> else w\<lparr>win_logout_timeout := nat logout_timeout\<rparr>)"

definition gs_window_set_logout_command :: "string option \<Rightarrow> gs_window \<Rightarrow> gs_window" where
  "gs_window_set_logout_command command w = w\<lparr>win_logout_command := command\<rparr>"

definition gs_window_set_status_message :: "string option \<Rightarrow> gs_window \<Rightarrow> gs_window" where
  "gs_window_set_status_message status_message w = w\<lparr>win_status_message := status_message\<rparr>"

definition gs_window_set_monitor :: "nat \<Rightarrow> gs_window \<Rightarrow> gs_window" where
  "gs_window_set_monitor monitor w = (if win_monitor w = monitor then w else w\<lparr>win_monitor := monitor\<rparr>)"

definition gs_window_get_monitor :: "gs_window \<Rightarrow> nat" where
  "gs_window_get_monitor w = win_monitor w"

definition gs_window_is_obscured :: "gs_window \<Rightarrow> bool" where
  "gs_window_is_obscured w = win_obscured w"

definition gs_window_is_dialog_up :: "gs_window \<Rightarrow> bool" where
  "gs_window_is_dialog_up w = win_dialog_up w"

definition window_set_obscured :: "bool \<Rightarrow> gs_window \<Rightarrow> gs_window \<times> win_event list" where
  "window_set_obscured obscured w =
     (if win_obscured w = obscured then (w, []) else (w\<lparr>win_obscured := obscured\<rparr>, [Obscured_Changed]))"

datatype visibility = Fully_Obscured | Partially_Obscured | Unobscured

definition gs_window_real_visibility_notify_event :: "visibility \<Rightarrow> gs_window \<Rightarrow> gs_window \<times> win_event list" where
  "gs_window_real_visibility_notify_event state w =
     (case state of
        Fully_Obscured \<Rightarrow> window_set_obscured True w
      | Partially_Obscured \<Rightarrow> (w, [])
      | Unobscured \<Rightarrow> window_set_obscured False w)"

text \<open>The window with the given address for a monitor; an instance starts zeroed.\<close>

definition gs_window_init :: "nat \<Rightarrow> gs_window" where
  "gs_window_init ident =
     \<lparr>win_id = ident, win_monitor = 0, win_geometry = \<lparr>r_x = -1, r_y = -1, r_width = -1, r_height = -1\<rparr>,
      win_obscured = False, win_dialog_up = False, win_lock_enabled = False, win_user_switch_enabled = False,
      win_logout_enabled = False, win_keyboard_enabled = False, win_logout_timeout = 0,
      win_logout_command = None, win_keyboard_command = None, win_status_message = None,
      win_lock_box = False, win_lock_socket = False, win_keyboard_socket = False,
      win_info_content = None, win_background = None,
      win_popup_dialog_idle_id = False, win_watchdog_timer_id = False, win_info_bar_timer_id = False,
      win_lock_pid = 0, win_lock_watch_id = False, win_dialog_response = DIALOG_RESPONSE_CANCEL,
      win_dialog_quit_requested = False, win_dialog_shake_in_progress = False,
      win_keyboard_pid = 0, win_keyboard_watch_id = False, win_key_events = [],
      win_last_x = -1, win_last_y = -1, win_timer = None, win_visible = False, win_sensitive = True,
      win_forwarded = [], win_lock_killed = False, win_freed = False\<rparr>"

definition gs_window_new :: "nat \<Rightarrow> nat \<Rightarrow> bool \<Rightarrow> gs_window" where
  "gs_window_new ident monitor lock_enabled =
     gs_window_set_lock_enabled lock_enabled ((gs_window_init ident)\<lparr>win_monitor := monitor\<rparr>)"

text \<open>
  \<open>gtk_widget_destroy\<close>: a visible window is hidden, its children are destroyed, and the last
  reference is dropped.
\<close>

definition gs_window_finalize :: "win_env \<Rightarrow> gs_window \<Rightarrow> gs_window res" where
  "gs_window_finalize e w =
     (let w = w\<lparr>win_logout_command := None, win_keyboard_command := None, win_info_bar_timer_id := False\<rparr>;
          w = remove_popup_dialog_idle (win_remove_watchdog_timer w);
          w = remove_command_watches (remove_key_events (w\<lparr>win_timer := None\<rparr>)) in
      rbind (gs_window_dialog_finish e w) (\<lambda>w. ret (w\<lparr>win_freed := True\<rparr>)))"

definition win_widget_destroy :: "win_env \<Rightarrow> gs_window \<Rightarrow> gs_window res" where
  "win_widget_destroy e w =
     (let w = (if win_visible w then gs_window_real_hide w else w);
          w = w\<lparr>win_lock_socket := False, win_keyboard_socket := False\<rparr> in
      gs_window_finalize e w)"

section \<open>What the operations leave alone\<close>

text \<open>
  The identity and the configuration of a window are changed by the setters only; the lemmas below
  say so for each operation, together with the fields the manager looks at.
\<close>

definition win_cfg :: "gs_window \<Rightarrow> nat \<times> nat \<times> bool \<times> bool \<times> bool \<times> bool \<times> nat \<times> string option \<times>
    string option \<times> string option \<times> dialog_response" where
  "win_cfg w = (win_id w, win_monitor w, win_lock_enabled w, win_user_switch_enabled w, win_logout_enabled w,
     win_keyboard_enabled w, win_logout_timeout w, win_logout_command w, win_keyboard_command w,
     win_status_message w, win_dialog_response w)"

definition win_face :: "gs_window \<Rightarrow> bool \<times> bool \<times> bool \<times> bool" where
  "win_face w = (win_visible w, win_sensitive w, win_obscured w, win_freed w)"

definition win_same :: "gs_window \<Rightarrow> gs_window \<Rightarrow> bool" where
  "win_same w w' = (win_cfg w' = win_cfg w \<and> win_face w' = win_face w)"

lemmas win_same_defs = win_same_def win_cfg_def win_face_def

lemma win_same_refl [simp]: "win_same w w"
  by (simp add: win_same_def)

lemma win_same_trans: "win_same a b \<Longrightarrow> win_same b c \<Longrightarrow> win_same a c"
  by (simp add: win_same_def)

lemma win_sameD:
  assumes "win_same w w'"
  shows "win_id w' = win_id w" "win_monitor w' = win_monitor w" "win_lock_enabled w' = win_lock_enabled w"
    "win_visible w' = win_visible w" "win_sensitive w' = win_sensitive w" "win_obscured w' = win_obscured w"
    "win_freed w' = win_freed w"
  using assms by (simp_all add: win_same_defs)

text \<open>
  The invariant of a window: process ids are not negative, the queue of key events is bounded, and
  whatever belongs to a dialog (the pending popup, its process, its watch) is there only while the
  dialog is up.
\<close>

definition win_ok :: "gs_window \<Rightarrow> bool" where
  "win_ok w =
     (0 \<le> win_lock_pid w \<and> 0 \<le> win_keyboard_pid w \<and> length (win_key_events w) \<le> MAX_QUEUED_EVENTS
      \<and> win_lock_socket w = win_lock_box w
      \<and> (win_popup_dialog_idle_id w \<or> win_lock_watch_id w \<or> 0 < win_lock_pid w \<longrightarrow> win_dialog_up w)
      \<and> (win_dialog_up w \<longrightarrow> win_visible w))"

text \<open>Spawning yields positive process ids.\<close>

definition win_spawn_ok :: "win_env \<Rightarrow> bool" where
  "win_spawn_ok e = (\<forall>argv env pid. we_spawn e argv env = Some pid \<longrightarrow> 0 < pid)"

lemma spawn_on_window_pos: "win_spawn_ok e \<Longrightarrow> spawn_on_window e c = Some pid \<Longrightarrow> 0 < pid"
  by (auto simp: spawn_on_window_def win_spawn_ok_def split: option.splits)

lemmas finish_defs =
  gs_window_dialog_finish_def keyboard_command_finish_def kill_keyboard_command_def
  kill_dialog_command_def win_wait_on_child_def remove_key_events_def

lemmas popdown_defs =
  popdown_dialog_def window_set_dialog_up_def remove_command_watches_def
  remove_popup_dialog_idle_def Let_def

lemma dialog_finish_post:
  "rpost (\<lambda>w'. win_same w w' \<and> win_dialog_up w' = win_dialog_up w \<and> win_key_events w' = []
       \<and> win_lock_box w' = win_lock_box w \<and> win_lock_socket w' = win_lock_socket w
       \<and> win_popup_dialog_idle_id w' = win_popup_dialog_idle_id w
       \<and> win_lock_watch_id w' = win_lock_watch_id w
       \<and> win_dialog_response w' = win_dialog_response w
       \<and> (win_ok w \<longrightarrow> win_lock_pid w' = 0 \<and> win_keyboard_pid w' = 0))
     (gs_window_dialog_finish e w)"
  by (simp add: finish_defs win_same_defs win_ok_def)

text \<open>After a popdown nothing of the dialog is left.\<close>

lemma popdown_post:
  "rpost (\<lambda>(w', evs). win_same w w' \<and> \<not> win_dialog_up w' \<and> \<not> win_lock_box w' \<and> \<not> win_lock_watch_id w'
       \<and> \<not> win_popup_dialog_idle_id w' \<and> win_key_events w' = []
       \<and> win_dialog_response w' = win_dialog_response w
       \<and> (win_ok w \<longrightarrow> win_lock_pid w' = 0 \<and> win_ok w')
       \<and> evs = (if win_dialog_up w then [Dialog_Up_Changed] else []))
     (popdown_dialog e w)"
proof -
  have "rpost (\<lambda>w1. rpost (\<lambda>(w', evs). win_same w w' \<and> \<not> win_dialog_up w' \<and> \<not> win_lock_box w' \<and> \<not> win_lock_watch_id w'
       \<and> \<not> win_popup_dialog_idle_id w' \<and> win_key_events w' = []
       \<and> win_dialog_response w' = win_dialog_response w
       \<and> (win_ok w \<longrightarrow> win_lock_pid w' = 0 \<and> win_ok w')
       \<and> evs = (if win_dialog_up w then [Dialog_Up_Changed] else []))
      (let (w, evs) = window_set_dialog_up False w1;
         w = w\<lparr>win_last_x := -1, win_last_y := -1\<rparr>;
         w = (if win_lock_box w then w\<lparr>win_lock_box := False, win_lock_socket := False\<rparr> else w) in
     ret (remove_command_watches (remove_popup_dialog_idle w), evs)))
     (gs_window_dialog_finish e w)"
    by (rule rpost_mono [OF dialog_finish_post])
      (auto simp: popdown_defs win_same_defs win_ok_def)
  then show ?thesis by (simp add: popdown_dialog_def)
qed

lemma popdown_returns:
  assumes "\<forall>pid. we_exits e pid"
  shows "\<exists>w' evs. popdown_dialog e w = Inr (w', evs)"
  using assms by (simp add: popdown_defs finish_defs split_beta)

lemma embed_keyboard_same:
  "win_same w (embed_keyboard e w)" "win_dialog_up (embed_keyboard e w) = win_dialog_up w"
  by (simp_all add: embed_keyboard_def win_same_defs split: option.splits)

lemma request_unlock_same:
  "win_same w (fst (gs_window_request_unlock w))"
  by (simp add: gs_window_request_unlock_def window_set_dialog_up_def add_popup_dialog_idle_def win_same_defs)

lemma request_unlock_ok [inv_intros]:
  "win_ok w \<Longrightarrow> win_ok (fst (gs_window_request_unlock w))"
  by (auto simp: gs_window_request_unlock_def window_set_dialog_up_def add_popup_dialog_idle_def win_ok_def)

lemma request_unlock_events:
  "snd (gs_window_request_unlock w) =
     (if \<not> win_visible w \<or> win_lock_watch_id w then []
      else if \<not> win_lock_enabled w then [Deactivated_Queued]
      else if win_dialog_up w then [] else [Dialog_Up_Changed])"
  "win_dialog_up (fst (gs_window_request_unlock w)) =
     (win_dialog_up w \<or> win_visible w \<and> \<not> win_lock_watch_id w \<and> win_lock_enabled w)"
  by (simp_all add: gs_window_request_unlock_def window_set_dialog_up_def add_popup_dialog_idle_def)

lemma popup_dialog_idle_same:
  "win_same w (popup_dialog_idle e w)" "win_dialog_up (popup_dialog_idle e w) = win_dialog_up w"
  by (simp_all add: popup_dialog_idle_def popup_dialog_def win_same_defs Let_def split: option.splits)

lemma popup_dialog_idle_ok [inv_intros]:
  "win_spawn_ok e \<Longrightarrow> win_ok w \<Longrightarrow> win_popup_dialog_idle_id w \<Longrightarrow> win_ok (popup_dialog_idle e w)"
  by (auto simp: popup_dialog_idle_def popup_dialog_def win_ok_def Let_def split: option.splits
      dest: spawn_on_window_pos)

lemma create_lock_socket_ok [inv_intros]:
  "win_spawn_ok e \<Longrightarrow> win_ok w \<Longrightarrow> win_ok (create_lock_socket e n w)"
  by (auto simp: create_lock_socket_def embed_keyboard_def win_ok_def Let_def split: option.splits
      dest: spawn_on_window_pos)

lemma key_press_ok [inv_intros]:
  "win_ok w \<Longrightarrow> win_ok (gs_window_real_key_press_event k w)"
  by (auto simp: gs_window_real_key_press_event_def queue_key_event_def win_ok_def MAX_QUEUED_EVENTS_def)

section \<open>The lines of the dialog\<close>

text \<open>What the dialog prints (\<open>mate-screensaver-dialog.c\<close>).\<close>

definition print_id :: "nat \<Rightarrow> string" where
  "print_id xid = ''WINDOW ID='' @ dec_digits (xid mod 2 ^ 32) @ [CHR 0x0A]"

definition response_cancel :: string where "response_cancel = ''RESPONSE=CANCEL'' @ [CHR 0x0A]"
definition response_ok :: string where "response_ok = ''RESPONSE=OK'' @ [CHR 0x0A]"

lemma char_of_digit:
  assumes "d < 10"
  shows "c_isdigit (char_of (48 + d :: nat))" "of_char (char_of (48 + d :: nat) :: char) = 48 + d"
  using assms by (simp_all add: c_isdigit_def)

lemma dec_digits_digits: "\<forall>c \<in> set (dec_digits n). c_isdigit c"
proof (induction n rule: dec_digits.induct)
  case (1 n)
  then show ?case
    using char_of_digit(1) [of "n mod 10"] by (subst dec_digits.simps) (auto simp: Let_def)
qed

lemma dec_digits_nonempty: "dec_digits n \<noteq> []"
  by (subst dec_digits.simps) (simp add: Let_def)

lemma digits_value_snoc: "digits_value (ds @ [c]) = 10 * digits_value ds + (of_char c - 48)"
  by (simp add: digits_value_def)

lemma digits_value_dec: "digits_value (dec_digits n) = n"
proof (induction n rule: dec_digits.induct)
  case (1 n)
  show ?case
  proof (cases "n < 10")
    case True
    then show ?thesis
      using digits_value_snoc [of "[]"] char_of_digit(2) [of n]
      by (subst dec_digits.simps) (simp add: Let_def digits_value_def)
  next
    case False
    then have "digits_value (dec_digits (n div 10)) = n div 10" using 1 by (simp add: Let_def)
    then show ?thesis
      using False char_of_digit(2) [of "n mod 10"]
      by (subst dec_digits.simps) (simp add: Let_def digits_value_snoc)
  qed
qed

lemma digit_not_space: "c_isdigit c \<Longrightarrow> \<not> c_isspace c"
  by (auto simp: c_isdigit_def c_isspace_def)

lemma skip_ws_digits: "ds \<noteq> [] \<Longrightarrow> \<forall>c \<in> set ds. c_isdigit c \<Longrightarrow> skip_ws (ds @ s) = ds @ s"
  by (cases ds) (simp_all add: skip_ws_def digit_not_space)

lemma scan_id_line:
  assumes "n < 2 ^ 32"
  shows "scan_id (dec_digits n @ [CHR 0x0A]) = Some n"
proof -
  let ?s = "dec_digits n @ [CHR 0x0A]"
  obtain d ds where ds: "dec_digits n = d # ds" by (cases "dec_digits n") (auto simp: dec_digits_nonempty)
  have d: "c_isdigit d" using dec_digits_digits [of n] ds by simp
  then have sign: "d \<noteq> CHR ''-''" "d \<noteq> CHR ''+''" by (auto simp: c_isdigit_def)
  have nl: "\<not> c_isdigit (CHR 0x0A)" "c_isspace (CHR 0x0A)" by (simp_all add: c_isdigit_def c_isspace_def)
  have ws: "skip_ws ?s = ?s" by (rule skip_ws_digits [OF dec_digits_nonempty dec_digits_digits])
  have tk: "takeWhile c_isdigit ?s = dec_digits n" "dropWhile c_isdigit ?s = [CHR 0x0A]"
    using dec_digits_digits [of n] nl by (simp_all add: takeWhile_append dropWhile_append)
  have "scan_uint ?s = Some (n, [CHR 0x0A])"
    using assms sign ds tk ws digits_value_dec [of n] by (simp add: scan_uint_def Let_def)
  then show ?thesis using ws nl by (simp add: scan_id_def skip_ws_def)
qed

text \<open>
  The dialog and the window agree on the window id.  The line the dialog prints for its X window
  is read back by the window as the same 32-bit id, for every id.
\<close>

theorem window_id_roundtrip: "scan_window_id (print_id xid) = Some (xid mod 2 ^ 32)"
  using scan_id_line [of "xid mod 2 ^ 32"]
  by (simp add: print_id_def scan_window_id_def strip_literal_def skip_ws_def c_isspace_def)

section \<open>Who may unlock\<close>

definition dialog_says_ok :: "string \<Rightarrow> bool" where
  "dialog_says_ok line =
     (strstr line ''WINDOW ID='' = None \<and> strstr line ''NOTICE='' = None \<and> strstr line ''RESPONSE=OK'' \<noteq> None)"

lemma strstr_longer: "strstr s (p @ q) \<noteq> None \<Longrightarrow> strstr s p \<noteq> None"
  using strstr_Some_iff [of s "p @ q"] strstr_Some_iff [of s p] by auto

lemma response_prefix: "strstr line ''RESPONSE=OK'' \<noteq> None \<Longrightarrow> strstr line ''RESPONSE='' \<noteq> None"
  using strstr_longer [of line "''RESPONSE=''" "''OK''"] by simp

lemma win_same_drop_watch [simp]: "win_same w (w'\<lparr>win_lock_watch_id := b\<rparr>) = win_same w w'"
  by (simp add: win_same_defs)

lemma win_ok_drop_watch: "win_ok w \<Longrightarrow> win_ok (w\<lparr>win_lock_watch_id := False\<rparr>)"
  by (simp add: win_ok_def)

lemma finished_events:
  "rpost (\<lambda>(keep, w', evs). win_same w w' \<and> \<not> win_dialog_up w'
       \<and> evs = (if win_dialog_up w then [Dialog_Up_Changed] else [])
             @ (if win_dialog_response w = DIALOG_RESPONSE_OK then [Deactivated_Queued] else [])
       \<and> win_dialog_response w' = win_dialog_response w \<and> (win_ok w \<longrightarrow> win_ok w'))
     (lock_command_finished e w)"
proof -
  have "rpost (\<lambda>x. rpost (\<lambda>(keep, w', evs). win_same w w' \<and> \<not> win_dialog_up w'
       \<and> evs = (if win_dialog_up w then [Dialog_Up_Changed] else [])
             @ (if win_dialog_response w = DIALOG_RESPONSE_OK then [Deactivated_Queued] else [])
       \<and> win_dialog_response w' = win_dialog_response w \<and> (win_ok w \<longrightarrow> win_ok w'))
       (case x of (w, evs) \<Rightarrow> ret (False, w\<lparr>win_lock_watch_id := False\<rparr>,
          evs @ (if win_dialog_response w = DIALOG_RESPONSE_OK then [Deactivated_Queued] else []))))
     (popdown_dialog e w)"
    by (rule rpost_mono [OF popdown_post]) (clarsimp simp: win_ok_drop_watch)
  then show ?thesis by (simp add: lock_command_finished_def)
qed

text \<open>A line of the dialog queues the deactivation exactly when it is the answer OK.\<close>

lemma ok_line_unlocks:
  assumes "lock_command_watch e pump (Watch_In (Line line)) w = Inr (keep, w', evs)"
  shows "Deactivated_Queued \<in> set evs \<longleftrightarrow> dialog_says_ok line"
proof -
  obtain w1 fin where l: "dialog_line e pump line w = (w1, fin)" by (metis prod.exhaust)
  have f: "fin = (strstr line ''WINDOW ID='' = None \<and> strstr line ''NOTICE='' = None \<and> strstr line ''RESPONSE='' \<noteq> None)"
    using l by (auto simp: dialog_line_def split: if_splits option.splits)
  have r: "fin \<Longrightarrow> (win_dialog_response w1 = DIALOG_RESPONSE_OK) = (strstr line ''RESPONSE=OK'' \<noteq> None)"
    using l by (auto simp: dialog_line_def split: if_splits option.splits)
  have ev: "fin \<Longrightarrow> (Deactivated_Queued \<in> set evs) = (win_dialog_response w1 = DIALOG_RESPONSE_OK)"
    using assms l rpostD [OF finished_events [of w1 e], of "(keep, w', evs)"]
    by (auto simp: lock_command_watch_def split: if_splits)
  have "\<not> fin \<Longrightarrow> evs = []" using assms l by (simp add: lock_command_watch_def)
  then show ?thesis using ev r f response_prefix [of line] by (cases fin) (auto simp: dialog_says_ok_def)
qed

text \<open>
  C7: only the dialog's ``RESPONSE=OK'' unlocks.  As long as the last response was a cancel, reading
  from the dialog (a line, an end of file, a hang-up, an error) queues the deactivation exactly when
  it read a line with that answer; a dialog that crashes or is killed never unlocks the screen.
\<close>

theorem unlock_needs_ok:
  assumes "win_dialog_response w = DIALOG_RESPONSE_CANCEL"
    and "lock_command_watch e pump condition w = Inr (keep, w', evs)"
  shows "Deactivated_Queued \<in> set evs \<longleftrightarrow>
           (\<exists>line. condition = Watch_In (Line line) \<and> dialog_says_ok line)"
proof (cases "\<exists>line. condition = Watch_In (Line line)")
  case True
  then show ?thesis using ok_line_unlocks assms(2) by auto
next
  case False
  then have "evs = [] \<or> lock_command_finished e w = Inr (keep, w', evs)"
    using assms(2) by (auto simp: lock_command_watch_def split: watch_condition.splits line_status.splits)
  then have "Deactivated_Queued \<notin> set evs"
    using assms(1) rpostD [OF finished_events [of w e], of "(keep, w', evs)"] by (auto split: if_splits)
  then show ?thesis using False by blast
qed

definition sample_win_env :: win_env where
  "sample_win_env =
     \<lparr>we_parse_argv = (\<lambda>c. Some [c]), we_spawn = (\<lambda>_ _. Some 99), we_environ = [''A=1'', ''DISPLAY=:9''],
      we_display = '':0'', we_exits = (\<lambda>_. True), we_now = 0, we_shell_quote = id, we_debug_enabled = False,
      we_dialog_path = ''dialog'', we_screen_width = 1000\<rparr>"

definition sample_locked_window :: gs_window where
  "sample_locked_window =
     (gs_window_new 7 1 True)\<lparr>win_visible := True, win_dialog_up := True, win_lock_pid := 99, win_lock_watch_id := True\<rparr>"

lemmas sample_window_defs =
  sample_win_env_def sample_locked_window_def gs_window_new_def gs_window_init_def gs_window_set_lock_enabled_def

theorem unlock_needs_ok_witness:
  "\<exists>w' evs. lock_command_watch sample_win_env (\<lambda>_. id) (Watch_In (Line response_ok)) sample_locked_window
       = Inr (False, w', evs) \<and> Deactivated_Queued \<in> set evs"
proof -
  obtain w' evs where r: "lock_command_watch sample_win_env (\<lambda>_. id) (Watch_In (Line response_ok)) sample_locked_window
       = Inr (False, w', evs)"
    using popdown_returns [of sample_win_env]
    by (simp add: lock_command_watch_def dialog_line_def response_ok_def lock_command_finished_def
        sample_window_defs popdown_defs finish_defs)
  have "win_dialog_response sample_locked_window = DIALOG_RESPONSE_CANCEL" by (simp add: sample_window_defs)
  moreover have "dialog_says_ok response_ok" by (simp add: dialog_says_ok_def response_ok_def)
  ultimately show ?thesis using r unlock_needs_ok [OF _ r] by auto
qed

text \<open>
  A read error on the dialog's pipe is a dead end.  The watch is dropped without taking the dialog
  down, so that the window still counts its dialog as up, keeps the id of the dropped watch, and
  ignores every later request to unlock.
\<close>

theorem lock_read_error_stuck:
  assumes "win_lock_watch_id w"
  shows "lock_command_watch e pump (Watch_In Line_Error) w = Inr (False, w, [])
         \<and> gs_window_request_unlock w = (w, [])"
  using assms by (simp add: lock_command_watch_def gs_window_request_unlock_def)

theorem lock_read_error_stuck_witness:
  "gs_window_request_unlock sample_locked_window = (sample_locked_window, []) \<and> win_dialog_up sample_locked_window"
  using lock_read_error_stuck [of sample_locked_window sample_win_env "\<lambda>_. id"]
  by (simp add: sample_locked_window_def)

section \<open>Keys typed before the dialog is there\<close>

text \<open>
  Reference behaviour: brightness keys and the keys that move the focus are dropped; of the rest, the
  leading keys that only wake the screen are dropped; at most sixteen of the remaining keys are kept.
\<close>

definition is_wake_key :: "key_event \<Rightarrow> bool" where
  "is_wake_key k = (ke_keyval k \<in> {GDK_KEY_Return, GDK_KEY_KP_Enter, GDK_KEY_Escape, GDK_KEY_space})"

definition is_typed_key :: "key_event \<Rightarrow> bool" where
  "is_typed_key k =
     (ke_hardware_keycode k \<notin> {101, 212} \<and> ke_keyval k \<notin> {GDK_KEY_Tab, GDK_KEY_Up, GDK_KEY_Down})"

definition keys_for_dialog :: "key_event list \<Rightarrow> key_event list" where
  "keys_for_dialog ks = take MAX_QUEUED_EVENTS (dropWhile is_wake_key (filter is_typed_key ks))"

definition press :: "key_event list \<Rightarrow> gs_window \<Rightarrow> gs_window" where
  "press ks w = fold gs_window_real_key_press_event ks w"

lemma keys_for_dialog_snoc:
  "keys_for_dialog (ks @ [k]) =
     (if \<not> is_typed_key k \<or> keys_for_dialog ks = [] \<and> is_wake_key k
         \<or> MAX_QUEUED_EVENTS \<le> length (keys_for_dialog ks)
      then keys_for_dialog ks else keys_for_dialog ks @ [k])"
proof -
  let ?d = "dropWhile is_wake_key (filter is_typed_key ks)"
  have M: "0 < MAX_QUEUED_EVENTS" by (simp add: MAX_QUEUED_EVENTS_def)
  show ?thesis
  proof (cases "is_typed_key k")
    case True
    have d: "dropWhile is_wake_key (filter is_typed_key (ks @ [k])) =
        (if ?d = [] then (if is_wake_key k then [] else [k]) else ?d @ [k])"
      using True by (auto simp: dropWhile_append dropWhile_eq_Nil_conv)
    show ?thesis
    proof (cases "?d = []")
      case True
      then have "keys_for_dialog ks = []" by (simp add: keys_for_dialog_def)
      moreover have "keys_for_dialog (ks @ [k]) = (if is_wake_key k then [] else [k])"
        using d True M unfolding keys_for_dialog_def by simp
      ultimately show ?thesis using \<open>is_typed_key k\<close> M by simp
    next
      case False
      then show ?thesis
        using d \<open>is_typed_key k\<close> M by (auto simp: keys_for_dialog_def take_append min_def)
    qed
  qed (simp add: keys_for_dialog_def)
qed

lemma press_queue:
  assumes "win_key_events w = []"
  shows "win_key_events (press ks w) = rev (keys_for_dialog ks) \<and> win_forwarded (press ks w) = win_forwarded w"
proof (induction ks rule: rev_induct)
  case Nil
  then show ?case using assms by (simp add: press_def keys_for_dialog_def)
next
  case (snoc k ks)
  have p: "press (ks @ [k]) w = gs_window_real_key_press_event k (press ks w)" by (simp add: press_def)
  show ?case
    unfolding p keys_for_dialog_snoc using snoc
    by (auto simp: gs_window_real_key_press_event_def is_brightness_key_def queue_key_event_def is_wake_key_def is_typed_key_def
        not_less)
qed

text \<open>
  C26: what the user types while the dialog is starting reaches it.  Starting from an empty queue, after
  any sequence of key presses the dialog receives exactly the typed keys, in order, without those that
  only woke the screen or move the focus, and at most the first sixteen; the queue is empty afterwards.
\<close>

theorem typed_keys_forwarded:
  assumes "win_key_events w = []" "win_forwarded w = []"
  shows "win_forwarded (lock_socket_show (press ks w)) = keys_for_dialog ks
         \<and> win_key_events (lock_socket_show (press ks w)) = []"
  using press_queue [OF assms(1), of ks] assms(2) by (simp add: lock_socket_show_def forward_key_events_def)

theorem typed_keys_forwarded_witness:
  "win_forwarded (lock_socket_show (press [\<lparr>ke_keyval = 0x20, ke_hardware_keycode = 65\<rparr>,
       \<lparr>ke_keyval = 0x61, ke_hardware_keycode = 38\<rparr>] (gs_window_init 1)))
   = [\<lparr>ke_keyval = 0x61, ke_hardware_keycode = 38\<rparr>]"
proof -
  have "win_key_events (gs_window_init 1) = []" "win_forwarded (gs_window_init 1) = []"
    by (simp_all add: gs_window_init_def)
  note typed_keys_forwarded [OF this, of "[\<lparr>ke_keyval = 0x20, ke_hardware_keycode = 65\<rparr>,
       \<lparr>ke_keyval = 0x61, ke_hardware_keycode = 38\<rparr>]"]
  then show ?thesis
    by (simp add: keys_for_dialog_def is_typed_key_def is_wake_key_def MAX_QUEUED_EVENTS_def GDK_KEY_Return_def
        GDK_KEY_KP_Enter_def GDK_KEY_Escape_def GDK_KEY_space_def GDK_KEY_Tab_def GDK_KEY_Up_def GDK_KEY_Down_def)
qed

section \<open>No pixel is left uncovered\<close>

text \<open>Of the monitors that show a pixel, the first in the order of the display covers it.\<close>

lemma first_monitor_shows:
  assumes "\<exists>mon \<in> set mons. in_rect p (geom mon)"
  shows "\<exists>mon \<in> set mons. in_rect p (geom mon) \<and> (\<forall>r \<in> set (get_outside_region geom mon mons). \<not> in_rect p r)"
  using assms
proof (induction mons)
  case (Cons m ms)
  show ?case
  proof (cases "in_rect p (geom m)")
    case False
    then obtain mon where "mon \<in> set ms" "in_rect p (geom mon)"
        "\<forall>r \<in> set (get_outside_region geom mon ms). \<not> in_rect p r" using Cons by auto
    then show ?thesis using False by (intro bexI [of _ mon]) auto
  qed simp
qed simp

definition extents_cover :: "(rect \<Rightarrow> rect list \<Rightarrow> rect) \<Rightarrow> bool" where
  "extents_cover extents =
     (\<forall>g rs p. in_rect p g \<and> (\<forall>r \<in> set rs. \<not> in_rect p r) \<longrightarrow> in_rect p (extents g rs))"

end
