(* ===== verification/GS_Manager.thy ===== *)
theory GS_Manager
  imports GHash GS_Fade GS_Grab GS_Prefs GS_Theme GS_Window
begin

text \<open>
  \<open>src/gs-manager.c\<close>: the manager owns one window per monitor and one job (a screensaver program)
  per window, moves the devices grab, runs the lock and cycle timers, and brings up the unlock
  dialog.  Windows are identified by their address \<open>win_id\<close>.  The record also holds what the manager
  shares with the rest of the process: the fade and grab objects, the monitors of the display, how often its monitor handlers
  are connected, and the idle sources that are still pending.
\<close>

section \<open>State\<close>

record gs_manager =
  m_windows :: "gs_window list"
  m_jobs :: "(nat, gs_job) ghash option"
  m_lock_timeout :: int
  m_cycle_timeout :: int
  m_logout_timeout :: int
  m_lock_enabled :: bool
  m_logout_enabled :: bool
  m_keyboard_enabled :: bool
  m_user_switch_enabled :: bool
  m_throttled :: bool
  m_logout_command :: "string option"
  m_keyboard_command :: "string option"
  m_status_message :: "string option"
  m_active :: bool
  m_lock_active :: bool
  m_fading :: bool
  m_dialog_up :: bool
  m_activate_time :: int
  m_lock_timeout_id :: "int option"
  m_cycle_timeout_id :: "int option"
  m_themes :: "string list"
  m_saver_mode :: gs_saver_mode
  m_grab :: gs_grab
  m_fade :: gs_fade
  m_unfade_idle_id :: bool
  m_monitors :: "nat list"
  m_monitor_handlers :: nat
  m_next_id :: nat
  m_emit_idles :: "nat list"
  m_deactivated_idles :: nat

record manager_env =
  me_win :: win_env
  me_proc :: proc_env
  me_theme :: theme_env
  me_seat :: x_seat
  me_root :: gdk_window
  me_pointer_monitor :: nat
  me_random :: "nat \<Rightarrow> nat"
  me_time :: int
  me_fade :: fade_env
  me_surface :: "nat \<Rightarrow> nat option"

text \<open>Access to a window through its address; a window that was freed must not be touched.\<close>

definition win_of :: "gs_manager \<Rightarrow> nat \<Rightarrow> gs_window option" where
  "win_of m i = find (\<lambda>w. win_id w = i) (m_windows m)"

definition with_win :: "nat \<Rightarrow> (gs_window \<Rightarrow> 'a res) \<Rightarrow> gs_manager \<Rightarrow> 'a res" where
  "with_win i f m =
     (case win_of m i of None \<Rightarrow> Inl Use_After_Free
      | Some w \<Rightarrow> if win_freed w then Inl Use_After_Free else f w)"

definition put_win :: "gs_window \<Rightarrow> gs_manager \<Rightarrow> gs_manager" where
  "put_win w m = m\<lparr>m_windows := map (\<lambda>v. if win_id v = win_id w then w else v) (m_windows m)\<rparr>"

definition set_job :: "nat \<Rightarrow> gs_job \<Rightarrow> gs_manager \<Rightarrow> gs_manager" where
  "set_job i j m = m\<lparr>m_jobs := map_option (map (\<lambda>(k, v). (k, if k = i then j else v))) (m_jobs m)\<rparr>"

definition window_ids :: "gs_manager \<Rightarrow> nat list" where
  "window_ids m = map win_id (m_windows m)"

section \<open>Jobs\<close>

definition manager_add_job_for_window :: "nat \<Rightarrow> gs_job \<Rightarrow> gs_manager \<Rightarrow> gs_manager" where
  "manager_add_job_for_window i job m =
     (case m_jobs m of None \<Rightarrow> m | Some h \<Rightarrow> m\<lparr>m_jobs := Some (gh_insert i job h)\<rparr>)"

definition select_theme :: "manager_env \<Rightarrow> gs_manager \<Rightarrow> string option" where
  "select_theme e m =
     (if m_saver_mode m = GS_MODE_BLANK_ONLY then None
      else if m_themes m \<noteq> [] then
        (let number = (if m_saver_mode m = GS_MODE_RANDOM then me_random e (length (m_themes m)) else 0) in
         if number < length (m_themes m) then Some (m_themes m ! number) else None)
      else None)"

definition lookup_job_for_window :: "gs_manager \<Rightarrow> nat \<Rightarrow> gs_job option" where
  "lookup_job_for_window m i = (case m_jobs m of None \<Rightarrow> None | Some h \<Rightarrow> gh_lookup h i)"

definition manager_maybe_stop_job_for_window :: "manager_env \<Rightarrow> nat \<Rightarrow> gs_manager \<Rightarrow> gs_manager res" where
  "manager_maybe_stop_job_for_window e i m =
     (case lookup_job_for_window m i of
        None \<Rightarrow> ret m
      | Some job \<Rightarrow> rbind (gs_job_stop (me_proc e) job) (\<lambda>(_, job). ret (set_job i job m)))"

text \<open>What the function does to the job it finds.\<close>

definition maybe_start_job :: "manager_env \<Rightarrow> gs_manager \<Rightarrow> nat \<Rightarrow> gs_job \<Rightarrow> gs_job res" where
  "maybe_start_job e m i job =
     (if \<not> m_dialog_up m then
        if \<not> m_throttled m then
          if \<not> gs_job_is_running job then
            with_win i (\<lambda>w.
              if \<not> gs_window_is_obscured w then ret (snd (gs_job_start (me_proc e) job)) else ret job) m
          else ret job
        else ret job
      else ret job)"

definition manager_maybe_start_job_for_window :: "manager_env \<Rightarrow> nat \<Rightarrow> gs_manager \<Rightarrow> gs_manager res" where
  "manager_maybe_start_job_for_window e i m =
     (case lookup_job_for_window m i of
        None \<Rightarrow> ret m
      | Some job \<Rightarrow> rbind (maybe_start_job e m i job) (\<lambda>job. ret (set_job i job m)))"

definition manager_select_theme_for_job :: "manager_env \<Rightarrow> gs_manager \<Rightarrow> gs_job \<Rightarrow> gs_job res" where
  "manager_select_theme_for_job e m job =
     (case select_theme e m of
        None \<Rightarrow> ret (gs_job_set_command None job)
      | Some theme \<Rightarrow>
          (case gs_theme_manager_lookup_theme_info (me_theme e) theme of
             None \<Rightarrow> ret (gs_job_set_command None job)
           | Some info \<Rightarrow>
               rbind (gs_theme_info_get_exec (me_theme e) info) (\<lambda>command.
               ret (gs_job_set_command command job))))"

text \<open>
  The functions passed to \<open>g_hash_table_foreach\<close> change the job of their entry only, and start it
  through the table under the key they are called with.
\<close>

definition cycle_job :: "manager_env \<Rightarrow> gs_manager \<Rightarrow> nat \<Rightarrow> gs_job \<Rightarrow> gs_job res" where
  "cycle_job e m i job =
     rbind (gs_job_stop (me_proc e) job) (\<lambda>(_, job).
     rbind (manager_select_theme_for_job e m job) (\<lambda>job.
     maybe_start_job e m i job))"

definition throttle_job :: "manager_env \<Rightarrow> gs_manager \<Rightarrow> nat \<Rightarrow> gs_job \<Rightarrow> gs_job res" where
  "throttle_job e m i job =
     (if m_throttled m then rbind (gs_job_stop (me_proc e) job) (\<lambda>(_, job). ret job)
      else maybe_start_job e m i job)"

definition resume_job :: "manager_env \<Rightarrow> gs_manager \<Rightarrow> nat \<Rightarrow> gs_job \<Rightarrow> gs_job res" where
  "resume_job e m i job =
     (if gs_job_is_running job then rbind (gs_job_suspend False job) (\<lambda>(_, job). ret job)
      else maybe_start_job e m i job)"

definition suspend_job :: "gs_job \<Rightarrow> gs_job res" where
  "suspend_job job = rbind (gs_job_suspend True job) (\<lambda>(_, job). ret job)"

definition jobs_foreach :: "(nat \<Rightarrow> gs_job \<Rightarrow> gs_job res) \<Rightarrow> gs_manager \<Rightarrow> gs_manager res" where
  "jobs_foreach f m =
     (case m_jobs m of
        None \<Rightarrow> ret m
      | Some h \<Rightarrow>
          rbind (rmap (\<lambda>(k, job). rbind (f k job) (\<lambda>job. ret (k, job))) h) (\<lambda>h.
          ret (m\<lparr>m_jobs := Some h\<rparr>)))"

definition manager_cycle_jobs :: "manager_env \<Rightarrow> gs_manager \<Rightarrow> gs_manager res" where
  "manager_cycle_jobs e m = jobs_foreach (cycle_job e m) m"

definition manager_throttle_jobs :: "manager_env \<Rightarrow> gs_manager \<Rightarrow> gs_manager res" where
  "manager_throttle_jobs e m = jobs_foreach (throttle_job e m) m"

definition manager_resume_jobs :: "manager_env \<Rightarrow> gs_manager \<Rightarrow> gs_manager res" where
  "manager_resume_jobs e m = jobs_foreach (resume_job e m) m"

definition manager_suspend_jobs :: "gs_manager \<Rightarrow> gs_manager res" where
  "manager_suspend_jobs m = jobs_foreach (\<lambda>_. suspend_job) m"

text \<open>The destroy function of the table: the job is stopped and its last reference dropped.\<close>

definition remove_job :: "manager_env \<Rightarrow> gs_job \<Rightarrow> gs_job res" where
  "remove_job e job =
     rbind (gs_job_stop (me_proc e) job) (\<lambda>(_, job). gs_job_finalize (me_proc e) job)"

definition manager_stop_jobs :: "manager_env \<Rightarrow> gs_manager \<Rightarrow> gs_manager res" where
  "manager_stop_jobs e m =
     rbind (case m_jobs m of None \<Rightarrow> ret [] | Some h \<Rightarrow> rmap (\<lambda>(_, job). remove_job e job) h) (\<lambda>_.
     ret (m\<lparr>m_jobs := None\<rparr>))"

section \<open>Settings\<close>

definition gs_manager_set_mode :: "gs_saver_mode \<Rightarrow> gs_manager \<Rightarrow> gs_manager" where
  "gs_manager_set_mode mode m = m\<lparr>m_saver_mode := mode\<rparr>"

definition gs_manager_set_themes :: "string list \<Rightarrow> gs_manager \<Rightarrow> gs_manager" where
  "gs_manager_set_themes themes m = m\<lparr>m_themes := themes\<rparr>"

definition gs_manager_set_throttled :: "manager_env \<Rightarrow> bool \<Rightarrow> gs_manager \<Rightarrow> gs_manager res" where
  "gs_manager_set_throttled e throttled m =
     (if m_throttled m \<noteq> throttled then
        (let m = m\<lparr>m_throttled := throttled\<rparr> in
         if \<not> m_dialog_up m then manager_throttle_jobs e m else ret m)
      else ret m)"

definition gs_manager_get_lock_active :: "gs_manager \<Rightarrow> bool" where
  "gs_manager_get_lock_active m = m_lock_active m"

definition gs_manager_set_lock_active :: "bool \<Rightarrow> gs_manager \<Rightarrow> gs_manager" where
  "gs_manager_set_lock_active lock_active m =
     (if m_lock_active m \<noteq> lock_active
      then m\<lparr>m_lock_active := lock_active, m_windows := map (gs_window_set_lock_enabled lock_active) (m_windows m)\<rparr>
      else m)"

definition gs_manager_get_lock_enabled :: "gs_manager \<Rightarrow> bool" where
  "gs_manager_get_lock_enabled m = m_lock_enabled m"

definition gs_manager_set_lock_enabled :: "bool \<Rightarrow> gs_manager \<Rightarrow> gs_manager" where
  "gs_manager_set_lock_enabled lock_enabled m =
     (if m_lock_enabled m \<noteq> lock_enabled then m\<lparr>m_lock_enabled := lock_enabled\<rparr> else m)"

definition gs_manager_set_logout_enabled :: "bool \<Rightarrow> gs_manager \<Rightarrow> gs_manager" where
  "gs_manager_set_logout_enabled logout_enabled m =
     (if m_logout_enabled m \<noteq> logout_enabled
      then m\<lparr>m_logout_enabled := logout_enabled, m_windows := map (gs_window_set_logout_enabled logout_enabled) (m_windows m)\<rparr>
      else m)"

definition gs_manager_set_keyboard_enabled :: "bool \<Rightarrow> gs_manager \<Rightarrow> gs_manager" where
  "gs_manager_set_keyboard_enabled enabled m =
     (if m_keyboard_enabled m \<noteq> enabled
      then m\<lparr>m_keyboard_enabled := enabled, m_windows := map (gs_window_set_keyboard_enabled enabled) (m_windows m)\<rparr>
      else m)"

definition gs_manager_set_user_switch_enabled :: "bool \<Rightarrow> gs_manager \<Rightarrow> gs_manager" where
  "gs_manager_set_user_switch_enabled enabled m =
     (if m_user_switch_enabled m \<noteq> enabled
      then m\<lparr>m_user_switch_enabled := enabled,
             m_windows := map (gs_window_set_user_switch_enabled enabled) (m_windows m)\<rparr>
      else m)"

definition activate_lock_timeout :: "gs_manager \<Rightarrow> gs_manager" where
  "activate_lock_timeout m =
     (if m_lock_enabled m then gs_manager_set_lock_active True m else m)\<lparr>m_lock_timeout_id := None\<rparr>"

definition remove_lock_timer :: "gs_manager \<Rightarrow> gs_manager" where
  "remove_lock_timer m = (if m_lock_timeout_id m \<noteq> None then m\<lparr>m_lock_timeout_id := None\<rparr> else m)"

text \<open>The interval of a timeout source is a 32-bit unsigned number of milliseconds.\<close>

definition add_lock_timer :: "int \<Rightarrow> gs_manager \<Rightarrow> gs_manager" where
  "add_lock_timer timeout m = m\<lparr>m_lock_timeout_id := Some (timeout mod 2 ^ 32)\<rparr>"

definition gs_manager_set_lock_timeout :: "manager_env \<Rightarrow> int \<Rightarrow> gs_manager \<Rightarrow> gs_manager" where
  "gs_manager_set_lock_timeout e lock_timeout m =
     (if m_lock_timeout m \<noteq> lock_timeout then
        (let m = m\<lparr>m_lock_timeout := lock_timeout\<rparr> in
         if m_active m \<and> \<not> m_lock_active m \<and> 0 \<le> lock_timeout then
           (let elapsed = (me_time e - m_activate_time m) * 1000;
                m = remove_lock_timer m in
            if lock_timeout \<le> elapsed then activate_lock_timeout m
            else add_lock_timer (lock_timeout - elapsed) m)
         else m)
      else m)"

definition gs_manager_set_logout_timeout :: "int \<Rightarrow> gs_manager \<Rightarrow> gs_manager" where
  "gs_manager_set_logout_timeout logout_timeout m =
     (if m_logout_timeout m \<noteq> logout_timeout
      then m\<lparr>m_logout_timeout := logout_timeout, m_windows := map (gs_window_set_logout_timeout logout_timeout) (m_windows m)\<rparr>
      else m)"

definition gs_manager_set_logout_command :: "string option \<Rightarrow> gs_manager \<Rightarrow> gs_manager" where
  "gs_manager_set_logout_command command m =
     m\<lparr>m_logout_command := command, m_windows := map (gs_window_set_logout_command command) (m_windows m)\<rparr>"

definition gs_manager_set_keyboard_command :: "string option \<Rightarrow> gs_manager \<Rightarrow> gs_manager" where
  "gs_manager_set_keyboard_command command m =
     m\<lparr>m_keyboard_command := command, m_windows := map (gs_window_set_keyboard_command command) (m_windows m)\<rparr>"

definition gs_manager_set_status_message :: "string option \<Rightarrow> gs_manager \<Rightarrow> gs_manager" where
  "gs_manager_set_status_message status_message m =
     m\<lparr>m_status_message := status_message, m_windows := map (gs_window_set_status_message status_message) (m_windows m)\<rparr>"

definition gs_manager_cycle :: "manager_env \<Rightarrow> gs_manager \<Rightarrow> (bool \<times> gs_manager) res" where
  "gs_manager_cycle e m =
     (if \<not> m_active m then ret (False, m)
      else if m_dialog_up m then ret (False, m)
      else if m_throttled m then ret (False, m)
      else rbind (manager_cycle_jobs e m) (\<lambda>m. ret (True, m)))"

text \<open>The timeout is kept.\<close>

definition cycle_timeout :: "manager_env \<Rightarrow> gs_manager \<Rightarrow> gs_manager res" where
  "cycle_timeout e m =
     (if \<not> m_dialog_up m then rbind (gs_manager_cycle e m) (\<lambda>(_, m). ret m) else ret m)"

definition remove_cycle_timer :: "gs_manager \<Rightarrow> gs_manager" where
  "remove_cycle_timer m = (if m_cycle_timeout_id m \<noteq> None then m\<lparr>m_cycle_timeout_id := None\<rparr> else m)"

definition add_cycle_timer :: "int \<Rightarrow> gs_manager \<Rightarrow> gs_manager" where
  "add_cycle_timer timeout m = m\<lparr>m_cycle_timeout_id := Some (timeout mod 2 ^ 32)\<rparr>"

definition gs_manager_set_cycle_timeout :: "manager_env \<Rightarrow> int \<Rightarrow> gs_manager \<Rightarrow> gs_manager" where
  "gs_manager_set_cycle_timeout e new_timeout m =
     (if m_cycle_timeout m \<noteq> new_timeout then
        (let m = m\<lparr>m_cycle_timeout := new_timeout\<rparr> in
         if m_active m \<and> 0 \<le> new_timeout then
           (let elapsed = (me_time e - m_activate_time m) * 1000;
                m = remove_cycle_timer m;
                timeout = (if new_timeout \<le> elapsed then 0 else new_timeout - elapsed) in
            add_cycle_timer timeout m)
         else m)
      else m)"

definition remove_timers :: "gs_manager \<Rightarrow> gs_manager" where
  "remove_timers m = remove_cycle_timer (remove_lock_timer m)"

definition remove_unfade_idle :: "gs_manager \<Rightarrow> gs_manager" where
  "remove_unfade_idle m = (if m_unfade_idle_id m then m\<lparr>m_unfade_idle_id := False\<rparr> else m)"

definition manager_reset_fade :: "manager_env \<Rightarrow> gs_manager \<Rightarrow> gs_manager res" where
  "manager_reset_fade e m = rbind (gs_fade_reset (me_fade e) (m_fade m)) (\<lambda>f. ret (m\<lparr>m_fade := f\<rparr>))"

definition unfade_idle :: "manager_env \<Rightarrow> gs_manager \<Rightarrow> gs_manager res" where
  "unfade_idle e m = rbind (manager_reset_fade e m) (\<lambda>m. ret (m\<lparr>m_unfade_idle_id := False\<rparr>))"

definition add_unfade_idle :: "gs_manager \<Rightarrow> gs_manager" where
  "add_unfade_idle m = (remove_unfade_idle m)\<lparr>m_unfade_idle_id := True\<rparr>"

section \<open>Showing windows\<close>

definition apply_background_to_window :: "manager_env \<Rightarrow> nat \<Rightarrow> gs_manager \<Rightarrow> gs_manager res" where
  "apply_background_to_window e i m =
     with_win i (\<lambda>w. ret (put_win (gs_window_set_background_surface (me_surface e (win_monitor w)) w) m)) m"

definition start_timers :: "manager_env \<Rightarrow> gs_manager \<Rightarrow> gs_manager" where
  "start_timers e m =
     (let m = m\<lparr>m_activate_time := me_time e\<rparr>;
          m = (if 0 \<le> m_lock_timeout m then add_lock_timer (m_lock_timeout m) (remove_lock_timer m) else m);
          m = (if 10000 \<le> m_cycle_timeout m then add_cycle_timer (m_cycle_timeout m) (remove_cycle_timer m) else m) in
      add_unfade_idle m)"

text \<open>The ``activated'' signal at the end has a handler that does nothing.\<close>

definition manager_show_window :: "manager_env \<Rightarrow> nat \<Rightarrow> gs_manager \<Rightarrow> gs_manager res" where
  "manager_show_window e i m =
     rbind (apply_background_to_window e i m) (\<lambda>m.
     rbind (gs_job_new_for_widget (me_proc e) i) (\<lambda>job.
     rbind (manager_select_theme_for_job e m job) (\<lambda>job.
     ret (start_timers e (manager_add_job_for_window i job m)))))"

definition window_show_cb :: "manager_env \<Rightarrow> nat \<Rightarrow> gs_manager \<Rightarrow> gs_manager res" where
  "window_show_cb = manager_show_window"

definition manager_widget_show :: "manager_env \<Rightarrow> nat \<Rightarrow> gs_manager \<Rightarrow> gs_manager res" where
  "manager_widget_show e i m =
     with_win i (\<lambda>w. let (w, evs) = gs_window_show (me_win e) w; m = put_win w m in
       if evs \<noteq> [] then window_show_cb e i m else ret m) m"

definition show_windows :: "manager_env \<Rightarrow> nat list \<Rightarrow> gs_manager \<Rightarrow> gs_manager res" where
  "show_windows e ids m = rfold (manager_widget_show e) ids m"

text \<open>The handler of a fade the manager started, and the signal that runs it.\<close>

definition fade_done_cb :: "manager_env \<Rightarrow> gs_manager \<Rightarrow> gs_manager res" where
  "fade_done_cb e m = rbind (show_windows e (window_ids m) m) (\<lambda>m. ret (m\<lparr>m_fading := False\<rparr>))"

definition manager_finish_fade :: "manager_env \<Rightarrow> gs_manager \<Rightarrow> gs_manager res" where
  "manager_finish_fade e m =
     (case gs_fade_finish (m_fade m) of (cbs, f) \<Rightarrow> rfold (\<lambda>_. fade_done_cb e) cbs (m\<lparr>m_fade := f\<rparr>))"

section \<open>The dialog and the grab\<close>

text \<open>The last window on the monitor of the pointer; without one, the first of all.\<close>

definition find_window_at_pointer :: "manager_env \<Rightarrow> gs_manager \<Rightarrow> gs_window res" where
  "find_window_at_pointer e m =
     (case fold (\<lambda>w found. if gs_window_get_monitor w = me_pointer_monitor e then Some w else found)
             (m_windows m) None of
        Some w \<Rightarrow> ret w
      | None \<Rightarrow> (case m_windows m of [] \<Rightarrow> Inl Null_Deref | w # _ \<Rightarrow> ret w))"

definition manager_move_grab :: "manager_env \<Rightarrow> nat \<Rightarrow> bool \<Rightarrow> gs_manager \<Rightarrow> gs_manager res" where
  "manager_move_grab e i no_pointer_grab m =
     rbind (gs_grab_move_to_window (me_seat e) (m_grab m) (Some i) no_pointer_grab False) (\<lambda>g.
     ret (m\<lparr>m_grab := g\<rparr>))"

definition manager_maybe_grab_window :: "manager_env \<Rightarrow> nat \<Rightarrow> gs_manager \<Rightarrow> gs_manager res" where
  "manager_maybe_grab_window e i m =
     with_win i (\<lambda>w.
       if gs_window_get_monitor w = me_pointer_monitor e then manager_move_grab e i False m else ret m) m"

text \<open>Whether the other device is still grabbed is an argument.\<close>

definition window_grab_broken_cb :: "bool \<Rightarrow> gs_manager \<Rightarrow> gs_manager" where
  "window_grab_broken_cb other_grabbed m =
     (if \<not> other_grabbed then m\<lparr>m_grab := gs_grab_reset (m_grab m)\<rparr> else m)"

definition window_map_event_cb :: "manager_env \<Rightarrow> nat \<Rightarrow> gs_manager \<Rightarrow> gs_manager res" where
  "window_map_event_cb e i m =
     rbind (manager_maybe_grab_window e i m) (manager_maybe_start_job_for_window e i)"

definition maybe_set_window_throttle :: "manager_env \<Rightarrow> nat \<Rightarrow> bool \<Rightarrow> gs_manager \<Rightarrow> gs_manager res" where
  "maybe_set_window_throttle e i throttled m =
     (if throttled then manager_maybe_stop_job_for_window e i m else manager_maybe_start_job_for_window e i m)"

text \<open>The loops over all windows touch each of them, also one that was freed and is still linked.\<close>

definition set_sensitive :: "(gs_window \<Rightarrow> bool) \<Rightarrow> bool \<Rightarrow> gs_manager \<Rightarrow> gs_manager res" where
  "set_sensitive P b m =
     (if \<exists>w \<in> set (m_windows m). P w \<and> win_freed w then Inl Use_After_Free
      else ret (m\<lparr>m_windows := map (\<lambda>w. if P w then w\<lparr>win_sensitive := b\<rparr> else w) (m_windows m)\<rparr>))"

definition handle_window_dialog_up :: "manager_env \<Rightarrow> nat \<Rightarrow> gs_manager \<Rightarrow> gs_manager res" where
  "handle_window_dialog_up e i m =
     rbind (set_sensitive (\<lambda>w. win_id w \<noteq> i) False (m\<lparr>m_dialog_up := True\<rparr>)) (\<lambda>m.
     rbind (manager_move_grab e i True m) (\<lambda>m.
     if \<not> m_throttled m then manager_suspend_jobs m else ret m))"

definition handle_window_dialog_down :: "manager_env \<Rightarrow> nat \<Rightarrow> gs_manager \<Rightarrow> gs_manager res" where
  "handle_window_dialog_down e i m =
     rbind (manager_move_grab e i False m) (\<lambda>m.
     rbind (set_sensitive (\<lambda>_. True) True m) (\<lambda>m.
     let m = m\<lparr>m_dialog_up := False\<rparr> in
     if \<not> m_throttled m then manager_resume_jobs e m else ret m))"

definition window_dialog_up_changed_cb :: "manager_env \<Rightarrow> nat \<Rightarrow> gs_manager \<Rightarrow> gs_manager res" where
  "window_dialog_up_changed_cb e i m =
     with_win i (\<lambda>w. if gs_window_is_dialog_up w then handle_window_dialog_up e i m
                     else handle_window_dialog_down e i m) m"

text \<open>The two signals that requesting and cancelling an unlock can cause.\<close>

definition unlock_event :: "manager_env \<Rightarrow> nat \<Rightarrow> win_event \<Rightarrow> gs_manager \<Rightarrow> gs_manager res" where
  "unlock_event e i ev m =
     (case ev of
        Dialog_Up_Changed \<Rightarrow> window_dialog_up_changed_cb e i m
      | Deactivated_Queued \<Rightarrow> ret (m\<lparr>m_emit_idles := m_emit_idles m @ [i]\<rparr>)
      | _ \<Rightarrow> ret m)"

definition gs_manager_request_unlock :: "manager_env \<Rightarrow> gs_manager \<Rightarrow> (bool \<times> gs_manager) res" where
  "gs_manager_request_unlock e m =
     (if \<not> m_active m then ret (False, m)
      else if m_dialog_up m then ret (False, m)
      else
        rbind (if m_fading m then manager_finish_fade e m else ret m) (\<lambda>m.
        if m_windows m = [] then ret (False, m)
        else
          rbind (find_window_at_pointer e m) (\<lambda>w.
          rbind (apply_background_to_window e (win_id w) m) (\<lambda>m.
          with_win (win_id w) (\<lambda>w.
            let (w, evs) = gs_window_request_unlock w in
            rbind (rfold (unlock_event e (win_id w)) evs (put_win w m)) (\<lambda>m. ret (True, m))) m))))"

definition manager_cancel_window :: "manager_env \<Rightarrow> nat \<Rightarrow> gs_manager \<Rightarrow> gs_manager res" where
  "manager_cancel_window e i m =
     with_win i (\<lambda>w.
       rbind (gs_window_cancel_unlock_request (me_win e) w) (\<lambda>(w, evs).
       rfold (unlock_event e i) evs (put_win w m))) m"

definition gs_manager_cancel_unlock_request :: "manager_env \<Rightarrow> gs_manager \<Rightarrow> gs_manager res" where
  "gs_manager_cancel_unlock_request e m = rfold (manager_cancel_window e) (window_ids m) m"

definition gs_manager_show_message ::
  "manager_env \<Rightarrow> string option \<Rightarrow> string option \<Rightarrow> string option \<Rightarrow> gs_manager \<Rightarrow> gs_manager res" where
  "gs_manager_show_message e summary body icon m =
     rbind (find_window_at_pointer e m) (\<lambda>w.
     with_win (win_id w) (\<lambda>w.
       rbind (gs_manager_request_unlock e (put_win (gs_window_show_message summary body icon w) m)) (\<lambda>(_, m).
       ret m)) m)"

definition window_obscured_cb :: "manager_env \<Rightarrow> nat \<Rightarrow> gs_manager \<Rightarrow> gs_manager res" where
  "window_obscured_cb e i m =
     with_win i (\<lambda>w. let obscured = gs_window_is_obscured w in
       rbind (maybe_set_window_throttle e i obscured m) (\<lambda>m.
       if \<not> obscured then rbind (gs_manager_request_unlock e m) (\<lambda>(_, m). ret m) else ret m)) m"

definition window_activity_cb :: "manager_env \<Rightarrow> nat \<Rightarrow> gs_manager \<Rightarrow> gs_manager res" where
  "window_activity_cb e i m = rbind (gs_manager_request_unlock e m) (\<lambda>(_, m). ret m)"

text \<open>All handlers the manager connects to a window (\<open>connect_window_signals\<close>).\<close>

definition window_event :: "manager_env \<Rightarrow> nat \<Rightarrow> win_event \<Rightarrow> gs_manager \<Rightarrow> gs_manager res" where
  "window_event e i ev m =
     (case ev of
        Activity \<Rightarrow> window_activity_cb e i m
      | Obscured_Changed \<Rightarrow> window_obscured_cb e i m
      | Shown \<Rightarrow> window_show_cb e i m
      | _ \<Rightarrow> unlock_event e i ev m)"

text \<open>The two idle sources on the way from a window to the end of the screensaver.\<close>

definition window_deactivated_cb :: "gs_manager \<Rightarrow> gs_manager" where
  "window_deactivated_cb m = m\<lparr>m_deactivated_idles := Suc (m_deactivated_idles m)\<rparr>"

definition emit_deactivated_idle :: "nat \<Rightarrow> gs_manager \<Rightarrow> gs_manager res" where
  "emit_deactivated_idle i m = with_win i (\<lambda>_. ret (window_deactivated_cb m)) m"

section \<open>Creating and destroying windows\<close>

definition configure_window :: "gs_manager \<Rightarrow> gs_window \<Rightarrow> gs_window" where
  "configure_window m w =
     (let w = gs_window_set_user_switch_enabled (m_user_switch_enabled m) w;
          w = gs_window_set_logout_enabled (m_logout_enabled m) w;
          w = gs_window_set_logout_timeout (m_logout_timeout m) w;
          w = gs_window_set_logout_command (m_logout_command m) w;
          w = gs_window_set_keyboard_enabled (m_keyboard_enabled m) w;
          w = gs_window_set_keyboard_command (m_keyboard_command m) w in
      gs_window_set_status_message (m_status_message m) w)"

definition gs_manager_create_window_for_monitor :: "manager_env \<Rightarrow> nat \<Rightarrow> gs_manager \<Rightarrow> gs_manager res" where
  "gs_manager_create_window_for_monitor e monitor m =
     (let w = configure_window m (gs_window_new (m_next_id m) monitor (m_lock_active m));
          m = m\<lparr>m_windows := m_windows m @ [w], m_next_id := Suc (m_next_id m)\<rparr> in
      if m_active m \<and> \<not> m_fading m then manager_widget_show e (win_id w) m else ret m)"

definition on_display_monitor_added :: "manager_env \<Rightarrow> nat \<Rightarrow> gs_manager \<Rightarrow> gs_manager res" where
  "on_display_monitor_added e monitor m =
     rbind (rfold (manager_cancel_window e) (window_ids m) m) (\<lambda>m.
     rbind (gs_manager_create_window_for_monitor e monitor m) (\<lambda>m.
     rbind (gs_manager_request_unlock e m) (\<lambda>(_, m). ret m)))"

definition manager_remove_job :: "manager_env \<Rightarrow> nat \<Rightarrow> gs_manager \<Rightarrow> gs_manager res" where
  "manager_remove_job e i m =
     (case m_jobs m of
        None \<Rightarrow> ret m
      | Some h \<Rightarrow>
          (case gh_lookup h i of
             None \<Rightarrow> ret m
           | Some job \<Rightarrow> rbind (remove_job e job) (\<lambda>_. ret (m\<lparr>m_jobs := Some (gh_remove i h)\<rparr>))))"

text \<open>
  \<open>gs_window_destroy\<close>: the dialog is cancelled, with all that follows from it, and the widget is
  destroyed and freed; the window stays in the list of the manager.
\<close>

definition gs_window_destroy :: "manager_env \<Rightarrow> nat \<Rightarrow> gs_manager \<Rightarrow> gs_manager res" where
  "gs_window_destroy e i m =
     rbind (manager_cancel_window e i m) (\<lambda>m.
     with_win i (\<lambda>w.
       rbind (win_widget_destroy (me_win e) w) (\<lambda>w.
       ret ((put_win w m)\<lparr>m_grab := grab_window_destroyed i (m_grab m)\<rparr>))) m)"

definition remove_window_on_monitor :: "manager_env \<Rightarrow> nat \<Rightarrow> nat \<Rightarrow> gs_manager \<Rightarrow> gs_manager res" where
  "remove_window_on_monitor e monitor i m =
     with_win i (\<lambda>w.
       if gs_window_get_monitor w = monitor then
         rbind (manager_maybe_stop_job_for_window e i m) (\<lambda>m.
         rbind (manager_remove_job e i m) (\<lambda>m.
         rbind (gs_window_destroy e i m) (\<lambda>m.
         ret (m\<lparr>m_windows := filter (\<lambda>w. win_id w \<noteq> i) (m_windows m)\<rparr>))))
       else ret m) m"

definition on_display_monitor_removed :: "manager_env \<Rightarrow> nat \<Rightarrow> gs_manager \<Rightarrow> gs_manager res" where
  "on_display_monitor_removed e monitor m =
     rfold (remove_window_on_monitor e monitor) (window_ids m) m"

definition gs_manager_destroy_windows :: "manager_env \<Rightarrow> gs_manager \<Rightarrow> gs_manager res" where
  "gs_manager_destroy_windows e m =
     (if m_windows m = [] then ret m
      else
        rbind (rfold (gs_window_destroy e) (window_ids m) (m\<lparr>m_monitor_handlers := 0\<rparr>)) (\<lambda>m.
        ret (m\<lparr>m_windows := []\<rparr>)))"

definition gs_manager_create_windows_for_display :: "manager_env \<Rightarrow> gs_manager \<Rightarrow> gs_manager res" where
  "gs_manager_create_windows_for_display e m =
     rfold (gs_manager_create_window_for_monitor e) (m_monitors m) m"

definition gs_manager_create_windows :: "manager_env \<Rightarrow> gs_manager \<Rightarrow> gs_manager res" where
  "gs_manager_create_windows e m =
     (if m_windows m \<noteq> [] then Inl Assert_Failed
      else
        gs_manager_create_windows_for_display e (m\<lparr>m_monitor_handlers := Suc (m_monitor_handlers m)\<rparr>))"

section \<open>Activation\<close>

text \<open>The variable \<open>do_fade\<close> is FALSE, so that the windows are shown at once.\<close>

definition gs_manager_activate :: "manager_env \<Rightarrow> gs_manager \<Rightarrow> (bool \<times> gs_manager) res" where
  "gs_manager_activate e m =
     (if m_active m then ret (False, m)
      else
        (let (res, g) = gs_grab_grab_root (me_seat e) (me_root e) (m_grab m) False False;
             m = m\<lparr>m_grab := g\<rparr> in
         if \<not> res then ret (False, m)
         else
           rbind (if m_windows m = [] then gs_manager_create_windows e m else ret m) (\<lambda>m.
           let m = m\<lparr>m_jobs := Some [], m_active := True\<rparr> in
           rbind (show_windows e (window_ids m) m) (\<lambda>m. ret (True, m)))))"

definition gs_manager_deactivate :: "manager_env \<Rightarrow> gs_manager \<Rightarrow> (bool \<times> gs_manager) res" where
  "gs_manager_deactivate e m =
     (if \<not> m_active m then ret (False, m)
      else
        rbind (manager_reset_fade e (remove_unfade_idle m)) (\<lambda>m.
        let m = remove_timers m;
            m = m\<lparr>m_grab := gs_grab_release (m_grab m) True\<rparr> in
        rbind (manager_stop_jobs e m) (\<lambda>m.
        rbind (gs_manager_destroy_windows e m) (\<lambda>m.
        ret (True, m\<lparr>m_active := False, m_activate_time := 0, m_lock_active := False, m_dialog_up := False,
                     m_fading := False\<rparr>)))))"

definition gs_manager_set_active :: "manager_env \<Rightarrow> bool \<Rightarrow> gs_manager \<Rightarrow> (bool \<times> gs_manager) res" where
  "gs_manager_set_active e active m = (if active then gs_manager_activate e m else gs_manager_deactivate e m)"

definition gs_manager_get_active :: "gs_manager \<Rightarrow> bool" where
  "gs_manager_get_active m = m_active m"

definition gs_manager_finalize :: "manager_env \<Rightarrow> gs_manager \<Rightarrow> gs_manager res" where
  "gs_manager_finalize e m =
     (let m = m\<lparr>m_themes := [], m_logout_command := None, m_keyboard_command := None, m_status_message := None\<rparr>;
          m = remove_timers (remove_unfade_idle m);
          m = m\<lparr>m_grab := gs_grab_release (m_grab m) True\<rparr> in
      rbind (manager_stop_jobs e m) (\<lambda>m.
      rbind (gs_manager_destroy_windows e m) (\<lambda>m.
      ret (m\<lparr>m_active := False, m_activate_time := 0, m_lock_enabled := False\<rparr>))))"

definition gs_manager_init :: "nat list \<Rightarrow> gs_fade \<Rightarrow> gs_grab \<Rightarrow> gs_manager" where
  "gs_manager_init monitors fade grab =
     \<lparr>m_windows = [], m_jobs = None, m_lock_timeout = 0, m_cycle_timeout = 0, m_logout_timeout = 0,
      m_lock_enabled = False, m_logout_enabled = False, m_keyboard_enabled = False,
      m_user_switch_enabled = False, m_throttled = False, m_logout_command = None,
      m_keyboard_command = None, m_status_message = None, m_active = False, m_lock_active = False,
      m_fading = False, m_dialog_up = False, m_activate_time = 0, m_lock_timeout_id = None,
      m_cycle_timeout_id = None, m_themes = [], m_saver_mode = GS_MODE_BLANK_ONLY, m_grab = grab, m_fade = fade,
      m_unfade_idle_id = False, m_monitors = monitors, m_monitor_handlers = 0, m_next_id = 1,
      m_emit_idles = [], m_deactivated_idles = 0\<rparr>"

text \<open>
  Handlers run by the main loop: an operation of one window with the signals it emits, and the
  arrival or departure of a monitor, which runs each connected handler.
\<close>

definition on_window ::
  "manager_env \<Rightarrow> nat \<Rightarrow> (gs_window \<Rightarrow> (gs_window \<times> win_event list) res) \<Rightarrow> gs_manager \<Rightarrow> gs_manager res" where
  "on_window e i f m =
     with_win i (\<lambda>w. rbind (f w) (\<lambda>(w, evs). rfold (window_event e i) evs (put_win w m))) m"

definition display_monitor_added :: "manager_env \<Rightarrow> nat \<Rightarrow> gs_manager \<Rightarrow> gs_manager res" where
  "display_monitor_added e monitor m =
     (let m = m\<lparr>m_monitors := m_monitors m @ [monitor]\<rparr> in
      rfold (\<lambda>_. on_display_monitor_added e monitor) [0..<m_monitor_handlers m] m)"

definition display_monitor_removed :: "manager_env \<Rightarrow> nat \<Rightarrow> gs_manager \<Rightarrow> gs_manager res" where
  "display_monitor_removed e monitor m =
     (let m = m\<lparr>m_monitors := filter (\<lambda>x. x \<noteq> monitor) (m_monitors m)\<rparr> in
      rfold (\<lambda>_. on_display_monitor_removed e monitor) [0..<m_monitor_handlers m] m)"

end
