(* ===== verification/GS_Manager_Inv.thy ===== *)
theory GS_Manager_Inv
  imports GS_Manager
begin

text \<open>
  The invariant of the manager.  It has four parts: the windows carry the settings of the manager
  (\<open>cfg_ok\<close>), there is a window for every monitor (\<open>cover_ok\<close>), there is a job table exactly while the
  manager is active (\<open>link_ok\<close>), and windows, dialog, jobs and grab are in step with each other
  (\<open>live_ok\<close>).  Most operations leave the first three alone, which the relation \<open>m_frame\<close> captures.
\<close>

section \<open>Definitions\<close>

definition follows :: "gs_manager \<Rightarrow> gs_window \<Rightarrow> bool" where
  "follows m w =
     (win_lock_enabled w = m_lock_active m \<and> win_user_switch_enabled w = m_user_switch_enabled m
      \<and> win_logout_enabled w = m_logout_enabled m \<and> win_keyboard_enabled w = m_keyboard_enabled m
      \<and> win_logout_timeout w = nat (m_logout_timeout m) \<and> win_logout_command w = m_logout_command m
      \<and> win_keyboard_command w = m_keyboard_command m \<and> win_status_message w = m_status_message m)"

definition cfg_ok :: "gs_manager \<Rightarrow> bool" where
  "cfg_ok m =
     (distinct (window_ids m) \<and> \<not> m_fading m
      \<and> (\<forall>w \<in> set (m_windows m). win_id w < m_next_id m \<and> follows m w))"

definition cover_ok :: "gs_manager \<Rightarrow> bool" where
  "cover_ok m =
     ((m_monitor_handlers m = 0 \<longrightarrow> m_windows m = [])
      \<and> (0 < m_monitor_handlers m \<longrightarrow> set (map win_monitor (m_windows m)) = set (m_monitors m))
      \<and> (m_active m \<longrightarrow> 0 < m_monitor_handlers m))"

definition link_ok :: "gs_manager \<Rightarrow> bool" where
  "link_ok m = ((m_jobs m = None) = (\<not> m_active m))"

text \<open>While jobs are held back, none is running.\<close>

definition job_rests :: "gs_manager \<Rightarrow> gs_job \<Rightarrow> bool" where
  "job_rests m j = (job_ok j \<and> (m_throttled m \<or> m_dialog_up m \<longrightarrow> j_status j \<noteq> GS_JOB_RUNNING))"

definition jobs_ok :: "gs_manager \<Rightarrow> bool" where
  "jobs_ok m =
     (\<forall>h. m_jobs m = Some h \<longrightarrow>
        gh_ok h \<and> set (map fst h) \<subseteq> set (window_ids m) \<and> (\<forall>(k, j) \<in> set h. job_rests m j))"

definition dialogs_ok :: "gs_manager \<Rightarrow> bool" where
  "dialogs_ok m =
     ((m_dialog_up m \<longleftrightarrow> (\<exists>w \<in> set (m_windows m). win_dialog_up w))
      \<and> (\<forall>v \<in> set (m_windows m). \<forall>w \<in> set (m_windows m). win_dialog_up v \<and> win_dialog_up w \<longrightarrow> win_id v = win_id w))"

definition wins_ok :: "gs_manager \<Rightarrow> bool" where
  "wins_ok m = (\<forall>w \<in> set (m_windows m). win_ok w \<and> \<not> win_freed w)"

definition timers_ok :: "gs_manager \<Rightarrow> bool" where
  "timers_ok m = (\<not> m_active m \<longrightarrow> m_lock_timeout_id m = None \<and> m_cycle_timeout_id m = None)"

definition live_ok :: "gs_manager \<Rightarrow> bool" where
  "live_ok m = (wins_ok m \<and> dialogs_ok m \<and> jobs_ok m \<and> grab_ok (m_grab m) \<and> timers_ok m)"

definition core_ok :: "gs_manager \<Rightarrow> bool" where
  "core_ok m = (cfg_ok m \<and> link_ok m \<and> live_ok m)"

definition manager_ok :: "gs_manager \<Rightarrow> bool" where
  "manager_ok m = (core_ok m \<and> cover_ok m)"

definition m_fix where
  "m_fix m = ((m_monitors m, m_monitor_handlers m, m_next_id m, m_active m, m_lock_active m, m_fading m,
      m_throttled m, m_jobs m = None),
     (m_user_switch_enabled m, m_logout_enabled m, m_keyboard_enabled m, m_logout_timeout m,
      m_logout_command m, m_keyboard_command m, m_status_message m),
     (m_lock_enabled m, m_lock_timeout m, m_cycle_timeout m, m_deactivated_idles m, m_fade m))"

definition m_frame :: "gs_manager \<Rightarrow> gs_manager \<Rightarrow> bool" where
  "m_frame m m' =
     (m_fix m' = m_fix m \<and> map win_cfg (m_windows m') = map win_cfg (m_windows m)
      \<and> (m_lock_active m \<longrightarrow> m_emit_idles m' = m_emit_idles m))"

definition keeps :: "(gs_manager \<Rightarrow> gs_manager res) \<Rightarrow> bool" where
  "keeps f = (\<forall>m. core_ok m \<longrightarrow> rpost (\<lambda>m'. m_frame m m' \<and> core_ok m') (f m))"

section \<open>The frame\<close>

lemma m_frame_refl [simp]: "m_frame m m"
  by (simp add: m_frame_def)

lemma m_fix_lock: "m_fix m' = m_fix m \<Longrightarrow> m_lock_active m' = m_lock_active m"
  by (simp add: m_fix_def)

lemma m_frame_trans: "m_frame a b \<Longrightarrow> m_frame b c \<Longrightarrow> m_frame a c"
  using m_fix_lock [of b a] by (simp add: m_frame_def)

lemma map_cfg_eq:
  assumes "map win_cfg ws = map win_cfg ws'"
  shows "map win_id ws = map win_id ws'" "map win_monitor ws = map win_monitor ws'"
  using arg_cong [OF assms, of "map fst"] arg_cong [OF assms, of "map (fst \<circ> snd)"]
  by (simp_all add: comp_def win_cfg_def)

lemma m_frame_maps:
  assumes "m_frame m m'"
  shows "window_ids m' = window_ids m" "map win_monitor (m_windows m') = map win_monitor (m_windows m)"
proof -
  have "map win_cfg (m_windows m') = map win_cfg (m_windows m)" using assms by (simp add: m_frame_def)
  note eq = map_cfg_eq [OF this]
  show "window_ids m' = window_ids m" unfolding window_ids_def by (rule eq)
  show "map win_monitor (m_windows m') = map win_monitor (m_windows m)" by (rule eq)
qed

lemmas m_frame_ids = m_frame_maps(1)

lemma m_frame_nil: "m_frame m m' \<Longrightarrow> (m_windows m' = []) = (m_windows m = [])"
  unfolding m_frame_def by (metis map_is_Nil_conv)

lemma m_frame_cover:
  assumes "m_frame m m'"
  shows "cover_ok m' = cover_ok m"
proof -
  have "set (map win_monitor (m_windows m')) = set (map win_monitor (m_windows m))"
    unfolding m_frame_maps(2) [OF assms] ..
  moreover have "m_monitor_handlers m' = m_monitor_handlers m" "m_monitors m' = m_monitors m" "m_active m' = m_active m"
    using assms by (simp_all add: m_frame_def m_fix_def)
  ultimately show ?thesis
    using m_frame_nil [OF assms] unfolding cover_ok_def by presburger
qed

lemma follows_cfg:
  "m_fix m' = m_fix m \<Longrightarrow> win_cfg w' = win_cfg w \<Longrightarrow> follows m' w' = follows m w"
  by (simp add: follows_def win_cfg_def m_fix_def)

lemma m_frame_cfg:
  assumes "m_frame m m'" "cfg_ok m"
  shows "cfg_ok m'"
proof -
  have fx: "m_fix m' = m_fix m" and cfg: "map win_cfg (m_windows m') = map win_cfg (m_windows m)"
    using assms(1) by (simp_all add: m_frame_def)
  have "win_id w' < m_next_id m' \<and> follows m' w'" if w': "w' \<in> set (m_windows m')" for w'
  proof -
    have "win_cfg w' \<in> set (map win_cfg (m_windows m))" using w' cfg by (metis image_eqI list.set_map)
    then obtain w where w: "w \<in> set (m_windows m)" "win_cfg w' = win_cfg w" by auto
    then have "win_id w' = win_id w" by (simp add: win_cfg_def)
    then show ?thesis using w assms(2) follows_cfg [OF fx w(2)] fx by (simp add: cfg_ok_def m_fix_def)
  qed
  then show ?thesis
    using assms m_frame_ids [OF assms(1)] fx by (simp add: cfg_ok_def m_fix_def)
qed

lemma m_frame_link: "m_frame m m' \<Longrightarrow> link_ok m \<Longrightarrow> link_ok m'"
  by (simp add: m_frame_def m_fix_def link_ok_def)

lemma m_frame_core: "m_frame m m' \<Longrightarrow> core_ok m \<Longrightarrow> live_ok m' \<Longrightarrow> core_ok m'"
  by (simp add: core_ok_def m_frame_cfg m_frame_link)

lemma core_live: "core_ok m \<Longrightarrow> live_ok m"
  by (simp add: core_ok_def)

lemma keepsI:
  "(\<And>m. core_ok m \<Longrightarrow> rpost (\<lambda>m'. m_frame m m' \<and> live_ok m') (f m)) \<Longrightarrow> keeps f"
  unfolding keeps_def by (blast intro: rpost_mono m_frame_core)

lemma keepsD: "keeps f \<Longrightarrow> core_ok m \<Longrightarrow> rpost (\<lambda>m'. m_frame m m' \<and> core_ok m') (f m)"
  by (simp add: keeps_def)

lemma keeps_ret [simp]: "keeps ret"
  by (simp add: keeps_def)

lemma keeps_rbind:
  assumes "keeps f" "keeps g"
  shows "keeps (\<lambda>m. rbind (f m) g)"
  unfolding keeps_def
proof (intro allI impI)
  fix m assume ok: "core_ok m"
  show "rpost (\<lambda>m'. m_frame m m' \<and> core_ok m') (rbind (f m) g)"
  proof (rule rpost_rbindI [OF keepsD [OF assms(1) ok]])
    fix m1 assume "m_frame m m1 \<and> core_ok m1"
    then show "rpost (\<lambda>m'. m_frame m m' \<and> core_ok m') (g m1)"
      using keepsD [OF assms(2), of m1] m_frame_trans by (auto intro: rpost_mono)
  qed
qed

lemma keeps_rfold: "(\<And>x. keeps (f x)) \<Longrightarrow> keeps (rfold f xs)"
proof (induction xs)
  case (Cons x xs)
  then have "keeps (\<lambda>m. rbind (f x m) (rfold f xs))" by (intro keeps_rbind) simp_all
  then show ?case by simp
qed (simp add: keeps_def)

lemma keeps_if: "(\<And>m. b m \<Longrightarrow> core_ok m \<Longrightarrow> rpost (\<lambda>m'. m_frame m m' \<and> core_ok m') (f m)) \<Longrightarrow>
   (\<And>m. \<not> b m \<Longrightarrow> core_ok m \<Longrightarrow> rpost (\<lambda>m'. m_frame m m' \<and> core_ok m') (g m)) \<Longrightarrow>
   keeps (\<lambda>m. if b m then f m else g m)"
  by (simp add: keeps_def)

lemma keeps_manager_ok: "keeps f \<Longrightarrow> manager_ok m \<Longrightarrow> rpost manager_ok (f m)"
  unfolding manager_ok_def by (erule rpost_mono [OF keepsD]) (auto simp: m_frame_cover)

section \<open>Windows\<close>

lemma win_of_Some: "win_of m i = Some w \<Longrightarrow> w \<in> set (m_windows m) \<and> win_id w = i"
  unfolding win_of_def find_Some_iff by auto

lemma with_win_post:
  "(\<And>w. win_of m i = Some w \<Longrightarrow> w \<in> set (m_windows m) \<Longrightarrow> win_id w = i \<Longrightarrow> \<not> win_freed w \<Longrightarrow> rpost Q (f w)) \<Longrightarrow>
   rpost Q (with_win i f m)"
  using win_of_Some [of m i] by (auto simp: with_win_def split: option.splits)

lemma put_win_same [simp]:
  "m_jobs (put_win w m) = m_jobs m" "m_grab (put_win w m) = m_grab m" "m_dialog_up (put_win w m) = m_dialog_up m"
  "m_fix (put_win w m) = m_fix m" "m_emit_idles (put_win w m) = m_emit_idles m"
  "m_lock_active (put_win w m) = m_lock_active m" "m_throttled (put_win w m) = m_throttled m"
  "m_active (put_win w m) = m_active m"
  "timers_ok (put_win w m) = timers_ok m" "window_ids (put_win w m) = window_ids m"
  by (auto simp: put_win_def m_fix_def timers_ok_def window_ids_def)

lemma put_win_set:
  "w \<in> set (m_windows (put_win w' m)) \<longleftrightarrow>
     (w = w' \<and> (\<exists>v \<in> set (m_windows m). win_id v = win_id w')) \<or> (w \<in> set (m_windows m) \<and> win_id w \<noteq> win_id w')"
  by (auto simp: put_win_def)

lemma distinct_ids_eq:
  "distinct (window_ids m) \<Longrightarrow> v \<in> set (m_windows m) \<Longrightarrow> w \<in> set (m_windows m) \<Longrightarrow> win_id v = win_id w \<Longrightarrow> v = w"
  by (simp add: window_ids_def distinct_map inj_on_def)

lemma put_win_cfg:
  assumes "cfg_ok m" "w \<in> set (m_windows m)" "win_cfg w' = win_cfg w"
  shows "map win_cfg (m_windows (put_win w' m)) = map win_cfg (m_windows m)"
proof -
  have id: "win_id w' = win_id w" using assms(3) by (simp add: win_cfg_def)
  have "v = w" if "v \<in> set (m_windows m)" "win_id v = win_id w" for v
    using distinct_ids_eq [of m v w] that assms(1,2) by (simp add: cfg_ok_def)
  then show ?thesis using id assms(3) by (auto simp: put_win_def)
qed

lemma put_win_frame:
  "cfg_ok m \<Longrightarrow> w \<in> set (m_windows m) \<Longrightarrow> win_cfg w' = win_cfg w \<Longrightarrow> m_frame m (put_win w' m)"
  by (simp add: m_frame_def put_win_cfg)

lemma jobs_ok_put_win [simp]: "jobs_ok (put_win w m) = jobs_ok m"
  by (simp add: jobs_ok_def job_rests_def)

lemma wins_ok_put_win:
  "wins_ok m \<Longrightarrow> win_ok w \<Longrightarrow> \<not> win_freed w \<Longrightarrow> wins_ok (put_win w m)"
  by (auto simp: wins_ok_def put_win_set)

lemma dialogs_ok_unique:
  assumes "dialogs_ok m" "v \<in> set (m_windows m)" "w \<in> set (m_windows m)" "win_dialog_up v" "win_dialog_up w"
  shows "win_id v = win_id w"
  using assms unfolding dialogs_ok_def by blast

lemma dialogs_okI:
  assumes "m_dialog_up m \<longleftrightarrow> (\<exists>w \<in> set (m_windows m). win_dialog_up w)"
    and "\<And>v w. v \<in> set (m_windows m) \<Longrightarrow> w \<in> set (m_windows m) \<Longrightarrow> win_dialog_up v \<Longrightarrow> win_dialog_up w \<Longrightarrow> win_id v = win_id w"
  shows "dialogs_ok m"
  using assms unfolding dialogs_ok_def by blast

lemma dialogs_ok_up: "dialogs_ok m \<Longrightarrow> m_dialog_up m \<longleftrightarrow> (\<exists>w \<in> set (m_windows m). win_dialog_up w)"
  unfolding dialogs_ok_def by blast

lemma dialogs_ok_put_win:
  assumes "cfg_ok m" "dialogs_ok m" "w \<in> set (m_windows m)" "win_id w' = win_id w" "win_dialog_up w' = win_dialog_up w"
  shows "dialogs_ok (put_win w' m)"
proof -
  have "v = w" if "v \<in> set (m_windows m)" "win_id v = win_id w" for v
    using distinct_ids_eq [of m v w] that assms(1,3) by (simp add: cfg_ok_def)
  then have up: "win_dialog_up v = win_dialog_up w'" if "v \<in> set (m_windows m)" "win_id v = win_id w'" for v
    using that assms(4,5) by auto
  have mem: "\<exists>v \<in> set (m_windows m). win_id v = win_id v' \<and> win_dialog_up v = win_dialog_up v'"
    if "v' \<in> set (m_windows (put_win w' m))" for v'
  proof (cases "v' = w'")
    case True
    then show ?thesis using assms(3,4,5) by (intro bexI [of _ w]) simp_all
  next
    case False
    then show ?thesis using that put_win_set [of v' w' m] by (intro bexI [of _ v']) simp_all
  qed
  have mem': "\<exists>v' \<in> set (m_windows (put_win w' m)). win_dialog_up v' = win_dialog_up v"
    if "v \<in> set (m_windows m)" for v
  proof (cases "win_id v = win_id w'")
    case True
    then show ?thesis using that up [of v] put_win_set [of w' w' m] by (intro bexI [of _ w']) auto
  next
    case False
    then show ?thesis using that put_win_set [of v w' m] by (intro bexI [of _ v]) simp_all
  qed
  have "(\<exists>v \<in> set (m_windows (put_win w' m)). win_dialog_up v) = (\<exists>v \<in> set (m_windows m). win_dialog_up v)"
    using mem mem' by blast
  then have "m_dialog_up (put_win w' m) = (\<exists>v \<in> set (m_windows (put_win w' m)). win_dialog_up v)"
    using dialogs_ok_up [OF assms(2)] by simp
  then show ?thesis
  proof (rule dialogs_okI)
    fix u v assume uv: "u \<in> set (m_windows (put_win w' m))" "v \<in> set (m_windows (put_win w' m))"
      "win_dialog_up u" "win_dialog_up v"
    obtain u0 where u0: "u0 \<in> set (m_windows m)" "win_id u0 = win_id u" "win_dialog_up u0"
      using mem [OF uv(1)] uv(3) by auto
    obtain v0 where v0: "v0 \<in> set (m_windows m)" "win_id v0 = win_id v" "win_dialog_up v0"
      using mem [OF uv(2)] uv(4) by auto
    show "win_id u = win_id v" using dialogs_ok_unique [OF assms(2) u0(1) v0(1) u0(3) v0(3)] u0(2) v0(2) by simp
  qed
qed

text \<open>An operation on one window that keeps its identity, its settings and the state of its dialog.\<close>

lemma put_win_core:
  assumes "core_ok m" "w \<in> set (m_windows m)" "win_cfg w' = win_cfg w" "win_dialog_up w' = win_dialog_up w"
    "win_ok w'" "\<not> win_freed w'"
  shows "m_frame m (put_win w' m) \<and> core_ok (put_win w' m)"
proof -
  have c: "cfg_ok m" and l: "live_ok m" using assms(1) by (simp_all add: core_ok_def)
  have id: "win_id w' = win_id w" using assms(3) by (simp add: win_cfg_def)
  have f: "m_frame m (put_win w' m)" using put_win_frame [OF c] assms(2,3) .
  have "live_ok (put_win w' m)"
    using l dialogs_ok_put_win [OF c _ assms(2) id assms(4)] wins_ok_put_win [of m w'] assms(5,6)
    by (simp add: live_ok_def)
  then show ?thesis using f m_frame_core [OF f assms(1)] by simp
qed

section \<open>Jobs\<close>

definition env_ok :: "manager_env \<Rightarrow> bool" where
  "env_ok e = (spawn_ok (me_proc e) \<and> win_spawn_ok (me_win e))"

lemma job_stop_rests:
  "job_ok j \<Longrightarrow> rpost (\<lambda>(r, j'). job_ok j' \<and> j_status j' \<noteq> GS_JOB_RUNNING) (gs_job_stop pe j)"
  by (auto simp: gs_job_stop_def job_ok_def gs_job_suspend_def kill_child_def gs_job_died_def wait_on_child_def
      remove_command_watch_def)

lemma job_suspend_rests:
  "job_ok j \<Longrightarrow> rpost (\<lambda>(r, j'). job_ok j' \<and> j_status j' \<noteq> GS_JOB_RUNNING) (gs_job_suspend True j)"
  by (auto simp: job_ok_def gs_job_suspend_def kill_child_def)

lemma job_resume_ok: "job_ok j \<Longrightarrow> rpost (\<lambda>(r, j'). job_ok j') (gs_job_suspend False j)"
  by (auto simp: job_ok_def gs_job_suspend_def kill_child_def)

lemma select_theme_job_ok:
  "job_ok j \<Longrightarrow> rpost (\<lambda>j'. job_ok j' \<and> j_status j' = j_status j) (manager_select_theme_for_job e m j)"
  by (auto simp: manager_select_theme_for_job_def gs_job_set_command_def job_ok_def rpost_def res_simps
      split: option.splits)

lemma maybe_start_rests:
  assumes "env_ok e" "job_rests m j"
  shows "rpost (job_rests m) (maybe_start_job e m i j)"
proof (cases "m_dialog_up m \<or> m_throttled m \<or> gs_job_is_running j")
  case True
  then show ?thesis using assms(2) by (auto simp: maybe_start_job_def)
next
  case False
  have "job_rests m (snd (gs_job_start (me_proc e) j))"
    using assms False job_ok_start by (simp add: job_rests_def env_ok_def)
  then show ?thesis
    using False assms(2) unfolding maybe_start_job_def by (simp, intro with_win_post) simp
qed

lemma cycle_job_rests:
  assumes "env_ok e" "job_ok j"
  shows "rpost (job_rests m) (cycle_job e m i j)"
  unfolding cycle_job_def
proof (intro rpost_rbindI [OF job_stop_rests [OF assms(2)]], clarify)
  fix j1 assume j1: "job_ok j1" "j_status j1 \<noteq> GS_JOB_RUNNING"
  show "rpost (job_rests m) (rbind (manager_select_theme_for_job e m j1) (maybe_start_job e m i))"
  proof (rule rpost_rbindI [OF select_theme_job_ok [OF j1(1)]])
    fix j2 assume "job_ok j2 \<and> j_status j2 = j_status j1"
    then show "rpost (job_rests m) (maybe_start_job e m i j2)"
      using j1(2) by (intro maybe_start_rests [OF assms(1)]) (simp add: job_rests_def)
  qed
qed

lemma throttle_job_rests:
  assumes "env_ok e" "\<not> m_dialog_up m" "job_ok j"
  shows "rpost (job_rests m) (throttle_job e m i j)"
proof (cases "m_throttled m")
  case True
  then show ?thesis
    using job_stop_rests [OF assms(3)] by (auto simp: throttle_job_def job_rests_def rpost_def res_simps)
next
  case False
  then show ?thesis
    using maybe_start_rests [OF assms(1), of m j i] assms by (simp add: throttle_job_def job_rests_def)
qed

lemma resume_job_rests:
  assumes "env_ok e" "\<not> m_dialog_up m" "\<not> m_throttled m" "job_ok j"
  shows "rpost (job_rests m) (resume_job e m i j)"
  using maybe_start_rests [OF assms(1), of m j i] job_resume_ok [OF assms(4)] assms
  by (auto simp: resume_job_def job_rests_def rpost_def res_simps)

lemma suspend_job_rests: "job_ok j \<Longrightarrow> rpost (job_rests m) (suspend_job j)"
  using job_suspend_rests [of j] by (auto simp: suspend_job_def job_rests_def rpost_def res_simps)

lemma job_rests_update [simp]:
  "job_rests (m\<lparr>m_jobs := h\<rparr>) = job_rests m"
  "job_rests (m\<lparr>m_grab := g\<rparr>) = job_rests m"
  "job_rests (m\<lparr>m_windows := ws\<rparr>) = job_rests m"
  by (simp_all add: job_rests_def fun_eq_iff)

text \<open>A loop over the job table: the jobs are well-formed before and at rest, where needed, after it.\<close>

lemma jobs_foreach_post:
  assumes ok: "\<forall>h. m_jobs m = Some h \<longrightarrow> gh_ok h \<and> set (map fst h) \<subseteq> set (window_ids m) \<and> (\<forall>(k, j) \<in> set h. job_ok j)"
    and f: "\<And>k j. job_ok j \<Longrightarrow> rpost (job_rests m) (f k j)"
  shows "rpost (\<lambda>m'. jobs_ok m' \<and> (\<exists>h. m' = m\<lparr>m_jobs := h\<rparr> \<and> (h = None) = (m_jobs m = None))) (jobs_foreach f m)"
proof (cases "m_jobs m")
  case None
  then show ?thesis by (auto simp: jobs_foreach_def jobs_ok_def intro!: exI [of _ None])
next
  case (Some h)
  let ?P = "\<lambda>x y. fst y = fst x \<and> job_rests m (snd y)"
  have "rpost (list_all2 ?P h) (rmap (\<lambda>(k, job). rbind (f k job) (\<lambda>job. ret (k, job))) h)"
  proof (rule rpost_rmap)
    fix x assume "x \<in> set h"
    then have "job_ok (snd x)" using ok Some by auto
    then show "rpost (?P x) (case x of (k, job) \<Rightarrow> rbind (f k job) (\<lambda>job. ret (k, job)))"
      using f [of "snd x" "fst x"] by (auto simp: rpost_def res_simps split: prod.splits)
  qed
  moreover have "jobs_ok (m\<lparr>m_jobs := Some h'\<rparr>)" if "list_all2 ?P h h'" for h'
  proof -
    have "map fst h' = map fst h" using that by (induction rule: list_all2_induct) auto
    moreover have "\<forall>y \<in> set h'. job_rests m (snd y)" using that by (induction rule: list_all2_induct) auto
    ultimately show ?thesis
      using ok Some by (auto simp: jobs_ok_def gh_ok_def window_ids_def simp flip: set_map)
  qed
  ultimately show ?thesis
    using Some by (auto simp: jobs_foreach_def rpost_def res_simps)
qed

lemma jobs_ok_weak:
  "jobs_ok m \<Longrightarrow> \<forall>h. m_jobs m = Some h \<longrightarrow> gh_ok h \<and> set (map fst h) \<subseteq> set (window_ids m) \<and> (\<forall>(k, j) \<in> set h. job_ok j)"
  by (auto simp: jobs_ok_def job_rests_def)

lemma lookup_job_rests: "jobs_ok m \<Longrightarrow> lookup_job_for_window m i = Some j \<Longrightarrow> job_rests m j"
  by (auto simp: lookup_job_for_window_def jobs_ok_def gh_lookup_def split: option.splits dest!: map_of_SomeD)

lemma set_job_same [simp]:
  "m_windows (set_job i j m) = m_windows m" "m_grab (set_job i j m) = m_grab m"
  "m_dialog_up (set_job i j m) = m_dialog_up m" "m_fix (set_job i j m) = m_fix m"
  "m_emit_idles (set_job i j m) = m_emit_idles m" "timers_ok (set_job i j m) = timers_ok m"
  "m_throttled (set_job i j m) = m_throttled m"
  by (simp_all add: set_job_def m_fix_def timers_ok_def)

lemma jobs_okI:
  assumes "m_jobs m = Some h" "distinct (map fst h)" "set (map fst h) \<subseteq> set (window_ids m)"
    "\<And>k j. (k, j) \<in> set h \<Longrightarrow> job_rests m j"
  shows "jobs_ok m"
  using assms by (auto simp: jobs_ok_def gh_ok_def)

lemma jobs_ok_set_job:
  assumes "jobs_ok m" "job_rests m j"
  shows "jobs_ok (set_job i j m)"
proof (cases "m_jobs m")
  case None
  then show ?thesis by (simp add: jobs_ok_def set_job_def)
next
  case (Some h)
  let ?h = "map (\<lambda>(k, v). (k, if k = i then j else v)) h"
  have ok: "distinct (map fst h)" "set (map fst h) \<subseteq> set (window_ids m)" "\<forall>x \<in> set h. job_rests m (snd x)"
    using assms(1) Some by (auto simp: jobs_ok_def gh_ok_def)
  have r: "job_rests (set_job i j m) = job_rests m" by (simp add: job_rests_def fun_eq_iff)
  have k: "map fst ?h = map fst h" by (induction h) auto
  show ?thesis
  proof (rule jobs_okI [of _ ?h])
    show "m_jobs (set_job i j m) = Some ?h" using Some by (simp add: set_job_def)
    show "distinct (map fst ?h)" unfolding k by (rule ok)
    show "set (map fst ?h) \<subseteq> set (window_ids (set_job i j m))"
      unfolding k using ok(2) by (simp add: window_ids_def)
    show "\<And>k j'. (k, j') \<in> set ?h \<Longrightarrow> job_rests (set_job i j m) j'"
      unfolding r using ok(3) assms(2) by auto
  qed
qed

lemma dialogs_ok_cong:
  "m_windows m' = m_windows m \<Longrightarrow> m_dialog_up m' = m_dialog_up m \<Longrightarrow> dialogs_ok m' = dialogs_ok m"
  unfolding dialogs_ok_def by (simp only:)

lemma live_ok_frame:
  assumes "m_windows m' = m_windows m" "m_dialog_up m' = m_dialog_up m" "timers_ok m'" "grab_ok (m_grab m')"
    "jobs_ok m'" "live_ok m"
  shows "live_ok m'"
proof -
  have "dialogs_ok m'" using assms(6) dialogs_ok_cong [OF assms(1,2)] by (simp add: live_ok_def)
  then show ?thesis using assms by (simp add: live_ok_def wins_ok_def)
qed

lemma set_job_keeps:
  assumes "core_ok m" "job_rests m j"
  shows "m_frame m (set_job i j m) \<and> core_ok (set_job i j m)"
proof -
  have l: "live_ok m" using assms(1) by (rule core_live)
  have f: "m_frame m (set_job i j m)" by (simp add: m_frame_def)
  have "live_ok (set_job i j m)"
    by (rule live_ok_frame [OF _ _ _ _ _ l]) (use l jobs_ok_set_job assms(2) in \<open>simp_all add: live_ok_def\<close>)
  then show ?thesis using f m_frame_core assms(1) by blast
qed

section \<open>The dialog\<close>

lemma move_grab_post:
  "grab_ok (m_grab m) \<Longrightarrow>
     rpost (\<lambda>m'. \<exists>g. m' = m\<lparr>m_grab := g\<rparr> \<and> grab_ok g \<and> g_seat g = Some i) (manager_move_grab e i np m)"
  unfolding manager_move_grab_def
  by (rule rpost_rbindI [OF grab_move_to_window_post]) auto

lemma set_sensitive_post:
  "rpost (\<lambda>m'. m' = m\<lparr>m_windows := map (\<lambda>w. if P w then w\<lparr>win_sensitive := b\<rparr> else w) (m_windows m)\<rparr>)
     (set_sensitive P b m)"
  by (simp add: set_sensitive_def)

lemma sensitive_map [simp]:
  "map win_cfg (map (\<lambda>w. if P w then w\<lparr>win_sensitive := b\<rparr> else w) ws) = map win_cfg ws"
  "map win_id (map (\<lambda>w. if P w then w\<lparr>win_sensitive := b\<rparr> else w) ws) = map win_id ws"
  by (simp_all add: win_cfg_def)

lemma win_ok_sensitive [simp]: "win_ok (w\<lparr>win_sensitive := b\<rparr>) = win_ok w"
  by (simp add: win_ok_def)

text \<open>The state of the windows after the sensitivity changed: nothing else did.\<close>

lemma sensitive_wins:
  assumes "m_windows m' = map (\<lambda>w. if P w then w\<lparr>win_sensitive := b\<rparr> else w) (m_windows m)"
  shows "wins_ok m \<Longrightarrow> wins_ok m'" "window_ids m' = window_ids m"
    "w' \<in> set (m_windows m') \<Longrightarrow> \<exists>w \<in> set (m_windows m). win_id w' = win_id w \<and> win_dialog_up w' = win_dialog_up w"
proof -
  show "wins_ok m \<Longrightarrow> wins_ok m'" by (auto simp: wins_ok_def assms)
  show "window_ids m' = window_ids m" by (simp only: window_ids_def assms sensitive_map)
  show "w' \<in> set (m_windows m') \<Longrightarrow> \<exists>w \<in> set (m_windows m). win_id w' = win_id w \<and> win_dialog_up w' = win_dialog_up w"
    by (auto simp: assms)
qed

text \<open>What the two handlers need, whichever way the dialog just went.\<close>

definition half_ok :: "gs_manager \<Rightarrow> bool" where
  "half_ok m = (wins_ok m \<and> grab_ok (m_grab m) \<and> timers_ok m)"

definition table_ok :: "gs_manager \<Rightarrow> bool" where
  "table_ok m = (\<forall>h. m_jobs m = Some h \<longrightarrow>
     gh_ok h \<and> set (map fst h) \<subseteq> set (window_ids m) \<and> (\<forall>(k, j) \<in> set h. job_ok j))"

lemma live_half: "live_ok m = (half_ok m \<and> dialogs_ok m \<and> jobs_ok m)"
  by (auto simp: live_ok_def half_ok_def)

lemma jobs_ok_table: "jobs_ok m \<Longrightarrow> table_ok m"
  unfolding table_ok_def by (rule jobs_ok_weak)

lemma table_ok_cong: "m_jobs m' = m_jobs m \<Longrightarrow> window_ids m' = window_ids m \<Longrightarrow> table_ok m' = table_ok m"
  by (simp add: table_ok_def)

lemma jobs_foreach_live:
  assumes "half_ok m" "dialogs_ok m" "table_ok m" "\<And>k j. job_ok j \<Longrightarrow> rpost (job_rests m) (f k j)"
  shows "rpost (\<lambda>m'. m_frame m m' \<and> live_ok m' \<and> m_dialog_up m' = m_dialog_up m) (jobs_foreach f m)"
proof (rule rpost_mono [OF jobs_foreach_post [OF assms(3) [unfolded table_ok_def] assms(4)]])
  fix m' assume m': "jobs_ok m' \<and> (\<exists>h. m' = m\<lparr>m_jobs := h\<rparr> \<and> (h = None) = (m_jobs m = None))"
  then obtain h where h: "m' = m\<lparr>m_jobs := h\<rparr>" "(h = None) = (m_jobs m = None)" by (elim conjE exE)
  then have "dialogs_ok m'" using dialogs_ok_cong [of m' m] assms(2) by simp
  then show "m_frame m m' \<and> live_ok m' \<and> m_dialog_up m' = m_dialog_up m"
    using m' h assms(1) by (simp add: m_frame_def m_fix_def live_ok_def half_ok_def wins_ok_def timers_ok_def)
qed

text \<open>A change of sensitivity, grab and dialog flag.\<close>

lemma sensitive_state:
  assumes m': "m' = m\<lparr>m_grab := g, m_windows := map (\<lambda>w. if P w then w\<lparr>win_sensitive := b\<rparr> else w) (m_windows m),
      m_dialog_up := d\<rparr>"
    and ok: "half_ok m" "table_ok m" "grab_ok g"
  shows "m_frame m m'" "half_ok m'" "table_ok m'"
proof -
  have win: "m_windows m' = map (\<lambda>w. if P w then w\<lparr>win_sensitive := b\<rparr> else w) (m_windows m)" using m' by simp
  show "m_frame m m'" using m' sensitive_map(1) [of P b "m_windows m"] by (simp add: m_frame_def m_fix_def)
  show "half_ok m'" using ok sensitive_wins(1) [OF win] m' by (simp add: half_ok_def timers_ok_def)
  show "table_ok m'" using ok(2) table_ok_cong [of m' m] sensitive_wins(2) [OF win] m' by simp
qed

lemma dialog_down_post:
  assumes e: "env_ok e" and ok: "half_ok m" "jobs_ok m"
    and down: "\<And>w. w \<in> set (m_windows m) \<Longrightarrow> \<not> win_dialog_up w"
  shows "rpost (\<lambda>m'. m_frame m m' \<and> live_ok m' \<and> \<not> m_dialog_up m') (handle_window_dialog_down e i m)"
  unfolding handle_window_dialog_down_def
proof (intro rpost_rbindI [OF move_grab_post] rpost_rbindI [OF set_sensitive_post], goal_cases)
  case 1
  then show ?case using ok by (simp add: half_ok_def)
next
  case (2 m1 m2)
  then obtain g where g: "m1 = m\<lparr>m_grab := g\<rparr>" "grab_ok g" by blast
  let ?m = "m2\<lparr>m_dialog_up := False\<rparr>"
  have m': "?m = m\<lparr>m_grab := g, m_windows := map (\<lambda>w. if True then w\<lparr>win_sensitive := True\<rparr> else w) (m_windows m),
      m_dialog_up := False\<rparr>"
    using g 2 by simp
  note st = sensitive_state [OF m' ok(1) jobs_ok_table [OF ok(2)] g(2)]
  have win: "m_windows ?m = map (\<lambda>w. if True then w\<lparr>win_sensitive := True\<rparr> else w) (m_windows m)" using m' by simp
  have "\<not> win_dialog_up w" if "w \<in> set (m_windows ?m)" for w
    using sensitive_wins(3) [OF win that] down by auto
  then have dl: "dialogs_ok ?m" by (intro dialogs_okI) auto
  show ?case
  proof (cases "m_throttled m2")
    case True
    have "jobs_ok ?m" using ok(2) True sensitive_wins(2) [OF win] m' by (auto simp: jobs_ok_def job_rests_def)
    then show ?thesis using True st dl by (simp add: live_half)
  next
    case False
    have "rpost (\<lambda>m'. m_frame ?m m' \<and> live_ok m' \<and> m_dialog_up m' = m_dialog_up ?m) (manager_resume_jobs e ?m)"
      unfolding manager_resume_jobs_def using False
      by (intro jobs_foreach_live [OF st(2) dl st(3)] resume_job_rests [OF e]) simp_all
    then show ?thesis using False m_frame_trans [OF st(1)] by (auto simp: Let_def intro: rpost_mono)
  qed
qed

lemma dialog_up_post:
  assumes ok: "half_ok m" "jobs_ok m" and up: "\<And>w. w \<in> set (m_windows m) \<Longrightarrow> win_dialog_up w \<longleftrightarrow> win_id w = i"
    and i: "i \<in> set (window_ids m)"
  shows "rpost (\<lambda>m'. m_frame m m' \<and> live_ok m' \<and> m_dialog_up m') (handle_window_dialog_up e i m)"
  unfolding handle_window_dialog_up_def
proof (intro rpost_rbindI [OF set_sensitive_post] rpost_rbindI [OF move_grab_post], goal_cases)
  case (1 m1)
  then show ?case using ok by (simp add: half_ok_def)
next
  case (2 m1 m2)
  then obtain g where g: "m2 = m1\<lparr>m_grab := g\<rparr>" "grab_ok g" by blast
  have m': "m2 = m\<lparr>m_grab := g, m_windows := map (\<lambda>w. if win_id w \<noteq> i then w\<lparr>win_sensitive := False\<rparr> else w) (m_windows m),
      m_dialog_up := True\<rparr>"
    using g 2 by simp
  note st = sensitive_state [OF m' ok(1) jobs_ok_table [OF ok(2)] g(2)]
  have win: "m_windows m2 = map (\<lambda>w. if win_id w \<noteq> i then w\<lparr>win_sensitive := False\<rparr> else w) (m_windows m)" using m' by simp
  have upto: "win_dialog_up w \<longleftrightarrow> win_id w = i" if "w \<in> set (m_windows m2)" for w
    using sensitive_wins(3) [OF win that] up by auto
  have "\<exists>w \<in> set (m_windows m2). win_dialog_up w"
    using i upto unfolding sensitive_wins(2) [OF win, symmetric] by (auto simp: window_ids_def)
  moreover have "m_dialog_up m2" using m' by simp
  ultimately have dl: "dialogs_ok m2" using upto by (intro dialogs_okI) simp_all
  show ?case
  proof (cases "m_throttled m2")
    case True
    have "jobs_ok m2" using ok(2) True sensitive_wins(2) [OF win] m' by (auto simp: jobs_ok_def job_rests_def)
    then show ?thesis using True st dl m' by (simp add: live_half)
  next
    case False
    have "rpost (\<lambda>m'. m_frame m2 m' \<and> live_ok m' \<and> m_dialog_up m' = m_dialog_up m2) (manager_suspend_jobs m2)"
      unfolding manager_suspend_jobs_def
      by (intro jobs_foreach_live [OF st(2) dl st(3)] suspend_job_rests)
    then show ?thesis using False m_frame_trans [OF st(1)] m' by (auto intro: rpost_mono)
  qed
qed

lemma win_of_put_win:
  assumes "win_of m i = Some w" "win_id w' = i"
  shows "win_of (put_win w' m) i = Some w'"
proof -
  have "find (\<lambda>w. win_id w = i) (map (\<lambda>v. if win_id v = win_id w' then w' else v) ws) = Some w'"
    if "find (\<lambda>w. win_id w = i) ws = Some w" for ws
    using that assms(2) by (induction ws) (auto split: if_splits)
  then show ?thesis using assms(1) by (simp add: win_of_def put_win_def)
qed

lemma others_down:
  assumes "core_ok m" "w \<in> set (m_windows m)" "win_dialog_up w" "\<not> win_dialog_up w'" "win_id w' = win_id w"
    and v: "v \<in> set (m_windows (put_win w' m))"
  shows "\<not> win_dialog_up v"
proof (cases "v = w'")
  case False
  then have "v \<in> set (m_windows m)" "win_id v \<noteq> win_id w'" using v put_win_set [of v w' m] by auto
  then show ?thesis
    using assms dialogs_ok_unique [of m v w] by (auto simp: core_ok_def live_ok_def)
qed (use assms in simp)

text \<open>Cancelling keeps the invariant and leaves the dialog of the window down.\<close>

lemma cancel_window_post:
  assumes e: "env_ok e" and ok: "core_ok m"
  shows "rpost (\<lambda>m'. m_frame m m' \<and> live_ok m' \<and> (\<forall>w \<in> set (m_windows m'). win_id w = i \<longrightarrow> \<not> win_dialog_up w))
           (manager_cancel_window e i m)"
proof -
  have l: "half_ok m" "dialogs_ok m" "jobs_ok m" and cfg: "cfg_ok m"
    using ok by (simp_all add: core_ok_def live_half)
  show ?thesis
    unfolding manager_cancel_window_def gs_window_cancel_unlock_request_def
  proof (intro with_win_post rpost_rbindI [OF popdown_post], goal_cases)
    case (1 w x)
    obtain w' evs where x: "x = (w', evs)" by (cases x)
    have w: "win_of m i = Some w" "w \<in> set (m_windows m)" "win_id w = i" "\<not> win_freed w"
      and w': "win_same w w'" "\<not> win_dialog_up w'" "win_ok w \<longrightarrow> win_lock_pid w' = 0 \<and> win_ok w'"
      and evs: "evs = (if win_dialog_up w then [Dialog_Up_Changed] else [])"
      using 1 x by simp_all
    have wok: "win_ok w'" "\<not> win_freed w'" and c: "win_cfg w' = win_cfg w" and id: "win_id w' = i"
      using l(1) w w' win_sameD [OF w'(1)] by (auto simp: half_ok_def wins_ok_def win_same_def)
    show ?case
    proof (cases "win_dialog_up w")
      case False
      then show ?thesis
        using put_win_core [OF ok w(2) c _ wok] w'(2) x evs id by (auto simp: core_live put_win_set)
    next
      case True
      let ?m = "put_win w' m"
      have f: "m_frame m ?m" by (rule put_win_frame [OF cfg w(2) c])
      have "half_ok ?m" using l(1) wok wins_ok_put_win by (simp add: half_ok_def)
      moreover have "jobs_ok ?m" using l(3) by simp
      moreover have "\<not> win_dialog_up v" if "v \<in> set (m_windows ?m)" for v
        using others_down [OF ok w(2) True w'(2) _ that] id w(3) by simp
      ultimately have "rpost (\<lambda>m'. m_frame ?m m' \<and> live_ok m' \<and> \<not> m_dialog_up m') (handle_window_dialog_down e i ?m)"
        by (intro dialog_down_post [OF e])
      then have "rpost (\<lambda>m'. m_frame ?m m' \<and> live_ok m' \<and> (\<forall>w \<in> set (m_windows m'). win_id w = i \<longrightarrow> \<not> win_dialog_up w))
          (handle_window_dialog_down e i ?m)"
        by (rule rpost_mono) (use dialogs_ok_up in \<open>auto simp: live_half\<close>)
      then show ?thesis
        using True x evs win_of_put_win [OF w(1) id] wok(2) w'(2) m_frame_trans [OF f]
        by (auto simp: unlock_event_def window_dialog_up_changed_cb_def with_win_def gs_window_is_dialog_up_def
            intro: rpost_mono)
    qed
  qed
qed

lemma cancel_window_keeps: "env_ok e \<Longrightarrow> keeps (manager_cancel_window e i)"
  by (rule keepsI) (auto intro: rpost_mono [OF cancel_window_post])

lemma win_cfg_background [simp]:
  "win_cfg (gs_window_set_background_surface b w) = win_cfg w"
  "win_dialog_up (gs_window_set_background_surface b w) = win_dialog_up w"
  "win_ok (gs_window_set_background_surface b w) = win_ok w"
  "win_freed (gs_window_set_background_surface b w) = win_freed w"
  by (simp_all add: gs_window_set_background_surface_def win_cfg_def win_ok_def)

lemma core_wins: "core_ok m \<Longrightarrow> w \<in> set (m_windows m) \<Longrightarrow> win_ok w \<and> \<not> win_freed w"
  by (simp add: core_ok_def live_ok_def wins_ok_def)

text \<open>An operation on one window that cannot bring its dialog up or down.\<close>

lemma quiet_op_keeps:
  assumes "\<And>w. win_ok w \<Longrightarrow> \<not> win_freed w \<Longrightarrow> win_cfg (f w) = win_cfg w \<and> win_dialog_up (f w) = win_dialog_up w
             \<and> win_ok (f w) \<and> \<not> win_freed (f w)"
  shows "keeps (\<lambda>m. with_win i (\<lambda>w. ret (put_win (f w) m)) m)"
proof (rule keepsI, intro with_win_post)
  fix m w assume ok: "core_ok m" and w: "w \<in> set (m_windows m)"
  show "rpost (\<lambda>m'. m_frame m m' \<and> live_ok m') (ret (put_win (f w) m))"
    using put_win_core [OF ok w, of "f w"] assms [of w] core_wins [OF ok w] by (simp add: core_live)
qed

lemma background_keeps: "keeps (apply_background_to_window e i)"
  unfolding apply_background_to_window_def by (rule quiet_op_keeps) simp

lemma find_window_mem: "rpost (\<lambda>w. w \<in> set (m_windows m)) (find_window_at_pointer e m)"
proof -
  have "w \<in> set ws \<or> found = Some w"
    if "fold (\<lambda>w found. if gs_window_get_monitor w = me_pointer_monitor e then Some w else found) ws found = Some w" for ws found w
    using that by (induction ws arbitrary: found) (auto split: if_splits)
  then show ?thesis
    by (auto simp: find_window_at_pointer_def split: option.splits list.splits)
qed

text \<open>Requesting the unlock of one window while no dialog is up.\<close>

lemma unlock_window_post:
  assumes ok: "core_ok m" "\<not> m_dialog_up m" and w: "win_of m i = Some w" "w \<in> set (m_windows m)" "win_id w = i"
  shows "rpost (\<lambda>m'. m_frame m m' \<and> live_ok m')
     (rfold (unlock_event e i) (snd (gs_window_request_unlock w)) (put_win (fst (gs_window_request_unlock w)) m))"
proof -
  let ?w = "fst (gs_window_request_unlock w)"
  have l: "half_ok m" "dialogs_ok m" "jobs_ok m" and cfg: "cfg_ok m" using ok(1) by (simp_all add: core_ok_def live_half)
  have s: "win_same w ?w" by (rule request_unlock_same)
  have wok: "win_ok ?w" "\<not> win_freed ?w" and c: "win_cfg ?w = win_cfg w" and id: "win_id ?w = i"
    using core_wins [OF ok(1) w(2)] w(3) win_sameD [OF s] request_unlock_ok [of w] s by (simp_all add: win_same_def)
  have lock: "win_lock_enabled w = m_lock_active m" using cfg w(2) by (simp add: cfg_ok_def follows_def)
  have dn: "\<not> win_dialog_up w" using dialogs_ok_up [OF l(2)] ok(2) w(2) by auto
  let ?m = "put_win ?w m"
  have f: "m_frame m ?m" by (rule put_win_frame [OF cfg w(2) c])
  show ?thesis
  proof (cases "win_dialog_up ?w")
    case False
    then have "live_ok ?m" using put_win_core [OF ok(1) w(2) c _ wok] dn by (simp add: core_live)
    moreover have "live_ok (?m\<lparr>m_emit_idles := x\<rparr>)" if "live_ok ?m" for x
      by (rule live_ok_frame [OF _ _ _ _ _ that])
        (use that in \<open>auto simp: live_ok_def timers_ok_def jobs_ok_def job_rests_def window_ids_def\<close>)
    moreover have "m_frame m (?m\<lparr>m_emit_idles := x\<rparr>)" if "\<not> m_lock_active m" for x
      using f that by (simp add: m_frame_def m_fix_def)
    ultimately show ?thesis
      using f False dn lock request_unlock_events [of w] by (auto simp: unlock_event_def)
  next
    case True
    have "half_ok ?m" using l(1) wok wins_ok_put_win by (simp add: half_ok_def)
    moreover have "win_dialog_up v \<longleftrightarrow> win_id v = i" if "v \<in> set (m_windows ?m)" for v
      using that True id ok(2) dialogs_ok_up [OF l(2)] put_win_set [of v ?w m] by auto
    moreover have "i \<in> set (window_ids ?m)" unfolding put_win_same using w(2,3) by (auto simp: window_ids_def)
    ultimately have "rpost (\<lambda>m'. m_frame ?m m' \<and> live_ok m' \<and> m_dialog_up m') (handle_window_dialog_up e i ?m)"
      using l(3) by (intro dialog_up_post) simp_all
    then show ?thesis
      using True dn request_unlock_events [of w] win_of_put_win [OF w(1) id] wok(2) m_frame_trans [OF f]
      by (auto simp: unlock_event_def window_dialog_up_changed_cb_def with_win_def gs_window_is_dialog_up_def
          intro: rpost_mono)
  qed
qed

lemma request_unlock_post:
  assumes "core_ok m"
  shows "rpost (\<lambda>(r, m'). m_frame m m' \<and> core_ok m') (gs_manager_request_unlock e m)"
proof (cases "\<not> m_active m \<or> m_dialog_up m \<or> m_windows m = []")
  case True
  then show ?thesis using assms by (auto simp: gs_manager_request_unlock_def core_ok_def cfg_ok_def)
next
  case False
  have nf: "\<not> m_fading m" using assms by (simp add: core_ok_def cfg_ok_def)
  have bg: "rpost (\<lambda>m'. (m_frame m m' \<and> core_ok m') \<and> m_dialog_up m' = m_dialog_up m) (apply_background_to_window e i m)" for i
  proof -
    have "rpost (\<lambda>m'. m_dialog_up m' = m_dialog_up m) (apply_background_to_window e i m)"
      unfolding apply_background_to_window_def by (intro with_win_post) simp
    then show ?thesis using keepsD [OF background_keeps assms, of e i] by (simp add: rpost_conj)
  qed
  have "rpost (\<lambda>(r, m'). m_frame m m' \<and> core_ok m')
      (rbind (find_window_at_pointer e m) (\<lambda>w. rbind (apply_background_to_window e (win_id w) m) (\<lambda>m.
          with_win (win_id w) (\<lambda>w. let (w, evs) = gs_window_request_unlock w in
            rbind (rfold (unlock_event e (win_id w)) evs (put_win w m)) (\<lambda>m. ret (True, m))) m)))"
  proof (intro rpost_rbindI [OF find_window_mem] rpost_rbindI [OF bg] with_win_post)
    fix w0 m1 w assume m1: "(m_frame m m1 \<and> core_ok m1) \<and> m_dialog_up m1 = m_dialog_up m"
      and w: "win_of m1 (win_id w0) = Some w" "w \<in> set (m_windows m1)" "win_id w = win_id w0"
    have "win_id (fst (gs_window_request_unlock w)) = win_id w0" using win_sameD(1) [OF request_unlock_same] w(3) by simp
    then show "rpost (\<lambda>(r, m'). m_frame m m' \<and> core_ok m') (let (w, evs) = gs_window_request_unlock w in
            rbind (rfold (unlock_event e (win_id w)) evs (put_win w m1)) (\<lambda>m. ret (True, m)))"
      using unlock_window_post [OF _ _ w, of e] m1 False m_frame_trans [of m m1] m_frame_core [of m1]
      by (auto simp: split_def Let_def intro: rpost_mono)
  qed
  then show ?thesis using False nf by (simp add: gs_manager_request_unlock_def)
qed

lemma request_unlock_keeps: "keeps (\<lambda>m. rbind (gs_manager_request_unlock e m) (\<lambda>(_, m). ret m))"
  unfolding keeps_def using request_unlock_post by (auto simp: split_def)

section \<open>Job operations of one window\<close>

lemma maybe_stop_keeps: "keeps (manager_maybe_stop_job_for_window e i)"
proof (rule keepsI)
  fix m assume ok: "core_ok m"
  show "rpost (\<lambda>m'. m_frame m m' \<and> live_ok m') (manager_maybe_stop_job_for_window e i m)"
  proof (cases "lookup_job_for_window m i")
    case None
    then show ?thesis using ok by (simp add: manager_maybe_stop_job_for_window_def core_live)
  next
    case (Some j)
    then have "job_ok j" using lookup_job_rests [of m i j] ok by (simp add: core_ok_def live_ok_def job_rests_def)
    then have "rpost (\<lambda>(r, j'). m_frame m (set_job i j' m) \<and> live_ok (set_job i j' m)) (gs_job_stop (me_proc e) j)"
      by (intro rpost_mono [OF job_stop_rests]) (auto simp: job_rests_def intro!: core_live set_job_keeps [OF ok, THEN conjunct1] set_job_keeps [OF ok, THEN conjunct2])
    then show ?thesis using Some by (simp add: manager_maybe_stop_job_for_window_def split_def)
  qed
qed

lemma maybe_start_keeps:
  assumes e: "env_ok e"
  shows "keeps (manager_maybe_start_job_for_window e i)"
proof (rule keepsI)
  fix m assume ok: "core_ok m"
  show "rpost (\<lambda>m'. m_frame m m' \<and> live_ok m') (manager_maybe_start_job_for_window e i m)"
  proof (cases "lookup_job_for_window m i")
    case None
    then show ?thesis using ok by (simp add: manager_maybe_start_job_for_window_def core_live)
  next
    case (Some j)
    then have "job_rests m j" using lookup_job_rests [of m i j] ok by (simp add: core_ok_def live_ok_def)
    then have "rpost (\<lambda>j'. m_frame m (set_job i j' m) \<and> live_ok (set_job i j' m)) (maybe_start_job e m i j)"
      using set_job_keeps [OF ok] core_live by (intro rpost_mono [OF maybe_start_rests [OF e]]) blast+
    then show ?thesis using Some by (simp add: manager_maybe_start_job_for_window_def)
  qed
qed

lemma jobs_foreach_keeps:
  assumes "core_ok m" "\<And>k j. job_ok j \<Longrightarrow> rpost (job_rests m) (f k j)"
  shows "rpost (\<lambda>m'. m_frame m m' \<and> live_ok m') (jobs_foreach f m)"
proof -
  have "half_ok m" "dialogs_ok m" "table_ok m"
    using assms(1) jobs_ok_table by (simp_all add: core_ok_def live_half)
  then show ?thesis by (auto intro: rpost_mono [OF jobs_foreach_live [OF _ _ _ assms(2)]])
qed

lemma cycle_keeps:
  assumes "env_ok e"
  shows "keeps (\<lambda>m. rbind (gs_manager_cycle e m) (\<lambda>(_, m). ret m))"
proof (rule keepsI)
  fix m assume ok: "core_ok m"
  have "rpost (\<lambda>m'. m_frame m m' \<and> live_ok m') (manager_cycle_jobs e m)"
    unfolding manager_cycle_jobs_def by (intro jobs_foreach_keeps [OF ok] cycle_job_rests [OF assms])
  then show "rpost (\<lambda>m'. m_frame m m' \<and> live_ok m') (rbind (gs_manager_cycle e m) (\<lambda>(_, m). ret m))"
    using ok by (simp add: gs_manager_cycle_def core_live)
qed

lemma cycle_timeout_keeps: "env_ok e \<Longrightarrow> keeps (cycle_timeout e)"
  using cycle_keeps [of e] unfolding keeps_def cycle_timeout_def by auto

lemma grab_keeps: "keeps (manager_move_grab e i np)"
proof (rule keepsI)
  fix m assume ok: "core_ok m"
  then have l: "live_ok m" by (rule core_live)
  show "rpost (\<lambda>m'. m_frame m m' \<and> live_ok m') (manager_move_grab e i np m)"
  proof (rule rpost_mono [OF move_grab_post])
    show "grab_ok (m_grab m)" using l by (simp add: live_ok_def)
    fix m' assume "\<exists>g. m' = m\<lparr>m_grab := g\<rparr> \<and> grab_ok g \<and> g_seat g = Some i"
    then obtain g where g: "m' = m\<lparr>m_grab := g\<rparr>" "grab_ok g" by blast
    have "live_ok m'"
      by (rule live_ok_frame [OF _ _ _ _ _ l]) (use g l in \<open>auto simp: live_ok_def timers_ok_def jobs_ok_def window_ids_def\<close>)
    then show "m_frame m m' \<and> live_ok m'" using g by (simp add: m_frame_def m_fix_def)
  qed
qed

lemma keeps_with_win:
  "(\<And>w. keeps (f w)) \<Longrightarrow> keeps (\<lambda>m. with_win i (\<lambda>w. f w m) m)"
  unfolding keeps_def by (auto intro: with_win_post)

lemma maybe_grab_keeps: "keeps (manager_maybe_grab_window e i)"
  unfolding manager_maybe_grab_window_def
proof (rule keeps_with_win)
  fix w show "keeps (\<lambda>m. if gs_window_get_monitor w = me_pointer_monitor e then manager_move_grab e i False m else ret m)"
    by (cases "gs_window_get_monitor w = me_pointer_monitor e") (simp_all add: grab_keeps)
qed

lemma map_event_keeps: "env_ok e \<Longrightarrow> keeps (window_map_event_cb e i)"
  unfolding window_map_event_cb_def by (intro keeps_rbind maybe_start_keeps maybe_grab_keeps)

lemma obscured_keeps: "env_ok e \<Longrightarrow> keeps (window_obscured_cb e i)"
  unfolding window_obscured_cb_def Let_def maybe_set_window_throttle_def
proof (intro keeps_with_win)
  fix w assume e: "env_ok e"
  show "keeps (\<lambda>m. rbind (if gs_window_is_obscured w then manager_maybe_stop_job_for_window e i m
                else manager_maybe_start_job_for_window e i m)
          (\<lambda>m. if \<not> gs_window_is_obscured w then rbind (gs_manager_request_unlock e m) (\<lambda>(_, m). ret m) else ret m))"
    by (cases "gs_window_is_obscured w")
      (simp_all add: keeps_rbind maybe_stop_keeps maybe_start_keeps [OF e] request_unlock_keeps)
qed

lemma activity_keeps: "keeps (window_activity_cb e i)"
  unfolding window_activity_cb_def by (rule request_unlock_keeps)

section \<open>Operations of one window run by the main loop\<close>

text \<open>An operation that emits at most the two signals that do not come from the dialog.\<close>

lemma on_window_keeps:
  assumes e: "env_ok e"
    and f: "\<And>w. win_ok w \<Longrightarrow> \<not> win_freed w \<Longrightarrow>
      rpost (\<lambda>(w', evs). win_cfg w' = win_cfg w \<and> win_dialog_up w' = win_dialog_up w \<and> win_ok w' \<and> \<not> win_freed w'
        \<and> set evs \<subseteq> {Activity, Obscured_Changed}) (f w)"
  shows "keeps (on_window e i f)"
  unfolding keeps_def
proof (intro allI impI)
  fix m assume ok: "core_ok m"
  show "rpost (\<lambda>m'. m_frame m m' \<and> core_ok m') (on_window e i f m)"
    unfolding on_window_def
  proof (intro with_win_post rpost_rbindI [OF f], goal_cases)
    case (3 w x)
    obtain w' evs where x: "x = (w', evs)" by (cases x)
    have p: "m_frame m (put_win w' m)" "core_ok (put_win w' m)"
      using put_win_core [OF ok 3(2), of w'] 3 x by simp_all
    have "keeps (rfold (window_event e i) vs)" if "set vs \<subseteq> {Activity, Obscured_Changed}" for vs
      using that
    proof (induction vs)
      case (Cons v vs)
      have "keeps (window_event e i v)"
        using Cons.prems activity_keeps obscured_keeps [OF e] by (auto simp: window_event_def keeps_def)
      moreover have "keeps (rfold (window_event e i) vs)" using Cons by auto
      ultimately have "keeps (\<lambda>m. rbind (window_event e i v m) (rfold (window_event e i) vs))" by (rule keeps_rbind)
      then show ?case by simp
    qed (simp add: keeps_def)
    then have "keeps (rfold (window_event e i) evs)" using 3 x by simp
    then show ?case
      using keepsD [OF _ p(2)] m_frame_trans [OF p(1)] x by (auto intro: rpost_mono)
  qed (use core_wins [OF ok] in auto)
qed

end
