(* ===== verification/GS_Manager_Life.thy ===== *)
theory GS_Manager_Life
  imports GS_Manager_Inv
begin

text \<open>
  The invariant of the manager through the life of its windows: the handlers of one window, showing,
  creating and destroying windows, monitors that come and go, activation and deactivation, and the
  settings.
\<close>

section \<open>Handlers of one window\<close>

definition win_op_ok :: "(gs_window \<Rightarrow> (gs_window \<times> win_event list) res) \<Rightarrow> bool" where
  "win_op_ok f = (\<forall>w. win_ok w \<and> \<not> win_freed w \<longrightarrow>
     rpost (\<lambda>(w', evs). win_cfg w' = win_cfg w \<and> win_dialog_up w' = win_dialog_up w \<and> win_ok w' \<and> \<not> win_freed w'
        \<and> set evs \<subseteq> {Activity, Obscured_Changed}) (f w))"

lemma win_op_keeps: "env_ok e \<Longrightarrow> win_op_ok f \<Longrightarrow> keeps (on_window e i f)"
  by (rule on_window_keeps) (simp_all add: win_op_ok_def)

lemma activity_events: "set (maybe_handle_activity w) \<subseteq> {Activity, Obscured_Changed}"
  by (auto simp: maybe_handle_activity_def)

lemma key_press_cfg:
  "win_cfg (gs_window_real_key_press_event k w) = win_cfg w"
  "win_dialog_up (gs_window_real_key_press_event k w) = win_dialog_up w"
  "win_freed (gs_window_real_key_press_event k w) = win_freed w"
  "set (key_press_activity k w) \<subseteq> {Activity, Obscured_Changed}"
  using activity_events [of w]
  by (simp_all add: gs_window_real_key_press_event_def key_press_activity_def queue_key_event_def win_cfg_def)

lemma key_press_op:
  "win_op_ok (\<lambda>w. ret (w, key_press_activity k w))" "win_op_ok (\<lambda>w. ret (gs_window_real_key_press_event k w, []))"
  by (simp_all add: win_op_ok_def key_press_cfg key_press_ok)

lemma motion_op: "win_op_ok (\<lambda>w. ret (gs_window_real_motion_notify_event e x y w))"
  using activity_events
  by (auto simp: win_op_ok_def gs_window_real_motion_notify_event_def win_cfg_def win_ok_def Let_def)

lemma button_op: "win_op_ok (\<lambda>w. ret (gs_window_real_button_press_event w))"
  "win_op_ok (\<lambda>w. ret (gs_window_real_scroll_event w))"
  using activity_events by (auto simp: win_op_ok_def gs_window_real_button_press_event_def gs_window_real_scroll_event_def)

lemma visibility_op: "win_op_ok (\<lambda>w. ret (gs_window_real_visibility_notify_event v w))"
  by (cases v) (auto simp: win_op_ok_def gs_window_real_visibility_notify_event_def window_set_obscured_def
      win_cfg_def win_ok_def)

lemma keyboard_watch_op:
  "win_op_ok (\<lambda>w. rbind (keyboard_command_watch e c w) (\<lambda>(_, w). ret (w, [])))"
  by (auto simp: win_op_ok_def keyboard_command_watch_def keyboard_command_finish_def kill_keyboard_command_def
      win_wait_on_child_def create_keyboard_socket_def win_cfg_def win_ok_def Let_def
      split: watch_condition.splits line_status.splits option.splits)

lemma socket_ops:
  "win_op_ok (\<lambda>w. ret (lock_plug_removed w, []))"
  "win_op_ok (\<lambda>w. ret (keyboard_plug_removed w, []))"
  "win_op_ok (\<lambda>w. ret (lock_socket_show w, []))"
  "win_op_ok (\<lambda>w. ret (info_bar_timeout w, []))"
  by (auto simp: win_op_ok_def lock_plug_removed_def keyboard_plug_removed_def lock_socket_show_def
      forward_key_events_def info_bar_timeout_def win_cfg_def win_ok_def)

lemma popup_idle_op:
  assumes "win_spawn_ok e"
  shows "win_op_ok (\<lambda>w. if win_popup_dialog_idle_id w then ret (popup_dialog_idle e w, []) else ret (w, []))"
  unfolding win_op_ok_def
proof (intro allI impI)
  fix w assume w: "win_ok w \<and> \<not> win_freed w"
  have "win_same w (popup_dialog_idle e w)" "win_dialog_up (popup_dialog_idle e w) = win_dialog_up w"
    by (rule popup_dialog_idle_same)+
  then show "rpost (\<lambda>(w', evs). win_cfg w' = win_cfg w \<and> win_dialog_up w' = win_dialog_up w \<and> win_ok w' \<and> \<not> win_freed w'
        \<and> set evs \<subseteq> {Activity, Obscured_Changed})
      (if win_popup_dialog_idle_id w then ret (popup_dialog_idle e w, []) else ret (w, []))"
    using w popup_dialog_idle_ok [OF assms, of w] by (auto simp: win_same_def win_face_def)
qed

text \<open>The two ends of the shaking animation, between which the main loop runs.\<close>

definition shake_begin :: "gs_window \<Rightarrow> gs_window" where
  "shake_begin w = w\<lparr>win_dialog_shake_in_progress := True\<rparr>"

definition shake_end :: "gs_window \<Rightarrow> gs_window" where
  "shake_end w = maybe_kill_dialog (w\<lparr>win_dialog_shake_in_progress := False\<rparr>)"

lemma shake_dialog_split: "shake_dialog pump w = shake_end (shake_rounds pump 8 (shake_begin w))"
  by (simp add: shake_dialog_def shake_end_def shake_begin_def)

lemma maybe_kill_same [simp]:
  "win_cfg (maybe_kill_dialog w) = win_cfg w" "win_dialog_up (maybe_kill_dialog w) = win_dialog_up w"
  "win_ok (maybe_kill_dialog w) = win_ok w" "win_freed (maybe_kill_dialog w) = win_freed w"
  by (simp_all add: maybe_kill_dialog_def win_cfg_def win_ok_def)

lemma shake_ops:
  "win_op_ok (\<lambda>w. ret (shake_begin w, []))" "win_op_ok (\<lambda>w. ret (shake_end w, []))"
  by (simp_all add: win_op_ok_def shake_begin_def shake_end_def, simp_all add: win_cfg_def win_ok_def)

section \<open>Lines of the dialog\<close>

definition is_shake_line :: "string \<Rightarrow> bool" where
  "is_shake_line line = (strstr line ''WINDOW ID='' = None \<and> strstr line ''NOTICE=AUTH FAILED'' \<noteq> None)"

definition says_ok :: "watch_condition \<Rightarrow> bool" where
  "says_ok c = (\<exists>line. c = Watch_In (Line line) \<and> dialog_says_ok line)"

definition dialog_output ::
  "manager_env \<Rightarrow> nat \<Rightarrow> watch_condition \<Rightarrow> gs_manager \<Rightarrow> gs_manager res" where
  "dialog_output e i c m =
     on_window e i (\<lambda>w. rbind (lock_command_watch (me_win e) (\<lambda>_. id) c w) (\<lambda>(_, w, evs). ret (w, evs))) m"

text \<open>A line that does not end the dialog is a quiet operation.\<close>

lemma dialog_line_quiet:
  assumes "win_spawn_ok e" "\<not> is_shake_line line" "win_ok w" "\<not> win_freed w" "dialog_line e pump line w = (w', False)"
  shows "win_cfg w' = win_cfg w \<and> win_dialog_up w' = win_dialog_up w \<and> win_ok w' \<and> \<not> win_freed w'"
proof -
  have sock: "win_cfg (create_lock_socket e n w) = win_cfg w \<and> win_dialog_up (create_lock_socket e n w) = win_dialog_up w
      \<and> \<not> win_freed (create_lock_socket e n w)" for n
    using assms(4)
    by (simp add: create_lock_socket_def embed_keyboard_def win_cfg_def Let_def split: option.splits)
  have "w' = w \<or> (\<exists>n. w' = create_lock_socket e n w) \<or> w' = maybe_kill_dialog (w\<lparr>win_dialog_quit_requested := True\<rparr>)"
    using assms(2,5) unfolding dialog_line_def is_shake_line_def
    by (cases "scan_window_id line") (simp_all split: if_splits, blast)
  then show ?thesis
  proof (elim disjE exE)
    fix n assume "w' = create_lock_socket e n w"
    then show ?thesis using sock [of n] create_lock_socket_ok [OF assms(1,3)] by simp
  next
    assume "w' = maybe_kill_dialog (w\<lparr>win_dialog_quit_requested := True\<rparr>)"
    then show ?thesis using assms(3,4) by (simp, simp add: win_cfg_def win_ok_def)
  qed (use assms in simp)
qed

text \<open>The answer of the dialog is remembered in its window; the invariant does not depend on it.\<close>

definition with_response :: "nat \<Rightarrow> dialog_response \<Rightarrow> gs_window \<Rightarrow> gs_window" where
  "with_response i r w = (if win_id w = i then w\<lparr>win_dialog_response := r\<rparr> else w)"

definition set_response :: "nat \<Rightarrow> dialog_response \<Rightarrow> gs_manager \<Rightarrow> gs_manager" where
  "set_response i r m = m\<lparr>m_windows := map (with_response i r) (m_windows m)\<rparr>"

definition no_ok :: "gs_manager \<Rightarrow> bool" where
  "no_ok m = (\<forall>w \<in> set (m_windows m). win_dialog_response w \<noteq> DIALOG_RESPONSE_OK)"

lemma with_response_fields [simp]:
  "win_id (with_response i r w) = win_id w" "win_monitor (with_response i r w) = win_monitor w"
  "win_dialog_up (with_response i r w) = win_dialog_up w" "win_freed (with_response i r w) = win_freed w"
  "win_ok (with_response i r w) = win_ok w" "follows m (with_response i r w) = follows m w"
  by (simp_all add: with_response_def win_ok_def follows_def)

lemma with_response_id: "win_dialog_response w = r \<Longrightarrow> with_response i r w = w"
  by (cases w) (simp add: with_response_def)

lemma set_response_maps [simp]:
  "window_ids (set_response i r m) = window_ids m"
  "map win_monitor (m_windows (set_response i r m)) = map win_monitor (m_windows m)"
  "m_fix (set_response i r m) = m_fix m" "m_emit_idles (set_response i r m) = m_emit_idles m"
  by (simp_all add: set_response_def window_ids_def m_fix_def comp_def)

lemma set_response_cover: "cover_ok (set_response i r m) = cover_ok m"
proof -
  have "set (map win_monitor (m_windows (set_response i r m))) = set (map win_monitor (m_windows m))" by simp
  then show ?thesis unfolding cover_ok_def by (simp add: set_response_def)
qed

lemma set_response_core:
  assumes "core_ok m"
  shows "core_ok (set_response i r m)"
proof -
  have w: "m_windows (set_response i r m) = map (with_response i r) (m_windows m)" by (simp add: set_response_def)
  have fo: "follows (set_response i r m) v = follows m v" for v by (simp add: follows_def set_response_def)
  have "dialogs_ok (set_response i r m) = dialogs_ok m"
    unfolding dialogs_ok_def w by (simp add: set_response_def)
  moreover have "cfg_ok (set_response i r m) = cfg_ok m"
    unfolding cfg_ok_def set_response_maps(1) w fo by (simp add: set_response_def)
  moreover have "wins_ok (set_response i r m) = wins_ok m" unfolding wins_ok_def w by simp
  moreover have "jobs_ok (set_response i r m) = jobs_ok m" "link_ok (set_response i r m) = link_ok m" "timers_ok (set_response i r m) = timers_ok m"
    unfolding jobs_ok_def job_rests_def link_ok_def timers_ok_def set_response_maps(1) by (simp_all add: set_response_def)
  ultimately show ?thesis using assms by (simp add: core_ok_def live_ok_def) (simp add: set_response_def)
qed

lemma set_response_idI: "(\<And>w. w \<in> set (m_windows m) \<Longrightarrow> win_id w = i \<Longrightarrow> win_dialog_response w = r) \<Longrightarrow> set_response i r m = m"
  unfolding set_response_def
  by (subst map_idI [of _ "with_response i r"]) (auto simp: with_response_id, simp add: with_response_def)

lemma set_response_id:
  assumes "no_ok m"
  shows "set_response i DIALOG_RESPONSE_CANCEL m = m"
  by (rule set_response_idI) (use assms in \<open>metis dialog_response.exhaust no_ok_def\<close>)

lemma put_win_set_response: "win_id v = i \<Longrightarrow> put_win v (set_response i r m) = put_win v m"
  by (auto simp: put_win_def set_response_def with_response_def)

lemma win_of_set_response:
  assumes "win_of m i = Some w" "w \<in> set (m_windows m)" "win_id w = i"
  shows "win_of (set_response i r m) i = Some (w\<lparr>win_dialog_response := r\<rparr>)"
    "w\<lparr>win_dialog_response := r\<rparr> \<in> set (m_windows (set_response i r m))"
proof -
  have w: "with_response i r w = w\<lparr>win_dialog_response := r\<rparr>" using assms(3) by (simp add: with_response_def)
  have "find (\<lambda>v. win_id v = i) (map (with_response i r) ws) = Some (with_response i r w)"
    if "find (\<lambda>v. win_id v = i) ws = Some w" for ws
    using that by (induction ws) (auto split: if_splits)
  then show "win_of (set_response i r m) i = Some (w\<lparr>win_dialog_response := r\<rparr>)"
    using assms(1) w by (simp add: win_of_def set_response_def)
  show "w\<lparr>win_dialog_response := r\<rparr> \<in> set (m_windows (set_response i r m))"
    using assms(2) w by (auto simp: set_response_def image_iff intro!: bexI [of _ w])
qed

lemma finish_window_post:
  assumes e: "env_ok e" and ok: "core_ok m"
    and w: "win_of m i = Some w" "w \<in> set (m_windows m)" "win_id w = i"
    and w1: "win_cfg w1 = win_cfg w" "win_dialog_up w1 = win_dialog_up w" "win_ok w1" "\<not> win_freed w1"
    and m0: "\<And>v. win_id v = i \<Longrightarrow> put_win v m0 = put_win v m"
  shows "rpost (\<lambda>(_, w', evs). rpost (\<lambda>m'. m_frame m (m'\<lparr>m_emit_idles := m_emit_idles m\<rparr>) \<and> core_ok m'
             \<and> (win_dialog_response w1 \<noteq> DIALOG_RESPONSE_OK \<longrightarrow> m_frame m m'))
           (rfold (window_event e i) evs (put_win w' m0))) (lock_command_finished (me_win e) w1)"
proof (rule rpost_mono [OF finished_events], goal_cases)
  case (1 x)
  obtain b w' evs where x: "x = (b, w', evs)" by (cases x)
  have ws: "win_same w1 w'" "\<not> win_dialog_up w'" "win_ok w'"
    and evs: "evs = (if win_dialog_up w1 then [Dialog_Up_Changed] else [])
             @ (if win_dialog_response w1 = DIALOG_RESPONSE_OK then [Deactivated_Queued] else [])"
    using 1 x w1 by auto
  have c: "win_cfg w' = win_cfg w" and id: "win_id w' = i" and nf: "\<not> win_freed w'"
    using ws w1 w(3) win_sameD(1,7) [OF ws(1)] by (simp_all add: win_same_def win_cfg_def)
  have l: "half_ok m" "dialogs_ok m" "jobs_ok m" and cfg: "cfg_ok m" using ok by (simp_all add: core_ok_def live_half)
  let ?m = "put_win w' m"
  have p: "put_win w' m0 = ?m" by (rule m0 [OF id])
  have f: "m_frame m ?m" by (rule put_win_frame [OF cfg w(2) c])
  have q: "core_ok (m1\<lparr>m_emit_idles := y\<rparr>)" if "core_ok m1" for m1 y
    using that dialogs_ok_cong [of "m1\<lparr>m_emit_idles := y\<rparr>" m1]
    by (simp add: core_ok_def live_ok_def cfg_ok_def link_ok_def wins_ok_def jobs_ok_def job_rests_def timers_ok_def
        window_ids_def follows_def)
  have fin: "rpost (\<lambda>m'. m_frame m (m'\<lparr>m_emit_idles := m_emit_idles m\<rparr>) \<and> core_ok m'
             \<and> (win_dialog_response w1 \<noteq> DIALOG_RESPONSE_OK \<longrightarrow> m_frame m m'))
        (rfold (window_event e i) (if win_dialog_response w1 = DIALOG_RESPONSE_OK then [Deactivated_Queued] else []) m1)"
    if "m_frame m m1" "core_ok m1" for m1
    using that q [OF that(2)] by (auto simp: window_event_def unlock_event_def m_frame_def m_fix_def)
  show ?case
  proof (cases "win_dialog_up w1")
    case False
    then have "core_ok ?m" using put_win_core [OF ok w(2) c _ ws(3) nf] ws(2) w1(2) by simp
    then show ?thesis using fin [OF f] x evs False p by simp
  next
    case True
    have "half_ok ?m" using l(1) ws(3) nf wins_ok_put_win by (simp add: half_ok_def)
    moreover have "\<not> win_dialog_up v" if "v \<in> set (m_windows ?m)" for v
      using others_down [OF ok w(2) _ ws(2) _ that] True w1(2) id w(3) by simp
    ultimately have "rpost (\<lambda>m'. m_frame ?m m' \<and> live_ok m' \<and> \<not> m_dialog_up m') (handle_window_dialog_down e i ?m)"
      using l(3) by (intro dialog_down_post [OF e]) simp_all
    then have "rpost (\<lambda>m'. m_frame m m' \<and> core_ok m') (window_event e i Dialog_Up_Changed ?m)"
      using win_of_put_win [OF w(1) id] nf ws(2) m_frame_trans [OF f] m_frame_core [OF _ ok]
      by (auto simp: window_event_def unlock_event_def window_dialog_up_changed_cb_def with_win_def
          gs_window_is_dialog_up_def intro: rpost_mono)
    then show ?thesis using x evs True fin p by (auto simp: intro: rpost_mono)
  qed
qed

text \<open>
  Reading from the dialog: the invariant is kept, and nothing but a line with the answer OK, or an
  earlier such answer, queues a deactivation.
\<close>

lemma dialog_line_finished:
  assumes "dialog_line e pump line w = (w1, True)"
  shows "\<exists>r. w1 = w\<lparr>win_dialog_response := r\<rparr> \<and> (r = DIALOG_RESPONSE_OK \<longrightarrow> dialog_says_ok line)"
proof -
  have r: "strstr line ''WINDOW ID='' = None" "strstr line ''NOTICE='' = None"
    "w1 = w\<lparr>win_dialog_response := (if strstr line ''RESPONSE=OK'' \<noteq> None then DIALOG_RESPONSE_OK else DIALOG_RESPONSE_CANCEL)\<rparr>"
    using assms unfolding dialog_line_def by (simp_all split: if_splits option.splits)
  then show ?thesis by (auto simp: dialog_says_ok_def)
qed

lemma dialog_output_post:
  assumes e: "env_ok e" and ok: "core_ok m" and ns: "\<And>line. c = Watch_In (Line line) \<Longrightarrow> \<not> is_shake_line line"
  shows "rpost (\<lambda>m'. (\<exists>r. m_frame (set_response i r m) (m'\<lparr>m_emit_idles := m_emit_idles m\<rparr>)) \<and> core_ok m'
           \<and> (\<not> says_ok c \<and> no_ok m \<longrightarrow> m_frame m m'))
         (dialog_output e i c m)"
  unfolding dialog_output_def on_window_def
proof (intro with_win_post)
  fix w assume w: "win_of m i = Some w" "w \<in> set (m_windows m)" "win_id w = i" "\<not> win_freed w"
  let ?Q = "\<lambda>m'. (\<exists>r. m_frame (set_response i r m) (m'\<lparr>m_emit_idles := m_emit_idles m\<rparr>)) \<and> core_ok m'
           \<and> (\<not> says_ok c \<and> no_ok m \<longrightarrow> m_frame m m')"
  let ?F = "\<lambda>(w', evs). rfold (window_event e i) evs (put_win w' m)"
  have wok: "win_ok w" using core_wins [OF ok w(2)] by simp
  have same: "set_response i (win_dialog_response w) m = m"
  proof -
    have "v = w" if "v \<in> set (m_windows m)" "win_id v = i" for v
      using distinct_ids_eq [of m v w] that w(2,3) ok by (simp add: core_ok_def cfg_ok_def)
    then show ?thesis by (intro set_response_idI) blast
  qed
  have quiet: "?Q (put_win w1 m)" if "win_cfg w1 = win_cfg w" "win_dialog_up w1 = win_dialog_up w" "win_ok w1" "\<not> win_freed w1" for w1
  proof -
    have "(put_win w1 m)\<lparr>m_emit_idles := m_emit_idles m\<rparr> = put_win w1 m" by (simp add: put_win_def)
    then show ?thesis using put_win_core [OF ok w(2) that] same by metis
  qed
  have fin: "rpost (\<lambda>x. rpost ?Q (?F (snd x))) (lock_command_finished (me_win e) (w\<lparr>win_dialog_response := r\<rparr>))"
    if "r = DIALOG_RESPONSE_OK \<longrightarrow> says_ok c \<or> win_dialog_response w = DIALOG_RESPONSE_OK" for r
  proof -
    let ?m = "set_response i r m"
    have id: "no_ok m \<Longrightarrow> r \<noteq> DIALOG_RESPONSE_OK \<Longrightarrow> ?m = m" using set_response_id [of m i] by (cases r) simp_all
    have "win_ok (w\<lparr>win_dialog_response := r\<rparr>)" using wok by (simp add: win_ok_def)
    then have "rpost (\<lambda>x. rpost (\<lambda>m'. m_frame ?m (m'\<lparr>m_emit_idles := m_emit_idles m\<rparr>) \<and> core_ok m'
             \<and> (r \<noteq> DIALOG_RESPONSE_OK \<longrightarrow> m_frame ?m m')) (?F (snd x))) (lock_command_finished (me_win e) (w\<lparr>win_dialog_response := r\<rparr>))"
      using finish_window_post [OF e set_response_core [OF ok] win_of_set_response [OF w(1-3)] _ refl refl _ _ put_win_set_response [symmetric]]
        w(3,4) by (simp add: split_def)
    moreover have "?Q m'" if "m_frame ?m (m'\<lparr>m_emit_idles := m_emit_idles m\<rparr>) \<and> core_ok m' \<and> (r \<noteq> DIALOG_RESPONSE_OK \<longrightarrow> m_frame ?m m')" for m'
      using that id \<open>r = DIALOG_RESPONSE_OK \<longrightarrow> says_ok c \<or> win_dialog_response w = DIALOG_RESPONSE_OK\<close> w(2) by (metis no_ok_def)
    ultimately show ?thesis by (elim rpost_mono)
  qed
  have "rpost (\<lambda>x. rpost ?Q (?F (snd x))) (lock_command_watch (me_win e) (\<lambda>_. id) c w)"
  proof (cases "\<exists>line. c = Watch_In (Line line)")
    case True
    then obtain line where c: "c = Watch_In (Line line)" by blast
    obtain w1 b where l: "dialog_line (me_win e) (\<lambda>_. id) line w = (w1, b)" by (metis prod.exhaust)
    show ?thesis
    proof (cases b)
      case True
      then obtain r where "w1 = w\<lparr>win_dialog_response := r\<rparr>" "r = DIALOG_RESPONSE_OK \<longrightarrow> says_ok c"
        using dialog_line_finished [of "me_win e" "\<lambda>_. id" line w w1] l c by (auto simp: says_ok_def)
      then show ?thesis using fin [of r] c l True by (simp add: lock_command_watch_def)
    next
      case False
      then show ?thesis
        using dialog_line_quiet [OF _ ns [OF c] wok w(4), of "me_win e" "\<lambda>_. id" w1] quiet [of w1] l c e
        by (simp add: lock_command_watch_def env_ok_def)
    qed
  next
    case False
    have "w\<lparr>win_dialog_response := win_dialog_response w\<rparr> = w" by simp
    then show ?thesis
      using False fin [of "win_dialog_response w"] quiet [OF refl refl wok w(4)]
      by (auto simp: lock_command_watch_def split: watch_condition.splits line_status.splits)
  qed
  then show "rpost ?Q (rbind (rbind (lock_command_watch (me_win e) (\<lambda>_. id) c w) (\<lambda>(_, w, evs). ret (w, evs))) ?F)"
    by (simp add: split_def)
qed

section \<open>Showing\<close>

lemma alist_update_mem: "(k', v') \<in> set (AList.update k v al) \<Longrightarrow> (k', v') = (k, v) \<or> (k', v') \<in> set al"
  by (induction al) (auto split: if_splits)

lemma jobs_ok_insert:
  assumes "jobs_ok m" "job_rests m j" "i \<in> set (window_ids m)"
  shows "jobs_ok (manager_add_job_for_window i j m)"
proof (cases "m_jobs m")
  case None
  then show ?thesis by (simp add: manager_add_job_for_window_def jobs_ok_def)
next
  case (Some h)
  let ?m = "manager_add_job_for_window i j m"
  have ok: "gh_ok h" "set (map fst h) \<subseteq> set (window_ids m)" "\<forall>x \<in> set h. job_rests m (snd x)"
    using assms(1) Some by (auto simp: jobs_ok_def)
  have m: "?m = m\<lparr>m_jobs := Some (gh_insert i j h)\<rparr>" using Some by (simp add: manager_add_job_for_window_def)
  show ?thesis
  proof (rule jobs_okI [of _ "gh_insert i j h"])
    show "m_jobs ?m = Some (gh_insert i j h)" using m by simp
    show "distinct (map fst (gh_insert i j h))" using gh.ok_insert [OF ok(1)] by (simp add: gh_ok_def)
    show "set (map fst (gh_insert i j h)) \<subseteq> set (window_ids ?m)"
      using ok(2) assms(3) m dom_update [of i j h] by (simp add: gh_insert_def window_ids_def)
    show "\<And>k j'. (k, j') \<in> set (gh_insert i j h) \<Longrightarrow> job_rests ?m j'"
      using ok(3) assms(2) m by (auto simp: gh_insert_def dest!: alist_update_mem)
  qed
qed

lemma jobs_ok_cong:
  assumes "m_jobs m' = m_jobs m" "window_ids m' = window_ids m" "m_throttled m' = m_throttled m" "m_dialog_up m' = m_dialog_up m"
  shows "jobs_ok m' = jobs_ok m"
  unfolding jobs_ok_def job_rests_def by (simp only: assms)

lemma start_timers_same [simp]:
  "m_windows (start_timers e m) = m_windows m" "m_dialog_up (start_timers e m) = m_dialog_up m"
  "m_grab (start_timers e m) = m_grab m" "m_fix (start_timers e m) = m_fix m" "m_jobs (start_timers e m) = m_jobs m"
  "m_emit_idles (start_timers e m) = m_emit_idles m" "m_active (start_timers e m) = m_active m"
  "m_throttled (start_timers e m) = m_throttled m"
  by (simp_all add: start_timers_def Let_def add_unfade_idle_def remove_unfade_idle_def add_lock_timer_def
      remove_lock_timer_def add_cycle_timer_def remove_cycle_timer_def m_fix_def)

lemma add_job_same:
  "m_windows (manager_add_job_for_window i j m) = m_windows m" "m_dialog_up (manager_add_job_for_window i j m) = m_dialog_up m"
  "m_grab (manager_add_job_for_window i j m) = m_grab m" "m_fix (manager_add_job_for_window i j m) = m_fix m"
  "m_emit_idles (manager_add_job_for_window i j m) = m_emit_idles m" "m_active (manager_add_job_for_window i j m) = m_active m"
  by (simp_all add: manager_add_job_for_window_def m_fix_def split: option.splits)

lemma show_window_post:
  assumes ok: "core_ok m" and a: "m_active m" and i: "i \<in> set (window_ids m)"
  shows "rpost (\<lambda>m'. m_frame m m' \<and> core_ok m') (manager_show_window e i m)"
  unfolding manager_show_window_def gs_job_new_for_widget_eq rbind_simps
proof (rule rpost_rbindI [OF keepsD [OF background_keeps ok]])
  fix m1 assume m1: "m_frame m m1 \<and> core_ok m1"
  then have l: "live_ok m1" "m_active m1" "i \<in> set (window_ids m1)"
    using a i m_frame_ids [of m m1] by (simp_all add: core_ok_def m_frame_def m_fix_def)
  have j0: "job_ok (gs_job_new\<lparr>j_widget := Some i\<rparr>)" by (simp add: job_ok_def gs_job_new_def)
  show "rpost (\<lambda>m'. m_frame m m' \<and> core_ok m') (rbind (manager_select_theme_for_job e m1 (gs_job_new\<lparr>j_widget := Some i\<rparr>))
        (\<lambda>job. ret (start_timers e (manager_add_job_for_window i job m1))))"
  proof (rule rpost_rbindI [OF select_theme_job_ok [OF j0]])
    fix j assume "job_ok j \<and> j_status j = j_status (gs_job_new\<lparr>j_widget := Some i\<rparr>)"
    then have jr: "job_rests m1 j" by (simp add: job_rests_def gs_job_new_def)
    let ?m2 = "start_timers e (manager_add_job_for_window i j m1)"
    have "jobs_ok ?m2"
      using jobs_ok_insert [OF _ jr l(3)] l(1) jobs_ok_cong [of ?m2 "manager_add_job_for_window i j m1"]
      by (simp add: live_ok_def window_ids_def)
    then have "live_ok ?m2"
      using l by (intro live_ok_frame [OF _ _ _ _ _ l(1)]) (simp_all add: add_job_same live_ok_def timers_ok_def)
    moreover have "m_frame m1 ?m2" by (simp add: add_job_same m_frame_def)
    ultimately show "rpost (\<lambda>m'. m_frame m m' \<and> core_ok m') (ret ?m2)"
      using m1 m_frame_trans m_frame_core by (simp, blast)
  qed
qed

lemma widget_show_post:
  assumes ok: "core_ok m" and a: "m_active m"
  shows "rpost (\<lambda>m'. m_frame m m' \<and> core_ok m') (manager_widget_show e i m)"
  unfolding manager_widget_show_def window_show_cb_def
proof (intro with_win_post)
  fix w assume w: "w \<in> set (m_windows m)" "win_id w = i"
  let ?w = "fst (gs_window_show (me_win e) w)" and ?m = "put_win (fst (gs_window_show (me_win e) w)) m"
  have s: "win_cfg ?w = win_cfg w \<and> win_dialog_up ?w = win_dialog_up w \<and> (win_ok w \<longrightarrow> win_ok ?w) \<and> win_freed ?w = win_freed w"
    by (auto simp: gs_window_show_def gs_window_real_show_def win_add_watchdog_timer_def win_remove_watchdog_timer_def
        win_cfg_def win_ok_def)
  have p: "m_frame m ?m \<and> core_ok ?m" using put_win_core [OF ok w(1), of ?w] s core_wins [OF ok w(1)] by simp
  have i: "i \<in> set (window_ids ?m)" unfolding put_win_same using w by (auto simp: window_ids_def)
  have "rpost (\<lambda>m'. m_frame ?m m' \<and> core_ok m') (manager_show_window e i ?m)"
    using show_window_post [of ?m i e] p a i by simp
  then have "rpost (\<lambda>m'. m_frame m m' \<and> core_ok m') (manager_show_window e i ?m)"
    using p m_frame_trans by (auto intro: rpost_mono)
  then show "rpost (\<lambda>m'. m_frame m m' \<and> core_ok m')
      (let (w, evs) = gs_window_show (me_win e) w; m = put_win w m in
       if evs \<noteq> [] then manager_show_window e i m else ret m)"
    using p by (simp add: split_def Let_def)
qed

lemma show_windows_post:
  assumes ok: "core_ok m" and a: "m_active m"
  shows "rpost (\<lambda>m'. m_frame m m' \<and> core_ok m') (show_windows e ids m)"
  unfolding show_windows_def
proof (rule rpost_rfold)
  fix i m1 assume m1: "m_frame m m1 \<and> core_ok m1"
  then have "m_active m1" using a by (simp add: m_frame_def m_fix_def)
  then show "rpost (\<lambda>m'. m_frame m m' \<and> core_ok m') (manager_widget_show e i m1)"
    using widget_show_post [of m1 e i] m1 m_frame_trans by (auto intro: rpost_mono)
qed (use ok in simp)

section \<open>Creating windows\<close>

definition grown :: "gs_manager \<Rightarrow> gs_manager \<Rightarrow> nat list \<Rightarrow> bool" where
  "grown m m' mons =
     (m_fix (m'\<lparr>m_next_id := m_next_id m\<rparr>) = m_fix m
      \<and> map win_monitor (m_windows m') = map win_monitor (m_windows m) @ mons
      \<and> (m_lock_active m \<longrightarrow> m_emit_idles m' = m_emit_idles m) \<and> (no_ok m \<longrightarrow> no_ok m'))"

lemma no_ok_windows [simp]:
  "no_ok (m\<lparr>m_monitors := x1\<rparr>) = no_ok m" "no_ok (m\<lparr>m_throttled := x2\<rparr>) = no_ok m" "no_ok (m\<lparr>m_fade := x3\<rparr>) = no_ok m"
  "no_ok (m\<lparr>m_emit_idles := x4\<rparr>) = no_ok m" "no_ok (m\<lparr>m_unfade_idle_id := x5\<rparr>) = no_ok m"
  "no_ok (m\<lparr>m_deactivated_idles := x6\<rparr>) = no_ok m" "no_ok (m\<lparr>m_grab := x7\<rparr>) = no_ok m"
  "no_ok (m\<lparr>m_monitor_handlers := x8\<rparr>) = no_ok m" "no_ok (m\<lparr>m_jobs := x9\<rparr>) = no_ok m" "no_ok (m\<lparr>m_active := x10\<rparr>) = no_ok m"
  "no_ok (m\<lparr>m_lock_timeout_id := x11\<rparr>) = no_ok m"
  by (simp_all add: no_ok_def)

lemma no_ok_cfg:
  assumes "set (map win_cfg (m_windows m')) \<subseteq> set (map win_cfg (m_windows m))" "no_ok m"
  shows "no_ok m'"
  unfolding no_ok_def
proof
  fix w' assume "w' \<in> set (m_windows m')"
  then have "win_cfg w' \<in> set (map win_cfg (m_windows m'))" by simp
  with assms(1) have "win_cfg w' \<in> set (map win_cfg (m_windows m))" by blast
  then obtain w where "w \<in> set (m_windows m)" "win_cfg w' = win_cfg w" by auto
  then show "win_dialog_response w' \<noteq> DIALOG_RESPONSE_OK" using assms(2) by (simp add: no_ok_def win_cfg_def)
qed

lemma m_frame_no_ok: "m_frame m m' \<Longrightarrow> no_ok m \<Longrightarrow> no_ok m'"
  by (rule no_ok_cfg [of m' m]) (simp_all only: m_frame_def subset_refl)

lemma grown_frame: "m_frame m m' \<Longrightarrow> grown m m' []"
  using m_frame_maps(2) [of m m'] m_frame_no_ok [of m m'] by (simp add: grown_def m_frame_def m_fix_def)

lemma grown_trans: "grown a b xs \<Longrightarrow> grown b c ys \<Longrightarrow> grown a c (xs @ ys)"
  by (auto simp: grown_def m_fix_def)

lemma new_window:
  fixes m mon
  defines "w \<equiv> configure_window m (gs_window_new (m_next_id m) mon (m_lock_active m))"
  shows "win_id w = m_next_id m" "win_monitor w = mon" "follows m w" "win_ok w" "\<not> win_freed w" "\<not> win_dialog_up w"
    "win_dialog_response w = DIALOG_RESPONSE_CANCEL"
  unfolding w_def configure_window_def gs_window_new_def gs_window_init_def Let_def
  by (simp_all add: gs_window_set_user_switch_enabled_def gs_window_set_logout_enabled_def
      gs_window_set_logout_timeout_def gs_window_set_logout_command_def gs_window_set_keyboard_enabled_def
      gs_window_set_keyboard_command_def gs_window_set_status_message_def gs_window_set_lock_enabled_def
      follows_def win_ok_def MAX_QUEUED_EVENTS_def)

lemma append_window_core:
  assumes ok: "core_ok m" and w: "win_id w = m_next_id m" "follows m w" "win_ok w" "\<not> win_freed w" "\<not> win_dialog_up w"
  shows "core_ok (m\<lparr>m_windows := m_windows m @ [w], m_next_id := Suc (m_next_id m)\<rparr>)" (is "core_ok ?m")
proof -
  have c: "cfg_ok m" and l: "wins_ok m" "dialogs_ok m" "jobs_ok m" "grab_ok (m_grab m)" "timers_ok m" and k: "link_ok m"
    using ok by (simp_all add: core_ok_def live_ok_def)
  have "m_next_id m \<notin> set (window_ids m)" using c by (auto simp: cfg_ok_def window_ids_def)
  then have "cfg_ok ?m" using c w by (auto simp: cfg_ok_def window_ids_def follows_def)
  moreover have "wins_ok ?m" using l(1) w by (auto simp: wins_ok_def)
  moreover have "dialogs_ok ?m"
  proof (rule dialogs_okI)
    show "m_dialog_up ?m = (\<exists>w \<in> set (m_windows ?m). win_dialog_up w)" using dialogs_ok_up [OF l(2)] w(5) by auto
    show "\<And>u v. u \<in> set (m_windows ?m) \<Longrightarrow> v \<in> set (m_windows ?m) \<Longrightarrow> win_dialog_up u \<Longrightarrow> win_dialog_up v \<Longrightarrow> win_id u = win_id v"
      using dialogs_ok_unique [OF l(2)] w(5) by auto
  qed
  moreover have "jobs_ok ?m" using l(3) by (auto simp: jobs_ok_def job_rests_def window_ids_def)
  ultimately show ?thesis using l k by (simp add: core_ok_def live_ok_def timers_ok_def link_ok_def)
qed

lemma create_window_post:
  assumes ok: "core_ok m"
  shows "rpost (\<lambda>m'. grown m m' [mon] \<and> core_ok m') (gs_manager_create_window_for_monitor e mon m)"
proof -
  let ?w = "configure_window m (gs_window_new (m_next_id m) mon (m_lock_active m))"
  let ?m = "m\<lparr>m_windows := m_windows m @ [?w], m_next_id := Suc (m_next_id m)\<rparr>"
  have c: "core_ok ?m" by (rule append_window_core [OF ok]) (simp_all add: new_window)
  have g: "grown m ?m [mon]" by (auto simp: grown_def m_fix_def new_window no_ok_def)
  have "rpost (\<lambda>m'. grown m m' [mon] \<and> core_ok m') (manager_widget_show e (win_id ?w) ?m)" if "m_active m"
    using widget_show_post [OF c] that grown_trans [OF g grown_frame] by (auto intro: rpost_mono)
  then show ?thesis using c g by (simp add: gs_manager_create_window_for_monitor_def Let_def)
qed

lemma create_windows_post:
  assumes ok: "core_ok m"
  shows "rpost (\<lambda>m'. grown m m' mons \<and> core_ok m') (rfold (gs_manager_create_window_for_monitor e) mons m)"
  using ok
proof (induction mons arbitrary: m)
  case Nil
  then show ?case by (simp add: grown_frame)
next
  case (Cons mon mons)
  show ?case
    unfolding rfold.simps
  proof (rule rpost_rbindI [OF create_window_post [OF Cons.prems]])
    fix m1 assume m1: "grown m m1 [mon] \<and> core_ok m1"
    then have "grown m m' (mon # mons)" if "grown m1 m' mons" for m' using grown_trans [of m m1 "[mon]" m' mons] that by simp
    then show "rpost (\<lambda>m'. grown m m' (mon # mons) \<and> core_ok m') (rfold (gs_manager_create_window_for_monitor e) mons m1)"
      using Cons.IH [of m1] m1 by (auto intro: rpost_mono)
  qed
qed

lemma monitor_added_handler_post:
  assumes e: "env_ok e" and ok: "core_ok m"
  shows "rpost (\<lambda>m'. grown m m' [mon] \<and> core_ok m') (on_display_monitor_added e mon m)"
  unfolding on_display_monitor_added_def
proof (rule rpost_rbindI [OF keepsD [OF keeps_rfold [OF cancel_window_keeps [OF e]] ok]])
  fix m1 assume m1: "m_frame m m1 \<and> core_ok m1"
  then have g1: "grown m m1 []" by (simp add: grown_frame)
  show "rpost (\<lambda>m'. grown m m' [mon] \<and> core_ok m') (rbind (gs_manager_create_window_for_monitor e mon m1)
      (\<lambda>m. rbind (gs_manager_request_unlock e m) (\<lambda>(_, m). ret m)))"
  proof (rule rpost_rbindI [OF create_window_post])
    fix m2 assume m2: "grown m1 m2 [mon] \<and> core_ok m2"
    have "grown m m' [mon]" if "m_frame m2 m'" for m'
      using grown_trans [OF grown_trans [OF g1, of m2 "[mon]"] grown_frame [OF that]] m2 by simp
    then show "rpost (\<lambda>m'. grown m m' [mon] \<and> core_ok m') (rbind (gs_manager_request_unlock e m2) (\<lambda>(_, m). ret m))"
      using keepsD [OF request_unlock_keeps, of m2 e] m2 by (auto intro: rpost_mono)
  qed (use m1 in simp)
qed

lemma monitor_added_handlers_post:
  assumes e: "env_ok e" and "core_ok m"
  shows "rpost (\<lambda>m'. grown m m' (replicate (length xs) mon) \<and> core_ok m') (rfold (\<lambda>_. on_display_monitor_added e mon) xs m)"
  using assms(2)
proof (induction xs arbitrary: m)
  case Nil
  then show ?case by (simp add: grown_frame)
next
  case (Cons x xs)
  show ?case
    unfolding rfold.simps
  proof (rule rpost_rbindI [OF monitor_added_handler_post [OF e Cons.prems]])
    fix m2 assume m2: "grown m m2 [mon] \<and> core_ok m2"
    have "grown m m' (replicate (length (x # xs)) mon)" if "grown m2 m' (replicate (length xs) mon)" for m'
      using grown_trans [of m m2 "[mon]" m'] m2 that by auto
    then show "rpost (\<lambda>m'. grown m m' (replicate (length (x # xs)) mon) \<and> core_ok m') (rfold (\<lambda>_. on_display_monitor_added e mon) xs m2)"
      using Cons.IH [of m2] m2 by (auto intro: rpost_mono)
  qed
qed

lemma core_ok_monitors [simp]: "core_ok (m\<lparr>m_monitors := x\<rparr>) = core_ok m"
  using dialogs_ok_cong [of "m\<lparr>m_monitors := x\<rparr>" m]
  by (simp add: core_ok_def live_ok_def cfg_ok_def link_ok_def wins_ok_def jobs_ok_def job_rests_def timers_ok_def
      window_ids_def follows_def)

lemma grown_cover:
  assumes cov: "cover_ok m" and g: "grown (m\<lparr>m_monitors := m_monitors m @ [mon]\<rparr>) m' (replicate (m_monitor_handlers m) mon)"
  shows "cover_ok m'"
proof -
  have same: "m_monitor_handlers m' = m_monitor_handlers m" "m_monitors m' = m_monitors m @ [mon]" "m_active m' = m_active m"
    using g by (simp_all add: grown_def m_fix_def)
  have w: "map win_monitor (m_windows m') = map win_monitor (m_windows m) @ replicate (m_monitor_handlers m) mon"
    using g by (simp add: grown_def)
  show ?thesis
  proof (cases "m_monitor_handlers m = 0")
    case True
    then have "m_windows m = []" "\<not> m_active m" using cov by (simp_all add: cover_ok_def)
    then show ?thesis using True w same by (simp add: cover_ok_def)
  next
    case False
    then have "set (map win_monitor (m_windows m')) = set (map win_monitor (m_windows m)) \<union> {mon}" unfolding w by simp
    moreover have "set (map win_monitor (m_windows m)) = set (m_monitors m)" using cov False by (simp add: cover_ok_def)
    ultimately have "set (map win_monitor (m_windows m')) = set (m_monitors m')" using same by simp
    then show ?thesis using False same(1) unfolding cover_ok_def by simp
  qed
qed

text \<open>What a change of the monitors leaves alone.\<close>

definition m_steady :: "gs_manager \<Rightarrow> gs_manager \<Rightarrow> bool" where
  "m_steady m m' =
     (m_active m' = m_active m \<and> m_throttled m' = m_throttled m \<and> m_lock_active m' = m_lock_active m
      \<and> m_deactivated_idles m' = m_deactivated_idles m \<and> f_callbacks (m_fade m') = f_callbacks (m_fade m)
      \<and> (m_lock_active m \<longrightarrow> m_emit_idles m' = m_emit_idles m) \<and> (no_ok m \<longrightarrow> no_ok m'))"

lemma m_steady_frame: "m_frame m m' \<Longrightarrow> m_steady m m'"
  using m_frame_no_ok [of m m'] by (simp add: m_steady_def m_frame_def m_fix_def)

lemma m_steady_grown: "grown m m' mons \<Longrightarrow> m_steady m m'"
  by (simp add: m_steady_def grown_def m_fix_def)

text \<open>A monitor that appears gets a window from every connected handler.\<close>

lemma monitor_added_post:
  assumes e: "env_ok e" and ok: "manager_ok m"
  shows "rpost (\<lambda>m'. manager_ok m' \<and> m_steady m m') (display_monitor_added e mon m)"
proof -
  let ?m = "m\<lparr>m_monitors := m_monitors m @ [mon]\<rparr>"
  have core: "core_ok ?m" and cov: "cover_ok m" using ok by (simp_all add: manager_ok_def)
  have "rpost (\<lambda>m'. grown ?m m' (replicate (length [0..<m_monitor_handlers m]) mon) \<and> core_ok m')
      (rfold (\<lambda>_. on_display_monitor_added e mon) [0..<m_monitor_handlers m] ?m)"
    by (rule monitor_added_handlers_post [OF e core])
  then have "rpost (\<lambda>m'. manager_ok m' \<and> m_steady m m') (rfold (\<lambda>_. on_display_monitor_added e mon) [0..<m_monitor_handlers m] ?m)"
  proof (rule rpost_mono)
    fix m' assume m': "grown ?m m' (replicate (length [0..<m_monitor_handlers m]) mon) \<and> core_ok m'"
    then have "cover_ok m'" using grown_cover [OF cov, of mon m'] by simp
    moreover have "m_steady ?m m'" using m' by (intro m_steady_grown) (rule conjunct1)
    then have "m_steady m m'" by (simp add: m_steady_def)
    ultimately show "manager_ok m' \<and> m_steady m m'" using m' by (simp add: manager_ok_def)
  qed
  then show ?thesis by (simp add: display_monitor_added_def)
qed

end
