(* ===== verification/GS_Manager_Switch.thy ===== *)
theory GS_Manager_Switch
  imports GS_Manager_Life
begin

text \<open>
  Removing a monitor, activation and deactivation, the settings, and the properties of the manager.
\<close>

section \<open>Removing a monitor\<close>

definition job_keys :: "gs_manager \<Rightarrow> nat list option" where
  "job_keys m = map_option (map fst) (m_jobs m)"

lemma rmap_keys:
  "rpost (\<lambda>h'. map fst h' = map fst h) (rmap (\<lambda>(k, job). rbind (f k job) (\<lambda>job. ret (k, job))) h)"
proof -
  have "rpost (list_all2 (\<lambda>x y. fst y = fst x) h) (rmap (\<lambda>(k, job). rbind (f k job) (\<lambda>job. ret (k, job))) h)"
    by (rule rpost_rmap) (auto simp: rpost_def res_simps)
  moreover have "map fst h' = map fst h" if "list_all2 (\<lambda>x y. fst y = fst x) h h'" for h' :: "('a \<times> 'b) list"
    using that by (induction rule: list_all2_induct) auto
  ultimately show ?thesis by (auto intro: rpost_mono)
qed

lemma foreach_keys: "rpost (\<lambda>m'. job_keys m' = job_keys m) (jobs_foreach f m)"
proof (cases "m_jobs m")
  case (Some h)
  have "rpost (\<lambda>h'. job_keys (m\<lparr>m_jobs := Some h'\<rparr>) = job_keys m)
      (rmap (\<lambda>(k, job). rbind (f k job) (\<lambda>job. ret (k, job))) h)"
    by (rule rpost_mono [OF rmap_keys]) (simp add: job_keys_def Some)
  then show ?thesis using Some by (simp add: jobs_foreach_def)
qed (simp add: jobs_foreach_def)

lemma move_grab_keys: "rpost (\<lambda>m'. job_keys m' = job_keys m) (manager_move_grab e i np m)"
  by (auto simp: manager_move_grab_def job_keys_def rpost_def res_simps)

lemma set_sensitive_keys: "rpost (\<lambda>m'. job_keys m' = job_keys m) (set_sensitive P b m)"
  by (simp add: set_sensitive_def job_keys_def)

lemma dialog_up_keys: "rpost (\<lambda>m'. job_keys m' = job_keys m) (handle_window_dialog_up e i m)"
  unfolding handle_window_dialog_up_def manager_suspend_jobs_def
proof (intro rpost_rbindI [OF set_sensitive_keys] rpost_rbindI [OF move_grab_keys] rpost_if, goal_cases)
  case (1 m1 m2)
  then have "job_keys m2 = job_keys m" by (simp add: job_keys_def)
  then show ?case using foreach_keys [of m2 "\<lambda>_. suspend_job"] by simp
qed (simp add: job_keys_def)

lemma dialog_down_keys: "rpost (\<lambda>m'. job_keys m' = job_keys m) (handle_window_dialog_down e i m)"
  unfolding handle_window_dialog_down_def manager_resume_jobs_def Let_def
proof (intro rpost_rbindI [OF move_grab_keys] rpost_rbindI [OF set_sensitive_keys] rpost_if, goal_cases)
  case (1 m1 m2)
  then have "job_keys (m2\<lparr>m_dialog_up := False\<rparr>) = job_keys m" by (simp add: job_keys_def)
  then show ?case using foreach_keys [of "m2\<lparr>m_dialog_up := False\<rparr>" "resume_job e (m2\<lparr>m_dialog_up := False\<rparr>)"] by simp
qed (simp add: job_keys_def)

lemma unlock_event_keys: "rpost (\<lambda>m'. job_keys m' = job_keys m) (unlock_event e i ev m)"
proof (cases "ev = Dialog_Up_Changed")
  case True
  then show ?thesis
    unfolding unlock_event_def window_dialog_up_changed_cb_def
    by (auto intro!: with_win_post dialog_up_keys dialog_down_keys)
next
  case False
  then show ?thesis by (cases ev) (simp_all add: unlock_event_def job_keys_def)
qed

lemma cancel_keys: "rpost (\<lambda>m'. job_keys m' = job_keys m) (manager_cancel_window e i m)"
  unfolding manager_cancel_window_def
proof (intro with_win_post rpost_rbindI [where P = "\<lambda>_. True"])
  fix x
  have "rpost (\<lambda>m'. job_keys m' = job_keys (put_win (fst x) m)) (rfold (unlock_event e i) (snd x) (put_win (fst x) m))"
    by (rule rpost_rfold) (simp, metis (mono_tags, lifting) rpost_mono unlock_event_keys)
  then show "rpost (\<lambda>m'. job_keys m' = job_keys m) (case x of (w, evs) \<Rightarrow> rfold (unlock_event e i) evs (put_win w m))"
    by (simp add: split_def job_keys_def)
qed (simp add: rpost_def)

lemma remove_job_post:
  assumes ok: "core_ok m"
  shows "rpost (\<lambda>m'. m_frame m m' \<and> core_ok m' \<and> (\<forall>ks. job_keys m' = Some ks \<longrightarrow> i \<notin> set ks)) (manager_remove_job e i m)"
proof (cases "m_jobs m")
  case None
  then show ?thesis using ok by (simp add: manager_remove_job_def job_keys_def)
next
  case (Some h)
  have l: "live_ok m" using ok by (rule core_live)
  let ?m = "m\<lparr>m_jobs := Some (gh_remove i h)\<rparr>"
  have "jobs_ok m" using l by (simp add: live_ok_def)
  then have "jobs_ok ?m"
    using Some gh.ok_remove [of h i] by (auto simp: jobs_ok_def gh_remove_def window_ids_def)
  then have "live_ok ?m"
    using l by (intro live_ok_frame [OF _ _ _ _ _ l]) (simp_all add: live_ok_def timers_ok_def)
  moreover have f: "m_frame m ?m" using Some by (simp add: m_frame_def m_fix_def)
  ultimately have "core_ok ?m" using m_frame_core ok by blast
  moreover have "gh_lookup h i = None \<Longrightarrow> i \<notin> set (map fst h)" by (simp add: gh_lookup_def map_of_eq_None_iff)
  moreover have "i \<notin> set (map fst (gh_remove i h))" by (auto simp: gh_remove_def)
  ultimately show ?thesis
    using Some f ok by (auto simp: manager_remove_job_def job_keys_def rpost_def res_simps split: option.splits)
qed

text \<open>Unlinking a window whose dialog is down and which has no job.\<close>

lemma unlink_window_core:
  assumes ok: "core_ok m" and g: "grab_ok g" and keys: "\<And>ks. job_keys m = Some ks \<Longrightarrow> i \<notin> set ks"
    and down: "\<And>w. w \<in> set (m_windows m) \<Longrightarrow> win_id w = i \<Longrightarrow> \<not> win_dialog_up w"
  shows "core_ok (m\<lparr>m_grab := g, m_windows := filter (\<lambda>w. win_id w \<noteq> i) (m_windows m)\<rparr>)" (is "core_ok ?m")
proof -
  have c: "cfg_ok m" "link_ok m" and l: "wins_ok m" "dialogs_ok m" "jobs_ok m" "timers_ok m"
    using ok by (simp_all add: core_ok_def live_ok_def)
  have "cfg_ok ?m" using c(1) distinct_map_filter by (auto simp: cfg_ok_def window_ids_def follows_def)
  moreover have "wins_ok ?m" using l(1) by (simp add: wins_ok_def)
  moreover have "dialogs_ok ?m"
  proof (rule dialogs_okI)
    show "m_dialog_up ?m = (\<exists>w \<in> set (m_windows ?m). win_dialog_up w)" using dialogs_ok_up [OF l(2)] down by auto
    show "\<And>u v. u \<in> set (m_windows ?m) \<Longrightarrow> v \<in> set (m_windows ?m) \<Longrightarrow> win_dialog_up u \<Longrightarrow> win_dialog_up v \<Longrightarrow> win_id u = win_id v"
      using dialogs_ok_unique [OF l(2)] by auto
  qed
  moreover have "jobs_ok ?m"
  proof -
    have "fst x \<in> win_id ` {w \<in> set (m_windows m). win_id w \<noteq> i}" if "m_jobs m = Some h" "x \<in> set h" for h x
    proof -
      have "fst x \<noteq> i" using keys [of "map fst h"] that by (auto simp: job_keys_def)
      moreover have "fst x \<in> win_id ` set (m_windows m)"
        using l(3) that by (auto simp: jobs_ok_def window_ids_def)
      ultimately show ?thesis by auto
    qed
    then show ?thesis using l(3) by (auto simp: jobs_ok_def job_rests_def window_ids_def)
  qed
  ultimately show ?thesis using c l g by (simp add: core_ok_def live_ok_def timers_ok_def link_ok_def)
qed

lemma widget_destroy_id: "rpost (\<lambda>w'. win_id w' = win_id w) (win_widget_destroy e w)"
  by (simp add: win_widget_destroy_def gs_window_finalize_def finish_defs Let_def remove_popup_dialog_idle_def
      win_remove_watchdog_timer_def remove_command_watches_def gs_window_real_hide_def)

lemma unlink_put_win:
  assumes "win_id w' = i"
  shows "filter (\<lambda>w. win_id w \<noteq> i) (m_windows (put_win w' m)) = filter (\<lambda>w. win_id w \<noteq> i) (m_windows m)"
proof -
  have "filter (\<lambda>w. win_id w \<noteq> i) (map (\<lambda>v. if win_id v = win_id w' then w' else v) ws) = filter (\<lambda>w. win_id w \<noteq> i) ws" for ws
    using assms by (induction ws) auto
  then show ?thesis by (simp add: put_win_def)
qed

text \<open>The windows after those with an address in a set and a given monitor are gone.\<close>

definition pruned :: "gs_manager \<Rightarrow> gs_manager \<Rightarrow> nat set \<Rightarrow> nat \<Rightarrow> bool" where
  "pruned m m' ids mon =
     (m_fix m' = m_fix m
      \<and> map win_cfg (m_windows m') = filter (\<lambda>c. \<not> (fst c \<in> ids \<and> fst (snd c) = mon)) (map win_cfg (m_windows m))
      \<and> (m_lock_active m \<longrightarrow> m_emit_idles m' = m_emit_idles m))"

lemma pruned_refl: "pruned m m {} mon"
  by (simp add: pruned_def)

lemma pruned_trans: "pruned a b X mon \<Longrightarrow> pruned b c Y mon \<Longrightarrow> pruned a c (X \<union> Y) mon"
  using m_fix_lock [of b a] by (auto simp: pruned_def intro!: filter_cong)

lemma pruned_frame_left: "m_frame a b \<Longrightarrow> pruned b c X mon \<Longrightarrow> pruned a c X mon"
  using m_fix_lock [of b a] by (simp add: pruned_def m_frame_def)

lemma remove_window_post:
  assumes e: "env_ok e" and ok: "core_ok m"
  shows "rpost (\<lambda>m'. pruned m m' {i} mon \<and> core_ok m') (remove_window_on_monitor e mon i m)"
  unfolding remove_window_on_monitor_def
proof (intro with_win_post rpost_if)
  fix w assume w: "w \<in> set (m_windows m)" "win_id w = i" "gs_window_get_monitor w \<noteq> mon"
  have "win_monitor v \<noteq> mon" if "v \<in> set (m_windows m)" "win_id v = i" for v
    using distinct_ids_eq [of m v w] that w ok by (auto simp: core_ok_def cfg_ok_def gs_window_get_monitor_def)
  then have "filter (\<lambda>c. \<not> (fst c \<in> {i} \<and> fst (snd c) = mon)) (map win_cfg (m_windows m)) = map win_cfg (m_windows m)"
    by (intro filter_True) (auto simp: win_cfg_def)
  then show "rpost (\<lambda>m'. pruned m m' {i} mon \<and> core_ok m') (ret m)" using ok by (simp add: pruned_def)
next
  fix w assume w: "w \<in> set (m_windows m)" "win_id w = i" "gs_window_get_monitor w = mon"
  have only: "win_monitor v = mon" if "v \<in> set (m_windows m)" "win_id v = i" for v
    using distinct_ids_eq [of m v w] that w ok by (auto simp: core_ok_def cfg_ok_def gs_window_get_monitor_def)
  show "rpost (\<lambda>m'. pruned m m' {i} mon \<and> core_ok m')
      (rbind (manager_maybe_stop_job_for_window e i m) (\<lambda>m. rbind (manager_remove_job e i m) (\<lambda>m.
         rbind (gs_window_destroy e i m) (\<lambda>m. ret (m\<lparr>m_windows := filter (\<lambda>w. win_id w \<noteq> i) (m_windows m)\<rparr>)))))"
  proof (rule rpost_rbindI [OF keepsD [OF maybe_stop_keeps ok]], rule rpost_rbindI [OF remove_job_post [where i = i]], goal_cases)
    case (2 m1 m2)
    have fr: "m_frame m m2" using 2 m_frame_trans by blast
    have "rpost (\<lambda>m'. (m_frame m2 m' \<and> live_ok m' \<and> (\<forall>w \<in> set (m_windows m'). win_id w = i \<longrightarrow> \<not> win_dialog_up w))
        \<and> job_keys m' = job_keys m2) (manager_cancel_window e i m2)"
      unfolding rpost_conj [of _ "\<lambda>m'. job_keys m' = job_keys m2"]
      using cancel_window_post [OF e, of m2 i] cancel_keys [of m2 e i] 2 by blast
    then show ?case
      unfolding gs_window_destroy_def rbind_assoc
    proof (rule rpost_rbindI)
      fix m3 assume m3: "(m_frame m2 m3 \<and> live_ok m3 \<and> (\<forall>w \<in> set (m_windows m3). win_id w = i \<longrightarrow> \<not> win_dialog_up w))
        \<and> job_keys m3 = job_keys m2"
      have c3: "core_ok m3" "m_frame m m3" using m3 2 m_frame_core [of m2 m3] m_frame_trans [OF fr] by blast+
      let ?g = "grab_window_destroyed i (m_grab m3)"
      let ?m = "m3\<lparr>m_grab := ?g, m_windows := filter (\<lambda>w. win_id w \<noteq> i) (m_windows m3)\<rparr>"
      have "core_ok ?m"
        using c3(1) m3 2 grab_ok_destroyed [of "m_grab m3" i]
        by (intro unlink_window_core) (auto simp: core_ok_def live_ok_def)
      moreover have "pruned m ?m {i} mon"
      proof -
        have "map win_cfg (filter (\<lambda>w. win_id w \<noteq> i) (m_windows m3)) = filter (\<lambda>c. fst c \<noteq> i) (map win_cfg (m_windows m3))"
          by (simp add: filter_map comp_def win_cfg_def)
        also have "\<dots> = filter (\<lambda>c. fst c \<noteq> i) (map win_cfg (m_windows m))" using c3(2) by (simp add: m_frame_def)
        also have "\<dots> = filter (\<lambda>c. \<not> (fst c \<in> {i} \<and> fst (snd c) = mon)) (map win_cfg (m_windows m))"
          using only by (intro filter_cong) (auto simp: win_cfg_def)
        finally show ?thesis using c3(2) by (simp add: pruned_def m_frame_def m_fix_def)
      qed
      ultimately show "rpost (\<lambda>m'. pruned m m' {i} mon \<and> core_ok m')
          (rbind (with_win i (\<lambda>w. rbind (win_widget_destroy (me_win e) w) (\<lambda>w. ret ((put_win w m3)\<lparr>m_grab := ?g\<rparr>))) m3)
            (\<lambda>m. ret (m\<lparr>m_windows := filter (\<lambda>w. win_id w \<noteq> i) (m_windows m)\<rparr>)))"
        unfolding rpost_simps
        by (intro with_win_post, unfold rpost_simps, intro rpost_mono [OF widget_destroy_id])
          (simp add: unlink_put_win, simp add: put_win_def)
    qed
  qed simp
qed

lemma monitor_removed_handler_post:
  assumes e: "env_ok e" and "core_ok m"
  shows "rpost (\<lambda>m'. pruned m m' (set ids) mon \<and> core_ok m') (rfold (remove_window_on_monitor e mon) ids m)"
  using assms(2)
proof (induction ids arbitrary: m)
  case Nil
  then show ?case by (simp add: pruned_refl)
next
  case (Cons i ids)
  show ?case
    unfolding rfold.simps
  proof (rule rpost_rbindI [OF remove_window_post [OF e Cons.prems]])
    fix m1 assume m1: "pruned m m1 {i} mon \<and> core_ok m1"
    have "pruned m m' (set (i # ids)) mon" if "pruned m1 m' (set ids) mon" for m'
      using pruned_trans [of m m1 "{i}" mon m' "set ids"] m1 that by simp
    then show "rpost (\<lambda>m'. pruned m m' (set (i # ids)) mon \<and> core_ok m') (rfold (remove_window_on_monitor e mon) ids m1)"
      using Cons.IH [of m1] m1 by (auto intro: rpost_mono)
  qed
qed

text \<open>All windows of a monitor, whatever their address.\<close>

definition vacated :: "gs_manager \<Rightarrow> gs_manager \<Rightarrow> nat \<Rightarrow> bool" where
  "vacated m m' mon = pruned m m' UNIV mon"

lemma pruned_all:
  assumes "pruned m m' (set (window_ids m)) mon"
  shows "vacated m m' mon"
proof -
  have "filter (\<lambda>c. \<not> (fst c \<in> set (window_ids m) \<and> fst (snd c) = mon)) (map win_cfg (m_windows m)) =
        filter (\<lambda>c. \<not> (fst c \<in> UNIV \<and> fst (snd c) = mon)) (map win_cfg (m_windows m))"
    by (intro filter_cong) (auto simp: window_ids_def win_cfg_def)
  then show ?thesis using assms unfolding vacated_def pruned_def by argo
qed

lemma vacated_monitors:
  assumes "vacated m m' mon"
  shows "set (map win_monitor (m_windows m')) = set (map win_monitor (m_windows m)) - {mon}"
proof -
  have "map win_monitor ws = map (fst \<circ> snd) (map win_cfg ws)" for ws by (simp add: win_cfg_def)
  then have "map win_monitor (m_windows m') = map (fst \<circ> snd) (filter (\<lambda>c. \<not> (fst c \<in> UNIV \<and> fst (snd c) = mon)) (map win_cfg (m_windows m)))"
    using assms by (simp only: vacated_def pruned_def)
  moreover have "map (fst \<circ> snd) (filter (\<lambda>c. \<not> (fst c \<in> UNIV \<and> fst (snd c) = mon)) (map win_cfg ws)) =
      filter (\<lambda>x. x \<noteq> mon) (map win_monitor ws)" for ws
    by (induction ws) (simp_all add: win_cfg_def)
  ultimately have "map win_monitor (m_windows m') = filter (\<lambda>x. x \<noteq> mon) (map win_monitor (m_windows m))" by simp
  then have "set (map win_monitor (m_windows m')) = set (filter (\<lambda>x. x \<noteq> mon) (map win_monitor (m_windows m)))" by (rule arg_cong)
  then show ?thesis by auto
qed

lemma m_steady_trans: "m_steady a b \<Longrightarrow> m_steady b c \<Longrightarrow> m_steady a c"
  by (simp add: m_steady_def)

lemma monitor_removed_handlers_post:
  assumes e: "env_ok e" and "core_ok m"
  shows "rpost (\<lambda>m'. core_ok m' \<and> m_steady m m' \<and> m_fix m' = m_fix m
             \<and> set (map win_monitor (m_windows m')) = set (map win_monitor (m_windows m)) - (if xs = [] then {} else {mon}))
           (rfold (\<lambda>_. on_display_monitor_removed e mon) xs m)"
  using assms(2)
proof (induction xs arbitrary: m)
  case Nil
  then show ?case by (simp add: m_steady_def)
next
  case (Cons x xs)
  have h: "rpost (\<lambda>m'. vacated m m' mon \<and> core_ok m') (on_display_monitor_removed e mon m)"
    unfolding on_display_monitor_removed_def
    by (rule rpost_mono [OF monitor_removed_handler_post [OF e Cons.prems]]) (simp add: pruned_all)
  show ?case
    unfolding rfold.simps
  proof (rule rpost_rbindI [OF h])
    fix m1 assume m1: "vacated m m1 mon \<and> core_ok m1"
    then have s: "m_steady m m1" "m_fix m1 = m_fix m"
      using no_ok_cfg [of m1 m] by (auto simp: vacated_def pruned_def m_steady_def m_fix_def)
    have v: "set (map win_monitor (m_windows m1)) = set (map win_monitor (m_windows m)) - {mon}"
      using vacated_monitors m1 by blast
    show "rpost (\<lambda>m'. core_ok m' \<and> m_steady m m' \<and> m_fix m' = m_fix m
             \<and> set (map win_monitor (m_windows m')) = set (map win_monitor (m_windows m)) - (if x # xs = [] then {} else {mon}))
           (rfold (\<lambda>_. on_display_monitor_removed e mon) xs m1)"
    proof (rule rpost_mono [OF Cons.IH])
      show "core_ok m1" using m1 by simp
      fix m' assume m': "core_ok m' \<and> m_steady m1 m' \<and> m_fix m' = m_fix m1
             \<and> set (map win_monitor (m_windows m')) = set (map win_monitor (m_windows m1)) - (if xs = [] then {} else {mon})"
      then have "set (map win_monitor (m_windows m')) = set (map win_monitor (m_windows m)) - {mon}" unfolding v by auto
      then show "core_ok m' \<and> m_steady m m' \<and> m_fix m' = m_fix m
             \<and> set (map win_monitor (m_windows m')) = set (map win_monitor (m_windows m)) - (if x # xs = [] then {} else {mon})"
        using m' s m_steady_trans [OF s(1)] by simp
    qed
  qed
qed

text \<open>A monitor that disappears takes all its windows with it.\<close>

lemma monitor_removed_post:
  assumes e: "env_ok e" and ok: "manager_ok m"
  shows "rpost (\<lambda>m'. manager_ok m' \<and> m_steady m m') (display_monitor_removed e mon m)"
proof -
  let ?m = "m\<lparr>m_monitors := filter (\<lambda>x. x \<noteq> mon) (m_monitors m)\<rparr>"
  have core: "core_ok ?m" and cov: "cover_ok m" using ok by (simp_all add: manager_ok_def)
  have "rpost (\<lambda>m'. manager_ok m' \<and> m_steady m m') (rfold (\<lambda>_. on_display_monitor_removed e mon) [0..<m_monitor_handlers m] ?m)"
  proof (rule rpost_mono [OF monitor_removed_handlers_post [OF e core]])
    fix m' assume m': "core_ok m' \<and> m_steady ?m m' \<and> m_fix m' = m_fix ?m
        \<and> set (map win_monitor (m_windows m')) = set (map win_monitor (m_windows ?m)) - (if [0..<m_monitor_handlers m] = [] then {} else {mon})"
    then have same: "m_monitor_handlers m' = m_monitor_handlers m" "m_monitors m' = filter (\<lambda>x. x \<noteq> mon) (m_monitors m)"
      "m_active m' = m_active m" by (simp_all add: m_fix_def)
    have "cover_ok m'"
    proof (cases "m_monitor_handlers m = 0")
      case True
      then have "m_windows m = []" "\<not> m_active m" using cov by (simp_all add: cover_ok_def)
      then show ?thesis using m' True same by (simp add: cover_ok_def)
    next
      case False
      then have "set (map win_monitor (m_windows m)) = set (m_monitors m)" using cov by (simp add: cover_ok_def)
      then have "set (map win_monitor (m_windows m')) = set (m_monitors m')" using m' False same by auto
      then show ?thesis using False same(1) unfolding cover_ok_def by simp
    qed
    then show "manager_ok m' \<and> m_steady m m'" using m' by (simp add: manager_ok_def m_steady_def)
  qed
  then show ?thesis by (simp add: display_monitor_removed_def)
qed

section \<open>Deactivation\<close>

text \<open>
  Without jobs, taking down a window changes the windows, the grab and the dialog flag only; a grab
  that the dialog handler took for the window ends with the window.
\<close>

definition bare :: "gs_manager \<Rightarrow> gs_manager" where
  "bare m = m\<lparr>m_windows := [], m_grab := gs_grab_init 0, m_dialog_up := False\<rparr>"

definition wrecked :: "gs_manager \<Rightarrow> gdk_window option set \<Rightarrow> gs_manager \<Rightarrow> bool" where
  "wrecked m seats m' = (bare m' = bare m \<and> grab_ok (m_grab m') \<and> g_seat (m_grab m') \<in> seats)"

lemma bare_update [simp]:
  "bare (m\<lparr>m_windows := ws\<rparr>) = bare m" "bare (m\<lparr>m_grab := g\<rparr>) = bare m" "bare (m\<lparr>m_dialog_up := d\<rparr>) = bare m"
  "bare (put_win w m) = bare m"
  by (simp_all add: bare_def put_win_def)

lemma wrecked_jobs: "wrecked m X m' \<Longrightarrow> m_jobs m' = m_jobs m"
  unfolding wrecked_def bare_def by (drule conjunct1, drule arg_cong [where f = m_jobs]) simp

lemma wrecked_grab: "wrecked m X m' \<Longrightarrow> grab_ok (m_grab m') \<and> g_seat (m_grab m') \<in> X"
  by (simp add: wrecked_def)

lemma wrecked_trans: "wrecked a X b \<Longrightarrow> wrecked b Y c \<Longrightarrow> Y \<subseteq> Z \<Longrightarrow> wrecked a Z c"
  by (auto simp: wrecked_def)

lemma dialog_changed_wrecked:
  assumes "m_jobs m = None" "grab_ok (m_grab m)"
  shows "rpost (wrecked m {Some i}) (window_dialog_up_changed_cb e i m)"
  unfolding window_dialog_up_changed_cb_def handle_window_dialog_up_def handle_window_dialog_down_def
    manager_suspend_jobs_def manager_resume_jobs_def Let_def
  using assms
  by (intro with_win_post rpost_if rpost_rbindI [OF set_sensitive_post] rpost_rbindI [OF move_grab_post])
    (auto simp: jobs_foreach_def wrecked_def)

lemma cancel_wrecked:
  assumes "m_jobs m = None" "grab_ok (m_grab m)" "g_seat (m_grab m) = None"
  shows "rpost (wrecked m {None, Some i}) (manager_cancel_window e i m)"
  unfolding manager_cancel_window_def gs_window_cancel_unlock_request_def
proof (intro with_win_post rpost_rbindI [OF popdown_post], goal_cases)
  case (1 w x)
  obtain w' evs where x: "x = (w', evs)" by (cases x)
  have evs: "evs = (if win_dialog_up w then [Dialog_Up_Changed] else [])" using 1 x by simp
  let ?m = "put_win w' m"
  have p: "wrecked m {None, Some i} ?m"
    by (simp add: wrecked_def assms)
  have "rpost (wrecked ?m {Some i}) (window_dialog_up_changed_cb e i ?m)"
    using dialog_changed_wrecked [of ?m] assms by simp
  then have "rpost (wrecked m {None, Some i}) (window_dialog_up_changed_cb e i ?m)"
    by (rule rpost_mono) (use wrecked_trans [OF p] in blast)
  then show ?case using x evs p by (simp add: unlock_event_def)
qed

lemma destroyed_free:
  "grab_ok g \<and> g_seat g \<in> {None, Some i} \<Longrightarrow>
     grab_ok (grab_window_destroyed i g) \<and> g_seat (grab_window_destroyed i g) = None"
  using grab_ok_destroyed by (auto simp: grab_window_destroyed_def Let_def)

lemma destroy_window_wrecked:
  assumes "m_jobs m = None" "grab_ok (m_grab m)" "g_seat (m_grab m) = None"
  shows "rpost (wrecked m {None}) (gs_window_destroy e i m)"
  unfolding gs_window_destroy_def
proof (intro rpost_rbindI [OF cancel_wrecked [OF assms]] with_win_post rpost_rbindI [OF widget_destroy_id], goal_cases)
  case (1 m1 w w')
  let ?g = "grab_window_destroyed i (m_grab m1)"
  have "grab_ok ?g" "g_seat ?g = None"
    using destroyed_free [OF wrecked_grab [OF 1(1)]] by blast+
  then show ?case using 1(1) by (simp add: wrecked_def)
qed

lemma destroy_windows_wrecked:
  assumes "m_jobs m = None" "grab_ok (m_grab m)" "g_seat (m_grab m) = None" "m_windows m \<noteq> []"
  shows "rpost (\<lambda>m'. wrecked (m\<lparr>m_monitor_handlers := 0\<rparr>) {None} m' \<and> m_windows m' = []) (gs_manager_destroy_windows e m)"
proof -
  let ?m = "m\<lparr>m_monitor_handlers := 0\<rparr>"
  have "rpost (wrecked ?m {None}) (rfold (gs_window_destroy e) (window_ids m) ?m)"
  proof (rule rpost_rfold)
    show "wrecked ?m {None} ?m" by (simp add: wrecked_def assms)
    fix i m1 assume m1: "wrecked ?m {None} m1"
    have "m_jobs m1 = None" "grab_ok (m_grab m1)" "g_seat (m_grab m1) = None"
      using wrecked_jobs [OF m1] wrecked_grab [OF m1] assms(1) by simp_all
    then have "rpost (wrecked m1 {None}) (gs_window_destroy e i m1)" by (rule destroy_window_wrecked)
    then show "rpost (wrecked ?m {None}) (gs_window_destroy e i m1)"
      by (rule rpost_mono) (rule wrecked_trans [OF m1 _ subset_refl])
  qed
  then have "rpost (\<lambda>m1. wrecked ?m {None} (m1\<lparr>m_windows := []\<rparr>)) (rfold (gs_window_destroy e) (window_ids m) ?m)"
    by (rule rpost_mono) (simp add: wrecked_def)
  then show ?thesis using assms(4) by (simp add: gs_manager_destroy_windows_def)
qed

text \<open>The manager at rest: what deactivation leaves behind.\<close>

definition at_rest :: "gs_manager \<Rightarrow> bool" where
  "at_rest m =
     (\<not> m_active m \<and> \<not> m_lock_active m \<and> \<not> m_dialog_up m \<and> \<not> m_fading m \<and> m_windows m = [] \<and> m_jobs m = None
      \<and> m_lock_timeout_id m = None \<and> m_cycle_timeout_id m = None \<and> g_seat (m_grab m) = None \<and> grab_ok (m_grab m))"

lemma at_rest_ok: "at_rest m \<Longrightarrow> m_monitor_handlers m = 0 \<or> m_monitors m = [] \<Longrightarrow> manager_ok m"
  by (auto simp: at_rest_def manager_ok_def core_ok_def cfg_ok_def link_ok_def live_ok_def wins_ok_def jobs_ok_def
      timers_ok_def cover_ok_def window_ids_def intro!: dialogs_okI)

lemma stop_jobs_post: "rpost (\<lambda>m'. m' = m\<lparr>m_jobs := None\<rparr>) (manager_stop_jobs e m)"
  by (simp add: manager_stop_jobs_def) (simp add: rpost_def)

lemma wrecked_fields:
  assumes "wrecked m X m'"
  shows "m_lock_timeout_id m' = m_lock_timeout_id m" "m_cycle_timeout_id m' = m_cycle_timeout_id m"
    "m_deactivated_idles m' = m_deactivated_idles m" "m_monitors m' = m_monitors m"
    "m_monitor_handlers m' = m_monitor_handlers m" "m_throttled m' = m_throttled m" "m_fade m' = m_fade m"
proof -
  have b: "bare m' = bare m" using assms by (simp add: wrecked_def)
  show "m_lock_timeout_id m' = m_lock_timeout_id m" using arg_cong [OF b, of m_lock_timeout_id] by (simp add: bare_def)
  show "m_cycle_timeout_id m' = m_cycle_timeout_id m" using arg_cong [OF b, of m_cycle_timeout_id] by (simp add: bare_def)
  show "m_deactivated_idles m' = m_deactivated_idles m"
    using arg_cong [OF b, of m_deactivated_idles] by (simp add: bare_def)
  show "m_monitors m' = m_monitors m" using arg_cong [OF b, of m_monitors] by (simp add: bare_def)
  show "m_throttled m' = m_throttled m" using arg_cong [OF b, of m_throttled] by (simp add: bare_def)
  show "m_fade m' = m_fade m" using arg_cong [OF b, of m_fade] by (simp add: bare_def)
  show "m_monitor_handlers m' = m_monitor_handlers m"
    using arg_cong [OF b, of m_monitor_handlers] by (simp add: bare_def)
qed

lemma grab_released [simp]: "g_seat (gs_grab_release g flush) = None"
  by (simp add: gs_grab_release_def gs_grab_reset_def gdk_seat_ungrab_def)

lemma set_alpha_callbacks: "rpost (\<lambda>(_, f'). f_callbacks f' = f_callbacks f) (gs_fade_set_alpha e a f)"
proof -
  have "rpost (\<lambda>f'. f_callbacks f' = f_callbacks f) (rfold (\<lambda>i f. if i < length infos
      then ret (xrandr_crtc_whack_gamma i (infos ! i) a f) else Inl Out_Of_Bounds) is f)" for infos a "is" f
    by (rule rpost_rfold) (simp_all add: xrandr_crtc_whack_gamma_def)
  then show ?thesis
    by (auto simp: gs_fade_set_alpha_def fade_set_alpha_gamma_def gamma_fade_set_alpha_gamma_def xf86_whack_gamma_def
        xrandr_fade_set_alpha_gamma_def Let_def split: fade_methods.split option.split list.split prod.split)
qed

lemma fade_reset_callbacks: "rpost (\<lambda>f'. f_callbacks f' = f_callbacks f) (gs_fade_reset e f)"
proof -
  let ?f = "(if f_active f then gs_fade_stop f else f)\<lparr>f_current_alpha := 1\<rparr>"
  have f: "f_callbacks ?f = f_callbacks f" by (simp add: gs_fade_stop_def Let_def)
  show ?thesis
    unfolding gs_fade_reset_def Let_def
    by (rule rpost_rbindI [OF set_alpha_callbacks]) (use f in \<open>auto simp: fade_finish_def screen_fade_finish_def\<close>)
qed

lemma reset_fade_post:
  "rpost (\<lambda>m'. \<exists>f. m' = m\<lparr>m_fade := f\<rparr> \<and> f_callbacks f = f_callbacks (m_fade m)) (manager_reset_fade e m)"
  unfolding manager_reset_fade_def by (rule rpost_rbindI [OF fade_reset_callbacks]) auto

text \<open>The manager just before deactivation destroys the windows.\<close>

definition winding_down :: "gs_manager \<Rightarrow> bool" where
  "winding_down m =
     (m_lock_timeout_id m = None \<and> m_cycle_timeout_id m = None \<and> m_jobs m = None \<and> grab_ok (m_grab m)
      \<and> g_seat (m_grab m) = None \<and> (m_windows m = [] \<longrightarrow> m_monitors m = []))"

definition switched_off :: "gs_manager \<Rightarrow> gs_manager" where
  "switched_off m = m\<lparr>m_active := False, m_activate_time := 0, m_lock_active := False, m_dialog_up := False, m_fading := False\<rparr>"

lemma switched_off_same [simp]:
  "m_deactivated_idles (switched_off m) = m_deactivated_idles m" "m_throttled (switched_off m) = m_throttled m"
  "m_fade (switched_off m) = m_fade m"
  by (simp_all add: switched_off_def)

lemma destroy_windows_rest:
  assumes m: "winding_down m"
  shows "rpost (\<lambda>m'. at_rest (switched_off m') \<and> manager_ok (switched_off m')
           \<and> m_throttled m' = m_throttled m \<and> f_callbacks (m_fade m') = f_callbacks (m_fade m) \<and> m_deactivated_idles m' = m_deactivated_idles m) (gs_manager_destroy_windows e m)"
proof (cases "m_windows m = []")
  case True
  have "at_rest (switched_off m)" using m True by (simp add: at_rest_def winding_down_def switched_off_def)
  moreover have "m_monitors (switched_off m) = []" using m True by (simp add: winding_down_def switched_off_def)
  ultimately show ?thesis using True at_rest_ok by (simp add: gs_manager_destroy_windows_def)
next
  case False
  have "rpost (\<lambda>m'. wrecked (m\<lparr>m_monitor_handlers := 0\<rparr>) {None} m' \<and> m_windows m' = []) (gs_manager_destroy_windows e m)"
    by (rule destroy_windows_wrecked) (use m False in \<open>simp_all add: winding_down_def\<close>)
  then show ?thesis
  proof (rule rpost_mono)
    fix m' assume m': "wrecked (m\<lparr>m_monitor_handlers := 0\<rparr>) {None} m' \<and> m_windows m' = []"
    note w = conjunct1 [OF m']
    have "at_rest (switched_off m')" "m_monitor_handlers (switched_off m') = 0" "m_throttled m' = m_throttled m \<and> f_callbacks (m_fade m') = f_callbacks (m_fade m)"
      "m_deactivated_idles m' = m_deactivated_idles m"
      using wrecked_fields [OF w] wrecked_jobs [OF w] wrecked_grab [OF w] m m'
      by (simp_all add: at_rest_def winding_down_def switched_off_def)
    then show "at_rest (switched_off m') \<and> manager_ok (switched_off m') \<and> m_throttled m' = m_throttled m
            \<and> f_callbacks (m_fade m') = f_callbacks (m_fade m)
        \<and> m_deactivated_idles m' = m_deactivated_idles m"
      using at_rest_ok by blast
  qed
qed

lemma deactivate_post:
  assumes ok: "manager_ok m" and act: "m_active m"
  shows "rpost (\<lambda>(r, m'). r \<and> at_rest m' \<and> manager_ok m' \<and> m_throttled m' = m_throttled m
            \<and> f_callbacks (m_fade m') = f_callbacks (m_fade m)
             \<and> m_deactivated_idles m' = m_deactivated_idles m) (gs_manager_deactivate e m)"
proof -
  have cov: "m_windows m = [] \<Longrightarrow> m_monitors m = []" using ok act by (simp add: manager_ok_def cover_ok_def)
  let ?Q = "\<lambda>(r, m'). r \<and> at_rest m' \<and> manager_ok m' \<and> m_throttled m' = m_throttled m
            \<and> f_callbacks (m_fade m') = f_callbacks (m_fade m)
      \<and> m_deactivated_idles m' = m_deactivated_idles m"
  have run: "rpost ?Q (rbind (manager_stop_jobs e m2) (\<lambda>m. rbind (gs_manager_destroy_windows e m)
        (\<lambda>m. ret (True, switched_off m))))"
    if m2: "m2 = (remove_timers ((remove_unfade_idle m)\<lparr>m_fade := f\<rparr>))\<lparr>m_grab := gs_grab_release g True\<rparr>"
    and f: "f_callbacks f = f_callbacks (m_fade m)" for f g m2
  proof (rule rpost_rbindI [OF stop_jobs_post])
    fix m3 assume m3: "m3 = m2\<lparr>m_jobs := None\<rparr>"
    have "winding_down m3" "m_deactivated_idles m3 = m_deactivated_idles m" "m_throttled m3 = m_throttled m"
      "f_callbacks (m_fade m3) = f_callbacks (m_fade m)"
      using cov f unfolding m3 m2
      by (simp_all add: winding_down_def remove_timers_def remove_lock_timer_def remove_cycle_timer_def remove_unfade_idle_def)
    then show "rpost ?Q (rbind (gs_manager_destroy_windows e m3) (\<lambda>m. ret (True, switched_off m)))"
      using destroy_windows_rest [of m3 e] by simp
  qed
  have "gs_manager_deactivate e m = rbind (manager_reset_fade e (remove_unfade_idle m)) (\<lambda>m.
      rbind (manager_stop_jobs e ((remove_timers m)\<lparr>m_grab := gs_grab_release (m_grab (remove_timers m)) True\<rparr>)) (\<lambda>m.
      rbind (gs_manager_destroy_windows e m) (\<lambda>m. ret (True, switched_off m))))"
    using act by (simp add: gs_manager_deactivate_def switched_off_def Let_def)
  moreover have "m_fade (remove_unfade_idle m) = m_fade m" by (simp add: remove_unfade_idle_def)
  ultimately show ?thesis using run by (auto intro!: rpost_rbindI [OF reset_fade_post] simp del: rpost_simps(3))
qed

section \<open>Activation\<close>

definition hidden_ids :: "gs_manager \<Rightarrow> nat set" where
  "hidden_ids m = {win_id w |w. w \<in> set (m_windows m) \<and> \<not> win_visible w}"

lemma hidden_ids_windows: "m_windows m' = m_windows m \<Longrightarrow> hidden_ids m' = hidden_ids m"
  by (simp add: hidden_ids_def)

lemma hidden_put_win: "win_visible w \<Longrightarrow> hidden_ids (put_win w m) = hidden_ids m - {win_id w}"
  by (auto simp: hidden_ids_def put_win_def)

lemma show_window_hidden:
  "rpost (\<lambda>m'. hidden_ids m' \<subseteq> hidden_ids m) (manager_show_window e i m)"
proof -
  have "rpost (\<lambda>m1. hidden_ids m1 \<subseteq> hidden_ids m) (apply_background_to_window e i m)"
    unfolding apply_background_to_window_def
  proof (rule with_win_post)
    fix w assume w: "w \<in> set (m_windows m)" "win_id w = i"
    have "hidden_ids (put_win (w\<lparr>win_background := s\<rparr>) m) \<subseteq> hidden_ids m" for s
      using w by (auto simp: hidden_ids_def put_win_def)
    then show "rpost (\<lambda>m1. hidden_ids m1 \<subseteq> hidden_ids m)
        (ret (put_win (gs_window_set_background_surface (me_surface e (win_monitor w)) w) m))"
      by (simp add: gs_window_set_background_surface_def)
  qed
  then show ?thesis
    unfolding manager_show_window_def
    by (rule rpost_rbindI) (simp add: hidden_ids_def add_job_same, simp add: rpost_def)
qed

lemma widget_show_hidden:
  "rpost (\<lambda>m'. hidden_ids m' \<subseteq> hidden_ids m - {i}) (manager_widget_show e i m)"
  unfolding manager_widget_show_def window_show_cb_def
proof (rule with_win_post)
  fix w :: gs_window assume w: "win_id w = i"
  let ?w = "fst (gs_window_show (me_win e) w)"
  have "win_visible ?w" "win_id ?w = i"
    using w by (simp_all add: gs_window_show_def gs_window_real_show_def win_add_watchdog_timer_def win_remove_watchdog_timer_def)
  then have "hidden_ids (put_win ?w m) = hidden_ids m - {i}" using hidden_put_win by simp
  then show "rpost (\<lambda>m'. hidden_ids m' \<subseteq> hidden_ids m - {i})
      (let (w, evs) = gs_window_show (me_win e) w; m = put_win w m in
       if evs \<noteq> [] then manager_show_window e i m else ret m)"
    using show_window_hidden [of "put_win ?w m" e i] by (simp add: split_def Let_def)
qed

lemma show_windows_hidden:
  "rpost (\<lambda>m'. hidden_ids m' \<subseteq> hidden_ids m - set ids) (show_windows e ids m)"
  unfolding show_windows_def
proof (induction ids arbitrary: m)
  case (Cons i ids)
  have "rpost (\<lambda>m'. hidden_ids m' \<subseteq> hidden_ids m - set (i # ids)) (rfold (manager_widget_show e) ids m1)"
    if "hidden_ids m1 \<subseteq> hidden_ids m - {i}" for m1
    using Cons.IH [of m1] that by (auto intro: rpost_mono)
  then show ?case unfolding rfold.simps by (rule rpost_rbindI [OF widget_show_hidden])
qed simp

text \<open>Creating the windows while inactive, and starting the job table.\<close>

lemma core_ok_grab: "core_ok m \<Longrightarrow> grab_ok g \<Longrightarrow> core_ok (m\<lparr>m_grab := g\<rparr>)"
  using dialogs_ok_cong [of "m\<lparr>m_grab := g\<rparr>" m]
  by (simp add: core_ok_def live_ok_def cfg_ok_def link_ok_def wins_ok_def jobs_ok_def job_rests_def timers_ok_def
      window_ids_def follows_def)

lemma core_ok_handlers [simp]: "core_ok (m\<lparr>m_monitor_handlers := n\<rparr>) = core_ok m"
  using dialogs_ok_cong [of "m\<lparr>m_monitor_handlers := n\<rparr>" m]
  by (simp add: core_ok_def live_ok_def cfg_ok_def link_ok_def wins_ok_def jobs_ok_def job_rests_def timers_ok_def
      window_ids_def follows_def)

lemma core_ok_start: "core_ok m \<Longrightarrow> core_ok (m\<lparr>m_jobs := Some [], m_active := True\<rparr>)"
  using dialogs_ok_cong [of "m\<lparr>m_jobs := Some [], m_active := True\<rparr>" m]
  by (simp add: core_ok_def live_ok_def cfg_ok_def link_ok_def wins_ok_def jobs_ok_def timers_ok_def
      window_ids_def follows_def gh_ok_def)

lemma create_all_post:
  assumes ok: "core_ok m" and cov: "cover_ok m"
  shows "rpost (\<lambda>m'. core_ok m' \<and> m_steady m m' \<and> 0 < m_monitor_handlers m'
            \<and> set (map win_monitor (m_windows m')) = set (m_monitors m') \<and> m_monitors m' = m_monitors m)
          (if m_windows m = [] then gs_manager_create_windows e m else ret m)"
proof (cases "m_windows m = []")
  case True
  let ?m = "m\<lparr>m_monitor_handlers := Suc (m_monitor_handlers m)\<rparr>"
  have "rpost (\<lambda>m'. grown ?m m' (m_monitors m) \<and> core_ok m') (rfold (gs_manager_create_window_for_monitor e) (m_monitors m) ?m)"
    by (rule create_windows_post) (simp add: ok)
  then have "rpost (\<lambda>m'. core_ok m' \<and> m_steady m m' \<and> 0 < m_monitor_handlers m'
            \<and> set (map win_monitor (m_windows m')) = set (m_monitors m') \<and> m_monitors m' = m_monitors m)
      (rfold (gs_manager_create_window_for_monitor e) (m_monitors m) ?m)"
  proof (rule rpost_mono)
    fix m' assume m': "grown ?m m' (m_monitors m) \<and> core_ok m'"
    then have g: "map win_monitor (m_windows m') = m_monitors m" "m_monitors m' = m_monitors m" "0 < m_monitor_handlers m'"
      using True by (simp_all add: grown_def m_fix_def)
    moreover have "m_steady m m'" using m' m_steady_grown [of ?m m'] by (auto simp: m_steady_def)
    ultimately show "core_ok m' \<and> m_steady m m' \<and> 0 < m_monitor_handlers m'
            \<and> set (map win_monitor (m_windows m')) = set (m_monitors m') \<and> m_monitors m' = m_monitors m"
      using m' by metis
  qed
  then show ?thesis
    using True by (simp add: gs_manager_create_windows_def gs_manager_create_windows_for_display_def)
next
  case False
  then show ?thesis using ok cov by (auto simp: cover_ok_def m_steady_def)
qed

lemma activate_post:
  assumes ok: "manager_ok m" and off: "\<not> m_active m"
  shows "rpost (\<lambda>(r, m'). manager_ok m' \<and> m_active m' = r \<and> m_throttled m' = m_throttled m
            \<and> f_callbacks (m_fade m') = f_callbacks (m_fade m)
            \<and> m_lock_active m' = m_lock_active m \<and> m_deactivated_idles m' = m_deactivated_idles m \<and> (m_lock_active m \<longrightarrow> m_emit_idles m' = m_emit_idles m) \<and> (no_ok m \<longrightarrow> no_ok m')
            \<and> (r \<longrightarrow> (\<forall>w \<in> set (m_windows m'). win_visible w))
            \<and> (\<not> r \<longrightarrow> m_windows m' = m_windows m \<and> m_jobs m' = None)) (gs_manager_activate e m)"
proof -
  obtain res g where g: "gs_grab_grab_root (me_seat e) (me_root e) (m_grab m) False False = (res, g)" by (metis prod.exhaust)
  let ?m = "m\<lparr>m_grab := g\<rparr>"
  have core: "core_ok m" "cover_ok m" using ok by (simp_all add: manager_ok_def)
  have "grab_ok g"
    using grab_window_ok [of "m_grab m" "me_seat e" "Some (me_root e)" False False] g core(1)
    by (simp add: gs_grab_grab_root_def core_ok_def live_ok_def)
  then have c1: "core_ok ?m" "cover_ok ?m"
    using core core_ok_grab by (simp_all add: cover_ok_def)
  show ?thesis
  proof (cases res)
    case False
    have "m_jobs m = None" using core(1) off by (simp add: core_ok_def link_ok_def)
    then show ?thesis using False g off c1 by (simp add: gs_manager_activate_def manager_ok_def)
  next
    case True
    let ?start = "\<lambda>m. m\<lparr>m_jobs := Some [], m_active := True\<rparr>"
    have run: "gs_manager_activate e m = rbind (if m_windows ?m = [] then gs_manager_create_windows e ?m else ret ?m)
        (\<lambda>m. rbind (show_windows e (window_ids (?start m)) (?start m)) (\<lambda>m. ret (True, m)))"
      using True g off by (simp add: gs_manager_activate_def Let_def)
    show ?thesis
      unfolding run
    proof (rule rpost_rbindI [OF create_all_post [OF c1]])
      fix m1 assume m1: "core_ok m1 \<and> m_steady ?m m1 \<and> 0 < m_monitor_handlers m1
            \<and> set (map win_monitor (m_windows m1)) = set (m_monitors m1) \<and> m_monitors m1 = m_monitors ?m"
      let ?s = "?start m1"
      have cov: "cover_ok ?s" using m1 by (auto simp: cover_ok_def)
      have "rpost (\<lambda>m'. (m_frame ?s m' \<and> core_ok m') \<and> hidden_ids m' \<subseteq> hidden_ids ?s - set (window_ids ?s))
          (show_windows e (window_ids ?s) ?s)"
        unfolding rpost_conj [of _ "\<lambda>m'. hidden_ids m' \<subseteq> hidden_ids ?s - set (window_ids ?s)"]
        using show_windows_post [OF core_ok_start, of m1 e] show_windows_hidden m1 by simp
      then have "rpost (\<lambda>m'. manager_ok m' \<and> m_active m' \<and> m_throttled m' = m_throttled m \<and> f_callbacks (m_fade m') = f_callbacks (m_fade m) \<and> m_lock_active m' = m_lock_active m
            \<and> m_deactivated_idles m' = m_deactivated_idles m \<and> (m_lock_active m \<longrightarrow> m_emit_idles m' = m_emit_idles m) \<and> (no_ok m \<longrightarrow> no_ok m') \<and> (\<forall>w \<in> set (m_windows m'). win_visible w))
          (show_windows e (window_ids ?s) ?s)"
      proof (rule rpost_mono)
        fix m' assume m': "(m_frame ?s m' \<and> core_ok m') \<and> hidden_ids m' \<subseteq> hidden_ids ?s - set (window_ids ?s)"
        then have "hidden_ids m' = {}" by (auto simp: hidden_ids_def window_ids_def)
        moreover have "cover_ok m'" using m' m_frame_cover cov by blast
        moreover have "m_steady ?s m'" using m' m_steady_frame by blast
        ultimately show "manager_ok m' \<and> m_active m' \<and> m_throttled m' = m_throttled m \<and> f_callbacks (m_fade m') = f_callbacks (m_fade m) \<and> m_lock_active m' = m_lock_active m
            \<and> m_deactivated_idles m' = m_deactivated_idles m \<and> (m_lock_active m \<longrightarrow> m_emit_idles m' = m_emit_idles m) \<and> (no_ok m \<longrightarrow> no_ok m') \<and> (\<forall>w \<in> set (m_windows m'). win_visible w)"
          using m' m1 by (auto simp: manager_ok_def m_steady_def hidden_ids_def)
      qed
      then show "rpost (\<lambda>(r, m'). manager_ok m' \<and> m_active m' = r \<and> m_throttled m' = m_throttled m
            \<and> f_callbacks (m_fade m') = f_callbacks (m_fade m)
            \<and> m_lock_active m' = m_lock_active m \<and> m_deactivated_idles m' = m_deactivated_idles m \<and> (m_lock_active m \<longrightarrow> m_emit_idles m' = m_emit_idles m) \<and> (no_ok m \<longrightarrow> no_ok m')
            \<and> (r \<longrightarrow> (\<forall>w \<in> set (m_windows m'). win_visible w))
            \<and> (\<not> r \<longrightarrow> m_windows m' = m_windows m \<and> m_jobs m' = None))
          (rbind (show_windows e (window_ids ?s) ?s) (\<lambda>m. ret (True, m)))"
        by simp
    qed
  qed
qed

section \<open>Settings\<close>

text \<open>
  A change that keeps the windows in step with the settings and leaves jobs, dialog, grab and
  monitors alone.
\<close>

definition m_base where
  "m_base m = (m_jobs m, m_active m, m_dialog_up m, m_throttled m, m_fading m, m_grab m, m_next_id m,
     m_monitors m, m_monitor_handlers m)"

definition win_base :: "gs_window \<Rightarrow> nat \<times> nat \<times> bool \<times> bool \<times> bool" where
  "win_base w = (win_id w, win_monitor w, win_dialog_up w, win_freed w, win_ok w)"

lemma relabel_ok:
  assumes ok: "manager_ok m" and ws: "m_windows m' = map f (m_windows m)" and b: "m_base m' = m_base m"
    and f: "\<And>w. win_base (f w) = win_base w" and fo: "\<And>w. follows m w \<Longrightarrow> follows m' (f w)" and t: "timers_ok m \<Longrightarrow> timers_ok m'"
  shows "manager_ok m'"
proof -
  have f': "win_id (f w) = win_id w" "win_monitor (f w) = win_monitor w" "win_dialog_up (f w) = win_dialog_up w"
    "win_freed (f w) = win_freed w" "win_ok (f w) = win_ok w" for w
    using f [of w] by (simp_all add: win_base_def)
  have m': "m_jobs m' = m_jobs m" "m_active m' = m_active m" "m_dialog_up m' = m_dialog_up m"
    "m_throttled m' = m_throttled m" "m_fading m' = m_fading m" "m_grab m' = m_grab m" "m_next_id m' = m_next_id m"
    "m_monitors m' = m_monitors m" "m_monitor_handlers m' = m_monitor_handlers m"
    using b by (simp_all add: m_base_def)
  have ids: "window_ids m' = window_ids m" "map win_monitor (m_windows m') = map win_monitor (m_windows m)"
    using ws f' by (simp_all add: window_ids_def comp_def)
  have c: "cfg_ok m" "link_ok m" "live_ok m" "cover_ok m" using ok by (simp_all add: manager_ok_def core_ok_def)
  then have l: "wins_ok m" "dialogs_ok m" "jobs_ok m" "grab_ok (m_grab m)" "timers_ok m" by (simp_all add: live_ok_def)
  have "cfg_ok m'" using c(1) ws f' fo m' ids(1) by (auto simp: cfg_ok_def)
  moreover have "link_ok m'" using c(2) m' by (simp add: link_ok_def)
  moreover have "cover_ok m'" using c(4) m' ids(2) ws unfolding cover_ok_def by (metis map_is_Nil_conv)
  moreover have "wins_ok m'" using l(1) ws f' by (simp add: wins_ok_def)
  moreover have "dialogs_ok m'"
  proof (rule dialogs_okI)
    show "m_dialog_up m' = (\<exists>w \<in> set (m_windows m'). win_dialog_up w)" unfolding ws m'(3) dialogs_ok_up [OF l(2)] by (simp add: f'(3))
    show "\<And>u v. u \<in> set (m_windows m') \<Longrightarrow> v \<in> set (m_windows m') \<Longrightarrow> win_dialog_up u \<Longrightarrow> win_dialog_up v \<Longrightarrow> win_id u = win_id v"
      unfolding ws by (clarsimp simp: f') (rule dialogs_ok_unique [OF l(2)])
  qed
  moreover have "jobs_ok m'" using l(3) ids(1) m' by (simp add: jobs_ok_def job_rests_def)
  ultimately show ?thesis using l(4) m' t [OF l(5)] by (simp add: manager_ok_def core_ok_def live_ok_def)
qed

lemmas relabel_simps = m_base_def win_base_def follows_def timers_ok_def win_ok_def

lemma relabel_id:
  "manager_ok m \<Longrightarrow> m_windows m' = m_windows m \<Longrightarrow> m_base m' = m_base m \<Longrightarrow>
   (\<And>w. follows m w \<Longrightarrow> follows m' w) \<Longrightarrow> (timers_ok m \<Longrightarrow> timers_ok m') \<Longrightarrow> manager_ok m'"
  by (rule relabel_ok [of m m' "\<lambda>w. w"]) simp_all

lemma set_mode_ok [inv_intros]: "manager_ok m \<Longrightarrow> manager_ok (gs_manager_set_mode mode m)"
  unfolding gs_manager_set_mode_def by (erule relabel_id) (simp_all add: relabel_simps)

lemma set_themes_ok [inv_intros]: "manager_ok m \<Longrightarrow> manager_ok (gs_manager_set_themes themes m)"
  unfolding gs_manager_set_themes_def by (erule relabel_id) (simp_all add: relabel_simps)

lemma set_lock_active_ok [inv_intros]: "manager_ok m \<Longrightarrow> manager_ok (gs_manager_set_lock_active b m)"
  unfolding gs_manager_set_lock_active_def
  by (auto simp: relabel_simps gs_window_set_lock_enabled_def intro!: relabel_ok [of m _ "gs_window_set_lock_enabled b"])

lemma set_lock_enabled_ok [inv_intros]: "manager_ok m \<Longrightarrow> manager_ok (gs_manager_set_lock_enabled b m)"
  unfolding gs_manager_set_lock_enabled_def by (auto simp: relabel_simps intro!: relabel_id [of m])

lemma set_logout_enabled_ok [inv_intros]: "manager_ok m \<Longrightarrow> manager_ok (gs_manager_set_logout_enabled b m)"
  unfolding gs_manager_set_logout_enabled_def
  by (auto simp: relabel_simps gs_window_set_logout_enabled_def intro!: relabel_ok [of m _ "gs_window_set_logout_enabled b"])

lemma set_keyboard_enabled_ok [inv_intros]: "manager_ok m \<Longrightarrow> manager_ok (gs_manager_set_keyboard_enabled b m)"
  unfolding gs_manager_set_keyboard_enabled_def
  by (auto simp: relabel_simps gs_window_set_keyboard_enabled_def intro!: relabel_ok [of m _ "gs_window_set_keyboard_enabled b"])

lemma set_user_switch_enabled_ok [inv_intros]: "manager_ok m \<Longrightarrow> manager_ok (gs_manager_set_user_switch_enabled b m)"
  unfolding gs_manager_set_user_switch_enabled_def
  by (auto simp: relabel_simps gs_window_set_user_switch_enabled_def
      intro!: relabel_ok [of m _ "gs_window_set_user_switch_enabled b"])

lemma set_logout_timeout_ok [inv_intros]: "manager_ok m \<Longrightarrow> manager_ok (gs_manager_set_logout_timeout t m)"
  unfolding gs_manager_set_logout_timeout_def
  by (auto simp: relabel_simps gs_window_set_logout_timeout_def intro!: relabel_ok [of m _ "gs_window_set_logout_timeout t"])

lemma set_logout_command_ok [inv_intros]: "manager_ok m \<Longrightarrow> manager_ok (gs_manager_set_logout_command c m)"
  unfolding gs_manager_set_logout_command_def
  by (erule relabel_ok [of m _ "gs_window_set_logout_command c"]) (simp_all add: relabel_simps gs_window_set_logout_command_def)

lemma set_keyboard_command_ok [inv_intros]: "manager_ok m \<Longrightarrow> manager_ok (gs_manager_set_keyboard_command c m)"
  unfolding gs_manager_set_keyboard_command_def
  by (erule relabel_ok [of m _ "gs_window_set_keyboard_command c"]) (simp_all add: relabel_simps gs_window_set_keyboard_command_def)

lemma set_status_message_ok [inv_intros]: "manager_ok m \<Longrightarrow> manager_ok (gs_manager_set_status_message c m)"
  unfolding gs_manager_set_status_message_def
  by (erule relabel_ok [of m _ "gs_window_set_status_message c"]) (simp_all add: relabel_simps gs_window_set_status_message_def)

lemma lock_timer_ok:
  "manager_ok m \<Longrightarrow> t = None \<or> m_active m \<Longrightarrow> manager_ok (m\<lparr>m_lock_timeout_id := t\<rparr>)"
  by (erule relabel_id) (auto simp: relabel_simps)

lemma activate_lock_timeout_ok [inv_intros]: "manager_ok m \<Longrightarrow> manager_ok (activate_lock_timeout m)"
  unfolding activate_lock_timeout_def by (simp add: lock_timer_ok set_lock_active_ok)

lemma remove_lock_timer_ok [inv_intros]: "manager_ok m \<Longrightarrow> manager_ok (remove_lock_timer m)"
  unfolding remove_lock_timer_def by (simp add: lock_timer_ok)

lemma set_lock_timeout_ok [inv_intros]:
  assumes "manager_ok m"
  shows "manager_ok (gs_manager_set_lock_timeout e t m)"
proof -
  have m: "manager_ok (m\<lparr>m_lock_timeout := t\<rparr>)" using assms by (rule relabel_id) (simp_all add: relabel_simps)
  have "m_active (remove_lock_timer (m\<lparr>m_lock_timeout := t\<rparr>)) = m_active m" by (simp add: remove_lock_timer_def)
  then show ?thesis
    using assms m remove_lock_timer_ok [OF m] activate_lock_timeout_ok [OF remove_lock_timer_ok [OF m]]
    by (simp add: gs_manager_set_lock_timeout_def Let_def add_lock_timer_def lock_timer_ok)
qed

lemma set_cycle_timeout_ok [inv_intros]: "manager_ok m \<Longrightarrow> manager_ok (gs_manager_set_cycle_timeout e t m)"
  by (erule relabel_id)
    (auto simp: relabel_simps gs_manager_set_cycle_timeout_def Let_def add_cycle_timer_def remove_cycle_timer_def)

lemma unfade_idle_ok: "manager_ok m \<Longrightarrow> rpost (\<lambda>m'. manager_ok m' \<and> m_steady m m') (unfade_idle e m)"
  unfolding unfade_idle_def
proof (rule rpost_rbindI [OF reset_fade_post])
  fix m' assume "manager_ok m" "\<exists>f. m' = m\<lparr>m_fade := f\<rparr> \<and> f_callbacks f = f_callbacks (m_fade m)"
  then show "rpost (\<lambda>m'. manager_ok m' \<and> m_steady m m') (ret (m'\<lparr>m_unfade_idle_id := False\<rparr>))"
    using relabel_id [of m "m'\<lparr>m_unfade_idle_id := False\<rparr>"] by (auto simp: relabel_simps m_steady_def)
qed

lemma grab_broken_ok [inv_intros]: "manager_ok m \<Longrightarrow> manager_ok (window_grab_broken_cb b m)"
  by (simp add: window_grab_broken_cb_def manager_ok_def core_ok_grab cover_ok_def)

lemma deactivated_cb_ok [inv_intros]: "manager_ok m \<Longrightarrow> manager_ok (window_deactivated_cb m)"
  unfolding window_deactivated_cb_def by (erule relabel_id) (simp_all add: relabel_simps)

lemma emit_deactivated_ok: "manager_ok m \<Longrightarrow> rpost manager_ok (emit_deactivated_idle i m)"
  unfolding emit_deactivated_idle_def by (intro with_win_post) (simp add: deactivated_cb_ok)

lemma set_throttled_post:
  assumes e: "env_ok e" and ok: "manager_ok m"
  shows "rpost (\<lambda>m'. manager_ok m' \<and> m_throttled m' = b \<and> m_steady (m\<lparr>m_throttled := b\<rparr>) m') (gs_manager_set_throttled e b m)"
proof (cases "m_throttled m = b")
  case True
  then show ?thesis using ok by (simp add: gs_manager_set_throttled_def m_steady_def)
next
  case False
  let ?m = "m\<lparr>m_throttled := b\<rparr>"
  have l: "wins_ok m" "dialogs_ok m" "jobs_ok m" "grab_ok (m_grab m)" "timers_ok m" "cfg_ok m" "link_ok m" "cover_ok m"
    using ok by (simp_all add: manager_ok_def core_ok_def live_ok_def)
  have same: "half_ok ?m" "dialogs_ok ?m" "table_ok ?m" "cover_ok ?m"
    using l dialogs_ok_cong [of ?m m] table_ok_cong [of ?m m] jobs_ok_table
    by (simp_all add: half_ok_def wins_ok_def timers_ok_def window_ids_def cover_ok_def)
  have cl: "cfg_ok ?m" "link_ok ?m" using l by (simp_all add: cfg_ok_def link_ok_def window_ids_def follows_def)
  show ?thesis
  proof (cases "m_dialog_up m")
    case True
    have "jobs_ok ?m" using l(3) True by (simp add: jobs_ok_def job_rests_def window_ids_def)
    then show ?thesis
      using True False same cl by (simp add: gs_manager_set_throttled_def manager_ok_def core_ok_def live_half m_steady_def)
  next
    case dn: False
    have "rpost (\<lambda>m'. m_frame ?m m' \<and> live_ok m' \<and> m_dialog_up m' = m_dialog_up ?m) (manager_throttle_jobs e ?m)"
      unfolding manager_throttle_jobs_def
      using dn by (intro jobs_foreach_live [OF same(1-3)] throttle_job_rests [OF e]) simp_all
    then have "rpost (\<lambda>m'. manager_ok m' \<and> m_throttled m' = b \<and> m_steady (m\<lparr>m_throttled := b\<rparr>) m') (manager_throttle_jobs e ?m)"
    proof (rule rpost_mono)
      fix m' assume m': "m_frame ?m m' \<and> live_ok m' \<and> m_dialog_up m' = m_dialog_up ?m"
      have "core_ok m'" using m' cl m_frame_cfg [of ?m m'] m_frame_link [of ?m m'] by (simp add: core_ok_def)
      moreover have "cover_ok m'" using m' m_frame_cover [of ?m m'] same by simp
      moreover have "m_throttled m' = b" using m' by (simp add: m_frame_def m_fix_def)
      moreover have "m_steady ?m m'" using m' by (blast intro: m_steady_frame)
      ultimately show "manager_ok m' \<and> m_throttled m' = b \<and> m_steady (m\<lparr>m_throttled := b\<rparr>) m'" by (simp add: manager_ok_def)
    qed
    then show ?thesis using dn False by (simp add: gs_manager_set_throttled_def)
  qed
qed

end
