(* ===== verification/GS_Manager_Props.thy ===== *)
theory GS_Manager_Props
  imports GS_Manager_Switch
begin

text \<open>
  Activation returns, and what activating, deactivating, throttling and the timers of the manager
  achieve.
\<close>

section \<open>Activation returns\<close>

text \<open>The Exec lines of the installed themes parse, which \<open>check_command\<close> takes for granted.\<close>

definition execs_parse :: "manager_env \<Rightarrow> bool" where
  "execs_parse e = themes_parse (me_theme e)"

lemma select_theme_returns: "execs_parse e \<Longrightarrow> returns (manager_select_theme_for_job e m j)"
proof (cases "select_theme e m")
  case (Some t)
  assume "execs_parse e"
  then show ?thesis
    using Some lookup_exec_returns [of "me_theme e" t] unfolding execs_parse_def
    by (cases "gs_theme_manager_lookup_theme_info (me_theme e) t") (fastforce simp: manager_select_theme_for_job_def)+
qed (auto simp: manager_select_theme_for_job_def)

lemma with_win_returns:
  assumes "wins_ok m" "i \<in> set (window_ids m)" "\<And>w. w \<in> set (m_windows m) \<Longrightarrow> win_id w = i \<Longrightarrow> returns (f w)"
  shows "returns (with_win i f m)"
proof -
  obtain w where w: "win_of m i = Some w"
    using assms(2) by (cases "win_of m i") (auto simp: win_of_def find_None_iff window_ids_def)
  then have "w \<in> set (m_windows m)" "win_id w = i" using win_of_Some [OF w] by simp_all
  then show ?thesis using w assms(1,3) by (auto simp: with_win_def wins_ok_def)
qed

lemma put_win_wins:
  "wins_ok m \<Longrightarrow> win_ok w \<Longrightarrow> \<not> win_freed w \<Longrightarrow> wins_ok (put_win w m)"
  by (auto simp: wins_ok_def put_win_def)

lemma widget_show_returns:
  assumes e: "execs_parse e" and ok: "wins_ok m" and i: "i \<in> set (window_ids m)"
  shows "returns (manager_widget_show e i m)"
  unfolding manager_widget_show_def window_show_cb_def
proof (rule with_win_returns [OF ok i])
  fix w assume w: "w \<in> set (m_windows m)" "win_id w = i"
  let ?w = "fst (gs_window_show (me_win e) w)" and ?m = "put_win (fst (gs_window_show (me_win e) w)) m"
  have wk: "win_ok ?w" "\<not> win_freed ?w"
    using ok w(1) by (auto simp: wins_ok_def gs_window_show_def gs_window_real_show_def win_add_watchdog_timer_def
        win_remove_watchdog_timer_def win_ok_def Let_def)
  have ids: "window_ids ?m = window_ids m" by (simp add: window_ids_def put_win_def cong: map_cong) 
  have "returns (apply_background_to_window e i ?m)"
    unfolding apply_background_to_window_def
    by (rule with_win_returns [OF put_win_wins [OF ok wk]]) (use ids i in simp_all)
  then obtain m1 where "apply_background_to_window e i ?m = Inr m1" ..
  then have "returns (manager_show_window e i ?m)"
    using select_theme_returns [OF e] unfolding manager_show_window_def gs_job_new_for_widget_eq
    by (metis rbind_simps(2))
  then show "returns (let (w, evs) = gs_window_show (me_win e) w; m = put_win w m in
       if evs \<noteq> [] then manager_show_window e i m else ret m)"
    by (simp add: split_def Let_def)
qed

lemma show_windows_returns:
  assumes e: "execs_parse e" and ok: "core_ok m" "m_active m" and ids: "set ids \<subseteq> set (window_ids m)"
  shows "returns (show_windows e ids m)"
proof -
  have "\<exists>m'. rfold (manager_widget_show e) ids m = Inr m' \<and> (m_frame m m' \<and> core_ok m')"
  proof (rule rfold_total)
    fix i m1 assume i: "i \<in> set ids" and m1: "m_frame m m1 \<and> core_ok m1"
    have a: "m_active m1" using m1 ok(2) by (simp add: m_frame_def m_fix_def)
    have "wins_ok m1" using m1 by (simp add: core_ok_def live_ok_def)
    moreover have "i \<in> set (window_ids m1)" using m1 i ids m_frame_ids [of m m1] by auto
    ultimately obtain m2 where m2: "manager_widget_show e i m1 = Inr m2" using widget_show_returns [OF e] by blast
    then have "m_frame m1 m2 \<and> core_ok m2" using widget_show_post [of m1 e i] m1 a by (simp add: rpost_def)
    then show "\<exists>m'. manager_widget_show e i m1 = Inr m' \<and> m_frame m m' \<and> core_ok m'"
      using m2 m1 m_frame_trans by blast
  qed (use ok in simp)
  then show ?thesis unfolding show_windows_def by blast
qed

lemma create_windows_returns:
  assumes "\<not> m_active m"
  shows "\<exists>m'. rfold (gs_manager_create_window_for_monitor e) mons m = Inr m' \<and> \<not> m_active m'"
  by (rule rfold_total) (use assms in \<open>simp_all add: gs_manager_create_window_for_monitor_def Let_def\<close>)

lemma activate_returns:
  assumes e: "execs_parse e" and ok: "manager_ok m" and off: "\<not> m_active m"
  shows "\<exists>m'. gs_manager_activate e m = Inr (fst (gs_grab_grab_root (me_seat e) (me_root e) (m_grab m) False False), m')"
proof -
  obtain res g where g: "gs_grab_grab_root (me_seat e) (me_root e) (m_grab m) False False = (res, g)" by (metis prod.exhaust)
  let ?m = "m\<lparr>m_grab := g\<rparr>" and ?start = "\<lambda>m. m\<lparr>m_jobs := Some [], m_active := True\<rparr>"
  show ?thesis
  proof (cases res)
    case False
    then show ?thesis using g off by (simp add: gs_manager_activate_def)
  next
    case True
    have core: "core_ok m" "cover_ok m" using ok by (simp_all add: manager_ok_def)
    have "grab_ok g"
      using grab_window_ok [of "m_grab m" "me_seat e" "Some (me_root e)" False False] g core(1)
      by (simp add: gs_grab_grab_root_def core_ok_def live_ok_def)
    then have c1: "core_ok ?m" "cover_ok ?m" using core core_ok_grab by (simp_all add: cover_ok_def)
    have run: "gs_manager_activate e m = rbind (if m_windows ?m = [] then gs_manager_create_windows e ?m else ret ?m)
        (\<lambda>m. rbind (show_windows e (window_ids (?start m)) (?start m)) (\<lambda>m. ret (True, m)))"
      using True g off by (simp add: gs_manager_activate_def Let_def)
    obtain m1 where m1: "(if m_windows ?m = [] then gs_manager_create_windows e ?m else ret ?m) = Inr m1"
    proof (cases "m_windows ?m = []")
      case True
      then show thesis
        using that create_windows_returns [of "?m\<lparr>m_monitor_handlers := Suc (m_monitor_handlers m)\<rparr>" e "m_monitors m"] off
        by (auto simp: gs_manager_create_windows_def gs_manager_create_windows_for_display_def)
    qed (use that in auto)
    then have "core_ok m1" using create_all_post [OF c1, of e] by (simp add: rpost_def)
    then have "returns (show_windows e (window_ids (?start m1)) (?start m1))"
      by (intro show_windows_returns [OF e core_ok_start]) simp_all
    then show ?thesis unfolding run m1 using g True by auto
  qed
qed

section \<open>Samples\<close>

text \<open>Surroundings in which spawning a process yields a positive process id.\<close>

definition sample_manager_env :: manager_env where
  "sample_manager_env =
     \<lparr>me_win = sample_win_env, me_proc = sample_procs,
      me_theme = sample_themes,
      me_seat = \<lparr>xs_grab = (\<lambda>_. GDK_GRAB_SUCCESS), xs_pointer_grabbed = (\<lambda>_. False)\<rparr>, me_root = 0, me_pointer_monitor = 1,
      me_random = (\<lambda>_. 0), me_time = 1000, me_fade = sample_fade_env, me_surface = (\<lambda>_. None)\<rparr>"

lemma sample_manager_env_ok: "env_ok sample_manager_env"
  by (simp add: env_ok_def sample_manager_env_def sample_procs_def sample_win_env_def spawn_ok_def win_spawn_ok_def)

lemma sample_execs_parse: "execs_parse sample_manager_env"
  by (simp add: execs_parse_def sample_manager_env_def sample_themes_parse)

definition sample_idle_manager :: gs_manager where
  "sample_idle_manager = gs_manager_init [1, 2] (gs_fade_init sample_fade_env) (gs_grab_init 9)"

text \<open>Two monitors, locked, and the dialog on neither or on the second window.\<close>

definition sample_active_manager :: gs_manager where
  "sample_active_manager =
     sample_idle_manager\<lparr>m_active := True, m_lock_active := True, m_jobs := Some [],
       m_windows := [(gs_window_new 1 1 True)\<lparr>win_visible := True\<rparr>, (gs_window_new 2 2 True)\<lparr>win_visible := True\<rparr>],
       m_monitor_handlers := 1, m_next_id := 3\<rparr>"

definition sample_dialog_manager :: gs_manager where
  "sample_dialog_manager =
     sample_active_manager\<lparr>m_dialog_up := True,
       m_windows := [(gs_window_new 1 1 True)\<lparr>win_visible := True\<rparr>,
         (gs_window_new 2 2 True)\<lparr>win_visible := True, win_dialog_up := True, win_popup_dialog_idle_id := True\<rparr>]\<rparr>"

lemmas sample_manager_defs =
  sample_idle_manager_def sample_active_manager_def sample_dialog_manager_def sample_manager_env_def gs_manager_init_def gs_grab_init_def
  gs_fade_init_def check_randr_extension_def sample_fade_env_def gs_window_new_def gs_window_init_def gs_window_set_lock_enabled_def

lemmas manager_ok_defs =
  manager_ok_def core_ok_def cfg_ok_def cover_ok_def link_ok_def live_ok_def wins_ok_def jobs_ok_def timers_ok_def follows_def
  window_ids_def win_ok_def grab_ok_def gh_ok_def MAX_QUEUED_EVENTS_def

lemma sample_idle_ok: "manager_ok sample_idle_manager"
  by (rule at_rest_ok) (simp_all add: at_rest_def sample_manager_defs grab_ok_def)

lemma sample_active_ok: "manager_ok sample_active_manager"
proof -
  have "dialogs_ok sample_active_manager" by (rule dialogs_okI) (auto simp: sample_manager_defs)
  then show ?thesis by (auto simp: manager_ok_defs sample_manager_defs)
qed

lemma sample_dialog_ok: "manager_ok sample_dialog_manager"
proof -
  have "dialogs_ok sample_dialog_manager" by (rule dialogs_okI) (auto simp: sample_manager_defs)
  then show ?thesis by (auto simp: manager_ok_defs sample_manager_defs)
qed

lemmas deactivate_defs =
  gs_manager_deactivate_def remove_unfade_idle_def manager_reset_fade_def gs_fade_reset_def gs_fade_set_alpha_def
  fade_set_alpha_gamma_def xrandr_fade_set_alpha_gamma_def fade_finish_def screen_fade_finish_def remove_timers_def
  remove_cycle_timer_def remove_lock_timer_def gs_grab_release_def gs_grab_reset_def gdk_seat_ungrab_def manager_stop_jobs_def
  gs_manager_destroy_windows_def window_ids_def gs_window_destroy_def manager_cancel_window_def gs_window_cancel_unlock_request_def
  popdown_dialog_def gs_window_dialog_finish_def keyboard_command_finish_def kill_dialog_command_def kill_keyboard_command_def
  remove_key_events_def window_set_dialog_up_def remove_command_watches_def remove_popup_dialog_idle_def with_win_def win_of_def
  put_win_def win_widget_destroy_def gs_window_finalize_def gs_window_real_hide_def win_remove_watchdog_timer_def
  grab_window_destroyed_def unlock_event_def window_dialog_up_changed_cb_def gs_window_is_dialog_up_def
  handle_window_dialog_down_def manager_move_grab_def set_sensitive_def

section \<open>Properties\<close>

text \<open>
  C10: activation.  When the command lines of the installed themes parse, an inactive manager always returns from
  \<open>gs_manager_activate\<close> (a theme whose command line does not parse makes \<open>check_command\<close> read an
  uninitialised pointer): with TRUE exactly when the devices could be grabbed on the root window, and
  then every monitor has a window, every window is shown and carries the lock flag, and there is a
  job table; with FALSE it stays inactive, with the windows and jobs it had.
\<close>

theorem activate_outcome:
  assumes "execs_parse e" "manager_ok m" "\<not> m_active m"
    and "fst (gs_grab_grab_root (me_seat e) (me_root e) (m_grab m) False False) = grabbed"
  shows "\<exists>m'. gs_manager_activate e m = Inr (grabbed, m') \<and> m_active m' = grabbed \<and> m_lock_active m' = m_lock_active m
     \<and> (grabbed \<longrightarrow> set (map win_monitor (m_windows m')) = set (m_monitors m') \<and> m_jobs m' \<noteq> None
          \<and> (\<forall>w \<in> set (m_windows m'). win_visible w \<and> win_lock_enabled w = m_lock_active m'))
     \<and> (\<not> grabbed \<longrightarrow> m_windows m' = m_windows m \<and> m_jobs m' = None)"
proof -
  obtain m' where m': "gs_manager_activate e m = Inr (grabbed, m')" using activate_returns [OF assms(1-3)] assms(4) by blast
  have post: "manager_ok m'" "m_active m' = grabbed" "m_lock_active m' = m_lock_active m"
      "grabbed \<longrightarrow> (\<forall>w \<in> set (m_windows m'). win_visible w)" "\<not> grabbed \<longrightarrow> m_windows m' = m_windows m \<and> m_jobs m' = None"
    using rpostD [OF activate_post [OF assms(2,3)] m'] by simp_all
  have "grabbed \<longrightarrow> set (map win_monitor (m_windows m')) = set (m_monitors m') \<and> m_jobs m' \<noteq> None
      \<and> (\<forall>w \<in> set (m_windows m'). win_lock_enabled w = m_lock_active m')"
    using post(1,2) by (simp add: manager_ok_def core_ok_def cover_ok_def link_ok_def cfg_ok_def follows_def)
  then show ?thesis using m' post by blast
qed

theorem activate_outcome_witness:
  "\<exists>m'. gs_manager_activate sample_manager_env sample_idle_manager = Inr (True, m') \<and> m_active m'
     \<and> set (map win_monitor (m_windows m')) = set (m_monitors m')"
proof -
  have "fst (gs_grab_grab_root (me_seat sample_manager_env) (me_root sample_manager_env) (m_grab sample_idle_manager) False False) = True"
    by (simp add: gs_grab_grab_root_def gs_grab_grab_window_def grab_window_loop.simps gs_grab_get_def gdk_seat_grab_def
        sample_manager_defs Let_def)
  moreover have "\<not> m_active sample_idle_manager" by (simp add: sample_manager_defs)
  ultimately show ?thesis using activate_outcome [OF sample_execs_parse sample_idle_ok] by blast
qed

text \<open>
  C9: deactivation.  When \<open>gs_manager_deactivate\<close> returns for an active manager, it returns TRUE and
  leaves nothing behind: no window, no job, no timer, no dialog, no lock, and the devices are free.
\<close>

theorem deactivate_outcome:
  assumes "manager_ok m" "m_active m" "gs_manager_deactivate e m = Inr (r, m')"
  shows "r \<and> \<not> m_active m' \<and> \<not> m_lock_active m' \<and> \<not> m_dialog_up m' \<and> m_windows m' = [] \<and> m_jobs m' = None
     \<and> m_lock_timeout_id m' = None \<and> m_cycle_timeout_id m' = None \<and> g_seat (m_grab m') = None \<and> manager_ok m'"
  using rpostD [OF deactivate_post [OF assms(1,2)] assms(3)] by (simp add: at_rest_def)

theorem deactivate_outcome_witness:
  "\<exists>m'. gs_manager_deactivate sample_manager_env sample_active_manager = Inr (True, m') \<and> m_windows m' = []
     \<and> g_seat (m_grab m') = None"
proof -
  obtain m' where "gs_manager_deactivate sample_manager_env sample_active_manager = Inr (True, m')"
    by (simp add: sample_manager_defs deactivate_defs)
  moreover have "m_active sample_active_manager" by (simp add: sample_manager_defs)
  ultimately show ?thesis using deactivate_outcome [OF sample_active_ok] by blast
qed

text \<open>
  A request to end the screensaver while the unlock dialog is up on any window but the first
  touches a window that was freed: \<open>gs_manager_destroy_windows\<close> destroys the windows one by one, and
  taking the dialog down on a later one makes every window of the list sensitive again.
\<close>

theorem deactivate_dialog_faults:
  "manager_ok sample_dialog_manager
   \<and> gs_manager_deactivate sample_manager_env sample_dialog_manager = Inl Use_After_Free"
proof
  show "manager_ok sample_dialog_manager" by (rule sample_dialog_ok)
  show "gs_manager_deactivate sample_manager_env sample_dialog_manager = Inl Use_After_Free"
    by (simp add: sample_manager_defs deactivate_defs gs_grab_move_to_window_def until_success.simps gs_grab_move_def
        gs_grab_get_def gdk_seat_grab_def Let_def)
qed

text \<open>
  C27: changing the lock delay of an active, unlocked screensaver for which locking is enabled.  If
  the new delay has already passed, the screen locks at once and no timer is left; otherwise the
  timer is set to exactly the rest of the delay, a positive number of milliseconds that does not
  exceed the delay.
\<close>

theorem lock_timeout_remaining:
  assumes "m_active m" "\<not> m_lock_active m" "m_lock_enabled m" "lock_timeout \<noteq> m_lock_timeout m"
    and "0 \<le> lock_timeout" "lock_timeout < 2 ^ 31" "m_activate_time m \<le> me_time e"
  defines "elapsed \<equiv> (me_time e - m_activate_time m) * 1000" and "m' \<equiv> gs_manager_set_lock_timeout e lock_timeout m"
  shows "if lock_timeout \<le> elapsed
    then m_lock_active m' \<and> m_lock_timeout_id m' = None \<and> (\<forall>w \<in> set (m_windows m'). win_lock_enabled w)
    else m_lock_timeout_id m' = Some (lock_timeout - elapsed) \<and> 0 < lock_timeout - elapsed
      \<and> lock_timeout - elapsed \<le> lock_timeout \<and> \<not> m_lock_active m'"
proof -
  have pos: "0 \<le> elapsed" using assms(7) by (simp add: elapsed_def)
  have w: "\<forall>w \<in> set (map (gs_window_set_lock_enabled True) ws). win_lock_enabled w" for ws
    by (auto simp: gs_window_set_lock_enabled_def)
  show ?thesis
  proof (cases "lock_timeout \<le> elapsed")
    case True
    then have "m' = activate_lock_timeout (remove_lock_timer (m\<lparr>m_lock_timeout := lock_timeout\<rparr>))"
      using assms(1-5) by (simp add: m'_def gs_manager_set_lock_timeout_def Let_def elapsed_def)
    then show ?thesis
      using True assms(2,3) w by (simp add: activate_lock_timeout_def remove_lock_timer_def gs_manager_set_lock_active_def)
  next
    case False
    then have "m' = add_lock_timer (lock_timeout - elapsed) (remove_lock_timer (m\<lparr>m_lock_timeout := lock_timeout\<rparr>))"
      using assms(1-5) by (simp add: m'_def gs_manager_set_lock_timeout_def Let_def elapsed_def)
    moreover have "(lock_timeout - elapsed) mod 2 ^ 32 = lock_timeout - elapsed"
      using False pos assms(6) by (intro mod_pos_pos_trivial) simp_all
    ultimately show ?thesis using False pos assms(2) by (simp add: add_lock_timer_def remove_lock_timer_def)
  qed
qed

theorem lock_timeout_remaining_witness:
  "m_lock_timeout_id (gs_manager_set_lock_timeout sample_manager_env 300000
     (sample_active_manager\<lparr>m_lock_active := False, m_lock_enabled := True, m_activate_time := 900\<rparr>)) = Some 200000"
  using lock_timeout_remaining [of "sample_active_manager\<lparr>m_lock_active := False, m_lock_enabled := True, m_activate_time := 900\<rparr>"
      300000 sample_manager_env]
  by (simp add: sample_manager_defs)

text \<open>A loop over the job table that leaves a job alone.\<close>

lemma rmap_lookup:
  assumes "rmap (\<lambda>(k, job). rbind (f k job) (\<lambda>job. ret (k, job))) h = Inr h'" "map_of h i = Some j" "f i j = Inr j"
  shows "map_of h' i = Some j"
  using assms(1,2)
proof (induction h arbitrary: h')
  case (Cons x h)
  obtain k v where x: "x = (k, v)" by (cases x)
  obtain v' h1 where "f k v = Inr v'" "rmap (\<lambda>(k, job). rbind (f k job) (\<lambda>job. ret (k, job))) h = Inr h1" "h' = (k, v') # h1"
    using Cons.prems(1) x by (auto simp: res_simps)
  then show ?case using Cons x assms(3) by (auto split: if_splits)
qed simp

text \<open>
  A screensaver program that was suspended while the unlock dialog was up, and whose screen was
  throttled before the dialog went away, stays frozen when the throttling ends:
  \<open>gs_manager_set_throttled\<close> starts programs but never continues one.
\<close>

theorem unthrottle_keeps_frozen:
  assumes "m_throttled m" "\<not> m_dialog_up m" "lookup_job_for_window m i = Some j"
    and "j_status j = GS_JOB_STOPPED" "0 < j_pid j" "gs_manager_set_throttled e False m = Inr m'"
  shows "lookup_job_for_window m' i = Some j"
proof -
  let ?m = "m\<lparr>m_throttled := False\<rparr>"
  obtain h where h: "m_jobs m = Some h" "map_of h i = Some j"
    using assms(3) by (cases "m_jobs m") (auto simp: lookup_job_for_window_def gh_lookup_def)
  have "jobs_foreach (throttle_job e ?m) ?m = Inr m'"
    using assms by (simp add: gs_manager_set_throttled_def manager_throttle_jobs_def Let_def)
  then obtain h' where h': "rmap (\<lambda>(k, job). rbind (throttle_job e ?m k job) (\<lambda>job. ret (k, job))) h = Inr h'" "m_jobs m' = Some h'"
    using h(1) by (auto simp: jobs_foreach_def res_simps)
  have "throttle_job e ?m i j = Inr j"
    using assms(2,5) by (simp add: throttle_job_def maybe_start_job_def gs_job_is_running_def)
  then have "map_of h' i = Some j" by (rule rmap_lookup [OF h'(1) h(2)])
  then show ?thesis using h'(2) by (simp add: lookup_job_for_window_def gh_lookup_def)
qed

definition sample_frozen_job :: gs_job where
  "sample_frozen_job =
     gs_job_new\<lparr>j_widget := Some 1, j_pid := 4242, j_status := GS_JOB_STOPPED, j_child_stopped := True, j_watch_id := True\<rparr>"

theorem unthrottle_keeps_frozen_witness:
  "\<exists>m'. gs_manager_set_throttled sample_manager_env False
       (sample_active_manager\<lparr>m_throttled := True, m_jobs := Some [(1, sample_frozen_job)]\<rparr>) = Inr m'
     \<and> lookup_job_for_window m' 1 = Some sample_frozen_job"
proof -
  let ?m = "sample_active_manager\<lparr>m_throttled := True, m_jobs := Some [(1, sample_frozen_job)]\<rparr>"
  obtain m' where m': "gs_manager_set_throttled sample_manager_env False ?m = Inr m'"
    by (simp add: gs_manager_set_throttled_def manager_throttle_jobs_def jobs_foreach_def throttle_job_def maybe_start_job_def
        gs_job_is_running_def sample_frozen_job_def sample_manager_defs Let_def)
  have "lookup_job_for_window m' 1 = Some sample_frozen_job"
    by (rule unthrottle_keeps_frozen [OF _ _ _ _ _ m'])
      (simp_all add: sample_manager_defs sample_frozen_job_def lookup_job_for_window_def gh_lookup_def)
  then show ?thesis using m' by blast
qed

end
