(* ===== verification/GS_Monitor.thy ===== *)
theory GS_Monitor
  imports GS_Listener_Sync GS_Watcher GS_Manager_Props
begin

text \<open>
  \<open>src/gs-monitor.c\<close>: the monitor connects the watcher, the listener, the manager and the
  preferences.  The whole daemon is a listener together with the rest, a \<open>gs_monitor\<close>; the fade and
  grab objects are the ones the manager holds, since both are singletons.  A handler of a watcher
  signal sees the watcher next to the listener and the rest, whose copy of the watcher is out of
  date until the handler puts it back.
\<close>

section \<open>State\<close>

record gs_monitor =
  mon_watcher :: gs_watcher
  mon_manager :: gs_manager
  mon_prefs :: gs_prefs
  mon_release_grab_id :: "nat option"
  mon_quit :: bool

type_synonym daemon = "gs_monitor ls"

definition FADE_TIMEOUT :: nat where "FADE_TIMEOUT = 10000"

text \<open>An operation of the manager inside the daemon.\<close>

definition on_manager :: "(gs_manager \<Rightarrow> gs_manager res) \<Rightarrow> daemon \<Rightarrow> daemon res" where
  "on_manager f ls =
     (case ls of (l, mon) \<Rightarrow> rbind (f (mon_manager mon)) (\<lambda>m. ret (l, mon\<lparr>mon_manager := m\<rparr>)))"

section \<open>Handlers of the listener\<close>

definition listener_active_changed_cb :: "manager_env \<Rightarrow> gs_monitor active_handler" where
  "listener_active_changed_cb e active ls =
     (case ls of (l, mon) \<Rightarrow>
        rbind (gs_manager_set_active e active (mon_manager mon)) (\<lambda>(res, m).
        let mon = mon\<lparr>mon_manager := m\<rparr> in
        if res \<and> gs_watcher_get_enabled (mon_watcher mon)
        then ret (res, l, mon\<lparr>mon_watcher := snd (gs_watcher_set_active (mon_watcher mon) (\<not> active))\<rparr>)
        else ret (res, l, mon)))"

definition listener_throttle_changed_cb :: "manager_env \<Rightarrow> gs_monitor throttle_handler" where
  "listener_throttle_changed_cb e throttled ls = on_manager (gs_manager_set_throttled e throttled) ls"

definition gs_monitor_lock_screen :: "'msg dbus_env \<Rightarrow> manager_env \<Rightarrow> daemon \<Rightarrow> daemon res" where
  "gs_monitor_lock_screen be e ls =
     (case ls of (l, mon) \<Rightarrow>
        let locked = gs_manager_get_lock_active (mon_manager mon);
            mon = mon\<lparr>mon_manager := gs_manager_set_lock_active True (mon_manager mon)\<rparr>;
            active = gs_manager_get_active (mon_manager mon) in
        if \<not> active then
          rbind (gs_listener_set_active be (listener_active_changed_cb e) True (l, mon)) (\<lambda>(res, l, mon).
          if \<not> res then ret (l, mon\<lparr>mon_manager := gs_manager_set_lock_active locked (mon_manager mon)\<rparr>)
          else ret (l, mon))
        else ret (l, mon))"

definition gs_monitor_simulate_user_activity :: "manager_env \<Rightarrow> daemon \<Rightarrow> daemon res" where
  "gs_monitor_simulate_user_activity e =
     on_manager (\<lambda>m. rbind (gs_manager_request_unlock e m) (\<lambda>(_, m). ret m))"

definition listener_lock_cb :: "'msg dbus_env \<Rightarrow> manager_env \<Rightarrow> daemon \<Rightarrow> daemon res" where
  "listener_lock_cb be e ls =
     (if \<not> p_lock_disabled (mon_prefs (snd ls)) then gs_monitor_lock_screen be e ls else ret ls)"

definition listener_quit_cb :: "'msg dbus_env \<Rightarrow> manager_env \<Rightarrow> daemon \<Rightarrow> daemon res" where
  "listener_quit_cb be e ls =
     rbind (gs_listener_set_active be (listener_active_changed_cb e) False ls) (\<lambda>(_, l, mon).
     ret (l, mon\<lparr>mon_quit := True\<rparr>))"

definition listener_cycle_cb :: "manager_env \<Rightarrow> daemon \<Rightarrow> daemon res" where
  "listener_cycle_cb e = on_manager (\<lambda>m. rbind (gs_manager_cycle e m) (\<lambda>(_, m). ret m))"

definition listener_show_message_cb :: "manager_env \<Rightarrow> string \<Rightarrow> string \<Rightarrow> string \<Rightarrow> daemon \<Rightarrow> daemon res" where
  "listener_show_message_cb e summary body icon =
     on_manager (gs_manager_show_message e (Some summary) (Some body) (Some icon))"

definition listener_simulate_user_activity_cb :: "manager_env \<Rightarrow> daemon \<Rightarrow> daemon res" where
  "listener_simulate_user_activity_cb = gs_monitor_simulate_user_activity"

definition listener_prepare_for_sleep_cb :: "manager_env \<Rightarrow> bool \<Rightarrow> daemon \<Rightarrow> daemon res" where
  "listener_prepare_for_sleep_cb e prepare ls =
     (if gs_manager_get_lock_active (mon_manager (snd ls))
      then on_manager (gs_manager_show_message e None None None) ls else ret ls)"

definition connect_listener_signals :: "'msg dbus_env \<Rightarrow> manager_env \<Rightarrow> gs_monitor listener_signals" where
  "connect_listener_signals be e =
     \<lparr>sig_lock = listener_lock_cb be e, sig_cycle = listener_cycle_cb e, sig_quit = listener_quit_cb be e,
      sig_simulate_user_activity = listener_simulate_user_activity_cb e,
      sig_active_changed = listener_active_changed_cb e, sig_throttle_changed = listener_throttle_changed_cb e,
      sig_show_message = listener_show_message_cb e, sig_prepare_for_sleep = listener_prepare_for_sleep_cb e\<rparr>"

section \<open>Handlers of the manager and the watcher\<close>

text \<open>The handler of ``activated'' does nothing.\<close>

definition manager_deactivated_cb :: "'msg dbus_env \<Rightarrow> manager_env \<Rightarrow> daemon \<Rightarrow> daemon res" where
  "manager_deactivated_cb be e ls =
     rbind (gs_listener_set_active be (listener_active_changed_cb e) False ls) (\<lambda>(_, ls). ret ls)"

definition put_watcher :: "gs_watcher \<times> daemon \<Rightarrow> daemon" where
  "put_watcher ws = (case ws of (w, l, mon) \<Rightarrow> (l, mon\<lparr>mon_watcher := w\<rparr>))"

definition get_watcher :: "daemon \<Rightarrow> gs_watcher \<times> daemon" where
  "get_watcher ls = (mon_watcher (snd ls), ls)"

definition watcher_idle_cb :: "'msg dbus_env \<Rightarrow> manager_env \<Rightarrow> daemon watcher_handler" where
  "watcher_idle_cb be e is_idle ws =
     rbind (gs_listener_set_session_idle be (listener_active_changed_cb e) is_idle (put_watcher ws)) (\<lambda>(res, ls).
     ret (res, get_watcher ls))"

definition release_grab_timeout :: "gs_monitor \<Rightarrow> gs_monitor" where
  "release_grab_timeout mon =
     (let m = mon_manager mon;
          m = (if \<not> gs_manager_get_active m then m\<lparr>m_grab := gs_grab_release (m_grab m) True\<rparr> else m) in
      mon\<lparr>mon_manager := m, mon_release_grab_id := None\<rparr>)"

definition watcher_idle_notice_cb :: "manager_env \<Rightarrow> daemon watcher_handler" where
  "watcher_idle_notice_cb e in_effect ws =
     (case put_watcher ws of (l, mon) \<Rightarrow>
        let activation_enabled = gs_listener_get_activation_enabled l;
            inhibited = gs_listener_is_inhibited l; m = mon_manager mon in
        if in_effect then
          if activation_enabled \<and> \<not> inhibited then
            (case gs_grab_grab_offscreen (me_seat e) (m_grab m) False False of (grabbed, g) \<Rightarrow>
               rbind (if grabbed then gs_fade_async (me_fade e) FADE_TIMEOUT None (m_fade m) else ret ([], m_fade m)) (\<lambda>(_, f).
               ret (True, get_watcher (l, mon\<lparr>mon_manager := m\<lparr>m_grab := g, m_fade := f\<rparr>\<rparr>))))
          else ret (False, get_watcher (l, mon))
        else
          rbind (if \<not> gs_manager_get_active m then
                   rbind (manager_reset_fade e m) (\<lambda>m.
                   let mon = (if mon_release_grab_id mon \<noteq> None then mon\<lparr>mon_release_grab_id := None\<rparr> else mon) in
                   ret (mon\<lparr>mon_manager := m, mon_release_grab_id := Some 1000\<rparr>))
                 else ret mon) (\<lambda>mon.
          ret (True, get_watcher (l, mon))))"

definition on_watcher_status_message_changed :: "daemon watcher_notify" where
  "on_watcher_status_message_changed ws =
     (case put_watcher ws of (l, mon) \<Rightarrow>
        ret (get_watcher (l, mon\<lparr>mon_manager :=
          gs_manager_set_status_message (w_status_message (mon_watcher mon)) (mon_manager mon)\<rparr>)))"

section \<open>Preferences\<close>

definition manager_from_prefs :: "manager_env \<Rightarrow> gs_prefs \<Rightarrow> gs_manager \<Rightarrow> gs_manager" where
  "manager_from_prefs e p m =
     (let lock_enabled = (p_lock_enabled p \<and> \<not> p_lock_disabled p);
          user_switch_enabled = (p_user_switch_enabled p \<and> \<not> p_user_switch_disabled p);
          m = gs_manager_set_lock_enabled lock_enabled m;
          m = gs_manager_set_lock_timeout e (p_lock_timeout p) m;
          m = gs_manager_set_logout_enabled (p_logout_enabled p) m;
          m = gs_manager_set_user_switch_enabled user_switch_enabled m;
          m = gs_manager_set_keyboard_enabled (p_keyboard_enabled p) m;
          m = gs_manager_set_logout_timeout (p_logout_timeout p) m;
          m = gs_manager_set_logout_command (p_logout_command p) m;
          m = gs_manager_set_keyboard_command (p_keyboard_command p) m;
          m = gs_manager_set_cycle_timeout e (p_cycle p) m;
          m = gs_manager_set_mode (p_mode p) m in
      gs_manager_set_themes (p_themes p) m)"

definition gs_monitor_update_from_prefs :: "manager_env \<Rightarrow> daemon \<Rightarrow> daemon" where
  "gs_monitor_update_from_prefs e ls =
     (case ls of (l, mon) \<Rightarrow>
        let p = mon_prefs mon;
            mon = mon\<lparr>mon_manager := manager_from_prefs e p (mon_manager mon)\<rparr>;
            l = gs_listener_set_activation_enabled (p_idle_activation_enabled p) l;
            mon = mon\<lparr>mon_watcher := snd (gs_watcher_set_enabled (mon_watcher mon) True)\<rparr>;
            activate_watch = (\<not> gs_manager_get_active (mon_manager mon) \<and> \<not> gs_watcher_get_active (mon_watcher mon));
            mon = (if activate_watch then mon\<lparr>mon_watcher := snd (gs_watcher_set_active (mon_watcher mon) True)\<rparr> else mon);
            text = (if p_status_message_enabled p then w_status_message (mon_watcher mon) else None) in
        (l, mon\<lparr>mon_manager := gs_manager_set_status_message text (mon_manager mon)\<rparr>))"

text \<open>A key of the settings changed: the preferences take it over and announce it.\<close>

definition prefs_key_changed :: "manager_env \<Rightarrow> gsettings \<Rightarrow> string \<Rightarrow> daemon \<Rightarrow> daemon" where
  "prefs_key_changed e settings key ls =
     (case ls of (l, mon) \<Rightarrow>
        gs_monitor_update_from_prefs e (l, mon\<lparr>mon_prefs := key_changed_cb settings key (mon_prefs mon)\<rparr>))"

section \<open>Life cycle\<close>

text \<open>
  What the surroundings report when the daemon starts: the buses, the presence service, the stored
  settings, the monitors, and the invisible window of the grab object.
\<close>

record start_env =
  st_have_systemd :: bool
  st_session_bus :: bool
  st_system_bus :: bool
  st_session_replies :: session_replies
  st_presence :: presence_bus
  st_settings :: pref_settings
  st_monitors :: "nat list"
  st_invisible :: gdk_window

definition gs_monitor_init :: "manager_env \<Rightarrow> start_env \<Rightarrow> daemon res" where
  "gs_monitor_init e st =
     (let prefs = gs_prefs_init (st_settings st);
          listener = gs_listener_init (st_have_systemd st) (st_session_bus st) (st_system_bus st) (st_session_replies st);
          fade = gs_fade_init (me_fade e);
          grab = gs_grab_init (st_invisible st) in
      rbind (gs_watcher_init (st_presence st)) (\<lambda>watcher.
      let manager = gs_manager_init (st_monitors st) fade grab in
      ret (gs_monitor_update_from_prefs e
        (listener, \<lparr>mon_watcher = watcher, mon_manager = manager, mon_prefs = prefs, mon_release_grab_id = None,
                    mon_quit = False\<rparr>))))"

definition gs_monitor_start :: "'msg dbus_env \<Rightarrow> bus_names \<Rightarrow> daemon \<Rightarrow> bool \<times> daemon" where
  "gs_monitor_start be b ls =
     (case ls of (l, mon) \<Rightarrow> case gs_listener_acquire be b l of (res, l) \<Rightarrow> (if \<not> res then False else True, l, mon))"

definition gs_monitor_finalize :: "manager_env \<Rightarrow> daemon \<Rightarrow> daemon res" where
  "gs_monitor_finalize e ls =
     (case ls of (l, mon) \<Rightarrow>
        let mon = mon\<lparr>mon_watcher := gs_watcher_finalize (mon_watcher mon)\<rparr> in
        on_manager (gs_manager_finalize e) (l, mon))"

end
