(* ===== verification/GS_Monitor_Inv.thy ===== *)
theory GS_Monitor_Inv
  imports GS_Monitor
begin

text \<open>
  The daemon in step: the invariants of manager and listener, a fade nobody waits for, idle detection exactly while the
  screensaver is inactive, and the flags of the listener those of the manager.  The handlers of the
  monitor meet the contracts of the listener and of the watcher.
\<close>

section \<open>Invariant\<close>

definition mon_ok :: "gs_monitor \<Rightarrow> bool" where
  "mon_ok mon =
     (manager_ok (mon_manager mon) \<and> f_callbacks (m_fade (mon_manager mon)) = [] \<and> w_enabled (mon_watcher mon)
      \<and> w_active (mon_watcher mon) = (\<not> m_active (mon_manager mon)))"

definition in_step :: "bool \<Rightarrow> bool \<Rightarrow> gs_monitor \<Rightarrow> bool" where
  "in_step active throttled mon =
     (mon_ok mon \<and> m_active (mon_manager mon) = active \<and> m_throttled (mon_manager mon) = throttled)"

definition daemon_ok :: "daemon \<Rightarrow> bool" where
  "daemon_ok ls = (listener_ok (fst ls) \<and> synced in_step ls)"

lemma daemon_ok_alt: "daemon_ok (l, mon) = (ls_ok mon_ok (l, mon) \<and> synced in_step (l, mon))"
  by (auto simp: daemon_ok_def ls_ok_def synced_def in_step_def)

typedef sane_env = "{e. env_ok e}"
  using sample_manager_env_ok by blast

lemma sane [simp]: "env_ok (Rep_sane_env e)"
  using Rep_sane_env by blast

lemma sane_cases: "env_ok e \<Longrightarrow> \<exists>s. e = Rep_sane_env s"
  by (metis Abs_sane_env_inverse mem_Collect_eq)

section \<open>The manager inside the daemon\<close>

definition steady :: "(gs_manager \<Rightarrow> gs_manager res) \<Rightarrow> bool" where
  "steady f = (\<forall>m. manager_ok m \<longrightarrow> rpost (\<lambda>m'. manager_ok m' \<and> m_steady m m') (f m))"

lemma steadyD: "steady f \<Longrightarrow> manager_ok m \<Longrightarrow> rpost (\<lambda>m'. manager_ok m' \<and> m_steady m m') (f m)"
  by (simp add: steady_def)

lemma keeps_steady: "keeps f \<Longrightarrow> steady f"
  unfolding steady_def manager_ok_def
  by (auto intro!: rpost_mono [OF keepsD] simp: m_frame_cover m_steady_frame)

lemma in_step_manager:
  "in_step a t mon \<Longrightarrow> manager_ok m' \<Longrightarrow> m_active m' = m_active (mon_manager mon) \<Longrightarrow>
   m_throttled m' = m_throttled (mon_manager mon) \<Longrightarrow> f_callbacks (m_fade m') = f_callbacks (m_fade (mon_manager mon)) \<Longrightarrow>
   in_step a t (mon\<lparr>mon_manager := m'\<rparr>)"
  by (simp add: in_step_def mon_ok_def)

lemma on_manager_step:
  assumes "steady f" "in_step a t mon"
  shows "rpost (\<lambda>(l', mon'). l' = l \<and> in_step a t mon' \<and> m_steady (mon_manager mon) (mon_manager mon')) (on_manager f (l, mon))"
proof -
  have "manager_ok (mon_manager mon)" using assms(2) by (simp add: in_step_def mon_ok_def)
  then show ?thesis
    unfolding on_manager_def case_prod_conv
    by (intro rpost_rbindI [OF steadyD [OF assms(1)]])
      (use in_step_manager [OF assms(2)] in \<open>auto simp: m_steady_def\<close>)
qed

lemma manager_active_post:
  assumes ok: "manager_ok m"
  shows "rpost (\<lambda>(r, m'). manager_ok m' \<and> m_throttled m' = m_throttled m \<and> m_active m' = (if r then b else m_active m)
           \<and> f_callbacks (m_fade m') = f_callbacks (m_fade m)
           \<and> (r \<longrightarrow> m_active m \<noteq> b) \<and> m_deactivated_idles m' = m_deactivated_idles m
           \<and> (b \<longrightarrow> m_lock_active m' = m_lock_active m \<and> (m_lock_active m \<longrightarrow> m_emit_idles m' = m_emit_idles m) \<and> (no_ok m \<longrightarrow> no_ok m'))) (gs_manager_set_active e b m)"
proof (cases "m_active m = b")
  case True
  then show ?thesis using ok by (cases b) (simp_all add: gs_manager_set_active_def gs_manager_activate_def gs_manager_deactivate_def)
next
  case False
  then show ?thesis
    using activate_post [OF ok, of e] deactivate_post [OF ok, of e]
    by (cases b) (auto simp: gs_manager_set_active_def at_rest_def elim!: rpost_mono split: if_split_asm)
qed

lemma active_changed_post:
  assumes ok: "mon_ok mon"
  shows "rpost (\<lambda>(r, l', mon'). l' = l \<and> mon_ok mon' \<and> m_throttled (mon_manager mon') = m_throttled (mon_manager mon)
           \<and> m_active (mon_manager mon') = (if r then b else m_active (mon_manager mon))
           \<and> m_deactivated_idles (mon_manager mon') = m_deactivated_idles (mon_manager mon)
           \<and> (b \<longrightarrow> m_lock_active (mon_manager mon') = m_lock_active (mon_manager mon)
             \<and> (m_lock_active (mon_manager mon) \<longrightarrow> m_emit_idles (mon_manager mon') = m_emit_idles (mon_manager mon)) \<and> (no_ok (mon_manager mon) \<longrightarrow> no_ok (mon_manager mon'))))
         (listener_active_changed_cb e b (l, mon))"
proof -
  have m: "manager_ok (mon_manager mon)" using ok by (simp add: mon_ok_def)
  have w: "w_enabled (mon_watcher mon)" "w_active (mon_watcher mon) = (\<not> m_active (mon_manager mon))"
    using ok by (simp_all add: mon_ok_def)
  have set: "w_active (snd (gs_watcher_set_active (mon_watcher mon) (\<not> b))) = (\<not> b)"
      "w_enabled (snd (gs_watcher_set_active (mon_watcher mon) (\<not> b)))"
    if "m_active (mon_manager mon) \<noteq> b"
    using w that by (simp_all add: gs_watcher_set_active_def gs_watcher_set_active_internal_def gs_watcher_reset_state_def)
  show ?thesis
    unfolding listener_active_changed_cb_def case_prod_conv
  proof (rule rpost_rbindI [OF manager_active_post [OF m]], clarify)
    fix r m'
    assume "manager_ok m'" "m_throttled m' = m_throttled (mon_manager mon)"
      "m_active m' = (if r then b else m_active (mon_manager mon))" "f_callbacks (m_fade m') = f_callbacks (m_fade (mon_manager mon))"
      "r \<longrightarrow> m_active (mon_manager mon) \<noteq> b"
      "m_deactivated_idles m' = m_deactivated_idles (mon_manager mon)" "b \<longrightarrow> m_lock_active m' = m_lock_active (mon_manager mon)
        \<and> (m_lock_active (mon_manager mon) \<longrightarrow> m_emit_idles m' = m_emit_idles (mon_manager mon)) \<and> (no_ok (mon_manager mon) \<longrightarrow> no_ok m')"
    then show "rpost (\<lambda>(r, l', mon'). l' = l \<and> mon_ok mon' \<and> m_throttled (mon_manager mon') = m_throttled (mon_manager mon)
           \<and> m_active (mon_manager mon') = (if r then b else m_active (mon_manager mon))
           \<and> m_deactivated_idles (mon_manager mon') = m_deactivated_idles (mon_manager mon)
           \<and> (b \<longrightarrow> m_lock_active (mon_manager mon') = m_lock_active (mon_manager mon)
             \<and> (m_lock_active (mon_manager mon) \<longrightarrow> m_emit_idles (mon_manager mon') = m_emit_idles (mon_manager mon)) \<and> (no_ok (mon_manager mon) \<longrightarrow> no_ok (mon_manager mon'))))
        (let mon = mon\<lparr>mon_manager := m'\<rparr> in
         if r \<and> gs_watcher_get_enabled (mon_watcher mon)
         then ret (r, l, mon\<lparr>mon_watcher := snd (gs_watcher_set_active (mon_watcher mon) (\<not> b))\<rparr>) else ret (r, l, mon))"
      using ok w set by (cases r) (simp_all add: mon_ok_def gs_watcher_get_enabled_def)
  qed
qed

lemma throttle_changed_post:
  assumes "env_ok e" "mon_ok mon"
  shows "rpost (\<lambda>(l', mon'). l' = l \<and> mon_ok mon' \<and> m_active (mon_manager mon') = m_active (mon_manager mon)
           \<and> m_throttled (mon_manager mon') = b) (listener_throttle_changed_cb e b (l, mon))"
proof -
  have m: "manager_ok (mon_manager mon)" using assms(2) by (simp add: mon_ok_def)
  show ?thesis
    unfolding listener_throttle_changed_cb_def on_manager_def case_prod_conv
    by (rule rpost_rbindI [OF set_throttled_post [OF assms(1) m]])
      (use assms(2) in \<open>auto simp: mon_ok_def m_steady_def\<close>)
qed

lemma show_message_keeps: "keeps (gs_manager_show_message e a b c)"
proof (rule keepsI)
  fix m assume ok: "core_ok m"
  show "rpost (\<lambda>m'. m_frame m m' \<and> live_ok m') (gs_manager_show_message e a b c m)"
    unfolding gs_manager_show_message_def
  proof (intro rpost_rbindI [OF find_window_mem] with_win_post)
    fix w0 w assume w: "w \<in> set (m_windows m)"
    let ?w = "gs_window_show_message a b c w" and ?m = "put_win (gs_window_show_message a b c w) m"
    have "win_cfg ?w = win_cfg w \<and> win_dialog_up ?w = win_dialog_up w \<and> win_ok ?w = win_ok w \<and> win_freed ?w = win_freed w"
      by (simp add: gs_window_show_message_def set_info_text_and_icon_def win_cfg_def win_ok_def Let_def)
    then have p: "m_frame m ?m \<and> core_ok ?m" using put_win_core [OF ok w, of ?w] core_wins [OF ok w] by simp
    have "rpost (\<lambda>m'. m_frame ?m m' \<and> core_ok m') (rbind (gs_manager_request_unlock e ?m) (\<lambda>(_, m). ret m))"
      using keepsD [OF request_unlock_keeps, of ?m e] p by simp
    then show "rpost (\<lambda>m'. m_frame m m' \<and> live_ok m') (rbind (gs_manager_request_unlock e ?m) (\<lambda>(_, m). ret m))"
      using p m_frame_trans core_live by (auto intro: rpost_mono simp del: rpost_simps(3))
  qed
qed

lemma cycle_steady: "env_ok e \<Longrightarrow> steady (\<lambda>m. rbind (gs_manager_cycle e m) (\<lambda>(_, m). ret m))"
  by (intro keeps_steady cycle_keeps)

lemma request_unlock_steady: "steady (\<lambda>m. rbind (gs_manager_request_unlock e m) (\<lambda>(_, m). ret m))"
  by (intro keeps_steady request_unlock_keeps)

lemma show_message_steady: "steady (gs_manager_show_message e a b c)"
  by (intro keeps_steady show_message_keeps)

lemma lock_flag_same [simp]:
  "m_active (gs_manager_set_lock_active b m) = m_active m" "m_throttled (gs_manager_set_lock_active b m) = m_throttled m"
  "m_lock_active (gs_manager_set_lock_active b m) = b" "m_emit_idles (gs_manager_set_lock_active b m) = m_emit_idles m" "m_deactivated_idles (gs_manager_set_lock_active b m) = m_deactivated_idles m"
  "m_fade (gs_manager_set_lock_active b m) = m_fade m"
  by (simp_all add: gs_manager_set_lock_active_def)

lemma mon_ok_lock: "mon_ok mon \<Longrightarrow> mon_ok (mon\<lparr>mon_manager := gs_manager_set_lock_active b (mon_manager mon)\<rparr>)"
  by (simp add: mon_ok_def set_lock_active_ok)

section \<open>The contracts of the listener\<close>

interpretation mon_core: listener_core be "listener_active_changed_cb e" "listener_throttle_changed_cb (Rep_sane_env e')" mon_ok
  for be :: "'msg dbus_env" and e e'
proof unfold_locales
  fix s l b assume "mon_ok s"
  then show "rpost (\<lambda>(r, l', s'). l' = l \<and> mon_ok s') (listener_active_changed_cb e b (l, s))"
    by (rule rpost_mono [OF active_changed_post]) auto
next
  fix s l b assume "mon_ok s"
  then show "rpost (\<lambda>(l', s'). l' = l \<and> mon_ok s') (listener_throttle_changed_cb (Rep_sane_env e') b (l, s))"
    by (rule rpost_mono [OF throttle_changed_post [OF sane]]) auto
qed

lemma set_active_ls:
  assumes "ls_ok mon_ok ls"
  shows "rpost (\<lambda>(r, ls'). ls_ok mon_ok ls') (gs_listener_set_active be (listener_active_changed_cb e) b ls)"
proof -
  obtain l mon where ls: "ls = (l, mon)" by (cases ls)
  have "listener_ok l" "mon_ok mon" using assms ls by (simp_all add: ls_ok_def)
  then show ?thesis
    unfolding ls using same_tables_ok(3)
    by (intro rpost_mono [OF mon_core.set_active_post]) (auto simp: ls_ok_def)
qed

lemma on_manager_ls: "steady f \<Longrightarrow> keeps_listener mon_ok (on_manager f)"
  unfolding keeps_listener_def
proof (intro allI impI)
  fix ls assume f: "steady f" and ok: "ls_ok mon_ok ls"
  obtain l mon where ls: "ls = (l, mon)" by (cases ls)
  have "in_step (m_active (mon_manager mon)) (m_throttled (mon_manager mon)) mon" using ok ls by (simp add: ls_ok_def in_step_def)
  from on_manager_step [OF f this, of l] show "rpost (ls_ok mon_ok) (on_manager f ls)"
    unfolding ls by (rule rpost_mono) (use ok ls in \<open>auto simp: ls_ok_def in_step_def\<close>)
qed

lemma ls_ok_lock: "ls_ok mon_ok (l, mon) \<Longrightarrow> ls_ok mon_ok (l, mon\<lparr>mon_manager := gs_manager_set_lock_active b (mon_manager mon)\<rparr>)"
  by (simp add: ls_ok_def mon_ok_lock)

lemma lock_screen_ls:
  assumes "ls_ok mon_ok ls"
  shows "rpost (ls_ok mon_ok) (gs_monitor_lock_screen be e ls)"
proof -
  obtain l mon where ls: "ls = (l, mon)" by (cases ls)
  let ?mon = "mon\<lparr>mon_manager := gs_manager_set_lock_active True (mon_manager mon)\<rparr>"
  have ok: "ls_ok mon_ok (l, ?mon)" using assms ls ls_ok_lock by simp
  have "rpost (ls_ok mon_ok) (rbind (gs_listener_set_active be (listener_active_changed_cb e) True (l, ?mon)) (\<lambda>(res, l, mon).
      if \<not> res then ret (l, mon\<lparr>mon_manager := gs_manager_set_lock_active b (mon_manager mon)\<rparr>) else ret (l, mon)))" for b
    by (rule rpost_rbindI [OF set_active_ls [OF ok]]) (auto simp: ls_ok_lock)
  then show ?thesis using ok ls by (simp add: gs_monitor_lock_screen_def Let_def)
qed

lemma quit_ls:
  assumes "ls_ok mon_ok ls"
  shows "rpost (ls_ok mon_ok) (listener_quit_cb be e ls)"
  unfolding listener_quit_cb_def
  by (rule rpost_rbindI [OF set_active_ls [OF assms]]) (auto simp: ls_ok_def mon_ok_def)

lemmas signal_simps =
  connect_listener_signals_def listener_cycle_cb_def listener_simulate_user_activity_cb_def
  gs_monitor_simulate_user_activity_def listener_show_message_cb_def

interpretation mon_client: listener_client be "connect_listener_signals be (Rep_sane_env e)" mon_ok
  for be :: "'msg dbus_env" and e
proof unfold_locales
  show "rpost (\<lambda>(r, l', s'). l' = l \<and> mon_ok s') (sig_active_changed (connect_listener_signals be (Rep_sane_env e)) b (l, s))"
    if "mon_ok s" for s l b
    using mon_core.ac_frame [OF that] by (simp add: connect_listener_signals_def)
  show "rpost (\<lambda>(l', s'). l' = l \<and> mon_ok s') (sig_throttle_changed (connect_listener_signals be (Rep_sane_env e)) b (l, s))"
    if "mon_ok s" for s l b
    using mon_core.tc_frame [OF that] by (simp add: connect_listener_signals_def)
  show "keeps_listener mon_ok (sig_lock (connect_listener_signals be (Rep_sane_env e)))"
    using lock_screen_ls by (auto simp: keeps_listener_def connect_listener_signals_def listener_lock_cb_def)
  show "keeps_listener mon_ok (sig_cycle (connect_listener_signals be (Rep_sane_env e)))"
    by (simp add: signal_simps on_manager_ls cycle_steady)
  show "keeps_listener mon_ok (sig_quit (connect_listener_signals be (Rep_sane_env e)))"
    using quit_ls by (auto simp: keeps_listener_def connect_listener_signals_def)
  show "keeps_listener mon_ok (sig_simulate_user_activity (connect_listener_signals be (Rep_sane_env e)))"
    by (simp add: signal_simps on_manager_ls request_unlock_steady)
  show "keeps_listener mon_ok (sig_show_message (connect_listener_signals be (Rep_sane_env e)) a b c)" for a b c
    by (simp add: signal_simps on_manager_ls show_message_steady)
  show "keeps_listener mon_ok (sig_prepare_for_sleep (connect_listener_signals be (Rep_sane_env e)) d)" for d
    using on_manager_ls [OF show_message_steady, of "Rep_sane_env e" None None None]
    by (auto simp: connect_listener_signals_def listener_prepare_for_sleep_cb_def keeps_listener_def)
qed

section \<open>Keeping in step\<close>

lemma window_setters_response [simp]:
  "win_dialog_response (gs_window_set_logout_enabled b w) = win_dialog_response w"
  "win_dialog_response (gs_window_set_user_switch_enabled b w) = win_dialog_response w"
  "win_dialog_response (gs_window_set_keyboard_enabled b w) = win_dialog_response w"
  "win_dialog_response (gs_window_set_logout_timeout t w) = win_dialog_response w"
  "win_dialog_response (gs_window_set_logout_command c w) = win_dialog_response w"
  "win_dialog_response (gs_window_set_keyboard_command c w) = win_dialog_response w"
  "win_dialog_response (gs_window_set_status_message c w) = win_dialog_response w"
  "win_dialog_response (gs_window_set_lock_enabled b w) = win_dialog_response w"
  by (simp_all add: gs_window_set_user_switch_enabled_def gs_window_set_logout_enabled_def
      gs_window_set_logout_timeout_def gs_window_set_logout_command_def gs_window_set_keyboard_enabled_def
      gs_window_set_keyboard_command_def gs_window_set_status_message_def gs_window_set_lock_enabled_def)

lemma no_ok_set_lock_active [simp]: "no_ok (gs_manager_set_lock_active b m) = no_ok m"
  by (simp add: gs_manager_set_lock_active_def no_ok_def)

lemma set_active_in_step:
  assumes "synced in_step ls"
  shows "rpost (\<lambda>(r, ls'). synced in_step ls' \<and> (m_active (mon_manager (snd ls')) = (if r then b else m_active (mon_manager (snd ls))))
           \<and> m_deactivated_idles (mon_manager (snd ls')) = m_deactivated_idles (mon_manager (snd ls))
           \<and> (b \<longrightarrow> m_lock_active (mon_manager (snd ls')) = m_lock_active (mon_manager (snd ls))
             \<and> (m_lock_active (mon_manager (snd ls)) \<longrightarrow> m_emit_idles (mon_manager (snd ls')) = m_emit_idles (mon_manager (snd ls))) \<and> (no_ok (mon_manager (snd ls)) \<longrightarrow> no_ok (mon_manager (snd ls')))))
         (gs_listener_set_active be (listener_active_changed_cb e) b ls)"
proof -
  obtain l mon where ls: "ls = (l, mon)" by (cases ls)
  have p: "mon_ok mon" "m_active (mon_manager mon) = l_active l" "m_throttled (mon_manager mon) = l_throttled l"
    using assms ls by (simp_all add: synced_def in_step_def)
  show ?thesis
  proof (cases "l_active l = b")
    case True
    then show ?thesis using assms ls by (simp add: gs_listener_set_active_def)
  next
    case False
    have "rpost (\<lambda>(r, ls'). synced in_step ls' \<and> (m_active (mon_manager (snd ls')) = (if r then b else m_active (mon_manager mon)))
           \<and> m_deactivated_idles (mon_manager (snd ls')) = m_deactivated_idles (mon_manager mon)
           \<and> (b \<longrightarrow> m_lock_active (mon_manager (snd ls')) = m_lock_active (mon_manager mon)
             \<and> (m_lock_active (mon_manager mon) \<longrightarrow> m_emit_idles (mon_manager (snd ls')) = m_emit_idles (mon_manager mon)) \<and> (no_ok (mon_manager mon) \<longrightarrow> no_ok (mon_manager (snd ls')))))
        (rbind (listener_active_changed_cb e b (l, mon)) (\<lambda>(res, l, s).
          if \<not> res then ret (False, if b then listener_set_session_idle_internal be False l else l, s)
          else ret (True, listener_set_active_internal be b l, s)))"
      by (rule rpost_rbindI [OF active_changed_post [OF p(1)]])
        (use p in \<open>auto simp: synced_def in_step_def active_internal_flags listener_set_session_idle_internal_def
          split: if_split_asm\<close>)
    then show ?thesis using False unfolding ls snd_conv by (simp add: gs_listener_set_active_def)
  qed
qed

lemma in_step_lock: "in_step a t mon \<Longrightarrow> in_step a t (mon\<lparr>mon_manager := gs_manager_set_lock_active b (mon_manager mon)\<rparr>)"
  by (simp add: in_step_def mon_ok_lock)

text \<open>
  A request to lock: the screen ends up active and locked, or, when the screensaver could not be
  started, inactive with the lock flag it had.
\<close>

lemma lock_screen_post:
  assumes "synced in_step ls"
  shows "rpost (\<lambda>ls'. synced in_step ls'
           \<and> (if m_active (mon_manager (snd ls')) then m_lock_active (mon_manager (snd ls'))
              else m_lock_active (mon_manager (snd ls')) = m_lock_active (mon_manager (snd ls)))
           \<and> (m_active (mon_manager (snd ls)) \<longrightarrow> m_active (mon_manager (snd ls')))
           \<and> m_deactivated_idles (mon_manager (snd ls')) = m_deactivated_idles (mon_manager (snd ls))
           \<and> m_emit_idles (mon_manager (snd ls')) = m_emit_idles (mon_manager (snd ls))
           \<and> (no_ok (mon_manager (snd ls)) \<longrightarrow> no_ok (mon_manager (snd ls'))))
         (gs_monitor_lock_screen be e ls)"
proof -
  obtain l mon where ls: "ls = (l, mon)" by (cases ls)
  let ?mon = "mon\<lparr>mon_manager := gs_manager_set_lock_active True (mon_manager mon)\<rparr>"
  have ok: "synced in_step (l, ?mon)" using assms ls in_step_lock by (simp add: synced_def)
  let ?Q = "\<lambda>ls'. synced in_step ls'
           \<and> (if m_active (mon_manager (snd ls')) then m_lock_active (mon_manager (snd ls'))
              else m_lock_active (mon_manager (snd ls')) = m_lock_active (mon_manager mon))
           \<and> (m_active (mon_manager mon) \<longrightarrow> m_active (mon_manager (snd ls')))
           \<and> m_deactivated_idles (mon_manager (snd ls')) = m_deactivated_idles (mon_manager mon)
           \<and> m_emit_idles (mon_manager (snd ls')) = m_emit_idles (mon_manager mon)
           \<and> (no_ok (mon_manager mon) \<longrightarrow> no_ok (mon_manager (snd ls')))"
  have "rpost ?Q (rbind (gs_listener_set_active be (listener_active_changed_cb e) True (l, ?mon)) (\<lambda>(res, l, mon').
      if \<not> res then ret (l, mon'\<lparr>mon_manager := gs_manager_set_lock_active (m_lock_active (mon_manager mon)) (mon_manager mon')\<rparr>)
      else ret (l, mon')))" if "\<not> m_active (mon_manager mon)"
    by (rule rpost_rbindI [OF set_active_in_step [OF ok]]) (use that in_step_lock in \<open>auto simp: synced_def split: if_split_asm\<close>)
  then show ?thesis
    using ok unfolding ls snd_conv by (cases "m_active (mon_manager mon)") (simp_all add: gs_monitor_lock_screen_def Let_def
        gs_manager_get_active_def gs_manager_get_lock_active_def del: rpost_simps(3) split del: if_split)
qed

lemma on_manager_sync: "steady f \<Longrightarrow> synced in_step ls \<Longrightarrow> rpost (synced in_step) (on_manager f ls)"
  by (cases ls) (auto simp: synced_def intro!: rpost_mono [OF on_manager_step])

interpretation mon_sync: listener_sync be "connect_listener_signals be (Rep_sane_env e)" in_step
  for be :: "'msg dbus_env" and e
proof unfold_locales
  show "rpost (\<lambda>(r, l', s'). l' = l \<and> in_step r (l_throttled l) s')
      (sig_active_changed (connect_listener_signals be (Rep_sane_env e)) True (l, s))"
    if "in_step (l_active l) (l_throttled l) s" "\<not> l_active l" for l s
    using that unfolding in_step_def connect_listener_signals_def
    by (simp, intro rpost_mono [OF active_changed_post]) (auto split: if_split_asm)
  show "rpost (\<lambda>(r, l', s'). l' = l \<and> in_step (\<not> r) (l_throttled l) s')
      (sig_active_changed (connect_listener_signals be (Rep_sane_env e)) False (l, s))"
    if "in_step (l_active l) (l_throttled l) s" "l_active l" for l s
    using that unfolding in_step_def connect_listener_signals_def
    by (simp, intro rpost_mono [OF active_changed_post]) (auto split: if_split_asm)
  show "rpost (\<lambda>(l', s'). l' = l \<and> in_step (l_active l) b s')
      (sig_throttle_changed (connect_listener_signals be (Rep_sane_env e)) b (l, s))"
    if "in_step (l_active l) t s" for l t s b
    using that unfolding in_step_def connect_listener_signals_def
    by (simp, intro rpost_mono [OF throttle_changed_post [OF sane]]) auto
  show "rpost (synced in_step) (sig_lock (connect_listener_signals be (Rep_sane_env e)) ls)" if "synced in_step ls" for ls
    using that rpost_mono [OF lock_screen_post [OF that]] by (auto simp: connect_listener_signals_def listener_lock_cb_def)
  show "rpost (synced in_step) (sig_cycle (connect_listener_signals be (Rep_sane_env e)) ls)" if "synced in_step ls" for ls
    using that by (simp add: signal_simps on_manager_sync cycle_steady)
  show "rpost (synced in_step) (sig_quit (connect_listener_signals be (Rep_sane_env e)) ls)" if "synced in_step ls" for ls
    unfolding connect_listener_signals_def listener_signals.simps listener_quit_cb_def
    by (rule rpost_rbindI [OF set_active_in_step [OF that]]) (auto simp: synced_def in_step_def mon_ok_def)
  show "rpost (synced in_step) (sig_simulate_user_activity (connect_listener_signals be (Rep_sane_env e)) ls)"
    if "synced in_step ls" for ls
    using that by (simp add: signal_simps on_manager_sync request_unlock_steady)
  show "rpost (synced in_step) (sig_show_message (connect_listener_signals be (Rep_sane_env e)) a b' c ls)"
    if "synced in_step ls" for ls a b' c
    using that by (simp add: signal_simps on_manager_sync show_message_steady)
  show "rpost (synced in_step) (sig_prepare_for_sleep (connect_listener_signals be (Rep_sane_env e)) d ls)"
    if "synced in_step ls" for ls d
    using that by (simp add: connect_listener_signals_def listener_prepare_for_sleep_cb_def on_manager_sync show_message_steady)
qed

text \<open>Every message keeps the daemon in order.\<close>

lemma message_daemon_ok:
  assumes "daemon_ok ls" "env_ok e"
  shows "rpost (\<lambda>(h, ls'). daemon_ok ls') (gs_listener_message_handler be (connect_listener_signals be e) m ls)"
    and "rpost (\<lambda>(h, ls'). daemon_ok ls') (listener_dbus_filter_function be (connect_listener_signals be e) m ls)"
    and "rpost (\<lambda>(h, ls'). daemon_ok ls') (listener_dbus_system_filter_function be (connect_listener_signals be e) m ls)"
proof -
  obtain s where e: "e = Rep_sane_env s" using sane_cases [OF assms(2)] by blast
  obtain l mon where ls: "ls = (l, mon)" by (cases ls)
  have a: "ls_ok mon_ok ls" and b: "synced in_step ls" using assms(1) ls by (simp_all add: daemon_ok_alt)
  have both: "rpost (\<lambda>(h, ls'). daemon_ok ls') x" if "rpost (kept mon_ok) x" "rpost (syncs in_step) x" for x :: "(handler_result \<times> daemon) res"
    using that by (auto simp: rpost_def daemon_ok_alt)
  show "rpost (\<lambda>(h, ls'). daemon_ok ls') (gs_listener_message_handler be (connect_listener_signals be e) m ls)"
    unfolding e by (intro both mon_client.message_handler_kept mon_sync.filters_sync a b)
  show "rpost (\<lambda>(h, ls'). daemon_ok ls') (listener_dbus_filter_function be (connect_listener_signals be e) m ls)"
    unfolding e by (intro both mon_client.filters_kept mon_sync.filters_sync a b)
  show "rpost (\<lambda>(h, ls'). daemon_ok ls') (listener_dbus_system_filter_function be (connect_listener_signals be e) m ls)"
    unfolding e by (intro both mon_client.filters_kept mon_sync.filters_sync a b)
qed

section \<open>The contract of the watcher\<close>

lemma put_get_watcher [simp]: "put_watcher (get_watcher ls) = ls"
  by (cases ls) (simp add: put_watcher_def get_watcher_def)

lemma daemon_ok_manager:
  assumes "daemon_ok (l, mon)" "manager_ok m" "m_active m = m_active (mon_manager mon)"
    "m_throttled m = m_throttled (mon_manager mon)" "f_callbacks (m_fade m) = []"
  shows "daemon_ok (l, mon\<lparr>mon_manager := m\<rparr>)"
  using assms by (auto simp: daemon_ok_def synced_def in_step_def mon_ok_def)

lemma daemon_okD:
  assumes "daemon_ok (l, mon)"
  shows "manager_ok (mon_manager mon)" "f_callbacks (m_fade (mon_manager mon)) = []"
    "l_active l = m_active (mon_manager mon)" "l_throttled l = m_throttled (mon_manager mon)"
  using assms by (simp_all add: daemon_ok_def synced_def in_step_def mon_ok_def)

lemma idle_cb_daemon:
  assumes "daemon_ok (put_watcher ws)" "env_ok e"
  shows "rpost (\<lambda>(r, ws'). daemon_ok (put_watcher ws')) (watcher_idle_cb be e b ws)"
proof -
  obtain s where e: "e = Rep_sane_env s" using sane_cases [OF assms(2)] by blast
  obtain l mon where ls: "put_watcher ws = (l, mon)" by (cases "put_watcher ws")
  have ok: "listener_ok l" "mon_ok mon" and st: "synced in_step (l, mon)"
    using assms(1) ls by (simp_all add: daemon_ok_alt ls_ok_def)
  have "rpost (\<lambda>(r, l', mon'). same_tables l l' \<and> mon_ok mon') (gs_listener_set_session_idle be (listener_active_changed_cb e) b (l, mon))"
    by (rule mon_core.set_session_idle_post [OF ok(2)])
  moreover have "rpost (syncs in_step) (gs_listener_set_session_idle be (listener_active_changed_cb e) b (l, mon))"
    using mon_sync.set_session_idle_sync [OF st, of be s b] by (simp add: e connect_listener_signals_def)
  ultimately have "rpost (\<lambda>(r, ls'). daemon_ok ls') (gs_listener_set_session_idle be (listener_active_changed_cb e) b (l, mon))"
    using ok(1) same_tables_ok(3) by (auto simp: rpost_def daemon_ok_def)
  then show ?thesis
    unfolding watcher_idle_cb_def ls by (rule rpost_rbindI) auto
qed

lemma fade_async_callbacks:
  "f_callbacks f = [] \<Longrightarrow> rpost (\<lambda>(cbs, f'). f_callbacks f' = []) (gs_fade_async e t None f)"
proof -
  assume f: "f_callbacks f = []"
  have start: "rpost (\<lambda>(r, f'). f_callbacks f' = f_callbacks f) (fade_setup e f)" for f
    by (auto simp: fade_setup_def gamma_fade_setup_def gamma_ramp_setup_def xrandr_fade_setup_def Let_def
        split: fade_methods.split option.split prod.split)
  have run: "rpost (\<lambda>(cbs, f'). f_callbacks f' = []) (gs_fade_start e t f)" if f: "f_callbacks f = []" for f
  proof -
    have "rpost (\<lambda>(r, f'). f_callbacks f' = []) (if f_type f \<noteq> FADE_TYPE_NONE then fade_setup e f else ret (True, f))"
      using start [of f] f by simp
    then show ?thesis
      unfolding gs_fade_start_def
      by (rule rpost_rbindI) (auto simp: gs_fade_stop_def gs_fade_set_timeout_def gs_fade_finish_def Let_def)
  qed
  show ?thesis using f by (simp add: gs_fade_async_def gs_fade_stop_def Let_def run)
qed

lemma manager_ok_fade: "manager_ok m \<Longrightarrow> grab_ok g \<Longrightarrow> manager_ok (m\<lparr>m_grab := g, m_fade := f\<rparr>)"
  using core_ok_grab [of m g] relabel_id [of "m\<lparr>m_grab := g\<rparr>" "m\<lparr>m_grab := g, m_fade := f\<rparr>"]
  by (simp add: manager_ok_def [of m] manager_ok_def [of "m\<lparr>m_grab := g\<rparr>"] cover_ok_def relabel_simps)

lemma manager_grab_ok: "manager_ok m \<Longrightarrow> grab_ok (m_grab m)"
  by (simp add: manager_ok_def core_ok_def live_ok_def)

lemma notice_cb_daemon:
  assumes "daemon_ok (put_watcher ws)"
  shows "rpost (\<lambda>(r, ws'). daemon_ok (put_watcher ws')) (watcher_idle_notice_cb e b ws)"
proof -
  obtain l mon where ls: "put_watcher ws = (l, mon)" by (cases "put_watcher ws")
  have d: "daemon_ok (l, mon)" using assms ls by simp
  let ?m = "mon_manager mon"
  obtain gr g where g: "gs_grab_grab_offscreen (me_seat e) (m_grab ?m) False False = (gr, g)" by (metis prod.exhaust)
  have gok: "grab_ok g"
    using grab_window_ok [OF manager_grab_ok [OF daemon_okD(1) [OF d]]] g by (metis gs_grab_grab_offscreen_def snd_conv)
  have fd: "rpost (\<lambda>(cbs, f'). f_callbacks f' = []) (if gr then gs_fade_async (me_fade e) FADE_TIMEOUT None (m_fade ?m) else ret ([], m_fade ?m))"
    using fade_async_callbacks daemon_okD(2) [OF d] by simp
  have on: "rpost (\<lambda>(r, ws'). daemon_ok (put_watcher ws'))
     (rbind (if gr then gs_fade_async (me_fade e) FADE_TIMEOUT None (m_fade ?m) else ret ([], m_fade ?m)) (\<lambda>(_, f).
       ret (True, get_watcher (l, mon\<lparr>mon_manager := ?m\<lparr>m_grab := g, m_fade := f\<rparr>\<rparr>))))"
    by (rule rpost_rbindI [OF fd])
      (auto intro!: daemon_ok_manager [OF d] manager_ok_fade daemon_okD(1) [OF d] gok)
  have off: "rpost (\<lambda>mon'. daemon_ok (l, mon')) (if \<not> gs_manager_get_active ?m then
       rbind (manager_reset_fade e ?m) (\<lambda>m.
         let mon = (if mon_release_grab_id mon \<noteq> None then mon\<lparr>mon_release_grab_id := None\<rparr> else mon) in
         ret (mon\<lparr>mon_manager := m, mon_release_grab_id := Some 1000\<rparr>)) else ret mon)"
  proof (rule rpost_if)
    show "rpost (\<lambda>mon'. daemon_ok (l, mon')) (rbind (manager_reset_fade e ?m) (\<lambda>m.
         let mon = (if mon_release_grab_id mon \<noteq> None then mon\<lparr>mon_release_grab_id := None\<rparr> else mon) in
         ret (mon\<lparr>mon_manager := m, mon_release_grab_id := Some 1000\<rparr>)))"
    proof (rule rpost_rbindI [OF reset_fade_post])
      fix m assume "\<exists>f. m = ?m\<lparr>m_fade := f\<rparr> \<and> f_callbacks f = f_callbacks (m_fade ?m)"
      then have "daemon_ok (l, mon\<lparr>mon_manager := m\<rparr>)"
        using manager_ok_fade [OF daemon_okD(1) [OF d] manager_grab_ok [OF daemon_okD(1) [OF d]]] daemon_okD(2) [OF d]
        by (auto intro!: daemon_ok_manager [OF d])
      then show "rpost (\<lambda>mon'. daemon_ok (l, mon'))
         (let mon = (if mon_release_grab_id mon \<noteq> None then mon\<lparr>mon_release_grab_id := None\<rparr> else mon) in
          ret (mon\<lparr>mon_manager := m, mon_release_grab_id := Some 1000\<rparr>))"
        by (simp add: daemon_ok_def synced_def in_step_def mon_ok_def)
    qed
  qed (use d in simp)
  have "rpost (\<lambda>(r, ws'). daemon_ok (put_watcher ws')) (rbind (if \<not> gs_manager_get_active ?m then
       rbind (manager_reset_fade e ?m) (\<lambda>m.
         let mon = (if mon_release_grab_id mon \<noteq> None then mon\<lparr>mon_release_grab_id := None\<rparr> else mon) in
         ret (mon\<lparr>mon_manager := m, mon_release_grab_id := Some 1000\<rparr>)) else ret mon) (\<lambda>mon. ret (True, get_watcher (l, mon))))"
    by (rule rpost_rbindI [OF off]) simp
  then show ?thesis
    using on d unfolding watcher_idle_notice_cb_def ls Let_def case_prod_conv g by (intro rpost_if) simp_all
qed

lemma status_cb_daemon:
  assumes "daemon_ok (put_watcher ws)"
  shows "rpost (\<lambda>ws'. daemon_ok (put_watcher ws')) (on_watcher_status_message_changed ws)"
proof -
  obtain l mon where ls: "put_watcher ws = (l, mon)" by (cases "put_watcher ws")
  have d: "daemon_ok (l, mon)" using assms ls by simp
  show ?thesis
    unfolding on_watcher_status_message_changed_def ls
    using daemon_ok_manager [OF d set_status_message_ok [OF daemon_okD(1) [OF d]]] daemon_okD(2) [OF d]
    by (simp add: gs_manager_set_status_message_def)
qed

lemma daemon_ok_watcher_fields:
  "daemon_ok (put_watcher (w\<lparr>w_idle := x\<rparr>, s)) = daemon_ok (put_watcher (w, s))"
  "daemon_ok (put_watcher (w\<lparr>w_idle_notice := x\<rparr>, s)) = daemon_ok (put_watcher (w, s))"
  "daemon_ok (put_watcher (w\<lparr>w_idle_id := i\<rparr>, s)) = daemon_ok (put_watcher (w, s))"
  "daemon_ok (put_watcher (w\<lparr>w_status_message := t\<rparr>, s)) = daemon_ok (put_watcher (w, s))"
  by (cases s; simp add: put_watcher_def daemon_ok_def synced_def in_step_def mon_ok_def)+

interpretation mon_watch: watcher_client "watcher_idle_cb be (Rep_sane_env e)" "watcher_idle_notice_cb (Rep_sane_env e)"
    on_watcher_status_message_changed "\<lambda>ws. daemon_ok (put_watcher ws)"
  for be :: "'msg dbus_env" and e
  by unfold_locales (simp_all add: idle_cb_daemon notice_cb_daemon status_cb_daemon daemon_ok_watcher_fields)

section \<open>Preferences\<close>

definition m_pulse where
  "m_pulse m = (m_active m, m_throttled m, m_fade m, m_deactivated_idles m, m_emit_idles m, no_ok m)"

lemma setters_pulse [simp]:
  "m_pulse (gs_manager_set_lock_enabled b m) = m_pulse m" "m_pulse (gs_manager_set_logout_enabled b m) = m_pulse m"
  "m_pulse (gs_manager_set_user_switch_enabled b m) = m_pulse m" "m_pulse (gs_manager_set_keyboard_enabled b m) = m_pulse m"
  "m_pulse (gs_manager_set_logout_timeout t m) = m_pulse m" "m_pulse (gs_manager_set_logout_command c m) = m_pulse m"
  "m_pulse (gs_manager_set_keyboard_command c m) = m_pulse m" "m_pulse (gs_manager_set_mode d m) = m_pulse m"
  "m_pulse (gs_manager_set_themes x m) = m_pulse m" "m_pulse (gs_manager_set_status_message c m) = m_pulse m"
  by (simp_all add: m_pulse_def no_ok_def gs_manager_set_lock_enabled_def gs_manager_set_logout_enabled_def
      gs_manager_set_user_switch_enabled_def gs_manager_set_keyboard_enabled_def gs_manager_set_logout_timeout_def
      gs_manager_set_logout_command_def gs_manager_set_keyboard_command_def gs_manager_set_mode_def gs_manager_set_themes_def
      gs_manager_set_status_message_def)

lemma timeouts_pulse [simp]:
  "m_pulse (gs_manager_set_lock_timeout e t m) = m_pulse m" "m_pulse (gs_manager_set_cycle_timeout e t m) = m_pulse m"
  by (simp_all add: m_pulse_def no_ok_def gs_manager_set_lock_timeout_def gs_manager_set_cycle_timeout_def activate_lock_timeout_def
      remove_lock_timer_def add_lock_timer_def remove_cycle_timer_def add_cycle_timer_def gs_manager_set_lock_active_def Let_def)

lemma setters_lock [simp]:
  "m_lock_active (gs_manager_set_lock_enabled b m) = m_lock_active m" "m_lock_active (gs_manager_set_logout_enabled b m) = m_lock_active m"
  "m_lock_active (gs_manager_set_user_switch_enabled b m) = m_lock_active m"
  "m_lock_active (gs_manager_set_keyboard_enabled b m) = m_lock_active m" "m_lock_active (gs_manager_set_logout_timeout t m) = m_lock_active m"
  "m_lock_active (gs_manager_set_logout_command c m) = m_lock_active m" "m_lock_active (gs_manager_set_keyboard_command c m) = m_lock_active m"
  "m_lock_active (gs_manager_set_mode d m) = m_lock_active m" "m_lock_active (gs_manager_set_themes x m) = m_lock_active m"
  "m_lock_active (gs_manager_set_status_message c m) = m_lock_active m" "m_lock_active (gs_manager_set_cycle_timeout e t m) = m_lock_active m"
  by (simp_all add: gs_manager_set_lock_enabled_def gs_manager_set_logout_enabled_def
      gs_manager_set_user_switch_enabled_def gs_manager_set_keyboard_enabled_def gs_manager_set_logout_timeout_def
      gs_manager_set_logout_command_def gs_manager_set_keyboard_command_def gs_manager_set_mode_def gs_manager_set_themes_def
      gs_manager_set_status_message_def gs_manager_set_cycle_timeout_def remove_cycle_timer_def add_cycle_timer_def Let_def)

lemma lock_timeout_lock: "m_lock_active m \<Longrightarrow> m_lock_active (gs_manager_set_lock_timeout e t m)"
  by (simp add: gs_manager_set_lock_timeout_def Let_def)

lemma prefs_pulse [simp]: "m_pulse (manager_from_prefs e p m) = m_pulse m"
  by (simp add: manager_from_prefs_def Let_def)

lemma prefs_lock: "m_lock_active m \<Longrightarrow> m_lock_active (manager_from_prefs e p m)"
  by (simp add: manager_from_prefs_def Let_def lock_timeout_lock)

lemma pulseD:
  assumes "m_pulse m' = m_pulse m"
  shows "m_active m' = m_active m" "m_throttled m' = m_throttled m" "m_fade m' = m_fade m"
    "m_deactivated_idles m' = m_deactivated_idles m" "m_emit_idles m' = m_emit_idles m"
    "no_ok m' = no_ok m"
  using assms by (simp_all add: m_pulse_def)

lemma manager_from_prefs_ok: "manager_ok m \<Longrightarrow> manager_ok (manager_from_prefs e p m)"
  unfolding manager_from_prefs_def Let_def by (intro inv_intros)

lemma update_from_prefs_ok:
  assumes "listener_ok l" "manager_ok (mon_manager mon)" "f_callbacks (m_fade (mon_manager mon)) = []"
    "w_active (mon_watcher mon) \<longrightarrow> \<not> m_active (mon_manager mon)"
    "l_active l = m_active (mon_manager mon)" "l_throttled l = m_throttled (mon_manager mon)"
  shows "daemon_ok (gs_monitor_update_from_prefs e (l, mon))"
proof -
  let ?m = "manager_from_prefs e (mon_prefs mon) (mon_manager mon)"
  have "manager_ok (gs_manager_set_status_message t ?m)" for t
    using assms(2) by (intro set_status_message_ok manager_from_prefs_ok)
  moreover have "listener_ok (gs_listener_set_activation_enabled b l)" for b
    using assms(1) by (simp add: gs_listener_set_activation_enabled_def listener_ok_def throttle_ok_def
        listener_ref_entry_is_present_def hash_defs)
  moreover have "m_pulse (gs_manager_set_status_message t ?m) = m_pulse (mon_manager mon)" for t by simp
  note same = pulseD [OF this] pulseD [OF prefs_pulse [of e "mon_prefs mon" "mon_manager mon"]]
  ultimately show ?thesis
    using assms(3-)
    by (auto simp: gs_monitor_update_from_prefs_def Let_def daemon_ok_def synced_def in_step_def mon_ok_def same
        gs_listener_set_activation_enabled_def watcher_defs gs_manager_get_active_def)
qed

lemma prefs_key_changed_ok:
  assumes "daemon_ok (l, mon)"
  shows "daemon_ok (prefs_key_changed e settings key (l, mon))"
  unfolding prefs_key_changed_def case_prod_conv
  by (rule update_from_prefs_ok) (use assms in \<open>auto simp: daemon_ok_def synced_def in_step_def mon_ok_def\<close>)

end
