(* ===== verification/GS_Daemon.thy ===== *)
theory GS_Daemon
  imports GS_Monitor_Inv
begin

text \<open>
  The daemon as a state machine.  Its main loop dispatches one source at a time: a message on a bus,
  a timer, an idle source, an event of a window, output of a child process, a change of the settings
  or of the monitors.  Each becomes an event, with the guard that its source is installed, and runs
  the handler of the code.  The surroundings may answer differently at every step.

  The animation of a failed authentication runs the main loop itself; it is split into its begin and
  its end, with any events in between.
\<close>

section \<open>Events\<close>

datatype window_input =
    Key_Press key_event
  | Motion rat rat
  | Button_Press
  | Scroll
  | Visibility visibility
  | Keyboard_Output watch_condition
  | Lock_Plug_Removed
  | Keyboard_Plug_Removed
  | Lock_Socket_Shown
  | Info_Bar_Timeout
  | Popup_Idle
  | Shake_Begin
  | Shake_End

fun window_input_op :: "win_env \<Rightarrow> window_input \<Rightarrow> gs_window \<Rightarrow> (gs_window \<times> win_event list) res" where
  "window_input_op e (Key_Press k) = (\<lambda>w. ret (w, key_press_activity k w))"
| "window_input_op e (Motion x y) = (\<lambda>w. ret (gs_window_real_motion_notify_event e x y w))"
| "window_input_op e Button_Press = (\<lambda>w. ret (gs_window_real_button_press_event w))"
| "window_input_op e Scroll = (\<lambda>w. ret (gs_window_real_scroll_event w))"
| "window_input_op e (Visibility v) = (\<lambda>w. ret (gs_window_real_visibility_notify_event v w))"
| "window_input_op e (Keyboard_Output c) = (\<lambda>w. rbind (keyboard_command_watch e c w) (\<lambda>(_, w). ret (w, [])))"
| "window_input_op e Lock_Plug_Removed = (\<lambda>w. ret (lock_plug_removed w, []))"
| "window_input_op e Keyboard_Plug_Removed = (\<lambda>w. ret (keyboard_plug_removed w, []))"
| "window_input_op e Lock_Socket_Shown = (\<lambda>w. ret (lock_socket_show w, []))"
| "window_input_op e Info_Bar_Timeout = (\<lambda>w. ret (info_bar_timeout w, []))"
| "window_input_op e Popup_Idle = (\<lambda>w.
     if win_popup_dialog_idle_id w then ret (popup_dialog_idle e w, []) else ret (w, []))"
| "window_input_op e Shake_Begin = (\<lambda>w. ret (shake_begin w, []))"
| "window_input_op e Shake_End = (\<lambda>w. ret (shake_end w, []))"

text \<open>A key is queued when the activity has been handled; the other inputs end with their signals.\<close>

fun window_input_end :: "manager_env \<Rightarrow> nat \<Rightarrow> window_input \<Rightarrow> gs_manager \<Rightarrow> gs_manager res" where
  "window_input_end e i (Key_Press k) = on_window e i (\<lambda>w. ret (gs_window_real_key_press_event k w, []))"
| "window_input_end e i x = ret"

datatype manager_event =
    Lock_Timer
  | Cycle_Timer
  | Unfade_Idle
  | Fade_Timer
  | Monitor_Added nat
  | Monitor_Removed nat
  | Window_Input nat window_input
  | Window_Mapped nat
  | Grab_Broken bool
  | Dialog_Output nat watch_condition
  | Job_Output nat io_condition
  | Emit_Deactivated nat

text \<open>The output of a program reaches its job through the watch.\<close>

definition job_output :: "manager_env \<Rightarrow> nat \<Rightarrow> io_condition \<Rightarrow> gs_manager \<Rightarrow> gs_manager res" where
  "job_output e i c m =
     (case lookup_job_for_window m i of
        None \<Rightarrow> ret m
      | Some job \<Rightarrow>
          if j_watch_id job then rbind (command_watch (me_proc e) c job) (\<lambda>(_, job). ret (set_job i job m)) else ret m)"

definition fade_tick :: "manager_env \<Rightarrow> gs_manager \<Rightarrow> gs_manager res" where
  "fade_tick e m =
     rbind (fade_out_timer (me_fade e) (m_fade m)) (\<lambda>(_, cbs, f).
     rfold (\<lambda>_. fade_done_cb e) cbs (m\<lparr>m_fade := f\<rparr>))"

fun manager_ready :: "manager_event \<Rightarrow> gs_manager \<Rightarrow> bool" where
  "manager_ready Lock_Timer m = (m_lock_timeout_id m \<noteq> None)"
| "manager_ready Cycle_Timer m = (m_cycle_timeout_id m \<noteq> None)"
| "manager_ready Unfade_Idle m = m_unfade_idle_id m"
| "manager_ready Fade_Timer m = (f_timer_id (m_fade m) \<noteq> None)"
| "manager_ready (Window_Input i x) m = (i \<in> set (window_ids m))"
| "manager_ready (Window_Mapped i) m = (i \<in> set (window_ids m))"
| "manager_ready (Dialog_Output i c) m = (\<exists>w \<in> set (m_windows m). win_id w = i \<and> win_lock_watch_id w)"
| "manager_ready (Emit_Deactivated i) m = (i \<in> set (m_emit_idles m))"
| "manager_ready ev m = True"

fun manager_react :: "manager_env \<Rightarrow> manager_event \<Rightarrow> gs_manager \<Rightarrow> gs_manager res" where
  "manager_react e Lock_Timer m = ret (activate_lock_timeout m)"
| "manager_react e Cycle_Timer m = cycle_timeout e m"
| "manager_react e Unfade_Idle m = unfade_idle e m"
| "manager_react e Fade_Timer m = fade_tick e m"
| "manager_react e (Monitor_Added n) m = display_monitor_added e n m"
| "manager_react e (Monitor_Removed n) m = display_monitor_removed e n m"
| "manager_react e (Window_Input i x) m = rbind (on_window e i (window_input_op (me_win e) x) m) (window_input_end e i x)"
| "manager_react e (Window_Mapped i) m = window_map_event_cb e i m"
| "manager_react e (Grab_Broken other_grabbed) m = ret (window_grab_broken_cb other_grabbed m)"
| "manager_react e (Dialog_Output i c) m = dialog_output e i c m"
| "manager_react e (Job_Output i c) m = job_output e i c m"
| "manager_react e (Emit_Deactivated i) m =
     emit_deactivated_idle i (m\<lparr>m_emit_idles := remove1 i (m_emit_idles m)\<rparr>)"

text \<open>A line that starts the animation is the event \<open>Shake_Begin\<close>.\<close>

fun shakes :: "manager_event \<Rightarrow> bool" where
  "shakes (Dialog_Output i (Watch_In (Line line))) = is_shake_line line"
| "shakes ev = False"

datatype 'msg daemon_event =
    Path_Message 'msg
  | Session_Message 'msg
  | System_Message 'msg
  | Reconnect bool bool
  | Presence_Status nat
  | Presence_Text "string option"
  | Idle_Timeout
  | Release_Grab
  | Settings_Changed gsettings string
  | Deactivated_Idle
  | Manager_Event manager_event

definition on_watcher :: "(gs_watcher \<times> daemon \<Rightarrow> (gs_watcher \<times> daemon) res) \<Rightarrow> daemon \<Rightarrow> daemon res" where
  "on_watcher f ls = rbind (f (get_watcher ls)) (\<lambda>ws. ret (put_watcher ws))"

fun daemon_ready :: "'msg daemon_event \<Rightarrow> daemon \<Rightarrow> bool" where
  "daemon_ready (Reconnect a b) ls = (0 < l_reinit (fst ls))"
| "daemon_ready Idle_Timeout ls = (w_idle_id (mon_watcher (snd ls)) \<noteq> None)"
| "daemon_ready Release_Grab ls = (mon_release_grab_id (snd ls) \<noteq> None)"
| "daemon_ready Deactivated_Idle ls = (0 < m_deactivated_idles (mon_manager (snd ls)))"
| "daemon_ready (Manager_Event ev) ls = (manager_ready ev (mon_manager (snd ls)) \<and> \<not> shakes ev)"
| "daemon_ready ev ls = True"

definition take_idle :: "gs_manager \<Rightarrow> gs_manager" where
  "take_idle m = m\<lparr>m_deactivated_idles := m_deactivated_idles m - 1\<rparr>"

fun daemon_react :: "'msg dbus_env \<Rightarrow> manager_env \<Rightarrow> 'msg daemon_event \<Rightarrow> daemon \<Rightarrow> daemon res" where
  "daemon_react be e (Path_Message x) ls =
     rbind (gs_listener_message_handler be (connect_listener_signals be e) x ls) (\<lambda>(_, ls). ret ls)"
| "daemon_react be e (Session_Message x) ls =
     rbind (listener_dbus_filter_function be (connect_listener_signals be e) x ls) (\<lambda>(_, ls). ret ls)"
| "daemon_react be e (System_Message x) ls =
     rbind (listener_dbus_system_filter_function be (connect_listener_signals be e) x ls) (\<lambda>(_, ls). ret ls)"
| "daemon_react be e (Reconnect session system) ls =
     (case ls of (l, mon) \<Rightarrow> ret (snd (reinit_dbus session system l), mon))"
| "daemon_react be e (Presence_Status status) ls =
     on_watcher (on_presence_status_changed (watcher_idle_cb be e) (watcher_idle_notice_cb e) status) ls"
| "daemon_react be e (Presence_Text text) ls =
     on_watcher (on_presence_status_text_changed on_watcher_status_message_changed text) ls"
| "daemon_react be e Idle_Timeout ls =
     on_watcher (\<lambda>ws. rbind (on_idle_timeout (watcher_idle_cb be e) (watcher_idle_notice_cb e) ws) (\<lambda>(_, ws). ret ws)) ls"
| "daemon_react be e Release_Grab ls = (case ls of (l, mon) \<Rightarrow> ret (l, release_grab_timeout mon))"
| "daemon_react be e (Settings_Changed settings key) ls = ret (prefs_key_changed e settings key ls)"
| "daemon_react be e Deactivated_Idle ls =
     (case ls of (l, mon) \<Rightarrow>
        manager_deactivated_cb be e (l, mon\<lparr>mon_manager := take_idle (mon_manager mon)\<rparr>))"
| "daemon_react be e (Manager_Event ev) ls = on_manager (manager_react e ev) ls"

section \<open>Steps and reachable states\<close>

inductive daemon_step :: "'msg dbus_env \<Rightarrow> manager_env \<Rightarrow> 'msg daemon_event \<Rightarrow> daemon \<Rightarrow> daemon \<Rightarrow> bool" where
  dispatch: "daemon_ready ev ls \<Longrightarrow> daemon_react be e ev ls = Inr ls' \<Longrightarrow> daemon_step be e ev ls ls'"

inductive_simps daemon_step_simps: "daemon_step be e ev ls ls'"

inductive_cases manager_stepE: "daemon_step be e (Manager_Event ev) ls ls'"

text \<open>
  The states a started daemon can get into, where the buses behave like one of a given set at every
  step and the rest of the surroundings may change freely.
\<close>

inductive reachable :: "'msg dbus_env set \<Rightarrow> daemon \<Rightarrow> bool" for buses where
  start: "env_ok e \<Longrightarrow> gs_monitor_init e st = Inr ls \<Longrightarrow> be \<in> buses \<Longrightarrow> gs_monitor_start be b ls = (True, ls') \<Longrightarrow>
     reachable buses ls'"
| step: "reachable buses ls \<Longrightarrow> env_ok e \<Longrightarrow> be \<in> buses \<Longrightarrow> daemon_step be e ev ls ls' \<Longrightarrow> reachable buses ls'"

section \<open>The manager\<close>

lemma window_input_ok: "win_spawn_ok e \<Longrightarrow> win_op_ok (window_input_op e x)"
  by (cases x) (simp_all add: key_press_op motion_op button_op visibility_op keyboard_watch_op socket_ops popup_idle_op
      shake_ops cong: if_cong)

lemma window_input_keeps:
  assumes "env_ok e"
  shows "keeps (\<lambda>m. rbind (on_window e i (window_input_op (me_win e) x) m) (window_input_end e i x))"
proof (rule keeps_rbind)
  show "keeps (on_window e i (window_input_op (me_win e) x))"
    using assms by (intro win_op_keeps window_input_ok) (simp_all add: env_ok_def)
  show "keeps (window_input_end e i x)"
    by (cases x) (simp_all add: win_op_keeps [OF assms key_press_op(2)] keeps_ret)
qed

lemma job_died_rests:
  "job_ok j \<Longrightarrow> rpost (\<lambda>(r, j'). job_ok j' \<and> (j_status j \<noteq> GS_JOB_RUNNING \<longrightarrow> j_status j' \<noteq> GS_JOB_RUNNING)) (command_watch pe c j)"
  by (auto simp: command_watch_def gs_job_died_def wait_on_child_def job_ok_def)

lemma job_output_keeps: "keeps (job_output e i c)"
  unfolding keeps_def
proof (intro allI impI)
  fix m assume ok: "core_ok m"
  show "rpost (\<lambda>m'. m_frame m m' \<and> core_ok m') (job_output e i c m)"
  proof (cases "lookup_job_for_window m i")
    case (Some j)
    then have j: "job_rests m j" using lookup_job_rests [of m i j] ok by (simp add: core_ok_def live_ok_def)
    have "rpost (\<lambda>(r, j'). job_rests m j') (command_watch (me_proc e) c j)"
      using j by (intro rpost_mono [OF job_died_rests]) (auto simp: job_rests_def)
    then have "rpost (\<lambda>m'. m_frame m m' \<and> core_ok m') (rbind (command_watch (me_proc e) c j) (\<lambda>(_, job). ret (set_job i job m)))"
      by (rule rpost_rbindI) (use set_job_keeps [OF ok] in auto)
    then show ?thesis using Some ok by (simp add: job_output_def)
  qed (simp add: job_output_def ok)
qed

lemma fade_tick_quiet:
  assumes "f_callbacks f = []"
  shows "rpost (\<lambda>(r, cbs, f'). cbs = [] \<and> f_callbacks f' = []) (fade_out_timer e f)"
proof -
  have "rpost (\<lambda>(r, f'). f_callbacks f' = []) (gs_fade_set_alpha e a (f\<lparr>f_current_alpha := a\<rparr>))" for a
    using set_alpha_callbacks [of "f\<lparr>f_current_alpha := a\<rparr>" e a] assms by simp
  then have "rpost (\<lambda>(r, f'). f_callbacks f' = []) (gs_fade_out_iter e f)"
    using assms by (simp add: gs_fade_out_iter_def Let_def)
  then show ?thesis
    unfolding fade_out_timer_def
    by (rule rpost_rbindI) (auto simp: gs_fade_finish_def gs_fade_stop_def Let_def)
qed

lemma manager_ok_fade_only: "manager_ok m \<Longrightarrow> manager_ok (m\<lparr>m_fade := f\<rparr>)"
  using manager_ok_fade [of m "m_grab m" f] manager_grab_ok [of m] by simp

lemma fade_tick_post:
  assumes "manager_ok m" "f_callbacks (m_fade m) = []"
  shows "rpost (\<lambda>m'. manager_ok m' \<and> m_steady m m') (fade_tick e m)"
  unfolding fade_tick_def
  by (rule rpost_rbindI [OF fade_tick_quiet [OF assms(2)]])
    (use assms manager_ok_fade_only in \<open>auto simp: m_steady_def\<close>)

text \<open>
  Most events leave the flags of the manager and, while it is locked, the idle sources on the way to
  the end of the screensaver alone.
\<close>

fun quiet_event :: "manager_event \<Rightarrow> bool" where
  "quiet_event Lock_Timer = False"
| "quiet_event (Dialog_Output i c) = False"
| "quiet_event (Emit_Deactivated i) = False"
| "quiet_event ev = True"

lemma quiet_post:
  assumes e: "env_ok e" and ok: "manager_ok m" "f_callbacks (m_fade m) = []" and q: "quiet_event ev"
  shows "rpost (\<lambda>m'. manager_ok m' \<and> m_steady m m') (manager_react e ev m)"
proof -
  have k: "rpost (\<lambda>m'. manager_ok m' \<and> m_steady m m') (f m)" if "keeps f" for f
    using steadyD [OF keeps_steady [OF that] ok(1)] .
  have g: "m_steady m (window_grab_broken_cb b m)" for b by (simp add: m_steady_def window_grab_broken_cb_def)
  have w: "rpost (\<lambda>m'. manager_ok m' \<and> m_steady m m') (manager_react e (Window_Input i x) m)" for i x
    using k [OF window_input_keeps [OF e]] by (simp only: manager_react.simps)
  show ?thesis
    using q w
    by (cases ev) (simp_all add: k cycle_timeout_keeps e unfade_idle_ok ok fade_tick_post monitor_added_post
        monitor_removed_post map_event_keeps job_output_keeps grab_broken_ok g)
qed

text \<open>The dialog says that the user may get in.\<close>

fun answers_ok :: "manager_event \<Rightarrow> gs_manager \<Rightarrow> bool" where
  "answers_ok (Dialog_Output i c) m =
     says_ok c"
| "answers_ok ev m = False"

definition nothing_pending :: "gs_manager \<Rightarrow> bool" where
  "nothing_pending m = (m_emit_idles m = [] \<and> m_deactivated_idles m = 0 \<and> no_ok m)"

definition m_onward :: "gs_manager \<Rightarrow> gs_manager \<Rightarrow> bool" where
  "m_onward m m' =
     (manager_ok m' \<and> m_active m' = m_active m \<and> m_throttled m' = m_throttled m
      \<and> f_callbacks (m_fade m') = f_callbacks (m_fade m) \<and> (m_lock_active m \<longrightarrow> m_lock_active m'))"

lemma steady_onward: "manager_ok m' \<and> m_steady m m' \<Longrightarrow> m_onward m m' \<and> (m_lock_active m \<and> nothing_pending m \<longrightarrow> nothing_pending m')"
  by (simp add: m_onward_def m_steady_def nothing_pending_def)

lemma lock_timer_post:
  assumes "manager_ok m"
  shows "m_onward m (activate_lock_timeout m) \<and> (nothing_pending m \<longrightarrow> nothing_pending (activate_lock_timeout m))"
  using activate_lock_timeout_ok [OF assms]
  by (auto simp: m_onward_def nothing_pending_def activate_lock_timeout_def gs_manager_set_lock_active_def [of _ m] no_ok_def)

lemma emit_post:
  assumes "manager_ok m"
  shows "rpost (\<lambda>m'. m_onward m m') (emit_deactivated_idle i (m\<lparr>m_emit_idles := x\<rparr>))"
proof -
  have "manager_ok (m\<lparr>m_emit_idles := x\<rparr>)"
    by (rule relabel_id [OF assms]) (simp_all add: relabel_simps)
  then have "manager_ok (window_deactivated_cb (m\<lparr>m_emit_idles := x\<rparr>))" by (rule deactivated_cb_ok)
  then show ?thesis
    unfolding emit_deactivated_idle_def
    by (intro with_win_post) (auto simp: m_onward_def window_deactivated_cb_def)
qed

lemma dialog_post:
  assumes e: "env_ok e" and ok: "manager_ok m" and ns: "\<not> shakes (Dialog_Output i c)"
  shows "rpost (\<lambda>m'. m_onward m m'
           \<and> (\<not> answers_ok (Dialog_Output i c) m \<and> m_lock_active m \<and> nothing_pending m \<longrightarrow> nothing_pending m')) (dialog_output e i c m)"
proof -
  have core: "core_ok m" "cover_ok m" using ok by (simp_all add: manager_ok_def)
  have "\<And>line. c = Watch_In (Line line) \<Longrightarrow> \<not> is_shake_line line" using ns by auto
  from dialog_output_post [OF e core(1) this] show ?thesis
  proof (rule rpost_mono)
    fix m' assume m': "(\<exists>r. m_frame (set_response i r m) (m'\<lparr>m_emit_idles := m_emit_idles m\<rparr>)) \<and> core_ok m'
      \<and> (\<not> says_ok c \<and> no_ok m \<longrightarrow> m_frame m m')"
    then obtain r where r: "m_frame (set_response i r m) (m'\<lparr>m_emit_idles := m_emit_idles m\<rparr>)" by blast
    then have "cover_ok (m'\<lparr>m_emit_idles := m_emit_idles m\<rparr>)" using m_frame_cover core(2) set_response_cover by blast
    then have "manager_ok m'" using m' by (simp add: manager_ok_def cover_ok_def)
    moreover have "m_fix (m'\<lparr>m_emit_idles := m_emit_idles m\<rparr>) = m_fix m" using r by (simp add: m_frame_def)
    ultimately have "m_onward m m'" by (simp add: m_onward_def m_fix_def)
    moreover have "m_steady m m'" if "\<not> says_ok c" "no_ok m" using m' that m_steady_frame by blast
    ultimately show "m_onward m m' \<and> (\<not> answers_ok (Dialog_Output i c) m \<and> m_lock_active m \<and> nothing_pending m \<longrightarrow> nothing_pending m')"
      by (auto simp: nothing_pending_def m_steady_def)
  qed
qed

lemma manager_react_post:
  assumes e: "env_ok e" and ok: "manager_ok m" "f_callbacks (m_fade m) = []" and ns: "\<not> shakes ev" and r: "manager_ready ev m"
  shows "rpost (\<lambda>m'. m_onward m m' \<and> (\<not> answers_ok ev m \<and> m_lock_active m \<and> nothing_pending m \<longrightarrow> nothing_pending m'))
           (manager_react e ev m)"
proof (cases "quiet_event ev")
  case True
  show ?thesis by (rule rpost_mono [OF quiet_post [OF e ok True]]) (use steady_onward in blast)
next
  case False
  have emit: "rpost (\<lambda>m'. m_onward m m' \<and> (m_lock_active m \<and> nothing_pending m \<longrightarrow> nothing_pending m'))
      (emit_deactivated_idle i (m\<lparr>m_emit_idles := x\<rparr>))" if "i \<in> set (m_emit_idles m)" for i x
    by (rule rpost_mono [OF emit_post [OF ok(1)]]) (use that in \<open>auto simp: nothing_pending_def\<close>)
  show ?thesis
    using False lock_timer_post [OF ok(1)] dialog_post [OF e ok(1)] emit ns r by (cases ev) simp_all
qed

section \<open>The invariant of the daemon\<close>

lemma on_manager_daemon:
  assumes d: "daemon_ok (l, mon)" and f: "rpost (\<lambda>m'. m_onward (mon_manager mon) m' \<and> Q m') (f (mon_manager mon))"
  shows "rpost (\<lambda>(l', mon'). daemon_ok (l', mon') \<and> l' = l \<and> m_onward (mon_manager mon) (mon_manager mon') \<and> Q (mon_manager mon'))
     (on_manager f (l, mon))"
  unfolding on_manager_def case_prod_conv
  by (rule rpost_rbindI [OF f]) (use daemon_ok_manager [OF d] daemon_okD [OF d] in \<open>auto simp: m_onward_def\<close>)

lemma manager_event_daemon:
  assumes e: "env_ok e" and d: "daemon_ok (l, mon)" and r: "daemon_ready (Manager_Event ev) (l, mon)"
  shows "rpost (\<lambda>(l', mon'). daemon_ok (l', mon') \<and> l' = l \<and> m_onward (mon_manager mon) (mon_manager mon')
      \<and> (\<not> answers_ok ev (mon_manager mon) \<and> m_lock_active (mon_manager mon) \<and> nothing_pending (mon_manager mon)
          \<longrightarrow> nothing_pending (mon_manager mon'))) (daemon_react be e (Manager_Event ev) (l, mon))"
proof -
  have "rpost (\<lambda>m'. m_onward (mon_manager mon) m' \<and> (\<not> answers_ok ev (mon_manager mon) \<and> m_lock_active (mon_manager mon)
      \<and> nothing_pending (mon_manager mon) \<longrightarrow> nothing_pending m')) (manager_react e ev (mon_manager mon))"
    using r by (intro manager_react_post [OF e daemon_okD(1,2) [OF d]]) simp_all
  then show ?thesis unfolding daemon_react.simps by (rule on_manager_daemon [OF d])
qed

lemma on_watcher_daemon:
  assumes "rpost (\<lambda>ws'. daemon_ok (put_watcher ws')) (f (get_watcher ls))"
  shows "rpost daemon_ok (on_watcher f ls)"
  unfolding on_watcher_def by (rule rpost_rbindI [OF assms]) simp

lemma deactivated_daemon:
  assumes "daemon_ok ls" "env_ok e"
  shows "rpost daemon_ok (manager_deactivated_cb be e ls)"
proof -
  obtain l mon where ls: "ls = (l, mon)" by (cases ls)
  have a: "ls_ok mon_ok ls" and b: "synced in_step ls" using assms(1) ls by (simp_all add: daemon_ok_alt)
  have "rpost (\<lambda>(r, ls'). daemon_ok ls') (gs_listener_set_active be (listener_active_changed_cb e) False ls)"
    using set_active_ls [OF a, where be = be and e = e and b = False] set_active_in_step [OF b, where be = be and e = e and b = False]
    by (auto simp: rpost_def daemon_ok_alt)
  then show ?thesis unfolding manager_deactivated_cb_def by (rule rpost_rbindI) auto
qed

lemma release_grab_daemon:
  assumes "daemon_ok (l, mon)"
  shows "daemon_ok (l, release_grab_timeout mon)"
proof -
  have "manager_ok (mon_manager mon\<lparr>m_grab := gs_grab_release (m_grab (mon_manager mon)) True\<rparr>)"
    using manager_ok_fade [OF daemon_okD(1) [OF assms], of "gs_grab_release (m_grab (mon_manager mon)) True" "m_fade (mon_manager mon)"]
      by simp
  then have "daemon_ok (l, mon\<lparr>mon_manager := mon_manager mon\<lparr>m_grab := gs_grab_release (m_grab (mon_manager mon)) True\<rparr>\<rparr>)"
    by (rule daemon_ok_manager [OF assms]) (use daemon_okD [OF assms] in simp_all)
  then show ?thesis
    using assms by (auto simp: release_grab_timeout_def Let_def daemon_ok_def synced_def in_step_def mon_ok_def)
qed

text \<open>What the daemon promises depends on four fields of the listener only.\<close>

definition l_face where
  "l_face l = (l_inhibitors l, l_throttlers l, l_throttled l, l_active l)"

lemma daemon_ok_face: "l_face l' = l_face l \<Longrightarrow> daemon_ok (l', mon) = daemon_ok (l, mon)"
  by (simp add: l_face_def daemon_ok_def synced_def listener_ok_def throttle_ok_def listener_ref_entry_is_present_def hash_defs)

lemma dbus_init_face [simp]: "l_face (snd (gs_listener_dbus_init a b l)) = l_face l"
  by (simp add: gs_listener_dbus_init_def Let_def l_face_def)

lemma reinit_face [simp]: "l_face (snd (reinit_dbus a b l)) = l_face l"
  using dbus_init_face [of a b l] by (simp add: reinit_dbus_def l_face_def Let_def case_prod_beta)

lemma acquire_face: "gs_listener_acquire be b l = (r, l') \<Longrightarrow> l_face l' = l_face l"
  by (auto simp: gs_listener_acquire_def acquire_system_def take_logind_inhibit_lock_def l_send_def l_face_def Let_def
      split: option.splits if_splits prod.splits)

lemma daemon_react_ok:
  assumes e: "env_ok e" and ok: "daemon_ok ls" and r: "daemon_ready ev ls"
  shows "rpost daemon_ok (daemon_react be e ev ls)"
proof -
  obtain s where es: "e = Rep_sane_env s" using sane_cases [OF e] by blast
  obtain l mon where ls: "ls = (l, mon)" by (cases ls)
  note d = ok [unfolded ls]
  have msg: "rpost daemon_ok (rbind x (\<lambda>(_, ls). ret ls))" if "rpost (\<lambda>(h, ls'). daemon_ok ls') x"
    for x :: "(handler_result \<times> daemon) res"
    by (rule rpost_rbindI [OF that]) auto
  have w: "daemon_ok (put_watcher (get_watcher ls))" using ok by simp
  show ?thesis
  proof (cases ev)
    case (Manager_Event mev)
    show ?thesis
      unfolding Manager_Event ls
      by (rule rpost_mono [OF manager_event_daemon [OF e d]]) (use r Manager_Event ls in auto)
  next
    case Deactivated_Idle
    have "manager_ok (take_idle (mon_manager mon))"
      unfolding take_idle_def by (rule relabel_id [OF daemon_okD(1) [OF d]]) (simp_all add: relabel_simps)
    then have "daemon_ok (l, mon\<lparr>mon_manager := take_idle (mon_manager mon)\<rparr>)"
      by (rule daemon_ok_manager [OF d]) (use daemon_okD [OF d] in \<open>simp_all add: take_idle_def\<close>)
    then show ?thesis using Deactivated_Idle ls deactivated_daemon [OF _ e] by simp
  next
    case (Settings_Changed settings key)
    then show ?thesis using prefs_key_changed_ok [OF d] ls by simp
  next
    case Idle_Timeout
    have "rpost (\<lambda>ws'. daemon_ok (put_watcher ws')) (rbind (on_idle_timeout (watcher_idle_cb be e) (watcher_idle_notice_cb e)
        (get_watcher ls)) (\<lambda>(_, ws). ret ws))"
      unfolding es by (rule rpost_rbindI [OF mon_watch.on_idle_timeout_keeps [OF w]]) auto
    then show ?thesis unfolding Idle_Timeout daemon_react.simps by (rule on_watcher_daemon)
  next
    case (Presence_Text t)
    show ?thesis
      unfolding Presence_Text daemon_react.simps on_presence_status_text_changed_def
      by (intro on_watcher_daemon mon_watch.set_status_text_keeps [OF w])
  next
    case (Presence_Status n)
    show ?thesis
      unfolding Presence_Status daemon_react.simps on_presence_status_changed_def es
      by (intro on_watcher_daemon mon_watch.set_status_keeps [OF w])
  qed (use ls d in \<open>auto simp: message_daemon_ok [OF d e] daemon_ok_face [OF reinit_face] release_grab_daemon
      intro!: msg simp del: rpost_simps(3)\<close>)
qed

lemma watcher_init_idle: "rpost (\<lambda>w. w_enabled w \<and> \<not> w_active w) (gs_watcher_init b)"
  by (auto simp: gs_watcher_init_def connect_presence_watcher_def set_status_def set_status_text_def add_watchdog_timer_def
      remove_watchdog_timer_def Let_def split: option.split)

lemma init_ok:
  assumes "gs_monitor_init e st = Inr ls"
  shows "daemon_ok ls"
proof -
  have m: "at_rest (gs_manager_init n f (gs_grab_init w))" "m_monitor_handlers (gs_manager_init n f (gs_grab_init w)) = 0" for n f w
    by (simp_all add: at_rest_def gs_manager_init_def gs_grab_init_def grab_ok_def)
  have l: "listener_ok (gs_listener_init a b c d)" "\<not> l_active (gs_listener_init a b c d)" "\<not> l_throttled (gs_listener_init a b c d)" for a b c d
    by (auto simp: gs_listener_init_def gs_listener_dbus_init_def init_session_id_def listener_ok_def entries_ok_def throttle_ok_def
        listener_ref_entry_is_present_def hash_defs gh_size_def Let_def split: option.split)
  have f: "f_callbacks (gs_fade_init fe) = []" for fe
    by (simp add: gs_fade_init_def check_randr_extension_def check_gamma_extension_def Let_def split: prod.split)
  have i: "m_fade (gs_manager_init n f g) = f" "\<not> m_active (gs_manager_init n f g)" "\<not> m_throttled (gs_manager_init n f g)" for n f g
    by (simp_all add: gs_manager_init_def)
  have "rpost daemon_ok (gs_monitor_init e st)"
    unfolding gs_monitor_init_def Let_def
  proof (rule rpost_rbindI [OF watcher_init_idle], unfold rpost_simps)
    fix w :: gs_watcher assume "w_enabled w \<and> \<not> w_active w"
    then show "daemon_ok (gs_monitor_update_from_prefs e
        (gs_listener_init (st_have_systemd st) (st_session_bus st) (st_system_bus st) (st_session_replies st),
         \<lparr>mon_watcher = w, mon_manager = gs_manager_init (st_monitors st) (gs_fade_init (me_fade e)) (gs_grab_init (st_invisible st)),
          mon_prefs = gs_prefs_init (st_settings st), mon_release_grab_id = None, mon_quit = False\<rparr>))"
      by (intro update_from_prefs_ok) (simp_all add: l i f at_rest_ok [OF m(1)] m(2))
  qed
  then show ?thesis using assms by (rule rpostD)
qed

lemma reachable_daemon_ok:
  assumes "reachable buses ls"
  shows "daemon_ok ls"
  using assms
proof (induction rule: reachable.induct)
  case (start e st ls be b ls')
  obtain l mon where ls: "ls = (l, mon)" by (cases ls)
  obtain r l' where acq: "gs_listener_acquire be b l = (r, l')" by (metis prod.exhaust)
  then have "ls' = (l', mon)" using start(4) ls by (simp add: gs_monitor_start_def)
  then show ?case using init_ok [OF start(2)] ls daemon_ok_face [OF acquire_face [OF acq]] by simp
next
  case (step ls e be ev ls')
  then show ?case using rpostD [OF daemon_react_ok] by (blast elim: daemon_step.cases)
qed

section \<open>A locked screen\<close>

definition still_locked :: "bool \<Rightarrow> bool \<Rightarrow> gs_monitor \<Rightarrow> bool" where
  "still_locked active throttled mon =
     (in_step active throttled mon \<and> active \<and> m_lock_active (mon_manager mon) \<and> nothing_pending (mon_manager mon))"

lemma still_locked_steady:
  assumes "still_locked a t mon" "in_step a t' mon'" "m_steady (mon_manager mon\<lparr>m_throttled := t'\<rparr>) (mon_manager mon')"
  shows "still_locked a t' mon'"
  using assms by (auto simp: still_locked_def m_steady_def nothing_pending_def)

lemma on_manager_locked:
  assumes "steady f" "synced still_locked ls"
  shows "rpost (synced still_locked) (on_manager f ls)"
proof -
  obtain l mon where ls: "ls = (l, mon)" by (cases ls)
  have st: "in_step (l_active l) (l_throttled l) mon" using assms(2) ls by (auto simp: synced_def still_locked_def)
  show ?thesis
    unfolding ls
  proof (rule rpost_mono [OF on_manager_step [OF assms(1) st]], clarify)
    fix l' mon' assume "in_step (l_active l) (l_throttled l) mon'" "m_steady (mon_manager mon) (mon_manager mon')"
    then show "synced still_locked (l, mon')"
      using assms(2) ls by (auto simp: synced_def still_locked_def m_steady_def nothing_pending_def)
  qed
qed

lemma lock_screen_locked:
  assumes "synced still_locked ls"
  shows "rpost (synced still_locked) (gs_monitor_lock_screen be e ls)"
proof -
  obtain l mon where ls: "ls = (l, mon)" by (cases ls)
  have "m_active (mon_manager mon)" "m_lock_active (mon_manager mon)"
    using assms ls by (simp_all add: synced_def still_locked_def in_step_def)
  then have "gs_monitor_lock_screen be e ls = Inr ls"
    using ls by (simp add: gs_monitor_lock_screen_def Let_def gs_manager_set_lock_active_def gs_manager_get_active_def)
  then show ?thesis using assms by simp
qed

lemma throttle_locked:
  assumes "env_ok e" "still_locked (l_active l) t mon" "l_throttled l = b"
  shows "rpost (\<lambda>(l', mon'). l' = l \<and> still_locked (l_active l) b mon') (listener_throttle_changed_cb e b (l, mon))"
proof -
  have m: "manager_ok (mon_manager mon)" and ok: "mon_ok mon" using assms(2) by (simp_all add: still_locked_def in_step_def mon_ok_def)
  show ?thesis
    unfolding listener_throttle_changed_cb_def on_manager_def case_prod_conv
  proof (rule rpost_rbindI [OF set_throttled_post [OF assms(1) m]])
    fix m' assume m': "manager_ok m' \<and> m_throttled m' = b \<and> m_steady (mon_manager mon\<lparr>m_throttled := b\<rparr>) m'"
    then have "in_step (l_active l) b (mon\<lparr>mon_manager := m'\<rparr>)"
      using assms(2) by (auto simp: still_locked_def in_step_def mon_ok_def m_steady_def)
    then show "rpost (\<lambda>(l', mon'). l' = l \<and> still_locked (l_active l) b mon') (ret (l, mon\<lparr>mon_manager := m'\<rparr>))"
      using still_locked_steady [OF assms(2)] m' by simp
  qed
qed

interpretation mon_locked: listener_calm be "connect_listener_signals be (Rep_sane_env e)" still_locked
  for be :: "'msg dbus_env" and e
proof unfold_locales
  show "rpost (\<lambda>(r, l', s'). l' = l \<and> still_locked r (l_throttled l) s')
      (sig_active_changed (connect_listener_signals be (Rep_sane_env e)) True (l, s))"
    if "still_locked (l_active l) (l_throttled l) s" "\<not> l_active l" for l s
    using that by (simp add: still_locked_def)
  show "rpost (\<lambda>(l', s'). l' = l \<and> still_locked (l_active l) b s')
      (sig_throttle_changed (connect_listener_signals be (Rep_sane_env e)) b (l, s))"
    if "still_locked (l_active l) t s" "l_throttled l = b" for l t s b
    using throttle_locked [OF sane that] by (simp add: connect_listener_signals_def)
  show "rpost (synced still_locked) (sig_lock (connect_listener_signals be (Rep_sane_env e)) ls)" if "synced still_locked ls" for ls
    using that lock_screen_locked [OF that, where be = be] by (simp add: connect_listener_signals_def listener_lock_cb_def)
  show "rpost (synced still_locked) (sig_cycle (connect_listener_signals be (Rep_sane_env e)) ls)" if "synced still_locked ls" for ls
    using that by (simp add: signal_simps on_manager_locked cycle_steady)
  show "rpost (synced still_locked) (sig_simulate_user_activity (connect_listener_signals be (Rep_sane_env e)) ls)"
    if "synced still_locked ls" for ls
    using that by (simp add: signal_simps on_manager_locked request_unlock_steady)
  show "rpost (synced still_locked) (sig_show_message (connect_listener_signals be (Rep_sane_env e)) a b' c ls)"
    if "synced still_locked ls" for ls a b' c
    using that by (simp add: signal_simps on_manager_locked show_message_steady)
  show "rpost (synced still_locked) (sig_prepare_for_sleep (connect_listener_signals be (Rep_sane_env e)) d ls)"
    if "synced still_locked ls" for ls d
    using that by (simp add: connect_listener_signals_def listener_prepare_for_sleep_cb_def on_manager_locked show_message_steady)
qed

text \<open>While the screen is locked, the watcher has nothing to say.\<close>

lemma idle_cb_locked:
  assumes "synced still_locked (put_watcher ws)" "env_ok e"
  shows "rpost (\<lambda>(r, ws'). synced still_locked (put_watcher ws')) (watcher_idle_cb be e b ws)"
proof -
  obtain s where e: "e = Rep_sane_env s" using sane_cases [OF assms(2)] by blast
  have "rpost (syncs still_locked) (gs_listener_set_session_idle be (listener_active_changed_cb e) b (put_watcher ws))"
    using mon_locked.set_session_idle_sync [OF assms(1), of be s b] by (simp add: e connect_listener_signals_def)
  then show ?thesis unfolding watcher_idle_cb_def by (rule rpost_rbindI) auto
qed

lemma notice_cb_locked:
  assumes "synced still_locked (put_watcher ws)"
  shows "rpost (\<lambda>(r, ws'). synced still_locked (put_watcher ws')) (watcher_idle_notice_cb e b ws)"
proof -
  obtain l mon where ls: "put_watcher ws = (l, mon)" by (cases "put_watcher ws")
  let ?m = "mon_manager mon"
  have p: "still_locked (l_active l) (l_throttled l) mon" using assms ls by (simp add: synced_def)
  have f: "f_callbacks (m_fade ?m) = []" "manager_ok ?m" "m_active ?m"
    using p by (auto simp: still_locked_def in_step_def mon_ok_def)
  obtain gr g where g: "gs_grab_grab_offscreen (me_seat e) (m_grab ?m) False False = (gr, g)" by (metis prod.exhaust)
  have gok: "grab_ok g" using grab_window_ok [OF manager_grab_ok [OF f(2)]] g by (metis gs_grab_grab_offscreen_def snd_conv)
  have fd: "rpost (\<lambda>(cbs, f'). f_callbacks f' = []) (if gr then gs_fade_async (me_fade e) FADE_TIMEOUT None (m_fade ?m) else ret ([], m_fade ?m))"
    using fade_async_callbacks f(1) by simp
  have on: "rpost (\<lambda>(r, ws'). synced still_locked (put_watcher ws'))
     (rbind (if gr then gs_fade_async (me_fade e) FADE_TIMEOUT None (m_fade ?m) else ret ([], m_fade ?m)) (\<lambda>(_, f).
       ret (True, get_watcher (l, mon\<lparr>mon_manager := ?m\<lparr>m_grab := g, m_fade := f\<rparr>\<rparr>))))"
    by (rule rpost_rbindI [OF fd])
      (use p manager_ok_fade [OF f(2) gok] in \<open>auto simp: synced_def still_locked_def in_step_def mon_ok_def nothing_pending_def\<close>)
  show ?thesis
    using on assms f(3) unfolding watcher_idle_notice_cb_def ls Let_def case_prod_conv g
    by (intro rpost_if) (simp_all add: ls gs_manager_get_active_def)
qed

lemma locked_watcher_fields:
  "synced still_locked (put_watcher (w\<lparr>w_idle := x\<rparr>, s)) = synced still_locked (put_watcher (w, s))"
  "synced still_locked (put_watcher (w\<lparr>w_idle_notice := x\<rparr>, s)) = synced still_locked (put_watcher (w, s))"
  "synced still_locked (put_watcher (w\<lparr>w_idle_id := i\<rparr>, s)) = synced still_locked (put_watcher (w, s))"
  "synced still_locked (put_watcher (w\<lparr>w_status_message := t\<rparr>, s)) = synced still_locked (put_watcher (w, s))"
  by (cases s; simp add: put_watcher_def synced_def still_locked_def in_step_def mon_ok_def)+

lemma status_cb_locked:
  assumes "synced still_locked (put_watcher ws)"
  shows "rpost (\<lambda>ws'. synced still_locked (put_watcher ws')) (on_watcher_status_message_changed ws)"
proof -
  obtain l mon where ls: "put_watcher ws = (l, mon)" by (cases "put_watcher ws")
  let ?m = "gs_manager_set_status_message (w_status_message (mon_watcher mon)) (mon_manager mon)"
  have p: "still_locked (l_active l) (l_throttled l) mon" using assms ls by (simp add: synced_def)
  have "m_lock_active ?m = m_lock_active (mon_manager mon)" by simp
  moreover have "m_pulse ?m = m_pulse (mon_manager mon)" by simp
  note pulseD [OF this]
  moreover have "manager_ok ?m" using p by (intro set_status_message_ok) (simp add: still_locked_def in_step_def mon_ok_def)
  ultimately show ?thesis
    unfolding on_watcher_status_message_changed_def ls
    using p by (auto simp: synced_def still_locked_def in_step_def mon_ok_def nothing_pending_def)
qed

interpretation mon_watch_locked: watcher_client "watcher_idle_cb be (Rep_sane_env e)" "watcher_idle_notice_cb (Rep_sane_env e)"
    on_watcher_status_message_changed "\<lambda>ws. synced still_locked (put_watcher ws)"
  for be :: "'msg dbus_env" and e
  by unfold_locales (simp_all add: idle_cb_locked notice_cb_locked status_cb_locked locked_watcher_fields)

text \<open>
  The events that may end a locked screen: the message or signal that asks for it, and the answer of
  the dialog that the user may get in.
\<close>

fun unlocking :: "'msg dbus_env \<Rightarrow> 'msg daemon_event \<Rightarrow> daemon \<Rightarrow> bool" where
  "unlocking be (Path_Message x) ls = unlock_call be x"
| "unlocking be (Session_Message x) ls = unlock_call be x"
| "unlocking be (System_Message x) ls = unlock_signal be (fst ls) x"
| "unlocking be (Manager_Event ev) ls = answers_ok ev (mon_manager (snd ls))"
| "unlocking be ev ls = False"

text \<open>Each entry point needs the behaviour of one kind of message only.\<close>

lemma messages_locked:
  assumes ok: "synced still_locked ls" and e: "env_ok e"
  shows "\<not> unlock_call be m \<Longrightarrow> rpost (syncs still_locked) (gs_listener_message_handler be (connect_listener_signals be e) m ls)"
    and "\<not> unlock_call be m \<Longrightarrow> rpost (syncs still_locked) (listener_dbus_filter_function be (connect_listener_signals be e) m ls)"
    and "\<not> unlock_signal be (fst ls) m \<Longrightarrow>
      rpost (syncs still_locked) (listener_dbus_system_filter_function be (connect_listener_signals be e) m ls)"
proof -
  obtain s where e: "e = Rep_sane_env s" using sane_cases [OF e] by blast
  show "rpost (syncs still_locked) (gs_listener_message_handler be (connect_listener_signals be e) m ls)" if "\<not> unlock_call be m"
    unfolding e by (rule mon_locked.session_filters [OF ok mon_locked.session_calm [OF ok that]])
  show "rpost (syncs still_locked) (listener_dbus_filter_function be (connect_listener_signals be e) m ls)" if "\<not> unlock_call be m"
    unfolding e by (rule mon_locked.session_filters [OF ok mon_locked.session_calm [OF ok that]])
  show "rpost (syncs still_locked) (listener_dbus_system_filter_function be (connect_listener_signals be e) m ls)"
    if "\<not> unlock_signal be (fst ls) m"
    unfolding e by (rule mon_locked.system_filter [OF ok mon_locked.system_calm [OF ok that]])
qed

lemma update_from_prefs_manager:
  "\<exists>t. mon_manager (snd (gs_monitor_update_from_prefs e (l, mon))) =
     gs_manager_set_status_message t (manager_from_prefs e (mon_prefs mon) (mon_manager mon))"
  unfolding gs_monitor_update_from_prefs_def Let_def case_prod_conv snd_conv
  by (cases "p_status_message_enabled (mon_prefs mon)"; simp split: if_split) blast+

lemma prefs_key_changed_locked:
  assumes "daemon_ok (l, mon)" "synced still_locked (l, mon)"
  shows "synced still_locked (prefs_key_changed e settings key (l, mon))"
proof -
  obtain l' mon' where r: "prefs_key_changed e settings key (l, mon) = (l', mon')" by (metis prod.exhaust)
  obtain t p where m: "mon_manager mon' = gs_manager_set_status_message t (manager_from_prefs e p (mon_manager mon))"
    using update_from_prefs_manager [of e l "mon\<lparr>mon_prefs := key_changed_cb settings key (mon_prefs mon)\<rparr>"] r
    by (auto simp: prefs_key_changed_def)
  have "daemon_ok (l', mon')" using prefs_key_changed_ok [OF assms(1), of e settings key] r by simp
  moreover have "m_pulse (mon_manager mon') = m_pulse (mon_manager mon) \<and> m_lock_active (mon_manager mon')"
    unfolding m using assms(2) prefs_lock by (simp add: synced_def still_locked_def)
  ultimately show ?thesis
    using assms(2) pulseD [of "mon_manager mon'" "mon_manager mon"] unfolding r
    by (auto simp: daemon_ok_def synced_def still_locked_def in_step_def nothing_pending_def)
qed

lemma locked_step:
  assumes e: "env_ok e" and ok: "daemon_ok ls" and lk: "synced still_locked ls"
    and r: "daemon_ready ev ls" and no: "\<not> unlocking be ev ls"
  shows "rpost (synced still_locked) (daemon_react be e ev ls)"
proof -
  obtain s where es: "e = Rep_sane_env s" using sane_cases [OF e] by blast
  obtain l mon where ls: "ls = (l, mon)" by (cases ls)
  have msg: "rpost (synced still_locked) (rbind x (\<lambda>(_, ls). ret ls))" if "rpost (syncs still_locked) x"
    for x :: "(handler_result \<times> daemon) res"
    by (rule rpost_rbindI [OF that]) auto
  have wat: "rpost (synced still_locked) (on_watcher f ls)" if "rpost (\<lambda>ws'. synced still_locked (put_watcher ws')) (f (get_watcher ls))" for f
    unfolding on_watcher_def by (rule rpost_rbindI [OF that]) simp
  have w: "synced still_locked (put_watcher (get_watcher ls))" using lk by simp
  show ?thesis
  proof (cases ev)
    case (Manager_Event mev)
    have "synced still_locked (l, mon')"
      if "daemon_ok (l, mon')" "m_onward (mon_manager mon) (mon_manager mon')" "nothing_pending (mon_manager mon')" for mon'
      using that lk ls by (auto simp: daemon_ok_def synced_def still_locked_def m_onward_def)
    then show ?thesis
      unfolding Manager_Event ls using r no lk ls Manager_Event
      by (intro rpost_mono [OF manager_event_daemon [OF e ok [unfolded ls]]]) (auto simp: synced_def still_locked_def)
  next
    case Deactivated_Idle
    then show ?thesis using r lk ls by (simp add: synced_def still_locked_def nothing_pending_def)
  next
    case (Settings_Changed settings key)
    then show ?thesis using prefs_key_changed_locked [OF ok [unfolded ls] lk [unfolded ls]] ls by simp
  next
    case Idle_Timeout
    have "rpost (\<lambda>ws'. synced still_locked (put_watcher ws')) (rbind (on_idle_timeout (watcher_idle_cb be e) (watcher_idle_notice_cb e)
        (get_watcher ls)) (\<lambda>(_, ws). ret ws))"
      unfolding es by (rule rpost_rbindI [OF mon_watch_locked.on_idle_timeout_keeps [OF w]]) auto
    then show ?thesis unfolding Idle_Timeout daemon_react.simps by (rule wat)
  next
    case (Presence_Text t)
    show ?thesis
      unfolding Presence_Text daemon_react.simps on_presence_status_text_changed_def
      by (intro wat mon_watch_locked.set_status_text_keeps [OF w])
  next
    case (Presence_Status n)
    show ?thesis
      unfolding Presence_Status daemon_react.simps on_presence_status_changed_def es
      by (intro wat mon_watch_locked.set_status_keeps [OF w])
  next
    case Release_Grab
    then show ?thesis
      using lk ls by (auto simp: release_grab_timeout_def Let_def gs_manager_get_active_def synced_def still_locked_def in_step_def mon_ok_def)
  next
    case (Reconnect a b)
    have "l_face (snd (reinit_dbus a b l)) = l_face l" by simp
    then show ?thesis using Reconnect lk ls by (simp add: l_face_def synced_def)
  qed (use no lk in \<open>auto intro!: msg messages_locked [OF _ e] simp del: rpost_simps(3)\<close>)
qed

end
