(* ===== verification/GS_Daemon_Props.thy ===== *)
theory GS_Daemon_Props
  imports GS_Daemon
begin

text \<open>
  What holds in every reachable state of the daemon, what a request to lock achieves, and that a
  locked screen stays locked until somebody who may do so ends it.
\<close>

section \<open>Locking returns\<close>

definition can_grab :: "manager_env \<Rightarrow> gs_manager \<Rightarrow> bool" where
  "can_grab e m = fst (gs_grab_grab_root (me_seat e) (me_root e) (m_grab m) False False)"

lemma lock_screen_returns:
  assumes ok: "daemon_ok (l, mon)" and e: "execs_parse e"
  shows "\<exists>l' mon'. gs_monitor_lock_screen be e (l, mon) = Inr (l', mon')
     \<and> l_active l' = m_active (mon_manager mon')
     \<and> m_active (mon_manager mon') = (m_active (mon_manager mon) \<or> can_grab e (mon_manager mon))
     \<and> (if m_active (mon_manager mon') then m_lock_active (mon_manager mon')
        else m_lock_active (mon_manager mon') = m_lock_active (mon_manager mon))"
proof -
  let ?m = "gs_manager_set_lock_active True (mon_manager mon)" and ?mon = "mon\<lparr>mon_manager := gs_manager_set_lock_active True (mon_manager mon)\<rparr>"
  have sync: "synced in_step (l, mon)" using ok by (simp add: daemon_ok_def)
  have la: "l_active l = m_active (mon_manager mon)" using daemon_okD(3) [OF ok] .
  have mok: "manager_ok ?m" by (rule set_lock_active_ok [OF daemon_okD(1) [OF ok]])
  have g: "m_grab ?m = m_grab (mon_manager mon)" by (simp add: gs_manager_set_lock_active_def)
  have run: "\<exists>ls'. gs_monitor_lock_screen be e (l, mon) = Inr ls' \<and>
      (\<not> m_active (mon_manager mon) \<longrightarrow> m_active (mon_manager (snd ls')) = can_grab e (mon_manager mon))"
  proof (cases "m_active (mon_manager mon)")
    case True
    then show ?thesis by (simp add: gs_monitor_lock_screen_def Let_def gs_manager_get_active_def)
  next
    case False
    obtain m' where m': "gs_manager_activate e ?m = Inr (can_grab e (mon_manager mon), m')"
      using activate_returns [OF e mok] False g by (auto simp: can_grab_def)
    have "m_active m' = can_grab e (mon_manager mon)"
      using rpostD [OF activate_post [OF mok] m'] False by simp
    then show ?thesis
      using False la m'
      by (cases "can_grab e (mon_manager mon)"; cases "w_enabled (mon_watcher mon)")
        (simp_all add: gs_monitor_lock_screen_def Let_def gs_manager_get_active_def gs_listener_set_active_def
          listener_active_changed_cb_def gs_manager_set_active_def gs_watcher_get_enabled_def)
  qed
  then obtain l' mon' where r: "gs_monitor_lock_screen be e (l, mon) = Inr (l', mon')"
    "\<not> m_active (mon_manager mon) \<longrightarrow> m_active (mon_manager mon') = can_grab e (mon_manager mon)" by (metis prod.exhaust snd_conv)
  have "synced in_step (l', mon')" "m_active (mon_manager mon) \<longrightarrow> m_active (mon_manager mon')"
    "if m_active (mon_manager mon') then m_lock_active (mon_manager mon') else m_lock_active (mon_manager mon') = m_lock_active (mon_manager mon)"
    using rpostD [OF lock_screen_post [OF sync] r(1)] by (simp_all cong: if_cong split: if_split_asm)
  then show ?thesis using r by (auto simp: synced_def in_step_def)
qed

text \<open>Ending an active screensaver: it returns exactly if deactivating the manager does.\<close>

lemma set_inactive_eq:
  assumes ok: "daemon_ok (l, mon)" and act: "m_active (mon_manager mon)"
  shows "gs_listener_set_active be (listener_active_changed_cb e) False (l, mon) =
     rbind (gs_manager_deactivate e (mon_manager mon)) (\<lambda>(_, m).
     ret (True, listener_set_active_internal be False l,
          mon\<lparr>mon_manager := m, mon_watcher := snd (gs_watcher_set_active (mon_watcher mon) True)\<rparr>))"
proof -
  have l: "l_active l" using daemon_okD(3) [OF ok] act by simp
  have w: "w_enabled (mon_watcher mon)" using ok by (simp add: daemon_ok_def synced_def in_step_def mon_ok_def)
  show ?thesis
  proof (cases "gs_manager_deactivate e (mon_manager mon)")
    case (Inl x)
    then show ?thesis
      using l by (simp add: gs_listener_set_active_def listener_active_changed_cb_def gs_manager_set_active_def)
  next
    case (Inr y)
    obtain r m' where y: "y = (r, m')" by (cases y)
    have r using rpostD [OF deactivate_post [OF daemon_okD(1) [OF ok] act]] Inr y by blast
    then show ?thesis
      using l w Inr y by (simp add: gs_listener_set_active_def listener_active_changed_cb_def gs_manager_set_active_def
          gs_watcher_get_enabled_def Let_def)
  qed
qed

lemma set_inactive_ends:
  assumes ok: "daemon_ok (l, mon)" and act: "m_active (mon_manager mon)"
    and r: "gs_listener_set_active be (listener_active_changed_cb e) False (l, mon) = Inr (r, l', mon')"
  shows "at_rest (mon_manager mon') \<and> \<not> l_active l' \<and> w_active (mon_watcher mon')
     \<and> m_deactivated_idles (mon_manager mon') = m_deactivated_idles (mon_manager mon)"
proof -
  obtain r' m' where m': "gs_manager_deactivate e (mon_manager mon) = Inr (r', m')"
    and eq: "l' = listener_set_active_internal be False l"
      "mon' = mon\<lparr>mon_manager := m', mon_watcher := snd (gs_watcher_set_active (mon_watcher mon) True)\<rparr>"
    using r unfolding set_inactive_eq [OF ok act] by (auto simp: res_simps)
  have "at_rest m' \<and> m_deactivated_idles m' = m_deactivated_idles (mon_manager mon)"
    using rpostD [OF deactivate_post [OF daemon_okD(1) [OF ok] act] m'] by simp
  moreover have "w_enabled (mon_watcher mon)" "\<not> w_active (mon_watcher mon)"
    using ok act by (simp_all add: daemon_ok_def synced_def in_step_def mon_ok_def)
  ultimately show ?thesis by (simp add: eq active_internal_flags watcher_defs)
qed

section \<open>A run of the daemon\<close>

text \<open>A bus whose messages are the names of methods, and a desktop with two monitors.\<close>

definition sample_bus :: "string dbus_env" where
  "sample_bus =
     \<lparr>env_now = 100, env_random = (\<lambda>n. 1 + int n mod 1000), env_connected = True, env_no_memory = False,
      env_session_inhibit = (\<lambda>_ _. Some 5), env_logind_inhibit = Some 9, env_iso8601 = (\<lambda>_. ''T''),
      env_sd_session_is_active = (\<lambda>_. True), msg_is_method_call = (\<lambda>m s n. s = GS_LISTENER_SERVICE \<and> n = m),
      msg_is_signal = (\<lambda>m _ _. False), msg_path = (\<lambda>_. None), msg_destination = (\<lambda>_. None), msg_sender = (\<lambda>_. Some '':1.7''),
      msg_get_2_strings = (\<lambda>m. None), msg_get_3_strings = (\<lambda>_. None), msg_get_uint32 = (\<lambda>m. None),
      msg_get_boolean = (\<lambda>_. None), msg_body = (\<lambda>_. [])\<rparr>"

definition sample_start :: start_env where
  "sample_start =
     \<lparr>st_have_systemd = True, st_session_bus = True, st_system_bus = True,
      st_session_replies = \<lparr>sr_no_memory = False, sr_by_pid = None, sr_auto = None, sr_console_kit = None\<rparr>,
      st_presence = \<lparr>pb_bus = False, pb_presence_proxy = False, pb_properties_proxy = False, pb_status = None, pb_status_text = None\<rparr>,
      st_settings = sample_pref_settings False, st_monitors = [1, 2], st_invisible = 9\<rparr>"

definition sample_names :: bus_names where
  "sample_names = \<lparr>bn_has_owner = False, bn_register = (\<lambda>_. True), bn_request = (\<lambda>_. (1, False))\<rparr>"

lemma sample_can_grab: "can_grab sample_manager_env m"
  by (simp add: can_grab_def gs_grab_grab_root_def gs_grab_grab_window_def grab_window_loop.simps gs_grab_get_def gdk_seat_grab_def
      sample_manager_env_def Let_def)

lemma sample_started:
  "\<exists>l mon. reachable {sample_bus} (l, mon) \<and> \<not> m_active (mon_manager mon) \<and> \<not> p_lock_disabled (mon_prefs mon)
     \<and> nothing_pending (mon_manager mon)"
proof -
  obtain w where w: "gs_watcher_init (st_presence sample_start) = Inr w"
    by (simp add: gs_watcher_init_def connect_presence_watcher_def sample_start_def Let_def)
  let ?l = "gs_listener_init True True True (st_session_replies sample_start)"
  let ?p = "gs_prefs_init (st_settings sample_start)"
  let ?m = "gs_manager_init (st_monitors sample_start) (gs_fade_init (me_fade sample_manager_env)) (gs_grab_init (st_invisible sample_start))"
  let ?mon = "\<lparr>mon_watcher = w, mon_manager = ?m, mon_prefs = ?p, mon_release_grab_id = None, mon_quit = False\<rparr>"
  obtain l mon where u: "gs_monitor_update_from_prefs sample_manager_env (?l, ?mon) = (l, mon)" by (metis prod.exhaust)
  have i: "gs_monitor_init sample_manager_env sample_start = Inr (l, mon)"
    using w u by (simp add: gs_monitor_init_def Let_def) (simp add: sample_start_def)
  have "m_pulse (mon_manager mon) = m_pulse ?m"
    using update_from_prefs_manager [of sample_manager_env ?l ?mon] u by auto
  then have m: "\<not> m_active (mon_manager mon)" "nothing_pending (mon_manager mon)"
    using pulseD [of "mon_manager mon" ?m] by (simp_all add: gs_manager_init_def nothing_pending_def no_ok_def)
  have p: "mon_prefs mon = ?p" "l = gs_listener_set_activation_enabled (p_idle_activation_enabled ?p) ?l"
    using u by (auto simp: gs_monitor_update_from_prefs_def Let_def split: if_splits)
  have "\<not> p_lock_disabled ?p"
    by (simp add: gs_prefs_init_def sample_start_def load_eq sample_pref_settings_def)
  moreover obtain c where "l_connection l = Some c"
    unfolding p(2) by (simp add: gs_listener_set_activation_enabled_def gs_listener_init_def gs_listener_dbus_init_def init_session_id_def Let_def
        split: option.split)
  then obtain l' where "gs_listener_acquire sample_bus sample_names l = (True, l')"
    by (simp add: gs_listener_acquire_def sample_bus_def sample_names_def DBUS_REQUEST_NAME_REPLY_EXISTS_def Let_def)
  then have "gs_monitor_start sample_bus sample_names (l, mon) = (True, l', mon)" by (simp add: gs_monitor_start_def)
  then have "reachable {sample_bus} (l', mon)" using reachable.start [OF sample_manager_env_ok i] by blast
  ultimately show ?thesis using m p(1) by (intro exI [of _ l'] exI [of _ mon]) simp
qed

text \<open>The desktop after a request to lock.\<close>

lemma sample_locked:
  "\<exists>l mon. reachable {sample_bus} (l, mon) \<and> synced still_locked (l, mon)"
proof -
  obtain l mon where r: "reachable {sample_bus} (l, mon)" "\<not> p_lock_disabled (mon_prefs mon)" "nothing_pending (mon_manager mon)"
    "\<not> m_active (mon_manager mon)"
    using sample_started by blast
  note ok = reachable_daemon_ok [OF r(1)]
  obtain l' mon' where lk: "gs_monitor_lock_screen sample_bus sample_manager_env (l, mon) = Inr (l', mon')"
    "m_active (mon_manager mon')" "m_lock_active (mon_manager mon')"
    using lock_screen_returns [OF ok sample_execs_parse, of sample_bus] sample_can_grab by auto
  have "daemon_react sample_bus sample_manager_env (Path_Message ''Lock'') (l, mon) = Inr (l', mon')"
    using lk(1) r(2)
    by (simp add: gs_listener_message_handler_def is_disconnected_def listener_dbus_handle_session_message_def handled_def
        connect_listener_signals_def listener_lock_cb_def sample_bus_def GS_LISTENER_SERVICE_def)
  then have "daemon_step sample_bus sample_manager_env (Path_Message ''Lock'') (l, mon) (l', mon')"
    by (intro dispatch) simp_all
  then have s: "reachable {sample_bus} (l', mon')" using reachable.step [OF r(1) sample_manager_env_ok] by blast
  have "synced in_step (l', mon')" using reachable_daemon_ok [OF s] by (simp add: daemon_ok_def)
  moreover have "nothing_pending (mon_manager mon')"
    using rpostD [OF lock_screen_post lk(1)] ok r(3) by (simp add: daemon_ok_def nothing_pending_def)
  ultimately show ?thesis using s lk by (auto simp: synced_def still_locked_def in_step_def)
qed

section \<open>Properties\<close>

text \<open>
  C8: the parts of the daemon agree.  In every reachable state the listener and the manager have the
  same idea of whether the screensaver is active and throttled, it is throttled exactly while
  somebody asks for it, and idle detection is on exactly while the screensaver is off.
\<close>

theorem reachable_in_step:
  assumes "reachable buses (l, mon)"
  shows "l_active l = m_active (mon_manager mon) \<and> l_throttled l = m_throttled (mon_manager mon)
     \<and> l_throttled l = (l_throttlers l \<noteq> []) \<and> w_active (mon_watcher mon) = (\<not> m_active (mon_manager mon))"
  using reachable_daemon_ok [OF assms]
  by (simp add: daemon_ok_def synced_def in_step_def mon_ok_def listener_ok_def throttle_ok_def listener_ref_entry_is_present_def
      hash_defs gh_size_def)

theorem reachable_in_step_witness:
  "\<exists>l mon. reachable {sample_bus} (l, mon) \<and> l_active l = m_active (mon_manager mon) \<and> w_active (mon_watcher mon)"
proof -
  obtain l mon where r: "reachable {sample_bus} (l, mon)" "\<not> m_active (mon_manager mon)" using sample_started by blast
  then show ?thesis using reachable_in_step [OF r(1)] by blast
qed

text \<open>
  C3: the screen is covered.  In every reachable state with the screensaver active, every monitor of
  the display has a window and every window belongs to one, no window of the list was freed, and all
  of them lock exactly if the screensaver is locked.
\<close>

theorem reachable_covered:
  assumes "reachable buses (l, mon)" "m_active (mon_manager mon)"
  shows "set (map win_monitor (m_windows (mon_manager mon))) = set (m_monitors (mon_manager mon))
     \<and> (\<forall>w \<in> set (m_windows (mon_manager mon)). \<not> win_freed w \<and> win_lock_enabled w = m_lock_active (mon_manager mon))"
  using daemon_okD(1) [OF reachable_daemon_ok [OF assms(1)]] assms(2)
  by (simp add: manager_ok_def core_ok_def cfg_ok_def cover_ok_def follows_def live_ok_def wins_ok_def)

theorem reachable_covered_witness:
  "\<exists>l mon. reachable {sample_bus} (l, mon) \<and> m_lock_active (mon_manager mon)
     \<and> set (map win_monitor (m_windows (mon_manager mon))) = set (m_monitors (mon_manager mon))"
proof -
  obtain l mon where r: "reachable {sample_bus} (l, mon)" "synced still_locked (l, mon)" using sample_locked by blast
  then have "m_active (mon_manager mon)" "m_lock_active (mon_manager mon)" by (simp_all add: synced_def still_locked_def in_step_def)
  then show ?thesis using reachable_covered [OF r(1)] r(1) by blast
qed

text \<open>
  C11: screensaver programs rest.  In every reachable state in which the unlock dialog is up or the
  screensaver is throttled, no screensaver program is running; there are jobs only while the
  screensaver is active, each for a window of the manager; and at most one window has the dialog.
\<close>

theorem reachable_jobs_rest:
  assumes "reachable buses (l, mon)"
  shows "(m_active (mon_manager mon) \<longleftrightarrow> m_jobs (mon_manager mon) \<noteq> None)
     \<and> (\<forall>h i j. m_jobs (mon_manager mon) = Some h \<and> (i, j) \<in> set h \<longrightarrow>
          i \<in> set (window_ids (mon_manager mon))
          \<and> (m_dialog_up (mon_manager mon) \<or> m_throttled (mon_manager mon) \<longrightarrow> j_status j \<noteq> GS_JOB_RUNNING))
     \<and> (\<forall>v \<in> set (m_windows (mon_manager mon)). \<forall>w \<in> set (m_windows (mon_manager mon)).
          win_dialog_up v \<and> win_dialog_up w \<longrightarrow> win_id v = win_id w)"
proof -
  have ok: "link_ok (mon_manager mon)" "jobs_ok (mon_manager mon)" "dialogs_ok (mon_manager mon)"
    using daemon_okD(1) [OF reachable_daemon_ok [OF assms]] by (simp_all add: manager_ok_def core_ok_def live_ok_def)
  have "i \<in> set (window_ids (mon_manager mon))
          \<and> (m_dialog_up (mon_manager mon) \<or> m_throttled (mon_manager mon) \<longrightarrow> j_status j \<noteq> GS_JOB_RUNNING)"
    if "m_jobs (mon_manager mon) = Some h" "(i, j) \<in> set h" for h i j
    using ok(2) that by (force simp: jobs_ok_def job_rests_def)
  moreover have "m_active (mon_manager mon) \<longleftrightarrow> m_jobs (mon_manager mon) \<noteq> None" using ok(1) by (auto simp: link_ok_def)
  ultimately show ?thesis using dialogs_ok_unique [OF ok(3)] by blast
qed

theorem reachable_jobs_rest_witness:
  "\<exists>l mon. reachable {sample_bus} (l, mon) \<and> m_jobs (mon_manager mon) \<noteq> None"
proof -
  obtain l mon where r: "reachable {sample_bus} (l, mon)" "synced still_locked (l, mon)" using sample_locked by blast
  then have "m_active (mon_manager mon)" by (simp add: synced_def still_locked_def in_step_def)
  then show ?thesis using reachable_jobs_rest [OF r(1)] r(1) by blast
qed

text \<open>
  A step in which nobody who may end the screensaver does so: no message or signal that asks for it,
  and no positive answer of the unlock dialog.
\<close>

definition harmless_step :: "'msg dbus_env set \<Rightarrow> daemon \<Rightarrow> daemon \<Rightarrow> bool" where
  "harmless_step buses ls ls' =
     (\<exists>be e ev. be \<in> buses \<and> env_ok e \<and> daemon_step be e ev ls ls' \<and> \<not> unlocking be ev ls)"

lemma harmless_keeps:
  assumes "harmless_step buses ls ls'" "daemon_ok ls" "synced still_locked ls"
  shows "daemon_ok ls' \<and> synced still_locked ls'"
proof -
  obtain be e ev where "be \<in> buses" and s: "env_ok e" "daemon_ready ev ls" "daemon_react be e ev ls = Inr ls'" "\<not> unlocking be ev ls"
    using assms(1) by (auto simp: harmless_step_def daemon_step_simps)
  then show ?thesis
    using rpostD [OF daemon_react_ok [OF s(1) assms(2) s(2)] s(3)] rpostD [OF locked_step [OF s(1) assms(2,3) s(2,4)] s(3)] by blast
qed

lemma harmless_steps_locked:
  assumes "(harmless_step buses)\<^sup>*\<^sup>* ls ls'" "daemon_ok ls" "synced still_locked ls"
  shows "daemon_ok ls' \<and> synced still_locked ls'"
  using assms by (induction rule: rtranclp_induct) (use harmless_keeps in blast)+

lemma locked_start:
  assumes "reachable buses (l, mon)" "m_active (mon_manager mon)" "m_lock_active (mon_manager mon)"
    and "m_emit_idles (mon_manager mon) = []" "m_deactivated_idles (mon_manager mon) = 0" "no_ok (mon_manager mon)"
  shows "daemon_ok (l, mon)" "synced still_locked (l, mon)"
  using reachable_daemon_ok [OF assms(1)] assms(2-6)
  by (auto simp: daemon_ok_def synced_def still_locked_def in_step_def nothing_pending_def)

lemma still_lockedD: "synced still_locked (l, mon) \<Longrightarrow> m_active (mon_manager mon) \<and> m_lock_active (mon_manager mon)"
  by (simp add: synced_def still_locked_def in_step_def)

text \<open>
  C2: a locked screen with nothing pending stays locked.  From a reachable state in which the screensaver is active and
  locked, no idle source on the way to its end is pending (\<open>pending_end_survives_lock\<close> shows why) and no window
  remembers an earlier positive answer, no sequence of events leads out of the lock, unless one of them is a request to end the
  screensaver (the methods Unlock, Quit and SetActive with FALSE, or the Unlock signal of the session)
  or the unlock dialog answers that the user may get in.  Input of every kind, changing monitors and
  settings, timers, suspend, throttling, crashing dialogs and lost connections are among the events.
\<close>

theorem locked_stays_locked:
  assumes "reachable buses (l, mon)" "m_active (mon_manager mon)" "m_lock_active (mon_manager mon)"
    and "m_emit_idles (mon_manager mon) = []" "m_deactivated_idles (mon_manager mon) = 0" "no_ok (mon_manager mon)"
    and "(harmless_step buses)\<^sup>*\<^sup>* (l, mon) (l', mon')"
  shows "m_active (mon_manager mon') \<and> m_lock_active (mon_manager mon')"
  using harmless_steps_locked [OF assms(7) locked_start [OF assms(1-6)]] still_lockedD by blast

theorem locked_stays_locked_witness:
  "\<exists>l mon l' mon'. reachable {sample_bus} (l, mon) \<and> harmless_step {sample_bus} (l, mon) (l', mon')
     \<and> m_active (mon_manager mon') \<and> m_lock_active (mon_manager mon')"
proof -
  obtain l mon where r: "reachable {sample_bus} (l, mon)" "synced still_locked (l, mon)" using sample_locked by blast
  have p: "m_active (mon_manager mon)" "m_lock_active (mon_manager mon)" "m_emit_idles (mon_manager mon) = []"
    "m_deactivated_idles (mon_manager mon) = 0" "no_ok (mon_manager mon)"
    using r(2) by (auto simp: synced_def still_locked_def in_step_def nothing_pending_def)
  let ?ls = "prefs_key_changed sample_manager_env sample_gsettings KEY_MODE (l, mon)"
  have "daemon_step sample_bus sample_manager_env (Settings_Changed sample_gsettings KEY_MODE) (l, mon) ?ls"
    by (intro dispatch) simp_all
  then have st: "harmless_step {sample_bus} (l, mon) ?ls"
    unfolding harmless_step_def
    by (intro exI [of _ sample_bus] exI [of _ sample_manager_env] exI [of _ "Settings_Changed sample_gsettings KEY_MODE"])
      (simp add: sample_manager_env_ok)
  obtain l' mon' where ls': "?ls = (l', mon')" by (metis prod.exhaust)
  have "(harmless_step {sample_bus})\<^sup>*\<^sup>* (l, mon) (l', mon')" using st ls' by simp
  from locked_stays_locked [OF r(1) p this] show ?thesis using r(1) st ls' by metis
qed

text \<open>
  C5: a request to lock.  When the command lines of the installed themes parse and the administrator has not
  disabled locking, the Lock method always returns and is handled: afterwards the screensaver is active and locked if it was active
  already or the devices could be grabbed; if they could not, the screensaver stays off and the lock
  flag is what it was, so that the request fails without a word to its sender.
\<close>

theorem lock_request_outcome:
  assumes "reachable buses (l, mon)" "execs_parse e" "\<not> p_lock_disabled (mon_prefs mon)"
    and "msg_is_method_call be x GS_LISTENER_SERVICE ''Lock''"
  shows "\<exists>l' mon'. listener_dbus_handle_session_message be (connect_listener_signals be e) x (l, mon) = Inr (HANDLED, l', mon')
     \<and> m_active (mon_manager mon') = (m_active (mon_manager mon) \<or> can_grab e (mon_manager mon))
     \<and> (if m_active (mon_manager mon') then m_lock_active (mon_manager mon')
        else m_lock_active (mon_manager mon') = m_lock_active (mon_manager mon))"
proof -
  obtain l' mon' where r: "gs_monitor_lock_screen be e (l, mon) = Inr (l', mon')"
    "m_active (mon_manager mon') = (m_active (mon_manager mon) \<or> can_grab e (mon_manager mon))"
    "if m_active (mon_manager mon') then m_lock_active (mon_manager mon') else m_lock_active (mon_manager mon') = m_lock_active (mon_manager mon)"
    using lock_screen_returns [OF reachable_daemon_ok [OF assms(1)] assms(2), of be] by blast
  then have "listener_dbus_handle_session_message be (connect_listener_signals be e) x (l, mon) = Inr (HANDLED, l', mon')"
    using assms(3,4) by (simp add: listener_dbus_handle_session_message_def handled_def connect_listener_signals_def listener_lock_cb_def)
  then show ?thesis using r(2,3) by blast
qed

theorem lock_request_outcome_witness:
  "\<exists>l mon l' mon'. reachable {sample_bus} (l, mon) \<and> \<not> m_active (mon_manager mon)
     \<and> listener_dbus_handle_session_message sample_bus (connect_listener_signals sample_bus sample_manager_env) ''Lock'' (l, mon)
         = Inr (HANDLED, l', mon')
     \<and> m_active (mon_manager mon') \<and> m_lock_active (mon_manager mon')"
proof -
  obtain l mon where r: "reachable {sample_bus} (l, mon)" "\<not> p_lock_disabled (mon_prefs mon)" "\<not> m_active (mon_manager mon)"
    using sample_started by blast
  have "msg_is_method_call sample_bus ''Lock'' GS_LISTENER_SERVICE ''Lock''" by (simp add: sample_bus_def)
  from lock_request_outcome [OF r(1) sample_execs_parse r(2) this] show ?thesis using r sample_can_grab by fastforce
qed


definition sample_daemon :: "gs_manager \<Rightarrow> daemon" where
  "sample_daemon m =
     (sample_listener\<lparr>l_active := True\<rparr>,
      \<lparr>mon_watcher = \<lparr>w_enabled = True, w_delta_notice_timeout = 10000, w_active = False, w_idle = False, w_idle_notice = False,
         w_idle_id = None, w_status_message = None, w_presence_proxy = True, w_watchdog_timer_id = None\<rparr>,
       mon_manager = m, mon_prefs = gs_prefs_init (sample_pref_settings False), mon_release_grab_id = None, mon_quit = False\<rparr>)"

lemma sample_daemon_ok:
  assumes "manager_ok m" "m_active m" "\<not> m_throttled m" "f_callbacks (m_fade m) = []"
  shows "daemon_ok (sample_daemon m)"
  using assms by (simp add: daemon_ok_def synced_def in_step_def mon_ok_def sample_daemon_def sample_listener_def listener_ok_def
      entries_ok_def throttle_ok_def listener_ref_entry_is_present_def hash_defs gh_size_def)


text \<open>
  C17: a pending end of the screensaver survives a request to lock.  Activity on an unlocked
  screensaver queues an idle source that ends it.  If a request to lock is handled before the source
  runs, the screen is locked, but the source stays and ends the screensaver all the same, without a
  password.
\<close>

theorem pending_end_survives_lock:
  assumes "daemon_ok (l, mon)" "m_active (mon_manager mon)" "0 < m_deactivated_idles (mon_manager mon)"
    and "gs_monitor_lock_screen be e (l, mon) = Inr (l1, mon1)"
    and "daemon_react be' e' Deactivated_Idle (l1, mon1) = Inr (l2, mon2)"
  shows "m_active (mon_manager mon1) \<and> m_lock_active (mon_manager mon1) \<and> daemon_ready Deactivated_Idle (l1, mon1)
     \<and> \<not> m_active (mon_manager mon2)"
proof -
  have s: "synced in_step (l, mon)" using assms(1) by (simp add: daemon_ok_def)
  have one: "synced in_step (l1, mon1)" "m_active (mon_manager mon1)" "m_lock_active (mon_manager mon1)"
      "m_deactivated_idles (mon_manager mon1) = m_deactivated_idles (mon_manager mon)"
    using rpostD [OF lock_screen_post [OF s] assms(4)] assms(2) by (simp_all cong: if_cong split: if_split_asm)
  have "ls_ok mon_ok (l, mon)" using assms(1) by (simp add: daemon_ok_alt)
  from rpostD [OF lock_screen_ls [OF this] assms(4)] have ok1: "daemon_ok (l1, mon1)" using one(1) by (simp add: daemon_ok_alt)
  let ?mon = "mon1\<lparr>mon_manager := take_idle (mon_manager mon1)\<rparr>"
  have "manager_ok (take_idle (mon_manager mon1))"
    unfolding take_idle_def by (rule relabel_id [OF daemon_okD(1) [OF ok1]]) (simp_all add: relabel_simps)
  then have d: "daemon_ok (l1, ?mon)"
    by (rule daemon_ok_manager [OF ok1]) (use daemon_okD [OF ok1] in \<open>simp_all add: take_idle_def\<close>)
  obtain r where r: "gs_listener_set_active be' (listener_active_changed_cb e') False (l1, ?mon) = Inr (r, l2, mon2)"
    using assms(5) by (auto simp: manager_deactivated_cb_def res_simps)
  have "\<not> m_active (mon_manager mon2)"
    using set_inactive_ends [OF d _ r] one(2) by (simp add: at_rest_def take_idle_def)
  then show ?thesis using one assms(3) by simp
qed

text \<open>Two unlocked windows, and the idle source of an activity on one of them.\<close>

definition sample_pending_manager :: gs_manager where
  "sample_pending_manager =
     sample_active_manager\<lparr>m_lock_active := False, m_deactivated_idles := 1,
       m_windows := [(gs_window_new 1 1 False)\<lparr>win_visible := True\<rparr>, (gs_window_new 2 2 False)\<lparr>win_visible := True\<rparr>]\<rparr>"

lemma sample_pending_ok: "manager_ok sample_pending_manager"
proof -
  have "dialogs_ok sample_pending_manager" by (rule dialogs_okI) (auto simp: sample_pending_manager_def sample_manager_defs)
  then show ?thesis by (auto simp: manager_ok_defs sample_manager_defs sample_pending_manager_def)
qed

theorem pending_end_survives_lock_witness:
  "\<exists>ls1 ls2. gs_monitor_lock_screen sample_bus sample_manager_env (sample_daemon sample_pending_manager) = Inr ls1
     \<and> m_lock_active (mon_manager (snd ls1))
     \<and> daemon_react sample_bus sample_manager_env Deactivated_Idle ls1 = Inr ls2 \<and> \<not> m_active (mon_manager (snd ls2))"
proof -
  obtain l mon where d: "sample_daemon sample_pending_manager = (l, mon)" by (metis prod.exhaust)
  have ok: "daemon_ok (l, mon)" "mon_manager mon = sample_pending_manager"
    using sample_daemon_ok [OF sample_pending_ok] d by (auto simp: sample_daemon_def sample_pending_manager_def sample_manager_defs)
  have a: "m_active (mon_manager mon)" "0 < m_deactivated_idles (mon_manager mon)"
    by (simp_all add: ok(2) sample_pending_manager_def sample_manager_defs)
  let ?m = "gs_manager_set_lock_active True sample_pending_manager"
  let ?mon1 = "mon\<lparr>mon_manager := ?m\<rparr>" and ?mon2 = "mon\<lparr>mon_manager := take_idle ?m\<rparr>"
  have lk: "gs_monitor_lock_screen sample_bus sample_manager_env (l, mon) = Inr (l, ?mon1)"
    using a ok(2) by (simp add: gs_monitor_lock_screen_def Let_def gs_manager_get_active_def)
  have "manager_ok ?m" by (rule set_lock_active_ok [OF sample_pending_ok])
  then have "manager_ok (take_idle ?m)" unfolding take_idle_def by (rule relabel_id) (simp_all add: relabel_simps)
  then have d2: "daemon_ok (l, ?mon2)"
    by (rule daemon_ok_manager [OF ok(1)]) (use daemon_okD [OF ok(1)] ok(2) in \<open>simp_all add: take_idle_def\<close>)
  have "\<exists>m'. gs_manager_deactivate sample_manager_env (take_idle ?m) = Inr (True, m')"
    by (simp add: sample_pending_manager_def sample_manager_defs deactivate_defs take_idle_def gs_manager_set_lock_active_def)
  then obtain m' where m': "gs_manager_deactivate sample_manager_env (take_idle ?m) = Inr (True, m')" by blast
  then have "\<exists>ls2. daemon_react sample_bus sample_manager_env Deactivated_Idle (l, ?mon1) = Inr ls2"
    using set_inactive_eq [OF d2, of sample_bus sample_manager_env] a ok(2) by (simp add: manager_deactivated_cb_def take_idle_def)
  then obtain l2 mon2 where r: "daemon_react sample_bus sample_manager_env Deactivated_Idle (l, ?mon1) = Inr (l2, mon2)"
    by (metis prod.exhaust)
  from pending_end_survives_lock [OF ok(1) a lk r] show ?thesis using lk r d by auto
qed

end
