(* ===== verification/GS_Lock_Plug.thy ===== *)
theory GS_Lock_Plug
  imports Prelude
begin

unbundle bit_operations_syntax

text \<open>
  \<open>src/gs-lock-plug.c\<close>: the widget of the unlock dialog, with the entry for the password, its
  buttons, its timers, the keys that were typed before the entry was ready, and the inner main loop
  that waits for an answer.  GTK, the theme files, the clock and the display manager are parameters.
  What the main loop delivers to the widget is a list of events; when the list is used up, only the
  timers of the widget are left.  The theorems: a prompt never waits for ever; an answer is what was
  typed, and only the unlock button gives one; nothing of it stays behind in the entry; and the
  expansion of label texts.
\<close>

section \<open>The widget\<close>

datatype plug_response =
    GTK_RESPONSE_NONE
  | GTK_RESPONSE_DELETE_EVENT
  | GS_LOCK_PLUG_RESPONSE_OK
  | GS_LOCK_PLUG_RESPONSE_CANCEL

datatype plug_button = Unlock_Button | Cancel_Button

datatype plug_page = AUTH_PAGE | NOTE_PAGE

datatype plug_cursor = GDK_WATCH | GDK_LEFT_PTR

text \<open>The text of the prompt label, and the widgets that a theme may leave out.\<close>

record plug_theme =
  th_prompt :: string
  th_face_image :: bool
  th_capslock_label :: bool
  th_message_label :: bool
  th_status_message_label :: bool
  th_switch_button :: bool
  th_logout_button :: bool
  th_note_button :: bool

text \<open>
  An identifier of a timer that is not 0 is \<open>True\<close>.  That of the cancel timer stays set when the timer
  has run out, so that whether the source exists is kept apart from it (\<open>lp_cancel_source\<close>).
\<close>

record lock_plug =
  lp_theme :: plug_theme
  lp_visible :: bool
  lp_entry_text :: string
  lp_entry_visibility :: bool
  lp_entry_shown :: bool
  lp_entry_sensitive :: bool
  lp_action_sensitive :: bool
  lp_unlock_sensitive :: bool
  lp_default :: plug_button
  lp_prompt :: string
  lp_message :: string
  lp_capslock_text :: string
  lp_time_text :: string
  lp_date_text :: string
  lp_cursor :: plug_cursor
  lp_page :: plug_page
  lp_note_text :: string
  lp_note_ok_sensitive :: bool
  lp_switch_shown :: bool
  lp_logout_shown :: bool
  lp_note_shown :: bool
  lp_status_shown :: bool
  lp_status_text :: string
  lp_caps_lock_on :: bool
  lp_switch_enabled :: bool
  lp_leave_note_enabled :: bool
  lp_logout_enabled :: bool
  lp_logout_command :: "string option"
  lp_status_message :: "string option"
  lp_timeout :: nat
  lp_datetime_timeout_id :: bool
  lp_cancel_timeout_id :: bool
  lp_cancel_source :: bool
  lp_response_idle_id :: bool
  lp_key_events :: "string list"
  lp_face :: bool
  lp_clipboard :: string
  lp_spawned :: "string list"
  lp_notes :: "string list"

text \<open>
  A key is the text its event carries.  \<open>pl_edit\<close> is what the entry makes of a key,
  \<open>pl_from_utf8\<close> the conversion to the locale, \<open>pl_running\<close> the answer of \<open>pidof\<close> (\<open>process_is_running\<close>), \<open>pl_seat\<close> the
  variable \<open>XDG_SEAT_PATH\<close>, \<open>pl_parse_argv\<close> whether a command line parses.
\<close>

record file_stat =
  st_mode :: "32 word"
  st_uid :: "32 word"
  st_size :: int

record plug_env =
  pl_edit :: "string \<Rightarrow> string \<Rightarrow> string"
  pl_from_utf8 :: "string \<Rightarrow> string option"
  pl_caps_lock :: bool
  pl_running :: "string \<Rightarrow> bool"
  pl_seat :: "string option"
  pl_seat_proxy :: bool
  pl_parse_argv :: "string \<Rightarrow> bool"
  pl_markup_escape :: "string \<Rightarrow> string"
  pl_have_libnotify :: bool
  pl_time_format :: string
  pl_date_format :: string
  pl_format_now :: "string \<Rightarrow> string option"
  pl_builderdir :: string
  pl_theme_name :: "string option"
  pl_is_regular :: "string \<Rightarrow> bool"
  pl_builder :: "string \<Rightarrow> plug_theme option"
  pl_uid :: "32 word"
  pl_stat_face :: "file_stat option"
  pl_face_loads :: bool

section \<open>Labels, timers and the answer\<close>

definition set_plug_status_text :: "string \<Rightarrow> lock_plug \<Rightarrow> lock_plug" where
  "set_plug_status_text text p = (if th_message_label (lp_theme p) then p\<lparr>lp_message := text\<rparr> else p)"

text \<open>The conversion \<open>%s\<close> of a text that could not be formatted.\<close>

definition or_null :: "string option \<Rightarrow> string" where
  "or_null s = (case s of None \<Rightarrow> ''(null)'' | Some t \<Rightarrow> t)"

definition date_time_update :: "plug_env \<Rightarrow> lock_plug \<Rightarrow> lock_plug" where
  "date_time_update e p =
     (let time = pl_format_now e (if pl_time_format e = ''locale'' then ''%X'' else pl_time_format e);
          date = pl_format_now e (if pl_date_format e = ''locale'' then ''%A, %B %e'' else pl_date_format e) in
      p\<lparr>lp_time_text := ''<span size='' @ [CHR 0x22] @ ''xx-large'' @ [CHR 0x22] @ '' weight='' @ [CHR 0x22] @ ''ultrabold''
           @ [CHR 0x22] @ ''>'' @ or_null time @ ''</span>'',
        lp_date_text := ''<span size='' @ [CHR 0x22] @ ''large'' @ [CHR 0x22] @ ''>'' @ or_null date @ ''</span>''\<rparr>)"

definition gs_lock_plug_set_sensitive :: "bool \<Rightarrow> lock_plug \<Rightarrow> lock_plug" where
  "gs_lock_plug_set_sensitive sensitive p = p\<lparr>lp_entry_sensitive := sensitive, lp_action_sensitive := sensitive\<rparr>"

definition remove_datetime_timeout :: "lock_plug \<Rightarrow> lock_plug" where
  "remove_datetime_timeout p = (if lp_datetime_timeout_id p then p\<lparr>lp_datetime_timeout_id := False\<rparr> else p)"

definition remove_cancel_timeout :: "lock_plug \<Rightarrow> lock_plug" where
  "remove_cancel_timeout p =
     (if lp_cancel_timeout_id p then p\<lparr>lp_cancel_timeout_id := False, lp_cancel_source := False\<rparr> else p)"

definition remove_response_idle :: "lock_plug \<Rightarrow> lock_plug" where
  "remove_response_idle p = (if lp_response_idle_id p then p\<lparr>lp_response_idle_id := False\<rparr> else p)"

text \<open>The answers whose signal is emitted are returned.\<close>

definition gs_lock_plug_response :: "plug_response \<Rightarrow> lock_plug \<Rightarrow> lock_plug \<times> plug_response list" where
  "gs_lock_plug_response response_id p =
     (if \<not> (response_id = GS_LOCK_PLUG_RESPONSE_OK \<or> response_id = GS_LOCK_PLUG_RESPONSE_CANCEL) then (p, [])
      else
        (let p = remove_response_idle (remove_cancel_timeout p);
             p = (if response_id = GS_LOCK_PLUG_RESPONSE_CANCEL then p\<lparr>lp_entry_text := []\<rparr> else p) in
         (p, [response_id])))"

definition response_cancel_idle_cb :: "lock_plug \<Rightarrow> lock_plug \<times> plug_response list" where
  "response_cancel_idle_cb p = gs_lock_plug_response GS_LOCK_PLUG_RESPONSE_CANCEL (p\<lparr>lp_response_idle_id := False\<rparr>)"

text \<open>The source of the cancel timer ends here; its identifier is not reset.\<close>

definition dialog_timed_out :: "lock_plug \<Rightarrow> lock_plug" where
  "dialog_timed_out p =
     (let p = gs_lock_plug_set_sensitive False p;
          p = set_plug_status_text ''Time has expired.'' p;
          p = remove_response_idle p in
      p\<lparr>lp_response_idle_id := True, lp_cancel_source := False\<rparr>)"

definition capslock_update :: "bool \<Rightarrow> lock_plug \<Rightarrow> lock_plug" where
  "capslock_update is_on p =
     (let p = p\<lparr>lp_caps_lock_on := is_on\<rparr> in
      if \<not> th_capslock_label (lp_theme p) then p
      else p\<lparr>lp_capslock_text := (if is_on then ''You have the Caps Lock key on.'' else [])\<rparr>)"

definition restart_cancel_timeout :: "lock_plug \<Rightarrow> lock_plug" where
  "restart_cancel_timeout p = (remove_cancel_timeout p)\<lparr>lp_cancel_timeout_id := True, lp_cancel_source := True\<rparr>"

text \<open>The text of the entry in the encoding of the locale; the entry is overwritten and emptied.\<close>

definition gs_lock_plug_get_text :: "plug_env \<Rightarrow> lock_plug \<Rightarrow> string option \<times> lock_plug" where
  "gs_lock_plug_get_text e p =
     (let typed_text = lp_entry_text p;
          local_text = pl_from_utf8 e typed_text;
          p = p\<lparr>lp_entry_text := replicate (length typed_text + 1) (CHR 0x08)\<rparr> in
      (local_text, p\<lparr>lp_entry_text := []\<rparr>))"

section \<open>Showing the widget and its prompt\<close>

text \<open>
  The bits of a file's mode.  \<open>G_MAXSIZE\<close> does not fit into the signed type of the size limit and
  becomes -1 there.
\<close>

definition S_IFMT :: "32 word" where "S_IFMT = 61440"
definition S_IFREG :: "32 word" where "S_IFREG = 32768"
definition S_IWGRP :: "32 word" where "S_IWGRP = 16"
definition S_IWOTH :: "32 word" where "S_IWOTH = 2"

definition check_user_file :: "file_stat option \<Rightarrow> 32 word \<Rightarrow> int \<Rightarrow> bool \<Rightarrow> bool \<Rightarrow> bool" where
  "check_user_file fileinfo user max_file_size relax_group relax_other =
     (let max_file_size = (if max_file_size < 0 then - 1 else max_file_size) in
      case fileinfo of
        None \<Rightarrow> False
      | Some st \<Rightarrow>
          if st_mode st AND S_IFMT \<noteq> S_IFREG then False
          else if st_uid st \<noteq> user then False
          else if st_mode st AND S_IWGRP = S_IWGRP \<and> \<not> relax_group then False
          else if st_mode st AND S_IWOTH = S_IWOTH \<and> \<not> relax_other then False
          else if st_size st > max_file_size then False
          else True)"

definition set_face_image :: "plug_env \<Rightarrow> lock_plug \<Rightarrow> bool \<times> lock_plug" where
  "set_face_image e p =
     (if check_user_file (pl_stat_face e) (pl_uid e) 1048576 False False \<and> pl_face_loads e
      then (True, p\<lparr>lp_face := True\<rparr>) else (False, p))"

definition gs_lock_plug_show :: "plug_env \<Rightarrow> lock_plug \<Rightarrow> lock_plug" where
  "gs_lock_plug_show e p =
     (let p = p\<lparr>lp_visible := True\<rparr>;
          p = (if th_face_image (lp_theme p) then snd (set_face_image e p) else p) in
      restart_cancel_timeout (capslock_update (pl_caps_lock e) p))"

definition gs_lock_plug_hide :: "lock_plug \<Rightarrow> lock_plug" where
  "gs_lock_plug_hide p = p\<lparr>lp_visible := False\<rparr>"

definition plug_queue_key_event :: "string \<Rightarrow> lock_plug \<Rightarrow> lock_plug" where
  "plug_queue_key_event key p = p\<lparr>lp_key_events := key # lp_key_events p\<rparr>"

definition propagate_key :: "plug_env \<Rightarrow> string \<Rightarrow> lock_plug \<Rightarrow> lock_plug" where
  "propagate_key e key p =
     (if lp_entry_sensitive p then p\<lparr>lp_entry_text := pl_edit e key (lp_entry_text p)\<rparr> else p)"

definition plug_forward_key_events :: "plug_env \<Rightarrow> lock_plug \<Rightarrow> lock_plug" where
  "plug_forward_key_events e p =
     (foldl (\<lambda>p key. propagate_key e key p) p (rev (lp_key_events p)))\<lparr>lp_key_events := []\<rparr>"

definition gs_lock_plug_set_busy :: "lock_plug \<Rightarrow> lock_plug" where
  "gs_lock_plug_set_busy p = p\<lparr>lp_cursor := GDK_WATCH\<rparr>"

definition gs_lock_plug_set_ready :: "lock_plug \<Rightarrow> lock_plug" where
  "gs_lock_plug_set_ready p = p\<lparr>lp_cursor := GDK_LEFT_PTR\<rparr>"

definition gs_lock_plug_enable_prompt :: "plug_env \<Rightarrow> string \<Rightarrow> bool \<Rightarrow> lock_plug \<Rightarrow> lock_plug" where
  "gs_lock_plug_enable_prompt e message visible p =
     (let p = p\<lparr>lp_unlock_sensitive := True, lp_default := Unlock_Button, lp_prompt := message,
               lp_entry_visibility := visible, lp_entry_sensitive := True, lp_entry_shown := True\<rparr>;
          p = plug_forward_key_events e p in
      restart_cancel_timeout p)"

definition gs_lock_plug_disable_prompt :: "lock_plug \<Rightarrow> lock_plug" where
  "gs_lock_plug_disable_prompt p =
     p\<lparr>lp_unlock_sensitive := False, lp_entry_sensitive := False, lp_default := Cancel_Button\<rparr>"

definition gs_lock_plug_show_message :: "string option \<Rightarrow> lock_plug \<Rightarrow> lock_plug" where
  "gs_lock_plug_show_message message p = set_plug_status_text (case message of None \<Rightarrow> [] | Some m \<Rightarrow> m) p"

text \<open>The key is consumed (\<open>True\<close>) when it is kept for later.\<close>

definition entry_key_press :: "string \<Rightarrow> lock_plug \<Rightarrow> bool \<times> lock_plug" where
  "entry_key_press key p =
     (let p = restart_cancel_timeout p in
      if lp_entry_shown p \<and> lp_entry_sensitive p then (False, p)
      else if key = [] then (False, p)
      else (True, plug_queue_key_event key p))"

text \<open>The right button is consumed, so that the entry shows no menu.\<close>

definition entry_button_press :: "nat \<Rightarrow> bool \<Rightarrow> bool" where
  "entry_button_press button is_press = (button = 3 \<and> is_press)"

definition entry_icon_clicked :: "bool \<Rightarrow> bool \<Rightarrow> string \<Rightarrow> lock_plug \<Rightarrow> string \<times> lock_plug" where
  "entry_icon_clicked secondary double_press icon p =
     (if secondary \<and> double_press then
        (if icon \<noteq> ''emblem-readonly'' then (''emblem-readonly'', p\<lparr>lp_entry_visibility := False\<rparr>)
         else (''emblem-unreadable'', p\<lparr>lp_entry_visibility := True\<rparr>))
      else (icon, p))"

section \<open>Settings of the widget\<close>

definition gs_lock_plug_set_logout_enabled :: "bool \<Rightarrow> lock_plug \<Rightarrow> lock_plug" where
  "gs_lock_plug_set_logout_enabled logout_enabled p =
     (if lp_logout_enabled p = logout_enabled then p
      else
        (let p = p\<lparr>lp_logout_enabled := logout_enabled\<rparr> in
         if \<not> th_logout_button (lp_theme p) then p else p\<lparr>lp_logout_shown := logout_enabled\<rparr>))"

definition gs_lock_plug_set_logout_command :: "string option \<Rightarrow> lock_plug \<Rightarrow> lock_plug" where
  "gs_lock_plug_set_logout_command command p = p\<lparr>lp_logout_command := command\<rparr>"

definition gs_lock_plug_set_status_message :: "string option \<Rightarrow> lock_plug \<Rightarrow> lock_plug" where
  "gs_lock_plug_set_status_message status_message p =
     (let p = p\<lparr>lp_status_message := status_message\<rparr> in
      if th_status_message_label (lp_theme p) then
        (case lp_status_message p of
           Some m \<Rightarrow> p\<lparr>lp_status_text := m, lp_status_shown := True\<rparr>
         | None \<Rightarrow> p\<lparr>lp_status_shown := False\<rparr>)
      else p)"

definition gdm_is_running :: "plug_env \<Rightarrow> bool" where
  "gdm_is_running e = (pl_running e ''gdm'' \<or> pl_running e ''gdm3'' \<or> pl_running e ''gdm-binary'')"

definition gs_lock_plug_set_switch_enabled :: "plug_env \<Rightarrow> bool \<Rightarrow> lock_plug \<Rightarrow> lock_plug" where
  "gs_lock_plug_set_switch_enabled e switch_enabled p =
     (if lp_switch_enabled p = switch_enabled then p
      else
        (let p = p\<lparr>lp_switch_enabled := switch_enabled\<rparr> in
         if \<not> th_switch_button (lp_theme p) then p
         else if switch_enabled then
           (if pl_running e ''mdm'' then p\<lparr>lp_switch_shown := True\<rparr>
            else if gdm_is_running e then p\<lparr>lp_switch_shown := True\<rparr>
            else if pl_seat e \<noteq> None then p\<lparr>lp_switch_shown := True\<rparr>
            else p\<lparr>lp_switch_shown := False\<rparr>)
         else p\<lparr>lp_switch_shown := False\<rparr>))"

definition do_user_switch :: "plug_env \<Rightarrow> lock_plug \<Rightarrow> lock_plug" where
  "do_user_switch e p =
     (if pl_running e ''mdm'' then p\<lparr>lp_spawned := lp_spawned p @ [''mdmflexiserver --startnew Standard'']\<rparr>
      else if gdm_is_running e then p\<lparr>lp_spawned := lp_spawned p @ [''gdmflexiserver --startnew Standard'']\<rparr>
      else if pl_seat e \<noteq> None \<and> pl_seat_proxy e then p\<lparr>lp_spawned := lp_spawned p @ [''SwitchToGreeter'']\<rparr>
      else p)"

section \<open>Buttons\<close>

definition clear_clipboards :: "lock_plug \<Rightarrow> lock_plug" where
  "clear_clipboards p = p\<lparr>lp_clipboard := []\<rparr>"

definition NOTE_BUFFER_MAX_CHARS :: nat where "NOTE_BUFFER_MAX_CHARS = 160"

definition on_note_text_buffer_changed :: "string \<Rightarrow> lock_plug \<Rightarrow> lock_plug" where
  "on_note_text_buffer_changed text p =
     p\<lparr>lp_note_text := text, lp_note_ok_sensitive := (length text \<le> NOTE_BUFFER_MAX_CHARS)\<rparr>"

definition take_note :: "lock_plug \<Rightarrow> lock_plug" where
  "take_note p = restart_cancel_timeout (p\<lparr>lp_page := NOTE_PAGE\<rparr>)"

definition submit_note :: "plug_env \<Rightarrow> lock_plug \<Rightarrow> lock_plug \<times> plug_response list" where
  "submit_note e p =
     (if pl_have_libnotify e then
        (let text = lp_note_text p;
             p = on_note_text_buffer_changed [] (p\<lparr>lp_page := AUTH_PAGE\<rparr>);
             p = p\<lparr>lp_notes := lp_notes p @ [pl_markup_escape e text]\<rparr> in
         gs_lock_plug_response GS_LOCK_PLUG_RESPONSE_CANCEL p)
      else (p, []))"

definition cancel_note :: "lock_plug \<Rightarrow> lock_plug" where
  "cancel_note p =
     (let p = on_note_text_buffer_changed [] (p\<lparr>lp_page := AUTH_PAGE\<rparr>);
          p = restart_cancel_timeout p in
      clear_clipboards (p\<lparr>lp_default := Unlock_Button\<rparr>))"

definition logout_button_clicked :: "plug_env \<Rightarrow> lock_plug \<Rightarrow> lock_plug" where
  "logout_button_clicked e p =
     (case lp_logout_command p of
        None \<Rightarrow> p
      | Some command \<Rightarrow>
          if \<not> pl_parse_argv e command then p else p\<lparr>lp_spawned := lp_spawned p @ [command]\<rparr>)"

definition unlock_button_clicked :: "lock_plug \<Rightarrow> lock_plug \<times> plug_response list" where
  "unlock_button_clicked p = gs_lock_plug_response GS_LOCK_PLUG_RESPONSE_OK p"

definition cancel_button_clicked :: "lock_plug \<Rightarrow> lock_plug \<times> plug_response list" where
  "cancel_button_clicked p = gs_lock_plug_response GS_LOCK_PLUG_RESPONSE_CANCEL p"

definition switch_user_button_clicked :: "plug_env \<Rightarrow> lock_plug \<Rightarrow> lock_plug" where
  "switch_user_button_clicked e p =
     (let p = remove_response_idle p;
          p = gs_lock_plug_set_sensitive False p;
          p = p\<lparr>lp_response_idle_id := True\<rparr> in
      do_user_switch e (gs_lock_plug_set_busy p))"

definition delete_handler :: "lock_plug \<Rightarrow> lock_plug \<times> plug_response list" where
  "delete_handler p = gs_lock_plug_response GS_LOCK_PLUG_RESPONSE_CANCEL p"

text \<open>The escape key: a synthesised delete event.\<close>

definition gs_lock_plug_close :: "lock_plug \<Rightarrow> lock_plug \<times> plug_response list" where
  "gs_lock_plug_close p = delete_handler p"

section \<open>Creating the widget\<close>

definition load_theme :: "plug_env \<Rightarrow> plug_theme option" where
  "load_theme e =
     (case pl_theme_name e of
        None \<Rightarrow> None
      | Some theme \<Rightarrow>
          (let gtkbuilder = pl_builderdir e @ ''/lock-dialog-'' @ theme @ ''.ui'' in
           if \<not> pl_is_regular e gtkbuilder then None else pl_builder e gtkbuilder))"

text \<open>Page one of the notebook that is built without a theme.\<close>

definition create_page_one :: plug_theme where
  "create_page_one =
     \<lparr>th_prompt = ''_Password:'', th_face_image = True, th_capslock_label = True, th_message_label = True, th_status_message_label = False,
      th_switch_button = True, th_logout_button = True, th_note_button = False\<rparr>"

definition gs_lock_plug_new :: "plug_env \<Rightarrow> lock_plug" where
  "gs_lock_plug_new e =
     (let theme = (case load_theme e of Some t \<Rightarrow> t | None \<Rightarrow> create_page_one) in
      date_time_update e
        \<lparr>lp_theme = theme, lp_visible = False, lp_entry_text = [], lp_entry_visibility = False, lp_entry_shown = True,
         lp_entry_sensitive = True, lp_action_sensitive = True, lp_unlock_sensitive = True, lp_default = Unlock_Button,
         lp_prompt = th_prompt theme, lp_message = [], lp_capslock_text = [], lp_time_text = [], lp_date_text = [],
         lp_cursor = GDK_LEFT_PTR, lp_page = AUTH_PAGE, lp_note_text = [], lp_note_ok_sensitive = True,
         lp_switch_shown = False, lp_logout_shown = False, lp_note_shown = (th_note_button theme \<and> pl_have_libnotify e),
         lp_status_shown = False, lp_status_text = [], lp_caps_lock_on = False, lp_switch_enabled = False,
         lp_leave_note_enabled = pl_have_libnotify e, lp_logout_enabled = False, lp_logout_command = None,
         lp_status_message = None, lp_timeout = 60000, lp_datetime_timeout_id = True, lp_cancel_timeout_id = False,
         lp_cancel_source = False, lp_response_idle_id = False, lp_key_events = [], lp_face = False, lp_clipboard = [],
         lp_spawned = [], lp_notes = []\<rparr>)"

definition gs_lock_plug_finalize :: "lock_plug \<Rightarrow> lock_plug" where
  "gs_lock_plug_finalize p =
     remove_datetime_timeout (remove_cancel_timeout (remove_response_idle (p\<lparr>lp_logout_command := None\<rparr>)))"

section \<open>The main loop and the inner loop\<close>

text \<open>The timer with which the dialog resets the widget after a failed attempt (\<open>mate-screensaver-dialog.c\<close>).\<close>

definition reset_idle_cb :: "lock_plug \<Rightarrow> lock_plug" where
  "reset_idle_cb p = gs_lock_plug_show_message None (gs_lock_plug_set_sensitive True p)"

text \<open>
  What the main loop can deliver to the widget, and when: a button reacts only if it is sensitive.  A
  key that activates a button or closes the dialog is an event of its own.
\<close>

datatype plug_event =
    Key_Press string
  | Unlock_Clicked
  | Cancel_Clicked
  | Switch_Clicked
  | Logout_Clicked
  | Note_Clicked
  | Note_Changed string
  | Note_Ok
  | Note_Cancel
  | Delete_Event
  | Escape_Pressed
  | Caps_Changed bool
  | Cancel_Timer
  | Response_Timer
  | Clock_Tick
  | Reset_Timer
  | Unmapped

definition plug_ready :: "plug_event \<Rightarrow> lock_plug \<Rightarrow> bool" where
  "plug_ready ev p =
     (case ev of
        Unlock_Clicked \<Rightarrow> lp_action_sensitive p \<and> lp_unlock_sensitive p
      | Cancel_Clicked \<Rightarrow> lp_action_sensitive p
      | Switch_Clicked \<Rightarrow> lp_action_sensitive p \<and> lp_switch_shown p
      | Logout_Clicked \<Rightarrow> lp_action_sensitive p \<and> lp_logout_shown p
      | Note_Clicked \<Rightarrow> lp_action_sensitive p \<and> lp_note_shown p
      | Note_Changed t \<Rightarrow> lp_page p = NOTE_PAGE
      | Note_Ok \<Rightarrow> lp_page p = NOTE_PAGE \<and> lp_note_ok_sensitive p
      | Note_Cancel \<Rightarrow> lp_page p = NOTE_PAGE
      | Cancel_Timer \<Rightarrow> lp_cancel_source p
      | Response_Timer \<Rightarrow> lp_response_idle_id p
      | Clock_Tick \<Rightarrow> lp_datetime_timeout_id p
      | _ \<Rightarrow> True)"

definition plug_react :: "plug_env \<Rightarrow> plug_event \<Rightarrow> lock_plug \<Rightarrow> lock_plug \<times> plug_response list" where
  "plug_react e ev p =
     (case ev of
        Key_Press key \<Rightarrow> (let (consumed, p) = entry_key_press key p in (if consumed then p else propagate_key e key p, []))
      | Unlock_Clicked \<Rightarrow> unlock_button_clicked p
      | Cancel_Clicked \<Rightarrow> cancel_button_clicked p
      | Switch_Clicked \<Rightarrow> (switch_user_button_clicked e p, [])
      | Logout_Clicked \<Rightarrow> (logout_button_clicked e p, [])
      | Note_Clicked \<Rightarrow> (take_note p, [])
      | Note_Changed text \<Rightarrow> (on_note_text_buffer_changed text p, [])
      | Note_Ok \<Rightarrow> submit_note e p
      | Note_Cancel \<Rightarrow> (cancel_note p, [])
      | Delete_Event \<Rightarrow> delete_handler p
      | Escape_Pressed \<Rightarrow> (let (consumed, p) = entry_key_press [CHR 0x1B] p in if consumed then (p, []) else gs_lock_plug_close p)
      | Caps_Changed on \<Rightarrow> (capslock_update on p, [])
      | Cancel_Timer \<Rightarrow> (dialog_timed_out p, [])
      | Response_Timer \<Rightarrow> response_cancel_idle_cb p
      | Clock_Tick \<Rightarrow> (date_time_update e p, [])
      | Reset_Timer \<Rightarrow> (reset_idle_cb p, [])
      | Unmapped \<Rightarrow> (gs_lock_plug_hide p, []))"

definition plug_dispatch :: "plug_env \<Rightarrow> plug_event \<Rightarrow> lock_plug \<Rightarrow> lock_plug \<times> plug_response list" where
  "plug_dispatch e ev p = (if plug_ready ev p then plug_react e ev p else (p, []))"

text \<open>
  The loop of \<open>gs_lock_plug_run\<close>: \<open>run_response_handler\<close> stores the answer and ends it,
  \<open>run_unmap_handler\<close> ends it without one.  When no event is left the timers of the widget run out, and without a
  timer the loop never ends.  The events behind the one that ended it are returned.
\<close>

fun run_loop :: "plug_env \<Rightarrow> plug_event list \<Rightarrow> lock_plug \<Rightarrow> (plug_response \<times> lock_plug \<times> plug_event list) res" where
  "run_loop e [] p =
     (if lp_response_idle_id p then
        (case response_cancel_idle_cb p of
           (p, r # _) \<Rightarrow> ret (r, p, [])
         | (p, []) \<Rightarrow> Inl No_Return)
      else if lp_cancel_source p then
        (case response_cancel_idle_cb (dialog_timed_out p) of
           (p, r # _) \<Rightarrow> ret (r, p, [])
         | (p, []) \<Rightarrow> Inl No_Return)
      else Inl No_Return)"
| "run_loop e (ev # evs) p =
     (case plug_dispatch e ev p of
        (p, r # _) \<Rightarrow> ret (r, p, evs)
      | (p, []) \<Rightarrow> if ev = Unmapped then ret (GTK_RESPONSE_NONE, p, evs) else run_loop e evs p)"

definition gs_lock_plug_run ::
  "plug_env \<Rightarrow> plug_event list \<Rightarrow> lock_plug \<Rightarrow> (plug_response \<times> lock_plug \<times> plug_event list) res" where
  "gs_lock_plug_run e evs p = run_loop e evs (if \<not> lp_visible p then gs_lock_plug_show e p else p)"

section \<open>Texts of labels\<close>

text \<open>
  A text is the list of its characters.  \<open>ex_user\<close> and \<open>ex_real_name\<close> are missing when the
  name cannot be converted, \<open>ex_display\<close> when the variable is not set; nothing is appended then.
\<close>

record expand_env =
  ex_display :: "string option"
  ex_host :: string
  ex_machine :: string
  ex_node :: string
  ex_release :: string
  ex_sysname :: string
  ex_user :: "string option"
  ex_real_name :: "string option"

text \<open>\<open>get_user_display_name\<close> and \<open>get_user_name\<close>: the names before conversion are parameters.\<close>

definition get_user_display_name :: "(string \<Rightarrow> string option) \<Rightarrow> string option \<Rightarrow> string option \<Rightarrow> string option" where
  "get_user_display_name to_utf8 real_name user_name =
     (let name = (case real_name of
                    None \<Rightarrow> user_name
                  | Some n \<Rightarrow> if n = [] \<or> n = ''Unknown'' then user_name else Some n) in
      case name of None \<Rightarrow> None | Some n \<Rightarrow> to_utf8 n)"

definition append_opt :: "string option \<Rightarrow> string" where
  "append_opt s = (case s of None \<Rightarrow> [] | Some t \<Rightarrow> t)"

definition expand_escape :: "expand_env \<Rightarrow> char \<Rightarrow> string" where
  "expand_escape e ch =
     (if ch = CHR ''%'' then ''%''
      else if ch = CHR ''c'' then []
      else if ch = CHR ''d'' then append_opt (ex_display e)
      else if ch = CHR ''h'' then ex_host e
      else if ch = CHR ''m'' then ex_machine e
      else if ch = CHR ''n'' then ex_node e
      else if ch = CHR ''r'' then ex_release e
      else if ch = CHR ''R'' then append_opt (ex_real_name e)
      else if ch = CHR ''s'' then ex_sysname e
      else if ch = CHR ''U'' then append_opt (ex_user e)
      else [])"

fun expand_string :: "expand_env \<Rightarrow> string \<Rightarrow> string" where
  "expand_string e [] = []"
| "expand_string e [ch] = (if ch = CHR 0x5C \<or> ch = CHR ''%'' then [] else [ch])"
| "expand_string e (ch # d # text) =
     (if ch = CHR 0x5C then (if d = CHR ''n'' then CHR 0x0A else d) # expand_string e text
      else if ch = CHR ''%'' then expand_escape e d @ expand_string e text
      else ch # expand_string e (d # text))"

section \<open>A prompt comes to an end\<close>

text \<open>One of the two timers that end a prompt is running.\<close>

definition armed :: "lock_plug \<Rightarrow> bool" where
  "armed p = (lp_cancel_source p \<or> lp_response_idle_id p)"

lemmas timer_defs =
  remove_cancel_timeout_def remove_response_idle_def restart_cancel_timeout_def gs_lock_plug_response_def
  response_cancel_idle_cb_def dialog_timed_out_def gs_lock_plug_set_sensitive_def set_plug_status_text_def

lemmas button_defs =
  unlock_button_clicked_def cancel_button_clicked_def switch_user_button_clicked_def logout_button_clicked_def
  take_note_def on_note_text_buffer_changed_def submit_note_def cancel_note_def delete_handler_def gs_lock_plug_close_def
  capslock_update_def date_time_update_def gs_lock_plug_hide_def do_user_switch_def gs_lock_plug_set_busy_def
  clear_clipboards_def reset_idle_cb_def gs_lock_plug_show_message_def entry_key_press_def plug_queue_key_event_def propagate_key_def

lemma restart_armed [simp]: "armed (restart_cancel_timeout p)"
  by (simp add: armed_def restart_cancel_timeout_def)

lemma plug_dispatch_armed:
  assumes "armed p" "plug_dispatch e ev p = (p', [])"
  shows "armed p'"
  using assms
  by (cases ev)
    (auto simp: plug_dispatch_def plug_react_def timer_defs button_defs armed_def Let_def split: if_splits option.splits)

text \<open>The answers that are emitted: OK comes from the unlock button, and cancelling empties the entry.\<close>

lemma plug_dispatch_response:
  assumes "plug_dispatch e ev p = (p', r # rs)"
  shows "r = GS_LOCK_PLUG_RESPONSE_OK \<and> ev = Unlock_Clicked \<or> r = GS_LOCK_PLUG_RESPONSE_CANCEL \<and> lp_entry_text p' = []"
  using assms
  by (cases ev)
    (auto simp: plug_dispatch_def plug_react_def timer_defs button_defs Let_def split: if_splits option.splits)

lemma cancel_idle_response [simp]:
  "\<exists>p'. response_cancel_idle_cb p = (p', [GS_LOCK_PLUG_RESPONSE_CANCEL]) \<and> lp_entry_text p' = []"
  by (simp add: response_cancel_idle_cb_def gs_lock_plug_response_def Let_def)

definition run_result_ok :: "plug_event list \<Rightarrow> plug_response \<Rightarrow> lock_plug \<Rightarrow> bool" where
  "run_result_ok evs r p =
     (r = GS_LOCK_PLUG_RESPONSE_OK \<and> Unlock_Clicked \<in> set evs
      \<or> r = GS_LOCK_PLUG_RESPONSE_CANCEL \<and> lp_entry_text p = []
      \<or> r = GTK_RESPONSE_NONE \<and> Unmapped \<in> set evs)"

lemma run_loop_returns:
  "armed p \<Longrightarrow> \<exists>r p' rest. run_loop e evs p = Inr (r, p', rest) \<and> run_result_ok evs r p'"
proof (induction evs arbitrary: p)
  case Nil
  obtain p1 p2 where
    "response_cancel_idle_cb p = (p1, [GS_LOCK_PLUG_RESPONSE_CANCEL])" "lp_entry_text p1 = []"
    "response_cancel_idle_cb (dialog_timed_out p) = (p2, [GS_LOCK_PLUG_RESPONSE_CANCEL])" "lp_entry_text p2 = []"
    using cancel_idle_response by blast
  then show ?case using Nil by (auto simp: armed_def run_result_ok_def)
next
  case (Cons ev evs)
  obtain p1 rs where d: "plug_dispatch e ev p = (p1, rs)" by (metis prod.exhaust)
  show ?case
  proof (cases rs)
    case Nil
    show ?thesis
    proof (cases "ev = Unmapped")
      case True
      then show ?thesis using d Nil by (simp add: run_result_ok_def)
    next
      case False
      then show ?thesis
        using Cons.IH [OF plug_dispatch_armed [OF Cons.prems d [unfolded Nil]]] d Nil
        by (auto simp: run_result_ok_def)
    qed
  next
    case (Cons r rs')
    then show ?thesis using d plug_dispatch_response [of e ev p p1 r rs'] by (auto simp: run_result_ok_def)
  qed
qed

lemma show_keeps_armed: "armed p \<Longrightarrow> armed (if \<not> lp_visible p then gs_lock_plug_show e p else p)"
  by (simp add: gs_lock_plug_show_def Let_def)

text \<open>
  A prompt comes to an end.  Once the prompt is enabled, waiting for an answer returns whatever
  happens, also when nothing does: at the latest the timers of the widget cancel it.  The answer is OK
  only if the unlock button was pressed; a cancelled prompt leaves nothing in the entry.
\<close>

theorem plug_run_returns:
  "\<exists>r p' rest. gs_lock_plug_run e evs (gs_lock_plug_enable_prompt e' message visible p) = Inr (r, p', rest)
     \<and> (r = GS_LOCK_PLUG_RESPONSE_OK \<longrightarrow> Unlock_Clicked \<in> set evs)
     \<and> (r = GS_LOCK_PLUG_RESPONSE_CANCEL \<longrightarrow> lp_entry_text p' = [])
     \<and> (r \<noteq> GS_LOCK_PLUG_RESPONSE_OK \<and> r \<noteq> GS_LOCK_PLUG_RESPONSE_CANCEL \<longrightarrow> Unmapped \<in> set evs)"
proof -
  have "armed (gs_lock_plug_enable_prompt e' message visible p)"
    by (simp add: gs_lock_plug_enable_prompt_def Let_def)
  from run_loop_returns [OF show_keeps_armed [OF this]] show ?thesis
    unfolding gs_lock_plug_run_def run_result_ok_def by fast
qed

section \<open>What is typed is what is answered\<close>

definition entry_ready :: "lock_plug \<Rightarrow> bool" where
  "entry_ready p = (lp_entry_shown p \<and> lp_entry_sensitive p \<and> lp_action_sensitive p \<and> lp_unlock_sensitive p)"

lemma foldl_propagate:
  "lp_entry_sensitive p \<Longrightarrow>
   foldl (\<lambda>p key. propagate_key e key p) p keys = p\<lparr>lp_entry_text := foldl (\<lambda>t k. pl_edit e k t) (lp_entry_text p) keys\<rparr>"
  by (induction keys arbitrary: p) (simp_all add: propagate_key_def)

lemma run_loop_typed:
  assumes "entry_ready p"
  shows "\<exists>p'. run_loop e (map Key_Press keys @ Unlock_Clicked # rest) p = Inr (GS_LOCK_PLUG_RESPONSE_OK, p', rest)
     \<and> lp_entry_text p' = foldl (\<lambda>t k. pl_edit e k t) (lp_entry_text p) keys \<and> lp_key_events p' = lp_key_events p"
  using assms
proof (induction keys arbitrary: p)
  case Nil
  then show ?case
    by (simp add: plug_dispatch_def plug_ready_def plug_react_def unlock_button_clicked_def timer_defs entry_ready_def Let_def)
next
  case (Cons k keys)
  define q where "q = propagate_key e k (restart_cancel_timeout p)"
  have "entry_ready q" "lp_entry_text q = pl_edit e k (lp_entry_text p)" "lp_key_events q = lp_key_events p"
    using Cons.prems by (auto simp: q_def entry_ready_def propagate_key_def timer_defs)
  moreover have "plug_dispatch e (Key_Press k) p = (q, [])"
    using Cons.prems by (simp add: plug_dispatch_def plug_ready_def plug_react_def entry_key_press_def q_def entry_ready_def
        restart_cancel_timeout_def remove_cancel_timeout_def Let_def)
  ultimately show ?case using Cons.IH [of q] by simp
qed

section \<open>Texts of labels\<close>

text \<open>How a text has to be written so that it shows up as it is.\<close>

fun escape_label :: "string \<Rightarrow> string" where
  "escape_label [] = []"
| "escape_label (c # cs) =
     (if c = CHR 0x5C \<or> c = CHR ''%'' then [CHR 0x5C, c] else [c]) @ escape_label cs"

lemma expand_plain: "c \<noteq> CHR 0x5C \<Longrightarrow> c \<noteq> CHR ''%'' \<Longrightarrow> expand_string e (c # cs) = c # expand_string e cs"
  by (cases cs) simp_all

text \<open>
  Every text can be shown in a label: with a backslash before each backslash and each percent
  sign \<open>expand_string\<close> gives the text back, and it then does not depend on the user or the machine.
\<close>

theorem expand_escape_roundtrip: "expand_string e (escape_label s) = s"
  by (induction s) (simp_all add: expand_plain)

text \<open>
  A negative limit is meant to be no limit for the size of the face image, but it lets no file
  pass at all, because the largest size does not fit into the type of the limit.
\<close>

theorem check_user_file_no_limit:
  assumes "max_file_size < 0" "\<And>st. fileinfo = Some st \<Longrightarrow> 0 \<le> st_size st"
  shows "\<not> check_user_file fileinfo user max_file_size relax_group relax_other"
  using assms by (auto simp: check_user_file_def Let_def split: option.splits)

theorem check_user_file_no_limit_witness:
  "\<not> check_user_file (Some \<lparr>st_mode = 33152, st_uid = 1000, st_size = 10\<rparr>) 1000 (- 1) False False
   \<and> check_user_file (Some \<lparr>st_mode = 33152, st_uid = 1000, st_size = 10\<rparr>) 1000 1048576 False False"
proof -
  have "\<not> check_user_file (Some \<lparr>st_mode = 33152, st_uid = 1000, st_size = 10\<rparr>) 1000 (- 1) False False"
    by (rule check_user_file_no_limit) auto
  then show ?thesis
    by (simp add: check_user_file_def S_IFMT_def S_IFREG_def S_IWGRP_def S_IWOTH_def)
qed

end
