(* ===== verification/GS_Auth.thy ===== *)
theory GS_Auth
  imports GS_Job
begin

text \<open>
  \<open>src/gs-auth.h\<close> and \<open>src/gs-auth-pam.h\<close>: what the unlock dialog and the authentication backends
  have in common.  A backend calls back with messages for the user; the callback works on the state
  of the dialog, which the backends do not look into.  The locale \<open>auth_backend\<close> is the contract:
  a backend changes the state of the dialog only through the callback and the main loop, and says
  yes only if the authority behind it does.
\<close>

text \<open>The last constructor stands for the values outside the enumeration.\<close>

datatype message_style =
    GS_AUTH_MESSAGE_PROMPT_ECHO_ON
  | GS_AUTH_MESSAGE_PROMPT_ECHO_OFF
  | GS_AUTH_MESSAGE_ERROR_MSG
  | GS_AUTH_MESSAGE_TEXT_INFO
  | Other_Message_Style int

definition style_of_int :: "int \<Rightarrow> message_style" where
  "style_of_int i =
     (if i = 0 then GS_AUTH_MESSAGE_PROMPT_ECHO_ON else if i = 1 then GS_AUTH_MESSAGE_PROMPT_ECHO_OFF
      else if i = 2 then GS_AUTH_MESSAGE_ERROR_MSG else if i = 3 then GS_AUTH_MESSAGE_TEXT_INFO
      else Other_Message_Style i)"

fun int_of_style :: "message_style \<Rightarrow> int" where
  "int_of_style GS_AUTH_MESSAGE_PROMPT_ECHO_ON = 0"
| "int_of_style GS_AUTH_MESSAGE_PROMPT_ECHO_OFF = 1"
| "int_of_style GS_AUTH_MESSAGE_ERROR_MSG = 2"
| "int_of_style GS_AUTH_MESSAGE_TEXT_INFO = 3"
| "int_of_style (Other_Message_Style i) = i"

datatype auth_error =
    GS_AUTH_ERROR_GENERAL
  | GS_AUTH_ERROR_AUTH_ERROR
  | GS_AUTH_ERROR_USER_UNKNOWN
  | GS_AUTH_ERROR_AUTH_DENIED

type_synonym gerror = "auth_error \<times> string"

text \<open>
  \<open>GSAuthMessageFunc\<close>: the return value, the response (\<open>None\<close> for NULL), and the state of the dialog.
\<close>

type_synonym 's msg_func = "message_style \<Rightarrow> string \<Rightarrow> 's \<Rightarrow> (bool \<times> string option \<times> 's) res"

text \<open>The constants of PAM, as Linux-PAM numbers them.\<close>

definition PAM_PROMPT_ECHO_OFF :: int where "PAM_PROMPT_ECHO_OFF = 1"
definition PAM_PROMPT_ECHO_ON :: int where "PAM_PROMPT_ECHO_ON = 2"
definition PAM_ERROR_MSG :: int where "PAM_ERROR_MSG = 3"
definition PAM_TEXT_INFO :: int where "PAM_TEXT_INFO = 4"
definition PAM_SUCCESS :: int where "PAM_SUCCESS = 0"
definition PAM_BUF_ERR :: int where "PAM_BUF_ERR = 5"
definition PAM_PERM_DENIED :: int where "PAM_PERM_DENIED = 6"
definition PAM_AUTH_ERR :: int where "PAM_AUTH_ERR = 7"
definition PAM_USER_UNKNOWN :: int where "PAM_USER_UNKNOWN = 10"
definition PAM_ACCT_EXPIRED :: int where "PAM_ACCT_EXPIRED = 13"
definition PAM_CONV_ERR :: int where "PAM_CONV_ERR = 19"

lemmas pam_consts [model_simps] =
  PAM_PROMPT_ECHO_OFF_def PAM_PROMPT_ECHO_ON_def PAM_ERROR_MSG_def PAM_TEXT_INFO_def PAM_SUCCESS_def PAM_BUF_ERR_def
  PAM_PERM_DENIED_def PAM_AUTH_ERR_def PAM_USER_UNKNOWN_def PAM_ACCT_EXPIRED_def PAM_CONV_ERR_def

definition pam_style_to_gs_style :: "int \<Rightarrow> message_style" where
  "pam_style_to_gs_style pam_style =
     (if pam_style = PAM_PROMPT_ECHO_ON then GS_AUTH_MESSAGE_PROMPT_ECHO_ON
      else if pam_style = PAM_PROMPT_ECHO_OFF then GS_AUTH_MESSAGE_PROMPT_ECHO_OFF
      else if pam_style = PAM_ERROR_MSG then GS_AUTH_MESSAGE_ERROR_MSG
      else GS_AUTH_MESSAGE_TEXT_INFO)"

lemma style_of_int_of_style: "style_of_int (int_of_style (pam_style_to_gs_style i)) = pam_style_to_gs_style i"
  by (simp add: pam_style_to_gs_style_def style_of_int_def)

section \<open>PAM modules\<close>

text \<open>
  A call into PAM runs modules that are not part of the program: they end with a status, or hold a
  conversation first and go on depending on its status and its replies.  A message is its style and
  its text; the replies are missing when the conversation function stored NULL.
\<close>

datatype pam_prog =
    Pam_Status int
  | Pam_Converse "(int \<times> string) list" "int \<Rightarrow> string option list option \<Rightarrow> pam_prog"

text \<open>
  Running a call with a conversation function.  \<open>quit\<close> says that the state asks for the end of the
  process; the call is not continued then, and there is no status.
\<close>

primrec run_pam ::
  "('s \<Rightarrow> bool) \<Rightarrow> ((int \<times> string) list \<Rightarrow> 's \<Rightarrow> (int \<times> string option list option \<times> 's) res) \<Rightarrow> pam_prog \<Rightarrow> 's \<Rightarrow>
   (int option \<times> 's) res" where
  "run_pam quit conv (Pam_Status status) s = ret (Some status, s)"
| "run_pam quit conv (Pam_Converse msgs k) s =
     rbind (conv msgs s) (\<lambda>(status, replies, s).
     if quit s then ret (None, s) else run_pam quit conv (k status replies) s)"

lemma pam_prog_induct [case_names Status Converse]:
  assumes "\<And>status. P (Pam_Status status)" "\<And>msgs k. (\<And>status replies. P (k status replies)) \<Longrightarrow> P (Pam_Converse msgs k)"
  shows "P prog"
proof (induction prog)
  case (Pam_Converse msgs k)
  have "P (k status replies)" for status replies
    by (rule Pam_Converse [of "k status"]) simp_all
  then show ?case by (rule assms(2))
qed (rule assms(1))

lemma run_pam_keeps:
  assumes "\<And>msgs s. P s \<Longrightarrow> rwp t (\<lambda>(_, _, s'). P s') (conv msgs s)" "P s"
  shows "rwp t (\<lambda>(_, s'). P s') (run_pam quit conv prog s)"
  using assms(2)
proof (induction prog arbitrary: s rule: pam_prog_induct)
  case (Converse msgs k)
  show ?case
    unfolding run_pam.simps
    by (rule rwp_rbindI [OF assms(1) [OF Converse.prems]]) (auto intro: Converse.IH)
qed simp

section \<open>The contract of a backend\<close>

text \<open>
  \<open>verify\<close> is \<open>gs_auth_verify_user\<close>: its verdict (\<open>None\<close> when the process ended before there was one),
  its error, and the states of the backend and of the dialog.  \<open>pump\<close> is the main loop of the dialog
  while a backend waits.
\<close>

locale auth_backend =
  fixes verify :: "'s msg_func \<Rightarrow> 'b \<times> 's \<Rightarrow> (bool option \<times> gerror option \<times> 'b \<times> 's) res"
    and pump :: "'s \<Rightarrow> 's res"
    and approves :: "'s msg_func \<Rightarrow> 'b \<times> 's \<Rightarrow> bool"
  assumes sound: "verify func (b, s) = Inr (Some True, err, b', s') \<Longrightarrow> approves func (b, s)"
    and keeps: "\<lbrakk>\<And>style msg s. P s \<Longrightarrow> rpost (\<lambda>(_, _, s'). P s') (func style msg s); \<And>s. P s \<Longrightarrow> rpost P (pump s); P s\<rbrakk>
      \<Longrightarrow> rpost (\<lambda>(_, _, _, s'). P s') (verify func (b, s))"

end
