(* ===== verification/Setuid.thy ===== *)
theory Setuid
  imports Prelude
begin

text \<open>
  \<open>src/setuid.c\<close>: the unlock dialog may be installed set-uid or set-gid, so that it can read the
  password file; before it does anything else it gives these rights up.  The identifiers of the
  process and the three system calls that change them are modelled after their manual pages; the
  user database is a parameter.  The theorem says what is left of the rights when \<open>hack_uid\<close> reports
  success.
\<close>

type_synonym uid = "32 word"

record credentials =
  c_ruid :: uid
  c_euid :: uid
  c_suid :: uid
  c_rgid :: uid
  c_egid :: uid
  c_sgid :: uid
  c_groups :: "uid list"

text \<open>
  The names of users and groups, the group of bsdauth when the program is built for it
  (\<open>HAVE_BSDAUTH\<close>), and whether \<open>setuid\<close> runs into the limit on the number of processes.
\<close>

record id_env =
  id_getpwuid :: "uid \<Rightarrow> string option"
  id_getgrgid :: "uid \<Rightarrow> string option"
  id_have_bsdauth :: bool
  id_getgrnam_auth :: "(string \<times> uid) option"
  id_setuid_limit :: bool

section \<open>System calls\<close>

text \<open>Each returns the error number, 0 on success.\<close>

definition EPERM :: int where "EPERM = 1"
definition EAGAIN :: int where "EAGAIN = 11"

definition sys_setgroups :: "uid list \<Rightarrow> credentials \<Rightarrow> int \<times> credentials" where
  "sys_setgroups gs c = (if c_euid c = 0 then (0, c\<lparr>c_groups := gs\<rparr>) else (EPERM, c))"

definition sys_setgid :: "uid \<Rightarrow> credentials \<Rightarrow> int \<times> credentials" where
  "sys_setgid gid c =
     (if c_euid c = 0 then (0, c\<lparr>c_rgid := gid, c_egid := gid, c_sgid := gid\<rparr>)
      else if gid = c_rgid c \<or> gid = c_sgid c then (0, c\<lparr>c_egid := gid\<rparr>)
      else (EPERM, c))"

definition sys_setuid :: "id_env \<Rightarrow> uid \<Rightarrow> credentials \<Rightarrow> int \<times> credentials" where
  "sys_setuid e uid c =
     (if c_euid c = 0 then
        (if id_setuid_limit e then (EAGAIN, c) else (0, c\<lparr>c_ruid := uid, c_euid := uid, c_suid := uid\<rparr>))
      else if uid = c_ruid c \<or> uid = c_suid c then (0, c\<lparr>c_euid := uid\<rparr>)
      else (EPERM, c))"

section \<open>Giving up rights\<close>

definition name_or_unknown :: "string option \<Rightarrow> string" where
  "name_or_unknown n = (case n of None \<Rightarrow> ''???'' | Some s \<Rightarrow> s)"

definition long_digits :: "uid \<Rightarrow> string" where
  "long_digits i = dec_digits (unat i)"

definition uid_gid_string :: "id_env \<Rightarrow> uid \<Rightarrow> uid \<Rightarrow> string" where
  "uid_gid_string e uid gid =
     name_or_unknown (id_getpwuid e uid) @ ''/'' @ name_or_unknown (id_getgrgid e gid)
     @ '' ('' @ long_digits uid @ ''/'' @ long_digits gid @ '')''"

text \<open>
  The names are looked up before -1 is replaced.  The result is the message of a success, or the
  reports with their error numbers that go to the standard error.
\<close>

definition set_ids_by_number ::
  "id_env \<Rightarrow> uid \<Rightarrow> uid \<Rightarrow> credentials \<Rightarrow> ((string \<times> int) list + string) \<times> credentials" where
  "set_ids_by_number e uid gid c =
     (let p = name_or_unknown (id_getpwuid e uid);
          g = name_or_unknown (id_getgrgid e gid);
          gid = (if gid = - 1 then - 2 else gid);
          uid = (if uid = - 1 then - 2 else uid);
          (sgs_errno, c) = sys_setgroups [gid] c;
          (gid_errno, c) = sys_setgid gid c;
          (uid_errno, c) = sys_setuid e uid c in
      if uid_errno = 0 \<and> gid_errno = 0 \<and> sgs_errno = 0 then
        (Inr (''changed uid/gid to '' @ p @ ''/'' @ g @ '' ('' @ long_digits uid @ ''/'' @ long_digits gid @ '').''), c)
      else
        (Inl ((if sgs_errno \<noteq> 0 then [(''couldn't setgroups to '' @ g @ '' ('' @ long_digits gid @ '')'', sgs_errno)] else [])
            @ (if gid_errno \<noteq> 0 then [(''couldn't set gid to '' @ g @ '' ('' @ long_digits gid @ '')'', gid_errno)] else [])
            @ (if uid_errno \<noteq> 0 then [(''couldn't set uid to '' @ p @ '' ('' @ long_digits uid @ '')'', uid_errno)] else [])), c))"

text \<open>
  What \<open>hack_uid\<close> hands back through its arguments, with the credentials it leaves.  A group entry
  without a name is as good as none.
\<close>

record hack_uid_result =
  hu_ok :: bool
  hu_nolock_reason :: "string option"
  hu_orig_uid :: string
  hu_uid_message :: "string option"
  hu_stderr :: "(string \<times> int) list"

definition hack_uid_drop :: "id_env \<Rightarrow> credentials \<Rightarrow> (string option \<times> string option \<times> (string \<times> int) list) \<times> credentials" where
  "hack_uid_drop e c =
     (if c_ruid c \<noteq> c_euid c \<or> c_rgid c \<noteq> c_egid c then
        (let gid = (if id_have_bsdauth e then
                      (case id_getgrnam_auth e of
                         Some (n, g) \<Rightarrow> if n = [] then None else Some g
                       | None \<Rightarrow> None)
                    else Some (c_rgid c)) in
         case gid of
           None \<Rightarrow> ((Some (''no such group as '' @ [CHR 0x22] @ ''auth'' @ [CHR 0x22] @ '' for bsdauth.''), None, []), c)
         | Some gid \<Rightarrow>
             (case set_ids_by_number e (c_ruid c) gid c of
                (Inr message, c) \<Rightarrow> ((None, Some message, []), c)
              | (Inl reports, c) \<Rightarrow> ((Some ''unable to discard privileges.'', None, reports), c)))
      else ((None, None, []), c))"

definition hack_uid :: "id_env \<Rightarrow> credentials \<Rightarrow> hack_uid_result \<times> credentials" where
  "hack_uid e c =
     (let orig = uid_gid_string e (c_euid c) (c_egid c);
          ((failed, message, reports), c) = hack_uid_drop e c;
          reason = (case failed of
                      Some r \<Rightarrow> Some r
                    | None \<Rightarrow> if c_ruid c = 0 then Some ''running as root'' else None) in
      (\<lparr>hu_ok = (reason = None), hu_nolock_reason = reason, hu_orig_uid = orig, hu_uid_message = message,
        hu_stderr = reports\<rparr>, c))"

section \<open>What is left of the rights\<close>

text \<open>No identifier but that of the user, not even a saved one.\<close>

definition unprivileged :: "credentials \<Rightarrow> bool" where
  "unprivileged c = (c_ruid c \<noteq> 0 \<and> c_euid c = c_ruid c \<and> c_suid c = c_ruid c)"

text \<open>As the kernel starts a program: the saved identifiers are the effective ones.\<close>

definition freshly_started :: "credentials \<Rightarrow> bool" where
  "freshly_started c = (c_suid c = c_euid c \<and> c_sgid c = c_egid c)"

lemmas sys_defs = sys_setgroups_def sys_setgid_def sys_setuid_def EPERM_def EAGAIN_def

lemma set_ids_ok:
  assumes "set_ids_by_number e uid gid c = (Inr m, c')"
  shows "c_euid c = 0" "\<exists>u. c_ruid c' = u \<and> c_euid c' = u \<and> c_suid c' = u \<and> u = (if uid = - 1 then - 2 else uid)"
    "\<exists>g. c_rgid c' = g \<and> c_egid c' = g \<and> c_sgid c' = g \<and> c_groups c' = [g] \<and> g = (if gid = - 1 then - 2 else gid)"
  using assms by (auto simp: set_ids_by_number_def sys_defs Let_def split: if_splits)

lemma set_ids_failed:
  assumes "set_ids_by_number e uid gid c = (Inl r, c')"
  shows "r \<noteq> []"
  using assms by (auto simp: set_ids_by_number_def Let_def split: prod.splits if_splits)

lemma hack_uid_ok_cases:
  assumes "hack_uid e c = (h, c')" "hu_ok h"
  shows "c' = c \<and> c_ruid c = c_euid c \<and> c_rgid c = c_egid c
    \<or> (\<exists>gid m. (c_ruid c \<noteq> c_euid c \<or> c_rgid c \<noteq> c_egid c) \<and> set_ids_by_number e (c_ruid c) gid c = (Inr m, c')
         \<and> (\<not> id_have_bsdauth e \<longrightarrow> gid = c_rgid c))"
  using assms
  by (auto simp: hack_uid_def hack_uid_drop_def Let_def split: if_splits option.splits sum.splits prod.splits)

lemma hack_uid_not_root:
  "hack_uid e c = (h, c') \<Longrightarrow> hu_ok h \<Longrightarrow> c_ruid c' \<noteq> 0"
  by (auto simp: hack_uid_def Let_def split: prod.splits option.splits if_splits)

text \<open>
  C14: the rights are given up for good.  When \<open>hack_uid\<close> reports success for a freshly started
  process, the real, the effective and the saved user are the same and not root, so that the process
  cannot get back what it gave up; built without bsdauth the same holds for the groups, and if
  the program was set-uid or set-gid the supplementary groups are gone as well.
\<close>

theorem hack_uid_drops:
  assumes "hack_uid e c = (h, c')" "hu_ok h" "freshly_started c"
  shows "unprivileged c'
    \<and> (\<not> id_have_bsdauth e \<longrightarrow> c_egid c' = c_rgid c' \<and> c_sgid c' = c_rgid c')
    \<and> (c_ruid c \<noteq> c_euid c \<or> c_rgid c \<noteq> c_egid c \<longrightarrow> c_groups c' = [c_rgid c'])"
proof -
  have nr: "c_ruid c' \<noteq> 0" by (rule hack_uid_not_root [OF assms(1,2)])
  consider "c' = c" "c_ruid c = c_euid c" "c_rgid c = c_egid c"
    | gid m where "set_ids_by_number e (c_ruid c) gid c = (Inr m, c')"
    using hack_uid_ok_cases [OF assms(1,2)] by blast
  then show ?thesis
  proof cases
    case 1
    then show ?thesis using nr assms(3) by (simp add: unprivileged_def freshly_started_def)
  next
    case 2
    then show ?thesis using set_ids_ok [OF 2] nr by (auto simp: unprivileged_def)
  qed
qed

definition sample_ids :: id_env where
  "sample_ids =
     \<lparr>id_getpwuid = (\<lambda>u. if u = 1000 then Some ''ann'' else None), id_getgrgid = (\<lambda>_. None),
      id_have_bsdauth = False, id_getgrnam_auth = None, id_setuid_limit = False\<rparr>"

definition sample_setuid_root :: credentials where
  "sample_setuid_root =
     \<lparr>c_ruid = 1000, c_euid = 0, c_suid = 0, c_rgid = 100, c_egid = 100, c_sgid = 100, c_groups = [100, 4]\<rparr>"

lemma sample_hack_uid:
  "hu_ok (fst (hack_uid sample_ids sample_setuid_root)) \<and> c_groups (snd (hack_uid sample_ids sample_setuid_root)) = [100]"
  by (simp add: hack_uid_def hack_uid_drop_def set_ids_by_number_def sys_defs sample_ids_def sample_setuid_root_def Let_def)

theorem hack_uid_drops_witness:
  "\<exists>h c'. hack_uid sample_ids sample_setuid_root = (h, c') \<and> hu_ok h \<and> unprivileged c' \<and> c_groups c' = [c_rgid c']"
proof -
  obtain h c' where r: "hack_uid sample_ids sample_setuid_root = (h, c')" by (metis prod.exhaust)
  have ok: "hu_ok h" using sample_hack_uid r by simp
  have "freshly_started sample_setuid_root" by (simp add: freshly_started_def sample_setuid_root_def)
  then show ?thesis
    using hack_uid_drops [OF r ok] r ok by (simp add: sample_setuid_root_def)
qed

text \<open>
  A program that is set-gid only cannot give the group up: \<open>setgroups\<close> needs root, so that
  \<open>hack_uid\<close> fails although \<open>setgid\<close> itself succeeded, and says so on the standard error.
\<close>

theorem hack_uid_setgid_fails:
  assumes "c_ruid c = c_euid c" "c_euid c \<noteq> 0" "c_rgid c \<noteq> c_egid c" "\<not> id_have_bsdauth e"
  shows "\<not> hu_ok (fst (hack_uid e c)) \<and> hu_nolock_reason (fst (hack_uid e c)) = Some ''unable to discard privileges.''
    \<and> hu_stderr (fst (hack_uid e c)) \<noteq> []"
  using assms
  by (simp add: hack_uid_def hack_uid_drop_def set_ids_by_number_def sys_defs Let_def split: if_splits)

theorem hack_uid_setgid_fails_witness:
  "\<not> hu_ok (fst (hack_uid sample_ids (sample_setuid_root\<lparr>c_euid := 1000, c_suid := 1000, c_egid := 42, c_sgid := 42\<rparr>)))"
  using hack_uid_setgid_fails [of "sample_setuid_root\<lparr>c_euid := 1000, c_suid := 1000, c_egid := 42, c_sgid := 42\<rparr>" sample_ids]
  by (simp add: sample_setuid_root_def sample_ids_def)

end
