(* ===== verification/GS_Dialog.thy ===== *)
theory GS_Dialog
  imports GS_Window GS_Lock_Plug GS_Auth Setuid
begin

text \<open>
  \<open>src/mate-screensaver-dialog.c\<close>: the unlock dialog, a program of its own.  It gives up its rights,
  asks a backend to authenticate the user, up to five times, and prints what happens: the window of the
  daemon reads these lines.  The backend is a parameter (\<open>verify\<close>); its contract is the locale
  \<open>auth_backend\<close>.
\<close>

section \<open>State\<close>

datatype dialog_source = Popup_Dialog | Auth_Check | Quit_Response_Ok | Request_Quit | Quit_Timeout

text \<open>
  What was written to the standard output, the pending sources of the main loop, the counter of failed
  attempts, whether the innermost main loop was told to quit and whether the process was
  terminated.  \<open>d_input\<close> is what happens to the widget at each of the places where the program lets the main loop
  run, in order.
\<close>

record dialog =
  d_plug :: lock_plug
  d_out :: "string list"
  d_input :: "plug_event list list"
  d_sources :: "dialog_source list"
  d_loop_counter :: "32 word"
  d_quit :: bool
  d_terminated :: bool

text \<open>The widget's environment, the X identifier of its window, the translations, and the options.\<close>

record dialog_env =
  de_plug :: plug_env
  de_xid :: nat
  de_tr :: "string \<Rightarrow> string"
  de_enable_logout :: bool
  de_logout_command :: "string option"
  de_enable_switch :: bool
  de_status_message :: "string option"

section \<open>Output\<close>

definition dialog_print :: "string \<Rightarrow> dialog \<Rightarrow> dialog" where
  "dialog_print line d = d\<lparr>d_out := d_out d @ [line]\<rparr>"

definition notice_auth_failed :: string where
  "notice_auth_failed = ''NOTICE=AUTH FAILED'' @ [CHR 0x0A]"

definition request_quit_line :: string where
  "request_quit_line = ''REQUEST QUIT'' @ [CHR 0x0A]"

definition quit_response_ok :: "dialog \<Rightarrow> dialog" where
  "quit_response_ok d = (dialog_print response_ok d)\<lparr>d_quit := True\<rparr>"

definition quit_response_cancel :: "dialog \<Rightarrow> dialog" where
  "quit_response_cancel d = (dialog_print response_cancel d)\<lparr>d_quit := True\<rparr>"

definition response_lock_init_failed :: "string list \<Rightarrow> string list" where
  "response_lock_init_failed out = out @ [response_ok]"

definition response_cb :: "plug_response \<Rightarrow> dialog \<Rightarrow> dialog" where
  "response_cb response_id d =
     (if response_id = GS_LOCK_PLUG_RESPONSE_CANCEL \<or> response_id = GTK_RESPONSE_DELETE_EVENT
      then quit_response_cancel d else d)"

definition response_request_quit :: "dialog \<Rightarrow> dialog" where
  "response_request_quit d = dialog_print request_quit_line d"

definition quit_timeout_cb :: "dialog \<Rightarrow> dialog" where
  "quit_timeout_cb d = d\<lparr>d_quit := True\<rparr>"

section \<open>Letting the main loop run\<close>

definition dialog_event :: "dialog_env \<Rightarrow> plug_event \<Rightarrow> dialog \<Rightarrow> dialog" where
  "dialog_event e ev d =
     (let (p, rs) = plug_dispatch (de_plug e) ev (d_plug d) in
      foldl (\<lambda>d r. response_cb r d) (d\<lparr>d_plug := p\<rparr>) rs)"

text \<open>The events that have arrived are dispatched.\<close>

definition dialog_pump :: "dialog_env \<Rightarrow> dialog \<Rightarrow> dialog res" where
  "dialog_pump e d =
     (case d_input d of
        [] \<Rightarrow> ret d
      | evs # rest \<Rightarrow> ret (foldl (\<lambda>d ev. dialog_event e ev d) (d\<lparr>d_input := rest\<rparr>) evs))"

text \<open>\<open>gtk_widget_show\<close>: the first time the widget appears, its window is announced.\<close>

definition print_window_id :: "dialog_env \<Rightarrow> dialog \<Rightarrow> dialog" where
  "print_window_id e d = dialog_print (print_id (de_xid e)) d"

definition dialog_show :: "dialog_env \<Rightarrow> dialog \<Rightarrow> dialog" where
  "dialog_show e d =
     (if lp_visible (d_plug d) then d
      else print_window_id e (d\<lparr>d_plug := gs_lock_plug_show (de_plug e) (d_plug d)\<rparr>))"

text \<open>
  Waiting for an answer; the events behind the one that ended the wait stay for the next place.
\<close>

definition request_response :: "dialog_env \<Rightarrow> string \<Rightarrow> bool \<Rightarrow> dialog \<Rightarrow> (string option \<times> dialog) res" where
  "request_response e prompt visible d =
     (let p = gs_lock_plug_set_sensitive True (d_plug d);
          p = gs_lock_plug_enable_prompt (de_plug e) prompt visible p;
          (evs, rest) = (case d_input d of [] \<Rightarrow> ([], []) | evs # rest \<Rightarrow> (evs, rest)) in
      rbind (gs_lock_plug_run (de_plug e) evs p) (\<lambda>(response, p, left).
      let d = d\<lparr>d_plug := p, d_input := (case rest of [] \<Rightarrow> if left = [] then [] else [left] | r # rs \<Rightarrow> (left @ r) # rs)\<rparr>;
          d = response_cb response d;
          (text, p) = (if response = GS_LOCK_PLUG_RESPONSE_OK then gs_lock_plug_get_text (de_plug e) (d_plug d)
                       else (None, d_plug d)) in
      ret (text, d\<lparr>d_plug := gs_lock_plug_disable_prompt p\<rparr>)))"

section \<open>Messages of the backend\<close>

text \<open>\<open>g_strstrip\<close> and the table of the messages that have a translation.\<close>

definition g_ascii_isspace :: "char \<Rightarrow> bool" where
  "g_ascii_isspace c = (c \<in> {CHR '' '', CHR 0x09, CHR 0x0A, CHR 0x0C, CHR 0x0D})"

definition g_strstrip :: "string \<Rightarrow> string" where
  "g_strstrip s = rev (dropWhile g_ascii_isspace (rev (dropWhile g_ascii_isspace s)))"

definition translated_messages :: "(string \<times> string) list" where
  "translated_messages =
     [(''login:'', ''Username:''), (''Username:'', ''Username:''), (''username:'', ''Username:''),
      (''Password:'', ''Password:''), (''password:'', ''Password:''),
      (''You are required to change your password immediately (password aged)'',
       ''You are required to change your password immediately (password aged)''),
      (''You are required to change your password immediately (root enforced)'',
       ''You are required to change your password immediately (root enforced)''),
      (''Your account has expired; please contact your system administrator'',
       ''Your account has expired; please contact your system administrator''),
      (''No password supplied'', ''No password supplied''), (''Password unchanged'', ''Password unchanged''),
      (''Can not get username'', ''Can not get username''), (''Retype new UNIX password:'', ''Retype new UNIX password:''),
      (''Enter new UNIX password:'', ''Enter new UNIX password:''), (''(current) UNIX password:'', ''(current) UNIX password:''),
      (''Error while changing NIS password.'', ''Error while changing NIS password.''),
      (''You must choose a longer password'', ''You must choose a longer password''),
      (''Password has been already used. Choose another.'', ''Password has been already used. Choose another.''),
      (''You must wait longer to change your password'', ''You must wait longer to change your password''),
      (''Sorry, passwords do not match'', ''Sorry, passwords do not match'')]"

definition maybe_translate_message :: "dialog_env \<Rightarrow> string \<Rightarrow> string" where
  "maybe_translate_message e msg =
     (case map_of translated_messages (g_strstrip msg) of None \<Rightarrow> msg | Some m \<Rightarrow> de_tr e m)"

definition auth_message_handler :: "dialog_env \<Rightarrow> dialog msg_func" where
  "auth_message_handler e style msg d =
     (let d = dialog_show e d;
          d = d\<lparr>d_plug := gs_lock_plug_set_ready (d_plug d)\<rparr>;
          message = maybe_translate_message e msg in
      rbind
        (case style of
           GS_AUTH_MESSAGE_PROMPT_ECHO_ON \<Rightarrow> request_response e message True d
         | GS_AUTH_MESSAGE_PROMPT_ECHO_OFF \<Rightarrow> request_response e message False d
         | GS_AUTH_MESSAGE_ERROR_MSG \<Rightarrow> ret (None, d\<lparr>d_plug := gs_lock_plug_show_message (Some message) (d_plug d)\<rparr>)
         | GS_AUTH_MESSAGE_TEXT_INFO \<Rightarrow> ret (None, d\<lparr>d_plug := gs_lock_plug_show_message (Some message) (d_plug d)\<rparr>)
         | Other_Message_Style _ \<Rightarrow> Inl Assert_Failed) (\<lambda>(response, d).
      let (res, d) = (case response of
                        None \<Rightarrow> (False, d)
                      | Some _ \<Rightarrow>
                          (True, d\<lparr>d_plug := gs_lock_plug_set_sensitive False
                                    (gs_lock_plug_show_message (Some (de_tr e ''Checking...'')) (d_plug d))\<rparr>)) in
      rbind (dialog_pump e d) (\<lambda>d.
      ret (res, response, d\<lparr>d_plug := gs_lock_plug_set_busy (d_plug d)\<rparr>))))"

section \<open>The attempts\<close>

text \<open>The widget while the backend works.\<close>

definition attempt_state :: "dialog \<Rightarrow> dialog" where
  "attempt_state d = d\<lparr>d_plug := gs_lock_plug_set_busy (gs_lock_plug_disable_prompt (d_plug d))\<rparr>"

text \<open>\<open>None\<close>: the process was terminated in the middle of the attempt.\<close>

definition do_auth_check ::
  "dialog_env \<Rightarrow> (dialog msg_func \<Rightarrow> 'b \<times> dialog \<Rightarrow> (bool option \<times> gerror option \<times> 'b \<times> dialog) res) \<Rightarrow>
   'b \<times> dialog \<Rightarrow> (bool option \<times> 'b \<times> dialog) res" where
  "do_auth_check e verify bd =
     (let (b, d) = bd in
      rbind (verify (auth_message_handler e) (b, attempt_state d)) (\<lambda>(res, error, b, d).
      case res of
        None \<Rightarrow> ret (None, b, d\<lparr>d_terminated := True\<rparr>)
      | Some True \<Rightarrow> ret (Some True, b, d)
      | Some False \<Rightarrow>
          (let message = (case error of Some (_, m) \<Rightarrow> m | None \<Rightarrow> de_tr e ''Authentication failed.'') in
           ret (Some False, b,
             dialog_print notice_auth_failed (d\<lparr>d_plug := gs_lock_plug_show_message (Some message) (d_plug d)\<rparr>)))))"

definition MAX_FAILURES :: "32 word" where "MAX_FAILURES = 5"

definition drop_source :: "dialog_source \<Rightarrow> dialog \<Rightarrow> dialog" where
  "drop_source src d = d\<lparr>d_sources := remove1 src (d_sources d)\<rparr>"

definition add_source :: "dialog_source \<Rightarrow> dialog \<Rightarrow> dialog" where
  "add_source src d = d\<lparr>d_sources := d_sources d @ [src]\<rparr>"

text \<open>The source is kept while it returns TRUE.  The timer that resets the widget is an event of the widget.\<close>

definition auth_check_idle ::
  "dialog_env \<Rightarrow> (dialog msg_func \<Rightarrow> 'b \<times> dialog \<Rightarrow> (bool option \<times> gerror option \<times> 'b \<times> dialog) res) \<Rightarrow>
   'b \<times> dialog \<Rightarrow> ('b \<times> dialog) res" where
  "auth_check_idle e verify bd =
     rbind (do_auth_check e verify bd) (\<lambda>(res, b, d).
     case res of
       None \<Rightarrow> ret (b, d)
     | Some True \<Rightarrow> ret (b, drop_source Auth_Check (add_source Quit_Response_Ok d))
     | Some False \<Rightarrow>
         (let d = d\<lparr>d_loop_counter := d_loop_counter d + 1\<rparr> in
          if d_loop_counter d < MAX_FAILURES then ret (b, d)
          else ret (b, drop_source Auth_Check (add_source Quit_Timeout (add_source Request_Quit d)))))"

definition dialog_popup_idle :: "dialog_env \<Rightarrow> dialog \<Rightarrow> dialog" where
  "dialog_popup_idle e d =
     (let p = gs_lock_plug_new (de_plug e);
          p = (if de_enable_logout e then gs_lock_plug_set_logout_enabled True p else p);
          p = (if de_logout_command e \<noteq> None then gs_lock_plug_set_logout_command (de_logout_command e) p else p);
          p = (if de_enable_switch e then gs_lock_plug_set_switch_enabled (de_plug e) True p else p);
          p = (if de_status_message e \<noteq> None then gs_lock_plug_set_status_message (de_status_message e) p else p) in
      drop_source Popup_Dialog (add_source Auth_Check (d\<lparr>d_plug := p\<rparr>)))"

section \<open>Start and main loop\<close>

text \<open>
  What \<open>main\<close> finds: the rights and the result of \<open>hack_uid\<close> on them, whether GTK could be initialised, the option
  \<open>--version\<close> and the line it prints, the initialisation of the backend, the variable \<open>RUNNING_UNDER_MDM\<close>, and whether it was
  built for macOS or without locking.
\<close>

record dialog_start_env =
  ds_ids :: id_env
  ds_credentials :: credentials
  ds_gtk_init :: bool
  ds_show_version :: bool
  ds_version_line :: string
  ds_no_locking :: bool
  ds_auth_init :: bool
  ds_under_mdm :: bool
  ds_macos :: bool

definition privileged_initialization :: "dialog_start_env \<Rightarrow> bool" where
  "privileged_initialization ds = hu_ok (fst (hack_uid (ds_ids ds) (ds_credentials ds)))"

definition lock_initialization :: "dialog_start_env \<Rightarrow> string option" where
  "lock_initialization ds =
     (if ds_no_locking ds then Some ''not compiled with locking support''
      else if \<not> ds_auth_init ds then Some ''error getting password''
      else if ds_under_mdm ds then Some ''running under MDM''
      else if ds_macos ds then Some ''Cannot lock securely on MacOS X''
      else None)"

text \<open>Either the program exits at once, with what it has printed, or the main loop starts.\<close>

definition dialog_main :: "dialog_env \<Rightarrow> dialog_start_env \<Rightarrow> plug_event list list \<Rightarrow> string list + dialog" where
  "dialog_main e ds input =
     (if \<not> privileged_initialization ds then Inl (response_lock_init_failed [])
      else if \<not> ds_gtk_init ds then Inl []
      else if ds_show_version ds then Inl [ds_version_line ds]
      else if lock_initialization ds \<noteq> None then Inl (response_lock_init_failed [])
      else
        Inr \<lparr>d_plug = gs_lock_plug_new (de_plug e), d_out = [], d_input = input, d_sources = [Popup_Dialog],
             d_loop_counter = 0, d_quit = False, d_terminated = False\<rparr>)"

definition dialog_dispatch ::
  "dialog_env \<Rightarrow> (dialog msg_func \<Rightarrow> 'b \<times> dialog \<Rightarrow> (bool option \<times> gerror option \<times> 'b \<times> dialog) res) \<Rightarrow>
   dialog_source \<Rightarrow> 'b \<times> dialog \<Rightarrow> ('b \<times> dialog) res" where
  "dialog_dispatch e verify src bd =
     (case src of
        Popup_Dialog \<Rightarrow> ret (fst bd, dialog_popup_idle e (snd bd))
      | Auth_Check \<Rightarrow> auth_check_idle e verify bd
      | Quit_Response_Ok \<Rightarrow> ret (fst bd, drop_source Quit_Response_Ok (quit_response_ok (snd bd)))
      | Request_Quit \<Rightarrow> ret (fst bd, drop_source Request_Quit (response_request_quit (snd bd)))
      | Quit_Timeout \<Rightarrow> ret (fst bd, drop_source Quit_Timeout (quit_timeout_cb (snd bd))))"

text \<open>
  One turn of the main loop: it dispatches a pending source, in any order, or an event of the
  widget.  The label is the source.
\<close>

inductive dialog_step ::
  "dialog_env \<Rightarrow> (dialog msg_func \<Rightarrow> 'b \<times> dialog \<Rightarrow> (bool option \<times> gerror option \<times> 'b \<times> dialog) res) \<Rightarrow>
   dialog_source option \<Rightarrow> 'b \<times> dialog \<Rightarrow> 'b \<times> dialog \<Rightarrow> bool" for e verify where
  source: "\<lbrakk>\<not> d_quit d; \<not> d_terminated d; src \<in> set (d_sources d); dialog_dispatch e verify src (b, d) = Inr bd'\<rbrakk>
     \<Longrightarrow> dialog_step e verify (Some src) (b, d) bd'"
| event: "\<lbrakk>\<not> d_quit d; \<not> d_terminated d; Popup_Dialog \<notin> set (d_sources d)\<rbrakk>
     \<Longrightarrow> dialog_step e verify None (b, d) (b, dialog_event e ev d)"

inductive_cases dialog_stepE: "dialog_step e verify lbl (b, d) (b', d')"

text \<open>
  The states of a run, and whether the backend's authority has approved one of its attempts.
\<close>

inductive dialog_run ::
  "dialog_env \<Rightarrow> (dialog msg_func \<Rightarrow> 'b \<times> dialog \<Rightarrow> (bool option \<times> gerror option \<times> 'b \<times> dialog) res) \<Rightarrow>
   (dialog msg_func \<Rightarrow> 'b \<times> dialog \<Rightarrow> bool) \<Rightarrow> dialog_start_env \<Rightarrow> plug_event list list \<Rightarrow> 'b \<Rightarrow> bool \<Rightarrow> 'b \<times> dialog \<Rightarrow> bool"
  for e verify approves ds input b0 where
  start: "dialog_main e ds input = Inr d \<Longrightarrow> dialog_run e verify approves ds input b0 False (b0, d)"
| step: "\<lbrakk>dialog_run e verify approves ds input b0 approved (b, d); dialog_step e verify lbl (b, d) bd'\<rbrakk>
     \<Longrightarrow> dialog_run e verify approves ds input b0
          (approved \<or> lbl = Some Auth_Check \<and> approves (auth_message_handler e) (b, attempt_state d)) bd'"

end
