(* ===== verification/GS_Auth_Pam.thy ===== *)
theory GS_Auth_Pam
  imports GS_Auth
begin

text \<open>
  \<open>src/gs-auth-pam.c\<close>: authentication by calling PAM in a thread of the dialog.  The thread hands
  every message to the main thread and waits for the answer; here the two take turns (their
  synchronisation is the subject of \<open>GS_Auth_Threads\<close>).  PAM and its modules, the user database and the
  character set of the locale are parameters; PAM may behave differently at every attempt.
\<close>

record pam_lib =
  pam_getpwnam :: "string \<Rightarrow> bool"
  pam_start_status :: int
  pam_set_tty_status :: int
  pam_get_user_status :: int
  pam_authenticate :: pam_prog
  pam_acct_mgmt :: pam_prog
  pam_setcred :: pam_prog
  pam_calloc_fails :: bool
  pam_to_utf8 :: "string \<Rightarrow> string option"
  pam_utf8_valid :: "string \<Rightarrow> nat"
  pam_password_text :: string
  pam_pipe :: bool
  pam_cloexec_read :: bool
  pam_cloexec_write :: bool

text \<open>The static variables: the handle, whether a password was asked for; the block counter of \<open>subprocs.c\<close>.\<close>

record pam_state =
  ps_handle :: bool
  ps_asked :: bool
  ps_sigchld :: int
  ps_attempt :: nat

section \<open>The conversation\<close>

definition pam_auth_message_handler :: "pam_lib \<Rightarrow> message_style \<Rightarrow> string \<Rightarrow> pam_state \<Rightarrow> (bool \<times> string option \<times> pam_state) res" where
  "pam_auth_message_handler lib style msg b =
     (case style of
        GS_AUTH_MESSAGE_PROMPT_ECHO_ON \<Rightarrow> ret (True, None, b)
      | GS_AUTH_MESSAGE_PROMPT_ECHO_OFF \<Rightarrow>
          ret (True, None, if has_prefix (pam_password_text lib) msg then b\<lparr>ps_asked := True\<rparr> else b)
      | GS_AUTH_MESSAGE_ERROR_MSG \<Rightarrow> ret (True, None, b)
      | GS_AUTH_MESSAGE_TEXT_INFO \<Rightarrow> ret (True, None, b)
      | Other_Message_Style _ \<Rightarrow> Inl Assert_Failed)"

text \<open>In the main thread: the result is \<open>should_interrupt_stack\<close>.\<close>

definition gs_auth_queued_message_handler ::
  "'s msg_func \<Rightarrow> message_style \<Rightarrow> string \<Rightarrow> 's \<Rightarrow> (bool \<times> string option \<times> 's) res" where
  "gs_auth_queued_message_handler func style msg s =
     rbind (func style msg s) (\<lambda>(res, resp, s). ret (res = False, resp, s))"

text \<open>
  The main loop may dispatch other sources before the queued one.  If its end has been asked for,
  the process is terminated before the thread goes on; the value of the result does not matter then.
\<close>

definition gs_auth_run_message_handler ::
  "('s \<Rightarrow> bool) \<Rightarrow> ('s \<Rightarrow> 's res) \<Rightarrow> 's msg_func \<Rightarrow> message_style \<Rightarrow> string \<Rightarrow> 's \<Rightarrow> (bool \<times> string option \<times> 's) res" where
  "gs_auth_run_message_handler quit pump func style msg s =
     rbind (pump s) (\<lambda>s.
     if quit s then ret (False, None, s)
     else
       rbind (gs_auth_queued_message_handler func style msg s) (\<lambda>(should_interrupt_stack, resp, s).
       if quit s then ret (False, None, s) else ret (should_interrupt_stack = False, resp, s)))"

text \<open>A message that is not valid in the locale: every byte at which validation stops becomes a question mark.\<close>

function replace_invalid :: "pam_lib \<Rightarrow> string \<Rightarrow> string" where
  "replace_invalid lib p =
     (if pam_utf8_valid lib p < length p
      then take (pam_utf8_valid lib p) p @ CHR ''?'' # replace_invalid lib (drop (pam_utf8_valid lib p + 1) p)
      else p)"
  by pat_completeness auto
termination
  by (relation "measure (\<lambda>(lib, p). length p)") auto

declare replace_invalid.simps [simp del]

definition message_to_utf8 :: "pam_lib \<Rightarrow> string \<Rightarrow> string" where
  "message_to_utf8 lib msg = (case pam_to_utf8 lib msg of Some m \<Rightarrow> m | None \<Rightarrow> replace_invalid lib msg)"

text \<open>The loop over the messages, with the replies so far; when the handler says no, all of them are freed.\<close>

primrec pam_conversation_loop ::
  "('s \<Rightarrow> bool) \<Rightarrow> ('s \<Rightarrow> 's res) \<Rightarrow> pam_lib \<Rightarrow> 's msg_func option \<Rightarrow> (int \<times> string) list \<Rightarrow> string option list \<Rightarrow>
   pam_state \<times> 's \<Rightarrow> (int \<times> string option list option \<times> pam_state \<times> 's) res" where
  "pam_conversation_loop quit pump lib cb_func [] reply bs = ret (PAM_SUCCESS, Some reply, bs)"
| "pam_conversation_loop quit pump lib cb_func (m # msgs) reply bs =
     (let style = pam_style_to_gs_style (fst m);
          utf8_msg = message_to_utf8 lib (snd m) in
      rbind (pam_auth_message_handler lib style utf8_msg (fst bs)) (\<lambda>(_, resp, b).
      case cb_func of
        None \<Rightarrow> pam_conversation_loop quit pump lib cb_func msgs (reply @ [resp]) (b, snd bs)
      | Some func \<Rightarrow>
          rbind (gs_auth_run_message_handler quit pump func style utf8_msg (snd bs)) (\<lambda>(res, resp, s).
          if res then pam_conversation_loop quit pump lib cb_func msgs (reply @ [resp]) (b, s)
          else ret (PAM_CONV_ERR, None, b, s))))"

definition pam_conversation ::
  "('s \<Rightarrow> bool) \<Rightarrow> ('s \<Rightarrow> 's res) \<Rightarrow> pam_lib \<Rightarrow> 's msg_func option \<Rightarrow> (int \<times> string) list \<Rightarrow>
   pam_state \<times> 's \<Rightarrow> (int \<times> string option list option \<times> pam_state \<times> 's) res" where
  "pam_conversation quit pump lib cb_func msgs bs =
     (if pam_calloc_fails lib then ret (PAM_CONV_ERR, None, bs)
      else pam_conversation_loop quit pump lib cb_func msgs [] bs)"

section \<open>Calling PAM\<close>

definition close_pam_handle :: "pam_state \<Rightarrow> pam_state" where
  "close_pam_handle b = (if ps_handle b then b\<lparr>ps_handle := False\<rparr> else b)"

text \<open>The status that is stored and the return value.\<close>

definition create_pam_handle :: "pam_lib \<Rightarrow> pam_state \<Rightarrow> (bool \<times> int) \<times> pam_state" where
  "create_pam_handle lib b =
     (let b = (if ps_handle b then close_pam_handle b else b);
          b = b\<lparr>ps_handle := False\<rparr> in
      if pam_start_status lib \<noteq> PAM_SUCCESS then ((False, pam_start_status lib), b\<lparr>ps_handle := False\<rparr>)
      else
        (let b = b\<lparr>ps_handle := True\<rparr> in
         if pam_set_tty_status lib \<noteq> PAM_SUCCESS then ((False, pam_set_tty_status lib), b)
         else ((True, pam_set_tty_status lib), b)))"

definition set_pam_error :: "int \<Rightarrow> pam_state \<Rightarrow> gerror option" where
  "set_pam_error status b =
     (if status = PAM_AUTH_ERR \<or> status = PAM_USER_UNKNOWN then
        Some (GS_AUTH_ERROR_AUTH_ERROR, if ps_asked b then ''Incorrect password.'' else ''Authentication failed.'')
      else if status = PAM_PERM_DENIED then
        Some (GS_AUTH_ERROR_AUTH_DENIED, ''Not permitted to gain access at this time.'')
      else if status = PAM_ACCT_EXPIRED then
        Some (GS_AUTH_ERROR_AUTH_DENIED, ''No longer permitted to access the system.'')
      else None)"

text \<open>The thread: its status, \<open>None\<close> when the process ended first.  The result of the account modules is not used.\<close>

definition gs_auth_thread_func ::
  "('s \<Rightarrow> bool) \<Rightarrow> ('s \<Rightarrow> 's res) \<Rightarrow> pam_lib \<Rightarrow> 's msg_func option \<Rightarrow> pam_state \<times> 's \<Rightarrow> (int option \<times> pam_state \<times> 's) res" where
  "gs_auth_thread_func quit pump lib cb_func bs =
     (let run = run_pam (\<lambda>bs. quit (snd bs)) (pam_conversation quit pump lib cb_func);
          (b, s) = bs;
          b = b\<lparr>ps_sigchld := block_sigchld (ps_sigchld b)\<rparr> in
      rbind (run (pam_authenticate lib) (b, s)) (\<lambda>(status, b, s).
      case status of
        None \<Rightarrow> ret (None, b, s)
      | Some st \<Rightarrow>
          (let b = b\<lparr>ps_sigchld := unblock_sigchld (ps_sigchld b)\<rparr> in
           if st \<noteq> PAM_SUCCESS then ret (Some st, b, s)
           else if pam_get_user_status lib \<noteq> PAM_SUCCESS then ret (Some (pam_get_user_status lib), b, s)
           else
             rbind (run (pam_acct_mgmt lib) (b, s)) (\<lambda>(status2, b, s).
             if status2 = None then ret (None, b, s)
             else
               rbind (run (pam_setcred lib) (b, s)) (\<lambda>(status2, b, s).
               if status2 = None then ret (None, b, s) else ret (Some PAM_SUCCESS, b, s))))))"

text \<open>
  The inner main loop ends when the thread has closed its end of the pipe; if it was ended by somebody
  else, the process raises SIGTERM for itself.
\<close>

definition gs_auth_pam_verify_user ::
  "('s \<Rightarrow> bool) \<Rightarrow> ('s \<Rightarrow> 's res) \<Rightarrow> pam_lib \<Rightarrow> 's msg_func option \<Rightarrow> pam_state \<times> 's \<Rightarrow> (int option \<times> pam_state \<times> 's) res" where
  "gs_auth_pam_verify_user quit pump lib cb_func bs =
     (if \<not> pam_pipe lib then ret (Some PAM_AUTH_ERR, bs)
      else if \<not> pam_cloexec_read lib then ret (Some PAM_AUTH_ERR, bs)
      else if \<not> pam_cloexec_write lib then ret (Some PAM_AUTH_ERR, bs)
      else
        rbind (gs_auth_thread_func quit pump lib cb_func bs) (\<lambda>(status, b, s).
        if status = None then ret (None, b, s)
        else rbind (pump s) (\<lambda>s. if quit s then ret (None, b, s) else ret (status, b, s))))"

definition pam_verify_user ::
  "('s \<Rightarrow> bool) \<Rightarrow> ('s \<Rightarrow> 's res) \<Rightarrow> (nat \<Rightarrow> pam_lib) \<Rightarrow> string \<Rightarrow> 's msg_func \<Rightarrow> pam_state \<times> 's \<Rightarrow>
   (bool option \<times> gerror option \<times> pam_state \<times> 's) res" where
  "pam_verify_user quit pump libs username func bs =
     (let (b, s) = bs;
          lib = libs (ps_attempt b);
          b = b\<lparr>ps_attempt := Suc (ps_attempt b)\<rparr> in
      if \<not> pam_getpwnam lib username then ret (Some False, None, b, s)
      else
        (let ((_, status), b) = create_pam_handle lib b in
         rbind (if status \<noteq> PAM_SUCCESS then ret (Some status, b, s)
                else gs_auth_pam_verify_user quit pump lib (Some func) (b\<lparr>ps_asked := False\<rparr>, s)) (\<lambda>(status, b, s).
         case status of
           None \<Rightarrow> ret (None, None, b, s)
         | Some st \<Rightarrow>
             (let error = (if st \<noteq> PAM_SUCCESS then set_pam_error st b else None) in
              ret (Some (st = PAM_SUCCESS), error, close_pam_handle b, s)))))"

section \<open>The state of the dialog\<close>

lemma run_message_handler_keeps:
  assumes "\<And>s. P s \<Longrightarrow> rwp t (\<lambda>(_, _, s'). P s') (func style msg s)" "\<And>s. P s \<Longrightarrow> rwp t P (pump s)" "P s"
  shows "rwp t (\<lambda>(_, _, s'). P s') (gs_auth_run_message_handler quit pump func style msg s)"
  unfolding gs_auth_run_message_handler_def gs_auth_queued_message_handler_def rbind_assoc
proof (rule rwp_rbindI [OF assms(2) [OF assms(3)]])
  fix s1 assume "P s1"
  then have "rwp t (\<lambda>(_, _, s'). P s') (func style msg s1)" by (rule assms(1))
  then show "rwp t (\<lambda>(_, _, s'). P s') (if quit s1 then ret (False, None, s1)
      else rbind (func style msg s1) (\<lambda>x. rbind (case x of (res, resp, s) \<Rightarrow> ret (res = False, resp, s))
        (\<lambda>(i, resp, s). if quit s then ret (False, None, s) else ret (i = False, resp, s))))"
    using \<open>P s1\<close> by (auto intro!: rwp_if elim!: rwp_mono)
qed

text \<open>The assertion of the local handler never fails: its style comes from \<open>pam_style_to_gs_style\<close>.\<close>

lemma local_handler_total: "rwp t (\<lambda>_. True) (pam_auth_message_handler lib (pam_style_to_gs_style i) msg b)"
  by (simp add: pam_auth_message_handler_def pam_style_to_gs_style_def)

lemma pam_conversation_keeps:
  assumes "\<And>func i msg s. cb_func = Some func \<Longrightarrow> P s \<Longrightarrow> rwp t (\<lambda>(_, _, s'). P s') (func (pam_style_to_gs_style i) msg s)"
    "\<And>s. P s \<Longrightarrow> rwp t P (pump s)" "P (snd bs)"
  shows "rwp t (\<lambda>(_, _, bs'). P (snd bs')) (pam_conversation quit pump lib cb_func msgs bs)"
proof -
  have "rwp t (\<lambda>(_, _, bs'). P (snd bs')) (pam_conversation_loop quit pump lib cb_func msgs reply bs)" for reply
    using assms(3)
  proof (induction msgs arbitrary: reply bs)
    case (Cons m msgs)
    show ?case
    proof (cases cb_func)
      case None
      show ?thesis
        unfolding pam_conversation_loop.simps Let_def None option.case
        by (rule rwp_rbindI [OF local_handler_total]) (use Cons None in auto)
    next
      case (Some func)
      have h: "rwp t (\<lambda>(_, _, s'). P s') (gs_auth_run_message_handler quit pump func (pam_style_to_gs_style i) msg (snd bs))" for i msg
        by (rule run_message_handler_keeps) (use assms(1) [OF Some] assms(2) Cons.prems in auto)
      show ?thesis
        unfolding pam_conversation_loop.simps Let_def Some option.case
        by (rule rwp_rbindI [OF local_handler_total], clarify, rule rwp_rbindI [OF h])
          (use Cons.IH Some in auto)
    qed
  qed simp
  then show ?thesis using assms(3) by (simp add: pam_conversation_def)
qed

lemma pam_thread_keeps:
  assumes "\<And>func i msg s. cb_func = Some func \<Longrightarrow> P s \<Longrightarrow> rwp t (\<lambda>(_, _, s'). P s') (func (pam_style_to_gs_style i) msg s)"
    "\<And>s. P s \<Longrightarrow> rwp t P (pump s)" "P (snd bs)"
  shows "rwp t (\<lambda>(_, bs'). P (snd bs')) (gs_auth_thread_func quit pump lib cb_func bs)"
proof -
  have run: "rwp t (\<lambda>(_, bs'). P (snd bs')) (run_pam (\<lambda>bs. quit (snd bs)) (pam_conversation quit pump lib cb_func) prog bs)"
    if "P (snd bs)" for prog bs
    by (rule run_pam_keeps [where P = "\<lambda>bs. P (snd bs)"], rule pam_conversation_keeps) (use assms that in auto)
  obtain b s where bs: "bs = (b, s)" by (metis prod.exhaust)
  show ?thesis
    unfolding gs_auth_thread_func_def bs Let_def prod.case
  proof (rule rwp_rbindI [OF run], goal_cases)
    case 1
    then show ?case using assms(3) bs by simp
  next
    case (2 x)
    then show ?case
      by (auto split: option.splits intro!: rwp_if rwp_mono [OF run])
  qed
qed

lemma pam_verify_keeps:
  assumes "\<And>i msg s. P s \<Longrightarrow> rwp t (\<lambda>(_, _, s'). P s') (func (pam_style_to_gs_style i) msg s)" "\<And>s. P s \<Longrightarrow> rwp t P (pump s)" "P s"
  shows "rwp t (\<lambda>(_, _, _, s'). P s') (pam_verify_user quit pump libs username func (b, s))"
proof -
  have t: "rwp t (\<lambda>(_, bs'). P (snd bs')) (gs_auth_thread_func quit pump lib (Some func) (b, s))" for lib b
    by (rule pam_thread_keeps) (use assms in auto)
  have v: "rwp t (\<lambda>(_, bs'). P (snd bs')) (gs_auth_pam_verify_user quit pump lib (Some func) (b, s))" for lib b
    unfolding gs_auth_pam_verify_user_def
    by (auto intro!: rwp_if rwp_mono [OF t] rwp_mono [OF assms(2)] simp: assms(3))
  show ?thesis
    unfolding pam_verify_user_def Let_def prod.case
    by (auto simp: assms(3) split: option.splits prod.splits intro!: rwp_if rwp_mono [OF v])
qed

section \<open>The verdict is that of PAM\<close>

text \<open>PAM lets the user in: \<open>pam_authenticate\<close>, with the conversation of the dialog, returns \<open>PAM_SUCCESS\<close>.\<close>

definition pam_approves ::
  "('s \<Rightarrow> bool) \<Rightarrow> ('s \<Rightarrow> 's res) \<Rightarrow> (nat \<Rightarrow> pam_lib) \<Rightarrow> 's msg_func \<Rightarrow> pam_state \<times> 's \<Rightarrow> bool" where
  "pam_approves quit pump libs func bs =
     (let (b, s) = bs;
          lib = libs (ps_attempt b);
          b = b\<lparr>ps_attempt := Suc (ps_attempt b), ps_handle := True, ps_asked := False, ps_sigchld := block_sigchld (ps_sigchld b)\<rparr> in
      case run_pam (\<lambda>bs. quit (snd bs)) (pam_conversation quit pump lib (Some func)) (pam_authenticate lib) (b, s) of
        Inr (Some status, _) \<Rightarrow> status = PAM_SUCCESS
      | _ \<Rightarrow> False)"

lemma close_pam_handle_closed [simp]: "\<not> ps_handle (close_pam_handle b)"
  by (simp add: close_pam_handle_def)

lemma pam_thread_success:
  assumes "gs_auth_thread_func quit pump lib cb_func (b, s) = Inr (Some PAM_SUCCESS, bs')"
  shows "pam_get_user_status lib = PAM_SUCCESS
     \<and> (\<exists>bs1. run_pam (\<lambda>bs. quit (snd bs)) (pam_conversation quit pump lib cb_func) (pam_authenticate lib)
            (b\<lparr>ps_sigchld := block_sigchld (ps_sigchld b)\<rparr>, s) = Inr (Some PAM_SUCCESS, bs1))"
  using assms
  by (fastforce simp: gs_auth_thread_func_def res_simps Let_def split: option.splits if_splits)

lemma create_handle_ok:
  "create_pam_handle lib b = ((r, status), b') \<Longrightarrow> status = PAM_SUCCESS \<Longrightarrow>
     pam_start_status lib = PAM_SUCCESS \<and> pam_set_tty_status lib = PAM_SUCCESS \<and> b' = b\<lparr>ps_handle := True\<rparr>"
  by (cases b) (auto simp: create_pam_handle_def close_pam_handle_def Let_def split: if_splits)

lemma pam_verify_verdict:
  assumes "pam_verify_user quit pump libs username func (b, s) = Inr (Some verdict, error, b', s')"
  shows "(verdict \<longrightarrow> pam_getpwnam (libs (ps_attempt b)) username \<and> pam_start_status (libs (ps_attempt b)) = PAM_SUCCESS
            \<and> pam_approves quit pump libs func (b, s) \<and> error = None)
     \<and> (pam_getpwnam (libs (ps_attempt b)) username \<longrightarrow> \<not> ps_handle b')"
proof (cases "pam_getpwnam (libs (ps_attempt b)) username")
  case True
  define lib where "lib = libs (ps_attempt b)"
  obtain r status b1 where c: "create_pam_handle lib (b\<lparr>ps_attempt := Suc (ps_attempt b)\<rparr>) = ((r, status), b1)"
    by (metis prod.exhaust)
  show ?thesis
  proof (cases "status = PAM_SUCCESS")
    case False
    then show ?thesis using assms True c by (auto simp: pam_verify_user_def lib_def Let_def)
  next
    case ok: True
    note h = create_handle_ok [OF c ok]
    show ?thesis
      using assms True c ok h pam_thread_success [of quit pump lib "Some func"]
      by (fastforce simp: pam_verify_user_def lib_def [symmetric] gs_auth_pam_verify_user_def pam_approves_def res_simps
          Let_def pam_consts split: if_splits option.splits)
  qed
qed (use assms in \<open>simp add: pam_verify_user_def Let_def\<close>)

interpretation pam: auth_backend "pam_verify_user quit pump libs username" pump "pam_approves quit pump libs"
  for quit :: "'s \<Rightarrow> bool" and pump :: "'s \<Rightarrow> 's res" and libs username
proof
  show "pam_approves quit pump libs func (b, s)"
    if "pam_verify_user quit pump libs username func (b, s) = Inr (Some True, err, b', s')" for func b s err b' s'
    using pam_verify_verdict [OF that] by simp
qed (rule pam_verify_keeps [of _ False, unfolded rwp_False])

section \<open>Properties\<close>

text \<open>
  The dialog believes PAM only.  \<open>gs_auth_verify_user\<close> says yes only if the user is known, PAM
  could be started, and \<open>pam_authenticate\<close> succeeded in a conversation with this dialog; there is no
  error then.  Whenever it gives a verdict the handle has been closed.
\<close>

theorem pam_verify_sound:
  assumes "pam_verify_user quit pump libs username func (b, s) = Inr (Some verdict, error, b', s')"
  shows "(verdict \<longrightarrow> pam_getpwnam (libs (ps_attempt b)) username \<and> pam_start_status (libs (ps_attempt b)) = PAM_SUCCESS
            \<and> pam_approves quit pump libs func (b, s) \<and> error = None)
     \<and> (pam_getpwnam (libs (ps_attempt b)) username \<longrightarrow> \<not> ps_handle b')"
  by (rule pam_verify_verdict [OF assms])

text \<open>A PAM stack that asks for the password \<open>secret\<close>, and a dialog whose user types a given text.\<close>

definition sample_pam :: "int \<Rightarrow> pam_lib" where
  "sample_pam account =
     \<lparr>pam_getpwnam = (\<lambda>u. u = ''ann''), pam_start_status = 0, pam_set_tty_status = 0, pam_get_user_status = 0,
      pam_authenticate = Pam_Converse [(1, ''Password: '')] (\<lambda>st rs. Pam_Status (if rs = Some [Some ''secret''] then 0 else 7)),
      pam_acct_mgmt = Pam_Status account, pam_setcred = Pam_Status 0, pam_calloc_fails = False, pam_to_utf8 = Some,
      pam_utf8_valid = length, pam_password_text = ''Password:'', pam_pipe = True, pam_cloexec_read = True, pam_cloexec_write = True\<rparr>"

definition sample_typist :: "string msg_func" where
  "sample_typist style msg s = ret (True, Some s, s)"

definition sample_pam_state :: pam_state where
  "sample_pam_state = \<lparr>ps_handle = False, ps_asked = False, ps_sigchld = 0, ps_attempt = 0\<rparr>"

lemmas pam_defs =
  pam_verify_user_def create_pam_handle_def close_pam_handle_def gs_auth_pam_verify_user_def gs_auth_thread_func_def
  pam_conversation_def gs_auth_run_message_handler_def gs_auth_queued_message_handler_def pam_auth_message_handler_def
  message_to_utf8_def pam_style_to_gs_style_def set_pam_error_def

lemmas sample_pam_defs = sample_pam_def sample_typist_def sample_pam_state_def

lemma sample_verdicts:
  "pam_verify_user (\<lambda>_. False) ret (\<lambda>_. sample_pam 0) ''ann'' sample_typist (sample_pam_state, ''secret'')
     = Inr (Some True, None, sample_pam_state\<lparr>ps_asked := True, ps_attempt := 1\<rparr>, ''secret'')"
  "pam_verify_user (\<lambda>_. False) ret (\<lambda>_. sample_pam 0) ''ann'' sample_typist (sample_pam_state, ''guess'')
     = Inr (Some False, Some (GS_AUTH_ERROR_AUTH_ERROR, ''Incorrect password.''),
            sample_pam_state\<lparr>ps_asked := True, ps_attempt := 1\<rparr>, ''guess'')"
  by (simp_all add: pam_defs sample_pam_defs pam_consts block_sigchld_def unblock_sigchld_def Let_def)

theorem pam_verify_sound_witness:
  "\<exists>e b s. pam_verify_user (\<lambda>_. False) ret (\<lambda>_. sample_pam 0) ''ann'' sample_typist (sample_pam_state, ''secret'') = Inr (Some True, e, b, s)
     \<and> pam_approves (\<lambda>_. False) ret (\<lambda>_. sample_pam 0) sample_typist (sample_pam_state, ''secret'') \<and> \<not> ps_handle b"
  using pam_verify_sound [OF sample_verdicts(1)] sample_verdicts(1) by (simp add: sample_pam_def sample_pam_state_def)

text \<open>
  Authentication comes to an end.  If the messages of the dialog are always answered and its main
  loop returns, \<open>gs_auth_verify_user\<close> returns, for every PAM stack, and what holds for the dialog
  through each message and each turn of the main loop holds afterwards.
\<close>

theorem pam_verify_returns:
  assumes "\<And>i msg s. P s \<Longrightarrow> \<exists>res resp s'. func (pam_style_to_gs_style i) msg s = Inr (res, resp, s') \<and> P s'"
    and "\<And>s. P s \<Longrightarrow> \<exists>s'. pump s = Inr s' \<and> P s'" and "P s"
  shows "\<exists>verdict error b' s'. pam_verify_user quit pump libs username func (b, s) = Inr (verdict, error, b', s') \<and> P s'"
proof -
  have "rwp True (\<lambda>(_, _, _, s'). P s') (pam_verify_user quit pump libs username func (b, s))"
    by (rule pam_verify_keeps) (use assms in \<open>fastforce simp: rwp_True\<close>)+
  then show ?thesis by (auto simp: rwp_True)
qed

theorem pam_verify_returns_witness:
  "\<exists>verdict error b' s'. pam_verify_user (\<lambda>_. False) ret (\<lambda>_. sample_pam 0) ''ann'' sample_typist (sample_pam_state, ''guess'')
     = Inr (verdict, error, b', s') \<and> s' = ''guess''"
  by (rule pam_verify_returns [where P = "\<lambda>s. s = ''guess''"]) (auto simp: sample_typist_def)

text \<open>
  C13: the account modules are run but not obeyed.  Whatever status they return, that the account has expired
  or that nobody may log in now included, the verdict on the user, the error and the state afterwards are
  those of a run in which they succeed, for every PAM stack, callback and state.
\<close>

theorem account_status_ignored:
  "pam_verify_user quit pump (\<lambda>n. (libs n)\<lparr>pam_acct_mgmt := Pam_Status (status n)\<rparr>) username func bs
   = pam_verify_user quit pump (\<lambda>n. (libs n)\<lparr>pam_acct_mgmt := Pam_Status PAM_SUCCESS\<rparr>) username func bs"
proof -
  have h: "pam_auth_message_handler (lib\<lparr>pam_acct_mgmt := a\<rparr>) = pam_auth_message_handler lib"
    "message_to_utf8 (lib\<lparr>pam_acct_mgmt := a\<rparr>) = message_to_utf8 lib" for lib a
  proof -
    show "pam_auth_message_handler (lib\<lparr>pam_acct_mgmt := a\<rparr>) = pam_auth_message_handler lib"
      by (simp add: fun_eq_iff pam_auth_message_handler_def)
    have "replace_invalid (lib\<lparr>pam_acct_mgmt := a\<rparr>) m = replace_invalid lib m" for m
    proof (induction m rule: length_induct)
      case (1 m)
      then show ?case
        by (subst (1 2) replace_invalid.simps) auto
    qed
    then show "message_to_utf8 (lib\<lparr>pam_acct_mgmt := a\<rparr>) = message_to_utf8 lib"
      by (simp add: fun_eq_iff message_to_utf8_def split: option.split)
  qed
  have "pam_conversation_loop quit pump (lib\<lparr>pam_acct_mgmt := a\<rparr>) cb msgs reply bs
      = pam_conversation_loop quit pump lib cb msgs reply bs" for lib a cb msgs reply and bs :: "pam_state \<times> 'a"
    by (cases cb; induction msgs arbitrary: reply bs) (simp_all add: h Let_def cong: if_cong)
  then have c: "pam_conversation quit pump (lib\<lparr>pam_acct_mgmt := a\<rparr>) cb = pam_conversation quit pump lib cb"
    for lib a and cb :: "'a msg_func option"
    by (simp add: fun_eq_iff pam_conversation_def)
  have t: "gs_auth_thread_func quit pump (lib\<lparr>pam_acct_mgmt := Pam_Status (status n)\<rparr>) cb (b, s)
      = gs_auth_thread_func quit pump (lib\<lparr>pam_acct_mgmt := Pam_Status PAM_SUCCESS\<rparr>) cb (b, s)"
    for lib n b s and cb :: "'a msg_func option"
    by (simp add: gs_auth_thread_func_def c Let_def cong: if_cong option.case_cong prod.case_cong)
  show ?thesis
    by (cases bs)
      (simp add: pam_verify_user_def gs_auth_pam_verify_user_def create_pam_handle_def t Let_def
        cong: if_cong option.case_cong prod.case_cong)
qed

end
