(* ===== verification/Helper_Proto.thy ===== *)
theory Helper_Proto
  imports Prelude
begin

text \<open>
  \<open>helper/helper_proto.c\<close>: the framing used on the two pipes between the unlock dialog and the
  set-uid authentication helper.  A descriptor that is read from is a list of the results that
  successive \<open>read\<close> system calls will produce, so that data may arrive in any portions; one that
  is written to carries the bytes written so far and the amounts successive \<open>write\<close> calls will
  accept.  The theorems show that what \<open>write_prompt\<close> sends is what \<open>read_prompt\<close>
  receives whatever the portions are, that no read leaves the caller's buffer, and what the
  readers return on a stream that ends early.
\<close>

type_synonym byte = "8 word"

section \<open>System calls\<close>

datatype rd_event = Rd_Chunk "byte list" | Rd_Err

type_synonym source = "rd_event list"

text \<open>
  One \<open>read (fd, buf, n)\<close>: at most \<open>n\<close> bytes of the portion that has arrived; nothing at the end
  of the stream; \<open>None\<close> stands for the return value -1.
\<close>

fun fd_read :: "nat \<Rightarrow> source \<Rightarrow> byte list option \<times> source" where
  "fd_read n [] = (Some [], [])"
| "fd_read n (Rd_Err # s) = (None, s)"
| "fd_read n (Rd_Chunk bs # s) =
     (Some (take n bs), if length bs \<le> n then s else Rd_Chunk (drop n bs) # s)"

datatype wr_event = Wr_Accept nat | Wr_Err

record sink =
  written :: "byte list"
  accepts :: "wr_event list"

text \<open>
  One \<open>write (fd, buf, n)\<close>: accepts the amount the next event allows; when no event is left it
  accepts everything.
\<close>

definition fd_write :: "byte list \<Rightarrow> sink \<Rightarrow> nat option \<times> sink" where
  "fd_write bs w =
     (case accepts w of
        [] \<Rightarrow> (Some (length bs), w\<lparr>written := written w @ bs\<rparr>)
      | Wr_Err # es \<Rightarrow> (None, w\<lparr>accepts := es\<rparr>)
      | Wr_Accept k # es \<Rightarrow>
          (Some (min k (length bs)),
           w\<lparr>written := written w @ take k bs, accepts := es\<rparr>))"

section \<open>Return codes and object representations\<close>

definition HELPER_IO_ERR :: int where "HELPER_IO_ERR = - 1"
definition HELPER_LENGTH_READ_ERR :: int where "HELPER_LENGTH_READ_ERR = - 2"
definition HELPER_TOO_LONG_ERR :: int where "HELPER_TOO_LONG_ERR = - 3"
definition HELPER_MSG_READ_ERR :: int where "HELPER_MSG_READ_ERR = - 4"
definition HELPER_TYPE_READ_ERR :: int where "HELPER_TYPE_READ_ERR = - 5"
definition HELPER_LENGTH_WRITE_ERR :: int where "HELPER_LENGTH_WRITE_ERR = - 6"
definition HELPER_MSG_WRITE_ERR :: int where "HELPER_MSG_WRITE_ERR = - 7"
definition HELPER_TYPE_WRITE_ERR :: int where "HELPER_TYPE_WRITE_ERR = - 8"

lemmas helper_codes [model_simps] =
  HELPER_IO_ERR_def HELPER_LENGTH_READ_ERR_def HELPER_TOO_LONG_ERR_def HELPER_MSG_READ_ERR_def
  HELPER_TYPE_READ_ERR_def HELPER_LENGTH_WRITE_ERR_def HELPER_MSG_WRITE_ERR_def
  HELPER_TYPE_WRITE_ERR_def

text \<open>Objects are stored little-endian; \<open>sizeof (size_t) = 8\<close> and \<open>sizeof (int) = 4\<close>.\<close>

primrec le_bytes :: "nat \<Rightarrow> nat \<Rightarrow> byte list" where
  "le_bytes 0 x = []"
| "le_bytes (Suc n) x = of_nat (x mod 256) # le_bytes n (x div 256)"

primrec le_val :: "byte list \<Rightarrow> nat" where
  "le_val [] = 0"
| "le_val (b # bs) = unat b + 256 * le_val bs"

definition sizeof_size_t :: nat where "sizeof_size_t = 8"
definition sizeof_int :: nat where "sizeof_int = 4"

definition size_t_bytes :: "nat \<Rightarrow> byte list" where
  "size_t_bytes n = le_bytes 8 (n mod 2 ^ 64)"

definition int_bytes :: "int \<Rightarrow> byte list" where
  "int_bytes i = le_bytes 4 (nat (i mod 2 ^ 32))"

definition bytes_int :: "byte list \<Rightarrow> int" where
  "bytes_int bs = to_int32 (int (le_val bs))"

section \<open>Reading\<close>

text \<open>
  The loop of \<open>read_all\<close>, from \<open>t_rd\<close> on.  The buffer is the object the caller passed; storing
  past its end is a fault.
\<close>

function read_all_loop :: "source \<Rightarrow> byte list \<Rightarrow> nat \<Rightarrow> nat \<Rightarrow> (int \<times> byte list \<times> source) res" where
  "read_all_loop s buf t_rd count =
     (if t_rd < count then
        (case fd_read (count - t_rd) s of
           (None, s') \<Rightarrow> ret (- 1, buf, s')
         | (Some bs, s') \<Rightarrow>
             if bs = [] then ret (int t_rd, buf, s')
             else if length buf < t_rd + length bs then Inl Out_Of_Bounds
             else read_all_loop s' (overwrite buf t_rd bs) (t_rd + length bs) count)
      else ret (int t_rd, buf, s))"
  by pat_completeness auto
termination
  by (relation "measure (\<lambda>(s, buf, t_rd, count). count - t_rd)") (auto intro!: diff_less_mono2)

declare read_all_loop.simps [simp del]

definition read_all :: "source \<Rightarrow> byte list \<Rightarrow> nat \<Rightarrow> (int \<times> byte list \<times> source) res" where
  "read_all s buf count =
     (if count = 0 then ret (0, buf, s) else read_all_loop s buf 0 count)"

text \<open>
  \<open>read_msg\<close> leaves \<open>msg_len\<close> unset when the stream ends before the length: the comparison that
  follows then reads an object that was never written.
\<close>

definition read_msg :: "source \<Rightarrow> byte list \<Rightarrow> nat \<Rightarrow> (int \<times> byte list \<times> source) res" where
  "read_msg s buf length_arg =
     rbind (read_all s (replicate sizeof_size_t 0) sizeof_size_t) (\<lambda>(rd, msg_len_obj, s).
     if rd < 0 then ret (HELPER_IO_ERR, buf, s)
     else if 0 < rd \<and> rd \<noteq> int sizeof_size_t then ret (HELPER_LENGTH_READ_ERR, buf, s)
     else if rd = 0 then Inl Uninit_Read
     else
       (let msg_len = le_val msg_len_obj in
        if length_arg \<le> msg_len then ret (HELPER_TOO_LONG_ERR, buf, s)
        else
          rbind (if 0 < msg_len then read_all s buf msg_len else ret (0, buf, s)) (\<lambda>(rd, buf, s).
          if rd < 0 then ret (HELPER_IO_ERR, buf, s)
          else if rd \<noteq> int msg_len then ret (HELPER_MSG_READ_ERR, buf, s)
          else if length buf \<le> nat rd then Inl Out_Of_Bounds
          else ret (rd, buf[nat rd := 0], s))))"

text \<open>\<open>read_prompt\<close> also returns the value it leaves in \<open>*length\<close>.\<close>

definition read_prompt :: "source \<Rightarrow> byte list \<Rightarrow> nat \<Rightarrow> (int \<times> byte list \<times> nat \<times> source) res" where
  "read_prompt s buf length_arg =
     rbind (read_all s (replicate sizeof_int 0) sizeof_int) (\<lambda>(rd, msg_type_obj, s).
     if rd = 0 then ret (0, buf, length_arg, s)
     else if rd < 0 then ret (HELPER_IO_ERR, buf, length_arg, s)
     else if 0 < rd \<and> rd \<noteq> int sizeof_int then ret (HELPER_TYPE_READ_ERR, buf, length_arg, s)
     else
       rbind (read_msg s buf length_arg) (\<lambda>(rd64, buf, s).
       let rd = to_int32 rd64 in
       if rd < 0 then ret (rd, buf, length_arg, s)
       else ret (bytes_int msg_type_obj, buf, nat rd, s)))"

section \<open>Writing\<close>

function write_all_loop :: "sink \<Rightarrow> byte list \<Rightarrow> nat \<Rightarrow> nat \<Rightarrow> int \<times> sink" where
  "write_all_loop w buf t_wt count =
     (if t_wt < count then
        (case fd_write (take (count - t_wt) (drop t_wt buf)) w of
           (None, w') \<Rightarrow> (- 1, w')
         | (Some wt, w') \<Rightarrow>
             if wt = 0 then (int t_wt, w') else write_all_loop w' buf (t_wt + wt) count)
      else (int t_wt, w))"
  by pat_completeness auto
termination
  by (relation "measure (\<lambda>(w, buf, t_wt, count). count - t_wt)") auto

declare write_all_loop.simps [simp del]

definition write_all :: "sink \<Rightarrow> byte list \<Rightarrow> nat \<Rightarrow> int \<times> sink" where
  "write_all w buf count = (if count = 0 then (0, w) else write_all_loop w buf 0 count)"

definition write_msg :: "sink \<Rightarrow> byte list \<Rightarrow> nat \<Rightarrow> int \<times> sink" where
  "write_msg w buf length_arg =
     (let (wt, w) = write_all w (size_t_bytes length_arg) sizeof_size_t in
      if wt < 0 then (HELPER_IO_ERR, w)
      else if 0 < wt \<and> wt \<noteq> int sizeof_size_t then (HELPER_LENGTH_WRITE_ERR, w)
      else if 0 < length_arg then
        (let (wt, w) = write_all w buf length_arg in
         if wt < 0 then (HELPER_IO_ERR, w)
         else if wt \<noteq> int length_arg then (HELPER_MSG_WRITE_ERR, w)
         else (wt, w))
      else (0, w))"

definition write_prompt :: "sink \<Rightarrow> int \<Rightarrow> byte list \<Rightarrow> nat \<Rightarrow> int \<times> sink" where
  "write_prompt w msg_type buf length_arg =
     (let (wt, w) = write_all w (int_bytes msg_type) sizeof_int in
      if wt < 0 then (HELPER_IO_ERR, w)
      else if 0 < wt \<and> wt \<noteq> int sizeof_int then (HELPER_TYPE_WRITE_ERR, w)
      else
        (let (wt, w) = write_msg w buf length_arg in (to_int32 wt, w)))"

section \<open>Object representations round trip\<close>

lemma length_le_bytes [simp]: "length (le_bytes n x) = n"
  by (induction n arbitrary: x) simp_all

lemma le_bytes_numeral [simp]:
  "le_bytes (numeral k) x = of_nat (x mod 256) # le_bytes (pred_numeral k) (x div 256)"
  by (simp only: numeral_eq_Suc [of k] le_bytes.simps)

lemma le_val_le_bytes: "x < 256 ^ n \<Longrightarrow> le_val (le_bytes n x) = x"
proof (induction n arbitrary: x)
  case 0
  then show ?case by simp
next
  case (Suc n)
  have "x div 256 < 256 ^ n" using Suc.prems by (simp add: less_mult_imp_div_less mult.commute)
  then have "le_val (le_bytes n (x div 256)) = x div 256" by (rule Suc.IH)
  moreover have "unat (of_nat (x mod 256) :: byte) = x mod 256"
    by (simp add: unat_of_nat take_bit_eq_mod)
  ultimately show ?case by simp
qed

text \<open>
  What the readers and the writers need of a stored object: a fixed number of bytes from which its
  value is recovered.
\<close>

locale fixed_codec =
  fixes enc :: "'a \<Rightarrow> byte list" and dec :: "byte list \<Rightarrow> 'a" and width :: nat
    and valid :: "'a \<Rightarrow> bool"
  assumes width_pos: "0 < width"
    and length_enc: "length (enc x) = width"
    and dec_enc: "valid x \<Longrightarrow> dec (enc x) = x"
begin

lemma enc_inject: "valid x \<Longrightarrow> valid y \<Longrightarrow> enc x = enc y \<Longrightarrow> x = y"
  using dec_enc by metis

lemma dec_take: "valid x \<Longrightarrow> dec (take width (enc x @ rest)) = x"
  by (simp add: length_enc dec_enc)

lemma drop_width: "drop width (enc x @ rest) = rest"
  by (simp add: length_enc)

end

interpretation size_t_codec: fixed_codec size_t_bytes le_val sizeof_size_t "\<lambda>n. n < 2 ^ 64"
proof unfold_locales
  show "0 < sizeof_size_t" by (simp add: sizeof_size_t_def)
next
  fix n show "length (size_t_bytes n) = sizeof_size_t"
    by (simp add: size_t_bytes_def sizeof_size_t_def)
next
  fix n :: nat assume "n < 2 ^ 64"
  then show "le_val (size_t_bytes n) = n"
    using le_val_le_bytes [of n 8] by (simp add: size_t_bytes_def del: le_bytes_numeral)
qed

interpretation int_codec: fixed_codec int_bytes bytes_int sizeof_int "\<lambda>i. - (2 ^ 31) \<le> i \<and> i < 2 ^ 31"
proof unfold_locales
  show "0 < sizeof_int" by (simp add: sizeof_int_def)
next
  fix i show "length (int_bytes i) = sizeof_int"
    by (simp add: int_bytes_def sizeof_int_def)
next
  fix i :: int assume i: "- (2 ^ 31) \<le> i \<and> i < 2 ^ 31"
  have "nat (i mod 2 ^ 32) < 256 ^ 4" by simp
  then have "le_val (int_bytes i) = nat (i mod 2 ^ 32)"
    unfolding int_bytes_def by (rule le_val_le_bytes)
  then have "bytes_int (int_bytes i) = to_int32 (i mod 2 ^ 32)"
    by (simp add: bytes_int_def)
  also have "\<dots> = to_int32 i"
    unfolding to_int32_def by (simp add: mod_simps)
  also have "\<dots> = i" using i by simp
  finally show "bytes_int (int_bytes i) = i" .
qed

section \<open>Streams\<close>

text \<open>
  A source on which no call fails and no call returns zero before the end, and the bytes it
  still holds.
\<close>

fun clean :: "source \<Rightarrow> bool" where
  "clean [] = True"
| "clean (Rd_Err # s) = False"
| "clean (Rd_Chunk bs # s) = (bs \<noteq> [] \<and> clean s)"

fun pending_bytes :: "source \<Rightarrow> byte list" where
  "pending_bytes [] = []"
| "pending_bytes (Rd_Err # s) = []"
| "pending_bytes (Rd_Chunk bs # s) = bs @ pending_bytes s"

lemma fd_read_clean:
  assumes "clean s" "0 < n"
  obtains bs s' where "fd_read n s = (Some bs, s')" "clean s'"
    "pending_bytes s = bs @ pending_bytes s'" "length bs \<le> n"
    "bs = [] \<longleftrightarrow> pending_bytes s = []"
  using assms
proof (cases s rule: clean.cases)
  case 1
  then show ?thesis using that [of "[]" "[]"] by simp
next
  case 2
  then show ?thesis using assms by simp
next
  case (3 cs r)
  show ?thesis
  proof (cases "length cs \<le> n")
    case True
    then show ?thesis using that [of cs r] 3 assms by simp
  next
    case False
    have "cs = take n cs @ drop n cs" by simp
    then show ?thesis
      using that [of "take n cs" "Rd_Chunk (drop n cs) # r"] 3 assms False by auto
  qed
qed

text \<open>The loop collects bytes until it has enough or the stream ends.\<close>

lemma read_all_loop_clean:
  assumes "clean s" "count \<le> length buf" "t \<le> count"
  defines "n \<equiv> min (count - t) (length (pending_bytes s))"
  shows "\<exists>s'. read_all_loop s buf t count =
           Inr (int (t + n), overwrite buf t (take n (pending_bytes s)), s')
         \<and> clean s' \<and> pending_bytes s' = drop n (pending_bytes s)"
  using assms(1-3) unfolding n_def
proof (induction s buf t count rule: read_all_loop.induct)
  case (1 s buf t count)
  show ?case
  proof (cases "t < count")
    case False
    then show ?thesis using 1(2-4) by (simp add: read_all_loop.simps)
  next
    case True
    then have "0 < count - t" by simp
    then obtain bs s1 where step: "fd_read (count - t) s = (Some bs, s1)" "clean s1"
      "pending_bytes s = bs @ pending_bytes s1" "length bs \<le> count - t"
      "bs = [] \<longleftrightarrow> pending_bytes s = []"
      using fd_read_clean [OF 1(2)] by metis
    show ?thesis
    proof (cases "bs = []")
      case True
      with step \<open>t < count\<close> show ?thesis by (simp add: read_all_loop.simps)
    next
      case False
      have fits: "t + length bs \<le> count" using step(4) \<open>t < count\<close> by simp
      let ?b = "overwrite buf t bs" and ?n = "min (count - (t + length bs)) (length (pending_bytes s1))"
      have "\<exists>s'. read_all_loop s1 ?b (t + length bs) count =
           Inr (int (t + length bs + ?n), overwrite ?b (t + length bs) (take ?n (pending_bytes s1)), s')
         \<and> clean s' \<and> pending_bytes s' = drop ?n (pending_bytes s1)"
        using 1(1) [OF \<open>t < count\<close> step(1) [symmetric]] fits False step(2) 1(3) by auto
      then obtain s' where rec: "read_all_loop s1 ?b (t + length bs) count =
           Inr (int (t + length bs + ?n), overwrite ?b (t + length bs) (take ?n (pending_bytes s1)), s')"
        "clean s'" "pending_bytes s' = drop ?n (pending_bytes s1)" by blast
      have "overwrite ?b (t + length bs) (take ?n (pending_bytes s1)) =
          overwrite buf t (bs @ take ?n (pending_bytes s1))"
        using fits 1(3) by (intro overwrite_overwrite) auto
      moreover have n: "min (count - t) (length (pending_bytes s)) = length bs + ?n"
        using fits step(3) by simp
      moreover have "read_all_loop s buf t count = read_all_loop s1 ?b (t + length bs) count"
        using False fits \<open>t < count\<close> step(1) 1(3) by (subst read_all_loop.simps) simp
      ultimately show ?thesis
        unfolding n step(3) rec(1) using rec(2,3) by (simp add: add.assoc)
    qed
  qed
qed

lemma read_all_clean:
  assumes "clean s" "count \<le> length buf"
  defines "n \<equiv> min count (length (pending_bytes s))"
  shows "\<exists>s'. read_all s buf count = Inr (int n, overwrite buf 0 (take n (pending_bytes s)), s')
         \<and> clean s' \<and> pending_bytes s' = drop n (pending_bytes s)"
  using read_all_loop_clean [OF assms(1,2), of 0] assms(1)
  by (auto simp: read_all_def n_def)

text \<open>Reading a whole stored object of the stream.\<close>

context fixed_codec
begin

lemma read_object:
  assumes "clean s" "pending_bytes s = enc x @ rest"
  obtains s' where "read_all s (replicate width 0) width = Inr (int width, enc x, s')"
    "clean s'" "pending_bytes s' = rest"
proof -
  have n: "min width (length (pending_bytes s)) = width"
    using assms(2) length_enc by simp
  have "overwrite (replicate width 0) 0 (take width (pending_bytes s)) = enc x"
    using assms(2) length_enc by (simp add: overwrite_whole)
  moreover have "drop width (pending_bytes s) = rest"
    using assms(2) length_enc by simp
  ultimately show ?thesis
    using that read_all_clean [OF assms(1), of width "replicate width 0"] n by auto
qed

end

text \<open>A sink whose \<open>write\<close> calls fail never and always accept something.\<close>

definition accepting :: "sink \<Rightarrow> bool" where
  "accepting w = (\<forall>e \<in> set (accepts w). \<exists>k. e = Wr_Accept (Suc k))"

lemma fd_write_accepting:
  assumes "accepting w" "bs \<noteq> []"
  obtains k w' where "fd_write bs w = (Some k, w')" "0 < k" "k \<le> length bs"
    "written w' = written w @ take k bs" "accepting w'"
proof (cases "accepts w")
  case Nil
  then show ?thesis using that [of "length bs"] assms by (simp add: fd_write_def accepting_def)
next
  case (Cons e es)
  then obtain k where "e = Wr_Accept (Suc k)" using assms(1) by (auto simp: accepting_def)
  moreover have "take (Suc k) bs = take (min (Suc k) (length bs)) bs" by (simp add: min_def)
  ultimately show ?thesis
    using that [of "min (Suc k) (length bs)"] Cons assms
    by (simp add: fd_write_def accepting_def)
qed

lemma write_all_loop_accepting:
  assumes "accepting w" "count \<le> length buf" "t \<le> count"
  shows "\<exists>w'. write_all_loop w buf t count = (int count, w') \<and> accepting w'
         \<and> written w' = written w @ take (count - t) (drop t buf)"
  using assms
proof (induction w buf t count rule: write_all_loop.induct)
  case (1 w buf t count)
  show ?case
  proof (cases "t < count")
    case False
    then show ?thesis using 1(2-4) by (simp add: write_all_loop.simps)
  next
    case True
    let ?bs = "take (count - t) (drop t buf)"
    have len: "length ?bs = count - t" using 1(3) True by simp
    then have "?bs \<noteq> []" using True by auto
    then obtain k w1 where step: "fd_write ?bs w = (Some k, w1)" "0 < k" "k \<le> length ?bs"
      "written w1 = written w @ take k ?bs" "accepting w1"
      using fd_write_accepting [OF 1(2)] by metis
    have "k \<le> count - t" using step(3) unfolding len .
    then have k: "t + k \<le> count" using True by simp
    obtain w' where rec: "write_all_loop w1 buf (t + k) count = (int count, w')" "accepting w'"
      "written w' = written w1 @ take (count - (t + k)) (drop (t + k) buf)"
      using 1(1) [OF True step(1) [symmetric]] step(2,5) 1(3) k by auto
    have "?bs = take (k + (count - (t + k))) (drop t buf)" using k by simp
    also have "\<dots> = take k ?bs @ take (count - (t + k)) (drop (t + k) buf)"
      using k by (simp only: take_add drop_drop) (simp add: add.commute)
    finally have bs: "?bs = take k ?bs @ take (count - (t + k)) (drop (t + k) buf)" .
    have "written w' = written w @ ?bs" using bs rec(3) step(4) by (metis append_assoc)
    moreover have "write_all_loop w buf t count = write_all_loop w1 buf (t + k) count"
      using True step(1,2) by (subst write_all_loop.simps) simp
    ultimately show ?thesis using rec by simp
  qed
qed

lemma write_all_accepting:
  assumes "accepting w" "count \<le> length buf"
  obtains w' where "write_all w buf count = (int count, w')" "accepting w'"
    "written w' = written w @ take count buf"
  using write_all_loop_accepting [OF assms, of 0] assms(1)
  by (cases "count = 0") (auto simp: write_all_def)

lemma write_msg_accepting:
  assumes "accepting w"
  obtains w' where "write_msg w msg (length msg) = (int (length msg), w')" "accepting w'"
    "written w' = written w @ size_t_bytes (length msg) @ msg"
proof -
  obtain w1 where w1: "write_all w (size_t_bytes (length msg)) sizeof_size_t = (int sizeof_size_t, w1)"
    "accepting w1" "written w1 = written w @ size_t_bytes (length msg)"
    using write_all_accepting [OF assms, of sizeof_size_t "size_t_bytes (length msg)"]
    by (auto simp: size_t_codec.length_enc)
  obtain w2 where w2: "write_all w1 msg (length msg) = (int (length msg), w2)" "accepting w2"
    "written w2 = written w1 @ msg"
    using write_all_accepting [OF w1(2), of "length msg" msg] by auto
  show ?thesis
  proof (cases "msg = []")
    case True
    then show ?thesis using that [of w1] w1 by (simp add: write_msg_def)
  next
    case False
    then show ?thesis using that [of w2] w1 w2 by (simp add: write_msg_def)
  qed
qed

lemma write_prompt_accepting:
  assumes "accepting w" "length msg < 2 ^ 31"
  obtains w' where "write_prompt w ty msg (length msg) = (int (length msg), w')" "accepting w'"
    "written w' = written w @ int_bytes ty @ size_t_bytes (length msg) @ msg"
proof -
  obtain w1 where w1: "write_all w (int_bytes ty) sizeof_int = (int sizeof_int, w1)"
    "accepting w1" "written w1 = written w @ int_bytes ty"
    using write_all_accepting [OF assms(1), of sizeof_int "int_bytes ty"]
    by (auto simp: int_codec.length_enc)
  obtain w2 where "write_msg w1 msg (length msg) = (int (length msg), w2)" "accepting w2"
    "written w2 = written w1 @ size_t_bytes (length msg) @ msg"
    using write_msg_accepting [OF w1(2)] by blast
  then show ?thesis using that [of w2] w1 assms(2) by (simp add: write_prompt_def)
qed

section \<open>Messages\<close>

lemma read_msg_frame:
  assumes "clean s" "pending_bytes s = size_t_bytes (length msg) @ msg @ rest"
    "length msg < L" "L \<le> length buf" "L < 2 ^ 64"
  obtains s' where
    "read_msg s buf L = Inr (int (length msg), (overwrite buf 0 msg)[length msg := 0], s')"
    "clean s'" "pending_bytes s' = rest"
proof -
  obtain s1 where s1: "read_all s (replicate sizeof_size_t 0) sizeof_size_t
      = Inr (int sizeof_size_t, size_t_bytes (length msg), s1)" "clean s1" "pending_bytes s1 = msg @ rest"
    using size_t_codec.read_object [OF assms(1)] assms(2) by metis
  have v: "le_val (size_t_bytes (length msg)) = length msg"
    using assms(3,5) by (intro size_t_codec.dec_enc) simp
  obtain s2 where s2: "read_all s1 buf (length msg) = Inr (int (length msg), overwrite buf 0 msg, s2)"
      "clean s2" "pending_bytes s2 = rest"
    using read_all_clean [OF s1(2), of "length msg" buf] s1(3) assms(3,4) by auto
  show ?thesis
  proof (cases "msg = []")
    case True
    moreover have "buf \<noteq> []" using assms(3,4) by auto
    ultimately show ?thesis
      using that [of s1] s1 v assms(3,4) by (simp add: read_msg_def sizeof_size_t_def Let_def)
  next
    case False
    then show ?thesis
      using that [of s2] s1 s2 v assms(3,4) by (simp add: read_msg_def sizeof_size_t_def Let_def)
  qed
qed

lemma read_prompt_frame:
  assumes "clean s" "pending_bytes s = int_bytes ty @ size_t_bytes (length msg) @ msg @ rest"
    "- (2 ^ 31) \<le> ty" "ty < 2 ^ 31" "length msg < L" "L \<le> length buf" "L < 2 ^ 31"
  obtains s' where
    "read_prompt s buf L = Inr (ty, (overwrite buf 0 msg)[length msg := 0], length msg, s')"
    "clean s'" "pending_bytes s' = rest"
proof -
  obtain s1 where s1: "read_all s (replicate sizeof_int 0) sizeof_int = Inr (int sizeof_int, int_bytes ty, s1)"
      "clean s1" "pending_bytes s1 = size_t_bytes (length msg) @ msg @ rest"
    using int_codec.read_object [OF assms(1)] assms(2) by metis
  have "L < 2 ^ 64" using assms(7) by simp
  then obtain s2 where "read_msg s1 buf L = Inr (int (length msg), (overwrite buf 0 msg)[length msg := 0], s2)"
      "clean s2" "pending_bytes s2 = rest"
    using read_msg_frame [OF s1(2,3) assms(5,6)] by blast
  moreover have "bytes_int (int_bytes ty) = ty" using assms(3,4) by (simp add: int_codec.dec_enc)
  ultimately show ?thesis
    using that [of s2] s1 assms(5,7) by (simp add: read_prompt_def sizeof_int_def)
qed

text \<open>Whatever the system calls do, the loop stays inside a buffer of the requested size.\<close>

lemma fd_read_length: "fd_read n s = (Some bs, s') \<Longrightarrow> length bs \<le> n"
  by (cases s rule: clean.cases) auto

lemma read_all_loop_bounds:
  assumes "count \<le> length buf" "t \<le> count"
  shows "\<exists>r b s'. read_all_loop s buf t count = Inr (r, b, s') \<and> length b = length buf
         \<and> - 1 \<le> r \<and> r \<le> int count"
  using assms
proof (induction s buf t count rule: read_all_loop.induct)
  case (1 s buf t count)
  show ?case
  proof (cases "t < count")
    case False
    then show ?thesis using 1(2,3) by (simp add: read_all_loop.simps)
  next
    case True
    obtain o1 s1 where step: "fd_read (count - t) s = (o1, s1)" by fastforce
    show ?thesis
    proof (cases o1)
      case None
      then show ?thesis using step True by (simp add: read_all_loop.simps)
    next
      case (Some bs)
      then have "length bs \<le> count - t" using step fd_read_length by blast
      then have fits: "t + length bs \<le> count" using True by simp
      show ?thesis
      proof (cases "bs = []")
        case True
        then show ?thesis using step Some \<open>t < count\<close> by (subst read_all_loop.simps) simp
      next
        case False
        then show ?thesis
          using step Some True fits 1(2) 1(1) [OF True step [symmetric] Some]
          by (subst read_all_loop.simps) simp
      qed
    qed
  qed
qed

lemma read_all_bounds:
  assumes "count \<le> length buf"
  obtains r b s' where "read_all s buf count = Inr (r, b, s')" "length b = length buf"
    "- 1 \<le> r" "r \<le> int count"
  using read_all_loop_bounds [OF assms, of 0 s] by (cases "count = 0") (auto simp: read_all_def)

text \<open>
  The contract of \<open>read_msg\<close> on any stream: no fault but the unset length, the buffer keeps its
  size, and a message that is reported is terminated inside the first \<open>L\<close> bytes.
\<close>

lemma read_msg_bounds:
  assumes "L \<le> length buf"
  shows "case read_msg s buf L of
           Inl e \<Rightarrow> e = Uninit_Read
         | Inr (r, b, s') \<Rightarrow> length b = length buf
             \<and> (0 \<le> r \<and> r < int L \<and> b ! nat r = 0
                \<or> r \<in> {HELPER_IO_ERR, HELPER_LENGTH_READ_ERR, HELPER_TOO_LONG_ERR, HELPER_MSG_READ_ERR})"
proof -
  obtain r1 o1 s1 where r1: "read_all s (replicate sizeof_size_t 0) sizeof_size_t = Inr (r1, o1, s1)"
    using read_all_bounds [of sizeof_size_t "replicate sizeof_size_t 0" s] by (metis length_replicate order_refl)
  show ?thesis
  proof (cases "0 < le_val o1 \<and> le_val o1 < L")
    case True
    then obtain r2 b s2 where "read_all s1 buf (le_val o1) = Inr (r2, b, s2)" "length b = length buf"
      using read_all_bounds [of "le_val o1" buf s1] assms by (metis less_imp_le_nat order_trans)
    then show ?thesis
      using True r1 assms by (simp add: read_msg_def Let_def model_simps)
  next
    case False
    then show ?thesis
      using r1 assms by (auto simp: read_msg_def Let_def model_simps)
  qed
qed

section \<open>Properties\<close>

text \<open>
  C23: the framing is loss-free.  What one \<open>write_prompt\<close> sends over a sink that accepts it in
  portions of any size is what one \<open>read_prompt\<close> receives, in portions of any size: the type, the
  text with its terminating zero, its length; the bytes that follow stay in the stream.
\<close>

theorem helper_proto_roundtrip:
  assumes "accepting w" "written w = []"
    and "write_prompt w ty msg (length msg) = (wt, w')"
    and "clean s" "pending_bytes s = written w' @ rest"
    and "- (2 ^ 31) \<le> ty" "ty < 2 ^ 31"
    and "length msg < L" "L \<le> length buf" "L < 2 ^ 31"
  shows "wt = int (length msg)
       \<and> (\<exists>buf' s'. read_prompt s buf L = Inr (ty, buf', length msg, s')
            \<and> take (length msg) buf' = msg \<and> buf' ! length msg = 0
            \<and> clean s' \<and> pending_bytes s' = rest)"
proof -
  have short: "length msg < 2 ^ 31" using assms(8,10) by simp
  obtain w2 where w2: "write_prompt w ty msg (length msg) = (int (length msg), w2)"
    "written w2 = written w @ int_bytes ty @ size_t_bytes (length msg) @ msg"
    using write_prompt_accepting [OF assms(1) short] by metis
  then have eqs: "wt = int (length msg)" "w' = w2" using assms(3) by auto
  have "pending_bytes s = int_bytes ty @ size_t_bytes (length msg) @ msg @ rest"
    using assms(2,5) w2(2) eqs(2) by simp
  then obtain s' where "read_prompt s buf L = Inr (ty, (overwrite buf 0 msg)[length msg := 0], length msg, s')"
      "clean s'" "pending_bytes s' = rest"
    using read_prompt_frame [OF assms(4) _ assms(6-10)] by blast
  then show ?thesis
    using eqs(1) assms(8,9) by (simp add: take_overwrite_0)
qed

theorem helper_proto_roundtrip_witness:
  "\<exists>buf' s'. read_prompt
       [Rd_Chunk [1, 0], Rd_Chunk [0, 0, 2, 0, 0], Rd_Chunk [0, 0, 0, 0, 0, 104], Rd_Chunk [105]]
       (replicate 4 7) 4 = Inr (1, buf', 2, s')
     \<and> take 2 buf' = [104, 105] \<and> buf' ! 2 = 0 \<and> pending_bytes s' = []"
proof -
  let ?w = "\<lparr>written = [], accepts = [Wr_Accept 3, Wr_Accept 1]\<rparr>"
  let ?s = "[Rd_Chunk [1, 0], Rd_Chunk [0, 0, 2, 0, 0], Rd_Chunk [0, 0, 0, 0, 0, 104], Rd_Chunk [105 :: byte]]"
  have a: "accepting ?w" by (auto simp: accepting_def numeral_eq_Suc)
  have l: "length [104, 105 :: byte] < 2 ^ 31" by simp
  obtain w' where w': "write_prompt ?w 1 [104, 105] (length [104, 105 :: byte]) = (int (length [104, 105 :: byte]), w')"
      "written w' = written ?w @ int_bytes 1 @ size_t_bytes (length [104, 105 :: byte]) @ [104, 105]"
    by (rule write_prompt_accepting [OF a l, of 1])
  have "int_bytes 1 = [1, 0, 0, 0]" "size_t_bytes 2 = [2, 0, 0, 0, 0, 0, 0, 0]"
    by (simp_all add: int_bytes_def size_t_bytes_def)
  then have p: "pending_bytes ?s = written w' @ []" using w'(2) by (simp add: numeral_2_eq_2)
  have c: "clean ?s" by simp
  have "\<exists>buf' s'. read_prompt ?s (replicate 4 7) 4 = Inr (1, buf', length [104, 105 :: byte], s')
     \<and> take (length [104, 105 :: byte]) buf' = [104, 105] \<and> buf' ! length [104, 105 :: byte] = 0
     \<and> clean s' \<and> pending_bytes s' = []"
    by (rule helper_proto_roundtrip [OF a _ w'(1) c p, of 4 "replicate 4 7", THEN conjunct2]) simp_all
  then show ?thesis by (auto simp: numeral_2_eq_2)
qed

text \<open>
  C24: the reader is safe, and its result says what is in the buffer.  Whatever the peer sends and however the
  reads fail, \<open>read_prompt\<close> with a buffer of at least \<open>L\<close> bytes stores nothing outside it.  Either it reports the type
  it has read, and then the length is below \<open>L\<close> with a terminating zero at that index; or it leaves the length
  as it was and reports an error, or 0 at the end of the stream with the buffer untouched.  The only fault
  left is the use of the unset length after an end of stream behind the type.
\<close>

theorem read_prompt_safe:
  assumes "L \<le> length buf" "L < 2 ^ 31"
  shows "case read_prompt s buf L of
           Inl e \<Rightarrow> e = Uninit_Read
         | Inr (r, buf', n, s') \<Rightarrow> length buf' = length buf
             \<and> (n < L \<and> buf' ! n = 0
                  \<and> (\<exists>obj s1. read_all s (replicate sizeof_int 0) sizeof_int = Inr (int sizeof_int, obj, s1) \<and> r = bytes_int obj)
                \<or> n = L \<and> r = 0 \<and> buf' = buf
                \<or> n = L \<and> r \<in> {HELPER_IO_ERR, HELPER_TYPE_READ_ERR, HELPER_LENGTH_READ_ERR, HELPER_TOO_LONG_ERR, HELPER_MSG_READ_ERR})"
proof -
  obtain r1 o1 s1 where r1: "read_all s (replicate sizeof_int 0) sizeof_int = Inr (r1, o1, s1)"
    using read_all_bounds [of sizeof_int "replicate sizeof_int 0" s] by (metis length_replicate order_refl)
  show ?thesis
  proof (cases "read_msg s1 buf L")
    case (Inl e)
    then show ?thesis using read_msg_bounds [OF assms(1), of s1] r1 by (auto simp: read_prompt_def)
  next
    case (Inr t)
    obtain r b s2 where t: "t = (r, b, s2)" by (cases t)
    have b: "length b = length buf" "0 \<le> r \<and> r < int L \<and> b ! nat r = 0
        \<or> r \<in> {HELPER_IO_ERR, HELPER_LENGTH_READ_ERR, HELPER_TOO_LONG_ERR, HELPER_MSG_READ_ERR}"
      using read_msg_bounds [OF assms(1), of s1] Inr t by simp_all
    then have "to_int32 r = r" using assms(2) by (auto simp: helper_codes)
    then show ?thesis
      using b Inr t r1 by (auto simp: read_prompt_def Let_def nat_less_iff helper_codes)
  qed
qed

theorem read_prompt_safe_witness:
  "case read_prompt [Rd_Chunk [3, 0, 0, 0, 255, 255], Rd_Err] (replicate 4 0) 4 of
     Inl e \<Rightarrow> e = Uninit_Read
   | Inr (r, buf', n, s') \<Rightarrow> length buf' = 4 \<and> (n < 4 \<and> buf' ! n = 0 \<or> n = 4 \<and> - 5 \<le> r \<and> r \<le> 0)"
  using read_prompt_safe [of 4 "replicate 4 0" "[Rd_Chunk [3, 0, 0, 0, 255, 255], Rd_Err]"]
  by (auto simp: helper_codes split: sum.splits prod.splits)

text \<open>
  A peer that goes away.  On a stream that ends with fewer bytes than the type,
  \<open>read_prompt\<close> reports the end (0) or \<open>HELPER_TYPE_READ_ERR\<close>; right behind the type,
  \<open>read_msg\<close> compares a length that was never stored.
\<close>

theorem read_prompt_truncated:
  assumes "clean s" "length (pending_bytes s) \<le> 4"
  shows "read_prompt s buf L =
     (if pending_bytes s = [] then Inr (0, buf, L, [])
      else if length (pending_bytes s) < 4 then Inr (HELPER_TYPE_READ_ERR, buf, L, [])
      else Inl Uninit_Read)"
proof -
  have nil: "r = []" if "clean r" "pending_bytes r = []" for r
    using that by (cases r rule: clean.cases) auto
  obtain o1 s1 where s1: "read_all s (replicate sizeof_int 0) sizeof_int = Inr (int (length (pending_bytes s)), o1, s1)"
    "clean s1" "pending_bytes s1 = []"
    using read_all_clean [OF assms(1), of sizeof_int "replicate sizeof_int 0"] assms(2)
    by (auto simp: sizeof_int_def min_def)
  have "s1 = []" using nil [OF s1(2,3)] .
  moreover have "read_msg [] buf L = Inl Uninit_Read"
    by (simp add: read_msg_def read_all_def sizeof_size_t_def read_all_loop.simps)
  ultimately show ?thesis
    using s1(1) assms(2) by (auto simp: read_prompt_def sizeof_int_def)
qed

theorem read_prompt_truncated_witness:
  "read_prompt [Rd_Chunk [1, 0], Rd_Chunk [0, 0]] [0, 0] 2 = Inl Uninit_Read"
  using read_prompt_truncated [of "[Rd_Chunk [1, 0], Rd_Chunk [0, 0]]" "[0, 0]" 2] by simp

end
