(* ===== verification/GS_Auth_Helper.thy ===== *)
theory GS_Auth_Helper
  imports GS_Auth_Pam Helper_Proto
begin

text \<open>
  \<open>src/gs-auth-helper.c\<close> and \<open>helper/pam-helper.c\<close>: authentication by a set-uid helper.  The dialog
  starts the helper with two pipes; the helper calls PAM, whose conversation function sends every
  message through one pipe and waits for the answer on the other.  Both ends use the framing of
  \<open>Helper_Proto\<close>, down to the bytes.  The helper is a tree: what it does next depends on the bytes
  it receives.  PAM, the system calls and the portions in which the pipes carry data are parameters.
\<close>

section \<open>Pipes and strings\<close>

text \<open>
  How the bytes of one end arrive at the other, and the amounts the \<open>write\<close> calls accept.
\<close>

record pipe_env =
  pp_cut :: "byte list \<Rightarrow> source"
  pp_room :: "wr_event list"

definition empty_sink :: "pipe_env \<Rightarrow> sink" where
  "empty_sink p = \<lparr>written = [], accepts = pp_room p\<rparr>"

definition string_bytes :: "string \<Rightarrow> byte list" where
  "string_bytes s = map (\<lambda>c. of_nat (of_char c)) s"

text \<open>The string that a buffer holds, up to its first zero.\<close>

definition c_string :: "byte list \<Rightarrow> string" where
  "c_string bs = map (\<lambda>b. char_of (unat b)) (takeWhile (\<lambda>b. b \<noteq> 0) bs)"

definition MAXLEN :: nat where "MAXLEN = 1024"

section \<open>The helper\<close>

text \<open>
  The helper as its parent sees it: it sends bytes and waits for an answer; or it ends, which
  \<open>waitpid\<close> reports only after it has been asked some more times.  The status is missing when it was
  killed by a signal.  A fault is undefined behaviour in the helper.
\<close>

datatype child =
    Child_Exit nat "int option"
  | Child_Fault fault
  | Child_Prompt "byte list" "byte list \<Rightarrow> child"

record helper_env =
  he_pipe :: pipe_env
  he_malloc_fails :: bool
  he_resp_malloc_fails :: "nat \<Rightarrow> bool"
  he_start_status :: int
  he_authenticate :: "string option \<Rightarrow> pam_prog"
  he_setcred :: "string option \<Rightarrow> pam_prog"
  he_uid :: "32 word"
  he_getpwuid :: "string option"
  he_isatty :: bool
  he_exit_lag :: nat

text \<open>
  The loop of \<open>_converse\<close>, with the replies so far, the status so far, and what PAM does with the
  result.  A reply that could not be sent or received ends the loop; then all entries are freed,
  also the one whose pointer was never set.
\<close>

fun converse_loop ::
  "helper_env \<Rightarrow> (int \<times> string) list \<Rightarrow> string option list \<Rightarrow> int \<Rightarrow> (int \<Rightarrow> string option list option \<Rightarrow> child) \<Rightarrow> child" where
  "converse_loop e [] reply st k = (if st \<noteq> PAM_SUCCESS then k st None else k st (Some reply))"
| "converse_loop e (m # msgs) reply st k =
     (let msg_len = length (snd m);
          (wt, w) = write_prompt (empty_sink (he_pipe e)) (int_of_style (pam_style_to_gs_style (fst m)))
                      (string_bytes (snd m)) msg_len in
      if wt < 0 \<or> wt \<noteq> int msg_len then Child_Fault Bad_Free
      else
        Child_Prompt (written w) (\<lambda>input.
          case read_msg (pp_cut (he_pipe e) input) (replicate MAXLEN 0) MAXLEN of
            Inl f \<Rightarrow> Child_Fault f
          | Inr (rd, buf, _) \<Rightarrow>
              if rd < 0 then Child_Fault Bad_Free
              else if he_resp_malloc_fails e (length reply) then converse_loop e msgs (reply @ [None]) PAM_BUF_ERR k
              else converse_loop e msgs (reply @ [Some (c_string (take (nat rd) buf))]) st k))"

definition converse ::
  "helper_env \<Rightarrow> (int \<times> string) list \<Rightarrow> (int \<Rightarrow> string option list option \<Rightarrow> child) \<Rightarrow> child" where
  "converse e msgs k =
     (if he_malloc_fails e then k PAM_CONV_ERR None else converse_loop e msgs [] PAM_SUCCESS k)"

text \<open>A call of PAM in the helper.\<close>

primrec helper_pam :: "helper_env \<Rightarrow> pam_prog \<Rightarrow> (int \<Rightarrow> child) \<Rightarrow> child" where
  "helper_pam e (Pam_Status st) k = k st"
| "helper_pam e (Pam_Converse msgs f) k = converse e msgs (\<lambda>st replies. helper_pam e (f st replies) k)"

definition UNIX_PASSED :: int where "UNIX_PASSED = 0"
definition UNIX_FAILED :: int where "UNIX_FAILED = 1"

text \<open>The result of \<open>pam_setcred\<close> is only logged.\<close>

definition helper_authenticate :: "helper_env \<Rightarrow> string option \<Rightarrow> child" where
  "helper_authenticate e user =
     (if he_start_status e \<noteq> PAM_SUCCESS then Child_Exit (he_exit_lag e) (Some UNIX_FAILED)
      else
        helper_pam e (he_authenticate e user) (\<lambda>err.
        if err = PAM_SUCCESS then helper_pam e (he_setcred e user) (\<lambda>_. Child_Exit (he_exit_lag e) (Some UNIX_PASSED))
        else Child_Exit (he_exit_lag e) (Some UNIX_FAILED)))"

text \<open>The name of the caller, cut to 31 characters.\<close>

definition getuidname :: "helper_env \<Rightarrow> string option" where
  "getuidname e = map_option (take 31) (he_getpwuid e)"

definition helper_main :: "helper_env \<Rightarrow> string list \<Rightarrow> child" where
  "helper_main e argv =
     (if length argv < 2 \<or> 3 < length argv then Child_Exit (he_exit_lag e) (Some UNIX_FAILED)
      else if he_isatty e \<and> he_uid e \<noteq> 0 then Child_Exit (he_exit_lag e) (Some UNIX_FAILED)
      else if length argv = 3 then
        (case getuidname e of
           None \<Rightarrow> Child_Fault Null_Deref
         | Some user \<Rightarrow> helper_authenticate e (Some (if user \<noteq> argv ! 2 then argv ! 2 else user)))
      else helper_authenticate e (getuidname e))"

section \<open>The dialog's side\<close>

record ext_env =
  xe_pipe1 :: bool
  xe_pipe2 :: bool
  xe_fork :: bool
  xe_exec :: bool
  xe_program :: string
  xe_io :: pipe_env
  xe_helper :: helper_env

record ext_state =
  xs_sigchld :: int
  xs_open_fds :: nat
  xs_attempt :: nat

text \<open>How the loop ends: the status of the helper, or a read or write error.\<close>

datatype ext_end = Ended "int option" | Bailed_Out

text \<open>At the end of the pipe \<open>read_prompt\<close> returns 0 and the loop asks \<open>waitpid\<close> again.\<close>

primrec ext_drain :: "nat \<Rightarrow> bool res" where
  "ext_drain 0 = ret True"
| "ext_drain (Suc n) =
     rbind (read_prompt [] (replicate MAXLEN 0) MAXLEN) (\<lambda>(msg_type, _).
     if msg_type = 0 then ext_drain n else ret False)"

text \<open>
  The loop of \<open>ext_run\<close>.  A prompt of type 0 cannot be told from the end of the pipe: the loop goes
  on to wait for the next prompt, while the helper waits for the answer to this one.  What the callback
  returns is not looked at.
\<close>

primrec ext_loop :: "ext_env \<Rightarrow> 's msg_func \<Rightarrow> child \<Rightarrow> 's \<Rightarrow> (ext_end \<times> 's) res" where
  "ext_loop e func (Child_Exit lag status) s =
     rbind (ext_drain lag) (\<lambda>ok. ret (if ok then Ended status else Bailed_Out, s))"
| "ext_loop e func (Child_Fault f) s = Inl f"
| "ext_loop e func (Child_Prompt bytes k) s =
     rbind (read_prompt (pp_cut (xe_io e) bytes) (replicate MAXLEN 0) MAXLEN) (\<lambda>(msg_type, buf, _, _).
     if msg_type = 0 then Inl No_Return
     else if msg_type < 0 then ret (Bailed_Out, s)
     else
       rbind (func (style_of_int msg_type) (c_string buf) s) (\<lambda>(_, input, s).
       let input_bytes = (case input of None \<Rightarrow> [] | Some t \<Rightarrow> string_bytes t);
           (wt, w) = write_msg (empty_sink (xe_io e)) input_bytes (length input_bytes) in
       if wt < 0 then ret (Bailed_Out, s) else ext_loop e func (k (written w)) s))"

text \<open>
  The error paths leave the descriptors open and the signals blocked; so does a failing \<open>fork\<close> with
  the signals, and the first pipe stays open when the second cannot be created.
\<close>

definition ext_run :: "ext_env \<Rightarrow> string \<Rightarrow> 's msg_func \<Rightarrow> ext_state \<times> 's \<Rightarrow> (bool \<times> ext_state \<times> 's) res" where
  "ext_run e user func bs =
     (let (b, s) = bs in
      if \<not> xe_pipe1 e then ret (False, b, s)
      else if \<not> xe_pipe2 e then ret (False, b\<lparr>xs_open_fds := xs_open_fds b + 2\<rparr>, s)
      else
        (let b = b\<lparr>xs_sigchld := block_sigchld (xs_sigchld b)\<rparr> in
         if \<not> xe_fork e then ret (False, b, s)
         else
           (let program = (if xe_exec e then helper_main (xe_helper e) [xe_program e, ''mate-screensaver'', user]
                           else Child_Exit (he_exit_lag (xe_helper e)) (Some 1)) in
            rbind (ext_loop e func program s) (\<lambda>(end, s).
            case end of
              Bailed_Out \<Rightarrow> ret (False, b\<lparr>xs_open_fds := xs_open_fds b + 2\<rparr>, s)
            | Ended status \<Rightarrow> ret (status = Some 0, b\<lparr>xs_sigchld := unblock_sigchld (xs_sigchld b)\<rparr>, s)))))"

definition helper_verify_user ::
  "(nat \<Rightarrow> ext_env) \<Rightarrow> string \<Rightarrow> 's msg_func \<Rightarrow> ext_state \<times> 's \<Rightarrow> (bool option \<times> gerror option \<times> ext_state \<times> 's) res" where
  "helper_verify_user envs username func bs =
     (let (b, s) = bs;
          e = envs (xs_attempt b) in
      rbind (ext_run e username func (b\<lparr>xs_attempt := Suc (xs_attempt b)\<rparr>, s)) (\<lambda>(res, b, s).
      ret (Some res, None, b, s)))"

section \<open>The state of the dialog\<close>

lemma child_induct [case_names Exit Fault Prompt]:
  assumes "\<And>lag status. P (Child_Exit lag status)" "\<And>f. P (Child_Fault f)"
    "\<And>bytes k. (\<And>input. P (k input)) \<Longrightarrow> P (Child_Prompt bytes k)"
  shows "P c"
proof (induction c)
  case (Child_Prompt bytes k)
  have "P (k input)" for input by (rule Child_Prompt) simp
  then show ?case by (rule assms(3))
qed (rule assms)+

lemma ext_drain_True [simp]: "ext_drain n = Inr True"
  by (induction n) (simp_all add: read_prompt_def read_all_def read_all_loop.simps sizeof_int_def)

lemma ext_loop_keeps:
  assumes "\<And>style msg s. P s \<Longrightarrow> rpost (\<lambda>(_, _, s'). P s') (func style msg s)" "P s"
  shows "rpost (\<lambda>(_, s'). P s') (ext_loop e func c s)"
  using assms(2)
proof (induction c arbitrary: s rule: child_induct)
  case (Exit lag status)
  then show ?case by simp
next
  case (Fault f)
  then show ?case by simp
next
  case (Prompt bytes k)
  show ?case
    unfolding ext_loop.simps
  proof (rule rpost_rbindI [of "\<lambda>_. True"], simp add: rpost_def, clarify, intro rpost_if)
    fix msg_type :: int and buf
    show "rpost (\<lambda>(_, s'). P s')
        (rbind (func (style_of_int msg_type) (c_string buf) s) (\<lambda>(_, input, s).
          let input_bytes = case input of None \<Rightarrow> [] | Some t \<Rightarrow> string_bytes t;
              (wt, w) = write_msg (empty_sink (xe_io e)) input_bytes (length input_bytes)
          in if wt < 0 then ret (Bailed_Out, s) else ext_loop e func (k (written w)) s))"
      by (rule rpost_rbindI [OF assms(1) [OF Prompt.prems]]) (auto simp: Let_def split: prod.splits intro!: rpost_if Prompt.IH)
  qed (use Prompt.prems in auto)
qed

lemma helper_verify_keeps:
  assumes "\<And>style msg s. P s \<Longrightarrow> rpost (\<lambda>(_, _, s'). P s') (func style msg s)" "P s"
  shows "rpost (\<lambda>(_, _, _, s'). P s') (helper_verify_user envs username func (b, s))"
proof -
  have l: "rpost (\<lambda>(_, s'). P s') (ext_loop e func c s)" for e c
    by (rule ext_loop_keeps) (use assms in auto)
  show ?thesis
    unfolding helper_verify_user_def ext_run_def Let_def
    by (auto simp: assms(2) split: ext_end.splits intro!: rpost_if rpost_mono [OF l])
qed

section \<open>The verdict is that of the helper's PAM\<close>

text \<open>The status that a call of PAM in the helper returns when its conversation goes over the pipes to this dialog.\<close>

definition piped_status :: "ext_env \<Rightarrow> 's msg_func \<Rightarrow> pam_prog \<Rightarrow> 's \<Rightarrow> (ext_end \<times> 's) res" where
  "piped_status e func prog s = ext_loop e func (helper_pam (xe_helper e) prog (\<lambda>st. Child_Exit 0 (Some st))) s"

definition helper_approves :: "(nat \<Rightarrow> ext_env) \<Rightarrow> string \<Rightarrow> 's msg_func \<Rightarrow> ext_state \<times> 's \<Rightarrow> bool" where
  "helper_approves envs username func bs =
     (let (b, s) = bs;
          e = envs (xs_attempt b) in
      case piped_status e func (he_authenticate (xe_helper e) (Some username)) s of
        Inr (Ended (Some st), _) \<Rightarrow> st = PAM_SUCCESS
      | _ \<Rightarrow> False)"

text \<open>Going on after a call of PAM.\<close>

definition then_child :: "ext_env \<Rightarrow> 's msg_func \<Rightarrow> (int \<Rightarrow> child) \<Rightarrow> ext_end \<times> 's \<Rightarrow> (ext_end \<times> 's) res" where
  "then_child e func k r =
     (case r of (Ended (Some st), s) \<Rightarrow> ext_loop e func (k st) s | _ \<Rightarrow> ret r)"

lemma ext_loop_converse_loop:
  assumes "\<And>st replies s. ext_loop e func (k1 st replies) s = rbind (ext_loop e func (k2 st replies) s) (then_child e func k)"
  shows "ext_loop e func (converse_loop h msgs reply st k1) s
     = rbind (ext_loop e func (converse_loop h msgs reply st k2) s) (then_child e func k)"
proof (induction msgs arbitrary: reply st s)
  case Nil
  then show ?case using assms by simp
next
  case (Cons m msgs)
  obtain wt w where w: "write_prompt (empty_sink (he_pipe h)) (int_of_style (pam_style_to_gs_style (fst m))) (string_bytes (snd m))
      (length (snd m)) = (wt, w)" by (metis prod.exhaust)
  show ?case
  proof (cases "wt < 0 \<or> wt \<noteq> int (length (snd m))")
    case True
    then show ?thesis using w by simp
  next
    case False
    define g where "g = (\<lambda>k. \<lambda>input. case read_msg (pp_cut (he_pipe h) input) (replicate MAXLEN 0) MAXLEN of
            Inl f \<Rightarrow> Child_Fault f
          | Inr (rd, buf, _) \<Rightarrow>
              if rd < 0 then Child_Fault Bad_Free
              else if he_resp_malloc_fails h (length reply) then converse_loop h msgs (reply @ [None]) PAM_BUF_ERR k
              else converse_loop h msgs (reply @ [Some (c_string (take (nat rd) buf))]) st k)"
    have c: "converse_loop h (m # msgs) reply st k = Child_Prompt (written w) (g k)" for k
      using False w by (simp add: g_def)
    have g: "ext_loop e func (g k1 input) s = rbind (ext_loop e func (g k2 input) s) (then_child e func k)" for input s
      by (simp add: g_def Cons.IH split: sum.split)
    show ?thesis
      unfolding c ext_loop.simps rbind_assoc
      by (rule arg_cong [of _ _ "rbind _"])
        (auto simp: fun_eq_iff rbind_assoc g then_child_def Let_def split: prod.split intro!: arg_cong [of _ _ "rbind _"])
  qed
qed

lemma ext_loop_helper_pam:
  "ext_loop e func (helper_pam h prog k) s
   = rbind (ext_loop e func (helper_pam h prog (\<lambda>st. Child_Exit 0 (Some st))) s) (then_child e func k)"
proof (induction prog arbitrary: s rule: pam_prog_induct)
  case (Status st)
  then show ?case by (simp add: then_child_def)
next
  case (Converse msgs f)
  show ?case
    by (simp add: converse_def Converse.IH ext_loop_converse_loop [OF Converse.IH])
qed

lemma helper_sound:
  assumes "helper_verify_user envs username func (b, s) = Inr (Some True, err, b', s')"
  shows "helper_approves envs username func (b, s)"
proof -
  define e where "e = envs (xs_attempt b)"
  define c where "c = (if xe_exec e then helper_main (xe_helper e) [xe_program e, ''mate-screensaver'', username]
        else Child_Exit (he_exit_lag (xe_helper e)) (Some 1))"
  note run = assms [unfolded helper_verify_user_def ext_run_def Let_def prod.case, folded e_def, folded c_def]
  obtain s1 where l: "ext_loop e func c s = Inr (Ended (Some 0), s1)"
  proof (cases "ext_loop e func c s")
    case (Inl f)
    then show ?thesis using run by (simp split: if_splits)
  next
    case (Inr r)
    then show ?thesis using run that by (cases r; cases "fst r") (simp_all split: if_splits)
  qed
  then have "ext_loop e func (helper_authenticate (xe_helper e) (Some username)) s = Inr (Ended (Some 0), s1)"
    by (auto simp: c_def helper_main_def UNIX_FAILED_def split: if_splits option.splits)
  then have "rbind (piped_status e func (he_authenticate (xe_helper e) (Some username)) s)
      (then_child e func (\<lambda>err. if err = PAM_SUCCESS
         then helper_pam (xe_helper e) (he_setcred (xe_helper e) (Some username))
                (\<lambda>_. Child_Exit (he_exit_lag (xe_helper e)) (Some UNIX_PASSED))
         else Child_Exit (he_exit_lag (xe_helper e)) (Some UNIX_FAILED))) = Inr (Ended (Some 0), s1)"
    unfolding helper_authenticate_def piped_status_def
    by (simp add: ext_loop_helper_pam [symmetric] UNIX_FAILED_def split: if_splits)
  moreover have "rpost (\<lambda>(r, _). r = Ended (Some PAM_SUCCESS)) p" if "rbind p (then_child e func (\<lambda>err. if err = PAM_SUCCESS then c1
      else Child_Exit lag (Some UNIX_FAILED))) = Inr (Ended (Some 0), s1)" for p c1 lag
  proof (rule rpostI)
    fix r assume "p = Inr r"
    then show "case r of (r, _) \<Rightarrow> r = Ended (Some PAM_SUCCESS)"
      using that by (cases r; cases "fst r") (auto simp: then_child_def UNIX_FAILED_def split: option.splits if_splits)
  qed
  ultimately show ?thesis
    by (fastforce simp: helper_approves_def e_def [symmetric] rpost_def rbind_eq_Inr Let_def)
qed

interpretation helper: auth_backend "helper_verify_user envs username" pump "helper_approves envs username"
  for envs username and pump :: "'s \<Rightarrow> 's res"
  by unfold_locales (fact helper_sound, rule helper_verify_keeps)

section \<open>The pipes do not show\<close>

text \<open>Pipes that lose nothing: the portions that arrive make up what was sent, and no call fails.\<close>

definition faithful_pipe :: "pipe_env \<Rightarrow> bool" where
  "faithful_pipe p = ((\<forall>bs. clean (pp_cut p bs) \<and> pending_bytes (pp_cut p bs) = bs) \<and> accepting (empty_sink p))"

text \<open>A text that fits into the buffers and has no zero inside.\<close>

definition text_fits :: "string \<Rightarrow> bool" where
  "text_fits t = (CHR 0x00 \<notin> set t \<and> length t < MAXLEN)"



lemma length_string_bytes [simp]: "length (string_bytes t) = length t"
  by (simp add: string_bytes_def)

lemma of_char_byte: "unat (of_nat (of_char c) :: byte) = of_char c"
  by (simp add: unat_of_nat take_bit_eq_mod)

lemma byte_zero_iff: "(of_nat (of_char c) :: byte) = 0 \<longleftrightarrow> c = CHR 0x00"
proof -
  have "(of_nat (of_char c) :: byte) = 0 \<longleftrightarrow> of_char c = (0 :: nat)"
    using of_char_byte [of c] by (metis unat_0 unat_eq_zero)
  also have "\<dots> \<longleftrightarrow> of_char c = (of_char (CHR 0x00) :: nat)" by simp
  finally show ?thesis by (simp only: of_char_eq_iff)
qed

lemma c_string_bytes:
  assumes "CHR 0x00 \<notin> set t"
  shows "c_string (string_bytes t @ 0 # rest) = t" "c_string (string_bytes t) = t"
proof -
  have nz: "\<forall>b \<in> set (string_bytes t). b \<noteq> 0"
    using assms by (auto simp: string_bytes_def byte_zero_iff)
  have m: "map (\<lambda>b. char_of (unat b)) (string_bytes t) = t"
    by (simp add: string_bytes_def comp_def of_char_byte)
  have tw: "takeWhile (\<lambda>b. b \<noteq> 0) (string_bytes t @ 0 # rest) = string_bytes t"
    "takeWhile (\<lambda>b. b \<noteq> 0) (string_bytes t) = string_bytes t"
    using nz by (simp_all add: takeWhile_append takeWhile_eq_all_conv)
  show "c_string (string_bytes t @ 0 # rest) = t" "c_string (string_bytes t) = t"
    unfolding c_string_def tw by (rule m)+
qed

lemma buffer_string:
  assumes "text_fits t"
  defines "buf \<equiv> (overwrite (replicate MAXLEN 0) 0 (string_bytes t))[length t := 0]"
  shows "c_string buf = t" "take (length t) buf = string_bytes t"
proof -
  have "length t < MAXLEN" using assms by (simp add: text_fits_def)
  then have "drop (length t) (replicate MAXLEN (0 :: byte)) = 0 # replicate (MAXLEN - Suc (length t)) 0"
    by (metis Suc_diff_Suc drop_replicate replicate_Suc)
  then have b: "buf = string_bytes t @ 0 # replicate (MAXLEN - Suc (length t)) 0"
    by (simp add: buf_def overwrite_def list_update_append)
  show "c_string buf = t" "take (length t) buf = string_bytes t"
    using c_string_bytes(1) assms(1) by (simp_all add: b text_fits_def)
qed

lemma prompt_type:
  "fst m \<noteq> PAM_PROMPT_ECHO_ON \<Longrightarrow> 0 < int_of_style (pam_style_to_gs_style (fst m)) \<and> int_of_style (pam_style_to_gs_style (fst m)) < 4"
  by (simp add: pam_style_to_gs_style_def)





definition sample_pipe :: pipe_env where
  "sample_pipe = \<lparr>pp_cut = (\<lambda>bs. map (\<lambda>b. Rd_Chunk [b]) bs), pp_room = [Wr_Accept 1]\<rparr>"

definition sample_helper :: "pam_prog \<Rightarrow> helper_env" where
  "sample_helper prog =
     \<lparr>he_pipe = sample_pipe, he_malloc_fails = False, he_resp_malloc_fails = (\<lambda>_. False), he_start_status = 0,
      he_authenticate = (\<lambda>_. prog), he_setcred = (\<lambda>_. Pam_Status 0), he_uid = 1000, he_getpwuid = Some ''ann'',
      he_isatty = False, he_exit_lag = 2\<rparr>"

definition sample_ext :: "pam_prog \<Rightarrow> ext_env" where
  "sample_ext prog =
     \<lparr>xe_pipe1 = True, xe_pipe2 = True, xe_fork = True, xe_exec = True, xe_program = ''helper'', xe_io = sample_pipe,
      xe_helper = sample_helper prog\<rparr>"

text \<open>A stack that greets the user and asks for a password.\<close>

definition sample_stack :: pam_prog where
  "sample_stack =
     Pam_Converse [(4, ''Hello''), (1, ''Password: '')] (\<lambda>st rs. Pam_Status (if rs = Some [Some ''secret'', Some ''secret''] then 0 else 7))"

lemma sample_pipe_faithful: "faithful_pipe sample_pipe"
proof -
  have "clean (map (\<lambda>b. Rd_Chunk [b]) bs) \<and> pending_bytes (map (\<lambda>b. Rd_Chunk [b]) bs) = bs" for bs
    by (induction bs) simp_all
  then show ?thesis by (simp add: faithful_pipe_def sample_pipe_def accepting_def empty_sink_def)
qed

definition sample_answer :: "nat msg_func" where
  "sample_answer style msg n = ret (True, Some ''secret'', Suc n)"




section \<open>What goes wrong\<close>

text \<open>
  A prompt for visible input hangs the dialog.  Its type is 0, which \<open>ext_run\<close> takes for the end of
  the pipe; it waits for the next prompt while the helper waits for the answer.
\<close>

theorem echo_prompt_hangs:
  assumes "faithful_pipe (xe_io e)" "faithful_pipe (he_pipe (xe_helper e))" "\<not> he_malloc_fails (xe_helper e)"
    and "text_fits msg"
  shows "piped_status e func (Pam_Converse ((PAM_PROMPT_ECHO_ON, msg) # msgs) f) s = Inl No_Return"
proof -
  let ?h = "xe_helper e" and ?msg = "string_bytes msg"
  have len: "length ?msg < MAXLEN" using assms(4) by (simp add: text_fits_def)
  obtain w where w: "write_prompt (empty_sink (he_pipe ?h)) 0 ?msg (length ?msg) = (int (length ?msg), w)"
    "written w = int_bytes 0 @ size_t_bytes (length ?msg) @ ?msg"
    using write_prompt_accepting [of "empty_sink (he_pipe ?h)" ?msg 0] assms(2) len
    by (auto simp: faithful_pipe_def empty_sink_def MAXLEN_def)
  obtain src where "read_prompt (pp_cut (xe_io e) (written w)) (replicate MAXLEN 0) MAXLEN
      = Inr (0, (overwrite (replicate MAXLEN 0) 0 ?msg)[length ?msg := 0], length ?msg, src)"
    using read_prompt_frame [of "pp_cut (xe_io e) (written w)" 0 ?msg "[]" MAXLEN "replicate MAXLEN 0"] assms(1) len w(2)
    by (auto simp: faithful_pipe_def MAXLEN_def)
  then show ?thesis
    using w(1) assms(3) by (simp add: piped_status_def converse_def pam_style_to_gs_style_def)
qed

theorem echo_prompt_hangs_witness:
  "piped_status (sample_ext sample_stack) sample_answer (Pam_Converse [(PAM_PROMPT_ECHO_ON, ''login: '')] (\<lambda>_ _. Pam_Status 0)) 0 = Inl No_Return"
  by (rule echo_prompt_hangs)
    (simp_all add: sample_ext_def sample_helper_def sample_pipe_faithful text_fits_def MAXLEN_def)

text \<open>
  An answer of 1024 bytes or more makes the set-uid helper free a pointer that was never set.  The
  reading end refuses the message, and the error path of \<open>_converse\<close> frees the reply of every message,
  although the array comes from \<open>malloc\<close>.
\<close>

theorem long_answer_bad_free:
  assumes "faithful_pipe (xe_io e)" "faithful_pipe (he_pipe (xe_helper e))" "\<not> he_malloc_fails (xe_helper e)"
    and "text_fits (snd m)" "fst m \<noteq> PAM_PROMPT_ECHO_ON"
    and "func (pam_style_to_gs_style (fst m)) (snd m) s = Inr (res, Some t, s')" "MAXLEN \<le> length t" "length t < 2 ^ 64"
  shows "piped_status e func (Pam_Converse (m # msgs) f) s = Inl Bad_Free"
proof -
  let ?h = "xe_helper e" and ?ty = "int_of_style (pam_style_to_gs_style (fst m))" and ?msg = "string_bytes (snd m)"
  have len: "length ?msg < MAXLEN" using assms(4) by (simp add: text_fits_def)
  obtain w where w: "write_prompt (empty_sink (he_pipe ?h)) ?ty ?msg (length ?msg) = (int (length ?msg), w)"
    "written w = int_bytes ?ty @ size_t_bytes (length ?msg) @ ?msg"
    using write_prompt_accepting [of "empty_sink (he_pipe ?h)" ?msg ?ty] assms(2) len
    by (auto simp: faithful_pipe_def empty_sink_def MAXLEN_def)
  obtain src where r: "read_prompt (pp_cut (xe_io e) (written w)) (replicate MAXLEN 0) MAXLEN
      = Inr (?ty, (overwrite (replicate MAXLEN 0) 0 ?msg)[length ?msg := 0], length ?msg, src)"
    using read_prompt_frame [of "pp_cut (xe_io e) (written w)" ?ty ?msg "[]" MAXLEN "replicate MAXLEN 0"]
      assms(1) len prompt_type [OF assms(5)] w(2)
    by (auto simp: faithful_pipe_def MAXLEN_def)
  obtain v where v: "write_msg (empty_sink (xe_io e)) (string_bytes t) (length (string_bytes t)) = (int (length t), v)"
    "written v = size_t_bytes (length t) @ string_bytes t"
    using write_msg_accepting [of "empty_sink (xe_io e)" "string_bytes t"] assms(1)
    by (auto simp: faithful_pipe_def empty_sink_def)
  obtain src2 where "read_all (pp_cut (he_pipe ?h) (written v)) (replicate sizeof_size_t 0) sizeof_size_t
      = Inr (int sizeof_size_t, size_t_bytes (length t), src2)"
    using size_t_codec.read_object [of "pp_cut (he_pipe ?h) (written v)" "length t" "string_bytes t"] assms(2) v(2)
    by (metis faithful_pipe_def)
  moreover have "le_val (size_t_bytes (length t)) = length t" using assms(8) by (intro size_t_codec.dec_enc) simp
  ultimately have "read_msg (pp_cut (he_pipe ?h) (written v)) (replicate MAXLEN 0) MAXLEN
      = Inr (HELPER_TOO_LONG_ERR, replicate MAXLEN 0, src2)"
    using assms(7) by (simp add: read_msg_def sizeof_size_t_def)
  then show ?thesis
    using w(1) r v(1) assms(3,6) prompt_type [OF assms(5)] buffer_string(1) [OF assms(4)]
    by (simp add: piped_status_def converse_def style_of_int_of_style HELPER_TOO_LONG_ERR_def)
qed

definition sample_long_answer :: string where
  "sample_long_answer = replicate 2000 (CHR ''x'')"

theorem long_answer_bad_free_witness:
  "piped_status (sample_ext sample_stack) (\<lambda>_ _ n. ret (True, Some sample_long_answer, n)) sample_stack (0 :: nat) = Inl Bad_Free"
proof -
  have len: "length sample_long_answer = 2000" unfolding sample_long_answer_def by (rule length_replicate)
  have "MAXLEN \<le> length sample_long_answer" "length sample_long_answer < 2 ^ 64"
    unfolding len MAXLEN_def by simp_all
  then show ?thesis
    unfolding sample_stack_def
    by (intro long_answer_bad_free)
      (assumption | rule refl | simp add: sample_ext_def sample_helper_def sample_pipe_faithful text_fits_def MAXLEN_def pam_consts)+
qed

end
