(* ===== verification/GS_Auth_Pwent.thy ===== *)
theory GS_Auth_Pwent
  imports GS_Auth
begin

text \<open>
  \<open>src/gs-auth-pwent.c\<close> and \<open>src/gs-auth-bsdauth.c\<close>: authentication against the password file, read
  while the dialog still has the right to, and by the BSD authentication library.  The user
  databases, \<open>crypt\<close> and \<open>auth_userokay\<close> are parameters.
\<close>

section \<open>The password file\<close>

text \<open>
  \<open>pw_shadow\<close> is \<open>None\<close> when the program is built without shadow passwords, \<open>pw_bigcrypt\<close> when it is
  built without \<open>bigcrypt\<close>.  An entry may lack a password.
\<close>

record pwent_env =
  pw_user_name :: "string option"
  pw_shadow :: "(string \<Rightarrow> string option) option"
  pw_passwd :: "string \<Rightarrow> string option"
  pw_crypt :: "string \<Rightarrow> string \<Rightarrow> string option"
  pw_bigcrypt :: "(string \<Rightarrow> string \<Rightarrow> string option) option"

definition passwd_known :: "string option \<Rightarrow> bool" where
  "passwd_known pw = (case pw of None \<Rightarrow> False | Some s \<Rightarrow> \<not> has_prefix ''*'' s \<and> 4 < length s)"

text \<open>What follows a comma behind the thirteenth character is the age of the password.\<close>

definition cut_age :: "string \<Rightarrow> string" where
  "cut_age s = (if 13 < length s then take 13 s @ takeWhile (\<lambda>c. c \<noteq> CHR '','') (drop 13 s) else s)"

definition get_encrypted_passwd :: "pwent_env \<Rightarrow> string option \<Rightarrow> string option" where
  "get_encrypted_passwd e user =
     (case user of
        None \<Rightarrow> None
      | Some u \<Rightarrow>
          if u = [] then None
          else
            (let result = (case pw_shadow e of
                             None \<Rightarrow> None
                           | Some getspnam \<Rightarrow> if passwd_known (getspnam u) then getspnam u else None);
                 result = (if result = None \<and> passwd_known (pw_passwd e u) then pw_passwd e u else result) in
             map_option cut_age result))"

text \<open>The state is \<open>encrypted_user_passwd\<close>.\<close>

definition pwent_priv_init :: "pwent_env \<Rightarrow> bool \<times> string option" where
  "pwent_priv_init e =
     (let encrypted_user_passwd = get_encrypted_passwd e (pw_user_name e) in
      (encrypted_user_passwd \<noteq> None, encrypted_user_passwd))"

definition pwent_init :: "string option \<Rightarrow> bool" where
  "pwent_init encrypted_user_passwd = (encrypted_user_passwd \<noteq> None)"

definition passwds_match :: "pwent_env \<Rightarrow> string \<Rightarrow> string \<Rightarrow> bool" where
  "passwds_match e cleartext ciphertext =
     (if pw_crypt e cleartext ciphertext = Some ciphertext then True
      else
        (case pw_bigcrypt e of
           None \<Rightarrow> False
         | Some bigcrypt \<Rightarrow> bigcrypt cleartext ciphertext = Some ciphertext))"

definition pwent_verify_user ::
  "pwent_env \<Rightarrow> 's msg_func \<Rightarrow> string option \<times> 's \<Rightarrow> (bool option \<times> gerror option \<times> string option \<times> 's) res" where
  "pwent_verify_user e func bs =
     (let (encrypted_user_passwd, s) = bs in
      rbind (func GS_AUTH_MESSAGE_PROMPT_ECHO_OFF ''Password: '' s) (\<lambda>(_, password, s).
      case password of
        None \<Rightarrow> ret (Some False, None, encrypted_user_passwd, s)
      | Some pw \<Rightarrow>
          ret (Some (case encrypted_user_passwd of None \<Rightarrow> False | Some c \<Rightarrow> passwds_match e pw c), None, encrypted_user_passwd, s)))"

section \<open>BSD authentication\<close>

definition bsdauth_verify_user ::
  "(string \<Rightarrow> string \<Rightarrow> bool) \<Rightarrow> string \<Rightarrow> 's msg_func \<Rightarrow> unit \<times> 's \<Rightarrow> (bool option \<times> gerror option \<times> unit \<times> 's) res" where
  "bsdauth_verify_user auth_userokay username func bs =
     (let (_, s) = bs in
      rbind (func GS_AUTH_MESSAGE_PROMPT_ECHO_OFF ''Password: '' s) (\<lambda>(_, password, s).
      case password of
        None \<Rightarrow> ret (Some False, None, (), s)
      | Some pw \<Rightarrow> ret (Some (auth_userokay username pw), None, (), s)))"

section \<open>The contract\<close>

text \<open>The password that the dialog hands over is the right one.\<close>

definition pwent_approves :: "pwent_env \<Rightarrow> 's msg_func \<Rightarrow> string option \<times> 's \<Rightarrow> bool" where
  "pwent_approves e func bs =
     (case (func GS_AUTH_MESSAGE_PROMPT_ECHO_OFF ''Password: '' (snd bs), fst bs) of
        (Inr (_, Some pw, _), Some c) \<Rightarrow> passwds_match e pw c
      | _ \<Rightarrow> False)"

definition bsdauth_approves :: "(string \<Rightarrow> string \<Rightarrow> bool) \<Rightarrow> string \<Rightarrow> 's msg_func \<Rightarrow> unit \<times> 's \<Rightarrow> bool" where
  "bsdauth_approves auth_userokay username func bs =
     (case func GS_AUTH_MESSAGE_PROMPT_ECHO_OFF ''Password: '' (snd bs) of
        Inr (_, Some pw, _) \<Rightarrow> auth_userokay username pw
      | _ \<Rightarrow> False)"

lemma pwent_verify_keeps:
  assumes "\<And>style msg s. P s \<Longrightarrow> rpost (\<lambda>(_, _, s'). P s') (func style msg s)" "P s"
  shows "rpost (\<lambda>(_, _, _, s'). P s') (pwent_verify_user e func (b, s))"
  unfolding pwent_verify_user_def Let_def prod.case
  by (rule rpost_rbindI [OF assms(1) [OF assms(2)]]) (auto split: option.split)

lemma bsdauth_verify_keeps:
  assumes "\<And>style msg s. P s \<Longrightarrow> rpost (\<lambda>(_, _, s'). P s') (func style msg s)" "P s"
  shows "rpost (\<lambda>(_, _, _, s'). P s') (bsdauth_verify_user auth username func (b, s))"
  unfolding bsdauth_verify_user_def Let_def prod.case
  by (rule rpost_rbindI [OF assms(1) [OF assms(2)]]) (auto split: option.split)

interpretation pwent: auth_backend "pwent_verify_user e" pump "pwent_approves e"
  for e and pump :: "'s \<Rightarrow> 's res"
proof
  show "pwent_approves e func (b, s)" if "pwent_verify_user e func (b, s) = Inr (Some True, err, b', s')"
    for func :: "'s msg_func" and b s err b' s'
    using that by (auto simp: pwent_verify_user_def pwent_approves_def rbind_eq_Inr split: option.splits)
qed (rule pwent_verify_keeps)

interpretation bsdauth: auth_backend "bsdauth_verify_user auth username" pump "bsdauth_approves auth username"
  for auth username and pump :: "'s \<Rightarrow> 's res"
proof
  show "bsdauth_approves auth username func (b, s)" if "bsdauth_verify_user auth username func (b, s) = Inr (Some True, err, b', s')"
    for func :: "'s msg_func" and b s err b' s'
    using that by (auto simp: bsdauth_verify_user_def bsdauth_approves_def rbind_eq_Inr split: option.splits)
qed (rule bsdauth_verify_keeps)

text \<open>
  An account whose entry in the password file is short, as that of a locked or an empty account,
  has no password for this backend: the initialisation that the dialog does before it locks fails.
\<close>

theorem short_passwd_disables_lock:
  assumes "pw_user_name e = Some u" "\<And>getspnam. pw_shadow e = Some getspnam \<Longrightarrow> \<not> passwd_known (getspnam u)"
    and "\<And>p. pw_passwd e u = Some p \<Longrightarrow> length p \<le> 4"
  shows "pwent_priv_init e = (False, None) \<and> \<not> pwent_init (snd (pwent_priv_init e))"
  using assms
  by (auto simp: pwent_priv_init_def pwent_init_def get_encrypted_passwd_def passwd_known_def Let_def split: option.splits)

theorem short_passwd_disables_lock_witness:
  "pwent_priv_init \<lparr>pw_user_name = Some ''ann'', pw_shadow = Some (\<lambda>_. Some ''!''), pw_passwd = (\<lambda>_. Some ''x''),
     pw_crypt = (\<lambda>_ _. None), pw_bigcrypt = None\<rparr> = (False, None)"
  using short_passwd_disables_lock [of "\<lparr>pw_user_name = Some ''ann'', pw_shadow = Some (\<lambda>_. Some ''!''),
     pw_passwd = (\<lambda>_. Some ''x''), pw_crypt = (\<lambda>_ _. None), pw_bigcrypt = None\<rparr>" "''ann''"]
  by (auto simp: passwd_known_def)

end
