(* ===== verification/GS_Dialog_Props.thy ===== *)
theory GS_Dialog_Props
  imports GS_Dialog GS_Auth_Pam GS_Auth_Helper GS_Auth_Pwent
begin

text \<open>
  The unlock dialog with its backends.  What the dialog does while a backend works changes neither its
  verdict lines nor its sources; so, by the contract of the backends, it prints \<open>RESPONSE=OK\<close> only
  after an approval, and it makes at most five attempts.  The result is proved once in the locale
  \<open>dialog_backend\<close> and holds for the four backends by interpretation.
\<close>

section \<open>While a backend works\<close>

definition verdict_lines :: "string list \<Rightarrow> string list" where
  "verdict_lines out = filter (\<lambda>l. l = response_ok \<or> l = notice_auth_failed) out"

text \<open>The lines the dialog can print.\<close>

definition known_line :: "string \<Rightarrow> bool" where
  "known_line l = (l \<in> range print_id \<or> l \<in> {response_ok, response_cancel, notice_auth_failed, request_quit_line})"

definition known_lines :: "string list \<Rightarrow> bool" where
  "known_lines out = (\<forall>l \<in> set out. known_line l)"

lemma known_line_simps [simp]:
  "known_line (print_id x)" "known_line response_ok" "known_line response_cancel" "known_line notice_auth_failed"
  "known_line request_quit_line"
  by (auto simp: known_line_def)

lemma known_lines_simps [simp]: "known_lines []" "known_lines (out @ [l]) = (known_lines out \<and> known_line l)"
  by (auto simp: known_lines_def)

definition quiet :: "dialog \<Rightarrow> dialog \<Rightarrow> bool" where
  "quiet d0 d =
     (d_sources d = d_sources d0 \<and> d_loop_counter d = d_loop_counter d0 \<and> d_terminated d = d_terminated d0
      \<and> verdict_lines (d_out d) = verdict_lines (d_out d0) \<and> (known_lines (d_out d0) \<longrightarrow> known_lines (d_out d)))"

lemmas line_defs = response_ok_def response_cancel_def notice_auth_failed_def request_quit_line_def print_id_def

lemma lines_differ [simp]:
  "print_id x \<noteq> response_ok" "print_id x \<noteq> notice_auth_failed" "response_cancel \<noteq> response_ok"
  "response_cancel \<noteq> notice_auth_failed" "notice_auth_failed \<noteq> response_ok" "response_ok \<noteq> notice_auth_failed"
  "request_quit_line \<noteq> response_ok" "response_ok \<noteq> request_quit_line" "request_quit_line \<noteq> notice_auth_failed"
  by (simp_all add: line_defs)

lemma quiet_refl [simp]: "quiet d d"
  by (simp add: quiet_def)

lemma quiet_plug [simp]: "quiet d0 (d\<lparr>d_plug := p\<rparr>) = quiet d0 d" "quiet d0 (d\<lparr>d_input := i\<rparr>) = quiet d0 d"
  by (simp_all add: quiet_def)

lemma quiet_print: "quiet d0 d \<Longrightarrow> known_line l \<Longrightarrow> l \<noteq> response_ok \<Longrightarrow> l \<noteq> notice_auth_failed \<Longrightarrow> quiet d0 (dialog_print l d)"
  by (simp add: quiet_def dialog_print_def verdict_lines_def)

lemma quiet_response_cb: "quiet d0 d \<Longrightarrow> quiet d0 (response_cb r d)"
  using quiet_print [of d0 d response_cancel] by (simp add: response_cb_def quit_response_cancel_def quiet_def)

lemma quiet_foldl: "(\<And>d x. quiet d0 d \<Longrightarrow> quiet d0 (f d x)) \<Longrightarrow> quiet d0 d \<Longrightarrow> quiet d0 (foldl f d xs)"
  by (induction xs arbitrary: d) simp_all

lemma quiet_dialog_event: "quiet d0 d \<Longrightarrow> quiet d0 (dialog_event e ev d)"
  by (auto simp: dialog_event_def split: prod.split intro!: quiet_foldl quiet_response_cb)

lemma quiet_pump: "quiet d0 d \<Longrightarrow> rwp t (quiet d0) (dialog_pump e d)"
  by (auto simp: dialog_pump_def split: list.split intro!: quiet_foldl quiet_dialog_event)

lemma quiet_show: "quiet d0 d \<Longrightarrow> quiet d0 (dialog_show e d)"
  by (simp add: dialog_show_def print_window_id_def quiet_print)

text \<open>An answer always comes: the widget's own timers see to it.\<close>

lemma quiet_request:
  assumes "quiet d0 d"
  shows "rwp t (\<lambda>(_, d'). quiet d0 d') (request_response e prompt visible d)"
proof -
  define evs where "evs = (case d_input d of [] \<Rightarrow> [] | evs # rest \<Rightarrow> evs)"
  define p where "p = gs_lock_plug_enable_prompt (de_plug e) prompt visible (gs_lock_plug_set_sensitive True (d_plug d))"
  have "armed p" by (simp add: p_def gs_lock_plug_enable_prompt_def Let_def)
  then obtain r p' left where "gs_lock_plug_run (de_plug e) evs p = Inr (r, p', left)"
    using run_loop_returns [OF show_keeps_armed] unfolding gs_lock_plug_run_def by blast
  then show ?thesis
    using assms
    by (auto simp: request_response_def p_def [symmetric] evs_def Let_def gs_lock_plug_get_text_def split: list.splits
        intro!: quiet_response_cb)
qed

lemma quiet_handler:
  assumes "quiet d0 d" "t \<longrightarrow> (\<forall>i. style \<noteq> Other_Message_Style i)"
  shows "rwp t (\<lambda>(_, _, d'). quiet d0 d') (auth_message_handler e style msg d)"
proof -
  define d1 where "d1 = (dialog_show e d)\<lparr>d_plug := gs_lock_plug_set_ready (d_plug (dialog_show e d))\<rparr>"
  have d1: "quiet d0 d1" using quiet_show [OF assms(1)] by (simp add: d1_def)
  have rest: "rwp t (\<lambda>(_, _, d'). quiet d0 d')
      (let (res, d) = (case response of
                        None \<Rightarrow> (False, d)
                      | Some _ \<Rightarrow>
                          (True, d\<lparr>d_plug := gs_lock_plug_set_sensitive False
                                    (gs_lock_plug_show_message (Some (de_tr e ''Checking...'')) (d_plug d))\<rparr>)) in
      rbind (dialog_pump e d) (\<lambda>d.
      ret (res, response, d\<lparr>d_plug := gs_lock_plug_set_busy (d_plug d)\<rparr>)))" if "quiet d0 d" for d response
    using that by (auto split: option.split intro!: rwp_mono [OF quiet_pump])
  show ?thesis
    unfolding auth_message_handler_def Let_def d1_def [unfolded Let_def, symmetric]
    by (cases style)
      (use assms(2) d1 in \<open>auto intro!: rwp_mono [OF quiet_request] rest [unfolded Let_def] quiet_pump\<close>)
qed

section \<open>Attempts and verdicts\<close>

text \<open>
  The invariant of a run: nothing but the known lines, no positive answer without an approval, one notice per failed attempt, at most
  five of them, and never two attempts at a time.
\<close>

definition dialog_inv :: "bool \<Rightarrow> dialog \<Rightarrow> bool" where
  "dialog_inv approved d =
     (known_lines (d_out d) \<and> (approved \<or> response_ok \<notin> set (d_out d) \<and> Quit_Response_Ok \<notin> set (d_sources d))
      \<and> count_list (d_out d) notice_auth_failed = unat (d_loop_counter d) \<and> unat (d_loop_counter d) \<le> 5
      \<and> count_list (d_sources d) Popup_Dialog + count_list (d_sources d) Auth_Check \<le> 1
      \<and> (Popup_Dialog \<in> set (d_sources d) \<or> Auth_Check \<in> set (d_sources d) \<longrightarrow> unat (d_loop_counter d) < 5))"

lemma verdict_lines_ok: "response_ok \<in> set out \<longleftrightarrow> response_ok \<in> set (verdict_lines out)"
  by (simp add: verdict_lines_def)

lemma count_verdict_lines: "count_list out notice_auth_failed = count_list (verdict_lines out) notice_auth_failed"
  by (induction out) (simp_all add: verdict_lines_def)

lemma quiet_inv: "quiet d0 d \<Longrightarrow> dialog_inv a d0 \<Longrightarrow> dialog_inv a d"
  unfolding quiet_def dialog_inv_def
  using verdict_lines_ok count_verdict_lines by metis

lemma count_list_remove1: "count_list (remove1 x xs) y = (if x = y then count_list xs y - 1 else count_list xs y)"
  by (induction xs) auto

lemma in_set_remove1_count: "y \<in> set (remove1 x xs) \<longleftrightarrow> (if x = y then 1 < count_list xs y else y \<in> set xs)"
proof -
  have "y \<in> set (remove1 x xs) \<longleftrightarrow> 0 < count_list (remove1 x xs) y" by (metis count_list_0_iff neq0_conv)
  also have "\<dots> \<longleftrightarrow> (if x = y then 1 < count_list xs y else y \<in> set xs)"
    unfolding count_list_remove1 by (metis count_list_0_iff neq0_conv zero_less_diff)
  finally show ?thesis .
qed

lemma only_one:
  assumes "count_list xs x + count_list xs y \<le> 1" "x \<in> set xs"
  shows "count_list xs x = 1" "y \<notin> set xs"
proof -
  have "0 < count_list xs x" using assms(2) by (metis count_list_0_iff neq0_conv)
  then show "count_list xs x = 1" "y \<notin> set xs" using assms(1) by (auto simp flip: count_list_0_iff)
qed

lemma dialog_popup_idle_eq:
  "\<exists>p. dialog_popup_idle e d = drop_source Popup_Dialog (add_source Auth_Check (d\<lparr>d_plug := p\<rparr>))"
  unfolding dialog_popup_idle_def Let_def by blast

lemma counter_step:
  fixes n :: "32 word"
  assumes "unat n < 5"
  shows "unat (n + 1) = Suc (unat n)" "n + 1 < MAX_FAILURES \<longleftrightarrow> unat n < 4"
proof -
  have "unat n + unat (1 :: 32 word) < 2 ^ LENGTH(32)" using assms by simp
  then have u: "unat (n + 1) = unat n + 1" by (subst unat_add_lem [THEN iffD1]) simp_all
  then show "unat (n + 1) = Suc (unat n)" by simp
  show "n + 1 < MAX_FAILURES \<longleftrightarrow> unat n < 4" using u by (simp add: word_less_nat_alt MAX_FAILURES_def)
qed

locale dialog_backend = auth_backend verify "dialog_pump e" approves
  for verify :: "dialog msg_func \<Rightarrow> 'b \<times> dialog \<Rightarrow> (bool option \<times> gerror option \<times> 'b \<times> dialog) res"
    and e :: dialog_env and approves :: "dialog msg_func \<Rightarrow> 'b \<times> dialog \<Rightarrow> bool"
begin

lemma attempt_quiet: "rpost (\<lambda>(_, _, _, d'). quiet d d') (verify (auth_message_handler e) (b, attempt_state d))"
proof (rule keeps)
  show "rpost (\<lambda>(_, _, d'). quiet d d') (auth_message_handler e style msg d1)" if "quiet d d1" for style msg d1
    using quiet_handler [OF that, of False] by (simp add: rwp_False)
  show "rpost (quiet d) (dialog_pump e d1)" if "quiet d d1" for d1
    using quiet_pump [OF that, of False] by (simp add: rwp_False)
qed (simp add: attempt_state_def)

text \<open>What an attempt leaves: nothing but its verdict.\<close>

lemma auth_check_cases:
  assumes "auth_check_idle e verify (b, d) = Inr (b', d')"
  shows "(\<exists>d1. quiet d d1 \<and> d' = d1\<lparr>d_terminated := True\<rparr>)
     \<or> (\<exists>d1. quiet d d1 \<and> approves (auth_message_handler e) (b, attempt_state d)
            \<and> d' = drop_source Auth_Check (add_source Quit_Response_Ok d1))
     \<or> (\<exists>d1 d2. quiet d d1 \<and> d2 = (dialog_print notice_auth_failed d1)\<lparr>d_loop_counter := d_loop_counter d1 + 1\<rparr>
            \<and> d' = (if d_loop_counter d2 < MAX_FAILURES then d2
                     else drop_source Auth_Check (add_source Quit_Timeout (add_source Request_Quit d2))))"
proof -
  obtain res err b1 d1 where v: "verify (auth_message_handler e) (b, attempt_state d) = Inr (res, err, b1, d1)"
    using assms by (auto simp: auth_check_idle_def do_auth_check_def rbind_eq_Inr)
  have q: "quiet d d1" using rpostD [OF attempt_quiet v] by simp
  consider "res = None" | "res = Some True" | "res = Some False" by (metis (full_types) not_None_eq)
  then show ?thesis
  proof cases
    case 1
    then show ?thesis using assms v q by (auto simp: auth_check_idle_def do_auth_check_def)
  next
    case 2
    then show ?thesis using assms v q sound by (auto simp: auth_check_idle_def do_auth_check_def)
  next
    case 3
    define d2 where "d2 = d1\<lparr>d_plug := gs_lock_plug_show_message
        (Some (case err of None \<Rightarrow> de_tr e ''Authentication failed.'' | Some (_, m) \<Rightarrow> m)) (d_plug d1)\<rparr>"
    have "quiet d d2" using q by (simp add: d2_def)
    moreover have "d' = (let d = (dialog_print notice_auth_failed d2)\<lparr>d_loop_counter := d_loop_counter d2 + 1\<rparr> in
        if d_loop_counter d < MAX_FAILURES then d
        else drop_source Auth_Check (add_source Quit_Timeout (add_source Request_Quit d)))"
      using assms v 3 by (auto simp: auth_check_idle_def do_auth_check_def d2_def dialog_print_def Let_def)
    ultimately show ?thesis by (auto simp: Let_def)
  qed
qed

lemma auth_check_inv:
  assumes "dialog_inv a d" "Auth_Check \<in> set (d_sources d)" "auth_check_idle e verify (b, d) = Inr (b', d')"
  shows "dialog_inv (a \<or> approves (auth_message_handler e) (b, attempt_state d)) d'"
proof -
  consider (ended) d1 where "quiet d d1" "d' = d1\<lparr>d_terminated := True\<rparr>"
    | (ok) d1 where "quiet d d1" "approves (auth_message_handler e) (b, attempt_state d)"
        "d' = drop_source Auth_Check (add_source Quit_Response_Ok d1)"
    | (failed) d1 d2 where "quiet d d1" "d2 = (dialog_print notice_auth_failed d1)\<lparr>d_loop_counter := d_loop_counter d1 + 1\<rparr>"
        "d' = (if d_loop_counter d2 < MAX_FAILURES then d2
               else drop_source Auth_Check (add_source Quit_Timeout (add_source Request_Quit d2)))"
    using auth_check_cases [OF assms(3)] by blast
  then show ?thesis
  proof cases
    case ended
    then show ?thesis using quiet_inv [OF ended(1) assms(1)] by (auto simp: dialog_inv_def)
  next
    case ok
    then show ?thesis
      using quiet_inv [OF ok(1) assms(1)]
      by (auto simp: dialog_inv_def drop_source_def add_source_def count_list_remove1 in_set_remove1_count count_list_append)
  next
    case failed
    have i: "dialog_inv a d1" by (rule quiet_inv [OF failed(1) assms(1)])
    have "d_sources d1 = d_sources d" "unat (d_loop_counter d1) < 5"
      using failed(1) i assms(2) by (auto simp: quiet_def dialog_inv_def)
    moreover have "count_list (d_sources d) Auth_Check = 1" "Popup_Dialog \<notin> set (d_sources d)"
      using only_one [of "d_sources d" Auth_Check Popup_Dialog] assms(1,2) by (simp_all add: dialog_inv_def add.commute)
    ultimately show ?thesis
      using i counter_step [of "d_loop_counter d1"] failed(2,3)
      by (auto simp: dialog_inv_def drop_source_def add_source_def dialog_print_def count_list_remove1 in_set_remove1_count
          count_list_append)
  qed
qed

lemma dialog_step_inv:
  assumes "dialog_inv a d" "dialog_step e verify lbl (b, d) (b', d')"
  shows "dialog_inv (a \<or> lbl = Some Auth_Check \<and> approves (auth_message_handler e) (b, attempt_state d)) d'"
  using assms(2)
proof (cases rule: dialog_step.cases)
  case (source src)
  show ?thesis
  proof (cases src)
    case Popup_Dialog
    obtain p where "dialog_popup_idle e d = drop_source Popup_Dialog (add_source Auth_Check (d\<lparr>d_plug := p\<rparr>))"
      using dialog_popup_idle_eq by blast
    then have "d' = d\<lparr>d_plug := p, d_sources := remove1 Popup_Dialog (d_sources d @ [Auth_Check])\<rparr>"
      using source Popup_Dialog by (simp add: dialog_dispatch_def drop_source_def add_source_def)
    moreover have "count_list (d_sources d) Popup_Dialog = 1" "Auth_Check \<notin> set (d_sources d)"
      using only_one [of "d_sources d" Popup_Dialog Auth_Check] assms(1) source Popup_Dialog by (simp_all add: dialog_inv_def)
    ultimately show ?thesis
      using source Popup_Dialog assms(1)
      by (auto simp: dialog_inv_def count_list_remove1 in_set_remove1_count count_list_append)
  next
    case Auth_Check
    then show ?thesis using source auth_check_inv [OF assms(1)] by (simp add: dialog_dispatch_def)
  qed (use source assms(1) in \<open>auto simp: dialog_dispatch_def drop_source_def dialog_inv_def count_list_remove1 in_set_remove1_count
      quit_response_ok_def response_request_quit_def quit_timeout_cb_def dialog_print_def\<close>)
next
  case (event ev)
  then show ?thesis using quiet_inv [OF quiet_dialog_event [OF quiet_refl] assms(1)] by simp
qed

lemma dialog_run_inv: "dialog_run e verify approves ds input b0 a bd \<Longrightarrow> dialog_inv a (snd bd)"
proof (induction rule: dialog_run.induct)
  case (start d)
  then show ?case by (auto simp: dialog_main_def dialog_inv_def split: if_splits)
next
  case (step a b d lbl bd')
  then show ?case using dialog_step_inv [of a d lbl b "fst bd'" "snd bd'"] by simp
qed

end

section \<open>The backends\<close>

interpretation pam_dialog: dialog_backend "pam_verify_user d_quit (dialog_pump e) libs username" e "pam_approves d_quit (dialog_pump e) libs"
  for e libs username
  by unfold_locales

interpretation helper_dialog: dialog_backend "helper_verify_user envs username" e "helper_approves envs username"
  for e envs username
  by unfold_locales

interpretation pwent_dialog: dialog_backend "pwent_verify_user pe" e "pwent_approves pe"
  for e pe
  by unfold_locales

interpretation bsdauth_dialog: dialog_backend "bsdauth_verify_user auth username" e "bsdauth_approves auth username"
  for e auth username
  by unfold_locales

section \<open>A dialog and its user\<close>

definition sample_plug_env :: plug_env where
  "sample_plug_env =
     \<lparr>pl_edit = (\<lambda>k t. t @ k), pl_from_utf8 = Some, pl_caps_lock = False, pl_running = (\<lambda>_. False), pl_seat = None,
      pl_seat_proxy = False, pl_parse_argv = (\<lambda>_. True), pl_markup_escape = (\<lambda>t. t), pl_have_libnotify = False,
      pl_time_format = ''locale'', pl_date_format = ''locale'', pl_format_now = Some, pl_builderdir = ''/usr/share'',
      pl_theme_name = None, pl_is_regular = (\<lambda>_. False), pl_builder = (\<lambda>_. None), pl_uid = 1000, pl_stat_face = None,
      pl_face_loads = False\<rparr>"

definition sample_dialog_env :: dialog_env where
  "sample_dialog_env =
     \<lparr>de_plug = sample_plug_env, de_xid = 77, de_tr = (\<lambda>t. t), de_enable_logout = False, de_logout_command = None,
      de_enable_switch = False, de_status_message = None\<rparr>"

definition sample_dialog_start :: dialog_start_env where
  "sample_dialog_start =
     \<lparr>ds_ids = sample_ids, ds_credentials = sample_setuid_root, ds_gtk_init = True, ds_show_version = False, ds_version_line = [],
      ds_no_locking = False, ds_auth_init = True, ds_under_mdm = False, ds_macos = False\<rparr>"

text \<open>The user types a password and presses the button.\<close>

definition sample_typing :: "plug_event list list" where
  "sample_typing = [[], [Key_Press ''sec'', Key_Press ''ret'', Unlock_Clicked]]"

lemmas plug_eval =
  timer_defs button_defs gs_lock_plug_enable_prompt_def plug_forward_key_events_def gs_lock_plug_run_def plug_dispatch_def
  plug_ready_def plug_react_def gs_lock_plug_show_def capslock_update_def set_face_image_def check_user_file_def
  gs_lock_plug_set_ready_def gs_lock_plug_disable_prompt_def gs_lock_plug_get_text_def gs_lock_plug_new_def load_theme_def
  create_page_one_def date_time_update_def

lemmas dialog_eval =
  do_auth_check_def attempt_state_def auth_message_handler_def request_response_def dialog_show_def print_window_id_def
  dialog_print_def dialog_pump_def response_cb_def dialog_popup_idle_def drop_source_def add_source_def dialog_dispatch_def
  auth_check_idle_def quit_response_ok_def

lemmas sample_dialog_defs = sample_plug_env_def sample_dialog_env_def sample_typing_def

lemma sample_dialog_starts:
  "dialog_main sample_dialog_env sample_dialog_start input =
     Inr \<lparr>d_plug = gs_lock_plug_new sample_plug_env, d_out = [], d_input = input, d_sources = [Popup_Dialog],
          d_loop_counter = 0, d_quit = False, d_terminated = False\<rparr>"
  using sample_hack_uid
  by (simp add: dialog_main_def privileged_initialization_def lock_initialization_def sample_dialog_start_def sample_dialog_env_def)

abbreviation sample_verify :: "dialog msg_func \<Rightarrow> pam_state \<times> dialog \<Rightarrow> (bool option \<times> gerror option \<times> pam_state \<times> dialog) res" where
  "sample_verify \<equiv> pam_verify_user d_quit (dialog_pump sample_dialog_env) (\<lambda>_. sample_pam 0) ''ann''"

abbreviation sample_approves :: "dialog msg_func \<Rightarrow> pam_state \<times> dialog \<Rightarrow> bool" where
  "sample_approves \<equiv> pam_approves d_quit (dialog_pump sample_dialog_env) (\<lambda>_. sample_pam 0)"

definition sample_dialog :: dialog where
  "sample_dialog =
     \<lparr>d_plug = gs_lock_plug_new sample_plug_env, d_out = [], d_input = sample_typing, d_sources = [Popup_Dialog],
      d_loop_counter = 0, d_quit = False, d_terminated = False\<rparr>"

lemma sample_attempt:
  "\<exists>b d. auth_check_idle sample_dialog_env sample_verify (sample_pam_state, dialog_popup_idle sample_dialog_env sample_dialog) = Inr (b, d)
     \<and> d_sources d = [Quit_Response_Ok] \<and> \<not> d_quit d \<and> \<not> d_terminated d"
  by (simp add: dialog_eval plug_eval sample_dialog_defs sample_dialog_def pam_defs sample_pam_defs pam_consts block_sigchld_def
      unblock_sigchld_def maybe_translate_message_def translated_messages_def g_strstrip_def g_ascii_isspace_def Let_def)

lemma dialog_run_on:
  "dialog_run e verify approves ds input b0 a (b, d) \<Longrightarrow> dialog_step e verify lbl (b, d) bd' \<Longrightarrow>
     \<exists>a'. dialog_run e verify approves ds input b0 a' bd'"
  by (rule exI, rule dialog_run.step)

text \<open>The right password is typed: the dialog prints its answer.\<close>

lemma sample_dialog_run:
  "\<exists>approved b d. dialog_run sample_dialog_env sample_verify sample_approves sample_dialog_start sample_typing sample_pam_state approved (b, d)
     \<and> response_ok \<in> set (d_out d)"
proof -
  let ?run = "dialog_run sample_dialog_env sample_verify sample_approves sample_dialog_start sample_typing sample_pam_state"
  have r0: "?run False (sample_pam_state, sample_dialog)"
    by (rule dialog_run.start) (simp add: sample_dialog_starts sample_dialog_def)
  have s0: "dialog_step sample_dialog_env sample_verify (Some Popup_Dialog) (sample_pam_state, sample_dialog)
      (sample_pam_state, dialog_popup_idle sample_dialog_env sample_dialog)"
    by (rule dialog_step.source) (simp_all add: sample_dialog_def dialog_dispatch_def)
  obtain a1 where r1: "?run a1 (sample_pam_state, dialog_popup_idle sample_dialog_env sample_dialog)"
    using dialog_run_on [OF r0 s0] by blast
  obtain b d where att: "auth_check_idle sample_dialog_env sample_verify (sample_pam_state, dialog_popup_idle sample_dialog_env sample_dialog) = Inr (b, d)"
    and d: "d_sources d = [Quit_Response_Ok]" "\<not> d_quit d" "\<not> d_terminated d"
    using sample_attempt by blast
  have s1: "dialog_step sample_dialog_env sample_verify (Some Auth_Check)
      (sample_pam_state, dialog_popup_idle sample_dialog_env sample_dialog) (b, d)"
    by (rule dialog_step.source)
      (use att in \<open>simp_all add: sample_dialog_def dialog_popup_idle_def drop_source_def add_source_def dialog_dispatch_def Let_def\<close>)
  obtain a2 where r2: "?run a2 (b, d)" using dialog_run_on [OF r1 s1] by blast
  have s2: "dialog_step sample_dialog_env sample_verify (Some Quit_Response_Ok) (b, d) (b, drop_source Quit_Response_Ok (quit_response_ok d))"
    by (rule dialog_step.source) (use d in \<open>simp_all add: dialog_dispatch_def\<close>)
  have "response_ok \<in> set (d_out (drop_source Quit_Response_Ok (quit_response_ok d)))"
    by (simp add: drop_source_def quit_response_ok_def dialog_print_def)
  then show ?thesis using dialog_run_on [OF r2 s2] by blast
qed

section \<open>Properties\<close>

text \<open>
  C4: the dialog lets nobody in without PAM.  In every run of the dialog with the PAM backend,
  whatever the user does and however PAM and the locale behave, the line \<open>RESPONSE=OK\<close> is printed only
  if \<open>pam_authenticate\<close> succeeded in one of the attempts; and there are at most five failed attempts.
\<close>

theorem pam_dialog_safe:
  assumes "dialog_run e (pam_verify_user d_quit (dialog_pump e) libs username) (pam_approves d_quit (dialog_pump e) libs)
             ds input b0 approved (b, d)"
  shows "(response_ok \<in> set (d_out d) \<longrightarrow> approved) \<and> count_list (d_out d) notice_auth_failed \<le> 5
     \<and> count_list (d_out d) notice_auth_failed = unat (d_loop_counter d)"
  using pam_dialog.dialog_run_inv [OF assms] by (auto simp: dialog_inv_def)

theorem pam_dialog_safe_witness:
  "\<exists>b d. dialog_run sample_dialog_env sample_verify sample_approves sample_dialog_start sample_typing sample_pam_state True (b, d)
     \<and> response_ok \<in> set (d_out d) \<and> count_list (d_out d) notice_auth_failed \<le> 5"
proof -
  obtain a b d where r: "dialog_run sample_dialog_env sample_verify sample_approves sample_dialog_start sample_typing sample_pam_state a (b, d)"
    "response_ok \<in> set (d_out d)"
    using sample_dialog_run by blast
  from pam_dialog_safe [OF r(1)] r show ?thesis by auto
qed

text \<open>
  The same for the set-uid helper: \<open>RESPONSE=OK\<close> only if PAM in the helper said yes to this dialog.
\<close>

theorem helper_dialog_safe:
  assumes "dialog_run e (helper_verify_user envs username) (helper_approves envs username) ds input b0 approved (b, d)"
  shows "(response_ok \<in> set (d_out d) \<longrightarrow> approved) \<and> count_list (d_out d) notice_auth_failed \<le> 5"
  using helper_dialog.dialog_run_inv [OF assms] by (auto simp: dialog_inv_def)

theorem helper_dialog_safe_witness:
  "\<exists>d. dialog_run sample_dialog_env (helper_verify_user (\<lambda>_. sample_ext sample_stack) ''ann'')
     (helper_approves (\<lambda>_. sample_ext sample_stack) ''ann'') sample_dialog_start sample_typing
     \<lparr>xs_sigchld = 0, xs_open_fds = 0, xs_attempt = 0\<rparr> False (\<lparr>xs_sigchld = 0, xs_open_fds = 0, xs_attempt = 0\<rparr>, d)
     \<and> response_ok \<notin> set (d_out d) \<and> count_list (d_out d) notice_auth_failed \<le> 5"
proof -
  have r: "dialog_run sample_dialog_env (helper_verify_user (\<lambda>_. sample_ext sample_stack) ''ann'')
     (helper_approves (\<lambda>_. sample_ext sample_stack) ''ann'') sample_dialog_start sample_typing
     \<lparr>xs_sigchld = 0, xs_open_fds = 0, xs_attempt = 0\<rparr> False (\<lparr>xs_sigchld = 0, xs_open_fds = 0, xs_attempt = 0\<rparr>, sample_dialog)"
    by (rule dialog_run.start) (simp add: sample_dialog_starts sample_dialog_def)
  then show ?thesis using helper_dialog_safe [OF r] by blast
qed

text \<open>
  The dialog itself keeps no attempt from its end: with PAM modules that end, and a user who types or whose prompt
  the timers of the widget cancel, an attempt returns.  A module that blocks blocks the attempt; the inductive
  type of PAM programs has none.
\<close>

lemma pam_attempt_returns:
  "\<exists>res b' d'. do_auth_check e (pam_verify_user d_quit (dialog_pump e) libs username) (b, d) = Inr (res, b', d')"
proof -
  have style: "\<forall>j. pam_style_to_gs_style i \<noteq> Other_Message_Style j" for i
    by (simp add: pam_style_to_gs_style_def)
  have "rwp True (\<lambda>(_, _, _, d'). quiet d d') (pam_verify_user d_quit (dialog_pump e) libs username (auth_message_handler e) (b, attempt_state d))"
    by (rule pam_verify_keeps) (use style in \<open>auto intro!: quiet_handler quiet_pump simp: attempt_state_def\<close>)
  then show ?thesis
    by (auto simp: do_auth_check_def rwp_True split: option.split bool.split)
qed

text \<open>
  C15: the answer to a prompt is what was typed.  The keys typed before the prompt was ready and those
  typed afterwards, up to the press of the unlock button, make up the text that goes to the backend,
  in that order; afterwards neither the entry nor the queue of keys holds anything of it.
\<close>

theorem prompt_answer:
  assumes "lp_visible (d_plug d)" "d_input d = [map Key_Press keys @ [Unlock_Clicked]]"
  shows "\<exists>d'. request_response e prompt visible d
       = Inr (pl_from_utf8 (de_plug e) (foldl (\<lambda>t k. pl_edit (de_plug e) k t) (lp_entry_text (d_plug d))
                (rev (lp_key_events (d_plug d)) @ keys)), d')
     \<and> lp_entry_text (d_plug d') = [] \<and> lp_key_events (d_plug d') = [] \<and> d_out d' = d_out d \<and> d_quit d' = d_quit d"
proof -
  define p0 where "p0 = gs_lock_plug_set_sensitive True (d_plug d)"
  define p where "p = gs_lock_plug_enable_prompt (de_plug e) prompt visible p0"
  have f: "foldl (\<lambda>p key. propagate_key (de_plug e) key p) q ks
      = q\<lparr>lp_entry_text := foldl (\<lambda>t k. pl_edit (de_plug e) k t) (lp_entry_text q) ks\<rparr>" if "lp_entry_sensitive q" for q ks
    using that by (rule foldl_propagate)
  have p: "entry_ready p" "lp_visible p" "lp_key_events p = []"
    "lp_entry_text p = foldl (\<lambda>t k. pl_edit (de_plug e) k t) (lp_entry_text (d_plug d)) (rev (lp_key_events (d_plug d)))"
    using assms(1)
    by (simp_all add: p_def p0_def gs_lock_plug_enable_prompt_def plug_forward_key_events_def f entry_ready_def
        restart_cancel_timeout_def remove_cancel_timeout_def gs_lock_plug_set_sensitive_def Let_def)
  obtain p' where "gs_lock_plug_run (de_plug e) (map Key_Press keys @ [Unlock_Clicked]) p = Inr (GS_LOCK_PLUG_RESPONSE_OK, p', [])"
    "lp_entry_text p' = foldl (\<lambda>t k. pl_edit (de_plug e) k t) (lp_entry_text p) keys" "lp_key_events p' = []"
    using run_loop_typed [OF p(1), of "de_plug e" keys "[]"] p(2,3) by (auto simp: gs_lock_plug_run_def)
  then show ?thesis
    using assms(2) p(4)
    by (simp add: request_response_def p0_def [symmetric] p_def [symmetric] response_cb_def gs_lock_plug_get_text_def
        gs_lock_plug_disable_prompt_def Let_def)
qed

theorem prompt_answer_witness:
  "\<exists>d'. request_response sample_dialog_env ''Password:'' False
       (sample_dialog\<lparr>d_plug := (gs_lock_plug_new sample_plug_env)\<lparr>lp_visible := True, lp_key_events := [''c'', ''se'']\<rparr>,
         d_input := [map Key_Press [''re'', ''t''] @ [Unlock_Clicked]]\<rparr>) = Inr (Some ''secret'', d')
     \<and> lp_entry_text (d_plug d') = []"
proof -
  let ?d = "sample_dialog\<lparr>d_plug := (gs_lock_plug_new sample_plug_env)\<lparr>lp_visible := True, lp_key_events := [''c'', ''se'']\<rparr>,
         d_input := [map Key_Press [''re'', ''t''] @ [Unlock_Clicked]]\<rparr>"
  have "lp_visible (d_plug ?d)" "d_input ?d = [map Key_Press [''re'', ''t''] @ [Unlock_Clicked]]" by simp_all
  from prompt_answer [OF this, of sample_dialog_env "''Password:''" False] show ?thesis
    by (auto simp: sample_dialog_env_def sample_plug_env_def gs_lock_plug_new_def date_time_update_def load_theme_def Let_def)
qed

text \<open>
  An information of PAM ends the conversation.  The dialog shows it but returns FALSE, as it does
  when a prompt is not answered, and the conversation function takes that for a refusal: PAM gets an
  error and no replies, also for the messages before it.
\<close>

theorem info_message_interrupts:
  assumes "\<not> pam_calloc_fails lib" "fst m \<noteq> PAM_PROMPT_ECHO_ON" "fst m \<noteq> PAM_PROMPT_ECHO_OFF"
    and "pam_conversation d_quit (dialog_pump e) lib (Some (auth_message_handler e)) [m] bs = Inr (status, replies, bs')"
  shows "status = PAM_CONV_ERR \<and> replies = None"
proof -
  have "rpost (\<lambda>(res, _). \<not> res) (auth_message_handler e (pam_style_to_gs_style (fst m)) msg d)" for msg d
    using assms(2,3) by (simp add: auth_message_handler_def pam_style_to_gs_style_def rpost_def rbind_eq_Inr Let_def)
  then have "rpost (\<lambda>(res, _). \<not> res)
      (gs_auth_run_message_handler d_quit (dialog_pump e) (auth_message_handler e) (pam_style_to_gs_style (fst m)) msg d)" for msg d
    by (fastforce simp: gs_auth_run_message_handler_def gs_auth_queued_message_handler_def rpost_def rbind_eq_Inr split: if_splits)
  then show ?thesis
    using assms(1,4) by (fastforce simp: pam_conversation_def rbind_eq_Inr rpost_def Let_def split: if_splits)
qed

theorem info_message_interrupts_witness:
  "\<exists>bs'. pam_conversation d_quit (dialog_pump sample_dialog_env) (sample_pam 0) (Some (auth_message_handler sample_dialog_env))
     [(PAM_TEXT_INFO, ''Hello'')] (sample_pam_state, sample_dialog) = Inr (PAM_CONV_ERR, None, bs')"
proof -
  have "rwp True (\<lambda>_. True) (pam_conversation d_quit (dialog_pump sample_dialog_env) (sample_pam 0) (Some (auth_message_handler sample_dialog_env))
     [(PAM_TEXT_INFO, ''Hello'')] (sample_pam_state, sample_dialog))"
    by (simp add: dialog_eval plug_eval sample_dialog_defs sample_dialog_def pam_defs sample_pam_defs pam_consts
        maybe_translate_message_def translated_messages_def g_strstrip_def g_ascii_isspace_def Let_def)
  then obtain st rs bs' where r: "pam_conversation d_quit (dialog_pump sample_dialog_env) (sample_pam 0) (Some (auth_message_handler sample_dialog_env))
     [(PAM_TEXT_INFO, ''Hello'')] (sample_pam_state, sample_dialog) = Inr (st, rs, bs')"
    by (auto simp: rwp_True)
  then show ?thesis using info_message_interrupts [OF _ _ _ r] by (simp add: sample_pam_def pam_consts)
qed

end
