(* ===== verification/GS_Auth_Threads.thy ===== *)
theory GS_Auth_Threads
  imports Prelude
begin

text \<open>
  The hand-over of a message from the PAM thread to the main thread, \<open>gs_auth_run_message_handler\<close> and
  \<open>gs_auth_queued_message_handler\<close> of \<open>src/gs-auth-pam.c\<close>, with every interleaving of the two.  The
  data of the message lives in the stack frame of the first; the second writes to it.  A wait on
  a condition may also end without a signal, as the documentation of \<open>g_cond_wait\<close> says; a flag, which the code
  does not have, records whether it has done so before the main thread had taken the message up.
\<close>

datatype hand_thread = Auth_Thread | Main_Thread

text \<open>Where the PAM thread stands in \<open>gs_auth_run_message_handler\<close>.\<close>

datatype auth_pc = A_Enter | A_Locked | A_Queued | A_Waiting | A_Woken | A_Relocked | A_Returned

text \<open>Where the main thread stands: in its main loop, or in \<open>gs_auth_queued_message_handler\<close>.\<close>

datatype main_pc = M_Loop | M_Entered | M_Locked | M_Called | M_Signalled

record handover =
  h_auth :: auth_pc
  h_main :: main_pc
  h_mutex :: "hand_thread option"
  h_idle :: bool
  h_should_interrupt :: bool
  h_frame :: bool
  h_result :: "bool option"
  h_wild_write :: bool
  h_early :: bool

definition handover_init :: handover where
  "handover_init =
     \<lparr>h_auth = A_Enter, h_main = M_Loop, h_mutex = None, h_idle = False, h_should_interrupt = True, h_frame = True,
      h_result = None, h_wild_write = False, h_early = False\<rparr>"

text \<open>
  One step of one thread; \<open>res\<close> is what the callback of the dialog returns.  The steps of the threads alone are those
  for \<open>spurious = False\<close>; the environment adds wake-ups.
\<close>

inductive handover_step :: "bool \<Rightarrow> bool \<Rightarrow> handover \<Rightarrow> handover \<Rightarrow> bool" for spurious res where
  lock_a: "h_auth h = A_Enter \<Longrightarrow> h_mutex h = None \<Longrightarrow>
     handover_step spurious res h (h\<lparr>h_auth := A_Locked, h_mutex := Some Auth_Thread\<rparr>)"
| idle_add: "h_auth h = A_Locked \<Longrightarrow> handover_step spurious res h (h\<lparr>h_auth := A_Queued, h_idle := True\<rparr>)"
| cond_wait: "h_auth h = A_Queued \<Longrightarrow> handover_step spurious res h (h\<lparr>h_auth := A_Waiting, h_mutex := None\<rparr>)"
| spurious_wakeup: "spurious \<Longrightarrow> h_auth h = A_Waiting \<Longrightarrow> handover_step spurious res h
       (h\<lparr>h_auth := A_Woken, h_early := (h_early h \<or> h_main h \<in> {M_Loop, M_Entered})\<rparr>)"
| relock: "h_auth h = A_Woken \<Longrightarrow> h_mutex h = None \<Longrightarrow>
     handover_step spurious res h (h\<lparr>h_auth := A_Relocked, h_mutex := Some Auth_Thread\<rparr>)"
| return_a: "h_auth h = A_Relocked \<Longrightarrow>
     handover_step spurious res h
       (h\<lparr>h_auth := A_Returned, h_mutex := None, h_result := Some (h_should_interrupt h = False), h_frame := False\<rparr>)"
| dispatch: "h_main h = M_Loop \<Longrightarrow> h_idle h \<Longrightarrow> handover_step spurious res h (h\<lparr>h_main := M_Entered, h_idle := False\<rparr>)"
| lock_m: "h_main h = M_Entered \<Longrightarrow> h_mutex h = None \<Longrightarrow>
     handover_step spurious res h (h\<lparr>h_main := M_Locked, h_mutex := Some Main_Thread\<rparr>)"
| call_m: "h_main h = M_Locked \<Longrightarrow>
     handover_step spurious res h
       (h\<lparr>h_main := M_Called, h_should_interrupt := (res = False), h_wild_write := (h_wild_write h \<or> \<not> h_frame h)\<rparr>)"
| signal_m: "h_main h = M_Called \<Longrightarrow>
     handover_step spurious res h
       (h\<lparr>h_main := M_Signalled, h_auth := (if h_auth h = A_Waiting then A_Woken else h_auth h)\<rparr>)"
| unlock_m: "h_main h = M_Signalled \<Longrightarrow> handover_step spurious res h (h\<lparr>h_main := M_Loop, h_mutex := None\<rparr>)"

inductive_cases handover_stepE: "handover_step spurious res h h'"

inductive handover_reach :: "bool \<Rightarrow> bool \<Rightarrow> handover \<Rightarrow> bool" for spurious res where
  init: "handover_reach spurious res handover_init"
| step: "handover_reach spurious res h \<Longrightarrow> handover_step spurious res h h' \<Longrightarrow> handover_reach spurious res h'"

section \<open>The invariant\<close>

text \<open>
  Without an early wake-up the two move in lock step: each position of the one fixes where the other
  can be.
\<close>

definition in_lock_step :: "bool \<Rightarrow> handover \<Rightarrow> bool" where
  "in_lock_step res h =
     (\<not> h_wild_write h
      \<and> (case h_auth h of
           A_Enter \<Rightarrow> h_main h = M_Loop \<and> h_mutex h = None \<and> \<not> h_idle h \<and> h_frame h
         | A_Locked \<Rightarrow> h_main h = M_Loop \<and> h_mutex h = Some Auth_Thread \<and> \<not> h_idle h \<and> h_frame h
         | A_Queued \<Rightarrow> h_mutex h = Some Auth_Thread \<and> h_frame h
             \<and> (h_main h = M_Loop \<and> h_idle h \<or> h_main h = M_Entered \<and> \<not> h_idle h)
         | A_Waiting \<Rightarrow> h_frame h
             \<and> (h_main h = M_Loop \<and> h_idle h \<and> h_mutex h = None
                \<or> h_main h = M_Entered \<and> \<not> h_idle h \<and> h_mutex h = None
                \<or> h_main h = M_Locked \<and> \<not> h_idle h \<and> h_mutex h = Some Main_Thread
                \<or> h_main h = M_Called \<and> \<not> h_idle h \<and> h_mutex h = Some Main_Thread \<and> h_should_interrupt h = (\<not> res))
         | A_Woken \<Rightarrow> h_frame h \<and> \<not> h_idle h
             \<and> (h_main h = M_Locked \<and> h_mutex h = Some Main_Thread
                \<or> h_should_interrupt h = (\<not> res)
                   \<and> (h_main h \<in> {M_Called, M_Signalled} \<and> h_mutex h = Some Main_Thread \<or> h_main h = M_Loop \<and> h_mutex h = None))
         | A_Relocked \<Rightarrow> h_frame h \<and> \<not> h_idle h \<and> h_should_interrupt h = (\<not> res) \<and> h_main h = M_Loop
             \<and> h_mutex h = Some Auth_Thread
         | A_Returned \<Rightarrow> \<not> h_idle h \<and> h_main h = M_Loop \<and> h_mutex h = None \<and> h_result h = Some res))"

text \<open>After one, the PAM thread never waits again, and who has the mutex can go on.\<close>

definition out_of_step :: "handover \<Rightarrow> bool" where
  "out_of_step h =
     (h_early h \<and> h_auth h \<in> {A_Woken, A_Relocked, A_Returned}
      \<and> (h_mutex h = Some Auth_Thread \<longleftrightarrow> h_auth h = A_Relocked)
      \<and> (h_mutex h = Some Main_Thread \<longleftrightarrow> h_main h \<in> {M_Locked, M_Called, M_Signalled}))"

definition handover_ok :: "bool \<Rightarrow> handover \<Rightarrow> bool" where
  "handover_ok res h = (in_lock_step res h \<and> \<not> h_early h \<or> out_of_step h)"

lemma handover_ok_init: "handover_ok res handover_init"
  by (simp add: handover_ok_def in_lock_step_def handover_init_def)

lemma lock_step: "in_lock_step res h \<Longrightarrow> \<not> h_early h \<Longrightarrow> handover_step spurious res h h' \<Longrightarrow> handover_ok res h'"
  by (erule handover_stepE) (auto simp: handover_ok_def in_lock_step_def out_of_step_def split: auth_pc.splits)

lemma out_of_step: "out_of_step h \<Longrightarrow> handover_step spurious res h h' \<Longrightarrow> out_of_step h'"
  by (erule handover_stepE) (auto simp: out_of_step_def)

lemma handover_ok_reach: "handover_reach spurious res h \<Longrightarrow> handover_ok res h"
proof (induction rule: handover_reach.induct)
  case (step h h')
  then show ?case using lock_step out_of_step unfolding handover_ok_def by blast
qed (rule handover_ok_init)

lemma handover_progress:
  assumes "handover_ok res h" "h_auth h \<noteq> A_Returned"
  shows "\<exists>h'. handover_step False res h h'"
proof (cases "in_lock_step res h \<and> \<not> h_early h")
  case True
  then show ?thesis
    using assms(2) by (cases "h_auth h"; cases "h_main h")
      (auto simp: in_lock_step_def intro: lock_a idle_add cond_wait relock return_a dispatch lock_m call_m signal_m unlock_m)
next
  case False
  then have "out_of_step h" using assms(1) unfolding handover_ok_def by blast
  then show ?thesis
    using assms(2) by (cases "h_mutex h"; cases "the (h_mutex h)"; cases "h_main h")
      (auto simp: out_of_step_def intro: relock return_a call_m signal_m unlock_m)
qed

section \<open>Concrete runs\<close>

lemmas reach_step = handover_reach.step

lemma queued_reach:
  "handover_reach sp res (handover_init\<lparr>h_auth := A_Waiting, h_idle := True, h_mutex := None\<rparr>)"
proof -
  have "handover_reach sp res (handover_init\<lparr>h_auth := A_Locked, h_mutex := Some Auth_Thread\<rparr>)"
    by (rule reach_step [OF handover_reach.init lock_a]) (simp_all add: handover_init_def)
  then have "handover_reach sp res (handover_init\<lparr>h_auth := A_Locked, h_mutex := Some Auth_Thread, h_auth := A_Queued, h_idle := True\<rparr>)"
    by (rule reach_step [OF _ idle_add]) simp
  then have "handover_reach sp res
      (handover_init\<lparr>h_auth := A_Locked, h_mutex := Some Auth_Thread, h_auth := A_Queued, h_idle := True, h_auth := A_Waiting, h_mutex := None\<rparr>)"
    by (rule reach_step [OF _ cond_wait]) simp
  then show ?thesis by (simp add: handover_init_def)
qed

text \<open>
  The wait for the answer is not in a loop that checks a condition.  If it ends by itself before
  the main thread has dispatched the message, the conversation is given up as if the dialog had said
  no, and the main thread later writes the answer through a pointer to a frame that is gone.
\<close>

lemma early_wakeup_breaks:
  "\<exists>h. handover_reach True True h \<and> h_early h \<and> h_result h = Some False \<and> h_wild_write h"
proof -
  define h0 where "h0 = handover_init\<lparr>h_auth := A_Woken, h_idle := True, h_mutex := None, h_early := True\<rparr>"
  have "handover_reach True True h0"
    using reach_step [OF queued_reach [of True True] spurious_wakeup] by (simp add: h0_def handover_init_def)
  then have "handover_reach True True (h0\<lparr>h_auth := A_Relocked, h_mutex := Some Auth_Thread\<rparr>)"
    by (rule reach_step [OF _ relock]) (simp_all add: h0_def)
  then have r: "handover_reach True True (h0\<lparr>h_auth := A_Returned, h_mutex := None, h_result := Some False, h_frame := False\<rparr>)"
    using reach_step [OF _ return_a] by (fastforce simp: h0_def handover_init_def)
  then have "handover_reach True True (h0\<lparr>h_auth := A_Returned, h_mutex := None, h_result := Some False, h_frame := False,
      h_main := M_Entered, h_idle := False\<rparr>)"
    by (rule reach_step [OF _ dispatch]) (simp_all add: h0_def handover_init_def)
  then have "handover_reach True True (h0\<lparr>h_auth := A_Returned, h_mutex := None, h_result := Some False, h_frame := False,
      h_main := M_Entered, h_idle := False, h_main := M_Locked, h_mutex := Some Main_Thread\<rparr>)"
    by (rule reach_step [OF _ lock_m]) simp_all
  moreover have "h_early h0" by (simp add: h0_def)
  ultimately show ?thesis using reach_step [OF _ call_m] by fastforce
qed

section \<open>The property\<close>

text \<open>
  C12: the hand-over of a message, with every wake-up that \<open>g_cond_wait\<close> may have.  There is no deadlock and no
  lost wake-up: until the PAM thread returns, one of the threads can move without any help.  The main thread
  writes to the message only while the frame that holds it exists, and the PAM thread returns exactly what
  the dialog's callback returned, unless the wait has ended by itself before the main thread had taken the message
  up.  The wait is not in a loop that checks a condition, so that this does happen: there is a run in which
  the callback says yes, the PAM thread returns no, and the main thread writes through a pointer to a frame
  that is gone.
\<close>

theorem handover_safe:
  assumes "handover_reach True res h"
  shows "(h_auth h \<noteq> A_Returned \<longrightarrow> (\<exists>h'. handover_step False res h h'))
     \<and> (h_early h \<or> \<not> h_wild_write h \<and> (h_auth h = A_Returned \<longrightarrow> h_result h = Some res))
     \<and> (\<exists>h'. handover_reach True True h' \<and> h_early h' \<and> h_result h' = Some False \<and> h_wild_write h')"
proof -
  have ok: "handover_ok res h" by (rule handover_ok_reach [OF assms])
  then have "h_early h \<or> \<not> h_wild_write h \<and> (h_auth h = A_Returned \<longrightarrow> h_result h = Some res)"
    by (auto simp: handover_ok_def in_lock_step_def out_of_step_def)
  then show ?thesis using handover_progress [OF ok] early_wakeup_breaks by blast
qed

text \<open>The run of the witness: the message is taken up, the wait ends by itself only then, and the answer is right.\<close>

lemma late_wakeup_reach:
  "handover_reach True True
     \<lparr>h_auth = A_Woken, h_main = M_Called, h_mutex = Some Main_Thread, h_idle = False, h_should_interrupt = False, h_frame = True,
      h_result = None, h_wild_write = False, h_early = False\<rparr>"
proof -
  let ?h = "handover_init\<lparr>h_auth := A_Waiting, h_idle := True, h_mutex := None\<rparr>"
  have "handover_reach True True (?h\<lparr>h_main := M_Entered, h_idle := False\<rparr>)"
    by (rule reach_step [OF queued_reach dispatch]) (simp_all add: handover_init_def)
  then have "handover_reach True True (?h\<lparr>h_main := M_Entered, h_idle := False, h_main := M_Locked, h_mutex := Some Main_Thread\<rparr>)"
    by (rule reach_step [OF _ lock_m]) simp_all
  from reach_step [OF this spurious_wakeup]
  have w: "handover_reach True True
     \<lparr>h_auth = A_Woken, h_main = M_Locked, h_mutex = Some Main_Thread, h_idle = False, h_should_interrupt = True, h_frame = True,
      h_result = None, h_wild_write = False, h_early = False\<rparr>"
    by (simp add: handover_init_def)
  from reach_step [OF this call_m] show ?thesis by simp
qed

theorem handover_safe_witness:
  "\<exists>h. handover_reach True True h \<and> h_auth h = A_Woken \<and> \<not> h_early h \<and> \<not> h_wild_write h \<and> (\<exists>h'. handover_step False True h h')"
proof -
  let ?h = "\<lparr>h_auth = A_Woken, h_main = M_Called, h_mutex = Some Main_Thread, h_idle = False, h_should_interrupt = False,
      h_frame = True, h_result = None, h_wild_write = False, h_early = False\<rparr>"
  have "\<exists>h'. handover_step False True ?h h'" using handover_safe [OF late_wakeup_reach] by simp
  then show ?thesis using late_wakeup_reach by (intro exI [of _ ?h]) simp
qed

end
