(* ===== verification/System.thy ===== *)
theory System
  imports GS_Daemon_Props GS_Dialog_Props GS_Auth_Threads
begin

text \<open>
  The daemon and the unlock dialog together: what the one prints is what the other reads.  The lines
  of a dialog that got through its initialisation and whose user the backend has not approved do not unlock a
  window, so that nothing the user does at such a dialog, and nothing that happens to it, opens a locked screen;
  a dialog that fails in its initialisation does open it.
\<close>

section \<open>What the window makes of the dialog's lines\<close>

lemma known_line_ok:
  assumes "known_line l"
  shows "dialog_says_ok l \<longleftrightarrow> l = response_ok"
proof -
  have "\<not> dialog_says_ok (print_id x)" for x by (simp add: dialog_says_ok_def print_id_def)
  moreover have "\<not> dialog_says_ok response_cancel" "\<not> dialog_says_ok notice_auth_failed" "\<not> dialog_says_ok request_quit_line"
    "dialog_says_ok response_ok"
    by (simp_all add: dialog_says_ok_def line_defs)
  ultimately show ?thesis using assms by (auto simp: known_line_def)
qed

section \<open>Dialogs without an approval\<close>

text \<open>
  A line that a dialog, once it was initialised, has printed at a moment at which its backend, whichever it is,
  has not approved any attempt.  The dialog, its user and the authority behind it may be any.
\<close>

inductive refused_line :: "string \<Rightarrow> bool" where
  pam: "\<lbrakk>dialog_run e (pam_verify_user d_quit (dialog_pump e) libs username) (pam_approves d_quit (dialog_pump e) libs)
           ds input b0 False (b, d); l \<in> set (d_out d)\<rbrakk> \<Longrightarrow> refused_line l"
| helper: "\<lbrakk>dialog_run e (helper_verify_user envs username) (helper_approves envs username) ds input b0 False (b, d); l \<in> set (d_out d)\<rbrakk>
     \<Longrightarrow> refused_line l"
| pwent: "\<lbrakk>dialog_run e (pwent_verify_user pe) (pwent_approves pe) ds input b0 False (b, d); l \<in> set (d_out d)\<rbrakk> \<Longrightarrow> refused_line l"
| bsdauth: "\<lbrakk>dialog_run e (bsdauth_verify_user auth username) (bsdauth_approves auth username) ds input b0 False (b, d); l \<in> set (d_out d)\<rbrakk>
     \<Longrightarrow> refused_line l"

lemma unapproved_inv: "dialog_inv False d \<Longrightarrow> l \<in> set (d_out d) \<Longrightarrow> known_line l \<and> l \<noteq> response_ok"
  by (auto simp: dialog_inv_def known_lines_def)

lemma refused_line_known: "refused_line l \<Longrightarrow> known_line l \<and> l \<noteq> response_ok"
proof (induction rule: refused_line.induct)
  case pam
  then show ?case using unapproved_inv [OF pam_dialog.dialog_run_inv [OF pam(1), simplified]] by simp
next
  case helper
  then show ?case using unapproved_inv [OF helper_dialog.dialog_run_inv [OF helper(1), simplified]] by simp
next
  case pwent
  then show ?case using unapproved_inv [OF pwent_dialog.dialog_run_inv [OF pwent(1), simplified]] by simp
next
  case bsdauth
  then show ?case using unapproved_inv [OF bsdauth_dialog.dialog_run_inv [OF bsdauth(1), simplified]] by simp
qed

text \<open>
  A step of the daemon in which nobody asks on a bus to end the screensaver and every line that arrives
  from a dialog is one of a dialog without an approval.
\<close>

definition unapproved_event :: "'msg dbus_env \<Rightarrow> 'msg daemon_event \<Rightarrow> daemon \<Rightarrow> bool" where
  "unapproved_event be ev ls =
     (case ev of
        Manager_Event (Dialog_Output i (Watch_In (Line l))) \<Rightarrow> refused_line l
      | _ \<Rightarrow> \<not> unlocking be ev ls)"

definition unapproved_step :: "'msg dbus_env set \<Rightarrow> daemon \<Rightarrow> daemon \<Rightarrow> bool" where
  "unapproved_step buses ls ls' =
     (\<exists>be e ev. be \<in> buses \<and> env_ok e \<and> daemon_step be e ev ls ls' \<and> unapproved_event be ev ls)"

lemma unapproved_harmless: "unapproved_event be ev ls \<Longrightarrow> \<not> unlocking be ev ls"
  using refused_line_known known_line_ok
  by (auto simp: unapproved_event_def says_ok_def split: daemon_event.splits manager_event.splits watch_condition.splits line_status.splits)

lemma unapproved_step_harmless: "unapproved_step buses ls ls' \<Longrightarrow> harmless_step buses ls ls'"
  unfolding unapproved_step_def harmless_step_def using unapproved_harmless by blast

text \<open>
  C1: a dialog that is up and running opens a locked screen only with an approval.  From a reachable state that is
  locked, in which no idle source that ends the screensaver is queued and no window remembers an OK line, the
  screen stays locked as long as nobody asks on a bus to end the screensaver and every line that a window reads
  from its dialog was printed by a dialog that got through its initialisation and whose backend (PAM, PAM behind
  the set-uid helper, the password file or BSD authentication) had not approved its user by then: whatever is
  typed, however often, whatever PAM modules ask and whatever crashes.  The restrictions are needed: an end that is
  queued already unlocks the screen (\<open>pending_end_survives_lock\<close>), and a dialog that fails in its
  initialisation prints the OK line (\<open>init_failure_unlocks\<close>).
\<close>

theorem locked_until_approved:
  assumes "reachable buses (l, mon)" "m_active (mon_manager mon)" "m_lock_active (mon_manager mon)"
    and "m_emit_idles (mon_manager mon) = []" "m_deactivated_idles (mon_manager mon) = 0" "no_ok (mon_manager mon)"
    and "(unapproved_step buses)\<^sup>*\<^sup>* (l, mon) (l', mon')"
  shows "m_active (mon_manager mon') \<and> m_lock_active (mon_manager mon')"
proof -
  have "(harmless_step buses)\<^sup>*\<^sup>* (l, mon) (l', mon')"
    by (rule rtranclp_mono [THEN predicate2D, OF _ assms(7)]) (blast intro: unapproved_step_harmless)
  then show ?thesis using harmless_steps_locked locked_start [OF assms(1-6)] still_lockedD by blast
qed

theorem locked_until_approved_witness:
  "\<exists>l mon l' mon'. reachable {sample_bus} (l, mon) \<and> unapproved_step {sample_bus} (l, mon) (l', mon')
     \<and> m_active (mon_manager mon') \<and> m_lock_active (mon_manager mon')"
proof -
  obtain l mon where r: "reachable {sample_bus} (l, mon)" "synced still_locked (l, mon)" using sample_locked by blast
  have p: "m_active (mon_manager mon)" "m_lock_active (mon_manager mon)" "m_emit_idles (mon_manager mon) = []"
    "m_deactivated_idles (mon_manager mon) = 0" "no_ok (mon_manager mon)"
    using r(2) by (auto simp: synced_def still_locked_def in_step_def nothing_pending_def)
  let ?ls = "prefs_key_changed sample_manager_env sample_gsettings KEY_MODE (l, mon)"
  have "daemon_step sample_bus sample_manager_env (Settings_Changed sample_gsettings KEY_MODE) (l, mon) ?ls"
    by (intro daemon_step.dispatch) simp_all
  then have st: "unapproved_step {sample_bus} (l, mon) ?ls"
    unfolding unapproved_step_def unapproved_event_def
    by (intro exI [of _ sample_bus] exI [of _ sample_manager_env] exI [of _ "Settings_Changed sample_gsettings KEY_MODE"])
      (simp add: sample_manager_env_ok)
  obtain l' mon' where ls': "?ls = (l', mon')" by (metis prod.exhaust)
  have "(unapproved_step {sample_bus})\<^sup>*\<^sup>* (l, mon) (l', mon')" using st ls' by simp
  from locked_until_approved [OF r(1) p this] show ?thesis using r(1) st ls' by metis
qed

text \<open>
  C40: a dialog that cannot lock opens the screen.  When the dialog cannot give up its rights, when it
  runs as root, when its backend cannot be initialised or when \<open>RUNNING_UNDER_MDM\<close> is set, it prints a
  single line before it exits, and the window that reads this line ends the screensaver.
\<close>

theorem init_failure_unlocks:
  assumes "\<not> privileged_initialization ds \<or> ds_gtk_init ds \<and> \<not> ds_show_version ds \<and> lock_initialization ds \<noteq> None"
  shows "\<exists>line. dialog_main e ds input = Inl [line]
     \<and> (\<forall>we pump w keep w' evs. lock_command_watch we pump (Watch_In (Line line)) w = Inr (keep, w', evs)
          \<longrightarrow> Deactivated_Queued \<in> set evs)"
proof (intro exI conjI allI impI)
  show "dialog_main e ds input = Inl [response_ok]"
    using assms by (auto simp: dialog_main_def response_lock_init_failed_def)
  show "Deactivated_Queued \<in> set evs" if "lock_command_watch we pump (Watch_In (Line response_ok)) w = Inr (keep, w', evs)"
    for we pump w keep w' evs
    using ok_line_unlocks [OF that] known_line_ok [of response_ok] by simp
qed

theorem init_failure_unlocks_witness:
  "\<exists>line w' evs. dialog_main sample_dialog_env (sample_dialog_start\<lparr>ds_under_mdm := True\<rparr>) [] = Inl [line]
     \<and> lock_command_watch sample_win_env (\<lambda>_. id) (Watch_In (Line line)) sample_locked_window = Inr (False, w', evs)
     \<and> Deactivated_Queued \<in> set evs"
proof -
  have "lock_initialization (sample_dialog_start\<lparr>ds_under_mdm := True\<rparr>) \<noteq> None"
    by (simp add: lock_initialization_def sample_dialog_start_def)
  then have "\<exists>line. dialog_main sample_dialog_env (sample_dialog_start\<lparr>ds_under_mdm := True\<rparr>) [] = Inl [line]
     \<and> (\<forall>we pump w keep w' evs. lock_command_watch we pump (Watch_In (Line line)) w = Inr (keep, w', evs)
          \<longrightarrow> Deactivated_Queued \<in> set evs)"
    by (intro init_failure_unlocks) (simp add: sample_dialog_start_def)
  moreover have "dialog_main sample_dialog_env (sample_dialog_start\<lparr>ds_under_mdm := True\<rparr>) [] = Inl [response_ok]"
    using sample_hack_uid by (simp add: dialog_main_def privileged_initialization_def lock_initialization_def sample_dialog_start_def
        response_lock_init_failed_def)
  moreover have "\<exists>w' evs. lock_command_watch sample_win_env (\<lambda>_. id) (Watch_In (Line response_ok)) sample_locked_window = Inr (False, w', evs)"
    by (simp add: lock_command_watch_def dialog_line_def response_ok_def lock_command_finished_def sample_window_defs popdown_defs finish_defs)
  ultimately show ?thesis by fastforce
qed

end
