(* ===== verification/GS_Command.thy ===== *)
theory GS_Command
  imports GS_Daemon_Props
begin

text \<open>
  \<open>src/mate-screensaver-command.c\<close>: the command line client.  It turns its options into method calls
  on the session bus, waits for replies where it needs them, and prints what it learns.  The bus with
  whoever answers is a parameter (\<open>client_bus\<close>); the locale \<open>screensaver_service\<close> is what the client
  relies on, and its interpretation is the listener of the daemon.  Messages to the standard error are
  left out.
\<close>

section \<open>The bus as the client sees it\<close>

record client_call =
  cc_interface :: string
  cc_name :: string
  cc_args :: "dbus_arg list"

text \<open>
  \<open>cb_send\<close> sends a message without waiting; \<open>cb_call\<close> waits for the reply, which is missing after
  an error, whether it comes from the bus or from the other side.  \<open>cb_alloc_fails n\<close> says that
  the \<open>n\<close>th allocation while the strings of a reply are read fails.
\<close>

record 'w client_bus =
  cb_no_memory :: bool
  cb_alloc_fails :: "nat \<Rightarrow> bool"
  cb_send :: "client_call \<Rightarrow> 'w \<Rightarrow> 'w res"
  cb_call :: "client_call \<Rightarrow> 'w \<Rightarrow> (dbus_out option \<times> 'w) res"

definition GS_INTERFACE :: string where "GS_INTERFACE = ''org.mate.ScreenSaver''"

definition method_call :: "string \<Rightarrow> dbus_arg list \<Rightarrow> client_call" where
  "method_call name args = \<lparr>cc_interface = GS_INTERFACE, cc_name = name, cc_args = args\<rparr>"

definition screensaver_send_message_inhibit :: "'w client_bus \<Rightarrow> string \<Rightarrow> string \<Rightarrow> 'w \<Rightarrow> (dbus_out option \<times> 'w) res" where
  "screensaver_send_message_inhibit bus application reason w =
     (if cb_no_memory bus then ret (None, w)
      else cb_call bus (method_call ''Inhibit'' [A_String application, A_String reason]) w)"

definition screensaver_send_message_bool :: "'w client_bus \<Rightarrow> string \<Rightarrow> bool \<Rightarrow> 'w \<Rightarrow> (dbus_out option \<times> 'w) res" where
  "screensaver_send_message_bool bus name value w =
     (if cb_no_memory bus then ret (None, w) else cb_call bus (method_call name [A_Bool value]) w)"

definition screensaver_send_message_void :: "'w client_bus \<Rightarrow> string \<Rightarrow> bool \<Rightarrow> 'w \<Rightarrow> (dbus_out option \<times> 'w) res" where
  "screensaver_send_message_void bus name expect_reply w =
     (if cb_no_memory bus then ret (None, w)
      else if \<not> expect_reply then rbind (cb_send bus (method_call name []) w) (\<lambda>w. ret (None, w))
      else cb_call bus (method_call name []) w)"

section \<open>Reading replies\<close>

text \<open>Reading an argument of another type than expected yields whatever is there.\<close>

definition reply_bool :: "dbus_out \<Rightarrow> bool res" where
  "reply_bool r = (case r of Ret_Bool b \<Rightarrow> ret b | _ \<Rightarrow> Inl Uninit_Read)"

definition reply_int32 :: "dbus_out \<Rightarrow> int res" where
  "reply_int32 r = (case r of Ret_Secs t \<Rightarrow> ret (sint t) | _ \<Rightarrow> Inl Uninit_Read)"

definition reply_strings :: "dbus_out \<Rightarrow> string list res" where
  "reply_strings r = (case r of Ret_Strings ss \<Rightarrow> ret ss | _ \<Rightarrow> Inl Uninit_Read)"

text \<open>
  The strings of an array are stored in a buffer of \<open>cap\<close> pointers, which grows by eight whenever the
  number of strings is a multiple of eight, and by one more for the terminating NULL.  \<open>None\<close> is the
  label \<open>oom\<close>; the second argument counts the allocations.
\<close>

fun string_loop :: "(nat \<Rightarrow> bool) \<Rightarrow> nat \<Rightarrow> string list \<Rightarrow> nat \<Rightarrow> string list \<Rightarrow> (string list \<times> nat \<times> nat) option res" where
  "string_loop fails n [] cap buffer = ret (Some (buffer, cap, n))"
| "string_loop fails n (s # ss) cap buffer =
     (let count = length buffer;
          grow = (count mod 8 = 0 \<and> count \<noteq> 0);
          cap = (if grow then count + 8 else cap);
          n' = (if grow then Suc n else n) in
      if grow \<and> fails n then ret None
      else if fails n' then ret None
      else if cap \<le> count then Inl Out_Of_Bounds
      else string_loop fails (Suc n') ss cap (buffer @ [s]))"

definition get_string_from_iter :: "(nat \<Rightarrow> bool) \<Rightarrow> string list \<Rightarrow> string list option res" where
  "get_string_from_iter fails ss =
     (if fails 0 then ret None
      else
        rbind (string_loop fails 1 ss 8 []) (\<lambda>r.
        case r of
          None \<Rightarrow> ret None
        | Some (buffer, cap, n) \<Rightarrow>
            (let count = length buffer;
                 cap = (if count mod 8 = 0 then count + 1 else cap) in
             if count mod 8 = 0 \<and> fails n then ret None
             else if cap \<le> count then Inl Out_Of_Bounds
             else ret (Some buffer))))"

section \<open>The command\<close>

record command_options =
  do_quit :: bool
  do_lock :: bool
  do_unlock :: bool
  do_cycle :: bool
  do_activate :: bool
  do_deactivate :: bool
  do_version :: bool
  do_poke :: bool
  do_inhibit :: bool
  do_query :: bool
  do_time :: bool
  inhibit_reason :: "string option"
  inhibit_application :: "string option"

text \<open>
  A part of \<open>do_command\<close> works on the lines printed so far and on the bus; the flag says whether it went
  on or jumped to the label \<open>done\<close>.
\<close>

type_synonym 'w command_part = "string list \<times> 'w \<Rightarrow> (bool \<times> string list \<times> 'w) res"

definition then_part :: "'w command_part \<Rightarrow> 'w command_part \<Rightarrow> 'w command_part" where
  "then_part f g s = rbind (f s) (\<lambda>(go, s). if go then g s else ret (False, s))"

definition when_part :: "bool \<Rightarrow> 'w command_part \<Rightarrow> 'w command_part" where
  "when_part b f s = (if b then f s else ret (True, s))"

definition active_line :: "bool \<Rightarrow> string" where
  "active_line v = ''The screensaver is '' @ (if v then ''active'' else ''inactive'') @ [CHR 0x0A]"

definition inhibitor_lines :: "string list \<Rightarrow> string list" where
  "inhibitor_lines inhibitors = map (\<lambda>s. [CHR 0x09] @ s @ [CHR 0x0A]) inhibitors"

definition query_part :: "'w client_bus \<Rightarrow> 'w command_part" where
  "query_part bus s =
     (let (out, w) = s in
      rbind (screensaver_send_message_void bus ''GetActive'' True w) (\<lambda>(reply, w).
      case reply of
        None \<Rightarrow> ret (False, out, w)
      | Some r \<Rightarrow>
          rbind (reply_bool r) (\<lambda>v.
          let out = out @ [active_line v] in
          rbind (screensaver_send_message_void bus ''GetInhibitors'' True w) (\<lambda>(reply, w).
          case reply of
            None \<Rightarrow> ret (False, out, w)
          | Some r \<Rightarrow>
              rbind (reply_strings r) (\<lambda>ss.
              if ss = [] then ret (True, out @ [''The screensaver is not inhibited'' @ [CHR 0x0A]], w)
              else
                (let out = out @ [''The screensaver is being inhibited by:'' @ [CHR 0x0A]] in
                 rbind (get_string_from_iter (cb_alloc_fails bus) ss) (\<lambda>inhibitors.
                 ret (True, out @ inhibitor_lines (case inhibitors of None \<Rightarrow> [] | Some l \<Rightarrow> l), w))))))))"

text \<open>The second reply is used without a check.\<close>

definition time_part :: "(int \<Rightarrow> string) \<Rightarrow> 'w client_bus \<Rightarrow> 'w command_part" where
  "time_part show_int bus s =
     (let (out, w) = s in
      rbind (screensaver_send_message_void bus ''GetActive'' True w) (\<lambda>(reply, w).
      case reply of
        None \<Rightarrow> ret (False, out, w)
      | Some r \<Rightarrow>
          rbind (reply_bool r) (\<lambda>v.
          if v then
            rbind (screensaver_send_message_void bus ''GetActiveTime'' True w) (\<lambda>(reply, w).
            case reply of
              None \<Rightarrow> Inl Null_Deref
            | Some r \<Rightarrow>
                rbind (reply_int32 r) (\<lambda>t.
                ret (True, out @ [''The screensaver has been active for '' @ show_int t @ '' seconds.'' @ [CHR 0x0A]], w)))
          else ret (True, out @ [''The screensaver is not currently active.'' @ [CHR 0x0A]], w))))"

definition send_part :: "string \<Rightarrow> 'w client_bus \<Rightarrow> 'w command_part" where
  "send_part name bus s =
     (let (out, w) = s in
      rbind (screensaver_send_message_void bus name False w) (\<lambda>(_, w). ret (True, out, w)))"

definition set_active_part :: "bool \<Rightarrow> 'w client_bus \<Rightarrow> 'w command_part" where
  "set_active_part value bus s =
     (let (out, w) = s in
      rbind (screensaver_send_message_bool bus ''SetActive'' value w) (\<lambda>(reply, w). ret (reply \<noteq> None, out, w)))"

definition unknown_if_none :: "string option \<Rightarrow> string" where
  "unknown_if_none t = (case t of None \<Rightarrow> ''Unknown'' | Some s \<Rightarrow> s)"

definition inhibit_part :: "command_options \<Rightarrow> 'w client_bus \<Rightarrow> 'w command_part" where
  "inhibit_part opts bus s =
     (let (out, w) = s in
      rbind (screensaver_send_message_inhibit bus (unknown_if_none (inhibit_application opts))
               (unknown_if_none (inhibit_reason opts)) w) (\<lambda>(reply, w). ret (reply \<noteq> None, out, w)))"

text \<open>
  The result: whether the main loop goes on, which keeps the connection and with it the inhibitor, the
  lines printed, and the bus.
\<close>

definition do_command :: "(int \<Rightarrow> string) \<Rightarrow> command_options \<Rightarrow> 'w client_bus \<Rightarrow> 'w \<Rightarrow> (bool \<times> string list \<times> 'w) res" where
  "do_command show_int opts bus w =
     (if do_quit opts then
        rbind (screensaver_send_message_void bus ''Quit'' False w) (\<lambda>(_, w). ret (False, [], w))
      else
        rbind
          (then_part (when_part (do_query opts) (query_part bus))
          (then_part (when_part (do_time opts) (time_part show_int bus))
          (then_part (when_part (do_lock opts) (send_part ''Lock'' bus))
          (then_part (when_part (do_unlock opts) (send_part ''Unlock'' bus))
          (then_part (when_part (do_cycle opts) (send_part ''Cycle'' bus))
          (then_part (when_part (do_poke opts) (send_part ''SimulateUserActivity'' bus))
          (then_part (when_part (do_activate opts) (set_active_part True bus))
          (then_part (when_part (do_deactivate opts) (set_active_part False bus))
                     (when_part (do_inhibit opts) (inhibit_part opts bus))))))))) ([], w)) (\<lambda>(go, out, w).
        ret (go \<and> do_inhibit opts, out, w)))"

text \<open>
  \<open>main\<close>: the options parse, a connection can be had, somebody owns the name of the service.  The exit
  status is missing while the client blocks.
\<close>

record client_env =
  ce_parses :: bool
  ce_connects :: bool
  ce_is_running :: bool
  ce_version_line :: string

definition command_main ::
  "client_env \<Rightarrow> (int \<Rightarrow> string) \<Rightarrow> command_options \<Rightarrow> 'w client_bus \<Rightarrow> 'w \<Rightarrow> (int option \<times> string list \<times> 'w) res" where
  "command_main ce show_int opts bus w =
     (if \<not> ce_parses ce then ret (Some 1, [], w)
      else if do_version opts then ret (Some 1, [ce_version_line ce], w)
      else if \<not> ce_connects ce then ret (Some 1, [], w)
      else if \<not> ce_is_running ce then ret (Some 1, [], w)
      else
        rbind (do_command show_int opts bus w) (\<lambda>(blocks, out, w).
        ret (if blocks then None else Some 0, out, w)))"

section \<open>The buffer of strings\<close>

definition room :: "nat \<Rightarrow> nat \<Rightarrow> bool" where
  "room cap n = ((n mod 8 \<noteq> 0 \<or> n = 0 \<longrightarrow> n < cap) \<and> (n mod 8 \<noteq> 0 \<longrightarrow> n + (8 - n mod 8) \<le> cap))"

lemma room_step:
  assumes "room cap n"
  shows "n < (if n mod 8 = 0 \<and> n \<noteq> 0 then n + 8 else cap)" "8 \<le> cap \<Longrightarrow> room (if n mod 8 = 0 \<and> n \<noteq> 0 then n + 8 else cap) (Suc n)"
  using assms unfolding room_def by (auto simp: mod_Suc split: if_splits)

lemma string_loop_safe:
  assumes "room cap (length buffer)" "8 \<le> cap"
  shows "(\<exists>cap' n'. string_loop fails n ss cap buffer = Inr (Some (buffer @ ss, cap', n')) \<and> room cap' (length (buffer @ ss)))
     \<or> string_loop fails n ss cap buffer = Inr None \<and> (\<exists>n. fails n)"
  using assms
proof (induction ss arbitrary: cap buffer n)
  case (Cons s ss)
  let ?grow = "length buffer mod 8 = 0 \<and> length buffer \<noteq> 0"
  let ?cap = "if ?grow then length buffer + 8 else cap"
  have "room ?cap (length (buffer @ [s]))" "8 \<le> ?cap" "\<not> ?cap \<le> length buffer"
    using room_step [OF Cons.prems(1)] Cons.prems(2) by auto
  then show ?case using Cons.IH [of ?cap "buffer @ [s]" "Suc (if ?grow then Suc n else n)"] by (auto simp: Let_def)
qed simp

lemma get_string_from_iter_cases:
  "get_string_from_iter fails ss = Inr (Some ss) \<or> get_string_from_iter fails ss = Inr None \<and> (\<exists>n. fails n)"
proof -
  have "room 8 (length ([] :: string list))" by (simp add: room_def)
  from string_loop_safe [OF this, of fails 1 ss]
  consider cap n where "string_loop fails 1 ss 8 [] = Inr (Some (ss, cap, n))" "room cap (length ss)"
    | "string_loop fails 1 ss 8 [] = Inr None" "\<exists>n. fails n" by auto
  then show ?thesis
  proof cases
    case 1
    have "(if length ss mod 8 = 0 then length ss + 1 else cap) > length ss" using 1(2) by (simp add: room_def)
    then show ?thesis using 1(1) by (auto simp: get_string_from_iter_def Let_def)
  qed (auto simp: get_string_from_iter_def)
qed

text \<open>
  The list of inhibitors is read safely.  However many strings the reply holds, no pointer is stored
  behind the end of the buffer, the terminating NULL included, and the result holds all strings in
  order, unless memory runs out.
\<close>

theorem get_string_from_iter_safe:
  "get_string_from_iter fails ss = Inr (Some ss) \<or> get_string_from_iter fails ss = Inr None \<and> (\<exists>n. fails n)"
  by (rule get_string_from_iter_cases)

section \<open>The service\<close>

text \<open>The report of a query.\<close>

definition status_report :: "bool \<Rightarrow> string list \<Rightarrow> string list" where
  "status_report v inhibitors =
     active_line v # (if inhibitors = [] then [''The screensaver is not inhibited'' @ [CHR 0x0A]]
       else (''The screensaver is being inhibited by:'' @ [CHR 0x0A]) # inhibitor_lines inhibitors)"

text \<open>
  What the client relies on when it asks: the calls return, tell the truth, and change nothing it can
  see.
\<close>

locale screensaver_service =
  fixes bus :: "'w client_bus" and active :: "'w \<Rightarrow> bool" and inhibitors :: "'w \<Rightarrow> string list" and same :: "'w \<Rightarrow> 'w \<Rightarrow> bool"
  assumes memory: "\<not> cb_no_memory bus" "\<not> cb_alloc_fails bus n"
    and get_active: "\<exists>w'. cb_call bus (method_call ''GetActive'' []) w = Inr (Some (Ret_Bool (active w)), w') \<and> same w w'"
    and get_inhibitors: "\<exists>w'. cb_call bus (method_call ''GetInhibitors'' []) w = Inr (Some (Ret_Strings (inhibitors w)), w') \<and> same w w'"
    and same_trans: "same w w' \<Longrightarrow> same w' w'' \<Longrightarrow> same w w''"
    and same_inhibitors: "same w w' \<Longrightarrow> inhibitors w' = inhibitors w"
begin

lemma all_strings: "get_string_from_iter (cb_alloc_fails bus) ss = Inr (Some ss)"
  using get_string_from_iter_cases [of "cb_alloc_fails bus" ss] memory(2) by blast

lemma query_report: "\<exists>w'. query_part bus (out, w) = Inr (True, out @ status_report (active w) (inhibitors w), w') \<and> same w w'"
proof -
  obtain w1 where w1: "cb_call bus (method_call ''GetActive'' []) w = Inr (Some (Ret_Bool (active w)), w1)" "same w w1"
    using get_active by blast
  obtain w2 where w2: "cb_call bus (method_call ''GetInhibitors'' []) w1 = Inr (Some (Ret_Strings (inhibitors w)), w2)" "same w w2"
    using get_inhibitors [of w1] same_inhibitors [OF w1(2)] same_trans [OF w1(2)] by metis
  show ?thesis
    using w1 w2 memory
    by (auto simp: query_part_def screensaver_send_message_void_def reply_bool_def reply_strings_def
        all_strings status_report_def Let_def)
qed

end

text \<open>A client that can only send messages keeps whatever the bus keeps.\<close>

definition keeps_part :: "('w \<Rightarrow> bool) \<Rightarrow> 'w command_part \<Rightarrow> bool" where
  "keeps_part P f = (\<forall>out w. P w \<longrightarrow> rpost (\<lambda>(_, _, w'). P w') (f (out, w)))"

lemma keeps_partD: "keeps_part P f \<Longrightarrow> P w \<Longrightarrow> rpost (\<lambda>(_, _, w'). P w') (f (out, w))"
  by (simp add: keeps_part_def)

lemma keeps_when [inv_intros]: "keeps_part P f \<Longrightarrow> keeps_part P (when_part b f)"
  by (simp add: keeps_part_def when_part_def)

lemma keeps_then [inv_intros]: "keeps_part P f \<Longrightarrow> keeps_part P g \<Longrightarrow> keeps_part P (then_part f g)"
  unfolding keeps_part_def then_part_def
  by (intro allI impI, rule rpost_rbindI [where P = "\<lambda>(_, _, w'). P w'"]) auto

lemma rpost_any: "(\<And>x. rpost Q (f x)) \<Longrightarrow> rpost Q (rbind m f)"
  by (rule rpost_rbindI [where P = "\<lambda>_. True"]) (auto simp: rpost_def)

lemmas reply_any =
  rpost_any [where m = "reply_bool r" for r] rpost_any [where m = "reply_int32 r" for r]
  rpost_any [where m = "reply_strings r" for r] rpost_any [where m = "get_string_from_iter fails ss" for fails ss]

locale kept_by_bus =
  fixes bus :: "'w client_bus" and P :: "'w \<Rightarrow> bool"
  assumes send: "P w \<Longrightarrow> rpost P (cb_send bus m w)"
    and call: "P w \<Longrightarrow> rpost (\<lambda>(_, w'). P w') (cb_call bus m w)"
begin

lemma message_keeps:
  assumes "P w"
  shows "rpost (\<lambda>(_, w'). P w') (screensaver_send_message_void bus name expect w)"
    "rpost (\<lambda>(_, w'). P w') (screensaver_send_message_bool bus name v w)"
    "rpost (\<lambda>(_, w'). P w') (screensaver_send_message_inhibit bus app reason w)"
  using call [OF assms] send [OF assms] assms
  by (simp_all add: screensaver_send_message_void_def screensaver_send_message_bool_def screensaver_send_message_inhibit_def)

lemma after_void:
  assumes "P w" "\<And>r w'. P w' \<Longrightarrow> rpost Q (f (r, w'))"
  shows "rpost Q (rbind (screensaver_send_message_void bus name expect w) f)"
  by (rule rpost_rbindI [OF message_keeps(1) [OF assms(1)]]) (use assms(2) in auto)

lemma query_keeps: "keeps_part P (query_part bus)"
  unfolding keeps_part_def query_part_def Let_def prod.case
  by (intro allI impI, erule after_void)
    (auto simp del: rpost_simps(3) split: option.split intro!: reply_any after_void)

lemma time_keeps: "keeps_part P (time_part show_int bus)"
  unfolding keeps_part_def time_part_def Let_def prod.case
  by (intro allI impI, erule after_void)
    (auto simp del: rpost_simps(3) split: option.split intro!: reply_any after_void)

lemma send_keeps: "keeps_part P (send_part name bus)"
  unfolding keeps_part_def send_part_def Let_def prod.case by (intro allI impI, erule after_void) simp

lemma set_active_keeps: "keeps_part P (set_active_part v bus)"
  unfolding keeps_part_def set_active_part_def Let_def prod.case
  by (intro allI impI, rule rpost_rbindI [OF message_keeps(2)]) auto

lemma inhibit_keeps: "keeps_part P (inhibit_part opts bus)"
  unfolding keeps_part_def inhibit_part_def Let_def prod.case
  by (intro allI impI, rule rpost_rbindI [OF message_keeps(3)]) auto

lemmas parts_keep = query_keeps time_keeps send_keeps set_active_keeps inhibit_keeps

lemma do_command_keeps:
  assumes "P w"
  shows "rpost (\<lambda>(_, _, w'). P w') (do_command show_int opts bus w)"
proof (cases "do_quit opts")
  case True
  then show ?thesis unfolding do_command_def by (simp del: rpost_simps(3)) (rule after_void [OF assms], simp)
next
  case False
  have k: "rpost (\<lambda>(_, _, w'). P w') (f ([], w))" if "keeps_part P f" for f
    using keeps_partD [OF that assms] .
  show ?thesis
    unfolding do_command_def using False
    by (simp del: rpost_simps(3)) (rule rpost_rbindI, rule k, intro inv_intros parts_keep, auto)
qed

lemma then_part_went_on:
  assumes "then_part f g (out, w) = Inr (True, s')" "keeps_part P f" "P w"
    and "\<And>out1 w1. P w1 \<Longrightarrow> g (out1, w1) = Inr (True, s') \<Longrightarrow> Q"
  shows Q
  using assms(1,4) keeps_partD [OF assms(2,3), of out]
  by (auto simp: then_part_def res_simps rpost_def split: if_splits)

lemma blocks_after_inhibit:
  assumes "do_command show_int opts bus w = Inr (True, out, w')" "P w"
  shows "\<exists>out1 w1. P w1 \<and> inhibit_part opts bus (out1, w1) = Inr (True, out, w')"
proof -
  have i: "do_inhibit opts" and
    "then_part (when_part (do_query opts) (query_part bus))
      (then_part (when_part (do_time opts) (time_part show_int bus))
      (then_part (when_part (do_lock opts) (send_part ''Lock'' bus))
      (then_part (when_part (do_unlock opts) (send_part ''Unlock'' bus))
      (then_part (when_part (do_cycle opts) (send_part ''Cycle'' bus))
      (then_part (when_part (do_poke opts) (send_part ''SimulateUserActivity'' bus))
      (then_part (when_part (do_activate opts) (set_active_part True bus))
      (then_part (when_part (do_deactivate opts) (set_active_part False bus))
                 (when_part (do_inhibit opts) (inhibit_part opts bus))))))))) ([], w) = Inr (True, out, w')"
    using assms(1) by (auto simp: do_command_def res_simps split: if_splits)
  from this(2) assms(2) obtain out1 w1 where "P w1" "when_part (do_inhibit opts) (inhibit_part opts bus) (out1, w1) = Inr (True, out, w')"
    by (elim then_part_went_on) (assumption | intro inv_intros parts_keep)+
  then show ?thesis using i by (auto simp: when_part_def)
qed

end

section \<open>The daemon as the service\<close>

text \<open>How libdbus reads the client's messages; the daemon has memory for its replies.\<close>

definition client_messages :: "client_call dbus_env \<Rightarrow> client_call dbus_env" where
  "client_messages be =
     be\<lparr>env_no_memory := False, msg_is_method_call := (\<lambda>m i n. cc_interface m = i \<and> cc_name m = n),
        msg_is_signal := (\<lambda>_ _ _. False),
        msg_get_2_strings := (\<lambda>m. case cc_args m of [A_String a, A_String b] \<Rightarrow> Some (a, b) | _ \<Rightarrow> None),
        msg_body := cc_args\<rparr>"

fun is_return :: "dbus_out \<Rightarrow> bool" where
  "is_return Ret_Empty = True"
| "is_return (Ret_Cookie c) = True"
| "is_return (Ret_Strings ss) = True"
| "is_return (Ret_Bool b) = True"
| "is_return (Ret_Secs t) = True"
| "is_return (Ret_Introspection xml) = True"
| "is_return m = False"

text \<open>The reply is the last message the daemon has sent; an error reply is an error of the call.\<close>

definition reply_to :: "gs_listener \<Rightarrow> gs_listener \<Rightarrow> dbus_out option" where
  "reply_to l l' =
     (case take (length (l_sent l') - length (l_sent l)) (l_sent l') of
        r # _ \<Rightarrow> if is_return r then Some r else None
      | [] \<Rightarrow> None)"

definition daemon_bus :: "client_call dbus_env \<Rightarrow> manager_env \<Rightarrow> daemon client_bus" where
  "daemon_bus be e =
     (let be = client_messages be;
          deliver = (\<lambda>m ls. rbind (gs_listener_message_handler be (connect_listener_signals be e) m ls) (\<lambda>(_, ls). ret ls)) in
      \<lparr>cb_no_memory = False, cb_alloc_fails = (\<lambda>_. False), cb_send = deliver,
       cb_call = (\<lambda>m ls. rbind (deliver m ls) (\<lambda>ls'. ret (reply_to (fst ls) (fst ls'), ls')))\<rparr>)"

definition same_but_sent :: "daemon \<Rightarrow> daemon \<Rightarrow> bool" where
  "same_but_sent ls ls' = (snd ls' = snd ls \<and> (fst ls')\<lparr>l_sent := []\<rparr> = (fst ls)\<lparr>l_sent := []\<rparr>)"

definition daemon_inhibitors :: "client_call dbus_env \<Rightarrow> daemon \<Rightarrow> string list" where
  "daemon_inhibitors be ls = map (\<lambda>(_, en). accumulate_ref_entry (client_messages be) en) (l_inhibitors (fst ls))"

lemma reply_pushed: "is_return r \<Longrightarrow> reply_to l (l_send r l') = Some r" if "l_sent l' = l_sent l" for l l'
  using that by (simp add: reply_to_def l_send_def Suc_diff_le)

lemma l_send_same [simp]: "(l_send r l)\<lparr>l_sent := x\<rparr> = l\<lparr>l_sent := x\<rparr>"
  by (simp add: l_send_def)

lemma client_messages_simps [simp]:
  "env_no_memory (client_messages be) = False"
  "msg_is_method_call (client_messages be) m i n = (cc_interface m = i \<and> cc_name m = n)"
  "msg_is_signal (client_messages be) m i n = False"
  "msg_body (client_messages be) m = cc_args m"
  "msg_get_2_strings (client_messages be) \<lparr>cc_interface = i, cc_name = n, cc_args = [A_String a, A_String b]\<rparr> = Some (a, b)"
  by (simp_all add: client_messages_def)

lemma daemon_call:
  "cb_call (daemon_bus be e) (method_call name args) ls =
     rbind (listener_dbus_handle_session_message (client_messages be) (connect_listener_signals (client_messages be) e) (method_call name args) ls)
       (\<lambda>(_, ls'). ret (reply_to (fst ls) (fst ls'), ls'))"
  "cb_send (daemon_bus be e) (method_call name args) ls =
     rbind (listener_dbus_handle_session_message (client_messages be) (connect_listener_signals (client_messages be) e) (method_call name args) ls)
       (\<lambda>(_, ls'). ret ls')"
  "cb_no_memory (daemon_bus be e) = False" "cb_alloc_fails (daemon_bus be e) n = False"
  by (simp_all add: daemon_bus_def gs_listener_message_handler_def is_disconnected_def method_call_def GS_INTERFACE_def rbind_assoc
      split_def Let_def)

lemmas message_defs =
  listener_dbus_handle_session_message_def GS_LISTENER_SERVICE_def GS_FDO_LISTENER_SERVICE_def GS_INTERFACE_def method_call_def
  handled_def Let_def

interpretation daemon_service: screensaver_service "daemon_bus be e" "\<lambda>ls. l_active (fst ls)" "daemon_inhibitors be" same_but_sent
  for be e
proof
  show "\<exists>ls'. cb_call (daemon_bus be e) (method_call ''GetActive'' []) ls = Inr (Some (Ret_Bool (l_active (fst ls))), ls') \<and> same_but_sent ls ls'" for ls
    by (cases ls) (simp add: daemon_call, simp add: message_defs listener_get_property_def send_reply_def reply_pushed same_but_sent_def)
  show "\<exists>ls'. cb_call (daemon_bus be e) (method_call ''GetInhibitors'' []) ls = Inr (Some (Ret_Strings (daemon_inhibitors be ls)), ls') \<and> same_but_sent ls ls'" for ls
    by (cases ls) (simp add: daemon_call, simp add: message_defs listener_dbus_get_ref_entries_def send_reply_def reply_pushed same_but_sent_def
        daemon_inhibitors_def get_hash_for_entry_type_def accumulate_ref_entry_def)
  show "daemon_inhibitors be ls' = daemon_inhibitors be ls" if "same_but_sent ls ls'" for ls ls'
  proof -
    have "l_inhibitors ((fst ls')\<lparr>l_sent := []\<rparr>) = l_inhibitors ((fst ls)\<lparr>l_sent := []\<rparr>)" using that by (simp only: same_but_sent_def)
    then show ?thesis by (simp add: daemon_inhibitors_def)
  qed
qed (simp_all add: daemon_call same_but_sent_def)

section \<open>Properties\<close>

definition no_options :: command_options where
  "no_options =
     \<lparr>do_quit = False, do_lock = False, do_unlock = False, do_cycle = False, do_activate = False, do_deactivate = False,
      do_version = False, do_poke = False, do_inhibit = False, do_query = False, do_time = False,
      inhibit_reason = None, inhibit_application = None\<rparr>"

lemmas part_defs = then_part_def when_part_def

text \<open>A bus between the client and a sample daemon.\<close>

definition sample_command_env :: client_env where
  "sample_command_env = \<lparr>ce_parses = True, ce_connects = True, ce_is_running = True, ce_version_line = []\<rparr>"

definition sample_client_env :: "client_call dbus_env" where
  "sample_client_env =
     \<lparr>env_now = 100, env_random = (\<lambda>n. 1 + int n mod 1000), env_connected = True, env_no_memory = False,
      env_session_inhibit = (\<lambda>_ _. Some 5), env_logind_inhibit = Some 9, env_iso8601 = (\<lambda>_. ''T''),
      env_sd_session_is_active = (\<lambda>_. True), msg_is_method_call = (\<lambda>_ _ _. False),
      msg_is_signal = (\<lambda>m _ _. False), msg_path = (\<lambda>_. None), msg_destination = (\<lambda>_. None), msg_sender = (\<lambda>_. Some '':1.8''),
      msg_get_2_strings = (\<lambda>m. None), msg_get_3_strings = (\<lambda>_. None), msg_get_uint32 = (\<lambda>m. None),
      msg_get_boolean = (\<lambda>_. None), msg_body = cc_args\<rparr>"

text \<open>
  C21: the client tells the truth about the daemon.  Asked for its state, a daemon in a reachable state
  makes the client print whether the manager's screensaver is active and the entry of every
  inhibitor in the listener's table, and nothing else, and exit with status 0; the daemon stays as it is.
\<close>

theorem command_query_reports:
  assumes "reachable buses (l, mon)" "ce_parses ce" "ce_connects ce" "ce_is_running ce"
  shows "\<exists>l'. command_main ce show_int (no_options\<lparr>do_query := True\<rparr>) (daemon_bus be e) (l, mon)
     = Inr (Some 0, status_report (m_active (mon_manager mon)) (daemon_inhibitors be (l, mon)), (l', mon))
     \<and> l'\<lparr>l_sent := []\<rparr> = l\<lparr>l_sent := []\<rparr>"
proof -
  have a: "l_active l = m_active (mon_manager mon)" by (rule daemon_okD(3) [OF reachable_daemon_ok [OF assms(1)]])
  obtain ls' where q: "query_part (daemon_bus be e) ([], (l, mon))
      = Inr (True, status_report (m_active (mon_manager mon)) (daemon_inhibitors be (l, mon)), ls')" "same_but_sent (l, mon) ls'"
    using daemon_service.query_report [of be e "[]" "(l, mon)"] a by auto
  then show ?thesis
    using assms(2-4) by (cases ls') (simp add: command_main_def do_command_def part_defs no_options_def same_but_sent_def)
qed

theorem command_query_reports_witness:
  "\<exists>l mon l'. reachable {sample_bus} (l, mon) \<and> \<not> m_active (mon_manager mon)
     \<and> command_main sample_command_env (\<lambda>_. []) (no_options\<lparr>do_query := True\<rparr>) (daemon_bus sample_client_env sample_manager_env) (l, mon)
       = Inr (Some 0, status_report False (daemon_inhibitors sample_client_env (l, mon)), (l', mon))"
proof -
  obtain l mon where r: "reachable {sample_bus} (l, mon)" "\<not> m_active (mon_manager mon)" using sample_started by blast
  have "ce_parses sample_command_env" "ce_connects sample_command_env" "ce_is_running sample_command_env"
    by (simp_all add: sample_command_env_def)
  then show ?thesis using r command_query_reports [OF r(1), of sample_command_env "\<lambda>_. []" sample_client_env sample_manager_env] by auto
qed

text \<open>
  The client locks the screen.  The command with the option for locking returns, prints nothing, and
  leaves the daemon with the screensaver active and locked if it was active or the devices could be grabbed.
\<close>

theorem command_lock_locks:
  assumes "reachable buses (l, mon)" "execs_parse e" "\<not> p_lock_disabled (mon_prefs mon)"
  shows "\<exists>l' mon'. do_command show_int (no_options\<lparr>do_lock := True\<rparr>) (daemon_bus be e) (l, mon) = Inr (False, [], (l', mon'))
     \<and> m_active (mon_manager mon') = (m_active (mon_manager mon) \<or> can_grab e (mon_manager mon))
     \<and> (m_active (mon_manager mon') \<longrightarrow> m_lock_active (mon_manager mon'))"
proof -
  let ?be = "client_messages be"
  obtain l' mon' where r: "gs_monitor_lock_screen ?be e (l, mon) = Inr (l', mon')"
    "m_active (mon_manager mon') = (m_active (mon_manager mon) \<or> can_grab e (mon_manager mon))"
    "if m_active (mon_manager mon') then m_lock_active (mon_manager mon') else m_lock_active (mon_manager mon') = m_lock_active (mon_manager mon)"
    using lock_screen_returns [OF reachable_daemon_ok [OF assms(1)] assms(2), of ?be] by blast
  then have "listener_dbus_handle_session_message ?be (connect_listener_signals ?be e) (method_call ''Lock'' []) (l, mon) = Inr (HANDLED, l', mon')"
    using assms(3) by (simp add: message_defs connect_listener_signals_def listener_lock_cb_def)
  then show ?thesis
    using r(2,3) by (simp add: do_command_def part_defs no_options_def send_part_def screensaver_send_message_void_def daemon_call split: if_splits)
qed

theorem command_lock_locks_witness:
  "\<exists>l mon l' mon'. reachable {sample_bus} (l, mon) \<and> \<not> m_active (mon_manager mon)
     \<and> do_command (\<lambda>_. []) (no_options\<lparr>do_lock := True\<rparr>) (daemon_bus sample_client_env sample_manager_env) (l, mon)
       = Inr (False, [], (l', mon'))
     \<and> m_active (mon_manager mon') \<and> m_lock_active (mon_manager mon')"
proof -
  obtain l mon where r: "reachable {sample_bus} (l, mon)" "\<not> p_lock_disabled (mon_prefs mon)" "\<not> m_active (mon_manager mon)"
    using sample_started by blast
  from command_lock_locks [OF r(1) sample_execs_parse r(2), of "\<lambda>_. []" sample_client_env] show ?thesis
    using r sample_can_grab by fastforce
qed

interpretation daemon_kept: kept_by_bus "daemon_bus be (Rep_sane_env e)" daemon_ok
  for be e
proof
  fix ls m assume ok: "daemon_ok ls"
  note k = message_daemon_ok(1) [OF ok sane, of "client_messages be" e m]
  show "rpost daemon_ok (cb_send (daemon_bus be (Rep_sane_env e)) m ls)"
    using k by (auto simp: daemon_bus_def Let_def rpost_def res_simps)
  show "rpost (\<lambda>(_, ls'). daemon_ok ls') (cb_call (daemon_bus be (Rep_sane_env e)) m ls)"
    using k by (auto simp: daemon_bus_def Let_def rpost_def res_simps)
qed

lemma inhibit_message:
  "listener_dbus_handle_session_message (client_messages be) sg (method_call ''Inhibit'' args) ls =
     listener_dbus_add_ref_entry (client_messages be) (sig_active_changed sg) (sig_throttle_changed sg) REF_ENTRY_TYPE_INHIBIT
       (method_call ''Inhibit'' args) ls"
  by (simp add: message_defs)

lemma inhibit_refuses_idleness:
  assumes "daemon_ok (l, mon)" "inhibit_part opts (daemon_bus be (Rep_sane_env e)) (out1, (l, mon)) = Inr (True, out, (l', mon'))"
  shows "gs_listener_is_inhibited l'"
proof -
  define m where "m = method_call ''Inhibit'' [A_String (unknown_if_none (inhibit_application opts)), A_String (unknown_if_none (inhibit_reason opts))]"
  obtain h where h: "listener_dbus_add_ref_entry (client_messages be) (listener_active_changed_cb (Rep_sane_env e))
      (listener_throttle_changed_cb (Rep_sane_env e)) REF_ENTRY_TYPE_INHIBIT m (l, mon) = Inr (h, l', mon')"
    using assms(2)
    by (auto simp: inhibit_part_def screensaver_send_message_inhibit_def daemon_call res_simps inhibit_message m_def connect_listener_signals_def)
  have "msg_get_2_strings (client_messages be) m \<noteq> None" by (simp add: m_def method_call_def)
  then show ?thesis
    using rpostD [OF mon_core.dbus_add_ref_entry_post h] assms(1)
    by (auto simp: gs_listener_is_inhibited_def listener_ref_entry_is_present_def gh.size_pos daemon_ok_alt ls_ok_def)
qed

text \<open>
  C20: an inhibitor of the client works.  When the command goes on running, whatever other options it was
  given, its request for inhibition has been served: the listener has an inhibitor and refuses
  idleness.
\<close>

theorem command_inhibit_inhibits:
  assumes "daemon_ok (l, mon)" "env_ok e"
    and "do_command show_int opts (daemon_bus be e) (l, mon) = Inr (True, out, (l', mon'))"
  shows "gs_listener_is_inhibited l' \<and> gs_listener_set_session_idle be' ac True (l', s) = Inr (False, l', s)"
proof -
  obtain s where e: "e = Rep_sane_env s" using sane_cases [OF assms(2)] by blast
  have "gs_listener_is_inhibited l'"
    using daemon_kept.blocks_after_inhibit [OF assms(3) [unfolded e] assms(1)]
      inhibit_refuses_idleness by auto
  then show ?thesis by (simp add: gs_listener_is_inhibited_def gs_listener_set_session_idle_def)
qed

theorem command_inhibit_inhibits_witness:
  "\<exists>l' mon'. do_command (\<lambda>_. []) (no_options\<lparr>do_inhibit := True\<rparr>) (daemon_bus sample_client_env sample_manager_env)
       (sample_daemon sample_active_manager) = Inr (True, [], (l', mon')) \<and> gs_listener_is_inhibited l'"
proof -
  obtain l mon where d: "sample_daemon sample_active_manager = (l, mon)" by (metis prod.exhaust)
  have ok: "daemon_ok (l, mon)"
    using sample_daemon_ok [OF sample_active_ok] d by (auto simp: sample_daemon_def sample_manager_defs)
  have "\<exists>l' mon'. do_command (\<lambda>_. []) (no_options\<lparr>do_inhibit := True\<rparr>) (daemon_bus sample_client_env sample_manager_env) (l, mon)
       = Inr (True, [], (l', mon'))"
    using d
    by (auto simp: do_command_def part_defs no_options_def inhibit_part_def screensaver_send_message_inhibit_def daemon_call
        inhibit_message sample_daemon_def connect_listener_signals_def)
      (simp add: listener_eval sample_client_env_def client_messages_def method_call_def reply_to_def)
  then obtain l' mon' where r: "do_command (\<lambda>_. []) (no_options\<lparr>do_inhibit := True\<rparr>) (daemon_bus sample_client_env sample_manager_env) (l, mon)
       = Inr (True, [], (l', mon'))" by blast
  have "gs_listener_is_inhibited l'" by (rule conjunct1 [OF command_inhibit_inhibits [OF ok sample_manager_env_ok r]])
  then show ?thesis using d r by simp
qed

text \<open>
  A service that tells that it is active and then goes away makes the client work on a reply that does
  not exist.
\<close>

lemma command_time_unchecked:
  assumes "\<not> cb_no_memory bus" "cb_call bus (method_call ''GetActive'' []) w = Inr (Some (Ret_Bool True), w1)"
    and "cb_call bus (method_call ''GetActiveTime'' []) w1 = Inr (None, w2)"
  shows "do_command show_int (no_options\<lparr>do_time := True\<rparr>) bus w = Inl Null_Deref"
  using assms by (simp add: do_command_def part_defs no_options_def time_part_def screensaver_send_message_void_def reply_bool_def)

end
