(* ===== verification/GS_Prefs_Text.thy ===== *)
theory GS_Prefs_Text
  imports Complex_Main GS_Window GS_Theme "HOL-Library.Signed_Division" "HOL-Library.Multiset"
begin

text \<open>
  \<open>src/mate-screensaver-preferences.c\<close>, the parts of the preferences application that compute texts and
  orders: the lists of dropped files, the order of the themes, and the texts of the two scales.  The
  translations are a parameter.  The state of the application is in \<open>GS_Preferences\<close>.
\<close>

section \<open>Dropped files\<close>

text \<open>\<open>g_ascii_isspace\<close>.\<close>

definition is_space :: "char \<Rightarrow> bool" where
  "is_space c = (c \<in> {CHR '' '', CHR 0x09, CHR 0x0A, CHR 0x0C, CHR 0x0D})"

text \<open>
  The text of a line from the first character that is no space, without the spaces at its end; the
  first character stays in any case.
\<close>

primrec cut_spaces :: "string \<Rightarrow> string" where
  "cut_spaces [] = []"
| "cut_spaces (c # cs) = c # rev (dropWhile is_space (rev cs))"

definition line_text :: "string \<Rightarrow> string" where
  "line_text p = cut_spaces (takeWhile (\<lambda>c. c \<noteq> CHR 0x0A \<and> c \<noteq> CHR 0x0D) p)"

text \<open>\<open>strchr\<close> for a newline, and one further.\<close>

primrec after_newline :: "string \<Rightarrow> string option" where
  "after_newline [] = None"
| "after_newline (c # cs) = (if c = CHR 0x0A then Some cs else after_newline cs)"

lemma after_newline_shorter: "after_newline p = Some r \<Longrightarrow> length r < length p"
  by (induction p) (auto split: if_splits simp: less_SucI)

function uri_loop :: "string \<Rightarrow> string list" where
  "uri_loop p =
     (let comment = (p \<noteq> [] \<and> hd p = CHR ''#'');
          p' = (if comment then p else dropWhile is_space p);
          uri = (if comment then [] else line_text p');
          files = (if uri = [] then [] else [uri]) in
      case after_newline p' of
        None \<Rightarrow> files
      | Some r \<Rightarrow> files @ uri_loop r)"
  by auto
termination
proof (relation "measure length", simp)
  fix p comment p' uri files r
  assume "comment = (p \<noteq> [] \<and> hd p = CHR ''#'')" "p' = (if comment then p else dropWhile is_space p)"
    and r: "after_newline p' = Some (r :: string)"
  then have "length p' \<le> length (p :: string)" by (simp add: length_dropWhile_le)
  then show "(r, p) \<in> measure length" using after_newline_shorter [OF r] by simp
qed

declare uri_loop.simps [simp del]

definition uri_list_parse :: "string option \<Rightarrow> string list" where
  "uri_list_parse uri_list = (case uri_list of None \<Rightarrow> [] | Some p \<Rightarrow> uri_loop p)"

section \<open>The order of the themes\<close>

definition compare_theme_names ::
  "(string \<Rightarrow> string \<Rightarrow> int) \<Rightarrow> string option \<Rightarrow> string option \<Rightarrow> string option \<Rightarrow> string option \<Rightarrow> int" where
  "compare_theme_names collate name_a name_b id_a id_b =
     (if id_a = None then 1
      else if id_b = None then -1
      else if the id_a = ''__blank-only'' then -1
      else if the id_b = ''__blank-only'' then 1
      else if the id_a = ''__random'' then -1
      else if the id_b = ''__random'' then 1
      else if the id_a = ''__separator'' then -1
      else if the id_b = ''__separator'' then 1
      else if name_a = None then 1
      else if name_b = None then -1
      else collate (the name_a) (the name_b))"

record theme_row =
  row_name :: "string option"
  row_id :: "string option"

definition compare_theme :: "(string \<Rightarrow> string \<Rightarrow> int) \<Rightarrow> theme_row \<Rightarrow> theme_row \<Rightarrow> int" where
  "compare_theme collate a b = compare_theme_names collate (row_name a) (row_name b) (row_id a) (row_id b)"

definition separator_func :: "theme_row \<Rightarrow> bool" where
  "separator_func row = (row_id row = Some ''__separator'')"

text \<open>The rows of the list before it is sorted.\<close>

definition populate_model :: "theme_env \<Rightarrow> theme_row list" where
  "populate_model te =
     [\<lparr>row_name = Some ''Blank screen'', row_id = Some ''__blank-only''\<rparr>,
      \<lparr>row_name = Some ''Random'', row_id = Some ''__random''\<rparr>,
      \<lparr>row_name = None, row_id = Some ''__separator''\<rparr>]
     @ map (\<lambda>info. \<lparr>row_name = Some (ti_name info), row_id = ti_file_id info\<rparr>) (gs_theme_manager_get_info_list te)"

section \<open>The texts of the scales\<close>

text \<open>
  The translations: numbers of hours, minutes and seconds in words, how they are joined, the number
  of characters of a text, and whether there is a translation at all.
\<close>

record time_words =
  tw_hours :: "int \<Rightarrow> string"
  tw_minutes :: "int \<Rightarrow> string"
  tw_seconds :: "int \<Rightarrow> string"
  tw_join3 :: "string \<Rightarrow> string \<Rightarrow> string \<Rightarrow> string"
  tw_join2 :: "string \<Rightarrow> string \<Rightarrow> string"
  tw_join1 :: "string \<Rightarrow> string"
  tw_utf8_strlen :: "string \<Rightarrow> int"
  tw_translated :: bool

definition time_to_string_text :: "time_words \<Rightarrow> int \<Rightarrow> string" where
  "time_to_string_text tw time =
     (let sec = to_int32 (time smod 60);
          time = time - sec;
          min = to_int32 ((time smod (60 * 60)) sdiv 60);
          time = time - min * 60;
          hour = to_int32 (time sdiv (60 * 60));
          hours = tw_hours tw hour; mins = tw_minutes tw min; secs = tw_seconds tw sec in
      if 0 < hour then
        (if 0 < sec then tw_join3 tw hours mins secs
         else if 0 < min then tw_join2 tw hours mins
         else tw_join1 tw hours)
      else if 0 < min then
        (if 0 < sec then tw_join2 tw mins secs else tw_join1 tw mins)
      else tw_join1 tw secs)"

text \<open>
  A scale with its bounds; its values are whole numbers, as it shows no digits behind the point.  The
  numbers of type \<open>gdouble\<close> are rationals.  The result: the number of spaces before and after
  the text.
\<close>

record scale =
  sc_lower :: int
  sc_upper :: int
  sc_rtl :: bool

definition trunc_rat :: "rat \<Rightarrow> int" where
  "trunc_rat x = (if 0 \<le> x then \<lfloor>x\<rfloor> else \<lceil>x\<rceil>)"

definition format_value_callback_time :: "time_words \<Rightarrow> scale \<Rightarrow> int \<Rightarrow> nat \<times> string \<times> nat" where
  "format_value_callback_time tw sc value =
     (let time_str = time_to_string_text tw (value * 60);
          lower = rat_of_int (sc_lower sc);
          range = rat_of_int (sc_upper sc) - lower;
          delta = range / 2 - (rat_of_int value - lower);
          big_time_str = time_to_string_text tw 7199;
          pad_size = trunc_rat (rat_of_int (tw_utf8_strlen tw big_time_str) * (\<bar>delta\<bar> / range)
                                - rat_of_int (tw_utf8_strlen tw time_str)) in
      if 0 < pad_size then
        (let delta = (if sc_rtl sc \<and> \<not> tw_translated tw then delta * - 1 else delta) in
         if delta < 0 then (nat pad_size, time_str, 0) else (0, time_str, nat pad_size))
      else (0, time_str, 0))"

text \<open>The words without a translation.\<close>

definition ngettext_printf :: "string \<Rightarrow> string \<Rightarrow> int \<Rightarrow> string" where
  "ngettext_printf singular plural n =
     (if n < 0 then ''-'' else []) @ dec_digits (nat \<bar>n\<bar>) @ '' '' @ (if n = 1 then singular else plural)"

definition english :: time_words where
  "english =
     \<lparr>tw_hours = ngettext_printf ''hour'' ''hours'', tw_minutes = ngettext_printf ''minute'' ''minutes'',
      tw_seconds = ngettext_printf ''second'' ''seconds'', tw_join3 = (\<lambda>a b c. a @ '' '' @ b @ '' '' @ c),
      tw_join2 = (\<lambda>a b. a @ '' '' @ b), tw_join1 = (\<lambda>a. a), tw_utf8_strlen = (\<lambda>s. int (length s)),
      tw_translated = False\<rparr>"

definition activate_delay_scale :: scale where
  "activate_delay_scale = \<lparr>sc_lower = 1, sc_upper = 120, sc_rtl = False\<rparr>"

definition lock_delay_scale :: scale where
  "lock_delay_scale = \<lparr>sc_lower = 0, sc_upper = 120, sc_rtl = False\<rparr>"

section \<open>Lemmas\<close>

text \<open>
  What a list of files means: its lines without the comments, each up to a carriage return, without the
  spaces around it, unless nothing is left.
\<close>

definition blank :: "string \<Rightarrow> bool" where
  "blank l = list_all is_space l"

definition comment :: "string \<Rightarrow> bool" where
  "comment l = (l \<noteq> [] \<and> hd l = CHR ''#'')"

definition line_files :: "string \<Rightarrow> string list" where
  "line_files l =
     (let uri = line_text (dropWhile is_space l) in if comment l \<or> uri = [] then [] else [uri])"

primrec join_lines :: "string \<Rightarrow> string list \<Rightarrow> string" where
  "join_lines l [] = l"
| "join_lines l (m # ms) = l @ CHR 0x0A # join_lines m ms"

primrec no_comment_after_blank :: "string \<Rightarrow> string list \<Rightarrow> bool" where
  "no_comment_after_blank l [] = True"
| "no_comment_after_blank l (m # ms) = (\<not> (blank l \<and> comment m) \<and> no_comment_after_blank m ms)"

lemma newline_space [simp]: "is_space (CHR 0x0A)"
  by (simp add: is_space_def)

lemma after_newline_append [simp]: "CHR 0x0A \<notin> set l \<Longrightarrow> after_newline (l @ CHR 0x0A # r) = Some r"
  by (induction l) auto

lemma after_newline_None [simp]: "CHR 0x0A \<notin> set l \<Longrightarrow> after_newline l = None"
  by (induction l) auto

lemma takeWhile_newline:
  "CHR 0x0A \<notin> set l \<Longrightarrow> takeWhile (\<lambda>c. c \<noteq> CHR 0x0A \<and> c \<noteq> CHR 0x0D) (l @ CHR 0x0A # r)
     = takeWhile (\<lambda>c. c \<noteq> CHR 0x0A \<and> c \<noteq> CHR 0x0D) l"
  by (induction l) auto

lemma line_text_append: "CHR 0x0A \<notin> set l \<Longrightarrow> line_text (l @ CHR 0x0A # r) = line_text l"
  by (simp add: line_text_def takeWhile_newline)

lemma dropWhile_blank: "blank l \<Longrightarrow> dropWhile is_space (l @ r) = dropWhile is_space r"
  by (induction l) (auto simp: blank_def)

lemma dropWhile_text: "\<not> blank l \<Longrightarrow> dropWhile is_space (l @ r) = dropWhile is_space l @ r"
  by (induction l) (auto simp: blank_def)

lemma set_dropWhile: "c \<notin> set l \<Longrightarrow> c \<notin> set (dropWhile P l)"
  by (meson set_dropWhileD)

lemma blank_files: "blank l \<Longrightarrow> line_files l = []"
  using dropWhile_blank [of l "[]"] by (simp add: line_files_def line_text_def Let_def del: dropWhile_eq_Nil_conv)

lemma uri_loop_comment:
  "comment p \<Longrightarrow> uri_loop p = (case after_newline p of None \<Rightarrow> [] | Some r \<Rightarrow> uri_loop r)"
  by (simp add: uri_loop.simps [of p] comment_def Let_def split: option.split)

lemma uri_loop_text:
  "\<not> comment p \<Longrightarrow> uri_loop p =
     (let p' = dropWhile is_space p; files = (if line_text p' = [] then [] else [line_text p']) in
      case after_newline p' of None \<Rightarrow> files | Some r \<Rightarrow> files @ uri_loop r)"
  unfolding uri_loop.simps [of p] comment_def Let_def by (simp only: if_False)

lemma comment_append: "l \<noteq> [] \<Longrightarrow> comment (l @ r) = comment l"
  by (simp add: comment_def)

lemma uri_loop_line:
  assumes "CHR 0x0A \<notin> set l" "comment l \<or> \<not> blank l"
  shows "uri_loop (l @ CHR 0x0A # r) = line_files l @ uri_loop r"
proof (cases "comment l")
  case True
  then have "comment (l @ CHR 0x0A # r)" by (simp add: comment_def)
  from uri_loop_comment [OF this] show ?thesis using True assms(1) by (simp add: line_files_def)
next
  case False
  then have b: "\<not> blank l" using assms(2) by simp
  then have "l \<noteq> []" by (auto simp: blank_def)
  then have "\<not> comment (l @ CHR 0x0A # r)" using False by (simp add: comment_append)
  from uri_loop_text [OF this] show ?thesis
    using False assms(1) set_dropWhile [OF assms(1)] by (simp add: dropWhile_text [OF b] line_text_append line_files_def Let_def)
qed

lemma uri_loop_last: "CHR 0x0A \<notin> set l \<Longrightarrow> uri_loop l = line_files l"
  using set_dropWhile [of "CHR 0x0A" l is_space]
  by (cases "comment l") (simp_all add: uri_loop_comment uri_loop_text line_files_def Let_def)

lemma uri_loop_blank:
  assumes "blank l" "\<not> comment r"
  shows "uri_loop (l @ CHR 0x0A # r) = uri_loop r"
proof -
  have "\<not> comment (l @ CHR 0x0A # r)" using assms(1) by (cases l) (auto simp: comment_def blank_def is_space_def)
  from uri_loop_text [OF this] show ?thesis by (simp add: uri_loop_text [OF assms(2)] dropWhile_blank [OF assms(1)])
qed

lemma comment_join: "comment (join_lines m ms) = comment m"
  by (cases ms; cases m) (simp_all add: comment_def)

lemma uri_loop_lines:
  "no_comment_after_blank l ls \<Longrightarrow> \<forall>m \<in> set (l # ls). CHR 0x0A \<notin> set m \<Longrightarrow>
     uri_loop (join_lines l ls) = concat (map line_files (l # ls))"
proof (induction ls arbitrary: l)
  case Nil
  then show ?case by (simp add: uri_loop_last)
next
  case (Cons m ms)
  note IH = Cons.IH [of m]
  show ?case
  proof (cases "blank l \<and> \<not> comment l")
    case True
    then show ?thesis using Cons.prems IH uri_loop_blank [of l "join_lines m ms"] by (simp add: comment_join blank_files)
  next
    case False
    then show ?thesis using Cons.prems IH uri_loop_line [of l "join_lines m ms"] by auto
  qed
qed

text \<open>Reading an English text back: numbers followed by units.\<close>

fun space_split :: "string \<Rightarrow> string list" where
  "space_split [] = [[]]"
| "space_split (c # cs) =
     (if c = CHR '' '' then [] # space_split cs
      else (case space_split cs of [] \<Rightarrow> [[c]] | w # ws \<Rightarrow> (c # w) # ws))"

definition unit_seconds :: "string \<Rightarrow> nat" where
  "unit_seconds u = (if u \<in> {''hour'', ''hours''} then 3600 else if u \<in> {''minute'', ''minutes''} then 60 else 1)"

fun words_seconds :: "string list \<Rightarrow> nat" where
  "words_seconds (n # u # ws) = digits_value n * unit_seconds u + words_seconds ws"
| "words_seconds ws = 0"

definition text_seconds :: "string \<Rightarrow> nat" where
  "text_seconds t = words_seconds (space_split t)"

lemma space_split_word: "CHR '' '' \<notin> set w \<Longrightarrow> space_split w = [w]"
  by (induction w) auto

lemma space_split_append: "CHR '' '' \<notin> set w \<Longrightarrow> space_split (w @ CHR '' '' # r) = w # space_split r"
  by (induction w) auto

lemma dec_digits_no_space: "CHR '' '' \<notin> set (dec_digits n)"
  using dec_digits_digits [of n] by (auto simp: c_isdigit_def)

lemma c_div_simps: "0 \<le> a \<Longrightarrow> 0 < b \<Longrightarrow> a smod b = a mod b" "0 \<le> a \<Longrightarrow> 0 < b \<Longrightarrow> a sdiv b = a div b" for a b :: int
  by (auto simp: signed_modulo_int_def signed_divide_int_def sgn_if minus_div_mult_eq_mod mult.commute)

text \<open>The three numbers of a time.\<close>

lemma time_parts:
  fixes t :: int
  assumes "0 \<le> t" "t < 3600 * n"
  obtains h m s where "t = 3600 * h + 60 * m + s" "0 \<le> s" "s < 60" "0 \<le> m" "m < 60" "0 \<le> h" "h < n"
proof
  have e: "t div 3600 = t div 60 div 60" by (simp add: zdiv_zmult2_eq [symmetric])
  show "t = 3600 * (t div 3600) + 60 * (t div 60 mod 60) + t mod 60" unfolding e by presburger
  show "t div 3600 < n" using assms(2) by (simp add: div_less_iff_less_mult mult.commute)
qed (use assms(1) in simp_all)

lemma time_numbers:
  fixes h m s :: int
  assumes "0 \<le> s" "s < 60" "0 \<le> m" "m < 60" "0 \<le> h"
  shows "(3600 * h + 60 * m + s) smod 60 = s" "(3600 * h + 60 * m + s - s) smod (60 * 60) sdiv 60 = m"
    "(3600 * h + 60 * m + s - s - m * 60) sdiv (60 * 60) = h"
proof -
  have "3600 * h + 60 * m + s = s + 60 * (60 * h + m)" by simp
  then have "(3600 * h + 60 * m + s) mod 60 = s" using assms by (simp only: mod_mult_self2 mod_pos_pos_trivial)
  then show "(3600 * h + 60 * m + s) smod 60 = s" using assms c_div_simps(1) [of "3600 * h + 60 * m + s" 60] by simp
  have "3600 * h + 60 * m + s - s = 60 * m + 3600 * h" by simp
  moreover have "(60 * m + 3600 * h) mod 3600 = 60 * m" using assms by simp
  ultimately have "(3600 * h + 60 * m + s - s) smod (60 * 60) = 60 * m"
    using assms c_div_simps(1) [of "60 * m + 3600 * h" 3600] by (simp add: add.commute)
  then show "(3600 * h + 60 * m + s - s) smod (60 * 60) sdiv 60 = m" using assms c_div_simps(2) [of "60 * m" 60] by simp
  have "3600 * h + 60 * m + s - s - m * 60 = 3600 * h" by simp
  then show "(3600 * h + 60 * m + s - s - m * 60) sdiv (60 * 60) = h" using assms c_div_simps(2) [of "3600 * h" 3600] by simp
qed

lemma time_text_eq:
  assumes "0 \<le> s" "s < 60" "0 \<le> m" "m < 60" "0 \<le> h" "h < 2 ^ 31"
  shows "time_to_string_text tw (3600 * h + 60 * m + s) =
     (if 0 < h then
        (if 0 < s then tw_join3 tw (tw_hours tw h) (tw_minutes tw m) (tw_seconds tw s)
         else if 0 < m then tw_join2 tw (tw_hours tw h) (tw_minutes tw m)
         else tw_join1 tw (tw_hours tw h))
      else if 0 < m then
        (if 0 < s then tw_join2 tw (tw_minutes tw m) (tw_seconds tw s) else tw_join1 tw (tw_minutes tw m))
      else tw_join1 tw (tw_seconds tw s))"
proof -
  have i: "to_int32 s = s" "to_int32 m = m" "to_int32 h = h" using assms by simp_all
  show ?thesis unfolding time_to_string_text_def Let_def time_numbers [OF assms(1-5)] i ..
qed

lemma number_words:
  "0 \<le> n \<Longrightarrow> ngettext_printf singular plural n = dec_digits (nat n) @ CHR '' '' # (if n = 1 then singular else plural)"
  by (simp add: ngettext_printf_def)

lemma space_split_number:
  assumes "0 \<le> n" "CHR '' '' \<notin> set singular" "CHR '' '' \<notin> set plural"
  shows "space_split (ngettext_printf singular plural n @ CHR '' '' # r) =
       dec_digits (nat n) # (if n = 1 then singular else plural) # space_split r"
    "space_split (ngettext_printf singular plural n) = [dec_digits (nat n), if n = 1 then singular else plural]"
  using assms by (simp_all add: number_words space_split_append space_split_word dec_digits_no_space)

lemma english_parts:
  assumes "0 \<le> h" "0 \<le> m" "0 \<le> s"
  shows "int (text_seconds (tw_join3 english (tw_hours english h) (tw_minutes english m) (tw_seconds english s))) = 3600 * h + 60 * m + s"
    "int (text_seconds (tw_join2 english (tw_hours english h) (tw_minutes english m))) = 3600 * h + 60 * m"
    "int (text_seconds (tw_join1 english (tw_hours english h))) = 3600 * h"
    "int (text_seconds (tw_join2 english (tw_minutes english m) (tw_seconds english s))) = 60 * m + s"
    "int (text_seconds (tw_join1 english (tw_minutes english m))) = 60 * m"
    "int (text_seconds (tw_join1 english (tw_seconds english s))) = s"
  using assms
  by (simp_all only: text_seconds_def english_def time_words.simps append.assoc append_Cons append_Nil)
    (simp_all add: space_split_number unit_seconds_def digits_value_dec)

text \<open>The order puts the special rows first.\<close>

definition special_ids :: "string list" where
  "special_ids = [''__blank-only'', ''__random'', ''__separator'']"

lemma compare_special:
  assumes "i < 3" "row_id b = Some (special_ids ! i)" "row_id a \<notin> Some ` set (take (Suc i) special_ids)"
  shows "compare_theme collate a b = 1"
  using assms
  by (auto simp: less_Suc_eq numeral_3_eq_3 special_ids_def compare_theme_def compare_theme_names_def)

lemma sorted_head:
  assumes "sorted_wrt (\<lambda>a b. compare_theme collate a b \<le> 0) xs" "mset xs = mset (b # rest)"
    and "i < 3" "row_id b = Some (special_ids ! i)" "\<forall>a \<in> set rest. row_id a \<notin> Some ` set (take (Suc i) special_ids)"
  shows "\<exists>ys. xs = b # ys \<and> mset ys = mset rest \<and> sorted_wrt (\<lambda>a b. compare_theme collate a b \<le> 0) ys"
proof -
  obtain x ys where xs: "xs = x # ys" using assms(2) by (cases xs) auto
  have "x = b"
  proof (rule ccontr)
    assume n: "x \<noteq> b"
    then have "x \<in> set rest" using assms(2) xs by (metis list.set_intros(1) set_ConsD set_mset_mset)
    then have c: "compare_theme collate x b = 1" using compare_special [OF assms(3,4)] assms(5) by blast
    have "b \<in> set ys" using n xs assms(2) by (metis list.set_intros(1) set_ConsD set_mset_mset)
    then show False using assms(1) xs c by auto
  qed
  then show ?thesis using xs assms(1,2) by simp
qed

text \<open>The number of characters with the spaces around.\<close>

definition shown_length :: "nat \<times> string \<times> nat \<Rightarrow> int" where
  "shown_length r = (case r of (l, t, n) \<Rightarrow> int l + int (length t) + int n)"

lemmas text_eval = english_def ngettext_printf_def dec_digits.simps char_of_def bit_0 Let_def

lemma big_time: "length (time_to_string_text english 7199) = 28"
proof -
  have "time_to_string_text english (3600 * 1 + 60 * 59 + 59) = ''1 hour 59 minutes 59 seconds''"
    by (subst time_text_eq) (simp_all add: text_eval)
  then show ?thesis by simp
qed

lemma scale_text:
  assumes "sc_lower sc < sc_upper sc" "sc_lower sc \<le> v" "v \<le> sc_upper sc"
  shows "\<exists>l r. format_value_callback_time english sc v = (l, time_to_string_text english (v * 60), r) \<and> (l = 0 \<or> r = 0)
     \<and> shown_length (l, time_to_string_text english (v * 60), r) =
         max (int (length (time_to_string_text english (v * 60))))
             \<lfloor>28 * (\<bar>rat_of_int (sc_upper sc - sc_lower sc) / 2 - rat_of_int (v - sc_lower sc)\<bar> / rat_of_int (sc_upper sc - sc_lower sc))\<rfloor>"
proof -
  let ?t = "time_to_string_text english (v * 60)"
  let ?x = "28 * (\<bar>rat_of_int (sc_upper sc - sc_lower sc) / 2 - rat_of_int (v - sc_lower sc)\<bar> / rat_of_int (sc_upper sc - sc_lower sc))"
  have tr: "0 < trunc_rat (?x - rat_of_int (int (length ?t))) \<longleftrightarrow> int (length ?t) < \<lfloor>?x\<rfloor>"
    "0 < trunc_rat (?x - rat_of_int (int (length ?t))) \<Longrightarrow> trunc_rat (?x - rat_of_int (int (length ?t))) = \<lfloor>?x\<rfloor> - int (length ?t)"
    by (auto simp: trunc_rat_def split: if_splits) linarith+
  show ?thesis
    using tr big_time
    by (auto simp: format_value_callback_time_def shown_length_def english_def Let_def max_def)
qed

section \<open>Properties\<close>

text \<open>
  The text of a time tells the time.  Read back, the untranslated text of a number of seconds gives
  that number, although parts that are zero may be left out; so different times have different texts.
\<close>

theorem time_text_roundtrip:
  assumes "0 \<le> t" "t < 3600 * 2 ^ 31"
  shows "int (text_seconds (time_to_string_text english t)) = t"
proof -
  obtain h m s where p: "t = 3600 * h + 60 * m + s" "0 \<le> s" "s < 60" "0 \<le> m" "m < 60" "0 \<le> h" "h < 2 ^ 31"
    using time_parts [OF assms] .
  show ?thesis
    unfolding p(1) time_text_eq [OF p(2-7)] using english_parts [OF p(6,4,2)] p(2-6) by auto
qed

theorem time_text_roundtrip_witness: "int (text_seconds (time_to_string_text english 3601)) = 3601"
  by (rule time_text_roundtrip) simp_all

text \<open>
  A list of dropped files is read line by line.  Unless a comment follows an empty line, the files are
  the lines that are no comments, each without the spaces around it and up to a carriage return; empty
  lines are skipped.
\<close>

theorem uri_list_is_lines:
  assumes "no_comment_after_blank l ls" "\<forall>m \<in> set (l # ls). CHR 0x0A \<notin> set m"
  shows "uri_list_parse (Some (join_lines l ls)) = concat (map line_files (l # ls))"
  unfolding uri_list_parse_def option.case by (rule uri_loop_lines [OF assms])

theorem uri_list_is_lines_witness:
  "uri_list_parse (Some (join_lines ''#c'' ['' file:///a'' @ [CHR 0x0D], [], ''file:///b''])) = [''file:///a'', ''file:///b'']"
proof -
  have "no_comment_after_blank ''#c'' ['' file:///a'' @ [CHR 0x0D], [], ''file:///b'']" by (simp add: blank_def comment_def is_space_def)
  from uri_list_is_lines [OF this] show ?thesis
    by (simp add: line_files_def line_text_def comment_def is_space_def)
qed

text \<open>A comment behind an empty line is taken for a file.\<close>

lemma comment_after_blank_is_file: "uri_list_parse (Some (CHR 0x0A # ''#x'')) = [''#x'']"
  by (simp add: uri_list_parse_def uri_loop.simps line_text_def is_space_def)

text \<open>
  The special rows come first.  However the themes are called, a list of the rows that is sorted by
  the order of the application starts with the blank screen, the random choice and the separator.
\<close>

theorem special_rows_first:
  assumes "mset xs = mset (populate_model te)" "sorted_wrt (\<lambda>a b. compare_theme collate a b \<le> 0) xs"
    and "\<forall>info \<in> set (gs_theme_manager_get_info_list te). ti_file_id info \<notin> Some ` set special_ids"
  shows "\<exists>ys. map row_id xs = map Some special_ids @ ys"
proof -
  let ?t = "map (\<lambda>info. \<lparr>row_name = Some (ti_name info), row_id = ti_file_id info\<rparr>) (gs_theme_manager_get_info_list te)"
  let ?b = "\<lparr>row_name = Some ''Blank screen'', row_id = Some ''__blank-only''\<rparr>"
  let ?r = "\<lparr>row_name = Some ''Random'', row_id = Some ''__random''\<rparr>"
  let ?s = "\<lparr>row_name = None, row_id = Some ''__separator''\<rparr>"
  have t: "\<forall>a \<in> set ?t. row_id a \<notin> Some ` set (take (Suc i) special_ids)" for i
    using assms(3) set_take_subset [of "Suc i" special_ids] by auto
  obtain xs1 where 1: "xs = ?b # xs1" "mset xs1 = mset (?r # ?s # ?t)" "sorted_wrt (\<lambda>a b. compare_theme collate a b \<le> 0) xs1"
    using sorted_head [OF assms(2), of ?b "?r # ?s # ?t" 0] assms(1) t [of 0] by (auto simp: populate_model_def special_ids_def)
  obtain xs2 where 2: "xs1 = ?r # xs2" "mset xs2 = mset (?s # ?t)" "sorted_wrt (\<lambda>a b. compare_theme collate a b \<le> 0) xs2"
    using sorted_head [OF 1(3,2), of 1] t [of 1] by (auto simp: special_ids_def)
  obtain xs3 where 3: "xs2 = ?s # xs3"
    using sorted_head [OF 2(3,2), of 2] t [of 2] by (auto simp: special_ids_def)
  show ?thesis using 1(1) 2(1) 3 by (simp add: special_ids_def)
qed

text \<open>
  The text of a scale is the text of its value, with spaces at one side only; with them it is at
  least as long as the share of the longest text that belongs to the distance from the middle, and no
  longer than it needs to be.
\<close>

theorem scale_text_length:
  assumes "sc_lower sc < sc_upper sc" "sc_lower sc \<le> v" "v \<le> sc_upper sc"
  shows "\<exists>l r. format_value_callback_time english sc v = (l, time_to_string_text english (v * 60), r) \<and> (l = 0 \<or> r = 0)
     \<and> shown_length (l, time_to_string_text english (v * 60), r) =
         max (int (length (time_to_string_text english (v * 60))))
             \<lfloor>28 * (\<bar>rat_of_int (sc_upper sc - sc_lower sc) / 2 - rat_of_int (v - sc_lower sc)\<bar> / rat_of_int (sc_upper sc - sc_lower sc))\<rfloor>"
  by (rule scale_text [OF assms])

theorem scale_text_length_witness:
  "\<exists>l r. format_value_callback_time english lock_delay_scale 60 = (l, time_to_string_text english 3600, r) \<and> (l = 0 \<or> r = 0)"
  using scale_text_length [of lock_delay_scale 60] by (auto simp: lock_delay_scale_def)

text \<open>
  At its bounds the text of a scale is meant to be the longest, but the share of the distance is never
  more than one half.
\<close>

lemma scale_bounds_not_longest:
  "shown_length (format_value_callback_time english activate_delay_scale 1) = 14"
  "shown_length (format_value_callback_time english activate_delay_scale 120) = 14"
  "shown_length (format_value_callback_time english activate_delay_scale 119) = 17"
proof -
  have "time_to_string_text english (3600 * 0 + 60 * 1 + 0) = ''1 minute''" by (subst time_text_eq) (simp_all add: text_eval)
  moreover have "time_to_string_text english (3600 * 2 + 60 * 0 + 0) = ''2 hours''" by (subst time_text_eq) (simp_all add: text_eval)
  moreover have "time_to_string_text english (3600 * 1 + 60 * 59 + 0) = ''1 hour 59 minutes''"
    by (subst time_text_eq) (simp_all add: text_eval)
  ultimately show "shown_length (format_value_callback_time english activate_delay_scale 1) = 14"
    "shown_length (format_value_callback_time english activate_delay_scale 120) = 14"
    "shown_length (format_value_callback_time english activate_delay_scale 119) = 17"
    using scale_text [of activate_delay_scale 1] scale_text [of activate_delay_scale 120] scale_text [of activate_delay_scale 119]
    by (auto simp: activate_delay_scale_def)
qed

end
