(* ===== verification/GS_Preferences.thy ===== *)
theory GS_Preferences
  imports GS_Prefs GS_Prefs_Text
begin

text \<open>
  \<open>src/mate-screensaver-preferences.c\<close>: the preferences application.  It shows the settings, follows their
  changes, and writes what the user chooses.  GTK's widgets are fields that hold what the code reads
  and sets; GSettings signals a change of a key by a later step of the main loop.  The texts and the
  order of the list are in \<open>GS_Prefs_Text\<close>, jobs in \<open>GS_Job\<close>, themes in \<open>GS_Theme\<close>.
\<close>

section \<open>State\<close>

text \<open>The keys the application reads or writes, in their three schemas, and which may be written.\<close>

record pref_store =
  st_lock :: bool
  st_enabled :: bool
  st_lock_delay :: int
  st_mode :: gs_saver_mode
  st_themes :: "string list"
  st_picture :: string
  st_idle_delay :: int
  st_lock_disabled :: bool
  st_writable :: "string \<Rightarrow> bool"

definition KEY_PICTURE :: string where "KEY_PICTURE = ''picture-filename''"

text \<open>
  The application: the settings and the keys whose change is still to be signalled; the widgets, with
  the flags that say whether a handler is connected to them yet; the preview.
\<close>

record capplet =
  cp_store :: pref_store
  cp_changed :: "string list"
  cp_lock_active :: bool
  cp_lock_sensitive :: bool
  cp_lock_connected :: bool
  cp_enable_active :: bool
  cp_enable_sensitive :: bool
  cp_enable_connected :: bool
  cp_activate_value :: int
  cp_activate_sensitive :: bool
  cp_activate_connected :: bool
  cp_lock_value :: int
  cp_lock_value_sensitive :: bool
  cp_lock_value_connected :: bool
  cp_rows :: "theme_row list"
  cp_selected :: "nat option"
  cp_tree_sensitive :: bool
  cp_tree_ready :: bool
  cp_job :: gs_job
  cp_label :: "string option"
  cp_picture :: string
  cp_gpm_shown :: bool
  cp_root_warning :: bool
  cp_dialog_shown :: bool
  cp_fullscreen_shown :: bool
  cp_installing :: "string list list"
  cp_quit :: bool

text \<open>
  The surroundings: themes, processes, random numbers below a bound, the order of words, which rows GTK
  lets be selected, the two preview areas, the real user id, and the power manager's application.
\<close>

record capplet_env =
  ge_themes :: theme_env
  ge_procs :: proc_env
  ge_random :: "nat \<Rightarrow> nat"
  ge_collate :: "string \<Rightarrow> string \<Rightarrow> int"
  ge_selectable :: "theme_row \<Rightarrow> bool"
  ge_preview_area :: nat
  ge_fullscreen_area :: nat
  ge_ruid :: nat
  ge_have_gpm :: bool

section \<open>Settings\<close>

text \<open>A key that cannot be written stays as it is.\<close>

definition settings_set :: "string \<Rightarrow> (pref_store \<Rightarrow> pref_store) \<Rightarrow> capplet \<Rightarrow> capplet" where
  "settings_set key f s =
     (if st_writable (cp_store s) key then s\<lparr>cp_store := f (cp_store s), cp_changed := cp_changed s @ [key]\<rparr> else s)"

definition config_get_activate_delay :: "pref_store \<Rightarrow> int \<times> bool" where
  "config_get_activate_delay st =
     (if st_idle_delay st < 1 then 1 else st_idle_delay st, st_writable st KEY_IDLE_DELAY)"

definition config_set_activate_delay :: "int \<Rightarrow> capplet \<Rightarrow> capplet" where
  "config_set_activate_delay timeout = settings_set KEY_IDLE_DELAY (\<lambda>st. st\<lparr>st_idle_delay := timeout\<rparr>)"

definition config_get_lock_delay :: "pref_store \<Rightarrow> int \<times> bool" where
  "config_get_lock_delay st =
     (if st_lock_delay st < 1 then 0 else st_lock_delay st, st_writable st KEY_LOCK_DELAY)"

definition config_set_lock_delay :: "int \<Rightarrow> capplet \<Rightarrow> capplet" where
  "config_set_lock_delay timeout = settings_set KEY_LOCK_DELAY (\<lambda>st. st\<lparr>st_lock_delay := timeout\<rparr>)"

definition config_get_mode :: "pref_store \<Rightarrow> gs_saver_mode \<times> bool" where
  "config_get_mode st = (st_mode st, st_writable st KEY_MODE)"

definition config_set_mode :: "gs_saver_mode \<Rightarrow> capplet \<Rightarrow> capplet" where
  "config_set_mode mode = settings_set KEY_MODE (\<lambda>st. st\<lparr>st_mode := mode\<rparr>)"

definition config_get_theme :: "pref_store \<Rightarrow> string option \<times> bool" where
  "config_get_theme st =
     ((case fst (config_get_mode st) of
         GS_MODE_BLANK_ONLY \<Rightarrow> Some ''__blank-only''
       | GS_MODE_RANDOM \<Rightarrow> Some ''__random''
       | GS_MODE_SINGLE \<Rightarrow> (case st_themes st of [] \<Rightarrow> None | t # _ \<Rightarrow> Some t)),
      st_writable st KEY_THEMES \<and> st_writable st KEY_MODE)"

text \<open>An array of strings ends at its first NULL.\<close>

definition get_all_theme_ids :: "theme_env \<Rightarrow> string list" where
  "get_all_theme_ids te =
     map the (takeWhile (\<lambda>i. i \<noteq> None) (map ti_file_id (gs_theme_manager_get_info_list te)))"

definition config_set_theme :: "theme_env \<Rightarrow> string \<Rightarrow> capplet \<Rightarrow> capplet" where
  "config_set_theme te theme_id s =
     (let (mode, strv) =
        (if theme_id = ''__blank-only'' then (GS_MODE_BLANK_ONLY, [])
         else if theme_id = ''__random'' then (GS_MODE_RANDOM, get_all_theme_ids te)
         else (GS_MODE_SINGLE, if theme_id = [] then [] else [theme_id])) in
      settings_set KEY_THEMES (\<lambda>st. st\<lparr>st_themes := strv\<rparr>) (config_set_mode mode s))"

text \<open>The flag tells of another key than the value.\<close>

definition config_get_enabled :: "pref_store \<Rightarrow> bool \<times> bool" where
  "config_get_enabled st = (st_enabled st, st_writable st KEY_LOCK_ENABLED)"

definition config_set_enabled :: "bool \<Rightarrow> capplet \<Rightarrow> capplet" where
  "config_set_enabled enabled = settings_set KEY_IDLE_ACTIVATION_ENABLED (\<lambda>st. st\<lparr>st_enabled := enabled\<rparr>)"

definition config_get_lock :: "pref_store \<Rightarrow> bool \<times> bool" where
  "config_get_lock st = (st_lock st, st_writable st KEY_LOCK_ENABLED)"

definition config_get_lock_disabled :: "pref_store \<Rightarrow> bool" where
  "config_get_lock_disabled st = st_lock_disabled st"

definition config_set_lock :: "bool \<Rightarrow> capplet \<Rightarrow> capplet" where
  "config_set_lock lock = settings_set KEY_LOCK_ENABLED (\<lambda>st. st\<lparr>st_lock := lock\<rparr>)"

section \<open>Check boxes and scales\<close>

definition lock_checkbox_toggled :: "capplet \<Rightarrow> capplet" where
  "lock_checkbox_toggled s = config_set_lock (cp_lock_active s) s"

definition enabled_checkbox_toggled :: "capplet \<Rightarrow> capplet" where
  "enabled_checkbox_toggled s = config_set_enabled (cp_enable_active s) s"

text \<open>\<open>gtk_toggle_button_set_active\<close> emits ``toggled'' when the state changes.\<close>

definition lock_set_active :: "bool \<Rightarrow> capplet \<Rightarrow> capplet" where
  "lock_set_active active s =
     (if cp_lock_active s = active then s
      else (let s = s\<lparr>cp_lock_active := active\<rparr> in if cp_lock_connected s then lock_checkbox_toggled s else s))"

definition enable_set_active :: "bool \<Rightarrow> capplet \<Rightarrow> capplet" where
  "enable_set_active active s =
     (if cp_enable_active s = active then s
      else (let s = s\<lparr>cp_enable_active := active\<rparr> in if cp_enable_connected s then enabled_checkbox_toggled s else s))"

definition ui_disable_lock :: "bool \<Rightarrow> capplet \<Rightarrow> capplet" where
  "ui_disable_lock disable s =
     (let s = s\<lparr>cp_lock_sensitive := \<not> disable\<rparr> in if disable then lock_set_active False s else s)"

definition ui_set_lock :: "bool \<Rightarrow> capplet \<Rightarrow> capplet" where
  "ui_set_lock enabled s =
     (let s = lock_set_active enabled s in ui_disable_lock (config_get_lock_disabled (cp_store s)) s)"

definition ui_set_enabled :: "bool \<Rightarrow> capplet \<Rightarrow> capplet" where
  "ui_set_enabled enabled s =
     (let s = enable_set_active enabled s;
          s = (if snd (config_get_lock (cp_store s)) then s\<lparr>cp_lock_sensitive := enabled\<rparr> else s) in
      ui_disable_lock (config_get_lock_disabled (cp_store s)) s)"

definition activate_delay_value_changed_cb :: "capplet \<Rightarrow> capplet" where
  "activate_delay_value_changed_cb s = config_set_activate_delay (to_int32 (cp_activate_value s)) s"

definition lock_delay_value_changed_cb :: "capplet \<Rightarrow> capplet" where
  "lock_delay_value_changed_cb s = config_set_lock_delay (to_int32 (cp_lock_value s)) s"

text \<open>\<open>gtk_range_set_value\<close> keeps to the bounds and emits ``value-changed'' when the value changes.\<close>

definition clamp :: "scale \<Rightarrow> int \<Rightarrow> int" where
  "clamp sc v = max (sc_lower sc) (min (sc_upper sc) v)"

definition ui_set_activate_delay :: "int \<Rightarrow> capplet \<Rightarrow> capplet" where
  "ui_set_activate_delay value s =
     (let v = clamp activate_delay_scale value in
      if cp_activate_value s = v then s
      else (let s = s\<lparr>cp_activate_value := v\<rparr> in if cp_activate_connected s then activate_delay_value_changed_cb s else s))"

definition ui_set_lock_delay :: "int \<Rightarrow> capplet \<Rightarrow> capplet" where
  "ui_set_lock_delay value s =
     (let v = clamp lock_delay_scale value in
      if cp_lock_value s = v then s
      else (let s = s\<lparr>cp_lock_value := v\<rparr> in if cp_lock_value_connected s then lock_delay_value_changed_cb s else s))"

section \<open>The preview\<close>

definition job_set_theme :: "capplet_env \<Rightarrow> string option \<Rightarrow> capplet \<Rightarrow> capplet res" where
  "job_set_theme ge theme s =
     rbind (case (case theme of None \<Rightarrow> None | Some t \<Rightarrow> gs_theme_manager_lookup_theme_info (ge_themes ge) t) of
              None \<Rightarrow> ret None
            | Some info \<Rightarrow> gs_theme_info_get_exec (ge_themes ge) info) (\<lambda>command.
     ret (s\<lparr>cp_job := gs_job_set_command command (cp_job s)\<rparr>))"

definition job_start :: "capplet_env \<Rightarrow> capplet \<Rightarrow> capplet" where
  "job_start ge s = s\<lparr>cp_job := snd (gs_job_start (ge_procs ge) (cp_job s))\<rparr>"

text \<open>\<open>g_random_int_range\<close> gives 0 for an empty range.\<close>

definition preview_set_theme :: "capplet_env \<Rightarrow> string \<Rightarrow> string option \<Rightarrow> capplet \<Rightarrow> capplet res" where
  "preview_set_theme ge theme name s =
     rbind (gs_job_stop (ge_procs ge) (cp_job s)) (\<lambda>(_, j).
     let s = s\<lparr>cp_job := j, cp_label := name\<rparr> in
     if theme = ''__blank-only'' then ret s
     else if theme = ''__random'' then
       (let themes = get_all_theme_ids (ge_themes ge);
            i = (if themes = [] then 0 else ge_random ge (length themes)) in
        rbind (job_set_theme ge (if i < length themes then Some (themes ! i) else None) s) (\<lambda>s.
        ret (job_start ge s)))
     else rbind (job_set_theme ge (Some theme) s) (\<lambda>s. ret (job_start ge s)))"

section \<open>The list of themes\<close>

definition tree_selection_changed_cb :: "capplet_env \<Rightarrow> capplet \<Rightarrow> capplet res" where
  "tree_selection_changed_cb ge s =
     (case cp_selected s of
        None \<Rightarrow> ret s
      | Some i \<Rightarrow>
          (let row = cp_rows s ! i in
           case row_id row of
             None \<Rightarrow> ret s
           | Some theme \<Rightarrow>
               rbind (preview_set_theme ge theme (row_name row) s) (\<lambda>s.
               ret (config_set_theme (ge_themes ge) theme s))))"

text \<open>Selecting a row; ``changed'' is emitted when another row was selected.\<close>

definition select_row :: "capplet_env \<Rightarrow> nat \<Rightarrow> capplet \<Rightarrow> capplet res" where
  "select_row ge i s =
     (if i < length (cp_rows s) \<and> ge_selectable ge (cp_rows s ! i) \<and> cp_selected s \<noteq> Some i
      then tree_selection_changed_cb ge (s\<lparr>cp_selected := Some i\<rparr>) else ret s)"

definition tree_selection_previous :: "capplet_env \<Rightarrow> capplet \<Rightarrow> capplet res" where
  "tree_selection_previous ge s =
     (case cp_selected s of None \<Rightarrow> ret s | Some i \<Rightarrow> if 0 < i then select_row ge (i - 1) s else ret s)"

definition tree_selection_next :: "capplet_env \<Rightarrow> capplet \<Rightarrow> capplet res" where
  "tree_selection_next ge s =
     (case cp_selected s of None \<Rightarrow> ret s | Some i \<Rightarrow> select_row ge (i + 1) s)"

text \<open>GTK keeps the rows sorted.\<close>

fun insert_row :: "(string \<Rightarrow> string \<Rightarrow> int) \<Rightarrow> theme_row \<Rightarrow> theme_row list \<Rightarrow> theme_row list" where
  "insert_row collate r [] = [r]"
| "insert_row collate r (x # xs) =
     (if compare_theme collate r x \<le> 0 then r # x # xs else x # insert_row collate r xs)"

definition sorted_rows :: "capplet_env \<Rightarrow> theme_row list" where
  "sorted_rows ge = foldr (insert_row (ge_collate ge)) (populate_model (ge_themes ge)) []"

definition setup_treeview :: "capplet_env \<Rightarrow> capplet \<Rightarrow> capplet" where
  "setup_treeview ge s = s\<lparr>cp_rows := sorted_rows ge, cp_selected := None, cp_tree_ready := True\<rparr>"

primrec row_index :: "string \<Rightarrow> theme_row list \<Rightarrow> nat option" where
  "row_index theme [] = None"
| "row_index theme (r # rs) =
     (if row_id r = Some theme then Some 0 else map_option Suc (row_index theme rs))"

definition setup_treeview_selection :: "capplet_env \<Rightarrow> capplet \<Rightarrow> capplet res" where
  "setup_treeview_selection ge s =
     (let (theme, is_writable) = config_get_theme (cp_store s);
          s = (if \<not> is_writable then s\<lparr>cp_tree_sensitive := False\<rparr> else s) in
      case (case theme of None \<Rightarrow> None | Some t \<Rightarrow> row_index t (cp_rows s)) of
        None \<Rightarrow> ret s
      | Some i \<Rightarrow> select_row ge i s)"

definition setup_treeview_idle :: "capplet_env \<Rightarrow> capplet \<Rightarrow> capplet res" where
  "setup_treeview_idle ge s = setup_treeview_selection ge (setup_treeview ge s)"

definition reload_themes :: "capplet_env \<Rightarrow> capplet \<Rightarrow> capplet" where
  "reload_themes ge s = s\<lparr>cp_selected := None, cp_rows := sorted_rows ge\<rparr>"

section \<open>Signals\<close>

definition prefs_key_changed_cb :: "capplet_env \<Rightarrow> string \<Rightarrow> capplet \<Rightarrow> capplet res" where
  "prefs_key_changed_cb ge key s =
     (if key = KEY_IDLE_ACTIVATION_ENABLED then ret (ui_set_enabled (st_enabled (cp_store s)) s)
      else if key = KEY_LOCK_ENABLED then ret (ui_set_lock (st_lock (cp_store s)) s)
      else if key = KEY_LOCK_DISABLE then ret (ui_disable_lock (st_lock_disabled (cp_store s)) s)
      else if key = KEY_THEMES then setup_treeview_selection ge s
      else if key = KEY_IDLE_DELAY then ret (ui_set_activate_delay (st_idle_delay (cp_store s)) s)
      else if key = KEY_LOCK_DELAY then ret (ui_set_lock_delay (st_lock_delay (cp_store s)) s)
      else ret s)"

definition fullscreen_preview_start_cb :: "capplet_env \<Rightarrow> capplet \<Rightarrow> capplet res" where
  "fullscreen_preview_start_cb ge s =
     (let s = s\<lparr>cp_dialog_shown := False, cp_fullscreen_shown := True\<rparr> in
      rbind (gs_job_set_widget (ge_procs ge) (Some (ge_fullscreen_area ge)) (cp_job s)) (\<lambda>j.
      ret (s\<lparr>cp_job := j\<rparr>)))"

definition fullscreen_preview_cancelled_cb :: "capplet_env \<Rightarrow> capplet \<Rightarrow> capplet res" where
  "fullscreen_preview_cancelled_cb ge s =
     rbind (gs_job_set_widget (ge_procs ge) (Some (ge_preview_area ge)) (cp_job s)) (\<lambda>j.
     ret (s\<lparr>cp_job := j, cp_fullscreen_shown := False, cp_dialog_shown := True\<rparr>))"

definition picture_filename_changed :: "string \<Rightarrow> capplet \<Rightarrow> capplet" where
  "picture_filename_changed picture s =
     settings_set KEY_PICTURE (\<lambda>st. st\<lparr>st_picture := picture\<rparr>) (s\<lparr>cp_picture := picture\<rparr>)"

datatype prefs_response = Response_Help | Response_Reject | Response_Other

definition response_cb :: "prefs_response \<Rightarrow> capplet \<Rightarrow> capplet" where
  "response_cb r s = (if r = Response_Other then s\<lparr>cp_quit := True\<rparr> else s)"

datatype drop_target = TARGET_URI_LIST | TARGET_NS_URL | Target_Other

definition drag_data_received_cb :: "drop_target \<Rightarrow> string option \<Rightarrow> capplet \<Rightarrow> capplet" where
  "drag_data_received_cb info selection s =
     (if info \<noteq> TARGET_URI_LIST \<and> info \<noteq> TARGET_NS_URL then s
      else
        (let files = uri_list_parse selection in
         if files \<noteq> [] then s\<lparr>cp_installing := cp_installing s @ [files]\<rparr> else s))"

definition theme_copy_complete_cb :: "capplet_env \<Rightarrow> capplet \<Rightarrow> capplet" where
  "theme_copy_complete_cb ge s = (reload_themes ge s)\<lparr>cp_installing := tl (cp_installing s)\<rparr>"

section \<open>The start\<close>

definition check_is_root_user :: "capplet_env \<Rightarrow> bool" where
  "check_is_root_user ge = (ge_ruid ge = 0)"

definition setup_for_root_user :: "capplet \<Rightarrow> capplet" where
  "setup_for_root_user s = (lock_set_active False s)\<lparr>cp_lock_sensitive := False, cp_root_warning := True\<rparr>"

text \<open>The widgets as the file \<open>mate-screensaver-preferences.ui\<close> describes them.\<close>

definition capplet_start :: "pref_store \<Rightarrow> capplet" where
  "capplet_start st =
     \<lparr>cp_store = st, cp_changed = [], cp_lock_active = False, cp_lock_sensitive = True, cp_lock_connected = False,
      cp_enable_active = False, cp_enable_sensitive = True, cp_enable_connected = False,
      cp_activate_value = 10, cp_activate_sensitive = True, cp_activate_connected = False,
      cp_lock_value = 10, cp_lock_value_sensitive = True, cp_lock_value_connected = False,
      cp_rows = [], cp_selected = None, cp_tree_sensitive = True, cp_tree_ready = False,
      cp_job = gs_job_new, cp_label = None, cp_picture = [], cp_gpm_shown = True, cp_root_warning = False,
      cp_dialog_shown = True, cp_fullscreen_shown = False, cp_installing = [], cp_quit = False\<rparr>"

text \<open>The scales show the settings; nothing is connected to their values yet.\<close>

definition init_scales :: "capplet \<Rightarrow> capplet" where
  "init_scales s =
     (let (activate_delay, is_writable) = config_get_activate_delay (cp_store s);
          s = ui_set_activate_delay activate_delay s;
          s = (if \<not> is_writable then s\<lparr>cp_activate_sensitive := False\<rparr> else s);
          (lock_delay, is_writable) = config_get_lock_delay (cp_store s);
          s = ui_set_lock_delay lock_delay s in
      if \<not> is_writable then s\<lparr>cp_lock_value_sensitive := False\<rparr> else s)"

text \<open>The check boxes: the handler of the lock is connected before the other box is set.\<close>

definition init_boxes :: "capplet \<Rightarrow> capplet" where
  "init_boxes s =
     (let (lock, is_writable) = config_get_lock (cp_store s);
          s = lock_set_active lock s;
          s = (if \<not> is_writable then s\<lparr>cp_lock_sensitive := False\<rparr> else s);
          s = s\<lparr>cp_lock_connected := True, cp_picture := st_picture (cp_store s)\<rparr>;
          (enabled, is_writable) = config_get_enabled (cp_store s);
          s = ui_set_enabled enabled s;
          s = (if \<not> is_writable then s\<lparr>cp_enable_sensitive := False\<rparr> else s) in
      s\<lparr>cp_enable_connected := True\<rparr>)"

definition init_themes :: "capplet_env \<Rightarrow> capplet \<Rightarrow> capplet" where
  "init_themes ge s =
     (if fst (config_get_mode (cp_store s)) = GS_MODE_RANDOM
      then settings_set KEY_THEMES (\<lambda>st. st\<lparr>st_themes := get_all_theme_ids (ge_themes ge)\<rparr>) s else s)"

definition init_capplet :: "capplet_env \<Rightarrow> pref_store \<Rightarrow> capplet res" where
  "init_capplet ge st =
     (let s = capplet_start st;
          s = (if \<not> ge_have_gpm ge then s\<lparr>cp_gpm_shown := False\<rparr> else s);
          s = init_themes ge (init_boxes (init_scales s)) in
      rbind (gs_job_set_widget (ge_procs ge) (Some (ge_preview_area ge)) (cp_job s)) (\<lambda>j.
      let s = s\<lparr>cp_job := j\<rparr>;
          s = (if check_is_root_user ge then setup_for_root_user s else s) in
      ret (s\<lparr>cp_activate_connected := True, cp_lock_value_connected := True\<rparr>)))"

section \<open>The main loop\<close>

text \<open>
  What the main loop dispatches: the idle source of the start, signals of changed keys, changes from
  outside with the keys they concern, what the user does, and the watch on the program of the preview.
\<close>

datatype capplet_event =
    Setup_Tree
  | Signal_Change string
  | Outside pref_store "string list"
  | Lock_Clicked
  | Enable_Clicked
  | Activate_Moved int
  | Lock_Delay_Moved int
  | Row_Clicked nat
  | Preview_Previous
  | Preview_Next
  | Preview_Start
  | Preview_Cancel
  | Picture_Chosen string
  | Answered prefs_response
  | Dropped drop_target "string option"
  | Copy_Complete
  | Child_Watch io_condition

definition concerned :: "pref_store \<Rightarrow> pref_store \<Rightarrow> string list \<Rightarrow> bool" where
  "concerned st st' keys =
     ((st_lock st' \<noteq> st_lock st \<longrightarrow> KEY_LOCK_ENABLED \<in> set keys)
      \<and> (st_enabled st' \<noteq> st_enabled st \<longrightarrow> KEY_IDLE_ACTIVATION_ENABLED \<in> set keys)
      \<and> (st_lock_delay st' \<noteq> st_lock_delay st \<longrightarrow> KEY_LOCK_DELAY \<in> set keys)
      \<and> (st_mode st' \<noteq> st_mode st \<longrightarrow> KEY_MODE \<in> set keys)
      \<and> (st_themes st' \<noteq> st_themes st \<longrightarrow> KEY_THEMES \<in> set keys)
      \<and> (st_picture st' \<noteq> st_picture st \<longrightarrow> KEY_PICTURE \<in> set keys)
      \<and> (st_idle_delay st' \<noteq> st_idle_delay st \<longrightarrow> KEY_IDLE_DELAY \<in> set keys)
      \<and> (st_lock_disabled st' \<noteq> st_lock_disabled st \<longrightarrow> KEY_LOCK_DISABLE \<in> set keys))"

definition capplet_ready :: "capplet_event \<Rightarrow> capplet \<Rightarrow> bool" where
  "capplet_ready ev s =
     (\<not> cp_quit s
      \<and> (case ev of
           Setup_Tree \<Rightarrow> \<not> cp_tree_ready s
         | Signal_Change key \<Rightarrow> key \<in> set (cp_changed s)
         | Outside st keys \<Rightarrow> concerned (cp_store s) st keys
         | Lock_Clicked \<Rightarrow> cp_lock_sensitive s
         | Enable_Clicked \<Rightarrow> cp_enable_sensitive s
         | Activate_Moved v \<Rightarrow> cp_activate_sensitive s
         | Lock_Delay_Moved v \<Rightarrow> cp_lock_value_sensitive s
         | Row_Clicked i \<Rightarrow> cp_tree_sensitive s
         | Preview_Previous \<Rightarrow> cp_fullscreen_shown s
         | Preview_Next \<Rightarrow> cp_fullscreen_shown s
         | Preview_Cancel \<Rightarrow> cp_fullscreen_shown s
         | Copy_Complete \<Rightarrow> cp_installing s \<noteq> []
         | Child_Watch c \<Rightarrow> j_watch_id (cp_job s)
         | _ \<Rightarrow> True))"

definition capplet_react :: "capplet_env \<Rightarrow> capplet_event \<Rightarrow> capplet \<Rightarrow> capplet res" where
  "capplet_react ge ev s =
     (case ev of
        Setup_Tree \<Rightarrow> setup_treeview_idle ge s
      | Signal_Change key \<Rightarrow> prefs_key_changed_cb ge key (s\<lparr>cp_changed := remove1 key (cp_changed s)\<rparr>)
      | Outside st keys \<Rightarrow> ret (s\<lparr>cp_store := st, cp_changed := cp_changed s @ keys\<rparr>)
      | Lock_Clicked \<Rightarrow> ret (lock_set_active (\<not> cp_lock_active s) s)
      | Enable_Clicked \<Rightarrow> ret (enable_set_active (\<not> cp_enable_active s) s)
      | Activate_Moved v \<Rightarrow> ret (ui_set_activate_delay v s)
      | Lock_Delay_Moved v \<Rightarrow> ret (ui_set_lock_delay v s)
      | Row_Clicked i \<Rightarrow> select_row ge i s
      | Preview_Previous \<Rightarrow> tree_selection_previous ge s
      | Preview_Next \<Rightarrow> tree_selection_next ge s
      | Preview_Start \<Rightarrow> fullscreen_preview_start_cb ge s
      | Preview_Cancel \<Rightarrow> fullscreen_preview_cancelled_cb ge s
      | Picture_Chosen f \<Rightarrow> ret (picture_filename_changed f s)
      | Answered r \<Rightarrow> ret (response_cb r s)
      | Dropped info selection \<Rightarrow> ret (drag_data_received_cb info selection s)
      | Copy_Complete \<Rightarrow> ret (theme_copy_complete_cb ge s)
      | Child_Watch c \<Rightarrow> rbind (command_watch (ge_procs ge) c (cp_job s)) (\<lambda>(_, j). ret (s\<lparr>cp_job := j\<rparr>)))"

inductive capplet_reachable :: "capplet \<Rightarrow> bool" where
  start: "spawn_ok (ge_procs ge) \<Longrightarrow> init_capplet ge st = Inr s \<Longrightarrow> capplet_reachable s"
| step: "capplet_reachable s \<Longrightarrow> spawn_ok (ge_procs ge) \<Longrightarrow> capplet_ready ev s \<Longrightarrow> capplet_react ge ev s = Inr s' \<Longrightarrow>
    capplet_reachable s'"

text \<open>
  The end of \<open>main\<close>, after the main loop: the job is freed.  A child that runs is sent a SIGTERM and
  waited for.
\<close>

definition capplet_finish :: "capplet_env \<Rightarrow> capplet \<Rightarrow> gs_job res" where
  "capplet_finish ge s = gs_job_finalize (ge_procs ge) (cp_job s)"

end
