(* ===== verification/GS_Preferences_Props.thy ===== *)
theory GS_Preferences_Props
  imports GS_Preferences
begin

text \<open>
  What holds of the preferences application: an invariant of all its reachable states, what opening it
  writes, that the choice of a theme arrives at the daemon, and that a locked-down lock stays off.
\<close>

section \<open>What each operation touches\<close>

definition lock_view :: "capplet \<Rightarrow> bool \<times> bool \<times> bool \<times> bool" where
  "lock_view s =
     (st_lock_disabled (cp_store s), KEY_LOCK_DISABLE \<in> set (cp_changed s), cp_lock_active s, cp_lock_sensitive s)"

definition list_view :: "capplet \<Rightarrow> theme_row list \<times> nat option \<times> gs_job" where
  "list_view s = (cp_rows s, cp_selected s, cp_job s)"

definition value_view :: "capplet \<Rightarrow> int \<times> int" where
  "value_view s = (cp_activate_value s, cp_lock_value s)"

lemmas view_defs = lock_view_def list_view_def value_view_def

lemmas store_writers =
  settings_set_def config_set_activate_delay_def config_set_lock_delay_def config_set_mode_def config_set_theme_def
  config_set_enabled_def config_set_lock_def

lemmas widget_ops =
  lock_checkbox_toggled_def enabled_checkbox_toggled_def lock_set_active_def enable_set_active_def
  ui_disable_lock_def ui_set_lock_def ui_set_enabled_def activate_delay_value_changed_cb_def lock_delay_value_changed_cb_def
  ui_set_activate_delay_def ui_set_lock_delay_def config_get_lock_disabled_def config_get_lock_def

lemmas lock_key_neq =
  key_defs KEY_PICTURE_def

lemma lock_view_set [simp]:
  "key \<noteq> KEY_LOCK_DISABLE \<Longrightarrow> (\<And>st. st_lock_disabled (f st) = st_lock_disabled st) \<Longrightarrow> lock_view (settings_set key f s) = lock_view s"
  by (simp add: lock_view_def settings_set_def)

lemma views_set [simp]:
  "list_view (settings_set key f s) = list_view s" "value_view (settings_set key f s) = value_view s"
  by (simp_all add: view_defs settings_set_def)

lemma views_config [simp]:
  "lock_view (config_set_activate_delay t s) = lock_view s" "lock_view (config_set_lock_delay t s) = lock_view s"
  "lock_view (config_set_theme te t' s) = lock_view s" "lock_view (config_set_enabled b s) = lock_view s"
  "lock_view (config_set_lock b s) = lock_view s"
  "list_view (config_set_activate_delay t s) = list_view s" "list_view (config_set_lock_delay t s) = list_view s"
  "list_view (config_set_theme te t' s) = list_view s" "list_view (config_set_enabled b s) = list_view s"
  "list_view (config_set_lock b s) = list_view s"
  "value_view (config_set_activate_delay t s) = value_view s" "value_view (config_set_lock_delay t s) = value_view s"
  "value_view (config_set_theme te t' s) = value_view s" "value_view (config_set_enabled b s) = value_view s"
  "value_view (config_set_lock b s) = value_view s"
  by (simp_all add: config_set_activate_delay_def config_set_lock_delay_def config_set_theme_def config_set_mode_def
      config_set_enabled_def config_set_lock_def key_defs split: prod.split)

lemma views_boxes [simp]:
  "list_view (lock_set_active b s) = list_view s" "value_view (lock_set_active b s) = value_view s"
  "list_view (enable_set_active b s) = list_view s" "value_view (enable_set_active b s) = value_view s"
  "lock_view (enable_set_active b s) = lock_view s"
  by (simp_all add: lock_set_active_def enable_set_active_def lock_checkbox_toggled_def enabled_checkbox_toggled_def Let_def)
    (simp_all add: view_defs)

lemma lock_view_active:
  "lock_view (lock_set_active b s) = (case lock_view s of (d, p, a, n) \<Rightarrow> (d, p, b, n))"
  by (simp add: lock_set_active_def lock_checkbox_toggled_def Let_def) (auto simp: lock_view_def)

lemma lock_view_disable:
  "lock_view (ui_disable_lock b s) = (case lock_view s of (d, p, a, n) \<Rightarrow> (d, p, a \<and> \<not> b, \<not> b))"
  by (simp add: ui_disable_lock_def lock_view_active Let_def) (auto simp: lock_view_def)

lemma views_disable [simp]:
  "list_view (ui_disable_lock b s) = list_view s" "value_view (ui_disable_lock b s) = value_view s"
  by (simp_all add: ui_disable_lock_def Let_def) (simp_all add: view_defs)

lemma views_sensitive [simp]:
  "list_view (s\<lparr>cp_lock_sensitive := b\<rparr>) = list_view s" "value_view (s\<lparr>cp_lock_sensitive := b\<rparr>) = value_view s"
  "lock_view (s\<lparr>cp_lock_sensitive := b\<rparr>) = (case lock_view s of (d, p, a, n) \<Rightarrow> (d, p, a, b))"
  by (simp_all add: view_defs)

lemma lock_disabled_view: "config_get_lock_disabled (cp_store s) = fst (lock_view s)"
  by (simp add: lock_view_def config_get_lock_disabled_def)

lemma views_set_lock [simp]:
  "list_view (ui_set_lock b s) = list_view s" "value_view (ui_set_lock b s) = value_view s"
  "list_view (ui_set_enabled b s) = list_view s" "value_view (ui_set_enabled b s) = value_view s"
  by (simp_all add: ui_set_lock_def ui_set_enabled_def Let_def)

lemma lock_view_ui:
  "lock_view (ui_set_lock b s) = (case lock_view s of (d, p, a, n) \<Rightarrow> (d, p, b \<and> \<not> d, \<not> d))"
  "lock_view (ui_set_enabled b s) = (case lock_view s of (d, p, a, n) \<Rightarrow> (d, p, a \<and> \<not> d, \<not> d))"
proof -
  obtain d p a n where v: "lock_view s = (d, p, a, n)" by (metis prod_cases4)
  have "lock_view (lock_set_active b s) = (d, p, b, n)" by (simp add: lock_view_active v)
  then show "lock_view (ui_set_lock b s) = (case lock_view s of (d, p, a, n) \<Rightarrow> (d, p, b \<and> \<not> d, \<not> d))"
    by (simp add: ui_set_lock_def lock_view_disable lock_disabled_view v Let_def)
  show "lock_view (ui_set_enabled b s) = (case lock_view s of (d, p, a, n) \<Rightarrow> (d, p, a \<and> \<not> d, \<not> d))"
    by (simp add: ui_set_enabled_def lock_view_disable lock_disabled_view v Let_def)
qed

lemma views_delays [simp]:
  "lock_view (ui_set_activate_delay v s) = lock_view s" "list_view (ui_set_activate_delay v s) = list_view s"
  "lock_view (ui_set_lock_delay v s) = lock_view s" "list_view (ui_set_lock_delay v s) = list_view s"
  "value_view (ui_set_activate_delay v s) = (clamp activate_delay_scale v, snd (value_view s))"
  "value_view (ui_set_lock_delay v s) = (fst (value_view s), clamp lock_delay_scale v)"
  by (simp_all add: ui_set_activate_delay_def ui_set_lock_delay_def activate_delay_value_changed_cb_def lock_delay_value_changed_cb_def
      Let_def) (auto simp: view_defs)

section \<open>The invariant\<close>

text \<open>
  The job is in order, the selected row exists, the scales are within their bounds, and while the lock is
  locked down and the application knows it, the check box is off and cannot be switched on.
\<close>

definition capplet_ok :: "capplet \<Rightarrow> bool" where
  "capplet_ok s =
     ((case list_view s of (rows, sel, j) \<Rightarrow> job_ok j \<and> (\<forall>i. sel = Some i \<longrightarrow> i < length rows))
      \<and> (case value_view s of (a, l) \<Rightarrow> 1 \<le> a \<and> a \<le> 120 \<and> 0 \<le> l \<and> l \<le> 120)
      \<and> (case lock_view s of (d, p, a, n) \<Rightarrow> d \<and> \<not> p \<longrightarrow> \<not> a \<and> \<not> n))"

lemma clamp_bounds:
  "1 \<le> clamp activate_delay_scale v" "clamp activate_delay_scale v \<le> 120" "0 \<le> clamp lock_delay_scale v" "clamp lock_delay_scale v \<le> 120"
  by (simp_all add: clamp_def activate_delay_scale_def lock_delay_scale_def)

text \<open>What the operations on the list change.\<close>

definition list_step :: "capplet \<Rightarrow> capplet \<Rightarrow> bool" where
  "list_step s s' = (lock_view s' = lock_view s \<and> value_view s' = value_view s \<and> (job_ok (cp_job s) \<longrightarrow> job_ok (cp_job s'))
     \<and> cp_rows s' = cp_rows s)"

lemma job_set_theme_post: "rpost (\<lambda>s'. \<exists>c. s' = s\<lparr>cp_job := gs_job_set_command c (cp_job s)\<rparr>) (job_set_theme ge theme s)"
  by (auto simp: job_set_theme_def rpost_def res_simps)

lemma list_step_job: "(job_ok (cp_job s) \<longrightarrow> job_ok j) \<Longrightarrow> list_step s (s\<lparr>cp_job := j\<rparr>)"
  by (simp add: list_step_def view_defs)

lemma list_step_trans: "list_step s s' \<Longrightarrow> list_step s' s'' \<Longrightarrow> list_step s s''"
  by (simp add: list_step_def)

lemma job_start_step: "spawn_ok (ge_procs ge) \<Longrightarrow> list_step s (job_start ge s) \<and> cp_selected (job_start ge s) = cp_selected s"
  unfolding job_start_def by (simp add: list_step_job job_ok_start)

lemma job_set_theme_step: "rpost (\<lambda>s'. list_step s s' \<and> cp_selected s' = cp_selected s) (job_set_theme ge theme s)"
  by (rule rpost_mono [OF job_set_theme_post]) (auto intro!: list_step_job)

lemma job_stop_step: "job_ok j \<Longrightarrow> rpost (\<lambda>(r, j'). job_ok j') (gs_job_stop pe j)"
  by (auto simp: rpost_def gs_job_stop_def gs_job_died_def gs_job_suspend_def kill_child_def wait_on_child_def remove_command_watch_def
      job_ok_def res_simps split: if_splits)

lemma preview_step:
  assumes "spawn_ok (ge_procs ge)" "job_ok (cp_job s)"
  shows "rpost (\<lambda>s'. list_step s s' \<and> cp_selected s' = cp_selected s) (preview_set_theme ge theme name s)"
  unfolding preview_set_theme_def
proof (rule rpost_rbindI [OF job_stop_step [OF assms(2), of "ge_procs ge"]], clarify)
  fix j assume j: "job_ok j"
  let ?s = "s\<lparr>cp_job := j, cp_label := name\<rparr>"
  have s: "list_step s ?s" "cp_selected ?s = cp_selected s" using j by (simp_all add: list_step_def view_defs)
  have run: "rpost (\<lambda>s'. list_step s s' \<and> cp_selected s' = cp_selected s) (rbind (job_set_theme ge t ?s) (\<lambda>s. ret (job_start ge s)))" for t
    by (rule rpost_rbindI [OF job_set_theme_step]) (use s job_start_step [OF assms(1)] list_step_trans in fastforce)
  show "rpost (\<lambda>s'. list_step s s' \<and> cp_selected s' = cp_selected s)
      (let s = ?s in
       if theme = ''__blank-only'' then ret s
       else if theme = ''__random'' then
         (let themes = get_all_theme_ids (ge_themes ge);
              i = (if themes = [] then 0 else ge_random ge (length themes)) in
          rbind (job_set_theme ge (if i < length themes then Some (themes ! i) else None) s) (\<lambda>s. ret (job_start ge s)))
       else rbind (job_set_theme ge (Some theme) s) (\<lambda>s. ret (job_start ge s)))"
    unfolding Let_def using s run by (simp del: rpost_simps(3))
qed

lemma selection_changed_step:
  assumes "spawn_ok (ge_procs ge)" "job_ok (cp_job s)"
  shows "rpost (\<lambda>s'. list_step s s' \<and> cp_selected s' = cp_selected s) (tree_selection_changed_cb ge s)"
proof -
  have c: "list_step s (config_set_theme te t s')" "cp_selected (config_set_theme te t s') = cp_selected s'"
    if "list_step s s'" for te t s'
    using that views_config(3,8,13) [of te t s'] unfolding list_step_def list_view_def by auto
  have r: "list_step s s" by (simp add: list_step_def)
  show ?thesis
    unfolding tree_selection_changed_cb_def Let_def
    by (auto split: option.split simp: r c simp del: rpost_simps(3) intro!: rpost_rbindI [OF preview_step [OF assms]])
qed

lemma select_row_step:
  assumes "spawn_ok (ge_procs ge)" "capplet_ok s"
  shows "rpost capplet_ok (select_row ge i s)"
proof -
  have j: "job_ok (cp_job s)" using assms(2) by (simp add: capplet_ok_def list_view_def)
  show ?thesis
  proof (cases "i < length (cp_rows s) \<and> ge_selectable ge (cp_rows s ! i) \<and> cp_selected s \<noteq> Some i")
    case True
    let ?s = "s\<lparr>cp_selected := Some i\<rparr>"
    have "job_ok (cp_job ?s)" using j by simp
    from selection_changed_step [OF assms(1) this] have
      "rpost capplet_ok (tree_selection_changed_cb ge ?s)"
      by (rule rpost_mono) (use assms(2) True j in \<open>auto simp: capplet_ok_def list_step_def view_defs\<close>)
    then show ?thesis using True by (simp add: select_row_def)
  qed (use assms(2) in \<open>auto simp: select_row_def\<close>)
qed

text \<open>One lemma for each group of events.\<close>

lemma selection_moves_ok:
  assumes "spawn_ok (ge_procs ge)" "capplet_ok s"
  shows "rpost capplet_ok (tree_selection_previous ge s)" "rpost capplet_ok (tree_selection_next ge s)"
    "rpost capplet_ok (setup_treeview_selection ge s)"
proof -
  have "capplet_ok (s\<lparr>cp_tree_sensitive := b\<rparr>)" for b using assms(2) by (simp add: capplet_ok_def view_defs)
  then show "rpost capplet_ok (setup_treeview_selection ge s)"
    using select_row_step [OF assms(1)] assms(2)
    by (auto simp: setup_treeview_selection_def Let_def split: prod.split option.split)
  show "rpost capplet_ok (tree_selection_previous ge s)" "rpost capplet_ok (tree_selection_next ge s)"
    using select_row_step [OF assms] assms(2)
    by (auto simp: tree_selection_previous_def tree_selection_next_def split: option.split)
qed

lemma widgets_ok:
  assumes "capplet_ok s"
  shows "capplet_ok (ui_set_enabled b s)" "capplet_ok (ui_set_lock b s)" "capplet_ok (enable_set_active b s)"
    "capplet_ok (ui_set_activate_delay v s)" "capplet_ok (ui_set_lock_delay v s)"
  using assms clamp_bounds by (auto simp: capplet_ok_def lock_view_ui)

lemma lock_clicked_ok: "capplet_ok s \<Longrightarrow> cp_lock_sensitive s \<Longrightarrow> capplet_ok (lock_set_active b s)"
  by (auto simp: capplet_ok_def lock_view_active) (simp_all add: lock_view_def)

text \<open>
  The signal that the lock is locked down arrives: until then the invariant promises nothing about the
  check box, and \<open>ui_disable_lock\<close> establishes it.
\<close>

lemma signal_ok:
  assumes "spawn_ok (ge_procs ge)" "capplet_ok s"
  shows "rpost capplet_ok (prefs_key_changed_cb ge key (s\<lparr>cp_changed := remove1 key (cp_changed s)\<rparr>))"
proof (cases "key = KEY_LOCK_DISABLE")
  case True
  then show ?thesis
    using assms(2) by (auto simp: prefs_key_changed_cb_def key_defs capplet_ok_def lock_view_disable) (auto simp: view_defs)
next
  case False
  then have "KEY_LOCK_DISABLE \<in> set (remove1 key (cp_changed s)) \<longleftrightarrow> KEY_LOCK_DISABLE \<in> set (cp_changed s)" by simp
  then have "capplet_ok (s\<lparr>cp_changed := remove1 key (cp_changed s)\<rparr>)"
    using assms(2) unfolding capplet_ok_def view_defs by simp
  then show ?thesis
    using False widgets_ok selection_moves_ok(3) [OF assms(1)] by (auto simp: prefs_key_changed_cb_def)
qed

lemma job_set_widget_post:
  assumes "spawn_ok pe" "job_ok j"
  shows "rpost job_ok (gs_job_set_widget pe w j)"
proof -
  have w: "job_ok (j\<lparr>j_widget := w\<rparr>)" using assms(2) by (auto simp: job_ok_def)
  have "rpost job_ok (rbind (gs_job_stop pe (j\<lparr>j_widget := w\<rparr>)) (\<lambda>(_, j). ret (snd (gs_job_start pe j))))"
    by (rule rpost_rbindI [OF job_stop_step [OF w]]) (auto intro: job_ok_start [OF assms(1)])
  then show ?thesis using w assms(2) by (simp add: gs_job_set_widget_def Let_def del: rpost_simps(3))
qed

lemma capplet_ok_job: "capplet_ok s \<Longrightarrow> job_ok j \<Longrightarrow> capplet_ok (s\<lparr>cp_job := j\<rparr>)"
  by (simp add: capplet_ok_def view_defs)

lemma capplet_okD: "capplet_ok s \<Longrightarrow> job_ok (cp_job s)"
  by (simp add: capplet_ok_def list_view_def)

lemma fullscreen_ok:
  assumes "spawn_ok (ge_procs ge)" "capplet_ok s"
  shows "rpost capplet_ok (fullscreen_preview_start_cb ge s)" "rpost capplet_ok (fullscreen_preview_cancelled_cb ge s)"
  unfolding fullscreen_preview_start_cb_def fullscreen_preview_cancelled_cb_def Let_def
  using assms(2)
  by (auto intro!: rpost_rbindI [OF job_set_widget_post [OF assms(1) capplet_okD [OF assms(2)]]] simp: capplet_ok_def view_defs
      simp del: rpost_simps(3))

lemma react_ok:
  assumes "capplet_ok s" "spawn_ok (ge_procs ge)" "capplet_ready ev s"
  shows "rpost capplet_ok (capplet_react ge ev s)"
proof (cases ev)
  case Setup_Tree
  have "capplet_ok (setup_treeview ge s)" using assms(1) by (simp add: setup_treeview_def capplet_ok_def view_defs)
  then show ?thesis using Setup_Tree selection_moves_ok(3) [OF assms(2)] by (simp add: capplet_react_def setup_treeview_idle_def)
next
  case (Signal_Change key)
  then show ?thesis using signal_ok [OF assms(2,1)] by (simp add: capplet_react_def)
next
  case (Outside st keys)
  then show ?thesis using assms(1,3) by (auto simp: capplet_react_def capplet_ready_def concerned_def capplet_ok_def view_defs)
next
  case Lock_Clicked
  then show ?thesis using assms(1,3) by (auto simp: capplet_react_def capplet_ready_def lock_clicked_ok)
next
  case (Child_Watch c)
  have "rpost (\<lambda>(r, j'). job_ok j') (command_watch (ge_procs ge) c (cp_job s))"
    using capplet_okD [OF assms(1)] by (auto simp: command_watch_def gs_job_died_def wait_on_child_def job_ok_def)
  then have "rpost capplet_ok (rbind (command_watch (ge_procs ge) c (cp_job s)) (\<lambda>(_, j). ret (s\<lparr>cp_job := j\<rparr>)))"
    by (rule rpost_rbindI) (auto intro: capplet_ok_job [OF assms(1)])
  then show ?thesis using Child_Watch by (simp add: capplet_react_def del: rpost_simps(3))
next
  case (Picture_Chosen f)
  then show ?thesis
    using assms(1) by (auto simp: capplet_react_def picture_filename_changed_def settings_set_def capplet_ok_def view_defs key_defs KEY_PICTURE_def)
qed (use assms(1) widgets_ok [OF assms(1)] select_row_step [OF assms(2,1)] selection_moves_ok [OF assms(2,1)] fullscreen_ok [OF assms(2,1)] in
    \<open>auto simp: capplet_react_def response_cb_def drag_data_received_cb_def theme_copy_complete_cb_def reload_themes_def Let_def
      capplet_ok_def view_defs\<close>)

section \<open>The start\<close>

lemma init_scales_views:
  "lock_view (init_scales s) = lock_view s" "list_view (init_scales s) = list_view s"
  "value_view (init_scales s) = (clamp activate_delay_scale (fst (config_get_activate_delay (cp_store s))),
     clamp lock_delay_scale (fst (config_get_lock_delay (cp_store (ui_set_activate_delay (fst (config_get_activate_delay (cp_store s))) s)))))"
proof -
  have u: "lock_view (s\<lparr>cp_activate_sensitive := b\<rparr>) = lock_view s" "list_view (s\<lparr>cp_activate_sensitive := b\<rparr>) = list_view s"
    "value_view (s\<lparr>cp_activate_sensitive := b\<rparr>) = value_view s"
    "lock_view (s\<lparr>cp_lock_value_sensitive := b\<rparr>) = lock_view s" "list_view (s\<lparr>cp_lock_value_sensitive := b\<rparr>) = list_view s"
    "value_view (s\<lparr>cp_lock_value_sensitive := b\<rparr>) = value_view s" for b s
    by (simp_all add: view_defs)
  show "lock_view (init_scales s) = lock_view s" "list_view (init_scales s) = list_view s"
    "value_view (init_scales s) = (clamp activate_delay_scale (fst (config_get_activate_delay (cp_store s))),
     clamp lock_delay_scale (fst (config_get_lock_delay (cp_store (ui_set_activate_delay (fst (config_get_activate_delay (cp_store s))) s)))))"
    by (simp_all add: init_scales_def u split_def Let_def)
qed

lemma init_boxes_views:
  "list_view (init_boxes s) = list_view s" "value_view (init_boxes s) = value_view s"
  "\<exists>d p a. lock_view (init_boxes s) = (d, p, a \<and> \<not> d, \<not> d)"
proof -
  have u: "list_view (s\<lparr>cp_lock_connected := b, cp_picture := f\<rparr>) = list_view s" "list_view (s\<lparr>cp_enable_sensitive := b\<rparr>) = list_view s"
    "list_view (s\<lparr>cp_enable_connected := b\<rparr>) = list_view s"
    "value_view (s\<lparr>cp_lock_connected := b, cp_picture := f\<rparr>) = value_view s" "value_view (s\<lparr>cp_enable_sensitive := b\<rparr>) = value_view s"
    "value_view (s\<lparr>cp_enable_connected := b\<rparr>) = value_view s"
    "lock_view (s\<lparr>cp_enable_sensitive := b\<rparr>) = lock_view s" "lock_view (s\<lparr>cp_enable_connected := b\<rparr>) = lock_view s" for b f s
    by (simp_all add: view_defs)
  show "list_view (init_boxes s) = list_view s" "value_view (init_boxes s) = value_view s"
    by (simp_all add: init_boxes_def u split_def Let_def)
  have "\<exists>t b. lock_view (init_boxes s) = lock_view (ui_set_enabled b t)"
    unfolding init_boxes_def by (simp add: u split_def Let_def) metis
  then obtain t b where "lock_view (init_boxes s) = lock_view (ui_set_enabled b t)" by blast
  moreover obtain d p a n where "lock_view t = (d, p, a, n)" by (metis prod_cases4)
  ultimately show "\<exists>d p a. lock_view (init_boxes s) = (d, p, a \<and> \<not> d, \<not> d)"
    by (auto simp: lock_view_ui)
qed

lemma capplet_ok_connected: "capplet_ok s \<Longrightarrow> capplet_ok (s\<lparr>cp_activate_connected := a, cp_lock_value_connected := b\<rparr>)"
  by (simp add: capplet_ok_def view_defs)

lemma capplet_init_ok:
  assumes "spawn_ok (ge_procs ge)" "init_capplet ge st = Inr s"
  shows "capplet_ok s"
proof -
  define s0 where "s0 = (if \<not> ge_have_gpm ge then (capplet_start st)\<lparr>cp_gpm_shown := False\<rparr> else capplet_start st)"
  define s1 where "s1 = init_themes ge (init_boxes (init_scales s0))"
  have l0: "list_view s0 = ([], None, gs_job_new)" by (simp add: s0_def capplet_start_def view_defs)
  have t: "list_view s1 = list_view (init_boxes (init_scales s0))" "value_view s1 = value_view (init_boxes (init_scales s0))"
    "lock_view s1 = lock_view (init_boxes (init_scales s0))"
    by (simp_all add: s1_def init_themes_def key_defs)
  have ok: "capplet_ok s1"
    using init_boxes_views [of "init_scales s0"] clamp_bounds
    by (auto simp: capplet_ok_def t l0 init_scales_views)
  obtain j where j: "gs_job_set_widget (ge_procs ge) (Some (ge_preview_area ge)) (cp_job s1) = Inr j"
    and s: "s = (if check_is_root_user ge then setup_for_root_user (s1\<lparr>cp_job := j\<rparr>) else s1\<lparr>cp_job := j\<rparr>)
        \<lparr>cp_activate_connected := True, cp_lock_value_connected := True\<rparr>"
    using assms(2) unfolding init_capplet_def Let_def s0_def [symmetric] s1_def [symmetric] by (auto simp: res_simps)
  have "job_ok j" using rpostD [OF job_set_widget_post [OF assms(1) capplet_okD [OF ok]] j] .
  then have "capplet_ok (s1\<lparr>cp_job := j\<rparr>)" by (rule capplet_ok_job [OF ok])
  moreover have "capplet_ok (setup_for_root_user s)" if "capplet_ok s" for s
  proof -
    have "list_view (setup_for_root_user s) = list_view s" "value_view (setup_for_root_user s) = value_view s"
      "lock_view (setup_for_root_user s) = (case lock_view s of (d, p, a, n) \<Rightarrow> (d, p, False, False))"
      using views_boxes(1,2) [of False s] lock_view_active [of False s]
      by (auto simp: setup_for_root_user_def view_defs)
    then show ?thesis using that by (auto simp: capplet_ok_def)
  qed
  ultimately have "capplet_ok (if check_is_root_user ge then setup_for_root_user (s1\<lparr>cp_job := j\<rparr>) else s1\<lparr>cp_job := j\<rparr>)" by simp
  then show ?thesis unfolding s by (rule capplet_ok_connected)
qed

lemma reachable_capplet_ok: "capplet_reachable s \<Longrightarrow> capplet_ok s"
proof (induction rule: capplet_reachable.induct)
  case (step s ge ev s')
  then show ?case using rpostD [OF react_ok] by blast
qed (rule capplet_init_ok)

text \<open>What the start writes.\<close>

lemma store_lock_active:
  "cp_store (lock_set_active b s) =
     (if cp_lock_active s \<noteq> b \<and> cp_lock_connected s \<and> st_writable (cp_store s) KEY_LOCK_ENABLED
      then (cp_store s)\<lparr>st_lock := b\<rparr> else cp_store s)"
  "cp_lock_active (lock_set_active b s) = b" "cp_lock_connected (lock_set_active b s) = cp_lock_connected s"
  "cp_enable_connected (lock_set_active b s) = cp_enable_connected s"
  by (auto simp: lock_set_active_def lock_checkbox_toggled_def config_set_lock_def settings_set_def Let_def)

lemma enable_unconnected:
  "\<not> cp_enable_connected s \<Longrightarrow> enable_set_active b s = s\<lparr>cp_enable_active := b\<rparr>"
  by (simp add: enable_set_active_def)

definition start_view :: "capplet \<Rightarrow> pref_store \<times> bool \<times> bool \<times> bool \<times> bool \<times> bool" where
  "start_view s =
     (cp_store s, cp_lock_active s, cp_lock_connected s, cp_enable_connected s, cp_activate_connected s, cp_lock_value_connected s)"

lemma start_view_unconnected:
  "start_view s = (st, a, b, c, False, False) \<Longrightarrow> start_view (ui_set_activate_delay v s) = (st, a, b, c, False, False)"
  "start_view s = (st, a, b, c, False, False) \<Longrightarrow> start_view (ui_set_lock_delay v s) = (st, a, b, c, False, False)"
  by (auto simp: start_view_def ui_set_activate_delay_def ui_set_lock_delay_def Let_def)

lemma start_view_scales:
  assumes "start_view s = (st, a, b, c, False, False)"
  shows "start_view (init_scales s) = (st, a, b, c, False, False)"
proof -
  have u: "start_view (s\<lparr>cp_activate_sensitive := b\<rparr>) = start_view s" "start_view (s\<lparr>cp_lock_value_sensitive := b\<rparr>) = start_view s" for s b
    by (simp_all add: start_view_def)
  show ?thesis
    by (simp add: init_scales_def split_def Let_def u start_view_unconnected assms)
qed

lemma start_view_boxes:
  assumes "start_view s = (st, False, False, False, False, False)"
  shows "start_view (init_boxes s) =
     ((if st_lock_disabled st \<and> st_lock st \<and> st_writable st KEY_LOCK_ENABLED then st\<lparr>st_lock := False\<rparr> else st),
      st_lock st \<and> \<not> st_lock_disabled st, True, True, False, False)"
proof -
  have b: "start_view (lock_set_active b t) =
      ((if a \<noteq> b \<and> l \<and> st_writable st KEY_LOCK_ENABLED then st\<lparr>st_lock := b\<rparr> else st), b, l, e, x, y)"
    if "start_view t = (st, a, l, e, x, y)" for b t st a l e x y
    using that store_lock_active [of b t]
    by (auto simp: start_view_def lock_set_active_def lock_checkbox_toggled_def config_set_lock_def settings_set_def Let_def)
  have u: "start_view (t\<lparr>cp_lock_sensitive := b\<rparr>) = start_view t" "start_view (t\<lparr>cp_enable_sensitive := b\<rparr>) = start_view t"
    "start_view (t\<lparr>cp_enable_active := b\<rparr>) = start_view t" for t b
    by (simp_all add: start_view_def)
  have d: "start_view (ui_disable_lock b' t) =
      ((if b' \<and> a \<and> l \<and> st_writable st KEY_LOCK_ENABLED then st\<lparr>st_lock := False\<rparr> else st), a \<and> \<not> b', l, e, x, y)"
    if "start_view t = (st, a, l, e, x, y)" for b' t st a l e x y
    using that b [of "t\<lparr>cp_lock_sensitive := \<not> b'\<rparr>" st a l e x y False] by (auto simp: ui_disable_lock_def u Let_def)
  have e: "start_view (ui_set_enabled v t) =
      ((if st_lock_disabled st \<and> a \<and> l \<and> st_writable st KEY_LOCK_ENABLED then st\<lparr>st_lock := False\<rparr> else st),
       a \<and> \<not> st_lock_disabled st, l, False, x, y)"
    if "start_view t = (st, a, l, False, x, y)" for v t st a l x y
  proof -
    have ne: "\<not> cp_enable_connected t" "cp_store t = st" using that by (simp_all add: start_view_def)
    have "enable_set_active v t = t\<lparr>cp_enable_active := v\<rparr> \<or> enable_set_active v t = t"
      using ne(1) by (simp add: enable_set_active_def Let_def)
    then have ev: "start_view (enable_set_active v t) = (st, a, l, False, x, y)" using that u(3) by auto
    then have st: "cp_store (enable_set_active v t) = st" by (simp add: start_view_def)
    show ?thesis
      unfolding ui_set_enabled_def Let_def
      by (subst d [where st = st and a = a and l = l and e = False and x = x and y = y])
        (auto simp: u ev st config_get_lock_disabled_def)
  qed
  have cs: "cp_store s = st" using assms by (simp add: start_view_def)
  let ?t = "lock_set_active (st_lock st) s"
  let ?t' = "if \<not> snd (config_get_lock st) then ?t\<lparr>cp_lock_sensitive := False\<rparr> else ?t"
  have "start_view ?t = (st, st_lock st, False, False, False, False)" using b [OF assms] by simp
  then have "start_view ?t' = (st, st_lock st, False, False, False, False)" by (simp add: u)
  then have "start_view (?t'\<lparr>cp_lock_connected := True, cp_picture := f\<rparr>) = (st, st_lock st, True, False, False, False)" for f
    by (simp add: start_view_def)
  note f = e [OF this] this
  have g: "start_view (t\<lparr>cp_enable_connected := True\<rparr>) = (case start_view t of (st, a, l, e, x, y) \<Rightarrow> (st, a, l, True, x, y))" for t
    by (simp add: start_view_def)
  have h: "start_view (if q then t\<lparr>cp_enable_sensitive := False\<rparr> else t) = start_view t" for q t by (simp add: u)
  show ?thesis
    unfolding init_boxes_def split_def Let_def g h cs config_get_lock_def fst_conv f(1) [unfolded config_get_lock_def]
    using f(1) [unfolded config_get_lock_def snd_conv] by (simp add: config_get_lock_def)
qed

text \<open>The application after its start.\<close>

lemma init_returns:
  defines "lock st ge \<equiv> st_lock st \<and> \<not> (st_lock_disabled st \<or> ge_ruid ge = 0)"
  shows "\<exists>s. init_capplet ge st = Inr s \<and> cp_store s = st
     \<lparr>st_lock := (if st_writable st KEY_LOCK_ENABLED then lock st ge else st_lock st),
      st_themes := (if st_mode st = GS_MODE_RANDOM \<and> st_writable st KEY_THEMES then get_all_theme_ids (ge_themes ge) else st_themes st)\<rparr>"
proof -
  define s0 where "s0 = (if \<not> ge_have_gpm ge then (capplet_start st)\<lparr>cp_gpm_shown := False\<rparr> else capplet_start st)"
  define s1 where "s1 = init_themes ge (init_boxes (init_scales s0))"
  have "start_view s0 = (st, False, False, False, False, False)" by (simp add: s0_def capplet_start_def start_view_def)
  note v = start_view_boxes [OF start_view_scales [OF this]]
  have "list_view s1 = ([], None, gs_job_new)"
    by (simp add: s1_def init_themes_def init_boxes_views init_scales_views) (simp add: s0_def capplet_start_def view_defs)
  then have "cp_job s1 = gs_job_new" by (simp add: list_view_def)
  then have j: "gs_job_set_widget (ge_procs ge) (Some w) (cp_job s1) = Inr (gs_job_new\<lparr>j_widget := Some w\<rparr>)" for w
    using gs_job_new_for_widget_eq [unfolded gs_job_new_for_widget_def] by simp
  show ?thesis
    unfolding init_capplet_def Let_def s0_def [symmetric] s1_def [symmetric] j rbind_simps
    using v
    by (auto simp: s1_def init_themes_def settings_set_def start_view_def check_is_root_user_def setup_for_root_user_def
        store_lock_active lock_def config_get_mode_def)
qed

section \<open>Choosing a theme\<close>

lemma job_set_theme_returns:
  assumes "themes_parse (ge_themes ge)"
  shows "\<exists>c. job_set_theme ge theme s = Inr (s\<lparr>cp_job := gs_job_set_command c (cp_job s)\<rparr>)"
proof (cases "case theme of None \<Rightarrow> None | Some t \<Rightarrow> gs_theme_manager_lookup_theme_info (ge_themes ge) t")
  case (Some info)
  then obtain t where "theme = Some t" "gs_theme_manager_lookup_theme_info (ge_themes ge) t = Some info"
    by (cases theme) simp_all
  then show ?thesis using lookup_exec_returns [OF assms] by (fastforce simp: job_set_theme_def)
qed (auto simp: job_set_theme_def)

lemma preview_returns:
  assumes "children_obey (ge_procs ge)" "themes_parse (ge_themes ge)" "job_ok (cp_job s)"
  shows "\<exists>j. preview_set_theme ge theme name s = Inr (s\<lparr>cp_label := name, cp_job := j\<rparr>)"
proof -
  obtain r j where j: "gs_job_stop (ge_procs ge) (cp_job s) = Inr (r, j)" using gs_job_stop_post [OF assms(1,3)] by blast
  let ?s = "s\<lparr>cp_job := j, cp_label := name\<rparr>"
  have run: "\<exists>j'. rbind (job_set_theme ge t ?s) (\<lambda>s. ret (job_start ge s)) = Inr (s\<lparr>cp_label := name, cp_job := j'\<rparr>)" for t
  proof -
    obtain c where "job_set_theme ge t ?s = Inr (?s\<lparr>cp_job := gs_job_set_command c (cp_job ?s)\<rparr>)"
      using job_set_theme_returns [OF assms(2)] by blast
    then have "rbind (job_set_theme ge t ?s) (\<lambda>s. ret (job_start ge s)) =
        Inr (s\<lparr>cp_label := name, cp_job := snd (gs_job_start (ge_procs ge) (gs_job_set_command c j))\<rparr>)"
      by (simp add: job_start_def)
    then show ?thesis by blast
  qed
  have "\<exists>j'. ?s = s\<lparr>cp_label := name, cp_job := j'\<rparr>" by (intro exI [of _ j]) simp
  then show ?thesis unfolding preview_set_theme_def j using run by (simp add: Let_def)
qed

lemma set_theme_store:
  assumes "st_writable (cp_store s) KEY_MODE" "st_writable (cp_store s) KEY_THEMES" "t \<noteq> []"
  shows "cp_store (config_set_theme te t s) = (cp_store s)
     \<lparr>st_mode := (if t = ''__blank-only'' then GS_MODE_BLANK_ONLY else if t = ''__random'' then GS_MODE_RANDOM else GS_MODE_SINGLE),
      st_themes := (if t = ''__blank-only'' then [] else if t = ''__random'' then get_all_theme_ids te else [t])\<rparr>"
  using assms by (auto simp: config_set_theme_def config_set_mode_def settings_set_def)

lemma select_row_returns:
  assumes "children_obey (ge_procs ge)" "themes_parse (ge_themes ge)" "job_ok (cp_job s)"
    and "i < length (cp_rows s)" "ge_selectable ge (cp_rows s ! i)" "cp_selected s \<noteq> Some i" "row_id (cp_rows s ! i) = Some t"
  shows "\<exists>s1. select_row ge i s = Inr (config_set_theme (ge_themes ge) t s1) \<and> cp_store s1 = cp_store s
     \<and> cp_rows s1 = cp_rows s \<and> cp_selected s1 = Some i"
proof -
  have "job_ok (cp_job (s\<lparr>cp_selected := Some i\<rparr>))" using assms(3) by simp
  from preview_returns [OF assms(1,2) this, of t "row_name (cp_rows s ! i)"] show ?thesis
    using assms(4-7) by (auto simp: select_row_def tree_selection_changed_cb_def Let_def)
qed

text \<open>The settings as the daemon reads them; the keys the application does not know are those of \<open>g\<close>.\<close>

definition daemon_gsettings :: "pref_store \<Rightarrow> gsettings \<Rightarrow> gsettings" where
  "daemon_gsettings st g =
     g\<lparr>gset_boolean := (gset_boolean g)(KEY_LOCK_ENABLED := st_lock st, KEY_IDLE_ACTIVATION_ENABLED := st_enabled st),
       gset_int := (gset_int g)(KEY_LOCK_DELAY := st_lock_delay st),
       gset_enum := (gset_enum g)(KEY_MODE := st_mode st), gset_strv := (gset_strv g)(KEY_THEMES := st_themes st)\<rparr>"

definition daemon_settings :: "pref_store \<Rightarrow> pref_settings \<Rightarrow> pref_settings" where
  "daemon_settings st ps =
     ps\<lparr>ps_settings := daemon_gsettings st (ps_settings ps),
        ps_lockdown_settings := (ps_lockdown_settings ps)\<lparr>gset_boolean := (gset_boolean (ps_lockdown_settings ps))(KEY_LOCK_DISABLE := st_lock_disabled st)\<rparr>,
        ps_session_settings := (ps_session_settings ps)\<lparr>gset_int := (gset_int (ps_session_settings ps))(KEY_IDLE_DELAY := st_idle_delay st)\<rparr>\<rparr>"

lemma snoc_all: "foldl (\<lambda>l v. l @ [v]) ys xs = ys @ xs"
  by (induction xs arbitrary: ys) simp_all

lemma daemon_reads:
  "p_mode (gs_prefs_init (daemon_settings st ps)) = st_mode st" "p_themes (gs_prefs_init (daemon_settings st ps)) = st_themes st"
  "p_lock_enabled (gs_prefs_init (daemon_settings st ps)) = st_lock st"
  "p_lock_disabled (gs_prefs_init (daemon_settings st ps)) = st_lock_disabled st"
  "p_timeout (gs_prefs_init (daemon_settings st ps)) = delay 1 10 (st_idle_delay st) * 60000"
  "p_lock_timeout (gs_prefs_init (daemon_settings st ps)) = delay 0 0 (st_lock_delay st) * 60000"
  by (simp_all add: gs_prefs_init_def load_eq daemon_settings_def daemon_gsettings_def snoc_all Let_def) (simp_all add: key_defs)

section \<open>Properties\<close>

text \<open>
  C32: the application stays well-formed.  In every reachable state the selected row exists, the scales are
  within their bounds, the job of the preview is in order, and when the lock is locked down and the
  signal of that has arrived, the check box is off and cannot be switched on.
\<close>

theorem capplet_well_formed:
  assumes "capplet_reachable s"
  shows "(\<forall>i. cp_selected s = Some i \<longrightarrow> i < length (cp_rows s)) \<and> 1 \<le> cp_activate_value s \<and> cp_activate_value s \<le> 120
     \<and> 0 \<le> cp_lock_value s \<and> cp_lock_value s \<le> 120 \<and> job_ok (cp_job s)
     \<and> (st_lock_disabled (cp_store s) \<and> KEY_LOCK_DISABLE \<notin> set (cp_changed s) \<longrightarrow> \<not> cp_lock_active s \<and> \<not> cp_lock_sensitive s)"
  using reachable_capplet_ok [OF assms] by (auto simp: capplet_ok_def view_defs)

definition sample_store :: pref_store where
  "sample_store =
     \<lparr>st_lock = True, st_enabled = True, st_lock_delay = 0, st_mode = GS_MODE_SINGLE, st_themes = [''cube''], st_picture = [],
      st_idle_delay = 5, st_lock_disabled = False, st_writable = (\<lambda>_. True)\<rparr>"

definition sample_capplet_env :: capplet_env where
  "sample_capplet_env =
     \<lparr>ge_themes = sample_themes, ge_procs = sample_procs, ge_random = (\<lambda>_. 0),
      ge_collate = (\<lambda>a b. 0), ge_selectable = (\<lambda>r. \<not> separator_func r), ge_preview_area = 1, ge_fullscreen_area = 2,
      ge_ruid = 1000, ge_have_gpm = True\<rparr>"

lemma sample_capplet_procs: "spawn_ok (ge_procs sample_capplet_env)" "children_obey (ge_procs sample_capplet_env)"
  "themes_parse (ge_themes sample_capplet_env)"
  by (simp_all add: sample_capplet_env_def sample_procs_def spawn_ok_def children_obey_def sample_themes_parse)

lemma sample_rows: "map row_id (sorted_rows sample_capplet_env) = [Some ''__blank-only'', Some ''__random'', Some ''__separator'', Some ''cube'']"
  by (simp add: sorted_rows_def populate_model_def sample_capplet_env_def sample_themes_def gs_theme_manager_get_info_list_def
      gs_theme_info_new_from_matemenu_tree_entry_def before_last_None compare_theme_def compare_theme_names_def)

theorem capplet_well_formed_witness:
  "\<exists>s. init_capplet sample_capplet_env (sample_store\<lparr>st_lock_disabled := True\<rparr>) = Inr s \<and> job_ok (cp_job s) \<and> cp_activate_value s \<le> 120"
proof -
  obtain s where s: "init_capplet sample_capplet_env (sample_store\<lparr>st_lock_disabled := True\<rparr>) = Inr s"
    using init_returns [of sample_capplet_env "sample_store\<lparr>st_lock_disabled := True\<rparr>"] by blast
  from capplet_well_formed [OF capplet_reachable.start [OF sample_capplet_procs(1) s]] show ?thesis using s by blast
qed

text \<open>
  Opening the application changes next to nothing.  It always opens, and the settings stay as they are,
  except that the lock is switched off when it is locked down or the user is root, and that the list
  of themes is brought up to date when one is chosen at random.
\<close>

theorem opening_writes:
  "\<exists>s. init_capplet ge st = Inr s \<and> cp_store s = st
     \<lparr>st_lock := (if st_writable st KEY_LOCK_ENABLED then st_lock st \<and> \<not> (st_lock_disabled st \<or> ge_ruid ge = 0) else st_lock st),
      st_themes := (if st_mode st = GS_MODE_RANDOM \<and> st_writable st KEY_THEMES then get_all_theme_ids (ge_themes ge) else st_themes st)\<rparr>"
  using init_returns by auto

text \<open>
  C33: a choice arrives.  When the command lines of the installed themes parse, the keys for the mode and the themes
  can be written, and the program of the preview exits when it is told to, selecting another row always
  returns; afterwards the application finds that theme as the chosen one, and the preferences the daemon reads
  say the same: nothing, any theme at random, or just this one.
\<close>

theorem chosen_theme_arrives:
  assumes "capplet_reachable s" "children_obey (ge_procs ge)" "themes_parse (ge_themes ge)"
    and "st_writable (cp_store s) KEY_MODE" "st_writable (cp_store s) KEY_THEMES"
    and "i < length (cp_rows s)" "ge_selectable ge (cp_rows s ! i)" "cp_selected s \<noteq> Some i"
    and "row_id (cp_rows s ! i) = Some t" "t \<noteq> []"
  shows "\<exists>s'. select_row ge i s = Inr s' \<and> config_get_theme (cp_store s') = (Some t, True)
     \<and> (let p = gs_prefs_init (daemon_settings (cp_store s') ps) in
        if t = ''__blank-only'' then p_mode p = GS_MODE_BLANK_ONLY
        else if t = ''__random'' then p_mode p = GS_MODE_RANDOM \<and> p_themes p = get_all_theme_ids (ge_themes ge)
        else p_mode p = GS_MODE_SINGLE \<and> p_themes p = [t])"
proof -
  obtain s1 where s1: "select_row ge i s = Inr (config_set_theme (ge_themes ge) t s1)" "cp_store s1 = cp_store s"
    using select_row_returns [OF assms(2,3) capplet_okD [OF reachable_capplet_ok [OF assms(1)]] assms(6-9)] by blast
  define st where "st = cp_store (config_set_theme (ge_themes ge) t s1)"
  have st: "st_mode st = (if t = ''__blank-only'' then GS_MODE_BLANK_ONLY else if t = ''__random'' then GS_MODE_RANDOM else GS_MODE_SINGLE)"
    "st_themes st = (if t = ''__blank-only'' then [] else if t = ''__random'' then get_all_theme_ids (ge_themes ge) else [t])"
    "st_writable st = st_writable (cp_store s)"
    using set_theme_store [of s1 t "ge_themes ge"] assms(4,5,10) s1(2) by (simp_all add: st_def)
  have "config_get_theme st = (Some t, True)"
    using assms(4,5) by (simp add: config_get_theme_def config_get_mode_def st)
  then show ?thesis
    using s1(1) by (intro exI [of _ "config_set_theme (ge_themes ge) t s1"]) (simp add: daemon_reads st st_def [symmetric] Let_def)
qed
definition phase_view :: "capplet \<Rightarrow> bool \<times> bool" where
  "phase_view s = (cp_tree_ready s, cp_quit s)"

lemma phase_view_simps:
  "phase_view (lock_set_active b s) = phase_view s" "phase_view (enable_set_active b s) = phase_view s"
  "phase_view (ui_set_activate_delay v s) = phase_view s" "phase_view (ui_set_lock_delay v s) = phase_view s"
  "phase_view (s\<lparr>cp_lock_sensitive := b\<rparr>) = phase_view s" "phase_view (s\<lparr>cp_activate_sensitive := b\<rparr>) = phase_view s"
  "phase_view (s\<lparr>cp_lock_value_sensitive := b\<rparr>) = phase_view s" "phase_view (s\<lparr>cp_enable_sensitive := b\<rparr>) = phase_view s"
  "phase_view (s\<lparr>cp_lock_connected := b, cp_picture := f\<rparr>) = phase_view s" "phase_view (s\<lparr>cp_enable_connected := b\<rparr>) = phase_view s"
  "phase_view (settings_set key g s) = phase_view s" "phase_view (s\<lparr>cp_job := j\<rparr>) = phase_view s"
  by (simp_all add: phase_view_def widget_ops store_writers Let_def)

lemma phase_view_disable: "phase_view (ui_disable_lock b s) = phase_view s"
  by (simp add: ui_disable_lock_def Let_def phase_view_simps)

lemma init_phase: "init_capplet ge st = Inr s \<Longrightarrow> \<not> cp_tree_ready s \<and> \<not> cp_quit s"
proof -
  assume i: "init_capplet ge st = Inr s"
  have e: "phase_view (ui_set_enabled b s) = phase_view s" for b s
    by (simp add: ui_set_enabled_def Let_def phase_view_simps phase_view_disable)
  have k: "phase_view (init_themes ge (init_boxes (init_scales s0))) = phase_view s0" for s0
    by (simp add: init_themes_def init_boxes_def init_scales_def split_def Let_def phase_view_simps e)
  have "phase_view ((setup_for_root_user s)\<lparr>cp_activate_connected := a, cp_lock_value_connected := b\<rparr>) = phase_view s" for a b s
    using phase_view_simps(1) [of False s] by (simp add: setup_for_root_user_def phase_view_def)
  then have "phase_view s = (False, False)"
    using i k [of "capplet_start st"] k [of "(capplet_start st)\<lparr>cp_gpm_shown := False\<rparr>"]
    by (auto simp: init_capplet_def Let_def res_simps phase_view_simps) (auto simp: phase_view_def capplet_start_def)
  then show ?thesis by (simp add: phase_view_def)
qed

lemma set_theme_rows: "cp_rows (config_set_theme te t s) = cp_rows s" "cp_selected (config_set_theme te t s) = cp_selected s"
  using views_config(8) [of te t s] by (simp_all add: list_view_def)

lemma sample_running:
  "\<exists>s. capplet_reachable s \<and> cp_rows s = sorted_rows sample_capplet_env \<and> cp_selected s = Some 3 \<and> st_writable (cp_store s) = (\<lambda>_. True)"
proof -
  let ?ge = sample_capplet_env
  obtain s where s: "init_capplet ?ge sample_store = Inr s" "cp_store s = sample_store"
    using init_returns [of ?ge sample_store] by (auto simp: sample_store_def sample_capplet_env_def)
  have r: "capplet_reachable s" by (rule capplet_reachable.start [OF sample_capplet_procs(1) s(1)])
  have ns: "\<not> cp_tree_ready s" "\<not> cp_quit s" using init_phase [OF s(1)] by simp_all
  let ?s = "setup_treeview ?ge s"
  have rows: "row_id (cp_rows ?s ! 3) = Some ''cube''" "length (cp_rows ?s) = 4" "row_index ''cube'' (cp_rows ?s) = Some 3"
    using sample_rows by (auto simp: setup_treeview_def map_eq_Cons_conv)
  have "ge_selectable ?ge (cp_rows ?s ! 3)" using rows(1) by (simp add: sample_capplet_env_def separator_func_def)
  moreover have "job_ok (cp_job ?s)" using capplet_okD [OF reachable_capplet_ok [OF r]] by (simp add: setup_treeview_def)
  ultimately obtain s1 where s1: "select_row ?ge 3 ?s = Inr (config_set_theme (ge_themes ?ge) ''cube'' s1)"
      "cp_store s1 = cp_store ?s" "cp_rows s1 = cp_rows ?s" "cp_selected s1 = Some 3"
    using select_row_returns [OF sample_capplet_procs(2,3), of ?s 3 "''cube''"] rows by (auto simp: setup_treeview_def)
  have "capplet_react ?ge Setup_Tree s = Inr (config_set_theme (ge_themes ?ge) ''cube'' s1)"
    using s1(1) rows(3) s(2)
    by (simp add: capplet_react_def setup_treeview_idle_def setup_treeview_selection_def config_get_theme_def config_get_mode_def
        setup_treeview_def sample_store_def)
  moreover have "capplet_ready Setup_Tree s" using ns by (simp add: capplet_ready_def)
  ultimately have "capplet_reachable (config_set_theme (ge_themes ?ge) ''cube'' s1)"
    by (intro capplet_reachable.step [OF r sample_capplet_procs(1)])
  moreover have "st_writable (cp_store (config_set_theme (ge_themes ?ge) ''cube'' s1)) = (\<lambda>_. True)"
    using s1(2) s(2) by (subst set_theme_store) (simp_all add: setup_treeview_def sample_store_def)
  ultimately show ?thesis using s1(3,4) by (auto simp: set_theme_rows setup_treeview_def)
qed

theorem chosen_theme_arrives_witness:
  "\<exists>s s'. capplet_reachable s \<and> cp_selected s = Some 3 \<and> select_row sample_capplet_env 0 s = Inr s'
     \<and> config_get_theme (cp_store s') = (Some ''__blank-only'', True)"
proof -
  obtain s where s: "capplet_reachable s" "cp_rows s = sorted_rows sample_capplet_env" "cp_selected s = Some 3" "st_writable (cp_store s) = (\<lambda>_. True)"
    using sample_running by blast
  have r: "row_id (cp_rows s ! 0) = Some ''__blank-only''" "0 < length (cp_rows s)"
    using sample_rows s(2) by (auto simp: map_eq_Cons_conv)
  then have "ge_selectable sample_capplet_env (cp_rows s ! 0)" by (simp add: sample_capplet_env_def separator_func_def)
  note c = chosen_theme_arrives [OF s(1) sample_capplet_procs(2,3) _ _ r(2) this _ r(1)]
  have "\<exists>s'. select_row sample_capplet_env 0 s = Inr s' \<and> config_get_theme (cp_store s') = (Some ''__blank-only'', True)"
    using c [of "sample_pref_settings False"] s by auto
  then show ?thesis using s(1,3) by blast
qed

section \<open>The scales and the daemon\<close>

lemma init_capplet_cases:
  assumes "init_capplet ge st = Inr s"
  obtains s1 j where "start_view s1 = (st, False, False, False, False, False)" "lock_view s1 = (st_lock_disabled st, False, False, True)"
    "s = (let t = (init_themes ge (init_boxes (init_scales s1)))\<lparr>cp_job := j\<rparr> in if check_is_root_user ge then setup_for_root_user t else t)
        \<lparr>cp_activate_connected := True, cp_lock_value_connected := True\<rparr>"
proof -
  define s1 where "s1 = (if \<not> ge_have_gpm ge then (capplet_start st)\<lparr>cp_gpm_shown := False\<rparr> else capplet_start st)"
  have "start_view s1 = (st, False, False, False, False, False)" "lock_view s1 = (st_lock_disabled st, False, False, True)"
    by (simp_all add: s1_def capplet_start_def start_view_def lock_view_def)
  then show thesis
    using assms that unfolding init_capplet_def Let_def s1_def [symmetric] by (auto simp: res_simps)
qed

lemma init_values:
  assumes "init_capplet ge st = Inr s"
  shows "value_view s = (clamp activate_delay_scale (fst (config_get_activate_delay st)), clamp lock_delay_scale (fst (config_get_lock_delay st)))"
proof -
  obtain s1 j where s1: "start_view s1 = (st, False, False, False, False, False)"
    and s: "s = (let t = (init_themes ge (init_boxes (init_scales s1)))\<lparr>cp_job := j\<rparr> in if check_is_root_user ge then setup_for_root_user t else t)
        \<lparr>cp_activate_connected := True, cp_lock_value_connected := True\<rparr>"
    by (rule init_capplet_cases [OF assms])
  have c: "cp_store s1 = st" "cp_store (ui_set_activate_delay v s1) = st" for v
    using s1 start_view_unconnected(1) [OF s1, of v] by (simp_all add: start_view_def)
  have r: "value_view (setup_for_root_user t) = value_view t" for t
    using views_boxes(2) [of False t] by (simp add: setup_for_root_user_def value_view_def)
  have "value_view (t\<lparr>cp_activate_connected := True, cp_lock_value_connected := True\<rparr>) = value_view t" "value_view (t\<lparr>cp_job := j\<rparr>) = value_view t" for t
    by (simp_all add: value_view_def)
  then show ?thesis
    unfolding s Let_def by (simp add: r init_themes_def init_boxes_views init_scales_views c)
qed

text \<open>
  The scales show what the daemon does.  When the application opens with delays that the scales can
  hold, both scales show the delays in minutes that the daemon uses for the same settings.
\<close>

theorem scales_show_daemon:
  assumes "init_capplet ge st = Inr s" "1 \<le> st_idle_delay st" "st_idle_delay st \<le> 120" "0 \<le> st_lock_delay st" "st_lock_delay st \<le> 120"
  shows "60000 * cp_activate_value s = p_timeout (gs_prefs_init (daemon_settings st ps))
     \<and> 60000 * cp_lock_value s = p_lock_timeout (gs_prefs_init (daemon_settings st ps))"
  using init_values [OF assms(1)] assms(2-5)
  by (auto simp: value_view_def daemon_reads delay_def clamp_def activate_delay_scale_def lock_delay_scale_def
      config_get_activate_delay_def config_get_lock_delay_def)

theorem scales_show_daemon_witness:
  "\<exists>s. init_capplet sample_capplet_env sample_store = Inr s
     \<and> 60000 * cp_activate_value s = p_timeout (gs_prefs_init (daemon_settings sample_store (sample_pref_settings False)))"
proof -
  obtain s where s: "init_capplet sample_capplet_env sample_store = Inr s" using init_returns by blast
  have "1 \<le> st_idle_delay sample_store" "st_idle_delay sample_store \<le> 120" "0 \<le> st_lock_delay sample_store" "st_lock_delay sample_store \<le> 120"
    by (simp_all add: sample_store_def)
  from scales_show_daemon [OF s this] show ?thesis using s by blast
qed

text \<open>Without a delay the application shows one minute, and the daemon waits for ten.\<close>

lemma no_delay_shown_wrong:
  assumes "init_capplet ge st = Inr s" "st_idle_delay st < 1"
  shows "cp_activate_value s = 1" "p_timeout (gs_prefs_init (daemon_settings st ps)) = 600000"
  using init_values [OF assms(1)] assms(2)
  by (auto simp: value_view_def daemon_reads delay_def clamp_def activate_delay_scale_def config_get_activate_delay_def)

text \<open>
  A delay that is set from outside beyond the scale is overwritten with the end of the scale as soon as
  the signal of the change arrives.
\<close>

lemma outside_delay_overwritten:
  assumes "cp_activate_connected s" "st_writable (cp_store s) KEY_IDLE_DELAY" "120 < st_idle_delay (cp_store s)" "cp_activate_value s \<noteq> 120"
  shows "\<exists>s'. prefs_key_changed_cb ge KEY_IDLE_DELAY s = Inr s' \<and> st_idle_delay (cp_store s') = 120"
  using assms
  by (simp add: prefs_key_changed_cb_def ui_set_activate_delay_def clamp_def activate_delay_scale_def activate_delay_value_changed_cb_def
      config_set_activate_delay_def settings_set_def Let_def) (simp add: key_defs)

text \<open>
  The check box of the lock is offered although it cannot work.  Unless the lock is locked down or the
  user is root, the box can be switched after the start, even if the key cannot be written: the code
  that makes it insensitive is undone by the next call.
\<close>

theorem unwritable_lock_offered:
  assumes "init_capplet ge st = Inr s" "\<not> st_writable st KEY_LOCK_ENABLED" "\<not> st_lock_disabled st" "ge_ruid ge \<noteq> 0"
  shows "cp_lock_sensitive s \<and> st_lock (cp_store (lock_set_active (\<not> cp_lock_active s) s)) = st_lock st"
proof -
  obtain s1 j where s1: "start_view s1 = (st, False, False, False, False, False)" "lock_view s1 = (st_lock_disabled st, False, False, True)"
    and s: "s = (let t = (init_themes ge (init_boxes (init_scales s1)))\<lparr>cp_job := j\<rparr> in if check_is_root_user ge then setup_for_root_user t else t)
        \<lparr>cp_activate_connected := True, cp_lock_value_connected := True\<rparr>"
    by (rule init_capplet_cases [OF assms(1)])
  let ?t = "init_boxes (init_scales s1)"
  have v: "start_view ?t = (st, st_lock st, True, True, False, False)"
    using start_view_boxes [OF start_view_scales [OF s1(1)]] assms(3) by simp
  obtain p a where "lock_view ?t = (st_lock_disabled (cp_store ?t), p, a, \<not> st_lock_disabled (cp_store ?t))"
    using init_boxes_views(3) [of "init_scales s1"] by (auto simp: lock_view_def)
  moreover have "cp_store ?t = st" using v by (simp add: start_view_def)
  ultimately have "cp_lock_sensitive ?t" "cp_store ?t = st" using assms(3) by (simp_all add: lock_view_def)
  then have "cp_lock_sensitive s" "\<not> st_writable (cp_store s) KEY_LOCK_ENABLED" "st_lock (cp_store s) = st_lock st"
    using assms(2,4) unfolding s Let_def check_is_root_user_def by (auto simp: init_themes_def settings_set_def)
  then show ?thesis by (simp add: store_lock_active)
qed

theorem unwritable_lock_offered_witness:
  "\<exists>s. init_capplet sample_capplet_env (sample_store\<lparr>st_writable := (\<lambda>_. False)\<rparr>) = Inr s \<and> cp_lock_sensitive s"
proof -
  let ?st = "sample_store\<lparr>st_writable := (\<lambda>_. False)\<rparr>"
  obtain s where s: "init_capplet sample_capplet_env ?st = Inr s" using init_returns by blast
  have "\<not> st_writable ?st KEY_LOCK_ENABLED" "\<not> st_lock_disabled ?st" "ge_ruid sample_capplet_env \<noteq> 0"
    by (simp_all add: sample_store_def sample_capplet_env_def)
  from unwritable_lock_offered [OF s this] show ?thesis using s by blast
qed

text \<open>A root user gets the check box back when the screensaver is switched on or off.\<close>

lemma root_lock_comes_back:
  assumes "\<not> st_lock_disabled (cp_store s)"
  shows "\<exists>s'. prefs_key_changed_cb ge KEY_IDLE_ACTIVATION_ENABLED s = Inr s' \<and> cp_lock_sensitive s'"
proof -
  obtain d p a n where v: "lock_view s = (d, p, a, n)" by (metis prod_cases4)
  then have "\<not> d" using assms by (simp add: lock_view_def)
  then show ?thesis
    using lock_view_ui(2) [of "st_enabled (cp_store s)" s] v by (simp add: prefs_key_changed_cb_def) (simp add: lock_view_def)
qed

end
