(* ===== verification/Copy_Theme.thy ===== *)
theory Copy_Theme
  imports Prelude
begin

text \<open>
  \<open>src/copy-theme-dialog.c\<close>: the dialog of the preferences application that copies dropped theme files to
  the user's directory, one after the other and without blocking.  The files are numbers; what GIO
  makes of a copy is an event.  The application destroys the dialog when it is complete.
\<close>

section \<open>State\<close>

text \<open>The flags of \<open>g_file_copy_async\<close> that matter here: whether a file that is there may be replaced.\<close>

datatype copy_flags = G_FILE_COPY_NONE | G_FILE_COPY_OVERWRITE

type_synonym theme_dir = "string \<Rightarrow> nat option"

text \<open>
  \<open>cd_rest\<close> is what the pointers \<open>file\<close> and \<open>basename\<close> still reach of the two lists; \<open>cd_copying\<close> is the
  copy that is under way, with its destination and its flags; \<open>cd_text\<close> the numbers in the progress bar;
  \<open>cd_invalid\<close> the files for which a message was shown.
\<close>

record copy_dialog =
  cd_theme_dir :: theme_dir
  cd_all :: "(nat \<times> string) list"
  cd_rest :: "(nat \<times> string) list"
  cd_index :: nat
  cd_total_files :: nat
  cd_cancelled :: bool
  cd_copying :: "(nat \<times> string \<times> copy_flags) option"
  cd_text :: "(nat \<times> nat) option"
  cd_invalid :: "nat list"
  cd_timeout :: bool
  cd_shown :: bool
  cd_complete :: bool
  cd_destroyed :: bool

section \<open>Operations\<close>

definition add_file_to_dialog :: "nat \<times> string option \<Rightarrow> copy_dialog \<Rightarrow> copy_dialog" where
  "add_file_to_dialog f d =
     (let (file, raw_basename) = f;
          basename = (case raw_basename of
             None \<Rightarrow> None
           | Some r \<Rightarrow> if has_prefix (rev ''.desktop'') (rev r) then Some (take (length r - 8) r) else None) in
      case basename of
        Some b \<Rightarrow> d\<lparr>cd_all := cd_all d @ [(file, b)], cd_total_files := Suc (cd_total_files d)\<rparr>
      | None \<Rightarrow> d\<lparr>cd_invalid := cd_invalid d @ [file]\<rparr>)"

definition copy_theme_dialog_new :: "theme_dir \<Rightarrow> (nat \<times> string option) list \<Rightarrow> copy_dialog" where
  "copy_theme_dialog_new dir files =
     (let d = fold add_file_to_dialog files
            \<lparr>cd_theme_dir = dir, cd_all = [], cd_rest = [], cd_index = 0, cd_total_files = 0, cd_cancelled = False,
             cd_copying = None, cd_text = None, cd_invalid = [], cd_timeout = False, cd_shown = False,
             cd_complete = False, cd_destroyed = False\<rparr> in
      d\<lparr>cd_rest := cd_all d\<rparr>)"

definition copy_finished :: "copy_dialog \<Rightarrow> bool" where
  "copy_finished d = (cd_cancelled d \<or> cd_rest d = [])"

text \<open>\<open>theme_copy_complete_cb\<close> of the application, as far as the dialog is concerned.\<close>

definition emit_complete :: "copy_dialog \<Rightarrow> copy_dialog" where
  "emit_complete d = d\<lparr>cd_complete := True, cd_destroyed := True\<rparr>"

definition desktop_name :: "string \<Rightarrow> string" where
  "desktop_name basename = basename @ ''.desktop''"

definition numbered_name :: "string \<Rightarrow> 32 word \<Rightarrow> string" where
  "numbered_name basename n = basename @ ''-'' @ dec_digits (unat n) @ ''.desktop''"

definition copy_theme_dialog_copy_next :: "copy_dialog \<Rightarrow> copy_dialog" where
  "copy_theme_dialog_copy_next d =
     (if copy_finished d then emit_complete d
      else (case hd (cd_rest d) of (file, basename) \<Rightarrow> d\<lparr>cd_copying := Some (file, desktop_name basename, G_FILE_COPY_NONE)\<rparr>))"

definition copy_theme_dialog_update_num_files :: "copy_dialog \<Rightarrow> copy_dialog" where
  "copy_theme_dialog_update_num_files d = d\<lparr>cd_text := Some (cd_index d, cd_total_files d)\<rparr>"

definition copy_theme_dialog_cancel :: "copy_dialog \<Rightarrow> copy_dialog" where
  "copy_theme_dialog_cancel d = d\<lparr>cd_cancelled := True\<rparr>"

text \<open>How a copy ends; a new name is drawn when the file exists already.\<close>

datatype copy_outcome = Copied | Copy_Exists "32 word" | Copy_Cancelled | Copy_Failed

definition single_copy_complete :: "copy_outcome \<Rightarrow> copy_dialog \<Rightarrow> copy_dialog res" where
  "single_copy_complete outcome d =
     (let d = d\<lparr>cd_copying := None\<rparr>;
          continue = (\<lambda>d.
            if cd_rest d = [] then Inl Null_Deref
            else
              (let d = d\<lparr>cd_index := Suc (cd_index d), cd_rest := tl (cd_rest d)\<rparr> in
               ret (copy_theme_dialog_copy_next (copy_theme_dialog_update_num_files d)))) in
      case outcome of
        Copied \<Rightarrow> continue d
      | Copy_Exists n \<Rightarrow>
          (case cd_rest d of
             [] \<Rightarrow> Inl Null_Deref
           | (file, basename) # _ \<Rightarrow> ret (d\<lparr>cd_copying := Some (file, numbered_name basename n, G_FILE_COPY_NONE)\<rparr>))
      | Copy_Cancelled \<Rightarrow> ret (copy_theme_dialog_cancel d)
      | Copy_Failed \<Rightarrow> continue d)"

definition timeout_display_dialog :: "copy_dialog \<Rightarrow> copy_dialog res" where
  "timeout_display_dialog d =
     (if cd_destroyed d then Inl Use_After_Free
      else ret (if copy_finished d then d else d\<lparr>cd_shown := True\<rparr>))"

definition copy_theme_dialog_begin :: "copy_dialog \<Rightarrow> copy_dialog" where
  "copy_theme_dialog_begin d = copy_theme_dialog_copy_next (d\<lparr>cd_shown := False, cd_timeout := True\<rparr>)"

definition copy_theme_dialog_response :: "copy_dialog \<Rightarrow> copy_dialog" where
  "copy_theme_dialog_response d = d\<lparr>cd_cancelled := True\<rparr>"

section \<open>The main loop\<close>

text \<open>
  A copy ends, the half second is over, the button is pressed, or the window is closed, which is a
  response too and destroys the window.
\<close>

datatype copy_event = Copy_Done copy_outcome | Half_Second | Cancel_Pressed | Window_Closed

text \<open>
  What GIO promises: without the flag for it no copy replaces a file, a copy reports that a file exists only
  without the flag and if it does, and only a cancelled copy ends as cancelled.
\<close>

definition copy_ready :: "copy_event \<Rightarrow> copy_dialog \<Rightarrow> bool" where
  "copy_ready ev d =
     (case ev of
        Copy_Done outcome \<Rightarrow>
          (case cd_copying d of
             None \<Rightarrow> False
           | Some (file, name, flags) \<Rightarrow>
               (case outcome of
                  Copied \<Rightarrow> cd_theme_dir d name = None \<or> flags = G_FILE_COPY_OVERWRITE
                | Copy_Exists n \<Rightarrow> cd_theme_dir d name \<noteq> None \<and> flags = G_FILE_COPY_NONE
                | Copy_Cancelled \<Rightarrow> cd_cancelled d
                | Copy_Failed \<Rightarrow> True))
      | Half_Second \<Rightarrow> cd_timeout d
      | Cancel_Pressed \<Rightarrow> cd_shown d \<and> \<not> cd_destroyed d
      | Window_Closed \<Rightarrow> cd_shown d \<and> \<not> cd_destroyed d)"

text \<open>A copy that succeeds has put the file into the directory, over what was there, before the callback runs.\<close>

definition copy_arrives :: "copy_outcome \<Rightarrow> copy_dialog \<Rightarrow> copy_dialog" where
  "copy_arrives outcome d =
     (case (outcome, cd_copying d) of
        (Copied, Some (file, name, flags)) \<Rightarrow> d\<lparr>cd_theme_dir := (cd_theme_dir d)(name \<mapsto> file)\<rparr>
      | _ \<Rightarrow> d)"

definition copy_react :: "copy_event \<Rightarrow> copy_dialog \<Rightarrow> copy_dialog res" where
  "copy_react ev d =
     (case ev of
        Copy_Done outcome \<Rightarrow>
          if cd_destroyed d then Inl Use_After_Free else single_copy_complete outcome (copy_arrives outcome d)
      | Half_Second \<Rightarrow> timeout_display_dialog (d\<lparr>cd_timeout := False\<rparr>)
      | Cancel_Pressed \<Rightarrow> ret (copy_theme_dialog_response d)
      | Window_Closed \<Rightarrow> ret ((copy_theme_dialog_response d)\<lparr>cd_destroyed := True\<rparr>))"

text \<open>The states of a dialog that was begun, with the files whose copies failed.\<close>

inductive copy_reachable :: "theme_dir \<Rightarrow> (nat \<times> string option) list \<Rightarrow> nat list \<Rightarrow> copy_dialog \<Rightarrow> bool"
  for dir files where
  start: "copy_reachable dir files [] (copy_theme_dialog_begin (copy_theme_dialog_new dir files))"
| step: "copy_reachable dir files failed d \<Longrightarrow> copy_ready ev d \<Longrightarrow> copy_react ev d = Inr d' \<Longrightarrow>
    copy_reachable dir files (if ev = Copy_Done Copy_Failed then fst (the (cd_copying d)) # failed else failed) d'"

section \<open>Invariant\<close>

text \<open>The names a file may get, and the files that are themes.\<close>

definition name_of :: "string \<Rightarrow> string \<Rightarrow> bool" where
  "name_of basename name = (name = desktop_name basename \<or> (\<exists>n. name = numbered_name basename n))"

definition theme_files :: "(nat \<times> string option) list \<Rightarrow> (nat \<times> string) list" where
  "theme_files files =
     map (\<lambda>(f, r). (f, take (length (the r) - 8) (the r)))
       (filter (\<lambda>(f, r). r \<noteq> None \<and> has_prefix (rev ''.desktop'') (rev (the r))) files)"

definition arrived :: "theme_dir \<Rightarrow> nat list \<Rightarrow> nat \<times> string \<Rightarrow> bool" where
  "arrived dir failed fb = (fst fb \<in> set failed \<or> (\<exists>name. name_of (snd fb) name \<and> dir name = Some (fst fb)))"

definition copy_ok :: "theme_dir \<Rightarrow> (nat \<times> string) list \<Rightarrow> nat list \<Rightarrow> copy_dialog \<Rightarrow> bool" where
  "copy_ok dir files failed d =
     (dir \<subseteq>\<^sub>m cd_theme_dir d
      \<and> cd_all d = files \<and> cd_total_files d = length files \<and> cd_index d + length (cd_rest d) = length files
      \<and> (\<exists>before. files = before @ cd_rest d \<and> (\<forall>fb \<in> set before. arrived (cd_theme_dir d) failed fb))
      \<and> (case cd_copying d of
           None \<Rightarrow> True
         | Some (f, name, flags) \<Rightarrow> (\<exists>b bs. cd_rest d = (f, b) # bs \<and> name_of b name) \<and> flags = G_FILE_COPY_NONE \<and> \<not> cd_complete d)
      \<and> (cd_complete d \<longrightarrow> cd_destroyed d \<and> (cd_cancelled d \<or> cd_rest d = [])))"

lemma new_dialog:
  "fold add_file_to_dialog files d =
     d\<lparr>cd_all := cd_all d @ theme_files files, cd_total_files := cd_total_files d + length (theme_files files),
       cd_invalid := cd_invalid d @ map fst (filter (\<lambda>(f, r). \<not> (r \<noteq> None \<and> has_prefix (rev ''.desktop'') (rev (the r)))) files)\<rparr>"
proof (induction files arbitrary: d)
  case (Cons f files)
  obtain n r where f: "f = (n, r)" by (cases f)
  show ?case
    using Cons.IH by (cases r) (auto simp: f add_file_to_dialog_def theme_files_def simp del: has_prefix.simps)
qed (simp add: theme_files_def)

lemma copy_next_ok:
  assumes "copy_ok dir files failed d" "cd_copying d = None" "\<not> cd_complete d"
  shows "copy_ok dir files failed (copy_theme_dialog_copy_next d)"
  using assms
  by (cases "cd_rest d")
    (auto simp: copy_ok_def copy_theme_dialog_copy_next_def copy_finished_def emit_complete_def name_of_def)

lemma begin_ok: "copy_ok dir (theme_files files) [] (copy_theme_dialog_begin (copy_theme_dialog_new dir files))"
  unfolding copy_theme_dialog_begin_def
  by (rule copy_next_ok) (simp_all add: copy_ok_def copy_theme_dialog_new_def new_dialog)

lemma arrived_mono: "arrived dir failed fb \<Longrightarrow> dir \<subseteq>\<^sub>m dir' \<Longrightarrow> set failed \<subseteq> set failed' \<Longrightarrow> arrived dir' failed' fb"
  by (auto simp: arrived_def map_le_def dom_def)

text \<open>The end of a copy, with the file moved from the rest to the others.\<close>

lemma continue_ok:
  assumes ok: "copy_ok dir files failed d" and c: "cd_copying d = Some (f, name, flags)" "\<not> cd_complete d"
    and b: "cd_rest d = (f, b) # bs" and d': "dir \<subseteq>\<^sub>m tdir" "cd_theme_dir d \<subseteq>\<^sub>m tdir" "set failed \<subseteq> set failed'" "arrived tdir failed' (f, b)"
  shows "copy_ok dir files failed'
     (copy_theme_dialog_copy_next (copy_theme_dialog_update_num_files
       (d\<lparr>cd_theme_dir := tdir, cd_copying := None, cd_index := Suc (cd_index d), cd_rest := bs\<rparr>)))"
proof (rule copy_next_ok)
  obtain before where p: "files = before @ (f, b) # bs" "\<forall>fb \<in> set before. arrived (cd_theme_dir d) failed fb"
    using ok b by (auto simp: copy_ok_def)
  then have "files = (before @ [(f, b)]) @ bs" "\<forall>fb \<in> set (before @ [(f, b)]). arrived tdir failed' fb"
    using arrived_mono [OF _ d'(2,3)] d'(4) by auto
  then show "copy_ok dir files failed' (copy_theme_dialog_update_num_files
       (d\<lparr>cd_theme_dir := tdir, cd_copying := None, cd_index := Suc (cd_index d), cd_rest := bs\<rparr>))"
    using ok b c d'(1) unfolding copy_ok_def copy_theme_dialog_update_num_files_def by auto
qed (use c in \<open>simp_all add: copy_theme_dialog_update_num_files_def\<close>)

lemma react_copy_ok:
  assumes ok: "copy_ok dir files failed d" and r: "copy_ready ev d" "copy_react ev d = Inr d'"
  shows "copy_ok dir files (if ev = Copy_Done Copy_Failed then fst (the (cd_copying d)) # failed else failed) d'"
proof (cases ev)
  case (Copy_Done outcome)
  obtain f name flags where c: "cd_copying d = Some (f, name, flags)" using r(1) Copy_Done by (auto simp: copy_ready_def split: option.splits)
  obtain b bs where b: "cd_rest d = (f, b) # bs" "name_of b name" and nc: "\<not> cd_complete d" and none: "flags = G_FILE_COPY_NONE" using ok c by (auto simp: copy_ok_def)
  have le: "dir \<subseteq>\<^sub>m cd_theme_dir d" using ok by (simp add: copy_ok_def)
  have d': "single_copy_complete outcome (copy_arrives outcome d) = Inr d'"
    using r(2) Copy_Done by (simp add: copy_react_def split: if_splits)
  show ?thesis
  proof (cases outcome)
    case Copied
    then have free: "cd_theme_dir d name = None" using r(1) Copy_Done c none by (simp add: copy_ready_def)
    then have m: "cd_theme_dir d \<subseteq>\<^sub>m (cd_theme_dir d)(name \<mapsto> f)" by (auto simp: map_le_def)
    have "arrived ((cd_theme_dir d)(name \<mapsto> f)) failed (f, b)" using b(2) by (auto simp: arrived_def)
    from continue_ok [OF ok c nc b(1) map_le_trans [OF le m] m order_refl this] show ?thesis
      using d' Copied Copy_Done c b by (auto simp: single_copy_complete_def copy_arrives_def Let_def)
  next
    case (Copy_Exists n)
    then show ?thesis
      using d' Copy_Done c b ok nc by (auto simp: single_copy_complete_def copy_arrives_def copy_ok_def name_of_def Let_def)
  next
    case Copy_Cancelled
    then show ?thesis
      using d' Copy_Done c b ok by (auto simp: single_copy_complete_def copy_arrives_def copy_ok_def copy_theme_dialog_cancel_def Let_def)
  next
    case Copy_Failed
    have "arrived (cd_theme_dir d) (f # failed) (f, b)" by (simp add: arrived_def)
    from continue_ok [OF ok c nc b(1) le map_le_refl _ this] show ?thesis
      using d' Copy_Failed Copy_Done c b by (auto simp: single_copy_complete_def copy_arrives_def Let_def)
  qed
qed (use r ok in \<open>auto simp: copy_react_def timeout_display_dialog_def copy_theme_dialog_response_def copy_ok_def split: if_splits option.splits\<close>)

lemma reachable_copy_ok: "copy_reachable dir files failed d \<Longrightarrow> copy_ok dir (theme_files files) failed d"
proof (induction rule: copy_reachable.induct)
  case (step failed d ev d')
  then show ?case using react_copy_ok by blast
qed (rule begin_ok)

section \<open>Properties\<close>

text \<open>
  C35: copying themes loses nothing.  GIO lets a copy replace a file if its flags say so; those of the dialog never
  do.  At no time is a file that was in the user's directory before replaced or removed, and when the dialog is complete and was not cancelled, every dropped theme file is
  there, under its own name or a numbered one, unless GIO reported an error for it.
\<close>

theorem copying_loses_nothing:
  assumes "copy_reachable dir files failed d"
  shows "(\<forall>name f. dir name = Some f \<longrightarrow> cd_theme_dir d name = Some f)
     \<and> (cd_complete d \<and> \<not> cd_cancelled d \<longrightarrow>
          (\<forall>(f, b) \<in> set (theme_files files). f \<in> set failed \<or> (\<exists>name. name_of b name \<and> cd_theme_dir d name = Some f)))"
proof (intro conjI impI)
  note ok = reachable_copy_ok [OF assms]
  show "\<forall>name f. dir name = Some f \<longrightarrow> cd_theme_dir d name = Some f"
    using ok by (auto simp: copy_ok_def map_le_def dom_def)
  assume "cd_complete d \<and> \<not> cd_cancelled d"
  then have "\<forall>fb \<in> set (theme_files files). arrived (cd_theme_dir d) failed fb"
    using ok by (auto simp: copy_ok_def)
  then show "\<forall>(f, b) \<in> set (theme_files files). f \<in> set failed \<or> (\<exists>name. name_of b name \<and> cd_theme_dir d name = Some f)"
    unfolding arrived_def by auto
qed

definition sample_theme_dir :: theme_dir where
  "sample_theme_dir = [''cube.desktop'' \<mapsto> 7]"

theorem copying_loses_nothing_witness:
  "\<exists>d. copy_reachable sample_theme_dir [(1, Some ''cube.desktop'')] [] d \<and> cd_theme_dir d ''cube.desktop'' = Some 7
     \<and> cd_complete d \<and> \<not> cd_cancelled d \<and> (\<exists>name. name_of ''cube'' name \<and> cd_theme_dir d name = Some 1)"
proof -
  let ?f = "[(1, Some ''cube.desktop'')]"
  define d0 where "d0 = copy_theme_dialog_begin (copy_theme_dialog_new sample_theme_dir ?f)"
  have d0: "cd_copying d0 = Some (1, ''cube.desktop'', G_FILE_COPY_NONE)" "cd_theme_dir d0 = sample_theme_dir" "cd_rest d0 = [(1, ''cube'')]"
    "\<not> cd_destroyed d0" "\<not> cd_cancelled d0"
    by (simp_all add: d0_def copy_theme_dialog_begin_def copy_theme_dialog_new_def add_file_to_dialog_def
        copy_theme_dialog_copy_next_def copy_finished_def desktop_name_def)
  let ?d1 = "d0\<lparr>cd_copying := Some (1, numbered_name ''cube'' 5, G_FILE_COPY_NONE)\<rparr>"
  let ?n = "numbered_name ''cube'' 5"
  have n: "?n \<noteq> ''cube.desktop''" by (simp add: numbered_name_def)
  have r0: "copy_reachable sample_theme_dir ?f [] d0" unfolding d0_def by (rule copy_reachable.start)
  have r1: "copy_reachable sample_theme_dir ?f [] ?d1"
    using copy_reachable.step [OF r0, of "Copy_Done (Copy_Exists 5)" ?d1] d0
    by (simp add: copy_ready_def copy_react_def single_copy_complete_def copy_arrives_def sample_theme_dir_def Let_def)
  obtain d2 where d2: "copy_react (Copy_Done Copied) ?d1 = Inr d2" "cd_complete d2" "\<not> cd_cancelled d2"
    using d0 by (simp add: copy_react_def single_copy_complete_def copy_arrives_def copy_theme_dialog_copy_next_def
        copy_theme_dialog_update_num_files_def copy_finished_def emit_complete_def Let_def)
  have "copy_ready (Copy_Done Copied) ?d1" using d0 n by (simp add: copy_ready_def sample_theme_dir_def)
  then have r2: "copy_reachable sample_theme_dir ?f [] d2" using copy_reachable.step [OF r1 _ d2(1)] by simp
  have "theme_files ?f = [(1, ''cube'')]" by (simp add: theme_files_def)
  then show ?thesis using copying_loses_nothing [OF r2] r2 d2(2,3) by (auto simp: sample_theme_dir_def)
qed

text \<open>
  The timer of the dialog outlives it.  When the dropped files hold no theme, or all of them are copied
  within half a second, the application destroys the dialog while the timer still holds a pointer to
  it; the timer then uses the memory that was freed.
\<close>

theorem timer_outlives_dialog:
  assumes "theme_files files = []"
  shows "copy_reachable dir files [] (copy_theme_dialog_begin (copy_theme_dialog_new dir files))
     \<and> copy_ready Half_Second (copy_theme_dialog_begin (copy_theme_dialog_new dir files))
     \<and> copy_react Half_Second (copy_theme_dialog_begin (copy_theme_dialog_new dir files)) = Inl Use_After_Free"
  using copy_reachable.start [of dir files] assms
  by (simp add: copy_ready_def copy_react_def timeout_display_dialog_def copy_theme_dialog_begin_def copy_theme_dialog_new_def
      new_dialog copy_theme_dialog_copy_next_def copy_finished_def emit_complete_def)

theorem timer_outlives_dialog_witness:
  "copy_react Half_Second (copy_theme_dialog_begin (copy_theme_dialog_new sample_theme_dir [(1, Some ''a.png'')])) = Inl Use_After_Free"
proof -
  have "theme_files [(1, Some ''a.png'')] = []" by (simp add: theme_files_def)
  from timer_outlives_dialog [OF this] show ?thesis by blast
qed

end
