(* ===== verification/GS_Stacking.thy ===== *)
theory GS_Stacking
  imports GS_Window "HOL-Library.Word"
begin

unbundle bit_operations_syntax

text \<open>
  \<open>src/gs-window-x11.c\<close>: how a window of the screensaver stays in front.  The windows of the daemon and of
  the other clients are children of the root window, which the X server keeps in a stack; the daemon
  asks for the events of all of them and raises its own windows whenever another one was mapped or
  moved.  The callbacks of the main loop run one at a time, other clients act in between.
\<close>

section \<open>The X server\<close>

definition MapNotify :: nat where "MapNotify = 19"
definition ConfigureNotify :: nat where "ConfigureNotify = 22"
definition ShapeNotify :: nat where "ShapeNotify = 0"

definition SubstructureNotifyMask :: "64 word" where "SubstructureNotifyMask = push_bit 19 1"

record x_event =
  xe_type :: nat
  xe_window :: nat

text \<open>
  \<open>xs_stack\<close> lists the mapped windows, the topmost first; \<open>xs_shaped\<close> the windows that are not
  rectangular; \<open>xs_queue\<close> the events the daemon has not read.  The rest is the daemon's: the events it
  selected on the root window, the windows GDK knows, the filters with the base of the shape events
  of their windows (0 without the extension), in the order in which they were added.
\<close>

record x_screen =
  xs_root :: nat
  xs_stack :: "nat list"
  xs_shaped :: "nat list"
  xs_queue :: "x_event list"
  xs_root_mask :: "64 word"
  xs_gdk_windows :: "nat list"
  xs_filters :: "(nat \<times> nat) list"
  xs_shape_base :: nat

definition send_root_event :: "nat \<Rightarrow> nat \<Rightarrow> x_screen \<Rightarrow> x_screen" where
  "send_root_event type win s =
     (if xs_root_mask s AND SubstructureNotifyMask \<noteq> 0
      then s\<lparr>xs_queue := xs_queue s @ [\<lparr>xe_type = type, xe_window = win\<rparr>]\<rparr> else s)"

text \<open>The request to raise a window; it is reported when the order has changed.\<close>

definition x_raise :: "nat \<Rightarrow> x_screen \<Rightarrow> x_screen" where
  "x_raise win s =
     (if win \<notin> set (xs_stack s) \<or> hd (xs_stack s) = win then s
      else send_root_event ConfigureNotify win (s\<lparr>xs_stack := win # removeAll win (xs_stack s)\<rparr>))"

text \<open>The request to make a window rectangular, reported likewise.\<close>

definition x_unshape :: "nat \<Rightarrow> nat \<Rightarrow> x_screen \<Rightarrow> x_screen" where
  "x_unshape base win s =
     (if win \<in> set (xs_shaped s)
      then s\<lparr>xs_shaped := removeAll win (xs_shaped s),
             xs_queue := (if base = 0 then xs_queue s else xs_queue s @ [\<lparr>xe_type = base + ShapeNotify, xe_window = win\<rparr>])\<rparr>
      else s)"

section \<open>The daemon\<close>

definition x11_window_is_ours :: "x_screen \<Rightarrow> nat \<Rightarrow> bool" where
  "x11_window_is_ours s win = (win \<in> set (xs_gdk_windows s) \<and> win \<noteq> xs_root s)"

definition gs_window_raise :: "nat \<Rightarrow> x_screen \<Rightarrow> x_screen" where
  "gs_window_raise win s = x_raise win s"

definition unshape_window :: "nat \<times> nat \<Rightarrow> x_screen \<Rightarrow> x_screen" where
  "unshape_window w s = x_unshape (snd w) (fst w) s"

definition gs_window_xevent :: "nat \<times> nat \<Rightarrow> x_event \<Rightarrow> x_screen \<Rightarrow> x_screen" where
  "gs_window_xevent w ev s =
     (if xe_type ev = MapNotify then
        (if \<not> x11_window_is_ours s (xe_window ev) then gs_window_raise (fst w) s else s)
      else if xe_type ev = ConfigureNotify then
        (if \<not> x11_window_is_ours s (xe_window ev) then gs_window_raise (fst w) s else s)
      else if xe_type ev = snd w + ShapeNotify then unshape_window w s
      else s)"

datatype filter_return = GDK_FILTER_CONTINUE

definition xevent_filter :: "x_event \<Rightarrow> nat \<times> nat \<Rightarrow> x_screen \<Rightarrow> filter_return \<times> x_screen" where
  "xevent_filter ev w s = (GDK_FILTER_CONTINUE, gs_window_xevent w ev s)"

definition select_popup_events :: "x_screen \<Rightarrow> x_screen" where
  "select_popup_events s =
     (let events = SubstructureNotifyMask OR xs_root_mask s in s\<lparr>xs_root_mask := events\<rparr>)"

text \<open>The base of the shape events that ends up in the window, 0 if the server has no such extension.\<close>

definition window_select_shape_events :: "nat \<Rightarrow> x_screen \<Rightarrow> nat" where
  "window_select_shape_events win s = xs_shape_base s"

text \<open>
  What \<open>gs_window_real_show\<close> does to the server, in two steps between which other clients may act: the class
  method of GTK maps the window on top of the others, and later the events are selected.
  \<open>gs_window_real_hide\<close> takes it back.
\<close>

definition map_on_screen :: "nat \<Rightarrow> x_screen \<Rightarrow> x_screen" where
  "map_on_screen win s =
     send_root_event MapNotify win
       (s\<lparr>xs_gdk_windows := win # removeAll win (xs_gdk_windows s), xs_stack := win # removeAll win (xs_stack s)\<rparr>)"

definition select_on_screen :: "nat \<Rightarrow> x_screen \<Rightarrow> x_screen" where
  "select_on_screen win s =
     (let s = select_popup_events s in s\<lparr>xs_filters := xs_filters s @ [(win, window_select_shape_events win s)]\<rparr>)"


text \<open>The main loop reads one event and runs all the filters.\<close>

definition dispatch_event :: "x_event \<Rightarrow> x_screen \<Rightarrow> x_screen" where
  "dispatch_event ev s = fold (\<lambda>w s. snd (xevent_filter ev w s)) (xs_filters s) s"



section \<open>Other clients and the steps\<close>

definition insert_at :: "nat \<Rightarrow> 'a \<Rightarrow> 'a list \<Rightarrow> 'a list" where
  "insert_at i x xs = take i xs @ x # drop i xs"


definition initial_screen :: "nat \<Rightarrow> nat list \<Rightarrow> 64 word \<Rightarrow> nat \<Rightarrow> x_screen" where
  "initial_screen root_win stack events base =
     \<lparr>xs_root = root_win, xs_stack = stack, xs_shaped = [], xs_queue = [], xs_root_mask = events, xs_gdk_windows = [root_win],
      xs_filters = [], xs_shape_base = base\<rparr>"

definition on_top :: "nat \<Rightarrow> nat \<Rightarrow> nat list \<Rightarrow> bool" where
  "on_top a b st = (\<exists>ps qs. st = ps @ a # qs \<and> b \<in> set qs)"



section \<open>Above\<close>

lemma on_top_Cons: "on_top a b (x # xs) \<longleftrightarrow> (x = a \<and> b \<in> set xs) \<or> on_top a b xs"
  unfolding on_top_def by (auto simp: Cons_eq_append_conv)

lemma on_top_Nil [simp]: "\<not> on_top a b []"
  by (simp add: on_top_def)

lemma on_top_append: "on_top a b (xs @ ys) \<longleftrightarrow> on_top a b xs \<or> on_top a b ys \<or> (a \<in> set xs \<and> b \<in> set ys)"
  by (induction xs) (auto simp: on_top_Cons)



lemma set_insert_at [simp]: "set (insert_at i x xs) = insert x (set xs)"
proof -
  have "set (take i xs) \<union> set (drop i xs) = set xs" by (metis append_take_drop_id set_append)
  then show ?thesis by (auto simp: insert_at_def)
qed


section \<open>Raising all windows\<close>











section \<open>Invariant\<close>







lemma fold_unchanged: "(\<And>w. w \<in> set ws \<Longrightarrow> f w s = s) \<Longrightarrow> fold f ws s = s"
  by (induction ws) auto

















section \<open>The queue runs empty\<close>







section \<open>Properties\<close>


definition sample_screen :: x_screen where
  "sample_screen = select_on_screen 5 (map_on_screen 5 (initial_screen 1 [3, 4] 0 64))"

lemma sample_screen_parts:
  "xs_stack sample_screen = [5, 3, 4]" "xs_filters sample_screen = [(5, 64)]" "xs_root sample_screen = 1"
  "xs_gdk_windows sample_screen = [5, 1]" "xs_queue sample_screen = []"
  by (simp_all add: sample_screen_def map_on_screen_def select_on_screen_def initial_screen_def Let_def send_root_event_def
      select_popup_events_def window_select_shape_events_def)



text \<open>
  A window of the screensaver that another client moves to the bottom stays there.  The event
  tells of a window of the daemon itself, which it ignores, so that the other windows remain visible.
\<close>

theorem lowered_window_stays:
  assumes "x11_window_is_ours s win" and "w \<in> set (xs_stack s)" and "w \<noteq> win"
  defines "lowered \<equiv> s\<lparr>xs_stack := removeAll win (xs_stack s) @ [win]\<rparr>"
  shows "on_top w win (xs_stack (dispatch_event \<lparr>xe_type = ConfigureNotify, xe_window = win\<rparr> lowered))"
proof -
  have "gs_window_xevent v \<lparr>xe_type = ConfigureNotify, xe_window = win\<rparr> lowered = lowered" for v
    using assms(1) by (simp add: gs_window_xevent_def MapNotify_def ConfigureNotify_def lowered_def x11_window_is_ours_def)
  then have "dispatch_event \<lparr>xe_type = ConfigureNotify, xe_window = win\<rparr> lowered = lowered"
    unfolding dispatch_event_def by (intro fold_unchanged) (simp add: xevent_filter_def)
  then show ?thesis using assms(2,3) by (simp add: lowered_def on_top_append)
qed

theorem lowered_window_stays_witness:
  "on_top 3 5 (xs_stack (dispatch_event \<lparr>xe_type = ConfigureNotify, xe_window = 5\<rparr> (sample_screen\<lparr>xs_stack := [3, 4, 5]\<rparr>)))"
proof -
  have "x11_window_is_ours sample_screen 5" "3 \<in> set (xs_stack sample_screen)" "removeAll 5 (xs_stack sample_screen) @ [5] = [3, 4, 5]"
    by (simp_all add: sample_screen_parts x11_window_is_ours_def)
  then show ?thesis using lowered_window_stays [of sample_screen 5 3] by simp
qed

end
