(* ===== verification/GS_Realize.thy ===== *)
theory GS_Realize
  imports GS_Window
begin

text \<open>
  How a window of the screensaver gets its visual and its place: \<open>src/gs-visual-gl.c\<close>, the program
  \<open>src/mate-screensaver-gl-helper.c\<close> that prints the identifier of the best visual, and the functions of
  \<open>src/gs-window-x11.c\<close> that read it and that move the window with its monitor.
\<close>

section \<open>The best visual\<close>

datatype gl_attr =
    GLX_RGBA
  | GLX_RED_SIZE nat
  | GLX_GREEN_SIZE nat
  | GLX_BLUE_SIZE nat
  | GLX_DEPTH_SIZE nat
  | GLX_BUFFER_SIZE nat
  | GLX_DOUBLEBUFFER
  | GLX_STENCIL_SIZE nat

definition rgb_attrs :: "nat \<Rightarrow> gl_attr list" where
  "rgb_attrs n = [GLX_RGBA, GLX_RED_SIZE n, GLX_GREEN_SIZE n, GLX_BLUE_SIZE n, GLX_DEPTH_SIZE n]"

definition attrs :: "gl_attr list list" where
  "attrs =
     [rgb_attrs 8 @ [GLX_DOUBLEBUFFER, GLX_STENCIL_SIZE 1],
      rgb_attrs 4 @ [GLX_DOUBLEBUFFER, GLX_STENCIL_SIZE 1],
      rgb_attrs 2 @ [GLX_DOUBLEBUFFER, GLX_STENCIL_SIZE 1],
      rgb_attrs 8 @ [GLX_DOUBLEBUFFER],
      rgb_attrs 4 @ [GLX_DOUBLEBUFFER],
      rgb_attrs 2 @ [GLX_DOUBLEBUFFER],
      rgb_attrs 8,
      rgb_attrs 4,
      rgb_attrs 2,
      [GLX_BUFFER_SIZE 8, GLX_DEPTH_SIZE 8, GLX_DOUBLEBUFFER],
      [GLX_BUFFER_SIZE 4, GLX_DEPTH_SIZE 4, GLX_DOUBLEBUFFER],
      [GLX_BUFFER_SIZE 8, GLX_DEPTH_SIZE 8],
      [GLX_BUFFER_SIZE 4, GLX_DEPTH_SIZE 4],
      rgb_attrs 1]"

text \<open>
  The X server and GDK: the visual that fits a list of attributes, and the visuals GDK knows; a visual
  is its identifier.
\<close>

record gl_display =
  gd_choose :: "gl_attr list \<Rightarrow> nat option"
  gd_visuals :: "nat list"

definition lookup_visual :: "gl_display \<Rightarrow> nat \<Rightarrow> nat option" where
  "lookup_visual d vid = (if vid \<in> set (gd_visuals d) then Some vid else None)"

primrec choose_visual :: "gl_display \<Rightarrow> gl_attr list list \<Rightarrow> nat option" where
  "choose_visual d [] = None"
| "choose_visual d (a # as) =
     (case gd_choose d a of
        None \<Rightarrow> choose_visual d as
      | Some vid \<Rightarrow> (case lookup_visual d vid of None \<Rightarrow> choose_visual d as | Some visual \<Rightarrow> Some visual))"

definition gs_visual_gl_get_best_for_display :: "bool \<Rightarrow> gl_display \<Rightarrow> nat option" where
  "gs_visual_gl_get_best_for_display have_libgl d = (if have_libgl then choose_visual d attrs else None)"

section \<open>The helper\<close>

definition hex_digit :: "nat \<Rightarrow> char" where
  "hex_digit n = char_of (if n < 10 then 48 + n else 87 + n)"

text \<open>The conversion \<open>%x\<close>.\<close>

fun x_digits :: "nat \<Rightarrow> string" where
  "x_digits n = (if n < 16 then [hex_digit n] else x_digits (n div 16) @ [hex_digit (n mod 16)])"

declare x_digits.simps [simp del]

text \<open>The exit status of the program and what it prints.\<close>

definition gl_helper_main :: "bool \<Rightarrow> bool \<Rightarrow> gl_display \<Rightarrow> int \<times> string" where
  "gl_helper_main gtk_starts have_libgl d =
     (if \<not> gtk_starts then (1, '''')
      else
        (case gs_visual_gl_get_best_for_display have_libgl d of
           Some visual \<Rightarrow> (0, ''0x'' @ x_digits (visual mod 2 ^ 32) @ ''\<newline>'')
         | None \<Rightarrow> (0, ''none'' @ ''\<newline>'')))"

section \<open>Reading its output\<close>

definition c_isxdigit :: "char \<Rightarrow> bool" where
  "c_isxdigit c = (let n = of_char c :: nat in 48 \<le> n \<and> n \<le> 57 \<or> 65 \<le> n \<and> n \<le> 70 \<or> 97 \<le> n \<and> n \<le> 102)"

definition xdigit_value :: "char \<Rightarrow> nat" where
  "xdigit_value c =
     (let n = of_char c :: nat in if n \<le> 57 then n - 48 else if n \<le> 70 then n - 55 else n - 87)"

definition xdigits_value :: "string \<Rightarrow> nat" where
  "xdigits_value ds = foldl (\<lambda>n c. 16 * n + xdigit_value c) 0 ds"

text \<open>
  The conversion \<open>%lx\<close>: white space, an optional sign, an optional \<open>0x\<close>, digits; the value is that of
  \<open>strtoul\<close> (64 bits, saturating, negated for a minus sign).
\<close>

definition scan_ulong_hex :: "string \<Rightarrow> (nat \<times> string) option" where
  "scan_ulong_hex s =
     (let s = skip_ws s;
          neg = has_prefix ''-'' s;
          s = (if neg \<or> has_prefix ''+'' s then tl s else s);
          prefixed = has_prefix ''0x'' s \<or> has_prefix ''0X'' s;
          s = (if prefixed then drop 2 s else s);
          ds = takeWhile c_isxdigit s;
          v = min (xdigits_value ds) (2 ^ 64 - 1);
          v = (if neg \<and> xdigits_value ds < 2 ^ 64 then (2 ^ 64 - v) mod 2 ^ 64 else v) in
      if ds = [] \<and> \<not> prefixed then None else Some (v, dropWhile c_isxdigit s))"

text \<open>\<open>1 == sscanf (std_output, "0x%lx %c", &v, &c)\<close>\<close>

definition scan_visual :: "string \<Rightarrow> nat option" where
  "scan_visual s =
     (case strip_literal ''0x'' s of
        None \<Rightarrow> None
      | Some s \<Rightarrow>
          (case scan_ulong_hex s of
             None \<Rightarrow> None
           | Some (v, rest) \<Rightarrow> if skip_ws rest = [] then Some v else None))"

text \<open>\<open>g_spawn_sync\<close> of a command with an environment, or \<open>None\<close> when it cannot be run.\<close>

type_synonym spawn_sync = "string list \<Rightarrow> string list \<Rightarrow> (int \<times> string) option"

definition spawn_command_line_on_display_sync :: "win_env \<Rightarrow> spawn_sync \<Rightarrow> string \<Rightarrow> (int \<times> string) option" where
  "spawn_command_line_on_display_sync e spawn command_line =
     (case we_parse_argv e command_line of
        None \<Rightarrow> None
      | Some argv \<Rightarrow> spawn argv (spawn_make_environment_for_display (we_display e) (we_environ e)))"

text \<open>
  \<open>refs\<close> counts the references of the visuals that the program holds.  The function returns a new
  reference here; the function of the same name of the preferences application does not, though its
  caller gives one back as well.
\<close>

definition get_best_visual_for_display ::
  "win_env \<Rightarrow> spawn_sync \<Rightarrow> string \<Rightarrow> gl_display \<Rightarrow> (nat \<Rightarrow> int) \<Rightarrow> nat option \<times> (nat \<Rightarrow> int)" where
  "get_best_visual_for_display e spawn helper_path d refs =
     (let visual =
            (case spawn_command_line_on_display_sync e spawn helper_path of
               None \<Rightarrow> None
             | Some (exit_status, std_output) \<Rightarrow>
                 (case scan_visual std_output of
                    None \<Rightarrow> None
                  | Some v \<Rightarrow> if v \<noteq> 0 then lookup_visual d v else None)) in
      (visual, case visual of None \<Rightarrow> refs | Some v \<Rightarrow> refs(v := refs v + 1)))"

definition capplet_get_best_visual ::
  "win_env \<Rightarrow> spawn_sync \<Rightarrow> string \<Rightarrow> gl_display \<Rightarrow> (nat \<Rightarrow> int) \<Rightarrow> nat option \<times> (nat \<Rightarrow> int)" where
  "capplet_get_best_visual e spawn helper_path d refs =
     (case spawn_command_line_on_display_sync e spawn helper_path of
        None \<Rightarrow> (None, refs)
      | Some (exit_status, std_output) \<Rightarrow>
          (case scan_visual std_output of
             None \<Rightarrow> (None, refs)
           | Some v \<Rightarrow> (if v \<noteq> 0 then lookup_visual d v else None, refs)))"

text \<open>The visual of the widget, and the references; \<open>widget_set_best_visual\<close> of either program.\<close>

definition widget_set_best_visual ::
  "((nat \<Rightarrow> int) \<Rightarrow> nat option \<times> (nat \<Rightarrow> int)) \<Rightarrow> (nat \<Rightarrow> int) \<Rightarrow> nat option \<times> (nat \<Rightarrow> int)" where
  "widget_set_best_visual get refs =
     (case get refs of
        (None, refs) \<Rightarrow> (None, refs)
      | (Some v, refs) \<Rightarrow> (Some v, refs(v := refs v - 1)))"

section \<open>The place of a window\<close>

text \<open>
  \<open>pl_x\<close> is where the window is on the screen, \<open>pl_handler\<close> whether the geometry of the monitor is
  watched, \<open>pl_resize_queued\<close> whether GTK will ask for the size again, \<open>pl_property_events\<close> whether
  changes of properties are selected.
\<close>

record placed =
  pl_window :: gs_window
  pl_realized :: bool
  pl_visual :: "nat option"
  pl_user_time :: nat
  pl_property_events :: bool
  pl_x :: rect
  pl_handler :: bool
  pl_resize_queued :: bool

definition gs_window_override_user_time :: "nat \<Rightarrow> nat \<Rightarrow> placed \<Rightarrow> placed" where
  "gs_window_override_user_time current_event_time server_time p =
     (let ev_time = current_event_time in
      if ev_time = 0 then p\<lparr>pl_property_events := True, pl_user_time := server_time\<rparr>
      else p\<lparr>pl_user_time := ev_time\<rparr>)"

definition gs_window_move_resize_window :: "bool \<Rightarrow> bool \<Rightarrow> placed \<Rightarrow> placed res" where
  "gs_window_move_resize_window move resize p =
     (let g = win_geometry (pl_window p); x = pl_x p in
      if \<not> pl_realized p then Inl Assert_Failed
      else if move \<and> resize then ret (p\<lparr>pl_x := g\<rparr>)
      else if move then ret (p\<lparr>pl_x := x\<lparr>r_x := r_x g, r_y := r_y g\<rparr>\<rparr>)
      else if resize then ret (p\<lparr>pl_x := x\<lparr>r_width := r_width g, r_height := r_height g\<rparr>\<rparr>)
      else ret p)"

definition monitor_geometry_notify :: "placed \<Rightarrow> placed" where
  "monitor_geometry_notify p = p\<lparr>pl_resize_queued := True\<rparr>"

definition gs_window_real_realize ::
  "((nat \<Rightarrow> int) \<Rightarrow> nat option \<times> (nat \<Rightarrow> int)) \<Rightarrow> nat \<Rightarrow> nat \<Rightarrow> (nat \<Rightarrow> int) \<Rightarrow> placed \<Rightarrow> (placed \<times> (nat \<Rightarrow> int)) res" where
  "gs_window_real_realize get current_event_time server_time refs p =
     (let (visual, refs) = widget_set_best_visual get refs;
          p = (case visual of None \<Rightarrow> p | Some v \<Rightarrow> p\<lparr>pl_visual := Some v\<rparr>);
          p = p\<lparr>pl_realized := True\<rparr>;
          p = gs_window_override_user_time current_event_time server_time p in
      rbind (gs_window_move_resize_window True True p) (\<lambda>p. ret (p\<lparr>pl_handler := True\<rparr>, refs)))"

definition gs_window_real_unrealize :: "placed \<Rightarrow> placed" where
  "gs_window_real_unrealize p = p\<lparr>pl_handler := False, pl_realized := False\<rparr>"

definition place_size_request ::
  "(rect \<Rightarrow> rect list \<Rightarrow> rect) \<Rightarrow> (nat \<Rightarrow> rect) \<Rightarrow> nat list \<Rightarrow> placed \<Rightarrow> placed res" where
  "place_size_request extents geom monitors p =
     (let (w, position_changed, size_changed) = gs_window_real_size_request extents geom monitors (pl_window p);
          p = p\<lparr>pl_window := w\<rparr> in
      if \<not> pl_realized p then ret p else gs_window_move_resize_window position_changed size_changed p)"

definition gs_window_real_get_preferred_width ::
  "(rect \<Rightarrow> rect list \<Rightarrow> rect) \<Rightarrow> (nat \<Rightarrow> rect) \<Rightarrow> nat list \<Rightarrow> placed \<Rightarrow> (placed \<times> int \<times> int) res" where
  "gs_window_real_get_preferred_width extents geom monitors p =
     rbind (place_size_request extents geom monitors p)
       (\<lambda>p. let width = r_width (win_geometry (pl_window p)) in ret (p, width, width))"

definition gs_window_real_get_preferred_height ::
  "(rect \<Rightarrow> rect list \<Rightarrow> rect) \<Rightarrow> (nat \<Rightarrow> rect) \<Rightarrow> nat list \<Rightarrow> placed \<Rightarrow> (placed \<times> int \<times> int) res" where
  "gs_window_real_get_preferred_height extents geom monitors p =
     rbind (place_size_request extents geom monitors p)
       (\<lambda>p. let height = r_height (win_geometry (pl_window p)) in ret (p, height, height))"

text \<open>GTK works a queued resize off by asking for both sizes.\<close>

definition resize_idle ::
  "(rect \<Rightarrow> rect list \<Rightarrow> rect) \<Rightarrow> (nat \<Rightarrow> rect) \<Rightarrow> nat list \<Rightarrow> placed \<Rightarrow> placed res" where
  "resize_idle extents geom monitors p =
     (if \<not> pl_resize_queued p then ret p
      else
        rbind (gs_window_real_get_preferred_width extents geom monitors (p\<lparr>pl_resize_queued := False\<rparr>)) (\<lambda>(p, _).
        rbind (gs_window_real_get_preferred_height extents geom monitors p) (\<lambda>(p, _). ret p)))"

text \<open>GDK tells of a monitor whose geometry has changed.\<close>

definition monitors_change :: "(nat \<Rightarrow> rect) \<Rightarrow> (nat \<Rightarrow> rect) \<Rightarrow> placed \<Rightarrow> placed" where
  "monitors_change geom geom' p =
     (let m = win_monitor (pl_window p) in
      if geom m \<noteq> geom' m \<and> pl_handler p then monitor_geometry_notify p else p)"

section \<open>The round trip of the visual\<close>

lemma hex_digit_props:
  assumes "n < 16"
  shows "c_isxdigit (hex_digit n)" "xdigit_value (hex_digit n) = n" "hex_digit n \<noteq> CHR ''x''" "hex_digit n \<noteq> CHR ''X''"
    "\<not> c_isspace (hex_digit n)" "hex_digit n \<noteq> CHR ''-''" "hex_digit n \<noteq> CHR ''+''"
proof -
  have "n \<in> set [0..<16]" using assms by simp
  then have "c_isxdigit (hex_digit n) \<and> xdigit_value (hex_digit n) = n \<and> hex_digit n \<noteq> CHR ''x'' \<and> hex_digit n \<noteq> CHR ''X''
     \<and> \<not> c_isspace (hex_digit n) \<and> hex_digit n \<noteq> CHR ''-'' \<and> hex_digit n \<noteq> CHR ''+''"
    unfolding upt_conv_Cons by (simp add: upt_rec numeral_2_eq_2) (elim disjE; simp add: hex_digit_def c_isxdigit_def xdigit_value_def c_isspace_def Let_def; code_simp)
  then show "c_isxdigit (hex_digit n)" "xdigit_value (hex_digit n) = n" "hex_digit n \<noteq> CHR ''x''" "hex_digit n \<noteq> CHR ''X''"
    "\<not> c_isspace (hex_digit n)" "hex_digit n \<noteq> CHR ''-''" "hex_digit n \<noteq> CHR ''+''" by blast+
qed

lemma xdigits_value_snoc: "xdigits_value (ds @ [c]) = 16 * xdigits_value ds + xdigit_value c"
  by (simp add: xdigits_value_def)

lemma x_digits_props:
  "xdigits_value (x_digits n) = n \<and> x_digits n \<noteq> [] \<and>
   (\<forall>c \<in> set (x_digits n). c_isxdigit c \<and> c \<noteq> CHR ''x'' \<and> c \<noteq> CHR ''X'' \<and> \<not> c_isspace c \<and> c \<noteq> CHR ''-'' \<and> c \<noteq> CHR ''+'')"
proof (induction n rule: x_digits.induct)
  case (1 n)
  show ?case
  proof (cases "n < 16")
    case True
    then show ?thesis using hex_digit_props [of n] by (simp add: x_digits.simps [of n] xdigits_value_def)
  next
    case False
    have m: "n mod 16 < 16" by simp
    show ?thesis
      using False 1 hex_digit_props [OF m] by (subst (1 2 3) x_digits.simps) (auto simp: xdigits_value_snoc)
  qed
qed

lemma takeWhile_hex: "\<not> c_isxdigit c \<Longrightarrow> takeWhile c_isxdigit (x_digits n @ c # s) = x_digits n \<and> dropWhile c_isxdigit (x_digits n @ c # s) = c # s"
  using x_digits_props [of n] by (simp add: takeWhile_append2 dropWhile_append3 takeWhile_eq_all_conv [THEN iffD2])

lemma scan_printed_hex:
  assumes "n < 2 ^ 64"
  shows "scan_visual (''0x'' @ x_digits n @ ''\<newline>'') = Some n"
proof -
  obtain c cs where hd: "x_digits n = c # cs" and c: "\<not> c_isspace c" "c \<noteq> CHR ''-''" "c \<noteq> CHR ''+''"
    using x_digits_props [of n] by (cases "x_digits n") auto
  have nx: "\<not> has_prefix ''0x'' (x_digits n @ ''\<newline>'')" "\<not> has_prefix ''0X'' (x_digits n @ ''\<newline>'')"
  proof -
    have d: "\<forall>c \<in> set (x_digits n). c \<noteq> CHR ''x'' \<and> c \<noteq> CHR ''X''" using x_digits_props by blast
    show "\<not> has_prefix ''0x'' (x_digits n @ ''\<newline>'')" "\<not> has_prefix ''0X'' (x_digits n @ ''\<newline>'')"
      using d unfolding hd by (cases cs; auto)+
  qed
  have t: "takeWhile c_isxdigit (x_digits n @ ''\<newline>'') = x_digits n" "dropWhile c_isxdigit (x_digits n @ ''\<newline>'') = ''\<newline>''"
    using takeWhile_hex [of "CHR ''\<newline>''" n "[]"] by (simp_all add: c_isxdigit_def)
  have ws: "skip_ws (x_digits n @ ''\<newline>'') = x_digits n @ ''\<newline>''" using c by (simp add: hd skip_ws_def)
  have sg: "\<not> has_prefix ''-'' (x_digits n @ ''\<newline>'')" "\<not> has_prefix ''+'' (x_digits n @ ''\<newline>'')" using c by (simp_all add: hd)
  have "scan_ulong_hex (x_digits n @ ''\<newline>'') = Some (n, ''\<newline>'')"
    using assms x_digits_props [of n]
    by (simp only: scan_ulong_hex_def Let_def ws sg nx t if_False simp_thms) simp
  moreover have "skip_ws ''\<newline>'' = []" by (simp add: skip_ws_def c_isspace_def)
  ultimately show ?thesis by (simp add: scan_visual_def strip_literal_def)
qed

lemma scan_none: "scan_visual ''none'' = None" "scan_visual (''none'' @ ''\<newline>'') = None"
  by (simp_all add: scan_visual_def strip_literal_def)

lemma choose_visual_known: "choose_visual d as = Some v \<Longrightarrow> v \<in> set (gd_visuals d)"
  by (induction as) (auto simp: lookup_visual_def split: option.splits if_splits)

section \<open>Properties\<close>

text \<open>
  C29: the visual survives the trip through the text.  When the helper runs on the display of the daemon, the
  window gets exactly the visual that the helper found best, the first of the list that both GLX and GDK know,
  and no visual of its own when there is none or when GTK does not start there; one reference is
  taken and given back.
\<close>

theorem visual_roundtrip:
  assumes "we_parse_argv e path = Some argv"
    and "spawn argv (spawn_make_environment_for_display (we_display e) (we_environ e)) = Some (gl_helper_main gtk have_libgl d)"
    and "\<forall>v \<in> set (gd_visuals d). 0 < v \<and> v < 2 ^ 32"
  shows "widget_set_best_visual (get_best_visual_for_display e spawn path d) refs
     = (if gtk then gs_visual_gl_get_best_for_display have_libgl d else None, refs)"
proof (cases "if gtk then gs_visual_gl_get_best_for_display have_libgl d else None")
  case None
  then have "scan_visual (snd (gl_helper_main gtk have_libgl d)) = None"
    using scan_none(2) by (cases gtk) (simp_all add: gl_helper_main_def scan_visual_def strip_literal_def)
  then show ?thesis
    unfolding None using assms(1,2)
    by (simp add: widget_set_best_visual_def get_best_visual_for_display_def spawn_command_line_on_display_sync_def case_prod_beta)
next
  case (Some v)
  then have gtk and best: "choose_visual d attrs = Some v"
    by (auto simp: gs_visual_gl_get_best_for_display_def split: if_splits)
  then have v: "v \<in> set (gd_visuals d)" "0 < v" "v < 2 ^ 32" using choose_visual_known assms(3) by auto
  have "scan_visual (snd (gl_helper_main gtk have_libgl d)) = Some v"
    using Some \<open>gtk\<close> v(3) scan_printed_hex [of v] by (simp add: gl_helper_main_def)
  then show ?thesis
    unfolding Some using assms(1,2) v(1,2)
    by (simp add: widget_set_best_visual_def get_best_visual_for_display_def spawn_command_line_on_display_sync_def
        lookup_visual_def case_prod_beta fun_upd_idem)
qed

definition sample_gl :: gl_display where
  "sample_gl = \<lparr>gd_choose = (\<lambda>as. if GLX_STENCIL_SIZE 1 \<in> set as then None else Some 0x2f), gd_visuals = [0x21, 0x2f]\<rparr>"

definition sample_realize_env :: win_env where
  "sample_realize_env =
     \<lparr>we_parse_argv = (\<lambda>s. Some [s]), we_spawn = (\<lambda>argv envp. None), we_environ = [''DISPLAY=:1''], we_display = '':0'',
      we_exits = (\<lambda>_. True), we_now = 0, we_shell_quote = (\<lambda>s. s), we_debug_enabled = False, we_dialog_path = '''',
      we_screen_width = 100\<rparr>"

theorem visual_roundtrip_witness:
  "widget_set_best_visual (get_best_visual_for_display sample_realize_env
      (\<lambda>argv envp. if envp = [''DISPLAY=:0''] then Some (gl_helper_main True True sample_gl) else None) ''gl-helper'' sample_gl) (\<lambda>_. 0)
   = (Some 0x2f, \<lambda>_. 0)"
proof -
  have "gs_visual_gl_get_best_for_display True sample_gl = Some 0x2f"
    by (simp add: gs_visual_gl_get_best_for_display_def attrs_def rgb_attrs_def sample_gl_def lookup_visual_def)
  moreover have "spawn_make_environment_for_display '':0'' [''DISPLAY=:1''] = [''DISPLAY=:0'']"
    by (simp add: spawn_make_environment_for_display_def)
  ultimately show ?thesis
    by (subst visual_roundtrip [where gtk = True and have_libgl = True])
      (simp_all add: sample_realize_env_def sample_gl_def)
qed

text \<open>
  The preferences application gives back a reference it never took.  Each preview for which the helper
  finds a visual leaves the visual of the screen with one reference less.
\<close>

theorem capplet_visual_loses_reference:
  assumes "capplet_get_best_visual e spawn path d refs = (Some v, refs')"
  shows "snd (widget_set_best_visual (capplet_get_best_visual e spawn path d) refs) v = refs v - 1"
  using assms by (auto simp: widget_set_best_visual_def capplet_get_best_visual_def split: option.splits prod.splits if_splits)

theorem capplet_visual_loses_reference_witness:
  "snd (widget_set_best_visual (capplet_get_best_visual sample_realize_env (\<lambda>argv envp. Some (0, ''0x21'')) ''gl-helper'' sample_gl)
     (\<lambda>_. 1)) 0x21 = 0"
proof -
  have "capplet_get_best_visual sample_realize_env (\<lambda>argv envp. Some (0, ''0x21'')) ''gl-helper'' sample_gl (\<lambda>_. 1) = (Some 0x21, \<lambda>_. 1)"
    by (simp add: capplet_get_best_visual_def spawn_command_line_on_display_sync_def sample_realize_env_def sample_gl_def
        lookup_visual_def scan_visual_def strip_literal_def scan_ulong_hex_def skip_ws_def c_isspace_def c_isxdigit_def
        xdigits_value_def xdigit_value_def)
  from capplet_visual_loses_reference [OF this] show ?thesis by simp
qed

section \<open>The place\<close>

text \<open>A window that is realized is where its record says.\<close>

definition placed_ok :: "placed \<Rightarrow> bool" where
  "placed_ok p = ((pl_realized p \<longrightarrow> pl_x p = win_geometry (pl_window p)) \<and> (pl_handler p \<longrightarrow> pl_realized p))"

lemma realize_placed:
  "\<exists>p' refs'. gs_window_real_realize get ev_time server_time refs p = Inr (p', refs')
     \<and> pl_realized p' \<and> pl_handler p' \<and> placed_ok p' \<and> pl_window p' = pl_window p"
  by (auto simp: gs_window_real_realize_def gs_window_move_resize_window_def gs_window_override_user_time_def placed_ok_def
      Let_def split: prod.splits option.splits)

lemma size_request_placed:
  assumes "placed_ok p"
  shows "\<exists>p'. place_size_request extents geom monitors p = Inr p' \<and> placed_ok p'
     \<and> pl_window p' = update_geometry extents geom monitors (pl_window p) \<and> pl_realized p' = pl_realized p
     \<and> pl_handler p' = pl_handler p \<and> pl_resize_queued p' = pl_resize_queued p"
  using assms
  by (cases "win_geometry (pl_window p)"; cases "extents (geom (win_monitor (pl_window p))) (get_outside_region geom (win_monitor (pl_window p)) monitors)")
    (auto simp: place_size_request_def gs_window_real_size_request_def gs_window_move_resize_window_def update_geometry_def
      placed_ok_def Let_def)

lemma update_geometry_twice:
  "update_geometry extents geom monitors (update_geometry extents geom monitors w) = update_geometry extents geom monitors w"
  by (simp add: update_geometry_def)

lemma resize_placed:
  assumes "placed_ok p"
  shows "\<exists>p'. resize_idle extents geom monitors p = Inr p' \<and> placed_ok p' \<and> \<not> pl_resize_queued p' \<and> pl_handler p' = pl_handler p
     \<and> pl_realized p' = pl_realized p
     \<and> pl_window p' = (if pl_resize_queued p then update_geometry extents geom monitors (pl_window p) else pl_window p)"
proof (cases "pl_resize_queued p")
  case True
  have "placed_ok (p\<lparr>pl_resize_queued := False\<rparr>)" using assms by (simp add: placed_ok_def)
  from size_request_placed [OF this, of extents geom monitors]
  obtain p1 where 1: "place_size_request extents geom monitors (p\<lparr>pl_resize_queued := False\<rparr>) = Inr p1" "placed_ok p1"
    "pl_window p1 = update_geometry extents geom monitors (pl_window p)" "pl_realized p1 = pl_realized p"
    "pl_handler p1 = pl_handler p" "\<not> pl_resize_queued p1" by auto
  from size_request_placed [OF 1(2), of extents geom monitors]
  obtain p2 where 2: "place_size_request extents geom monitors p1 = Inr p2" "placed_ok p2"
    "pl_window p2 = update_geometry extents geom monitors (pl_window p)" "pl_realized p2 = pl_realized p"
    "pl_handler p2 = pl_handler p" "\<not> pl_resize_queued p2" using 1 by (auto simp: update_geometry_twice)
  show ?thesis
    using True 1 2
    by (simp add: resize_idle_def gs_window_real_get_preferred_width_def gs_window_real_get_preferred_height_def Let_def)
qed (use assms in \<open>simp add: resize_idle_def\<close>)

text \<open>
  A window follows its monitor.  When the geometry of the monitor of a realized window changes, the window
  is, after the resize that this queues, on the part of the monitor that no earlier one shows.
\<close>

theorem window_follows_monitor:
  assumes "gs_window_real_realize get ev_time server_time refs p = Inr (p1, refs1)"
    and "geom (win_monitor (pl_window p)) \<noteq> geom' (win_monitor (pl_window p))"
  shows "\<exists>p2. resize_idle extents geom' monitors (monitors_change geom geom' p1) = Inr p2
     \<and> pl_x p2 = extents (geom' (win_monitor (pl_window p))) (get_outside_region geom' (win_monitor (pl_window p)) monitors)"
proof -
  have p1: "pl_realized p1" "pl_handler p1" "placed_ok p1" "pl_window p1 = pl_window p"
    using realize_placed [of get ev_time server_time refs p] assms(1) by auto
  let ?p = "monitors_change geom geom' p1"
  have n: "?p = p1\<lparr>pl_resize_queued := True\<rparr>" using p1 assms(2) by (simp add: monitors_change_def monitor_geometry_notify_def)
  then have "placed_ok ?p" using p1 by (simp add: placed_ok_def)
  from resize_placed [OF this, of extents geom' monitors] show ?thesis
    using n p1 by (auto simp: placed_ok_def update_geometry_def)
qed

definition sample_placed :: "nat \<Rightarrow> placed" where
  "sample_placed mon =
     \<lparr>pl_window = gs_window_new mon mon True, pl_realized = False, pl_visual = None, pl_user_time = 0, pl_property_events = False,
      pl_x = \<lparr>r_x = 0, r_y = 0, r_width = 1, r_height = 1\<rparr>, pl_handler = False, pl_resize_queued = False\<rparr>"

theorem window_follows_monitor_witness:
  "\<exists>p1 p2. gs_window_real_realize (\<lambda>refs. (None, refs)) 0 7 (\<lambda>_. 0) (sample_placed 0) = Inr (p1, \<lambda>_. 0)
     \<and> resize_idle (\<lambda>g rs. g) (\<lambda>_. \<lparr>r_x = 9, r_y = 9, r_width = 90, r_height = 80\<rparr>) [0]
         (monitors_change (\<lambda>_. \<lparr>r_x = 0, r_y = 0, r_width = 90, r_height = 80\<rparr>) (\<lambda>_. \<lparr>r_x = 9, r_y = 9, r_width = 90, r_height = 80\<rparr>) p1) = Inr p2
     \<and> pl_x p2 = \<lparr>r_x = 9, r_y = 9, r_width = 90, r_height = 80\<rparr>"
proof -
  obtain p1 where p1: "gs_window_real_realize (\<lambda>refs. (None, refs)) 0 7 (\<lambda>_. 0) (sample_placed 0) = Inr (p1, \<lambda>_. 0)"
    by (simp add: gs_window_real_realize_def widget_set_best_visual_def gs_window_override_user_time_def gs_window_move_resize_window_def Let_def)
  from window_follows_monitor [OF p1, of "\<lambda>_. \<lparr>r_x = 0, r_y = 0, r_width = 90, r_height = 80\<rparr>"
      "\<lambda>_. \<lparr>r_x = 9, r_y = 9, r_width = 90, r_height = 80\<rparr>" "\<lambda>g rs. g" "[0]"]
  show ?thesis using p1 by auto
qed

text \<open>
  What the window of a monitor with unchanged geometry leaves to earlier monitors is still shown by these.
\<close>

definition left_parts_shown :: "(nat \<Rightarrow> rect) \<Rightarrow> (nat \<Rightarrow> rect) \<Rightarrow> nat list \<Rightarrow> bool" where
  "left_parts_shown geom geom' monitors =
     (\<forall>m \<in> set monitors. geom' m = geom m \<longrightarrow>
        (\<forall>q. in_rect q (geom m) \<and> (\<exists>r \<in> set (get_outside_region geom m monitors). in_rect q r)
           \<longrightarrow> (\<exists>r \<in> set (get_outside_region geom' m monitors). in_rect q r)))"

text \<open>A realized window that is where the geometry of the monitors puts it, with no resize queued.\<close>

definition settled :: "(rect \<Rightarrow> rect list \<Rightarrow> rect) \<Rightarrow> (nat \<Rightarrow> rect) \<Rightarrow> nat list \<Rightarrow> placed \<Rightarrow> bool" where
  "settled extents geom monitors p =
     (placed_ok p \<and> pl_handler p \<and> \<not> pl_resize_queued p
      \<and> win_geometry (pl_window p) = win_geometry (update_geometry extents geom monitors (pl_window p)))"

text \<open>
  C25: the windows cover the monitors again after these have changed.  There is a settled window for every
  monitor; the monitors change; only the windows whose monitor has a new geometry are told, and GTK works their
  resizes off.  Then every pixel that some monitor shows is under an X window, provided that what the windows that
  were not told leave to earlier monitors is still shown by these, and that the extents of a region contain it.
  Without the first proviso, when a mirrored monitor is moved away, the other one can be left open
  (\<open>unmirrored_monitor_open\<close>).
\<close>

theorem windows_cover_after_change:
  assumes "extents_cover extents" "map (\<lambda>p. win_monitor (pl_window p)) ps = monitors"
    and "\<forall>p \<in> set ps. settled extents geom monitors p" "left_parts_shown geom geom' monitors"
    and "mon \<in> set monitors" "in_rect q (geom' mon)"
  shows "\<exists>p \<in> set ps. \<exists>p'. resize_idle extents geom' monitors (monitors_change geom geom' p) = Inr p' \<and> in_rect q (pl_x p')"
proof -
  obtain m where m: "m \<in> set monitors" "in_rect q (geom' m)" "\<forall>r \<in> set (get_outside_region geom' m monitors). \<not> in_rect q r"
    using first_monitor_shows [of monitors q geom'] assms(5,6) by blast
  obtain p where p: "p \<in> set ps" "win_monitor (pl_window p) = m" using m(1) assms(2) by auto
  have st: "placed_ok p" "pl_handler p" "\<not> pl_resize_queued p"
    "win_geometry (pl_window p) = extents (geom m) (get_outside_region geom m monitors)"
    using assms(3) p by (auto simp: settled_def update_geometry_def)
  have cover: "in_rect q g \<Longrightarrow> \<forall>r \<in> set rs. \<not> in_rect q r \<Longrightarrow> in_rect q (extents g rs)" for g rs
    using assms(1) unfolding extents_cover_def by blast
  show ?thesis
  proof (cases "geom' m = geom m")
    case True
    have "\<forall>r \<in> set (get_outside_region geom m monitors). \<not> in_rect q r"
      using assms(4) m True unfolding left_parts_shown_def by metis
    then have "in_rect q (pl_x p)" using cover m(2) True st by (simp add: placed_ok_def)
    moreover have "resize_idle extents geom' monitors (monitors_change geom geom' p) = Inr p"
      using True p(2) st(3) by (simp add: monitors_change_def resize_idle_def)
    ultimately show ?thesis using p(1) by blast
  next
    case False
    have n: "monitors_change geom geom' p = p\<lparr>pl_resize_queued := True\<rparr>"
      using False p(2) st(2) by (auto simp: monitors_change_def monitor_geometry_notify_def)
    have "placed_ok (p\<lparr>pl_resize_queued := True\<rparr>)" using st(1) by (simp add: placed_ok_def)
    from resize_placed [OF this, of extents geom' monitors]
    obtain p' where "resize_idle extents geom' monitors (p\<lparr>pl_resize_queued := True\<rparr>) = Inr p'"
      "pl_x p' = extents (geom' m) (get_outside_region geom' m monitors)"
      using p(2) st(1,2) by (auto simp: placed_ok_def update_geometry_def)
    moreover from this have "in_rect q (pl_x p')" using cover m(2,3) by simp
    ultimately show ?thesis using p(1) n by (intro bexI [of _ p] exI [of _ p']) simp_all
  qed
qed

text \<open>Two monitors side by side, of which the first becomes higher.\<close>

definition sample_side :: "int \<Rightarrow> nat \<Rightarrow> rect" where
  "sample_side h mon = \<lparr>r_x = (if mon = 0 then 0 else 90), r_y = 0, r_width = 90, r_height = (if mon = 0 then h else 80)\<rparr>"

definition sample_settled :: "nat \<Rightarrow> placed" where
  "sample_settled mon =
     (let w = (gs_window_new mon mon True)\<lparr>win_geometry := sample_side 80 mon\<rparr> in
      (sample_placed mon)\<lparr>pl_window := w, pl_realized := True, pl_handler := True, pl_x := win_geometry w\<rparr>)"

theorem windows_cover_after_change_witness:
  "\<exists>p \<in> {sample_settled 0, sample_settled 1}. \<exists>p'. resize_idle (\<lambda>g rs. g) (sample_side 100) [0, 1]
       (monitors_change (sample_side 80) (sample_side 100) p) = Inr p' \<and> in_rect (5, 90) (pl_x p')"
proof -
  have w: "win_monitor (pl_window (sample_settled m)) = m" "settled (\<lambda>g rs. g) (sample_side 80) [0, 1] (sample_settled m)" for m
    by (simp_all add: sample_settled_def settled_def placed_ok_def sample_placed_def update_geometry_def gs_window_new_def
        gs_window_set_lock_enabled_def Let_def)
  have l: "left_parts_shown (sample_side 80) (sample_side 100) [0, 1]"
    by (auto simp: left_parts_shown_def sample_side_def in_rect_def)
  have "\<exists>p \<in> set [sample_settled 0, sample_settled 1]. \<exists>p'. resize_idle (\<lambda>g rs. g) (sample_side 100) [0, 1]
       (monitors_change (sample_side 80) (sample_side 100) p) = Inr p' \<and> in_rect (5, 90) (pl_x p')"
    by (rule windows_cover_after_change [where mon = 0])
      (simp_all add: w [simplified] l [simplified], simp_all add: extents_cover_def sample_side_def in_rect_def)
  then show ?thesis by simp
qed

text \<open>
  A monitor that was mirrored can be left open.  Two monitors show the same; the window of the second
  has therefore no pixel.  When the first moves away, only its own window is told, and nobody covers
  the second monitor.
\<close>

theorem unmirrored_monitor_open:
  assumes mirrored: "geom 0 = geom 1" "geom' 1 = geom 1" "geom' 0 \<noteq> geom 0"
    and empty: "\<forall>g q. \<not> in_rect q (extents g [g])" and own: "\<forall>g. extents g [] = g"
    and placed: "placed_ok p0" "pl_handler p0" "win_monitor (pl_window p0) = 0"
      "placed_ok p1" "pl_handler p1" "\<not> pl_resize_queued p1" "win_monitor (pl_window p1) = 1"
      "win_geometry (pl_window p1) = win_geometry (update_geometry extents geom [0, 1] (pl_window p1))"
    and pixel: "in_rect q (geom' 1)" "\<not> in_rect q (geom' 0)"
  shows "\<exists>p0' p1'. resize_idle extents geom' [0, 1] (monitors_change geom geom' p0) = Inr p0'
     \<and> resize_idle extents geom' [0, 1] (monitors_change geom geom' p1) = Inr p1'
     \<and> \<not> in_rect q (pl_x p0') \<and> \<not> in_rect q (pl_x p1')"
proof -
  have n0: "monitors_change geom geom' p0 = p0\<lparr>pl_resize_queued := True\<rparr>" and n1: "monitors_change geom geom' p1 = p1"
    using mirrored placed by (simp_all add: monitors_change_def monitor_geometry_notify_def)
  have "placed_ok (p0\<lparr>pl_resize_queued := True\<rparr>)" using placed(1) by (simp add: placed_ok_def)
  from resize_placed [OF this, of extents geom' "[0, 1]"]
  obtain p0' where p0': "resize_idle extents geom' [0, 1] (p0\<lparr>pl_resize_queued := True\<rparr>) = Inr p0'" "pl_x p0' = geom' 0"
    using placed(1-3) own by (auto simp: placed_ok_def update_geometry_def)
  have "resize_idle extents geom' [0, 1] p1 = Inr p1" using placed(6) by (simp add: resize_idle_def)
  moreover have "pl_x p1 = extents (geom 1) [geom 1]"
    using placed(4,5,7,8) mirrored(1) by (simp add: placed_ok_def update_geometry_def)
  moreover have "\<not> in_rect q (extents (geom 1) [geom 1])" using empty by blast
  ultimately show ?thesis using n0 n1 p0' pixel(2) by (intro exI [of _ p0'] exI [of _ p1]) simp
qed

definition sample_extents :: "rect \<Rightarrow> rect list \<Rightarrow> rect" where
  "sample_extents g rs = (if rs = [] then g else \<lparr>r_x = 0, r_y = 0, r_width = 0, r_height = 0\<rparr>)"

definition sample_geometry :: "int \<Rightarrow> nat \<Rightarrow> rect" where
  "sample_geometry x mon = \<lparr>r_x = (if mon = 0 then x else 0), r_y = 0, r_width = 90, r_height = 80\<rparr>"

definition sample_mirror :: "nat \<Rightarrow> placed" where
  "sample_mirror mon =
     (let w = update_geometry sample_extents (sample_geometry 0) [0, 1] (gs_window_new mon mon True) in
      (sample_placed mon)\<lparr>pl_window := w, pl_realized := True, pl_handler := True, pl_x := win_geometry w\<rparr>)"

theorem unmirrored_monitor_open_witness:
  "in_rect (5, 5) (sample_geometry 90 1)
   \<and> (\<exists>p0 p1. resize_idle sample_extents (sample_geometry 90) [0, 1]
          (monitors_change (sample_geometry 0) (sample_geometry 90) (sample_mirror 0)) = Inr p0
      \<and> resize_idle sample_extents (sample_geometry 90) [0, 1]
          (monitors_change (sample_geometry 0) (sample_geometry 90) (sample_mirror 1)) = Inr p1
      \<and> \<not> in_rect (5, 5) (pl_x p0) \<and> \<not> in_rect (5, 5) (pl_x p1))"
proof
  show "in_rect (5, 5) (sample_geometry 90 1)" by (simp add: in_rect_def sample_geometry_def)
  have "\<forall>g q. \<not> in_rect q (sample_extents g [g])" by (simp add: in_rect_def sample_extents_def)
  then show "\<exists>p0 p1. resize_idle sample_extents (sample_geometry 90) [0, 1]
          (monitors_change (sample_geometry 0) (sample_geometry 90) (sample_mirror 0)) = Inr p0
      \<and> resize_idle sample_extents (sample_geometry 90) [0, 1]
          (monitors_change (sample_geometry 0) (sample_geometry 90) (sample_mirror 1)) = Inr p1
      \<and> \<not> in_rect (5, 5) (pl_x p0) \<and> \<not> in_rect (5, 5) (pl_x p1)"
    by (intro unmirrored_monitor_open)
      (simp_all add: sample_geometry_def sample_extents_def sample_mirror_def sample_placed_def placed_ok_def in_rect_def
        update_geometry_def gs_window_new_def gs_window_set_lock_enabled_def Let_def)
qed

end
