(* ===== verification/Xdg_Dirs.thy ===== *)
theory Xdg_Dirs
  imports Prelude
begin

text \<open>
  \<open>savers/xdg-user-dir-lookup.c\<close>: where the user keeps pictures, for the slide show.  The environment and
  the file system are parameters.  A C string is a list without the character NUL; the file may
  contain any characters.
\<close>

record xdg_env =
  xe_getenv :: "string \<Rightarrow> string option"
  xe_open :: "string \<Rightarrow> string option"

definition NUL :: char where "NUL = CHR 0x00"
definition NL :: char where "NL = CHR 0x0A"
definition TAB :: char where "TAB = CHR 0x09"
definition DQ :: char where "DQ = CHR 0x22"
definition BSL :: char where "BSL = CHR 0x5C"

lemma chars_distinct [simp]:
  "NUL \<noteq> NL" "NUL \<noteq> TAB" "NUL \<noteq> DQ" "NUL \<noteq> BSL" "NL \<noteq> TAB" "NL \<noteq> DQ" "NL \<noteq> BSL" "TAB \<noteq> DQ" "TAB \<noteq> BSL" "DQ \<noteq> BSL"
  "NL \<noteq> NUL" "TAB \<noteq> NUL" "DQ \<noteq> NUL" "BSL \<noteq> NUL" "TAB \<noteq> NL" "DQ \<noteq> NL" "BSL \<noteq> NL" "DQ \<noteq> TAB" "BSL \<noteq> TAB" "BSL \<noteq> DQ"
  by (simp_all add: NUL_def NL_def TAB_def DQ_def BSL_def)

section \<open>Reading lines\<close>

text \<open>\<open>fgets\<close> with room for \<open>n\<close> characters: up to the next newline, which it keeps.\<close>

fun fgets :: "nat \<Rightarrow> string \<Rightarrow> string \<times> string" where
  "fgets 0 s = ([], s)"
| "fgets (Suc n) [] = ([], [])"
| "fgets (Suc n) (c # cs) = (if c = NL then ([c], cs) else (let (line, rest) = fgets n cs in (c # line, rest)))"

lemma fgets_append: "fgets n s = (line, rest) \<Longrightarrow> s = line @ rest"
  by (induction n s arbitrary: line rest rule: fgets.induct) (auto split: if_splits prod.splits)

lemma fgets_length: "fgets n s = (line, rest) \<Longrightarrow> length line \<le> n"
  by (induction n s arbitrary: line rest rule: fgets.induct) (auto split: if_splits prod.splits)

lemma fgets_nonempty: "fgets (Suc n) s = (line, rest) \<Longrightarrow> s \<noteq> [] \<Longrightarrow> line \<noteq> []"
  by (cases s) (auto split: if_splits prod.splits)

text \<open>All chunks a loop of \<open>fgets\<close> with a buffer of 512 characters sees.\<close>

function fgets_all :: "string \<Rightarrow> string list" where
  "fgets_all s = (if s = [] then [] else (let (line, rest) = fgets 511 s in line # fgets_all rest))"
  by auto
termination
proof (relation "measure length", simp)
  fix s x line rest assume s: "s \<noteq> []" and x: "x = fgets 511 s" "(line, rest) = x"
  have f: "fgets (Suc 510) s = (line, rest)" using x by (simp add: eval_nat_numeral)
  have "length s = length line + length rest" using fgets_append [OF f] by simp
  moreover have "line \<noteq> []" using fgets_nonempty [OF f s] .
  ultimately show "(rest, s) \<in> measure length" by simp
qed

declare fgets_all.simps [simp del]

text \<open>The buffer as a C string, without a newline at its end.\<close>

definition chomp :: "string \<Rightarrow> string" where
  "chomp line =
     (let buffer = takeWhile (\<lambda>c. c \<noteq> NUL) line in
      if buffer \<noteq> [] \<and> last buffer = NL then butlast buffer else buffer)"

section \<open>One line\<close>

definition skip_blanks :: "string \<Rightarrow> string" where
  "skip_blanks p = dropWhile (\<lambda>c. c = CHR '' '' \<or> c = TAB) p"

text \<open>\<open>strncmp\<close> with the length of the prefix, and the rest behind it.\<close>

definition strip :: "string \<Rightarrow> string \<Rightarrow> string option" where
  "strip prefix p = (if has_prefix prefix p then Some (drop (length prefix) p) else None)"

text \<open>Copying the value into a block of \<open>cap\<close> characters that holds \<open>d\<close> already, with the NUL at the end.\<close>

function copy_value :: "nat \<Rightarrow> string \<Rightarrow> string \<Rightarrow> string res" where
  "copy_value cap d p =
     (if p = [] \<or> hd p = DQ then (if length d < cap then ret d else Inl Out_Of_Bounds)
      else
        (let p = (if hd p = BSL \<and> tl p \<noteq> [] then tl p else p) in
         if length d < cap then copy_value cap (d @ [hd p]) (tl p) else Inl Out_Of_Bounds))"
  by auto
termination by (relation "measure (\<lambda>(cap, d, p). length p)") (auto split: if_splits)

declare copy_value.simps [simp del]

text \<open>The value of a line; \<open>None\<close> for a line that is not about the directory.\<close>

definition line_value :: "string \<Rightarrow> string \<Rightarrow> string \<Rightarrow> string option res" where
  "line_value home_dir type line =
     (case strip ''XDG_'' (skip_blanks (chomp line)) of
        None \<Rightarrow> ret None
      | Some p \<Rightarrow>
     (case strip type p of
        None \<Rightarrow> ret None
      | Some p \<Rightarrow>
     (case strip ''_DIR'' p of
        None \<Rightarrow> ret None
      | Some p \<Rightarrow>
     (case strip ''='' (skip_blanks p) of
        None \<Rightarrow> ret None
      | Some p \<Rightarrow>
     (case strip [DQ] (skip_blanks p) of
        None \<Rightarrow> ret None
      | Some p \<Rightarrow>
     (case strip ''$HOME/'' p of
        Some p \<Rightarrow>
          rbind (copy_value (length home_dir + 1 + length p + 1) (home_dir @ ''/'') p) (\<lambda>d. ret (Some d))
      | None \<Rightarrow>
          if has_prefix ''/'' p then rbind (copy_value (length p + 1) [] p) (\<lambda>d. ret (Some d))
          else ret None))))))"

primrec scan_lines :: "string \<Rightarrow> string \<Rightarrow> string list \<Rightarrow> string option \<Rightarrow> string option res" where
  "scan_lines home_dir type [] user_dir = ret user_dir"
| "scan_lines home_dir type (line # lines) user_dir =
     rbind (line_value home_dir type line) (\<lambda>v.
     scan_lines home_dir type lines (case v of None \<Rightarrow> user_dir | Some d \<Rightarrow> Some d))"

section \<open>The directory\<close>

definition user_dir_fallback :: "string \<Rightarrow> string \<Rightarrow> string" where
  "user_dir_fallback home_dir type = (if type = ''DESKTOP'' then home_dir @ ''/Desktop'' else home_dir)"

definition user_dirs_file :: "xdg_env \<Rightarrow> string \<Rightarrow> string" where
  "user_dirs_file xe home_dir =
     (case xe_getenv xe ''XDG_CONFIG_HOME'' of
        None \<Rightarrow> home_dir @ ''/.config/user-dirs.dirs''
      | Some config_home \<Rightarrow>
          if config_home = [] then home_dir @ ''/.config/user-dirs.dirs'' else config_home @ ''/user-dirs.dirs'')"

definition xdg_user_dir_lookup :: "xdg_env \<Rightarrow> string \<Rightarrow> string res" where
  "xdg_user_dir_lookup xe type =
     (case xe_getenv xe ''HOME'' of
        None \<Rightarrow> ret ''/tmp''
      | Some home_dir \<Rightarrow>
          (case xe_open xe (user_dirs_file xe home_dir) of
             None \<Rightarrow> ret (user_dir_fallback home_dir type)
           | Some contents \<Rightarrow>
               rbind (scan_lines home_dir type (fgets_all contents) None) (\<lambda>user_dir.
               ret (case user_dir of Some d \<Rightarrow> d | None \<Rightarrow> user_dir_fallback home_dir type))))"

section \<open>Lemmas\<close>

text \<open>What is copied: the value up to the closing quote, without the escapes.\<close>

function unescape :: "string \<Rightarrow> string" where
  "unescape p =
     (if p = [] \<or> hd p = DQ then []
      else (let p = (if hd p = BSL \<and> tl p \<noteq> [] then tl p else p) in hd p # unescape (tl p)))"
  by auto
termination by (relation "measure length") (auto split: if_splits)

declare unescape.simps [simp del]

lemma copy_value_eq: "length d + length p < cap \<Longrightarrow> copy_value cap d p = Inr (d @ unescape p)"
proof (induction "length p" arbitrary: d p rule: less_induct)
  case less
  show ?case
  proof (cases "p = [] \<or> hd p = DQ")
    case True
    then show ?thesis using less.prems by (simp add: copy_value.simps [of cap d p] unescape.simps [of p])
  next
    case False
    let ?p = "if hd p = BSL \<and> tl p \<noteq> [] then tl p else p"
    have l: "?p \<noteq> []" "length ?p \<le> length p" using False by (auto split: if_splits)
    then have "length (tl ?p) < length p" "length (d @ [hd ?p]) + length (tl ?p) < cap"
      using less.prems by (auto simp: neq_Nil_conv)
    from less.hyps [OF this] show ?thesis
      using False less.prems by (simp add: copy_value.simps [of cap d p] unescape.simps [of p] Let_def)
  qed
qed

text \<open>The value of a line, without the memory.\<close>

definition line_meaning :: "string \<Rightarrow> string \<Rightarrow> string \<Rightarrow> string option" where
  "line_meaning home_dir type line =
     (case strip (''XDG_'' @ type @ ''_DIR'') (skip_blanks (chomp line)) of
        None \<Rightarrow> None
      | Some p \<Rightarrow>
     (case strip ''='' (skip_blanks p) of
        None \<Rightarrow> None
      | Some p \<Rightarrow>
     (case strip [DQ] (skip_blanks p) of
        None \<Rightarrow> None
      | Some p \<Rightarrow>
     (case strip ''$HOME/'' p of
        Some p \<Rightarrow> Some (home_dir @ ''/'' @ unescape p)
      | None \<Rightarrow> if has_prefix ''/'' p then Some (unescape p) else None))))"

lemma strip_append: "strip (a @ b) p = (case strip a p of None \<Rightarrow> None | Some q \<Rightarrow> strip b q)"
  by (auto simp: strip_def has_prefix_iff)

lemma line_value_eq: "line_value home_dir type line = Inr (line_meaning home_dir type line)"
  unfolding line_value_def line_meaning_def strip_append
  by (auto simp: copy_value_eq split: option.splits)

lemma scan_lines_eq:
  "scan_lines home_dir type lines user_dir =
     Inr (fold (\<lambda>line u. case line_meaning home_dir type line of None \<Rightarrow> u | Some d \<Rightarrow> Some d) lines user_dir)"
  by (induction lines arbitrary: user_dir) (simp_all add: line_value_eq)

lemma fgets_more:
  "fgets n a = (line, rest) \<Longrightarrow> rest \<noteq> [] \<or> a \<noteq> [] \<and> last a = NL \<Longrightarrow> fgets n (a @ b) = (line, rest @ b)"
proof (induction n a arbitrary: line rest rule: fgets.induct)
  case (3 n c cs)
  show ?case
  proof (cases "c = NL")
    case False
    obtain l r where f: "fgets n cs = (l, r)" by (metis prod.exhaust)
    then have "line = c # l" "rest = r" using "3.prems"(1) False by simp_all
    moreover have "r \<noteq> [] \<or> cs \<noteq> [] \<and> last cs = NL" using "3.prems"(2) False \<open>rest = r\<close> by (auto split: if_splits)
    ultimately show ?thesis using "3.IH" [OF False f] False by simp
  qed (use "3.prems" in auto)
qed auto

lemma fgets_all_append: "a = [] \<or> last a = NL \<Longrightarrow> fgets_all (a @ b) = fgets_all a @ fgets_all b"
proof (induction a rule: fgets_all.induct)
  case (1 a)
  show ?case
  proof (cases "a = []")
    case False
    obtain line rest where f: "fgets 511 a = (line, rest)" by (metis prod.exhaust)
    have e: "a = line @ rest" by (rule fgets_append [OF f])
    have "rest = [] \<or> last rest = NL" using 1(2) False e by (metis last_appendR)
    then have "fgets_all (rest @ b) = fgets_all rest @ fgets_all b" using 1(1) [OF False] f by (metis prod.collapse)
    moreover have "fgets 511 (a @ b) = (line, rest @ b)" using fgets_more [OF f] False 1(2) by blast
    ultimately show ?thesis using False f by (simp add: fgets_all.simps [of a] fgets_all.simps [of "a @ b"])
  qed (simp add: fgets_all.simps)
qed

lemma fgets_line: "NL \<notin> set l \<Longrightarrow> length l < n \<Longrightarrow> fgets n (l @ [NL]) = (l @ [NL], [])"
proof (induction l arbitrary: n)
  case Nil
  then show ?case by (cases n) simp_all
next
  case (Cons c l)
  then show ?case by (cases n) auto
qed

lemma fgets_all_line: "NL \<notin> set l \<Longrightarrow> length l < 511 \<Longrightarrow> fgets_all (l @ [NL]) = [l @ [NL]]"
  using fgets_line [of l 511] by (simp add: fgets_all.simps [of "l @ [NL]"] fgets_all.simps [of "[]"])

text \<open>The line that \<open>xdg-user-dirs-update\<close> writes for a directory.\<close>

definition escape_value :: "string \<Rightarrow> string" where
  "escape_value d = concat (map (\<lambda>c. if c = DQ \<or> c = BSL then [BSL, c] else [c]) d)"

definition dir_entry :: "string \<Rightarrow> string \<Rightarrow> string" where
  "dir_entry type d = ''XDG_'' @ type @ ''_DIR'' @ ''='' @ [DQ] @ escape_value d @ [DQ]"

lemma unescape_escape: "unescape (escape_value d @ DQ # r) = d"
proof (induction d)
  case Nil
  then show ?case by (simp add: escape_value_def unescape.simps)
next
  case (Cons c d)
  then show ?case
    by (cases "c = DQ \<or> c = BSL") (auto simp: escape_value_def unescape.simps [of "BSL # _"] unescape.simps [of "c # _"])
qed

lemma escape_free: "c \<notin> set d \<Longrightarrow> c \<noteq> BSL \<Longrightarrow> c \<notin> set (escape_value d)"
  by (auto simp: escape_value_def)

lemma strip_prefix [simp]: "strip p (p @ r) = Some r"
  by (simp add: strip_def)

lemma chomp_line: "NUL \<notin> set l \<Longrightarrow> chomp (l @ [NL]) = l"
proof -
  assume "NUL \<notin> set l"
  then have "takeWhile (\<lambda>c. c \<noteq> NUL) (l @ [NL]) = l @ [NL]" by (auto simp: takeWhile_eq_all_conv)
  then show ?thesis by (simp add: chomp_def)
qed

lemma entry_meaning:
  assumes "NUL \<notin> set type" "NUL \<notin> set d" "has_prefix ''/'' d"
  shows "line_meaning home type (dir_entry type d @ [NL]) = Some d"
proof -
  obtain ds where d: "d = ''/'' @ ds" using assms(3) by (auto simp: has_prefix_iff)
  have nul: "NUL \<notin> set (dir_entry type d)"
    using assms(1,2) escape_free [of NUL d] by (auto simp: dir_entry_def) (simp_all add: NUL_def)
  have start: "skip_blanks (dir_entry type d) = (''XDG_'' @ type @ ''_DIR'') @ ''='' @ [DQ] @ escape_value d @ [DQ]"
    by (simp add: skip_blanks_def dir_entry_def TAB_def)
  have blanks: "skip_blanks (''='' @ r) = ''='' @ r" "skip_blanks ([DQ] @ r) = [DQ] @ r" for r
    by (simp_all add: skip_blanks_def TAB_def DQ_def)
  have "escape_value d @ [DQ] = CHR ''/'' # escape_value ds @ [DQ]"
    using d by (simp add: escape_value_def DQ_def BSL_def)
  then have v: "strip ''$HOME/'' (escape_value d @ [DQ]) = None" "has_prefix ''/'' (escape_value d @ [DQ])"
    by (simp_all add: strip_def)
  show ?thesis
    unfolding line_meaning_def chomp_line [OF nul] start strip_prefix option.case blanks v
    using unescape_escape [of d "[]"] v(2) by simp
qed

lemma pred_option_fold:
  assumes "\<And>x. pred_option P (f x)" "pred_option P u"
  shows "pred_option P (fold (\<lambda>x u. case f x of None \<Rightarrow> u | Some d \<Rightarrow> Some d) xs u)"
  using assms(2) by (induction xs arbitrary: u) (use assms(1) in \<open>auto split: option.split\<close>, metis assms(1))

section \<open>Properties\<close>

text \<open>
  C34: the search for a directory is safe.  Whatever the environment and the file hold, lines longer than
  the buffer and missing quotes included, the search ends with a directory, never stores outside the
  block it allocated for the value, and the directory is an absolute path if the home directory is.
\<close>

theorem xdg_lookup_safe:
  "\<exists>d. xdg_user_dir_lookup xe type = Inr d
     \<and> (has_prefix ''/'' d \<or> (\<exists>home. xe_getenv xe ''HOME'' = Some home \<and> \<not> has_prefix ''/'' home))"
proof (cases "xe_getenv xe ''HOME''")
  case (Some home)
  have u: "unescape (CHR ''/'' # t) = CHR ''/'' # unescape t" for t
    by (simp add: unescape.simps [of "CHR ''/'' # t"] DQ_def BSL_def)
  have m: "pred_option (\<lambda>d. has_prefix ''/'' d \<or> \<not> has_prefix ''/'' home) (line_meaning home type line)" for line
    unfolding line_meaning_def by (auto split: option.splits simp: u has_prefix_iff)
  have "has_prefix ''/'' d \<or> \<not> has_prefix ''/'' home"
    if "fold (\<lambda>line u. case line_meaning home type line of None \<Rightarrow> u | Some d \<Rightarrow> Some d) lines None = Some d" for lines d
    using pred_option_fold [where f = "line_meaning home type", OF m, of None lines] that by simp
  then show ?thesis
    using Some by (auto simp: xdg_user_dir_lookup_def scan_lines_eq user_dir_fallback_def has_prefix_iff split: option.split)
qed (simp add: xdg_user_dir_lookup_def)

text \<open>
  A directory that is written down is found again.  If the last line of the file is the entry of an
  absolute directory, with quotes and backslashes escaped and no longer than the buffer, the search
  yields exactly that directory, whatever stands before it.
\<close>

theorem xdg_entry_roundtrip:
  assumes "xe_getenv xe ''HOME'' = Some home" "xe_open xe (user_dirs_file xe home) = Some (before @ dir_entry type d @ [NL])"
    and "before = [] \<or> last before = NL" "has_prefix ''/'' d" "length (dir_entry type d) < 511"
    and "NUL \<notin> set type" "NUL \<notin> set d" "NL \<notin> set type" "NL \<notin> set d"
  shows "xdg_user_dir_lookup xe type = Inr d"
proof -
  have nl: "NL \<notin> set (dir_entry type d)"
    using assms(8,9) escape_free [of NL d] by (auto simp: dir_entry_def) (simp_all add: NL_def)
  have "fgets_all (before @ dir_entry type d @ [NL]) = fgets_all before @ [dir_entry type d @ [NL]]"
    using fgets_all_append [OF assms(3)] fgets_all_line [OF nl assms(5)] by simp
  then show ?thesis
    using entry_meaning [OF assms(6,7,4)] assms(1,2) by (simp add: xdg_user_dir_lookup_def scan_lines_eq)
qed

definition sample_xdg :: "string \<Rightarrow> xdg_env" where
  "sample_xdg contents =
     \<lparr>xe_getenv = (\<lambda>v. if v = ''HOME'' then Some ''/home/u'' else None),
      xe_open = (\<lambda>f. if f = ''/home/u/.config/user-dirs.dirs'' then Some contents else None)\<rparr>"

theorem xdg_entry_roundtrip_witness:
  "xdg_user_dir_lookup (sample_xdg (''# made by hand'' @ [NL] @ dir_entry ''PICTURES'' (''/a'' @ [DQ] @ ''b'') @ [NL])) ''PICTURES''
     = Inr (''/a'' @ [DQ] @ ''b'')"
proof -
  let ?c = "(''# made by hand'' @ [NL]) @ dir_entry ''PICTURES'' (''/a'' @ [DQ] @ ''b'') @ [NL]"
  have "xe_getenv (sample_xdg ?c) ''HOME'' = Some ''/home/u''"
    "xe_open (sample_xdg ?c) (user_dirs_file (sample_xdg ?c) ''/home/u'') = Some ?c"
    by (simp_all add: sample_xdg_def user_dirs_file_def)
  from xdg_entry_roundtrip [OF this] show ?thesis
    by (simp add: dir_entry_def escape_value_def NUL_def NL_def DQ_def BSL_def)
qed

end
