(* ===== verification/Slideshow.thy ===== *)
theory Slideshow
  imports Complex_Main Xdg_Dirs "HOL-Library.List_Lexorder" "HOL-Library.Char_ord" "HOL-Library.Multiset"
begin

text \<open>
  \<open>savers/gste-slideshow.c\<close>: the screensaver that fades from picture to picture.  A thread of its own
  finds and loads the pictures; it is asked through one queue and answers through another.  Alpha
  values and times are rational numbers where the code uses doubles.
\<close>

section \<open>Pictures and the file system\<close>

text \<open>Red, green, blue and alpha of a pixel.\<close>

type_synonym color = "rat \<times> rat \<times> rat \<times> rat"

record pixbuf =
  pb_width :: int
  pb_height :: int
  pb_has_alpha :: bool
  pb_pixel :: "int \<Rightarrow> int \<Rightarrow> color"

text \<open>A directory that cannot be opened has no entries here.\<close>

datatype node = File | Dir "(string \<times> node) list"

text \<open>
  Cairo's painting of a colour with an alpha over another, loading and turning of pictures, scaling,
  the replacement of transparent parts by a colour; what a path leads to.
\<close>

record show_env =
  se_over :: "rat \<Rightarrow> color \<Rightarrow> color \<Rightarrow> color"
  se_load :: "string \<Rightarrow> pixbuf option"
  se_orient :: "pixbuf \<Rightarrow> pixbuf option"
  se_scale :: "pixbuf \<Rightarrow> int \<Rightarrow> int \<Rightarrow> pixbuf option"
  se_composite :: "pixbuf \<Rightarrow> nat \<Rightarrow> pixbuf"
  se_node :: "string \<Rightarrow> node option"

section \<open>State\<close>

text \<open>
  A source pattern: a picture and where its origin lies.  A pattern taken from the context of a surface that is not there is
  one of Cairo's error patterns, with which nothing is painted.
\<close>

record pattern =
  pat_valid :: bool
  pat_pixbuf :: pixbuf
  pat_x :: int
  pat_y :: int

text \<open>
  What the thread does: it waits, has taken a location from the queue, or has loaded a picture (or
  failed to).
\<close>

datatype loader = Waiting | Loading "string option" | Loaded "pixbuf option"

text \<open>
  Timers and idle sources are booleans; \<open>sh_update_image_id\<close> is the delay of the timer that is
  pending.  \<open>sh_surf\<close> is the back buffer, \<open>sh_loader\<close> the state of the thread.
\<close>

record slideshow =
  sh_pat1 :: "pattern option"
  sh_pat2 :: "pattern option"
  sh_alpha2 :: rat
  sh_pat2top :: int
  sh_pat2bottom :: int
  sh_pat2left :: int
  sh_pat2right :: int
  sh_surf :: "(int \<Rightarrow> int \<Rightarrow> color) option"
  sh_fade_ticks :: int
  sh_op_q :: "string option list"
  sh_results_q :: "pixbuf option list"
  sh_results_pull_id :: bool
  sh_update_image_id :: "nat option"
  sh_filename_list :: "string list"
  sh_images_location :: "string option"
  sh_sort_images :: bool
  sh_window_width :: int
  sh_window_height :: int
  sh_background_color :: "(nat \<times> nat \<times> nat) option"
  sh_no_stretch_hint :: bool
  sh_timeout_id :: bool
  sh_timer :: bool
  sh_fade_disabled :: bool
  sh_loader :: loader

definition N_FADE_TICKS :: int where "N_FADE_TICKS = 10"
definition MINIMUM_FPS :: rat where "MINIMUM_FPS = 3"
definition IMAGE_LOAD_TIMEOUT :: nat where "IMAGE_LOAD_TIMEOUT = 10000"

section \<open>Asking for a picture\<close>

definition push_load_image_func :: "slideshow \<Rightarrow> slideshow" where
  "push_load_image_func s =
     s\<lparr>sh_op_q := sh_op_q s @ [sh_images_location s], sh_update_image_id := None\<rparr>"

definition start_new_load :: "nat \<Rightarrow> slideshow \<Rightarrow> slideshow" where
  "start_new_load timeout s =
     (if sh_update_image_id s = None then s\<lparr>sh_update_image_id := Some timeout\<rparr> else s)"

section \<open>Fading\<close>

text \<open>The colour that \<open>start_fade\<close> hands to GdkPixbuf, in 32 bits.\<close>

definition composite_color :: "nat \<times> nat \<times> nat \<Rightarrow> nat" where
  "composite_color c = (case c of (red, green, blue) \<Rightarrow> (red * 2 ^ 16 + green div 256 * 2 ^ 8 + blue div 256) mod 2 ^ 32)"

text \<open>Division in C rounds towards 0.\<close>

definition c_half :: "int \<Rightarrow> int" where
  "c_half n = (if 0 \<le> n then n div 2 else - (- n div 2))"

definition start_fade :: "show_env \<Rightarrow> pixbuf \<Rightarrow> slideshow \<Rightarrow> slideshow" where
  "start_fade e pixbuf s =
     (let pw = pb_width pixbuf;
          ph = pb_height pixbuf;
          x = c_half (sh_window_width s - pw);
          y = c_half (sh_window_height s - ph);
          pixbuf = (case sh_background_color s of
                      Some c \<Rightarrow>
                        if pb_has_alpha pixbuf
                        then pixbuf\<lparr>pb_pixel := pb_pixel (se_composite e pixbuf (composite_color c))\<rparr> else pixbuf
                    | None \<Rightarrow> pixbuf) in
      s\<lparr>sh_pat2 := Some \<lparr>pat_valid = (sh_surf s \<noteq> None), pat_pixbuf = pixbuf, pat_x = x, pat_y = y\<rparr>, sh_pat2top := y, sh_pat2bottom := y + ph,
        sh_pat2left := x, sh_pat2right := x + pw, sh_fade_ticks := 0, sh_timer := True\<rparr>)"

definition finish_fade :: "slideshow \<Rightarrow> slideshow" where
  "finish_fade s = start_new_load IMAGE_LOAD_TIMEOUT (s\<lparr>sh_pat1 := sh_pat2 s, sh_pat2 := None\<rparr>)"

text \<open>A rectangle of Cairo may have a negative width or height; it is filled all the same.\<close>

definition in_span :: "int \<Rightarrow> int \<Rightarrow> int \<Rightarrow> bool" where
  "in_span a len p = (if 0 \<le> len then a \<le> p \<and> p < a + len else a + len \<le> p \<and> p < a)"

definition fill_rectangle ::
  "show_env \<Rightarrow> int \<times> int \<times> int \<times> int \<Rightarrow> color \<Rightarrow> rat \<Rightarrow> (int \<Rightarrow> int \<Rightarrow> color) \<Rightarrow> int \<Rightarrow> int \<Rightarrow> color" where
  "fill_rectangle e r c alpha surf px py =
     (case r of (x, y, w, h) \<Rightarrow>
        if in_span x w px \<and> in_span y h py then se_over e alpha c (surf px py) else surf px py)"

definition paint_with_alpha ::
  "show_env \<Rightarrow> pattern \<Rightarrow> rat \<Rightarrow> (int \<Rightarrow> int \<Rightarrow> color) \<Rightarrow> int \<Rightarrow> int \<Rightarrow> color" where
  "paint_with_alpha e p alpha surf px py =
     (let x = px - pat_x p; y = py - pat_y p in
      if pat_valid p \<and> 0 \<le> x \<and> x < pb_width (pat_pixbuf p) \<and> 0 \<le> y \<and> y < pb_height (pat_pixbuf p)
      then se_over e alpha (pb_pixel (pat_pixbuf p) x y) (surf px py) else surf px py)"

definition background :: "slideshow \<Rightarrow> color" where
  "background s =
     (case sh_background_color s of
        Some (red, green, blue) \<Rightarrow> (of_nat red / 65535, of_nat green / 65535, of_nat blue / 65535, 1)
      | None \<Rightarrow> (0, 0, 0, 1))"

text \<open>The four rectangles around the new picture.\<close>

definition outside_rectangles :: "int \<Rightarrow> int \<Rightarrow> slideshow \<Rightarrow> (int \<times> int \<times> int \<times> int) list" where
  "outside_rectangles window_width window_height s =
     [(0, 0, window_width, sh_pat2top s),
      (0, sh_pat2top s, sh_pat2left s, sh_pat2bottom s - sh_pat2top s),
      (0, sh_pat2bottom s, window_width, window_height - sh_pat2bottom s),
      (sh_pat2right s, sh_pat2top s, window_width - sh_pat2right s, sh_pat2bottom s - sh_pat2top s)]"

definition update_display :: "show_env \<Rightarrow> int \<times> int \<Rightarrow> slideshow \<Rightarrow> slideshow" where
  "update_display e dims s =
     (case sh_surf s of
        None \<Rightarrow> s
      | Some surf \<Rightarrow>
          (case sh_pat2 s of
             Some p \<Rightarrow>
               (let surf = fold (\<lambda>r. fill_rectangle e r (background s) (sh_alpha2 s))
                             (outside_rectangles (fst dims) (snd dims) s) surf in
                s\<lparr>sh_surf := Some (paint_with_alpha e p (sh_alpha2 s) surf)\<rparr>)
           | None \<Rightarrow>
               (case sh_pat1 s of
                  Some p \<Rightarrow> s\<lparr>sh_surf := Some (paint_with_alpha e p 1 surf)\<rparr>
                | None \<Rightarrow> s)))"

text \<open>A number of frames in no time is an infinite rate.\<close>

definition too_slow :: "int \<Rightarrow> rat \<Rightarrow> bool" where
  "too_slow ticks elapsed = (0 < elapsed \<and> of_int ticks / elapsed < MINIMUM_FPS)"

definition draw_iter :: "show_env \<Rightarrow> int \<times> int \<Rightarrow> rat \<Rightarrow> slideshow \<Rightarrow> slideshow" where
  "draw_iter e dims elapsed s =
     (case sh_pat2 s of
        None \<Rightarrow> s
      | Some _ \<Rightarrow>
          if sh_fade_disabled s then finish_fade (update_display e dims (s\<lparr>sh_alpha2 := 1\<rparr>))
          else
            (let s = s\<lparr>sh_fade_ticks := sh_fade_ticks s + 1\<rparr>;
                 old_opacity = of_int (sh_fade_ticks s - 1) / of_int N_FADE_TICKS;
                 new_opacity = of_int (sh_fade_ticks s) / of_int N_FADE_TICKS;
                 s = s\<lparr>sh_alpha2 := 1 - (1 - new_opacity) / (1 - old_opacity)\<rparr>;
                 s = update_display e dims s;
                 s = (if too_slow (sh_fade_ticks s) elapsed
                      then s\<lparr>sh_fade_ticks := N_FADE_TICKS - 1, sh_fade_disabled := True\<rparr> else s) in
             if N_FADE_TICKS \<le> sh_fade_ticks s then finish_fade s else s))"

section \<open>Results\<close>

definition process_new_pixbuf :: "show_env \<Rightarrow> pixbuf option \<Rightarrow> slideshow \<Rightarrow> slideshow" where
  "process_new_pixbuf e pixbuf s =
     (case pixbuf of Some pb \<Rightarrow> start_fade e pb s | None \<Rightarrow> start_new_load 10 s)"

definition results_pull_func :: "show_env \<Rightarrow> slideshow \<Rightarrow> slideshow res" where
  "results_pull_func e s =
     (if sh_results_q s = [] then Inl Assert_Failed
      else ret ((fold (process_new_pixbuf e) (sh_results_q s) (s\<lparr>sh_results_q := []\<rparr>))\<lparr>sh_results_pull_id := False\<rparr>))"

section \<open>Loading\<close>

text \<open>Exact arithmetic where the code uses floats; the conversion to int cuts off.\<close>

definition scale_pixbuf :: "show_env \<Rightarrow> pixbuf \<Rightarrow> int \<Rightarrow> int \<Rightarrow> bool \<Rightarrow> pixbuf option" where
  "scale_pixbuf e pixbuf max_width max_height no_stretch_hint =
     (let pw = pb_width pixbuf; ph = pb_height pixbuf in
      if pw < 256 \<or> ph < 256 then None
      else
        (let scale_factor_x = of_int max_width / of_int pw :: rat;
             scale_factor_y = of_int max_height / of_int ph :: rat;
             scale_factor = (if scale_factor_y < scale_factor_x then scale_factor_y else scale_factor_x) in
         if scale_factor < 1 \<or> \<not> no_stretch_hint
         then se_scale e pixbuf \<lfloor>of_int pw * scale_factor\<rfloor> \<lfloor>of_int ph * scale_factor\<rfloor>
         else Some pixbuf))"

text \<open>The files below a directory without the hidden ones; each is put at the front of the list.\<close>

fun add_files_to_list :: "string \<Rightarrow> (string \<times> node) list \<Rightarrow> string list \<Rightarrow> string list" where
  "add_files_to_list base [] list = list"
| "add_files_to_list base ((d_name, n) # ns) list =
     (if has_prefix ''.'' d_name then add_files_to_list base ns list
      else
        (let path = base @ ''/'' @ d_name in
         add_files_to_list base ns
           (case n of Dir ms \<Rightarrow> add_files_to_list path ms list | File \<Rightarrow> path # list)))"

definition build_filename_list_local_dir :: "show_env \<Rightarrow> string \<Rightarrow> string list" where
  "build_filename_list_local_dir e base =
     (case se_node e base of Some (Dir ns) \<Rightarrow> add_files_to_list base ns [] | _ \<Rightarrow> [])"

definition gste_strcmp_compare_func :: "string option \<Rightarrow> string option \<Rightarrow> int" where
  "gste_strcmp_compare_func a b =
     (let a = (case a of None \<Rightarrow> '''' | Some a \<Rightarrow> a); b = (case b of None \<Rightarrow> '''' | Some b \<Rightarrow> b) in
      if a < b then -1 else if a = b then 0 else 1)"

text \<open>\<open>g_slist_sort\<close> with this function.\<close>

primrec insert_file :: "string \<Rightarrow> string list \<Rightarrow> string list" where
  "insert_file f [] = [f]"
| "insert_file f (g # gs) = (if gste_strcmp_compare_func (Some f) (Some g) \<le> 0 then f # g # gs else g # insert_file f gs)"

definition slist_sort :: "string list \<Rightarrow> string list" where
  "slist_sort fs = foldr insert_file fs []"

definition delete_nth :: "nat \<Rightarrow> 'a list \<Rightarrow> 'a list" where
  "delete_nth i xs = take i xs @ drop (Suc i) xs"

text \<open>
  The list that is drawn from: the rest of the last round, or a new one.  \<open>rnd n\<close> is what
  \<open>g_random_int_range (0, n)\<close> answers.
\<close>

definition draw_filename :: "show_env \<Rightarrow> string \<Rightarrow> bool \<Rightarrow> (nat \<Rightarrow> nat) \<Rightarrow> string list \<Rightarrow> (string \<times> string list) option res" where
  "draw_filename e location sort_images rnd files =
     (let files = (if files = [] then build_filename_list_local_dir e location else files) in
      if files = [] then ret None
      else
        (let files = (if sort_images then slist_sort files else files);
             i = (if \<not> sort_images then rnd (length files) else 0) in
         if length files \<le> i then Inl Null_Deref else ret (Some (files ! i, delete_nth i files))))"

definition get_pixbuf_from_local_dir :: "show_env \<Rightarrow> (nat \<Rightarrow> nat) \<Rightarrow> string \<Rightarrow> slideshow \<Rightarrow> (slideshow \<times> pixbuf option) res" where
  "get_pixbuf_from_local_dir e rnd location s =
     rbind (draw_filename e location (sh_sort_images s) rnd (sh_filename_list s)) (\<lambda>drawn.
     case drawn of
       None \<Rightarrow> ret (s\<lparr>sh_filename_list := []\<rparr>, None)
     | Some (filename, rest) \<Rightarrow>
         ret (s\<lparr>sh_filename_list := rest\<rparr>, (case se_load e filename of None \<Rightarrow> None | Some pixbuf \<Rightarrow> se_orient e pixbuf)))"

definition get_pixbuf_from_location :: "show_env \<Rightarrow> (nat \<Rightarrow> nat) \<Rightarrow> string option \<Rightarrow> slideshow \<Rightarrow> (slideshow \<times> pixbuf option) res" where
  "get_pixbuf_from_location e rnd location s =
     (case location of
        None \<Rightarrow> ret (s, None)
      | Some l \<Rightarrow>
          (case se_node e l of
             Some (Dir _) \<Rightarrow> get_pixbuf_from_local_dir e rnd l s
           | _ \<Rightarrow> ret (s, None)))"

definition get_pixbuf :: "show_env \<Rightarrow> (nat \<Rightarrow> nat) \<Rightarrow> string option \<Rightarrow> int \<Rightarrow> int \<Rightarrow> slideshow \<Rightarrow> (slideshow \<times> pixbuf option) res" where
  "get_pixbuf e rnd location width height s =
     (case location of
        None \<Rightarrow> ret (s, None)
      | Some _ \<Rightarrow>
          rbind (get_pixbuf_from_location e rnd location s) (\<lambda>(s, pixbuf).
          ret (s, case pixbuf of None \<Rightarrow> None | Some pb \<Rightarrow> scale_pixbuf e pb width height (sh_no_stretch_hint s))))"

text \<open>
  \<open>op_load_image\<close> loads without a lock and hands the result over with the lock held: two steps of the
  thread.
\<close>

definition op_load_image :: "show_env \<Rightarrow> (nat \<Rightarrow> nat) \<Rightarrow> string option \<Rightarrow> slideshow \<Rightarrow> slideshow res" where
  "op_load_image e rnd location s =
     (let window_width = sh_window_width s; window_height = sh_window_height s in
      rbind (get_pixbuf e rnd location window_width window_height s) (\<lambda>(s, pixbuf). ret (s\<lparr>sh_loader := Loaded pixbuf\<rparr>)))"

definition op_push_result :: "pixbuf option \<Rightarrow> slideshow \<Rightarrow> slideshow" where
  "op_push_result pixbuf s =
     (let s = s\<lparr>sh_results_q := sh_results_q s @ [pixbuf], sh_loader := Waiting\<rparr> in
      if \<not> sh_results_pull_id s then s\<lparr>sh_results_pull_id := True\<rparr> else s)"

text \<open>One step of the thread, unless it waits for the queue.\<close>

definition load_threadfunc :: "show_env \<Rightarrow> (nat \<Rightarrow> nat) \<Rightarrow> slideshow \<Rightarrow> slideshow res" where
  "load_threadfunc e rnd s =
     (case sh_loader s of
        Waiting \<Rightarrow>
          (case sh_op_q s of [] \<Rightarrow> ret s | location # ops \<Rightarrow> ret (s\<lparr>sh_op_q := ops, sh_loader := Loading location\<rparr>))
      | Loading location \<Rightarrow> op_load_image e rnd location s
      | Loaded pixbuf \<Rightarrow> ret (op_push_result pixbuf s))"

section \<open>Properties and signals of the widget\<close>

definition gste_slideshow_set_images_location :: "string option \<Rightarrow> slideshow \<Rightarrow> slideshow" where
  "gste_slideshow_set_images_location location s = s\<lparr>sh_images_location := location\<rparr>"

definition gste_slideshow_set_sort_images :: "bool \<Rightarrow> slideshow \<Rightarrow> slideshow" where
  "gste_slideshow_set_sort_images sort_images s = s\<lparr>sh_sort_images := sort_images\<rparr>"

definition gste_slideshow_set_no_stretch_hint :: "bool \<Rightarrow> slideshow \<Rightarrow> slideshow" where
  "gste_slideshow_set_no_stretch_hint no_stretch_hint s = s\<lparr>sh_no_stretch_hint := no_stretch_hint\<rparr>"

text \<open>\<open>parse\<close> is \<open>pango_color_parse\<close>.\<close>

definition gste_slideshow_set_background_color ::
  "(string \<Rightarrow> (nat \<times> nat \<times> nat) option) \<Rightarrow> string option \<Rightarrow> slideshow \<Rightarrow> slideshow" where
  "gste_slideshow_set_background_color parse background_color s =
     s\<lparr>sh_background_color := (case background_color of None \<Rightarrow> None | Some c \<Rightarrow> parse c)\<rparr>"

datatype show_property =
    PROP_IMAGES_LOCATION "string option"
  | PROP_SORT_IMAGES bool
  | PROP_SOLID_BACKGROUND "string option"
  | PROP_NO_STRETCH_HINT bool

definition gste_slideshow_set_property ::
  "(string \<Rightarrow> (nat \<times> nat \<times> nat) option) \<Rightarrow> show_property \<Rightarrow> slideshow \<Rightarrow> slideshow" where
  "gste_slideshow_set_property parse pr s =
     (case pr of
        PROP_IMAGES_LOCATION v \<Rightarrow> gste_slideshow_set_images_location v s
      | PROP_SORT_IMAGES v \<Rightarrow> gste_slideshow_set_sort_images v s
      | PROP_SOLID_BACKGROUND v \<Rightarrow> gste_slideshow_set_background_color parse v s
      | PROP_NO_STRETCH_HINT v \<Rightarrow> gste_slideshow_set_no_stretch_hint v s)"

definition gste_slideshow_real_show :: "slideshow \<Rightarrow> slideshow" where
  "gste_slideshow_real_show s = (start_new_load 10 s)\<lparr>sh_timeout_id := True, sh_timer := True\<rparr>"

text \<open>A new surface is black.\<close>

definition gste_slideshow_real_configure :: "int \<times> int \<Rightarrow> slideshow \<Rightarrow> slideshow" where
  "gste_slideshow_real_configure dims s =
     s\<lparr>sh_window_width := fst dims, sh_window_height := snd dims, sh_surf := Some (\<lambda>_ _. (0, 0, 0, 1))\<rparr>"

definition gste_slideshow_real_draw :: "slideshow \<Rightarrow> (int \<Rightarrow> int \<Rightarrow> color) option" where
  "gste_slideshow_real_draw s = sh_surf s"

definition gste_slideshow_init :: "string \<Rightarrow> slideshow" where
  "gste_slideshow_init default_location =
     \<lparr>sh_pat1 = None, sh_pat2 = None, sh_alpha2 = 0, sh_pat2top = 0, sh_pat2bottom = 0, sh_pat2left = 0, sh_pat2right = 0,
      sh_surf = None, sh_fade_ticks = 0, sh_op_q = [], sh_results_q = [], sh_results_pull_id = False, sh_update_image_id = None,
      sh_filename_list = [], sh_images_location = Some default_location, sh_sort_images = False, sh_window_width = 0,
      sh_window_height = 0, sh_background_color = None, sh_no_stretch_hint = False, sh_timeout_id = False, sh_timer = False,
      sh_fade_disabled = False, sh_loader = Waiting\<rparr>"

text \<open>The timer that asks for the next picture is not among the sources that are removed.\<close>

definition gste_slideshow_finalize :: "slideshow \<Rightarrow> slideshow" where
  "gste_slideshow_finalize s =
     s\<lparr>sh_surf := None, sh_timeout_id := False, sh_results_pull_id := False, sh_results_q := [], sh_images_location := None,
       sh_background_color := None, sh_timer := False\<rparr>"

section \<open>The program\<close>

text \<open>
  What the main loop and the thread do: timers and idle sources that are pending, a step of the
  thread, a new size of the window, a property that is set.
\<close>

datatype show_event =
    Update_Timer
  | Draw_Timer "int \<times> int" rat
  | Results_Idle
  | Thread "nat \<Rightarrow> nat"
  | Configured "int \<times> int"
  | Property_Set show_property

definition show_ready :: "show_event \<Rightarrow> slideshow \<Rightarrow> bool" where
  "show_ready ev s =
     (case ev of
        Update_Timer \<Rightarrow> sh_update_image_id s \<noteq> None
      | Draw_Timer dims elapsed \<Rightarrow> sh_timeout_id s \<and> 0 \<le> elapsed
      | Results_Idle \<Rightarrow> sh_results_pull_id s
      | Thread rnd \<Rightarrow> \<forall>n. 0 < n \<longrightarrow> rnd n < n
      | Configured dims \<Rightarrow> True
      | Property_Set pr \<Rightarrow> True)"

definition show_react ::
  "show_env \<Rightarrow> (string \<Rightarrow> (nat \<times> nat \<times> nat) option) \<Rightarrow> show_event \<Rightarrow> slideshow \<Rightarrow> slideshow res" where
  "show_react e parse ev s =
     (case ev of
        Update_Timer \<Rightarrow> ret (push_load_image_func s)
      | Draw_Timer dims elapsed \<Rightarrow> ret (draw_iter e dims elapsed s)
      | Results_Idle \<Rightarrow> results_pull_func e s
      | Thread rnd \<Rightarrow> load_threadfunc e rnd s
      | Configured dims \<Rightarrow> ret (gste_slideshow_real_configure dims s)
      | Property_Set pr \<Rightarrow> ret (gste_slideshow_set_property parse pr s))"

inductive show_reachable :: "show_env \<Rightarrow> (string \<Rightarrow> (nat \<times> nat \<times> nat) option) \<Rightarrow> slideshow \<Rightarrow> bool"
  for e parse where
  start: "show_reachable e parse (gste_slideshow_real_show (fold (gste_slideshow_set_property parse) props (gste_slideshow_init default_location)))"
| step: "show_reachable e parse s \<Longrightarrow> show_ready ev s \<Longrightarrow> show_react e parse ev s = Inr s' \<Longrightarrow> show_reachable e parse s'"

section \<open>One request at a time\<close>

text \<open>Where the next picture may be: asked for later, asked for, being loaded, loaded, or being faded in.\<close>

definition pending_pictures :: "slideshow \<Rightarrow> nat" where
  "pending_pictures s =
     (if sh_update_image_id s \<noteq> None then 1 else 0) + length (sh_op_q s) + (if sh_loader s \<noteq> Waiting then 1 else 0)
     + length (sh_results_q s) + (if sh_pat2 s \<noteq> None then 1 else 0)"

definition slideshow_ok :: "slideshow \<Rightarrow> bool" where
  "slideshow_ok s =
     (pending_pictures s = 1 \<and> (sh_results_pull_id s \<longleftrightarrow> sh_results_q s \<noteq> []) \<and> sh_timeout_id s
      \<and> (sh_pat2 s \<noteq> None \<longrightarrow> 0 \<le> sh_fade_ticks s \<and> sh_fade_ticks s < N_FADE_TICKS))"

named_theorems show_defs

lemmas [show_defs] = slideshow_ok_def pending_pictures_def start_new_load_def finish_fade_def update_display_def draw_iter_def
  push_load_image_func_def process_new_pixbuf_def start_fade_def N_FADE_TICKS_def Let_def

lemma set_property_same:
  "pending_pictures (gste_slideshow_set_property parse pr s) = pending_pictures s"
  "slideshow_ok (gste_slideshow_set_property parse pr s) = slideshow_ok s"
  by (cases pr; simp add: show_defs gste_slideshow_set_property_def gste_slideshow_set_images_location_def
      gste_slideshow_set_sort_images_def gste_slideshow_set_background_color_def gste_slideshow_set_no_stretch_hint_def)+

text \<open>The fields that no property and no drawing touches.\<close>

definition same_work :: "slideshow \<Rightarrow> slideshow \<Rightarrow> bool" where
  "same_work s s' =
     (sh_op_q s' = sh_op_q s \<and> sh_results_q s' = sh_results_q s \<and> sh_results_pull_id s' = sh_results_pull_id s
      \<and> sh_loader s' = sh_loader s \<and> sh_timeout_id s' = sh_timeout_id s)"

lemma update_display_same:
  "same_work s (update_display e dims s)" "sh_pat2 (update_display e dims s) = sh_pat2 s"
  "sh_update_image_id (update_display e dims s) = sh_update_image_id s" "sh_fade_ticks (update_display e dims s) = sh_fade_ticks s"
  "sh_fade_disabled (update_display e dims s) = sh_fade_disabled s" "sh_alpha2 (update_display e dims s) = sh_alpha2 s"
  by (simp_all add: update_display_def same_work_def Let_def split: option.split)

lemma draw_iter_ok:
  assumes "slideshow_ok s"
  shows "slideshow_ok (draw_iter e dims elapsed s)"
proof (cases "sh_pat2 s")
  case (Some p)
  then have up: "sh_update_image_id s = None" using assms by (auto simp: slideshow_ok_def pending_pictures_def split: if_splits)
  have fin: "slideshow_ok (finish_fade s')" if "same_work s s'" "sh_update_image_id s' = None" for s'
    using assms that Some up by (simp add: slideshow_ok_def pending_pictures_def finish_fade_def start_new_load_def same_work_def)
  have go: "slideshow_ok s'" if "same_work s s'" "sh_update_image_id s' = None" "sh_pat2 s' = sh_pat2 s"
      "0 \<le> sh_fade_ticks s'" "sh_fade_ticks s' < N_FADE_TICKS" for s'
    using assms that Some up by (simp add: slideshow_ok_def pending_pictures_def same_work_def)
  have ticks: "0 \<le> sh_fade_ticks s" "sh_fade_ticks s < 10" using assms Some by (auto simp: slideshow_ok_def N_FADE_TICKS_def)
  have sw: "same_work s (update_display e dims s')" if "same_work s s'" for s'
    using that update_display_same(1) [of s' e dims] by (simp add: same_work_def)
  show ?thesis
  proof (cases "sh_fade_disabled s")
    case True
    have "same_work s (update_display e dims (s\<lparr>sh_alpha2 := 1\<rparr>))" by (rule sw) (simp add: same_work_def)
    then show ?thesis using True Some up fin by (simp add: draw_iter_def update_display_same)
  next
    case False
    let ?a = "1 - (1 - of_int (sh_fade_ticks s + 1) / of_int N_FADE_TICKS) / (1 - of_int (sh_fade_ticks s) / of_int N_FADE_TICKS)"
    let ?u = "update_display e dims (s\<lparr>sh_fade_ticks := sh_fade_ticks s + 1, sh_alpha2 := ?a\<rparr>)"
    have u: "same_work s ?u" by (rule sw) (simp add: same_work_def)
    then have u': "same_work s (?u\<lparr>sh_fade_ticks := N_FADE_TICKS - 1, sh_fade_disabled := True\<rparr>)" by (simp add: same_work_def)
    have "draw_iter e dims elapsed s =
        (if too_slow (sh_fade_ticks s + 1) elapsed then ?u\<lparr>sh_fade_ticks := N_FADE_TICKS - 1, sh_fade_disabled := True\<rparr>
         else if N_FADE_TICKS \<le> sh_fade_ticks s + 1 then finish_fade ?u else ?u)"
      using Some False by (simp add: draw_iter_def Let_def update_display_same N_FADE_TICKS_def)
    then show ?thesis
      using u u' up ticks fin [of ?u] go [of ?u] go [of "?u\<lparr>sh_fade_ticks := N_FADE_TICKS - 1, sh_fade_disabled := True\<rparr>"]
      by (simp add: update_display_same N_FADE_TICKS_def)
  qed
qed (use assms in \<open>simp add: draw_iter_def\<close>)

lemma results_pull_ok:
  assumes ok: "slideshow_ok s" and pull: "sh_results_pull_id s"
  shows "\<exists>s'. results_pull_func e s = Inr s' \<and> slideshow_ok s'"
proof -
  have q: "sh_results_q s \<noteq> []" using ok pull by (simp add: slideshow_ok_def)
  moreover have "length (sh_results_q s) \<le> 1" using ok by (auto simp: slideshow_ok_def pending_pictures_def split: if_splits)
  ultimately obtain r where r: "sh_results_q s = [r]" by (cases "sh_results_q s") auto
  then have none: "sh_update_image_id s = None" "sh_op_q s = []" "sh_loader s = Waiting" "sh_pat2 s = None" "sh_timeout_id s"
    using ok by (auto simp: slideshow_ok_def pending_pictures_def split: if_splits)
  then show ?thesis
    using r by (cases r) (simp_all add: results_pull_func_def show_defs)
qed

lemma slist_sort_is_sort: "slist_sort fs = sort fs"
proof -
  have "insert_file f gs = insort f gs" for f gs
    by (induction gs) (auto simp: gste_strcmp_compare_func_def Let_def)
  then have "insert_file = insort" by (simp add: fun_eq_iff)
  then show ?thesis by (simp add: slist_sort_def sort_key_def)
qed

lemma draw_filename_ok:
  assumes "\<forall>n. 0 < n \<longrightarrow> rnd n < n"
  shows "\<exists>r. draw_filename e location sort_images rnd files = Inr r"
proof -
  define fs where "fs = (if files = [] then build_filename_list_local_dir e location else files)"
  define i where "i = (if \<not> sort_images then rnd (length (if sort_images then slist_sort fs else fs)) else 0)"
  have "i < length (if sort_images then slist_sort fs else fs)" if "fs \<noteq> []"
    using assms that by (simp add: i_def slist_sort_is_sort)
  then show ?thesis unfolding draw_filename_def Let_def fs_def [symmetric] i_def [symmetric] by (cases "fs = []") simp_all
qed

text \<open>Loading changes only the list of files and the state of the thread.\<close>

lemma get_pixbuf_same:
  assumes "\<forall>n. 0 < n \<longrightarrow> rnd n < n"
  shows "\<exists>fs pb. get_pixbuf e rnd location width height s = Inr (s\<lparr>sh_filename_list := fs\<rparr>, pb)"
proof -
  have same: "s = s\<lparr>sh_filename_list := sh_filename_list s\<rparr>" by simp
  have local: "\<exists>fs pb. get_pixbuf_from_local_dir e rnd l s = Inr (s\<lparr>sh_filename_list := fs\<rparr>, pb)" for l
    using draw_filename_ok [OF assms, of e l "sh_sort_images s" "sh_filename_list s"]
    by (auto simp: get_pixbuf_from_local_dir_def split: option.splits prod.splits)
  have "\<exists>fs pb. get_pixbuf_from_location e rnd location s = Inr (s\<lparr>sh_filename_list := fs\<rparr>, pb)"
    using local same by (auto simp: get_pixbuf_from_location_def split: option.split node.split) (metis same)+
  then show ?thesis
    using same by (auto simp: get_pixbuf_def split: option.split) (metis same)
qed

lemma thread_ok:
  assumes ok: "slideshow_ok s" and rnd: "\<forall>n. 0 < n \<longrightarrow> rnd n < n"
  shows "\<exists>s'. load_threadfunc e rnd s = Inr s' \<and> slideshow_ok s'"
proof (cases "sh_loader s")
  case Waiting
  then show ?thesis
    using ok by (cases "sh_op_q s") (auto simp: load_threadfunc_def slideshow_ok_def pending_pictures_def)
next
  case (Loading location)
  obtain fs pb where "get_pixbuf e rnd location (sh_window_width s) (sh_window_height s) s = Inr (s\<lparr>sh_filename_list := fs\<rparr>, pb)"
    using get_pixbuf_same [OF rnd] by blast
  then show ?thesis
    using ok Loading by (simp add: load_threadfunc_def op_load_image_def slideshow_ok_def pending_pictures_def)
next
  case (Loaded pixbuf)
  then show ?thesis
    using ok by (simp add: load_threadfunc_def op_push_result_def Let_def slideshow_ok_def pending_pictures_def)
qed

lemma show_react_ok:
  assumes ok: "slideshow_ok s" and ready: "show_ready ev s"
  shows "\<exists>s'. show_react e parse ev s = Inr s' \<and> slideshow_ok s'"
proof (cases ev)
  case Update_Timer
  then show ?thesis
    using ok ready by (simp add: show_react_def show_ready_def push_load_image_func_def slideshow_ok_def pending_pictures_def split: if_splits)
next
  case (Draw_Timer dims elapsed)
  then show ?thesis using draw_iter_ok [OF ok] by (simp add: show_react_def)
next
  case Results_Idle
  then show ?thesis using results_pull_ok [OF ok] ready by (simp add: show_react_def show_ready_def)
next
  case (Thread rnd)
  then show ?thesis using thread_ok [OF ok] ready by (simp add: show_react_def show_ready_def)
next
  case (Configured dims)
  then show ?thesis
    using ok by (simp add: show_react_def gste_slideshow_real_configure_def slideshow_ok_def pending_pictures_def)
next
  case (Property_Set pr)
  then show ?thesis using ok by (simp add: show_react_def set_property_same)
qed

lemma start_ok:
  "slideshow_ok (gste_slideshow_real_show (fold (gste_slideshow_set_property parse) props (gste_slideshow_init default_location)))"
proof -
  let ?P = "\<lambda>s. pending_pictures s = 0 \<and> \<not> sh_results_pull_id s"
  have "?P (gste_slideshow_set_property parse pr s)" if "?P s" for pr s
    using that set_property_same(1) [of parse pr s]
    by (cases pr) (simp_all add: gste_slideshow_set_property_def gste_slideshow_set_images_location_def
        gste_slideshow_set_sort_images_def gste_slideshow_set_background_color_def gste_slideshow_set_no_stretch_hint_def)
  then have "?P (fold (gste_slideshow_set_property parse) props s)" if "?P s" for s
    using that by (induction props arbitrary: s) auto
  then have "?P (fold (gste_slideshow_set_property parse) props (gste_slideshow_init default_location))"
    by (simp add: gste_slideshow_init_def pending_pictures_def)
  then show ?thesis
    by (auto simp: gste_slideshow_real_show_def slideshow_ok_def pending_pictures_def start_new_load_def split: if_splits)
qed

lemma show_reachable_ok: "show_reachable e parse s \<Longrightarrow> slideshow_ok s"
proof (induction rule: show_reachable.induct)
  case (step s ev s')
  then show ?case using show_react_ok [of s ev e parse] by auto
qed (rule start_ok)

text \<open>
  C36: the slide show never gets stuck.  In every state that the main loop and the thread reach, whatever their
  order, exactly one picture is on its way: asked for later, asked for, being loaded, loaded, or
  being faded in; what moves it on is pending, and no step fails, the assertion about the queue of results included.
\<close>

theorem slideshow_goes_on:
  assumes "show_reachable e parse s"
  shows "pending_pictures s = 1
     \<and> (sh_update_image_id s \<noteq> None \<or> sh_op_q s \<noteq> [] \<or> sh_loader s \<noteq> Waiting \<or> sh_results_pull_id s \<or> sh_pat2 s \<noteq> None \<and> sh_timeout_id s)
     \<and> (\<forall>ev. show_ready ev s \<longrightarrow> (\<exists>s'. show_react e parse ev s = Inr s'))"
proof (intro conjI allI impI)
  have ok: "slideshow_ok s" using show_reachable_ok [OF assms] .
  then show "pending_pictures s = 1" by (simp add: slideshow_ok_def)
  show "sh_update_image_id s \<noteq> None \<or> sh_op_q s \<noteq> [] \<or> sh_loader s \<noteq> Waiting \<or> sh_results_pull_id s \<or> sh_pat2 s \<noteq> None \<and> sh_timeout_id s"
    using ok by (auto simp: slideshow_ok_def pending_pictures_def)
  fix ev assume "show_ready ev s"
  then show "\<exists>s'. show_react e parse ev s = Inr s'" using show_react_ok [OF ok] by blast
qed

theorem slideshow_goes_on_witness:
  "\<exists>e s. show_reachable e (\<lambda>_. None) s \<and> sh_results_q s = [None] \<and> pending_pictures s = 1
     \<and> (\<exists>s'. show_react e (\<lambda>_. None) Results_Idle s = Inr s')"
proof -
  obtain e :: show_env where "e = e" by blast
  let ?s0 = "gste_slideshow_real_show (gste_slideshow_set_property (\<lambda>_. None) (PROP_IMAGES_LOCATION None) (gste_slideshow_init ''/pictures''))"
  let ?s1 = "push_load_image_func ?s0"
  let ?s2 = "?s1\<lparr>sh_op_q := [], sh_loader := Loading None\<rparr>"
  let ?s3 = "?s2\<lparr>sh_loader := Loaded None\<rparr>"
  let ?s4 = "?s3\<lparr>sh_results_q := [None], sh_loader := Waiting, sh_results_pull_id := True\<rparr>"
  note steps = gste_slideshow_real_show_def gste_slideshow_init_def gste_slideshow_set_property_def gste_slideshow_set_images_location_def
    start_new_load_def show_ready_def show_react_def
  have r0: "show_reachable e (\<lambda>_. None) ?s0"
    using show_reachable.start [of e "\<lambda>_. None" "[PROP_IMAGES_LOCATION None]" "''/pictures''"] by simp
  have r1: "show_reachable e (\<lambda>_. None) ?s1"
    by (rule show_reachable.step [OF r0, of Update_Timer]) (simp_all add: steps)
  have r2: "show_reachable e (\<lambda>_. None) ?s2"
    by (rule show_reachable.step [OF r1, of "Thread (\<lambda>_. 0)"]) (simp_all add: steps push_load_image_func_def load_threadfunc_def)
  have r3: "show_reachable e (\<lambda>_. None) ?s3"
    by (rule show_reachable.step [OF r2, of "Thread (\<lambda>_. 0)"])
       (simp_all add: steps push_load_image_func_def load_threadfunc_def op_load_image_def get_pixbuf_def)
  have r4: "show_reachable e (\<lambda>_. None) ?s4"
    by (rule show_reachable.step [OF r3, of "Thread (\<lambda>_. 0)"])
       (simp_all add: steps push_load_image_func_def load_threadfunc_def op_push_result_def)
  have "show_ready Results_Idle ?s4" by (simp add: show_ready_def)
  then have "\<exists>s'. show_react e (\<lambda>_. None) Results_Idle ?s4 = Inr s'" using slideshow_goes_on [OF r4] by blast
  then show ?thesis using r4 slideshow_goes_on [OF r4] by (intro exI [of _ e] exI [of _ ?s4]) simp
qed

section \<open>What is on the screen\<close>

definition in_picture :: "slideshow \<Rightarrow> int \<Rightarrow> int \<Rightarrow> bool" where
  "in_picture s px py = (sh_pat2left s \<le> px \<and> px < sh_pat2right s \<and> sh_pat2top s \<le> py \<and> py < sh_pat2bottom s)"

text \<open>The edges are those of the picture.\<close>

definition edges_ok :: "pattern \<Rightarrow> slideshow \<Rightarrow> bool" where
  "edges_ok p s =
     (pat_valid p \<and> sh_pat2left s = pat_x p \<and> sh_pat2right s = pat_x p + pb_width (pat_pixbuf p)
      \<and> sh_pat2top s = pat_y p \<and> sh_pat2bottom s = pat_y p + pb_height (pat_pixbuf p)
      \<and> 0 \<le> pb_width (pat_pixbuf p) \<and> 0 \<le> pb_height (pat_pixbuf p))"

text \<open>What the screen shows in the end: the picture, and the background around it.\<close>

definition target :: "pattern \<Rightarrow> slideshow \<Rightarrow> int \<Rightarrow> int \<Rightarrow> color" where
  "target p s px py = (if in_picture s px py then pb_pixel (pat_pixbuf p) (px - pat_x p) (py - pat_y p) else background s)"

text \<open>The rectangles and the picture meet every pixel of the window exactly once, wherever the picture lies.\<close>

lemma outside_once:
  assumes "0 \<le> px" "px < w" "0 \<le> py" "py < h" and "sh_pat2left s \<le> sh_pat2right s" "sh_pat2top s \<le> sh_pat2bottom s"
  shows "fold (\<lambda>r. fill_rectangle e r c a) (outside_rectangles w h s) surf px py
     = (if in_picture s px py then surf px py else se_over e a c (surf px py))"
proof -
  have "in_span 0 w px" "in_span 0 (sh_pat2top s) py \<longleftrightarrow> py < sh_pat2top s" "in_span 0 (sh_pat2left s) px \<longleftrightarrow> px < sh_pat2left s"
    "in_span (sh_pat2top s) (sh_pat2bottom s - sh_pat2top s) py \<longleftrightarrow> sh_pat2top s \<le> py \<and> py < sh_pat2bottom s"
    "in_span (sh_pat2bottom s) (h - sh_pat2bottom s) py \<longleftrightarrow> sh_pat2bottom s \<le> py"
    "in_span (sh_pat2right s) (w - sh_pat2right s) px \<longleftrightarrow> sh_pat2right s \<le> px"
    using assms by (auto simp: in_span_def)
  then show ?thesis
    using assms(5,6) by (auto simp: outside_rectangles_def fill_rectangle_def in_picture_def)
qed

lemma update_display_pixel:
  assumes "sh_surf s = Some surf" "sh_pat2 s = Some p" "edges_ok p s"
    and "0 \<le> px" "px < fst dims" "0 \<le> py" "py < snd dims"
  shows "\<exists>surf'. sh_surf (update_display e dims s) = Some surf' \<and> surf' px py = se_over e (sh_alpha2 s) (target p s px py) (surf px py)"
proof -
  have "sh_pat2left s \<le> sh_pat2right s" "sh_pat2top s \<le> sh_pat2bottom s" using assms(3) by (auto simp: edges_ok_def)
  note once = outside_once [OF assms(4-7) this]
  have pic: "paint_with_alpha e p a surf' px py
      = (if in_picture s px py then se_over e a (pb_pixel (pat_pixbuf p) (px - pat_x p) (py - pat_y p)) (surf' px py) else surf' px py)"
    for a surf' using assms(3) by (auto simp: edges_ok_def in_picture_def paint_with_alpha_def Let_def)
  show ?thesis
    using assms(1,2) by (simp add: update_display_def Let_def pic once target_def)
qed

lemma update_display_keeps:
  shows "target p (update_display e dims s) = target p s" and "edges_ok p (update_display e dims s) = edges_ok p s"
proof -
  let ?u = "update_display e dims s"
  have "sh_pat2left ?u = sh_pat2left s" "sh_pat2right ?u = sh_pat2right s" "sh_pat2top ?u = sh_pat2top s"
    "sh_pat2bottom ?u = sh_pat2bottom s" "background ?u = background s"
    by (simp_all add: update_display_def Let_def background_def split: option.split)
  then show "target p ?u = target p s" "edges_ok p ?u = edges_ok p s"
    by (simp_all add: target_def edges_ok_def in_picture_def fun_eq_iff)
qed

lemma fade_fields [simp]:
  "target p (s\<lparr>sh_alpha2 := a\<rparr>) = target p s" "edges_ok p (s\<lparr>sh_alpha2 := a\<rparr>) = edges_ok p s"
  "target p (s\<lparr>sh_fade_ticks := n\<rparr>) = target p s" "edges_ok p (s\<lparr>sh_fade_ticks := n\<rparr>) = edges_ok p s"
  "target p (s\<lparr>sh_fade_disabled := b\<rparr>) = target p s" "edges_ok p (s\<lparr>sh_fade_disabled := b\<rparr>) = edges_ok p s"
  by (simp_all add: target_def in_picture_def background_def edges_ok_def fun_eq_iff)

text \<open>What the code relies on when it paints an opaque colour several times.\<close>

definition paints :: "(rat \<Rightarrow> color \<Rightarrow> color \<Rightarrow> color) \<Rightarrow> color \<Rightarrow> bool" where
  "paints over c =
     ((\<forall>a b d. 0 \<le> a \<and> a \<le> 1 \<and> 0 \<le> b \<and> b \<le> 1 \<longrightarrow> over a c (over b c d) = over (1 - (1 - a) * (1 - b)) c d)
      \<and> (\<forall>d. over 1 c d = c) \<and> (\<forall>d. over 0 c d = d))"

lemma fade_alpha:
  fixes n :: int
  assumes "0 \<le> n" "n < 10"
  shows "0 \<le> 1 - (1 - of_int (n + 1) / 10) / (1 - of_int n / 10 :: rat)" "1 - (1 - of_int (n + 1) / 10) / (1 - of_int n / 10 :: rat) \<le> 1"
    "1 - (1 - (1 - (1 - of_int (n + 1) / 10) / (1 - of_int n / 10 :: rat))) * (1 - of_int n / 10) = of_int (n + 1) / 10"
proof -
  have n: "(of_int n :: rat) \<le> 9" "0 \<le> (of_int n :: rat)" using assms by (simp_all add: of_int_le_iff [where 'a = rat, of n 9, simplified])
  then have pos: "0 < 1 - of_int n / (10 :: rat)" by simp
  show "0 \<le> 1 - (1 - of_int (n + 1) / 10) / (1 - of_int n / 10 :: rat)" using pos by (simp add: divide_le_eq)
  show "1 - (1 - of_int (n + 1) / 10) / (1 - of_int n / 10 :: rat) \<le> 1" using pos n by (simp add: zero_le_divide_iff)
  show "1 - (1 - (1 - (1 - of_int (n + 1) / 10) / (1 - of_int n / 10 :: rat))) * (1 - of_int n / 10) = of_int (n + 1) / 10"
    using pos by simp
qed

text \<open>A fade under way: what a pixel shows after some frames.\<close>

definition fading :: "show_env \<Rightarrow> pattern \<Rightarrow> int \<Rightarrow> int \<Rightarrow> color \<Rightarrow> color \<Rightarrow> slideshow \<Rightarrow> bool" where
  "fading e p px py c d s =
     (sh_pat2 s = Some p \<and> edges_ok p s \<and> target p s px py = c \<and> 0 \<le> sh_fade_ticks s \<and> sh_fade_ticks s < 10
      \<and> (\<exists>surf. sh_surf s = Some surf \<and> (sh_fade_disabled s \<or> surf px py = se_over e (of_int (sh_fade_ticks s) / 10) c d)))"

text \<open>It is over: the picture and its background are on the screen and the next picture is asked for.\<close>

definition faded :: "pattern \<Rightarrow> int \<Rightarrow> int \<Rightarrow> color \<Rightarrow> slideshow \<Rightarrow> bool" where
  "faded p px py c s =
     (sh_pat2 s = None \<and> sh_pat1 s = Some p \<and> sh_update_image_id s \<noteq> None \<and> (\<exists>surf. sh_surf s = Some surf \<and> surf px py = c))"

lemma draw_iter_fading:
  assumes f: "fading e p px py c d s" and paints: "paints (se_over e) c"
    and px: "0 \<le> px" "px < fst dims" "0 \<le> py" "py < snd dims"
  shows "if sh_fade_disabled s then faded p px py c (draw_iter e dims elapsed s)
     else if too_slow (sh_fade_ticks s + 1) elapsed
       then fading e p px py c d (draw_iter e dims elapsed s) \<and> sh_fade_disabled (draw_iter e dims elapsed s)
     else if sh_fade_ticks s = 9 then faded p px py c (draw_iter e dims elapsed s)
     else fading e p px py c d (draw_iter e dims elapsed s) \<and> \<not> sh_fade_disabled (draw_iter e dims elapsed s)
       \<and> sh_fade_ticks (draw_iter e dims elapsed s) = sh_fade_ticks s + 1"
proof -
  obtain surf where s: "sh_pat2 s = Some p" "edges_ok p s" "target p s px py = c" "0 \<le> sh_fade_ticks s" "sh_fade_ticks s < 10"
    "sh_surf s = Some surf" "sh_fade_disabled s \<or> surf px py = se_over e (of_int (sh_fade_ticks s) / 10) c d"
    using f by (auto simp: fading_def)
  have over1: "se_over e 1 c d' = c" for d' using paints unfolding paints_def by blast
  have fin: "faded p px py c (finish_fade s')" if "sh_pat2 s' = Some p" "sh_surf s' = Some surf'" "surf' px py = c" for s' surf'
    using that by (auto simp: faded_def finish_fade_def start_new_load_def)
  show ?thesis
  proof (cases "sh_fade_disabled s")
    case True
    let ?s = "s\<lparr>sh_alpha2 := 1\<rparr>"
    have "sh_surf ?s = Some surf" "sh_pat2 ?s = Some p" "edges_ok p ?s" "target p ?s px py = c"
      using s by simp_all
    from update_display_pixel [OF this(1-3) px, of e] this(4) obtain surf' where
      "sh_surf (update_display e dims ?s) = Some surf'" "surf' px py = c" by (auto simp: over1)
    then show ?thesis using True s(1) fin [of "update_display e dims ?s"] by (simp add: draw_iter_def update_display_same)
  next
    case False
    let ?n = "sh_fade_ticks s"
    let ?a = "1 - (1 - of_int (?n + 1) / 10) / (1 - of_int ?n / 10) :: rat"
    let ?s = "s\<lparr>sh_fade_ticks := ?n + 1, sh_alpha2 := ?a\<rparr>"
    let ?u = "update_display e dims ?s"
    have ss: "sh_surf ?s = Some surf" "sh_pat2 ?s = Some p" "edges_ok p ?s" "target p ?s px py = c"
      using s by simp_all
    from update_display_pixel [OF ss(1-3) px, of e] ss(4) obtain surf' where
      u: "sh_surf ?u = Some surf'" "surf' px py = se_over e ?a c (surf px py)" by auto
    have n01: "0 \<le> of_int ?n / (10 :: rat)" "of_int ?n / (10 :: rat) \<le> 1"
      using s(4,5) by (simp_all add: of_int_le_iff [where 'a = rat, of ?n 10, simplified])
    have "se_over e ?a c (se_over e (of_int ?n / 10) c d) = se_over e (1 - (1 - ?a) * (1 - of_int ?n / 10)) c d"
      using paints fade_alpha(1,2) [OF s(4,5)] n01 unfolding paints_def by blast
    then have u': "surf' px py = se_over e (of_int (?n + 1) / 10) c d"
      using u(2) s(7) False by (simp only: fade_alpha(3) [OF s(4,5)] simp_thms)
    have keep: "sh_pat2 ?u = Some p" "edges_ok p ?u" "target p ?u px py = c" "sh_fade_ticks ?u = ?n + 1" "\<not> sh_fade_disabled ?u"
      using ss(2-4) False update_display_keeps [of p e dims ?s] by (simp_all add: update_display_same)
    have it: "draw_iter e dims elapsed s =
        (if too_slow (?n + 1) elapsed then ?u\<lparr>sh_fade_ticks := 9, sh_fade_disabled := True\<rparr>
         else if 10 \<le> ?n + 1 then finish_fade ?u else ?u)"
      using s(1) False by (simp add: draw_iter_def Let_def update_display_same N_FADE_TICKS_def)
    have slow: "fading e p px py c d (?u\<lparr>sh_fade_ticks := 9, sh_fade_disabled := True\<rparr>)"
      using keep u(1) by (simp add: fading_def)
    have last: "faded p px py c (finish_fade ?u)" if "?n = 9"
      using fin [OF keep(1) u(1)] u' that by (simp add: over1)
    have go: "fading e p px py c d ?u" if "?n \<noteq> 9"
      using keep u(1) u' s(4,5) that by (simp add: fading_def)
    show ?thesis using False it slow last go s(5) keep by auto
  qed
qed

abbreviation draw_frames :: "show_env \<Rightarrow> int \<times> int \<Rightarrow> rat list \<Rightarrow> slideshow \<Rightarrow> slideshow" where
  "draw_frames e dims es \<equiv> fold (draw_iter e dims) es"

lemma start_fading:
  assumes "sh_surf s = Some surf" and "0 \<le> pb_width pb" "0 \<le> pb_height pb"
    and "sh_pat2 (start_fade e pb s) = Some p" and "paints (se_over e) (target p (start_fade e pb s) px py)"
  shows "fading e p px py (target p (start_fade e pb s) px py) (surf px py) (start_fade e pb s)"
proof -
  have "se_over e 0 (target p (start_fade e pb s) px py) d = d" for d using assms(5) unfolding paints_def by blast
  moreover have "edges_ok p (start_fade e pb s)"
    using assms(1-4) by (auto simp: start_fade_def edges_ok_def Let_def split: option.splits)
  ultimately show ?thesis
    using assms(1,4) by (auto simp: fading_def start_fade_def Let_def)
qed

lemma fading_ends:
  assumes "fading e p px py c d s" and "paints (se_over e) c" and "0 \<le> px" "px < fst dims" "0 \<le> py" "py < snd dims"
    and "(if sh_fade_disabled s then 1 else nat (11 - sh_fade_ticks s)) \<le> length es"
  shows "\<exists>k \<le> (if sh_fade_disabled s then 1 else nat (11 - sh_fade_ticks s)). faded p px py c (draw_frames e dims (take k es) s)"
  using assms(1,7)
proof (induction es arbitrary: s)
  case Nil
  then show ?case by (auto simp: fading_def split: if_splits)
next
  case (Cons elapsed es)
  let ?s = "draw_iter e dims elapsed s"
  have t: "0 \<le> sh_fade_ticks s" "sh_fade_ticks s < 10" using Cons.prems(1) by (auto simp: fading_def)
  note step = draw_iter_fading [OF Cons.prems(1) assms(2-6), of elapsed]
  have now: "draw_frames e dims (take (Suc k) (elapsed # es)) s = draw_frames e dims (take k es) ?s" for k by simp
  consider (ended) "faded p px py c ?s"
    | (slow) "fading e p px py c d ?s" "sh_fade_disabled ?s" "\<not> sh_fade_disabled s"
    | (next_one) "fading e p px py c d ?s" "\<not> sh_fade_disabled ?s" "\<not> sh_fade_disabled s" "sh_fade_ticks ?s = sh_fade_ticks s + 1"
    using step by (auto split: if_splits)
  then show ?case
  proof cases
    case ended
    then show ?thesis using t by (intro exI [of _ "Suc 0"]) (auto simp: now)
  next
    case slow
    have "1 \<le> length es" using Cons.prems(2) slow(3) t by simp
    then obtain k where "k \<le> 1" "faded p px py c (draw_frames e dims (take k es) ?s)"
      using Cons.IH [OF slow(1)] slow(2) by auto
    then show ?thesis using slow(3) t by (intro exI [of _ "Suc k"]) (auto simp: now)
  next
    case next_one
    have "nat (11 - sh_fade_ticks ?s) \<le> length es" using Cons.prems(2) next_one(3,4) t by simp
    then obtain k where "k \<le> nat (11 - sh_fade_ticks ?s)" "faded p px py c (draw_frames e dims (take k es) ?s)"
      using Cons.IH [OF next_one(1)] next_one(2) by auto
    then show ?thesis using next_one(3,4) t by (intro exI [of _ "Suc k"]) (auto simp: now)
  qed
qed

lemma fading_even:
  assumes "paints (se_over e) c" and "0 \<le> px" "px < fst dims" "0 \<le> py" "py < snd dims"
    and "fading e p px py c d s" "\<not> sh_fade_disabled s" "sh_fade_ticks s + int (length es) < 10"
    and "\<forall>i < length es. \<not> too_slow (sh_fade_ticks s + 1 + int i) (es ! i)"
  shows "fading e p px py c d (draw_frames e dims es s) \<and> \<not> sh_fade_disabled (draw_frames e dims es s)
     \<and> sh_fade_ticks (draw_frames e dims es s) = sh_fade_ticks s + int (length es)"
  using assms(6-9)
proof (induction es arbitrary: s)
  case (Cons elapsed es)
  let ?s = "draw_iter e dims elapsed s"
  have fast: "\<not> too_slow (sh_fade_ticks s + 1) elapsed" using Cons.prems(4) by force
  have n9: "sh_fade_ticks s \<noteq> 9" using Cons.prems(3) by simp
  have s: "fading e p px py c d ?s" "\<not> sh_fade_disabled ?s" "sh_fade_ticks ?s = sh_fade_ticks s + 1"
    using draw_iter_fading [OF Cons.prems(1) assms(1-5), of elapsed] Cons.prems(2) fast n9 by simp_all
  have "\<forall>i < length es. \<not> too_slow (sh_fade_ticks ?s + 1 + int i) (es ! i)"
  proof (intro allI impI)
    fix i assume "i < length es"
    then have "\<not> too_slow (sh_fade_ticks s + 1 + int (Suc i)) ((elapsed # es) ! Suc i)" using Cons.prems(4) by (metis Suc_mono length_Cons)
    then show "\<not> too_slow (sh_fade_ticks ?s + 1 + int i) (es ! i)" by (simp add: s(3) algebra_simps)
  qed
  then show ?case using Cons.IH [OF s(1,2)] s(3) Cons.prems(3) by simp
qed simp

text \<open>
  A fade ends with the picture.  However fast the machine is, after at most eleven frames every
  pixel of the window shows the new picture, or the background around it, and the next picture is asked for.
\<close>

theorem fade_reaches_picture:
  assumes "sh_surf s = Some surf" and "0 \<le> pb_width pb" "0 \<le> pb_height pb"
    and "sh_pat2 (start_fade e pb s) = Some p" and "paints (se_over e) (target p (start_fade e pb s) px py)"
    and "0 \<le> px" "px < fst dims" "0 \<le> py" "py < snd dims" and "11 \<le> length es"
  shows "\<exists>k \<le> 11. let s' = draw_frames e dims (take k es) (start_fade e pb s) in
     sh_pat2 s' = None \<and> sh_pat1 s' = Some p \<and> sh_update_image_id s' \<noteq> None
     \<and> (\<exists>surf'. sh_surf s' = Some surf' \<and> surf' px py = target p (start_fade e pb s) px py)"
proof -
  let ?s = "start_fade e pb s"
  have f: "fading e p px py (target p ?s px py) (surf px py) ?s" by (rule start_fading [OF assms(1-5)])
  have t: "sh_fade_ticks ?s = 0" by (simp add: start_fade_def Let_def)
  obtain k where "k \<le> (if sh_fade_disabled ?s then 1 else 11)" "faded p px py (target p ?s px py) (draw_frames e dims (take k es) ?s)"
    using fading_ends [OF f assms(5-9), of es] assms(10) t by (cases "sh_fade_disabled ?s") auto
  then show ?thesis by (intro exI [of _ k]) (auto simp: faded_def Let_def split: if_splits)
qed

definition mix :: "rat \<Rightarrow> color \<Rightarrow> color \<Rightarrow> color" where
  "mix a c d =
     (case (c, d) of ((r, g, b, al), (r', g', b', al')) \<Rightarrow>
        (a * r + (1 - a) * r', a * g + (1 - a) * g', a * b + (1 - a) * b', a * al + (1 - a) * al'))"

lemma mix_paints: "paints mix c"
  by (cases c) (auto simp: paints_def mix_def algebra_simps)

definition sample_show_env :: show_env where
  "sample_show_env =
     \<lparr>se_over = mix, se_load = (\<lambda>_. None), se_orient = Some, se_scale = (\<lambda>p w h. None), se_composite = (\<lambda>p c. p),
      se_node = (\<lambda>p. if p = ''/p'' then Some (Dir [(''b.png'', File), (''.x'', File), (''a.png'', File)]) else None)\<rparr>"

text \<open>A white picture of two by two pixels in a black window of four by four.\<close>

definition sample_picture :: pixbuf where
  "sample_picture = \<lparr>pb_width = 2, pb_height = 2, pb_has_alpha = False, pb_pixel = (\<lambda>_ _. (1, 1, 1, 1))\<rparr>"

definition sample_show :: slideshow where
  "sample_show = gste_slideshow_real_configure (4, 4) (gste_slideshow_real_show (gste_slideshow_init ''/p''))"

lemma sample_fade:
  "sh_surf sample_show = Some (\<lambda>_ _. (0, 0, 0, 1))" "sh_fade_disabled sample_show = False"
  "sh_pat2 (start_fade sample_show_env sample_picture sample_show) = Some \<lparr>pat_valid = True, pat_pixbuf = sample_picture, pat_x = 1, pat_y = 1\<rparr>"
  "target \<lparr>pat_valid = True, pat_pixbuf = sample_picture, pat_x = 1, pat_y = 1\<rparr> (start_fade sample_show_env sample_picture sample_show) 1 1 = (1, 1, 1, 1)"
  by (simp_all add: sample_show_def sample_picture_def start_fade_def gste_slideshow_real_configure_def gste_slideshow_real_show_def
      gste_slideshow_init_def start_new_load_def c_half_def target_def in_picture_def Let_def)

theorem fade_reaches_picture_witness:
  "\<exists>k \<le> 11. \<exists>surf. sh_surf (draw_frames sample_show_env (4, 4) (take k (replicate 11 1)) (start_fade sample_show_env sample_picture sample_show)) = Some surf
     \<and> surf 1 1 = (1, 1, 1, 1)"
proof -
  have "se_over sample_show_env = mix" "0 \<le> pb_width sample_picture" "0 \<le> pb_height sample_picture"
    by (simp_all add: sample_show_env_def sample_picture_def)
  then show ?thesis
    using fade_reaches_picture [OF sample_fade(1) _ _ sample_fade(3), of 1 1 "(4, 4)" "replicate 11 1"]
    by (auto simp: mix_paints sample_fade(4) Let_def)
qed

text \<open>
  The fade is even.  On a machine that is fast enough, after \<open>k\<close> of the ten frames every pixel of the window
  is mixed of \<open>k\<close> tenths of the new picture and the rest of what was there before, although each frame paints over
  the one before.
\<close>

theorem fade_is_even:
  assumes "sh_surf s = Some surf" and "0 \<le> pb_width pb" "0 \<le> pb_height pb"
    and "sh_pat2 (start_fade e pb s) = Some p" and "paints (se_over e) (target p (start_fade e pb s) px py)"
    and "0 \<le> px" "px < fst dims" "0 \<le> py" "py < snd dims"
    and "\<not> sh_fade_disabled s" and "length es < 10" and "\<forall>i < length es. \<not> too_slow (1 + int i) (es ! i)"
  shows "\<exists>surf'. sh_surf (draw_frames e dims es (start_fade e pb s)) = Some surf'
     \<and> surf' px py = se_over e (of_nat (length es) / 10) (target p (start_fade e pb s) px py) (surf px py)"
proof -
  let ?s = "start_fade e pb s"
  have f: "fading e p px py (target p ?s px py) (surf px py) ?s" by (rule start_fading [OF assms(1-5)])
  have t: "sh_fade_ticks ?s = 0" "\<not> sh_fade_disabled ?s" using assms(10) by (simp_all add: start_fade_def Let_def)
  show ?thesis
    using fading_even [OF assms(5-9) f t(2), of es] t(1) assms(11,12) by (auto simp: fading_def)
qed

theorem fade_is_even_witness:
  "\<exists>surf. sh_surf (draw_frames sample_show_env (4, 4) [1 / 10, 2 / 10] (start_fade sample_show_env sample_picture sample_show)) = Some surf
     \<and> surf 1 1 = (1 / 5, 1 / 5, 1 / 5, 1)"
proof -
  have "se_over sample_show_env = mix" "0 \<le> pb_width sample_picture" "0 \<le> pb_height sample_picture"
    by (simp_all add: sample_show_env_def sample_picture_def)
  moreover have "\<forall>i < length [1 / 10, 2 / 10 :: rat]. \<not> too_slow (1 + int i) ([1 / 10, 2 / 10] ! i)"
    by (auto simp: less_Suc_eq too_slow_def MINIMUM_FPS_def)
  ultimately show ?thesis
    using fade_is_even [OF sample_fade(1) _ _ sample_fade(3), of 1 1 "(4, 4)" "[1 / 10, 2 / 10]"]
    by (auto simp: mix_paints sample_fade mix_def)
qed

section \<open>One round through the pictures\<close>

text \<open>Several pictures drawn one after the other.\<close>

primrec draw_many :: "show_env \<Rightarrow> string \<Rightarrow> bool \<Rightarrow> (nat \<Rightarrow> nat) list \<Rightarrow> string list \<Rightarrow> (string list \<times> string list) res" where
  "draw_many e location sort_images [] files = ret ([], files)"
| "draw_many e location sort_images (rnd # rnds) files =
     rbind (draw_filename e location sort_images rnd files) (\<lambda>drawn.
     case drawn of
       None \<Rightarrow> draw_many e location sort_images rnds []
     | Some (filename, rest) \<Rightarrow>
         rbind (draw_many e location sort_images rnds rest) (\<lambda>(fs, rest). ret (filename # fs, rest)))"

lemma mset_delete_nth: "i < length xs \<Longrightarrow> mset xs = add_mset (xs ! i) (mset (delete_nth i xs))"
  by (subst id_take_nth_drop [of i xs]) (simp_all add: delete_nth_def del: append_take_drop_id)

lemma length_delete_nth: "i < length xs \<Longrightarrow> length (delete_nth i xs) = length xs - 1"
  by (simp add: delete_nth_def)

lemma draw_filename_nonempty:
  assumes "files \<noteq> []" and "\<forall>n. 0 < n \<longrightarrow> rnd n < n"
  shows "\<exists>f rest. draw_filename e location sort_images rnd files = Inr (Some (f, rest))
     \<and> mset files = add_mset f (mset rest) \<and> (sort_images \<longrightarrow> f # rest = sort files)"
proof (cases sort_images)
  case True
  obtain f rest where f: "sort files = f # rest" using assms(1) by (cases "sort files") (auto dest: arg_cong [where f = length])
  then have "mset files = add_mset f (mset rest)" by (metis mset.simps(2) mset_sort)
  then show ?thesis using assms(1) True f by (simp add: draw_filename_def slist_sort_is_sort delete_nth_def)
next
  case False
  have "rnd (length files) < length files" using assms by simp
  then show ?thesis using assms(1) False mset_delete_nth [of "rnd (length files)" files] by (simp add: draw_filename_def Let_def)
qed

lemma draw_rest:
  assumes "length rnds = length files" and "\<forall>rnd \<in> set rnds. \<forall>n. 0 < n \<longrightarrow> rnd n < n"
  shows "\<exists>fs. draw_many e location sort_images rnds files = Inr (fs, []) \<and> mset fs = mset files \<and> (sort_images \<longrightarrow> fs = sort files)"
  using assms
proof (induction rnds arbitrary: files)
  case (Cons rnd rnds)
  then have ne: "files \<noteq> []" by auto
  obtain f rest where f: "draw_filename e location sort_images rnd files = Inr (Some (f, rest))"
    "mset files = add_mset f (mset rest)" "sort_images \<longrightarrow> f # rest = sort files"
    using draw_filename_nonempty [OF ne, of rnd e location sort_images] Cons.prems(2) by auto
  have "length rest = length rnds" using arg_cong [OF f(2), of size] Cons.prems(1) by simp
  then obtain fs where fs: "draw_many e location sort_images rnds rest = Inr (fs, [])" "mset fs = mset rest" "sort_images \<longrightarrow> fs = sort rest"
    using Cons.IH [of rest] Cons.prems(2) by auto
  have "sort rest = rest" if sort_images
    using f(3) that sorted_sort [of files] by (metis sorted_simps(2) sorted_sort_id)
  then have "sort_images \<longrightarrow> f # fs = sort files" using f(3) fs(3) by simp
  moreover have "draw_many e location sort_images (rnd # rnds) files = Inr (f # fs, [])" by (simp add: f(1) fs(1))
  moreover have "mset (f # fs) = mset files" by (simp add: f(2) fs(2))
  ultimately show ?case by blast
qed simp

text \<open>
  Every picture is shown once before one is shown again.  A round starts when the list is used up; as many
  draws as the directory has files that are not hidden, at any depth, give each of them exactly
  once, in the order of their names if that was asked for, and leave the list empty.
\<close>

theorem round_shows_all:
  assumes "length rnds = length (build_filename_list_local_dir e location)"
    and "\<forall>rnd \<in> set rnds. \<forall>n. 0 < n \<longrightarrow> rnd n < n"
  shows "\<exists>fs. draw_many e location sort_images rnds [] = Inr (fs, [])
     \<and> mset fs = mset (build_filename_list_local_dir e location)
     \<and> (sort_images \<longrightarrow> fs = sort (build_filename_list_local_dir e location))"
proof (cases rnds)
  case Nil
  then show ?thesis using assms(1) by simp
next
  case (Cons rnd rnds')
  let ?files = "build_filename_list_local_dir e location"
  have "?files \<noteq> []" using assms(1) Cons by auto
  then have "draw_filename e location sort_images rnd [] = draw_filename e location sort_images rnd ?files"
    by (simp add: draw_filename_def)
  then have "draw_many e location sort_images rnds [] = draw_many e location sort_images rnds ?files" using Cons by simp
  then show ?thesis using draw_rest [OF assms] by simp
qed

theorem round_shows_all_witness:
  "draw_many sample_show_env ''/p'' True [\<lambda>n. 0, \<lambda>n. 0] [] = Inr ([''/p/a.png'', ''/p/b.png''], [])"
proof -
  have files: "build_filename_list_local_dir sample_show_env ''/p'' = [''/p/a.png'', ''/p/b.png'']"
    by (simp add: build_filename_list_local_dir_def sample_show_env_def)
  have "sort [''/p/a.png'', ''/p/b.png''] = [''/p/a.png'', ''/p/b.png'']" by (simp add: less_eq_char_def)
  then show ?thesis
    using round_shows_all [of "[\<lambda>n. 0, \<lambda>n. 0]" sample_show_env "''/p''" True, unfolded files]
    by (simp del: draw_many.simps)
qed

section \<open>Sizes and colours\<close>

text \<open>
  A scaled picture fits.  When scaling yields the size that was asked for, the picture that is shown lies
  within the window, and its width or its height is that of the window unless it must not be stretched;
  pictures below 256 pixels are left out.
\<close>

theorem scaled_picture_fits:
  assumes "scale_pixbuf e pb w h no_stretch = Some pb'" and "0 < w" "0 < h"
    and "\<forall>p pw ph q. se_scale e p pw ph = Some q \<longrightarrow> pb_width q = pw \<and> pb_height q = ph"
  shows "pb_width pb' \<le> w \<and> pb_height pb' \<le> h
     \<and> (pb_width pb' = w \<or> pb_height pb' = h \<or> no_stretch \<and> pb' = pb) \<and> 256 \<le> pb_width pb \<and> 256 \<le> pb_height pb"
proof -
  define pw ph where "pw = pb_width pb" and "ph = pb_height pb"
  define fx fy where "fx = (of_int w / of_int pw :: rat)" and "fy = (of_int h / of_int ph :: rat)"
  define f where "f = (if fy < fx then fy else fx)"
  have big: "256 \<le> pw" "256 \<le> ph" using assms(1) by (auto simp: scale_pixbuf_def Let_def pw_def ph_def split: if_splits)
  have r: "(if f < 1 \<or> \<not> no_stretch then se_scale e pb \<lfloor>of_int pw * f\<rfloor> \<lfloor>of_int ph * f\<rfloor> else Some pb) = Some pb'"
    using assms(1) big unfolding scale_pixbuf_def Let_def pw_def [symmetric] ph_def [symmetric] fx_def [symmetric] fy_def [symmetric]
      f_def [symmetric] by simp
  have w: "of_int pw * fx = of_int w" "of_int ph * fy = of_int h" using big by (simp_all add: fx_def fy_def)
  have le: "f \<le> fx" "f \<le> fy" by (simp_all add: f_def)
  have fits: "of_int pw * f \<le> (of_int w :: rat)" "of_int ph * f \<le> (of_int h :: rat)"
    using mult_left_mono [OF le(1), of "of_int pw"] mult_left_mono [OF le(2), of "of_int ph"] w big by simp_all
  show ?thesis
  proof (cases "f < 1 \<or> \<not> no_stretch")
    case True
    then have q: "pb_width pb' = \<lfloor>of_int pw * f\<rfloor>" "pb_height pb' = \<lfloor>of_int ph * f\<rfloor>" using r assms(4) by auto
    have "\<lfloor>of_int pw * f\<rfloor> \<le> w" "\<lfloor>of_int ph * f\<rfloor> \<le> h" using floor_mono [OF fits(1)] floor_mono [OF fits(2)] by simp_all
    moreover have "\<lfloor>of_int pw * f\<rfloor> = w \<or> \<lfloor>of_int ph * f\<rfloor> = h" using w by (auto simp: f_def)
    ultimately show ?thesis using q big by (auto simp: pw_def ph_def)
  next
    case False
    then have "pb' = pb" "1 \<le> f" using r by auto
    then have "of_int pw * 1 \<le> (of_int pw * f :: rat)" "of_int ph * 1 \<le> (of_int ph * f :: rat)"
      using big by (intro mult_left_mono; simp)+
    then have "of_int pw \<le> (of_int w :: rat)" "of_int ph \<le> (of_int h :: rat)" using fits by simp_all
    then show ?thesis using False \<open>pb' = pb\<close> big by (simp add: pw_def ph_def)
  qed
qed

theorem scaled_picture_fits_witness:
  "\<exists>pb'. scale_pixbuf (sample_show_env\<lparr>se_scale := (\<lambda>p w h. Some (p\<lparr>pb_width := w, pb_height := h\<rparr>))\<rparr>)
       (sample_picture\<lparr>pb_width := 300, pb_height := 600\<rparr>) 800 600 True = Some pb' \<and> pb_width pb' \<le> 800 \<and> pb_height pb' \<le> 600"
proof -
  let ?e = "sample_show_env\<lparr>se_scale := (\<lambda>p w h. Some (p\<lparr>pb_width := w, pb_height := h\<rparr>))\<rparr>"
  let ?p = "sample_picture\<lparr>pb_width := 300, pb_height := 600\<rparr>"
  have s: "scale_pixbuf ?e ?p 800 600 True = Some ?p" by (simp add: scale_pixbuf_def)
  have "\<forall>p pw ph q. se_scale ?e p pw ph = Some q \<longrightarrow> pb_width q = pw \<and> pb_height q = ph" by auto
  from scaled_picture_fits [OF s _ _ this] show ?thesis using s by auto
qed

text \<open>
  The red part of the colour for transparent pictures is the low byte of the 16 bits that Pango gives, not the high one
  as for green and blue; for a colour that was written with two digits both are the same.
\<close>

lemma composite_color_red:
  assumes "green < 65536" "blue < 65536"
  shows "composite_color (red, green, blue) div 2 ^ 16 mod 256 = red mod 256"
proof -
  define l where "l = green div 256 * 2 ^ 8 + blue div 256"
  have "green div 256 \<le> 255" "blue div 256 \<le> 255" using assms by simp_all
  then have b: "l < 2 ^ 16" unfolding l_def by simp
  have "(red * 2 ^ 16 + l) mod 2 ^ 32 div 2 ^ 16 = (red * 2 ^ 16 + l) div 2 ^ 16 mod 2 ^ 16"
    using mod_mult2_eq [of "red * 2 ^ 16 + l" "2 ^ 16" "2 ^ 16"] by simp
  also have "(red * 2 ^ 16 + l) div 2 ^ 16 = red" using b by simp
  finally show ?thesis by (simp add: composite_color_def l_def add.assoc mod_mod_cancel)
qed

lemma composite_color_two_digits:
  assumes "r < 256" "g < 256" "b < 256"
  shows "composite_color (257 * r, 257 * g, 257 * b) div 2 ^ 16 mod 256 = r"
proof -
  have "257 * r mod 256 = (r + 256 * r) mod 256" by simp
  also have "\<dots> = r" using assms(1) by (simp only: mod_mult_self2 mod_less)
  finally have r: "257 * r mod 256 = r" .
  have "257 * g < 65536" "257 * b < 65536" using assms by simp_all
  from composite_color_red [OF this, of "257 * r"] show ?thesis unfolding r .
qed

text \<open>
  A new size of the window leaves the screen black until the next picture fades in: frames are drawn only
  during a fade, so that the code for the picture on display is never reached.
\<close>

lemma resized_stays_black:
  assumes "sh_pat2 s = None"
  shows "sh_surf (draw_frames e dims es (gste_slideshow_real_configure new_dims s)) = Some (\<lambda>_ _. (0, 0, 0, 1))"
proof -
  have "draw_frames e dims es s' = s'" if "sh_pat2 s' = None" for s'
    using that by (induction es arbitrary: s') (simp_all add: draw_iter_def)
  then show ?thesis using assms by (simp add: gste_slideshow_real_configure_def)
qed

text \<open>A slide show that is freed leaves its timer behind.\<close>

lemma finalize_leaves_timer: "sh_update_image_id (gste_slideshow_finalize s) = sh_update_image_id s"
  by (simp add: gste_slideshow_finalize_def)

section \<open>The start of the program\<close>

text \<open>
  \<open>main\<close> of \<open>savers/slideshow.c\<close>: the directory, from the options or the user's directories, and the
  properties that are set.
\<close>

definition slideshow_location :: "xdg_env \<Rightarrow> string \<Rightarrow> string option \<Rightarrow> string res" where
  "slideshow_location xe home_dir location =
     (case location of
        Some l \<Rightarrow> ret l
      | None \<Rightarrow>
          rbind (xdg_user_dir_lookup xe ''PICTURES'') (\<lambda>l.
          ret (if l = ''/tmp'' \<or> l = home_dir then home_dir @ ''/Pictures'' else l)))"

definition slideshow_main ::
  "xdg_env \<Rightarrow> (string \<Rightarrow> (nat \<times> nat \<times> nat) option) \<Rightarrow> string \<Rightarrow> string \<Rightarrow> string option \<Rightarrow> string option \<Rightarrow> bool \<Rightarrow> bool \<Rightarrow> slideshow res" where
  "slideshow_main xe parse default_location home_dir location background_color sort_images no_stretch =
     rbind (slideshow_location xe home_dir location) (\<lambda>location.
       let props = [PROP_IMAGES_LOCATION (Some location)]
             @ (if sort_images then [PROP_SORT_IMAGES sort_images] else [])
             @ (case background_color of None \<Rightarrow> [] | Some c \<Rightarrow> [PROP_SOLID_BACKGROUND (Some c)])
             @ (if no_stretch then [PROP_NO_STRETCH_HINT no_stretch] else []) in
       ret (gste_slideshow_real_show (fold (gste_slideshow_set_property parse) props (gste_slideshow_init default_location))))"

lemma slideshow_main_reachable:
  "slideshow_main xe parse default_location home_dir location background_color sort_images no_stretch = Inr s \<Longrightarrow> show_reachable e parse s"
  unfolding slideshow_main_def Let_def rbind_eq_Inr by (metis show_reachable.start sum.inject(2))

text \<open>Without the option neither the home directory nor the directory for temporary files is walked through.\<close>

lemma slideshow_location_safe:
  assumes "slideshow_location xe home_dir None = Inr l"
  shows "l \<noteq> ''/tmp'' \<and> l \<noteq> home_dir"
proof -
  have "home_dir @ ''/Pictures'' \<noteq> ''/tmp''" by (cases "rev home_dir") (auto dest: arg_cong [where f = rev])
  then show ?thesis using assms by (auto simp: slideshow_location_def rbind_eq_Inr split: if_splits)
qed

end
