(* ===== verification/Popsquares.thy ===== *)
theory Popsquares
  imports Complex_Main Prelude
begin

text \<open>
  \<open>savers/gste-popsquares.c\<close>: the screensaver of squares that run through a ramp of colours.  Colour values are
  rational numbers where the code uses doubles; the colours of the style, the size of the window and
  random numbers are parameters.
\<close>

section \<open>Colours\<close>

text \<open>The conversion of a double to an int cuts off.\<close>

definition c_trunc :: "rat \<Rightarrow> int" where
  "c_trunc x = (if 0 \<le> x then \<lfloor>x\<rfloor> else \<lceil>x\<rceil>)"

text \<open>The remainder in C has the sign of the dividend.\<close>

definition c_mod :: "int \<Rightarrow> int \<Rightarrow> int" where
  "c_mod a b = (if 0 \<le> a then a mod b else - (- a mod b))"

definition clamp01 :: "rat \<Rightarrow> rat" where
  "clamp01 x = (let x = (if x < 0 then 0 else x) in if 1 < x then 1 else x)"

definition hsv_to_rgb :: "int \<Rightarrow> rat \<Rightarrow> rat \<Rightarrow> rat \<times> rat \<times> rat" where
  "hsv_to_rgb h s v =
     (let S = clamp01 s;
          V = clamp01 v;
          H = of_int (c_mod h 360) / 60;
          i = c_trunc H;
          f = H - of_int i;
          p1 = V * (1 - S);
          p2 = V * (1 - (S * f));
          p3 = V * (1 - (S * (1 - f))) in
      if i = 0 then (V, p3, p1)
      else if i = 1 then (p2, V, p1)
      else if i = 2 then (p1, V, p3)
      else if i = 3 then (p1, p2, V)
      else if i = 4 then (p3, p1, V)
      else (V, p1, p2))"

definition rgb_to_hsv :: "rat \<Rightarrow> rat \<Rightarrow> rat \<Rightarrow> int \<times> rat \<times> rat" where
  "rgb_to_hsv r g b =
     (let (cmax, cmin, imax) = (if r < g then (g, r, 2) else (r, g, 1 :: nat));
          (cmax, imax) = (if cmax < b then (b, 3) else (cmax, imax));
          cmin = (if b < cmin then b else cmin);
          cmm = cmax - cmin;
          V = cmax;
          (H, S) =
            (if cmm = 0 then (0, 0)
             else
               (let S = cmm / cmax;
                    H = (if imax = 1 then (g - b) / cmm else if imax = 2 then 2 + (b - r) / cmm else 4 + (r - g) / cmm) in
                ((if H < 0 then H + 6 else H), S))) in
      (c_trunc (H * 60), S, V))"

record rgba =
  c_red :: rat
  c_green :: rat
  c_blue :: rat
  c_alpha :: rat

definition no_color :: rgba where
  "no_color = \<lparr>c_red = 0, c_green = 0, c_blue = 0, c_alpha = 0\<rparr>"

text \<open>A store into the array of colours.\<close>

definition set_color :: "nat \<Rightarrow> rgba \<Rightarrow> rgba list \<Rightarrow> rgba list res" where
  "set_color i c colors = (if i < length colors then ret (colors[i := c]) else Inl Out_Of_Bounds)"

definition ramp_color :: "int \<Rightarrow> rat \<Rightarrow> rat \<Rightarrow> int \<Rightarrow> rat \<Rightarrow> rat \<Rightarrow> nat \<Rightarrow> nat \<Rightarrow> rgba" where
  "ramp_color h1 s1 v1 h2 s2 v2 ncolors i =
     (let dh = (of_int h2 - of_int h1) / of_nat ncolors;
          ds = (s2 - s1) / of_nat ncolors;
          dv = (v2 - v1) / of_nat ncolors;
          (r, g, b) = hsv_to_rgb (c_trunc (of_int h1 + of_nat i * dh)) (s1 + of_nat i * ds) (v1 + of_nat i * dv) in
      \<lparr>c_red = r, c_green = g, c_blue = b, c_alpha = 1\<rparr>)"

text \<open>\<open>colors\<close> is the memory of the caller, \<open>n_colors\<close> its length as the caller gives it.\<close>

definition make_color_ramp ::
  "int \<Rightarrow> rat \<Rightarrow> rat \<Rightarrow> int \<Rightarrow> rat \<Rightarrow> rat \<Rightarrow> rgba list \<Rightarrow> nat \<Rightarrow> bool \<Rightarrow> rgba list res" where
  "make_color_ramp h1 s1 v1 h2 s2 v2 colors n_colors is_closed =
     (let ncolors = (if is_closed then n_colors div 2 + 1 else n_colors) in
      rbind (rfold (\<lambda>i. set_color i no_color) [0..<n_colors] colors) (\<lambda>colors.
      rbind (rfold (\<lambda>i. set_color i (ramp_color h1 s1 v1 h2 s2 v2 ncolors i)) [0..<ncolors] colors) (\<lambda>colors.
      if is_closed
      then rfold (\<lambda>i colors. if n_colors - i < length colors then set_color i (colors ! (n_colors - i)) colors else Inl Out_Of_Bounds)
             [ncolors..<n_colors] colors
      else ret colors)))"

section \<open>Squares\<close>

record square =
  q_x :: int
  q_y :: int
  q_w :: int
  q_h :: int
  q_color :: int

text \<open>The window exists from some time on; \<open>ps_window\<close> is its size.\<close>

record popsquares =
  ps_timeout_id :: bool
  ps_ncolors :: nat
  ps_subdivision :: nat
  ps_colors :: "rgba list option"
  ps_squares :: "square list option"
  ps_window :: "(int \<times> int) option"

text \<open>\<open>rnd k\<close> is the k-th random number below the number of colours.\<close>

definition randomize_square_colors :: "(nat \<Rightarrow> int) \<Rightarrow> nat \<Rightarrow> square list \<Rightarrow> square list res" where
  "randomize_square_colors rnd nsquares squares =
     (if length squares < nsquares then Inl Out_Of_Bounds
      else ret (map (\<lambda>(i, s). if i < nsquares then s\<lparr>q_color := rnd i\<rparr> else s) (zip [0..<length squares] squares)))"

definition setup_squares :: "popsquares \<Rightarrow> popsquares" where
  "setup_squares pop =
     (case ps_window pop of
        None \<Rightarrow> pop
      | Some (window_width, window_height) \<Rightarrow>
          (let n = ps_subdivision pop; sw = window_width div int n; sh = window_height div int n in
           pop\<lparr>ps_squares := Some (map (\<lambda>i. \<lparr>q_x = int (i mod n) * sw, q_y = int (i div n) * sh, q_w = sw, q_h = sh, q_color = 0\<rparr>)
                                  [0..<n * n])\<rparr>))"

text \<open>The foreground is the background of the style, darker.\<close>

definition set_colors :: "rgba \<Rightarrow> rgba \<Rightarrow> rgba \<times> rgba" where
  "set_colors selected view =
     (let bg = (if c_alpha selected = 0 then view else selected) in
      (\<lparr>c_red = c_red bg * (7 / 10), c_green = c_green bg * (7 / 10), c_blue = c_blue bg * (7 / 10), c_alpha = c_alpha bg\<rparr>, bg))"

definition setup_colors :: "rgba \<times> rgba \<Rightarrow> (nat \<Rightarrow> int) \<Rightarrow> popsquares \<Rightarrow> popsquares res" where
  "setup_colors style rnd pop =
     (case ps_window pop of
        None \<Rightarrow> ret pop
      | Some _ \<Rightarrow>
          (let (fg, bg) = set_colors (fst style) (snd style);
               (h1, s1, v1) = rgb_to_hsv (c_red fg) (c_green fg) (c_blue fg);
               (h2, s2, v2) = rgb_to_hsv (c_red bg) (c_green bg) (c_blue bg) in
           rbind (make_color_ramp h1 s1 v1 h2 s2 v2 (replicate (ps_ncolors pop) no_color) (ps_ncolors pop) True) (\<lambda>colors.
           case ps_squares pop of
             None \<Rightarrow> Inl Null_Deref
           | Some squares \<Rightarrow>
               rbind (randomize_square_colors rnd (ps_subdivision pop * ps_subdivision pop) squares) (\<lambda>squares.
               ret (pop\<lparr>ps_colors := Some colors, ps_squares := Some squares\<rparr>)))))"

definition gste_popsquares_real_show :: "rgba \<times> rgba \<Rightarrow> (nat \<Rightarrow> int) \<Rightarrow> popsquares \<Rightarrow> popsquares res" where
  "gste_popsquares_real_show style rnd pop = setup_colors style rnd (setup_squares pop)"

definition gste_popsquares_real_configure :: "rgba \<times> rgba \<Rightarrow> (nat \<Rightarrow> int) \<Rightarrow> popsquares \<Rightarrow> popsquares res" where
  "gste_popsquares_real_configure style rnd pop = setup_colors style rnd (setup_squares pop)"

text \<open>One square: the rectangle that is filled and its colour, and the square afterwards.\<close>

definition draw_square :: "(nat \<Rightarrow> int) \<Rightarrow> nat \<Rightarrow> rgba list \<Rightarrow> nat \<Rightarrow> square \<Rightarrow> ((int \<times> int \<times> int \<times> int \<times> rgba) \<times> square) res" where
  "draw_square rnd ncolors colors i s =
     (if q_color s < 0 \<or> int (length colors) \<le> q_color s then Inl Out_Of_Bounds
      else
        ret ((q_x s, q_y s, q_w s - 1, q_h s - 1, colors ! nat (q_color s)),
             s\<lparr>q_color := (if q_color s + 1 = int ncolors then rnd i else q_color s + 1)\<rparr>))"

primrec draw_squares ::
  "(nat \<Rightarrow> int) \<Rightarrow> nat \<Rightarrow> rgba list \<Rightarrow> nat \<Rightarrow> square list \<Rightarrow> ((int \<times> int \<times> int \<times> int \<times> rgba) list \<times> square list) res" where
  "draw_squares rnd ncolors colors i [] = ret ([], [])"
| "draw_squares rnd ncolors colors i (s # ss) =
     rbind (draw_square rnd ncolors colors i s) (\<lambda>(r, s).
     rbind (draw_squares rnd ncolors colors (Suc i) ss) (\<lambda>(rs, ss). ret (r # rs, s # ss)))"

definition draw_frame :: "(nat \<Rightarrow> int) \<Rightarrow> popsquares \<Rightarrow> ((int \<times> int \<times> int \<times> int \<times> rgba) list \<times> popsquares) res" where
  "draw_frame rnd pop =
     (case ps_window pop of
        None \<Rightarrow> ret ([], pop)
      | Some _ \<Rightarrow>
          (case (ps_squares pop, ps_colors pop) of
             (Some squares, Some colors) \<Rightarrow>
               (let nsquares = ps_subdivision pop * ps_subdivision pop in
                if length squares < nsquares then Inl Out_Of_Bounds
                else
                  rbind (draw_squares rnd (ps_ncolors pop) colors 0 (take nsquares squares)) (\<lambda>(rs, ss).
                  ret (rs, pop\<lparr>ps_squares := Some (ss @ drop nsquares squares)\<rparr>)))
           | _ \<Rightarrow> Inl Null_Deref))"

definition gste_popsquares_init :: popsquares where
  "gste_popsquares_init =
     \<lparr>ps_timeout_id = True, ps_ncolors = 128, ps_subdivision = 5, ps_colors = None, ps_squares = None, ps_window = None\<rparr>"

definition gste_popsquares_finalize :: "popsquares \<Rightarrow> popsquares" where
  "gste_popsquares_finalize pop = pop\<lparr>ps_timeout_id := False, ps_squares := None, ps_colors := None\<rparr>"

section \<open>The program\<close>

text \<open>
  The widget is shown and drawn; its window is created or gets a new size, which GTK tells in the
  same step.
\<close>

datatype pop_event = Pop_Show "nat \<Rightarrow> int" | Pop_Draw "nat \<Rightarrow> int" | Pop_Configure "int \<times> int" "nat \<Rightarrow> int"

definition pop_ready :: "pop_event \<Rightarrow> popsquares \<Rightarrow> bool" where
  "pop_ready ev pop =
     (\<forall>k. let r = (case ev of Pop_Show rnd \<Rightarrow> rnd | Pop_Draw rnd \<Rightarrow> rnd | Pop_Configure _ rnd \<Rightarrow> rnd) k in
        0 \<le> r \<and> r < int (ps_ncolors pop))"

definition pop_react :: "rgba \<times> rgba \<Rightarrow> pop_event \<Rightarrow> popsquares \<Rightarrow> popsquares res" where
  "pop_react style ev pop =
     (case ev of
        Pop_Show rnd \<Rightarrow> gste_popsquares_real_show style rnd pop
      | Pop_Draw rnd \<Rightarrow> rbind (draw_frame rnd pop) (\<lambda>(_, pop). ret pop)
      | Pop_Configure dims rnd \<Rightarrow> gste_popsquares_real_configure style rnd (pop\<lparr>ps_window := Some dims\<rparr>))"

inductive pop_reachable :: "rgba \<times> rgba \<Rightarrow> popsquares \<Rightarrow> bool" for style where
  start: "pop_reachable style gste_popsquares_init"
| step: "pop_reachable style pop \<Longrightarrow> pop_ready ev pop \<Longrightarrow> pop_react style ev pop = Inr pop' \<Longrightarrow> pop_reachable style pop'"

section \<open>Colours: lemmas\<close>

lemma clamp01_bounds: "0 \<le> clamp01 x" "clamp01 x \<le> 1"
  by (simp_all add: clamp01_def Let_def)

lemma clamp01_id: "0 \<le> x \<Longrightarrow> x \<le> 1 \<Longrightarrow> clamp01 x = x"
  by (simp add: clamp01_def Let_def)

lemma part_bounds:
  fixes V S f :: rat
  assumes "0 \<le> V" "V \<le> 1" "0 \<le> S" "S \<le> 1" "0 \<le> f" "f \<le> 1"
  shows "0 \<le> V * (1 - S * f)" "V * (1 - S * f) \<le> 1"
proof -
  have "0 \<le> S * f" "S * f \<le> 1" using assms mult_mono [of S 1 f 1] by simp_all
  then show "0 \<le> V * (1 - S * f)" "V * (1 - S * f) \<le> 1"
    using assms mult_mono [of V 1 "1 - S * f" 1] by simp_all
qed

lemma sector:
  assumes "0 \<le> h"
  defines "H \<equiv> of_int (c_mod h 360) / 60 :: rat"
  shows "c_trunc H = h mod 360 div 60" "0 \<le> H - of_int (c_trunc H)" "H - of_int (c_trunc H) < 1"
proof -
  have m: "c_mod h 360 = h mod 360" using assms(1) by (simp add: c_mod_def)
  have fl: "\<lfloor>H\<rfloor> = h mod 360 div 60" unfolding H_def m by (metis floor_divide_of_int_eq of_int_numeral)
  have "0 \<le> H" by (simp add: H_def m)
  then have t: "c_trunc H = \<lfloor>H\<rfloor>" by (simp add: c_trunc_def)
  show "c_trunc H = h mod 360 div 60" using t fl by simp
  show "0 \<le> H - of_int (c_trunc H)" "H - of_int (c_trunc H) < 1" unfolding t by linarith+
qed

lemma hsv_to_rgb_bounds:
  assumes "0 \<le> h" and "hsv_to_rgb h s v = (r, g, b)"
  shows "0 \<le> r \<and> r \<le> 1 \<and> 0 \<le> g \<and> g \<le> 1 \<and> 0 \<le> b \<and> b \<le> 1"
proof -
  define S V H f where "S = clamp01 s" and "V = clamp01 v" and "H = (of_int (c_mod h 360) / 60 :: rat)"
    and "f = H - of_int (c_trunc H)"
  have f: "0 \<le> f" "f \<le> 1" using sector(2,3) [OF assms(1)] by (simp_all add: f_def H_def)
  have SV: "0 \<le> S" "S \<le> 1" "0 \<le> V" "V \<le> 1" by (simp_all add: S_def V_def clamp01_bounds)
  have p: "0 \<le> V * (1 - S)" "V * (1 - S) \<le> 1" "0 \<le> V * (1 - S * f)" "V * (1 - S * f) \<le> 1"
    "0 \<le> V * (1 - S * (1 - f))" "V * (1 - S * (1 - f)) \<le> 1"
    using part_bounds [of V S 1] part_bounds [of V S f] part_bounds [of V S "1 - f"] f SV by simp_all
  show ?thesis
    using assms(2) p SV
    unfolding hsv_to_rgb_def Let_def S_def [symmetric] V_def [symmetric] H_def [symmetric] f_def [symmetric]
    by (auto split: if_splits)
qed

text \<open>Colours whose greatest and least parts are known.\<close>

lemma rgb_to_hsv_parts:
  fixes V m x t :: rat
  assumes m: "m < V" and t: "t = (x - m) / (V - m)"
  shows "m \<le> x \<Longrightarrow> x < V \<Longrightarrow> rgb_to_hsv V x m = (c_trunc (t * 60), (V - m) / V, V)"
    and "m < x \<Longrightarrow> x \<le> V \<Longrightarrow> rgb_to_hsv x V m = (c_trunc ((2 - t) * 60), (V - m) / V, V)"
    and "m \<le> x \<Longrightarrow> x < V \<Longrightarrow> rgb_to_hsv m V x = (c_trunc ((2 + t) * 60), (V - m) / V, V)"
    and "m < x \<Longrightarrow> x \<le> V \<Longrightarrow> rgb_to_hsv m x V = (c_trunc ((4 - t) * 60), (V - m) / V, V)"
    and "m \<le> x \<Longrightarrow> x < V \<Longrightarrow> rgb_to_hsv x m V = (c_trunc ((4 + t) * 60), (V - m) / V, V)"
    and "m < x \<Longrightarrow> x \<le> V \<Longrightarrow> rgb_to_hsv V m x = (c_trunc ((6 - t) * 60), (V - m) / V, V)"
proof -
  have D: "V - m \<noteq> 0" "0 < V - m" "\<not> V < m" "V \<noteq> m" using m by simp_all
  have neg: "(m - x) / (V - m) = - t" "(V - x) / (V - m) = 1 - t" unfolding t using D by (simp_all add: field_simps)
  have le1: "t \<le> 1" if "x \<le> V" unfolding t using that D by (simp add: divide_le_eq)
  have ge0: "0 \<le> t" if "m \<le> x" unfolding t using that D by simp
  have gt0: "0 < t" if "m < x" unfolding t using that D by simp
  have tm: "t = 0" if "m = x" unfolding t using that by simp
  have tV: "t = 1" if "x = V" unfolding that t using D by simp
  show "rgb_to_hsv V x m = (c_trunc (t * 60), (V - m) / V, V)" if "m \<le> x" "x < V"
    using that D ge0 tm by (cases "m = x") (auto simp: rgb_to_hsv_def Let_def t [symmetric])
  show "rgb_to_hsv x V m = (c_trunc ((2 - t) * 60), (V - m) / V, V)" if "m < x" "x \<le> V"
    using that D neg le1 tV by (cases "x = V") (auto simp: rgb_to_hsv_def Let_def)
  show "rgb_to_hsv m V x = (c_trunc ((2 + t) * 60), (V - m) / V, V)" if "m \<le> x" "x < V"
    using that D ge0 tm by (cases "m = x") (auto simp: rgb_to_hsv_def Let_def t [symmetric])
  show "rgb_to_hsv m x V = (c_trunc ((4 - t) * 60), (V - m) / V, V)" if "m < x" "x \<le> V"
    using that D neg le1 tV by (cases "x = V") (auto simp: rgb_to_hsv_def Let_def)
  show "rgb_to_hsv x m V = (c_trunc ((4 + t) * 60), (V - m) / V, V)" if "m \<le> x" "x < V"
    using that D ge0 tm by (cases "m = x") (auto simp: rgb_to_hsv_def Let_def t [symmetric])
  show "rgb_to_hsv V m x = (c_trunc ((6 - t) * 60), (V - m) / V, V)" if "m < x" "x \<le> V"
    using that D neg gt0 by (auto simp: rgb_to_hsv_def Let_def)
qed

text \<open>
  Hue, saturation and value survive the conversion to red, green and blue and back, in exact
  arithmetic, for every colour that is not grey.
\<close>

theorem hsv_roundtrip:
  assumes "0 \<le> h" "h < 360" and "0 < s" "s \<le> 1" and "0 < v" "v \<le> 1"
  shows "(case hsv_to_rgb h s v of (r, g, b) \<Rightarrow> rgb_to_hsv r g b) = (h, s, v)"
proof -
  define i f where "i = h div 60" and "f = (of_int h / 60 - of_int (h div 60) :: rat)"
  have cl: "clamp01 s = s" "clamp01 v = v" using assms by (simp_all add: clamp01_id)
  have H: "c_mod h 360 = h" using assms(1,2) by (simp add: c_mod_def)
  have sec: "c_trunc (of_int h / 60) = i" "0 \<le> f" "f < 1"
    using sector [OF assms(1)] assms(1,2) unfolding H i_def f_def by simp_all
  define m where "m = v * (1 - s)"
  define p2 where "p2 = v * (1 - s * f)"
  define p3 where "p3 = v * (1 - s * (1 - f))"
  have rgb: "hsv_to_rgb h s v =
      (if i = 0 then (v, p3, m) else if i = 1 then (p2, v, m) else if i = 2 then (m, v, p3) else if i = 3 then (m, p2, v)
       else if i = 4 then (p3, m, v) else (v, m, p2))"
    unfolding hsv_to_rgb_def cl H Let_def sec(1) m_def p2_def p3_def f_def i_def [symmetric] by simp
  have vs: "0 < v * s" using assms by simp
  have d: "v - m = v * s" "p3 - m = v * s * f" "p2 - m = v * s * (1 - f)"
    by (simp_all add: m_def p2_def p3_def algebra_simps)
  have mv: "m < v" using vs d(1) by linarith
  have t3: "f = (p3 - m) / (v - m)" and t2: "1 - f = (p2 - m) / (v - m)" unfolding d using assms(3,5) by simp_all
  have "0 \<le> v * s * f" "v * s * f < v * s * 1" using vs sec mult_strict_left_mono [OF sec(3) vs] by simp_all
  then have p3: "m \<le> p3" "p3 < v" using d by linarith+
  have "0 < v * s * (1 - f)" "v * s * (1 - f) \<le> v * s * 1" using vs sec mult_left_mono [of "1 - f" 1 "v * s"] by simp_all
  then have p2: "m < p2" "p2 \<le> v" using d by linarith+
  have s: "(v - m) / v = s" unfolding d using assms by simp
  have hh: "c_trunc ((of_int k + f) * 60) = h" if "i = k" for k
  proof -
    have "(of_int k + f) * 60 = (of_int h :: rat)" using that by (simp add: f_def i_def algebra_simps)
    then show ?thesis using assms(1) by (simp add: c_trunc_def)
  qed
  note parts = rgb_to_hsv_parts [OF mv t3] rgb_to_hsv_parts [OF mv t2]
  have "0 \<le> i" "i < 6" using assms(1,2) by (simp_all add: i_def div_less_iff_less_mult)
  then have "i = 0 \<or> i = 1 \<or> i = 2 \<or> i = 3 \<or> i = 4 \<or> i = 5" by presburger
  then consider "i = 0" | "i = 1" | "i = 2" | "i = 3" | "i = 4" | "i = 5" by blast
  then show ?thesis
  proof cases
    case 1
    then show ?thesis using parts(1) [OF p3] s hh [of 0] rgb by simp
  next
    case 2
    then show ?thesis using parts(8) [OF p2] s hh [of 1] rgb by (simp add: algebra_simps)
  next
    case 3
    then show ?thesis using parts(3) [OF p3] s hh [of 2] rgb by simp
  next
    case 4
    then show ?thesis using parts(10) [OF p2] s hh [of 3] rgb by (simp add: algebra_simps)
  next
    case 5
    then show ?thesis using parts(5) [OF p3] s hh [of 4] rgb by simp
  next
    case 6
    then show ?thesis using parts(12) [OF p2] s hh [of 5] rgb by (simp add: algebra_simps)
  qed
qed

theorem hsv_roundtrip_witness:
  "(case hsv_to_rgb 200 (1 / 2) (3 / 4) of (r, g, b) \<Rightarrow> rgb_to_hsv r g b) = (200, 1 / 2, 3 / 4)"
  by (rule hsv_roundtrip) simp_all

section \<open>The ramp\<close>

lemma set_colors_at:
  assumes "\<forall>i \<in> set xs. i < length cs"
  shows "\<exists>cs'. rfold (\<lambda>i. set_color i (g i)) xs cs = Inr cs' \<and> length cs' = length cs
     \<and> (\<forall>j < length cs. cs' ! j = (if j \<in> set xs then g j else cs ! j))"
  using assms
proof (induction xs arbitrary: cs)
  case (Cons x xs)
  have "\<forall>i \<in> set xs. i < length (cs[x := g x])" "x < length cs" using Cons.prems by simp_all
  with Cons.IH [of "cs[x := g x]"] obtain cs' where cs': "rfold (\<lambda>i. set_color i (g i)) xs (cs[x := g x]) = Inr cs'" "length cs' = length cs"
    "\<forall>j < length cs. cs' ! j = (if j \<in> set xs then g j else cs[x := g x] ! j)" by auto
  have "set_color x (g x) cs = Inr (cs[x := g x])" using \<open>x < length cs\<close> by (simp add: set_color_def)
  then have "rfold (\<lambda>i. set_color i (g i)) (x # xs) cs = Inr cs'" using cs'(1) by simp
  moreover have "\<forall>j < length cs. cs' ! j = (if j \<in> set (x # xs) then g j else cs ! j)" using cs'(3) by (simp add: nth_list_update)
  ultimately show ?case using cs'(2) by blast
qed simp

lemma copy_colors_at:
  assumes "\<forall>i \<in> set xs. i < length cs \<and> n - i < length cs \<and> n - i \<notin> set xs"
  shows "\<exists>cs'. rfold (\<lambda>i colors. if n - i < length colors then set_color i (colors ! (n - i)) colors else Inl Out_Of_Bounds) xs cs = Inr cs'
     \<and> length cs' = length cs \<and> (\<forall>j < length cs. cs' ! j = (if j \<in> set xs then cs ! (n - j) else cs ! j))"
  using assms
proof (induction xs arbitrary: cs)
  case (Cons x xs)
  let ?cs = "cs[x := cs ! (n - x)]"
  have x: "x < length cs" "n - x < length cs" using Cons.prems by simp_all
  have "\<forall>i \<in> set xs. i < length ?cs \<and> n - i < length ?cs \<and> n - i \<notin> set xs" using Cons.prems by auto
  with Cons.IH [of ?cs] obtain cs' where
    cs': "rfold (\<lambda>i colors. if n - i < length colors then set_color i (colors ! (n - i)) colors else Inl Out_Of_Bounds) xs ?cs = Inr cs'"
    "length cs' = length cs" "\<forall>j < length cs. cs' ! j = (if j \<in> set xs then ?cs ! (n - j) else ?cs ! j)" by auto
  have "?cs ! (n - j) = cs ! (n - j)" if "j \<in> set xs" for j using Cons.prems that by (auto simp: nth_list_update)
  then have "\<forall>j < length cs. cs' ! j = (if j \<in> set (x # xs) then cs ! (n - j) else cs ! j)"
    using cs'(3) x by (simp add: nth_list_update)
  then show ?case using cs'(1,2) x by (simp add: set_color_def)
qed simp

text \<open>
  The closed ramp runs there and back.  For at least one colour every store is within the array, the first half is
  the ramp, and the rest mirrors it, so that the last colour is next to the first; without a colour the array is overrun.
\<close>

theorem color_ramp_closed:
  "make_color_ramp h1 s1 v1 h2 s2 v2 [] 0 True = Inl Out_Of_Bounds
   \<and> (0 < n \<longrightarrow> length colors = n \<longrightarrow>
        (\<exists>cs. make_color_ramp h1 s1 v1 h2 s2 v2 colors n True = Inr cs \<and> length cs = n
           \<and> (\<forall>i \<le> n div 2. i < n \<longrightarrow> cs ! i = ramp_color h1 s1 v1 h2 s2 v2 (n div 2 + 1) i)
           \<and> (\<forall>i. 0 < i \<and> i < n \<longrightarrow> cs ! i = cs ! (n - i))))"
proof (intro conjI impI)
  show "make_color_ramp h1 s1 v1 h2 s2 v2 [] 0 True = Inl Out_Of_Bounds"
    by (simp add: make_color_ramp_def Let_def set_color_def)
  assume n: "0 < n" "length colors = n"
  let ?nc = "n div 2 + 1"
  let ?g = "ramp_color h1 s1 v1 h2 s2 v2 ?nc"
  obtain c1 where c1: "rfold (\<lambda>i. set_color i no_color) [0..<n] colors = Inr c1" "length c1 = n"
    using set_colors_at [of "[0..<n]" colors "\<lambda>_. no_color"] n(2) by auto
  have nc: "?nc \<le> n" using n(1) by (cases "n = 1") auto
  obtain c2 where c2: "rfold (\<lambda>i. set_color i (?g i)) [0..<?nc] c1 = Inr c2" "length c2 = n" "\<forall>j < n. j < ?nc \<longrightarrow> c2 ! j = ?g j"
    using set_colors_at [of "[0..<?nc]" c1 ?g] c1(2) nc by auto
  have "\<forall>i \<in> set [?nc..<n]. i < length c2 \<and> n - i < length c2 \<and> n - i \<notin> set [?nc..<n]" using c2(2) by auto
  from copy_colors_at [OF this] obtain c3 where
    c3: "rfold (\<lambda>i colors. if n - i < length colors then set_color i (colors ! (n - i)) colors else Inl Out_Of_Bounds) [?nc..<n] c2 = Inr c3"
    "length c3 = n" "\<forall>j < n. c3 ! j = (if ?nc \<le> j then c2 ! (n - j) else c2 ! j)"
    using c2(2) by auto
  have "make_color_ramp h1 s1 v1 h2 s2 v2 colors n True = Inr c3"
    unfolding make_color_ramp_def Let_def using c1(1) c2(1) c3(1) by simp
  moreover have "\<forall>i \<le> n div 2. i < n \<longrightarrow> c3 ! i = ?g i" using c2(3) c3(3) by simp
  moreover have "c3 ! i = c3 ! (n - i)" if i: "0 < i" "i < n" for i
  proof -
    consider "?nc \<le> i" | "?nc \<le> n - i" | "i = n - i" using i by linarith
    then show ?thesis
    proof cases
      case 1
      then have "\<not> ?nc \<le> n - i" by linarith
      then show ?thesis using 1 c3(3) i by simp
    next
      case 2
      then have "\<not> ?nc \<le> i" "n - (n - i) = i" using i by linarith+
      then show ?thesis using 2 c3(3) i by simp
    qed simp
  qed
  ultimately show "\<exists>cs. make_color_ramp h1 s1 v1 h2 s2 v2 colors n True = Inr cs \<and> length cs = n
       \<and> (\<forall>i \<le> n div 2. i < n \<longrightarrow> cs ! i = ?g i) \<and> (\<forall>i. 0 < i \<and> i < n \<longrightarrow> cs ! i = cs ! (n - i))"
    using c3(2) by blast
qed

theorem color_ramp_closed_witness:
  "\<exists>cs. make_color_ramp 0 1 1 120 1 1 (replicate 4 no_color) 4 True = Inr cs \<and> length cs = 4 \<and> cs ! 1 = cs ! 3"
proof -
  have "length (replicate 4 no_color) = 4" by simp
  then obtain cs where cs: "make_color_ramp 0 1 1 120 1 1 (replicate 4 no_color) 4 True = Inr cs" "length cs = 4"
    and m: "\<forall>i. 0 < i \<and> i < 4 \<longrightarrow> cs ! i = cs ! (4 - i)"
    using color_ramp_closed [of 0 1 1 120 1 1 4 "replicate 4 no_color"] by auto
  have "cs ! 1 = cs ! 3" using m [rule_format, of 1] by simp
  then show ?thesis using cs by blast
qed

section \<open>The squares\<close>

definition pop_grid :: "int \<times> int \<Rightarrow> square list \<Rightarrow> bool" where
  "pop_grid dims ss =
     (length ss = 25
      \<and> (\<forall>i < 25. q_x (ss ! i) = int (i mod 5) * (fst dims div 5) \<and> q_y (ss ! i) = int (i div 5) * (snd dims div 5)
           \<and> q_w (ss ! i) = fst dims div 5 \<and> q_h (ss ! i) = snd dims div 5))"

definition pop_ok :: "popsquares \<Rightarrow> bool" where
  "pop_ok pop =
     (ps_ncolors pop = 128 \<and> ps_subdivision pop = 5
      \<and> (case ps_window pop of
           None \<Rightarrow> True
         | Some dims \<Rightarrow>
             (\<exists>ss cs. ps_squares pop = Some ss \<and> ps_colors pop = Some cs \<and> pop_grid dims ss \<and> length cs = 128
                \<and> (\<forall>s \<in> set ss. 0 \<le> q_color s \<and> q_color s < 128))))"

lemma setup_ok:
  assumes "ps_ncolors pop = 128" "ps_subdivision pop = 5" and rnd: "\<forall>k. 0 \<le> rnd k \<and> rnd k < 128" and w: "ps_window pop = Some dims"
  shows "\<exists>pop'. setup_colors style rnd (setup_squares pop) = Inr pop' \<and> pop_ok pop'"
proof -
  obtain fg bg where st: "set_colors (fst style) (snd style) = (fg, bg)" by fastforce
  obtain h1 s1 v1 where 1: "rgb_to_hsv (c_red fg) (c_green fg) (c_blue fg) = (h1, s1, v1)" by (metis prod_cases3)
  obtain h2 s2 v2 where 2: "rgb_to_hsv (c_red bg) (c_green bg) (c_blue bg) = (h2, s2, v2)" by (metis prod_cases3)
  obtain cs where cs: "make_color_ramp h1 s1 v1 h2 s2 v2 (replicate 128 no_color) 128 True = Inr cs" "length cs = 128"
  proof -
    obtain c1 where c1: "rfold (\<lambda>i. set_color i no_color) [0..<128] (replicate 128 no_color) = Inr c1" "length c1 = 128"
      using set_colors_at [of "[0..<128]" "replicate 128 no_color" "\<lambda>_. no_color"] by auto
    obtain c2 where c2: "rfold (\<lambda>i. set_color i (ramp_color h1 s1 v1 h2 s2 v2 65 i)) [0..<65] c1 = Inr c2" "length c2 = 128"
      using set_colors_at [of "[0..<65]" c1 "ramp_color h1 s1 v1 h2 s2 v2 65"] c1(2) by auto
    have "\<forall>i \<in> set [65..<128]. i < length c2 \<and> 128 - i < length c2 \<and> 128 - i \<notin> set [65..<128]" using c2(2) by auto
    from copy_colors_at [OF this] show ?thesis
      using that c1(1) c2 by (auto simp: make_color_ramp_def Let_def)
  qed
  define sq where "sq = (\<lambda>i. \<lparr>q_x = int (i mod 5) * (fst dims div 5), q_y = int (i div 5) * (snd dims div 5), q_w = fst dims div 5,
      q_h = snd dims div 5, q_color = 0\<rparr>)"
  define ss where "ss = map sq [0..<5 * 5]"
  define rs where "rs = map (\<lambda>(i, s). if i < 5 * 5 then s\<lparr>q_color := rnd i\<rparr> else s) (zip [0..<length ss] ss)"
  have ss: "length ss = 25" "\<And>i. i < 25 \<Longrightarrow> ss ! i = sq i" by (simp_all add: ss_def del: upt_rec_numeral)
  have len: "length rs = 25" using ss(1) by (simp add: rs_def)
  have at: "rs ! i = (sq i)\<lparr>q_color := rnd i\<rparr>" if "i < 25" for i
    using that ss(1) ss(2) [OF that] by (simp add: rs_def)
  have grid: "pop_grid dims rs" unfolding pop_grid_def using len at by (auto simp: sq_def)
  have col: "0 \<le> q_color s \<and> q_color s < 128" if s: "s \<in> set rs" for s
  proof -
    obtain i where i: "i < length rs" "s = rs ! i" using s unfolding in_set_conv_nth by blast
    have "q_color s = rnd i" unfolding i(2) using at [of i] i(1) len by simp
    then show ?thesis using rnd by simp
  qed
  have sqs: "setup_squares pop = pop\<lparr>ps_squares := Some ss\<rparr>"
    using w assms(2) by (cases dims) (simp add: setup_squares_def Let_def ss_def sq_def del: upt_rec_numeral)
  have r: "randomize_square_colors rnd (5 * 5) ss = Inr rs" using ss(1) by (simp add: randomize_square_colors_def rs_def)
  have "setup_colors style rnd (setup_squares pop) = Inr (pop\<lparr>ps_colors := Some cs, ps_squares := Some rs\<rparr>)"
    unfolding sqs setup_colors_def using st 1 2 cs(1) w assms(1,2) r by simp
  moreover have "pop_ok (pop\<lparr>ps_colors := Some cs, ps_squares := Some rs\<rparr>)"
    using w assms(1,2) grid cs(2) col by (simp add: pop_ok_def)
  ultimately show ?thesis by blast
qed

lemma draw_squares_ok:
  assumes "\<forall>s \<in> set ss. 0 \<le> q_color s \<and> q_color s < 128" and "length cs = 128" and "\<forall>k. 0 \<le> rnd k \<and> rnd k < 128"
  shows "\<exists>rs ss'. draw_squares rnd 128 cs i ss = Inr (rs, ss') \<and> length rs = length ss \<and> length ss' = length ss
     \<and> (\<forall>s \<in> set ss'. 0 \<le> q_color s \<and> q_color s < 128)
     \<and> (\<forall>j < length ss. q_x (ss' ! j) = q_x (ss ! j) \<and> q_y (ss' ! j) = q_y (ss ! j) \<and> q_w (ss' ! j) = q_w (ss ! j)
          \<and> q_h (ss' ! j) = q_h (ss ! j)
          \<and> rs ! j = (q_x (ss ! j), q_y (ss ! j), q_w (ss ! j) - 1, q_h (ss ! j) - 1, cs ! nat (q_color (ss ! j))))"
  using assms(1)
proof (induction ss arbitrary: i)
  case (Cons s ss)
  let ?s = "s\<lparr>q_color := (if q_color s + 1 = 128 then rnd i else q_color s + 1)\<rparr>"
  have s: "0 \<le> q_color s" "q_color s < 128" using Cons.prems by simp_all
  have d: "draw_square rnd 128 cs i s = Inr ((q_x s, q_y s, q_w s - 1, q_h s - 1, cs ! nat (q_color s)), ?s)"
    using s assms(2) by (simp add: draw_square_def)
  have c: "0 \<le> q_color ?s \<and> q_color ?s < 128" using s assms(3) by auto
  obtain rs ss' where r: "draw_squares rnd 128 cs (Suc i) ss = Inr (rs, ss')" "length rs = length ss" "length ss' = length ss"
    "\<forall>s \<in> set ss'. 0 \<le> q_color s \<and> q_color s < 128"
    "\<forall>j < length ss. q_x (ss' ! j) = q_x (ss ! j) \<and> q_y (ss' ! j) = q_y (ss ! j) \<and> q_w (ss' ! j) = q_w (ss ! j)
          \<and> q_h (ss' ! j) = q_h (ss ! j)
          \<and> rs ! j = (q_x (ss ! j), q_y (ss ! j), q_w (ss ! j) - 1, q_h (ss ! j) - 1, cs ! nat (q_color (ss ! j)))"
    using Cons.IH [of "Suc i"] Cons.prems by auto
  have "draw_squares rnd 128 cs i (s # ss) = Inr ((q_x s, q_y s, q_w s - 1, q_h s - 1, cs ! nat (q_color s)) # rs, ?s # ss')"
    using d r(1) by simp
  then show ?case
    using r(2-5) c
    by (intro exI [of _ "(q_x s, q_y s, q_w s - 1, q_h s - 1, cs ! nat (q_color s)) # rs"] exI [of _ "?s # ss'"])
      (auto simp: nth_Cons' all_conj_distrib)
qed simp

lemma draw_frame_ok:
  assumes ok: "pop_ok pop" and rnd: "\<forall>k. 0 \<le> rnd k \<and> rnd k < 128"
  shows "\<exists>rs pop'. draw_frame rnd pop = Inr (rs, pop') \<and> pop_ok pop'
     \<and> (\<forall>dims. ps_window pop = Some dims \<longrightarrow> length rs = 25
          \<and> (\<forall>j < 25. \<exists>c. rs ! j = (int (j mod 5) * (fst dims div 5), int (j div 5) * (snd dims div 5), fst dims div 5 - 1, snd dims div 5 - 1, c)
               \<and> c \<in> set (the (ps_colors pop))))"
proof (cases "ps_window pop")
  case None
  then show ?thesis using ok by (simp add: draw_frame_def)
next
  case (Some dims)
  then obtain ss cs where p: "ps_squares pop = Some ss" "ps_colors pop = Some cs" "pop_grid dims ss" "length cs = 128"
    "\<forall>s \<in> set ss. 0 \<le> q_color s \<and> q_color s < 128" "ps_ncolors pop = 128" "ps_subdivision pop = 5"
    using ok by (auto simp: pop_ok_def)
  have len: "length ss = 25" using p(3) by (simp add: pop_grid_def)
  obtain rs ss' where d: "draw_squares rnd 128 cs 0 ss = Inr (rs, ss')" "length rs = 25" "length ss' = 25"
    "\<forall>s \<in> set ss'. 0 \<le> q_color s \<and> q_color s < 128"
    "\<forall>j < 25. q_x (ss' ! j) = q_x (ss ! j) \<and> q_y (ss' ! j) = q_y (ss ! j) \<and> q_w (ss' ! j) = q_w (ss ! j)
          \<and> q_h (ss' ! j) = q_h (ss ! j)
          \<and> rs ! j = (q_x (ss ! j), q_y (ss ! j), q_w (ss ! j) - 1, q_h (ss ! j) - 1, cs ! nat (q_color (ss ! j)))"
    using draw_squares_ok [OF p(5,4) rnd, of 0] unfolding len by auto
  have "draw_frame rnd pop = Inr (rs, pop\<lparr>ps_squares := Some ss'\<rparr>)"
    using Some p d(1) len by (simp add: draw_frame_def Let_def)
  moreover have "pop_grid dims ss'" using d(3,5) p(3) by (simp add: pop_grid_def)
  then have "pop_ok (pop\<lparr>ps_squares := Some ss'\<rparr>)" using Some p(2,4,6,7) d(4) by (simp add: pop_ok_def)
  moreover have "\<exists>c. rs ! j = (int (j mod 5) * (fst dims div 5), int (j div 5) * (snd dims div 5), fst dims div 5 - 1, snd dims div 5 - 1, c) \<and> c \<in> set cs"
    if j: "j < 25" for j
  proof -
    have "ss ! j \<in> set ss" using j len by simp
    then have "cs ! nat (q_color (ss ! j)) \<in> set cs" using p(4,5) by (auto intro!: nth_mem)
    then show ?thesis using d(5) p(3) j by (simp add: pop_grid_def)
  qed
  ultimately show ?thesis using Some d(2) p(2) by auto
qed

lemma pop_react_ok:
  assumes ok: "pop_ok pop" and ready: "pop_ready ev pop"
  shows "\<exists>pop'. pop_react style ev pop = Inr pop' \<and> pop_ok pop'"
proof -
  have p: "ps_ncolors pop = 128" "ps_subdivision pop = 5" using ok by (simp_all add: pop_ok_def)
  show ?thesis
  proof (cases ev)
    case (Pop_Show rnd)
    then have rnd: "\<forall>k. 0 \<le> rnd k \<and> rnd k < 128" using ready p by (simp add: pop_ready_def Let_def)
    show ?thesis
    proof (cases "ps_window pop")
      case None
      then show ?thesis
        using ok by (simp add: Pop_Show pop_react_def gste_popsquares_real_show_def setup_colors_def setup_squares_def)
    next
      case (Some dims)
      then show ?thesis
        using setup_ok [OF p rnd Some, of style] by (simp add: Pop_Show pop_react_def gste_popsquares_real_show_def)
    qed
  next
    case (Pop_Draw rnd)
    then have rnd: "\<forall>k. 0 \<le> rnd k \<and> rnd k < 128" using ready p by (simp add: pop_ready_def Let_def)
    show ?thesis using draw_frame_ok [OF ok rnd] by (auto simp: Pop_Draw pop_react_def)
  next
    case (Pop_Configure dims rnd)
    then have rnd: "\<forall>k. 0 \<le> rnd k \<and> rnd k < 128" using ready p by (simp add: pop_ready_def Let_def)
    show ?thesis
      using setup_ok [of "pop\<lparr>ps_window := Some dims\<rparr>" rnd dims style] p rnd
      by (simp add: Pop_Configure pop_react_def gste_popsquares_real_configure_def)
  qed
qed

lemma pop_reachable_ok: "pop_reachable style pop \<Longrightarrow> pop_ok pop"
proof (induction rule: pop_reachable.induct)
  case start
  show ?case by (simp add: pop_ok_def gste_popsquares_init_def)
next
  case (step pop ev pop')
  then show ?case using pop_react_ok [of pop ev style] by auto
qed

text \<open>
  The squares never leave their bounds.  Whatever is drawn, shown and resized in whatever order, no step
  reads or writes outside an array, and each frame paints the 25 fields of the grid, in colours of the ramp.
\<close>

theorem popsquares_safe:
  assumes "pop_reachable style pop"
  shows "(\<forall>ev. pop_ready ev pop \<longrightarrow> (\<exists>pop'. pop_react style ev pop = Inr pop'))
     \<and> (\<forall>rnd dims. (\<forall>k. 0 \<le> rnd k \<and> rnd k < 128) \<and> ps_window pop = Some dims \<longrightarrow>
          (\<exists>rs pop'. draw_frame rnd pop = Inr (rs, pop') \<and> length rs = 25
             \<and> (\<forall>j < 25. \<exists>c. rs ! j = (int (j mod 5) * (fst dims div 5), int (j div 5) * (snd dims div 5), fst dims div 5 - 1, snd dims div 5 - 1, c)
                  \<and> c \<in> set (the (ps_colors pop)))))"
proof (intro conjI allI impI)
  have ok: "pop_ok pop" using pop_reachable_ok [OF assms] .
  show "\<exists>pop'. pop_react style ev pop = Inr pop'" if "pop_ready ev pop" for ev using pop_react_ok [OF ok that] by blast
  fix rnd :: "nat \<Rightarrow> int" and dims :: "int \<times> int"
  assume a: "(\<forall>k. 0 \<le> rnd k \<and> rnd k < 128) \<and> ps_window pop = Some dims"
  obtain rs pop' where f: "draw_frame rnd pop = Inr (rs, pop')" "length rs = 25"
    "\<forall>j < 25. \<exists>c. rs ! j = (int (j mod 5) * (fst dims div 5), int (j div 5) * (snd dims div 5), fst dims div 5 - 1, snd dims div 5 - 1, c)
       \<and> c \<in> set (the (ps_colors pop))"
    using draw_frame_ok [OF ok conjunct1 [OF a]] a by auto
  then show "\<exists>rs pop'. draw_frame rnd pop = Inr (rs, pop') \<and> length rs = 25
       \<and> (\<forall>j < 25. \<exists>c. rs ! j = (int (j mod 5) * (fst dims div 5), int (j div 5) * (snd dims div 5), fst dims div 5 - 1, snd dims div 5 - 1, c)
            \<and> c \<in> set (the (ps_colors pop)))" by blast
qed

theorem popsquares_safe_witness:
  "\<exists>pop. pop_reachable (no_color, no_color) pop \<and> ps_window pop = Some (50, 40)
     \<and> (\<exists>rs pop'. draw_frame (\<lambda>_. 0) pop = Inr (rs, pop') \<and> length rs = 25)"
proof -
  have 0: "pop_reachable (no_color, no_color) gste_popsquares_init" by (rule pop_reachable.start)
  have ready: "pop_ready (Pop_Configure (50, 40) (\<lambda>_. 0)) gste_popsquares_init" by (simp add: pop_ready_def gste_popsquares_init_def)
  then obtain pop where pop: "pop_react (no_color, no_color) (Pop_Configure (50, 40) (\<lambda>_. 0)) gste_popsquares_init = Inr pop"
    using popsquares_safe [OF 0] by blast
  then have r: "pop_reachable (no_color, no_color) pop" using pop_reachable.step [OF 0 ready] by blast
  have w: "ps_window pop = Some (50, 40)"
    using pop by (auto simp: pop_react_def gste_popsquares_real_configure_def setup_colors_def setup_squares_def rbind_eq_Inr
        Let_def split: prod.splits option.splits simp del: upt_rec_numeral)
  have "\<exists>rs pop'. draw_frame (\<lambda>_. 0) pop = Inr (rs, pop') \<and> length rs = 25" using popsquares_safe [OF r] w by force
  then show ?thesis using r w by blast
qed

end
