(* ===== verification/Starfield.thy ===== *)
theory Starfield
  imports Complex_Main Prelude
begin

text \<open>
  \<open>savers/gste-starfield.c\<close>: the screensaver that flies through stars.  Coordinates are real numbers where the
  code uses doubles; random numbers, the clock and the size of the window are parameters.
\<close>

section \<open>State\<close>

record point =
  s_x :: real
  s_y :: real
  s_z :: real

record starfield =
  sf_timeout_id :: bool
  sf_timestamp :: int
  sf_count :: nat
  sf_speed :: real
  sf_current_speed :: real
  sf_acceleration :: real
  sf_delay :: nat
  sf_size :: real
  sf_stars :: "point list option"

definition Z_NEAR :: real where "Z_NEAR = 0"
definition Z_FAR :: real where "Z_FAR = 1"
definition XY_CLIP_LIMIT :: real where "XY_CLIP_LIMIT = 1 / 2"
definition SPEED_FACTOR :: real where "SPEED_FACTOR = 1 / 4"
definition SIZE_RATIO :: real where "SIZE_RATIO = 1 / 1000"

section \<open>Operations\<close>

text \<open>A random number below 1, and the range it is stretched to.\<close>

definition random_double_range :: "real \<Rightarrow> real \<Rightarrow> real \<Rightarrow> real" where
  "random_double_range r a b = a + r * (b - a)"

definition new_star :: "real \<Rightarrow> real \<Rightarrow> real \<Rightarrow> point" where
  "new_star z r1 r2 =
     \<lparr>s_x = z * random_double_range r1 (- XY_CLIP_LIMIT) XY_CLIP_LIMIT,
      s_y = z * random_double_range r2 (- XY_CLIP_LIMIT) XY_CLIP_LIMIT, s_z = z\<rparr>"

text \<open>\<open>cbrt\<close> is the real cube root; each star takes three random numbers.\<close>

definition setup_stars :: "(nat \<Rightarrow> real) \<Rightarrow> int \<Rightarrow> starfield \<Rightarrow> starfield" where
  "setup_stars rnd now sf =
     sf\<lparr>sf_stars := Some (map (\<lambda>i. new_star (- root 3 (rnd (3 * i) - 1)) (rnd (3 * i + 1)) (rnd (3 * i + 2))) [0..<sf_count sf]),
        sf_timestamp := now, sf_current_speed := 0\<rparr>"

definition get_elapsed_time :: "int \<Rightarrow> starfield \<Rightarrow> real \<times> starfield" where
  "get_elapsed_time now sf =
     (let prev_timestamp = sf_timestamp sf; elapsed = now - prev_timestamp in (of_int elapsed / 1000000, sf\<lparr>sf_timestamp := now\<rparr>))"

definition gste_starfield_real_show :: "(nat \<Rightarrow> real) \<Rightarrow> int \<Rightarrow> starfield \<Rightarrow> starfield" where
  "gste_starfield_real_show rnd now sf =
     (let sf = setup_stars rnd now sf; sf = (if sf_timeout_id sf then sf\<lparr>sf_timeout_id := False\<rparr> else sf) in
      sf\<lparr>sf_timeout_id := True\<rparr>)"

definition gste_starfield_real_configure :: "(nat \<Rightarrow> real) \<Rightarrow> int \<Rightarrow> starfield \<Rightarrow> starfield" where
  "gste_starfield_real_configure rnd now sf = setup_stars rnd now sf"

text \<open>Where and how a star is painted: position, brightness, radius.\<close>

record dot =
  d_x :: real
  d_y :: real
  d_illum :: real
  d_radius :: real

definition move_star :: "(nat \<Rightarrow> real) \<Rightarrow> real \<Rightarrow> nat \<Rightarrow> point \<Rightarrow> point" where
  "move_star rnd step i s =
     (let s = s\<lparr>s_z := s_z s - step\<rparr> in
      if s_z s \<le> Z_NEAR \<or> s_x s > s_z s * XY_CLIP_LIMIT \<or> s_x s < s_z s * - XY_CLIP_LIMIT
         \<or> s_y s > s_z s * XY_CLIP_LIMIT \<or> s_y s < s_z s * - XY_CLIP_LIMIT
      then new_star (Z_FAR - random_double_range (rnd (3 * i)) 0 (min step (Z_FAR - Z_NEAR))) (rnd (3 * i + 1)) (rnd (3 * i + 2))
      else s)"

definition star_dot :: "int \<times> int \<Rightarrow> real \<Rightarrow> point \<Rightarrow> dot" where
  "star_dot dims max_radius s =
     (let illum = 1 / (1 + s_z s) in
      \<lparr>d_x = (s_x s / s_z s + XY_CLIP_LIMIT) * of_int (fst dims), d_y = (s_y s / s_z s + XY_CLIP_LIMIT) * of_int (snd dims),
       d_illum = illum * illum, d_radius = max_radius * (1 - s_z s)\<rparr>)"

text \<open>A frame; a star beyond the array is read where memory was not allocated.\<close>

definition sf_draw_frame :: "(nat \<Rightarrow> real) \<Rightarrow> (int \<times> int) option \<Rightarrow> int \<Rightarrow> starfield \<Rightarrow> (dot list \<times> starfield) res" where
  "sf_draw_frame rnd window now sf =
     (case window of
        None \<Rightarrow> ret ([], sf)
      | Some dims \<Rightarrow>
          (let (elapsed, sf) = get_elapsed_time now sf;
               speed = sf_current_speed sf;
               step = SPEED_FACTOR * speed * elapsed;
               max_radius = max (sf_size sf * SIZE_RATIO * of_int (snd dims)) 1 in
           case sf_stars sf of
             None \<Rightarrow> if sf_count sf = 0 then ret ([], sf) else Inl Null_Deref
           | Some stars \<Rightarrow>
               if length stars < sf_count sf then Inl Out_Of_Bounds
               else
                 (let moved = map (\<lambda>i. move_star rnd step i (stars ! i)) [0..<sf_count sf];
                      sf = sf\<lparr>sf_stars := Some (moved @ drop (sf_count sf) stars)\<rparr>;
                      sf = (if speed \<noteq> sf_speed sf
                            then sf\<lparr>sf_current_speed := min (speed + sf_acceleration sf * elapsed) (sf_speed sf)\<rparr> else sf) in
                  ret (map (star_dot dims max_radius) moved, sf))))"

definition gste_starfield_init :: starfield where
  "gste_starfield_init =
     \<lparr>sf_timeout_id = False, sf_timestamp = 0, sf_count = 200, sf_speed = 3, sf_current_speed = 0, sf_acceleration = 1,
      sf_delay = 15, sf_size = 8, sf_stars = None\<rparr>"

definition gste_starfield_finalize :: "starfield \<Rightarrow> starfield" where
  "gste_starfield_finalize sf = sf\<lparr>sf_timeout_id := False, sf_stars := None\<rparr>"

datatype star_property = PROP_COUNT nat | PROP_SPEED real | PROP_ACCEL real | PROP_DELAY nat | PROP_SIZE real

definition gste_starfield_set_property :: "star_property \<Rightarrow> starfield \<Rightarrow> starfield" where
  "gste_starfield_set_property pr sf =
     (case pr of
        PROP_COUNT v \<Rightarrow> sf\<lparr>sf_count := v\<rparr>
      | PROP_SPEED v \<Rightarrow> sf\<lparr>sf_speed := v\<rparr>
      | PROP_ACCEL v \<Rightarrow> sf\<lparr>sf_acceleration := v\<rparr>
      | PROP_DELAY v \<Rightarrow> sf\<lparr>sf_delay := v\<rparr>
      | PROP_SIZE v \<Rightarrow> sf\<lparr>sf_size := v\<rparr>)"

definition gste_starfield_get_property :: "star_property \<Rightarrow> starfield \<Rightarrow> star_property" where
  "gste_starfield_get_property pr sf =
     (case pr of
        PROP_COUNT _ \<Rightarrow> PROP_COUNT (sf_count sf)
      | PROP_SPEED _ \<Rightarrow> PROP_SPEED (sf_speed sf)
      | PROP_ACCEL _ \<Rightarrow> PROP_ACCEL (sf_acceleration sf)
      | PROP_DELAY _ \<Rightarrow> PROP_DELAY (sf_delay sf)
      | PROP_SIZE _ \<Rightarrow> PROP_SIZE (sf_size sf))"

text \<open>The ranges under which the class installs the properties; GObject forces a value into them.\<close>

definition property_range :: "star_property \<Rightarrow> bool" where
  "property_range pr =
     (case pr of
        PROP_COUNT v \<Rightarrow> 1 \<le> v \<and> v \<le> 500
      | PROP_SPEED v \<Rightarrow> 1 \<le> v \<and> v \<le> 10
      | PROP_ACCEL v \<Rightarrow> 1 / 10 \<le> v \<and> v \<le> 10
      | PROP_DELAY v \<Rightarrow> 5 \<le> v \<and> v \<le> 33
      | PROP_SIZE v \<Rightarrow> 1 \<le> v \<and> v \<le> 20)"

section \<open>The program\<close>

text \<open>Properties are set before the widget is shown; then it is drawn and gets new sizes.\<close>

datatype star_event = Star_Draw "nat \<Rightarrow> real" "int \<times> int" int | Star_Configure "nat \<Rightarrow> real" int

definition randoms :: "(nat \<Rightarrow> real) \<Rightarrow> bool" where
  "randoms rnd = (\<forall>k. 0 \<le> rnd k \<and> rnd k < 1)"

definition star_ready :: "star_event \<Rightarrow> starfield \<Rightarrow> bool" where
  "star_ready ev sf =
     (case ev of
        Star_Draw rnd dims now \<Rightarrow> randoms rnd \<and> sf_timestamp sf \<le> now \<and> 0 \<le> fst dims \<and> 0 \<le> snd dims
      | Star_Configure rnd now \<Rightarrow> randoms rnd \<and> sf_timestamp sf \<le> now)"

definition star_react :: "star_event \<Rightarrow> starfield \<Rightarrow> starfield res" where
  "star_react ev sf =
     (case ev of
        Star_Draw rnd dims now \<Rightarrow> rbind (sf_draw_frame rnd (Some dims) now sf) (\<lambda>(_, sf). ret sf)
      | Star_Configure rnd now \<Rightarrow> ret (gste_starfield_real_configure rnd now sf))"

inductive star_reachable :: "starfield \<Rightarrow> bool" where
  start: "\<forall>pr \<in> set props. property_range pr \<Longrightarrow> randoms rnd \<Longrightarrow>
     star_reachable (gste_starfield_real_show rnd now (fold gste_starfield_set_property props gste_starfield_init))"
| step: "star_reachable sf \<Longrightarrow> star_ready ev sf \<Longrightarrow> star_react ev sf = Inr sf' \<Longrightarrow> star_reachable sf'"

section \<open>Invariant\<close>

text \<open>A star in front of the observer, within the pyramid that the window shows.\<close>

definition star_ok :: "point \<Rightarrow> bool" where
  "star_ok s = (0 < s_z s \<and> s_z s \<le> 1 \<and> \<bar>s_x s\<bar> \<le> s_z s / 2 \<and> \<bar>s_y s\<bar> \<le> s_z s / 2)"

definition starfield_ok :: "starfield \<Rightarrow> bool" where
  "starfield_ok sf =
     ((\<exists>stars. sf_stars sf = Some stars \<and> length stars = sf_count sf \<and> (\<forall>s \<in> set stars. star_ok s))
      \<and> 0 \<le> sf_current_speed sf \<and> sf_current_speed sf \<le> sf_speed sf \<and> 0 \<le> sf_acceleration sf \<and> 0 \<le> sf_size sf)"

lemma new_star_ok:
  assumes "0 < z" "z \<le> 1" "0 \<le> r1" "r1 < 1" "0 \<le> r2" "r2 < 1"
  shows "star_ok (new_star z r1 r2)"
proof -
  have "\<bar>z * (r - 1 / 2)\<bar> \<le> z / 2" if "0 \<le> r" "r < 1" for r
  proof -
    have "\<bar>r - 1 / 2\<bar> \<le> 1 / 2" by (rule abs_leI) (use that in linarith)+
    then have "z * \<bar>r - 1 / 2\<bar> \<le> z * (1 / 2)" using assms(1) by (intro mult_left_mono) simp_all
    then show ?thesis using assms(1) by (simp add: abs_mult)
  qed
  then show ?thesis
    using assms by (simp add: star_ok_def new_star_def random_double_range_def XY_CLIP_LIMIT_def)
qed

lemma setup_stars_ok:
  assumes "randoms rnd" and "0 \<le> sf_speed sf" "0 \<le> sf_acceleration sf" "0 \<le> sf_size sf"
  shows "starfield_ok (setup_stars rnd now sf)"
proof -
  have "star_ok (new_star (- root 3 (rnd (3 * i) - 1)) (rnd (3 * i + 1)) (rnd (3 * i + 2)))" for i
  proof (rule new_star_ok)
    have r: "0 \<le> rnd (3 * i)" "rnd (3 * i) < 1" using assms(1) by (simp_all add: randoms_def)
    have z: "- root 3 (rnd (3 * i) - 1) = root 3 (1 - rnd (3 * i))" by (simp add: real_root_minus [symmetric])
    show "0 < - root 3 (rnd (3 * i) - 1)" "- root 3 (rnd (3 * i) - 1) \<le> 1" unfolding z using r by simp_all
  qed (use assms(1) in \<open>simp_all add: randoms_def\<close>)
  then show ?thesis using assms by (auto simp: starfield_ok_def setup_stars_def)
qed

lemma move_star_ok:
  assumes s: "star_ok s" and step: "0 \<le> step" and rnd: "randoms rnd"
  shows "star_ok (move_star rnd step i s)"
proof -
  have r: "0 \<le> rnd k" "rnd k < 1" for k using rnd by (simp_all add: randoms_def)
  have m: "0 \<le> rnd (3 * i) * min step 1" "rnd (3 * i) * min step 1 < 1"
  proof -
    show "0 \<le> rnd (3 * i) * min step 1" using r(1) [of "3 * i"] step by simp
    have "rnd (3 * i) * min step 1 \<le> rnd (3 * i) * 1" using r(1) [of "3 * i"] by (intro mult_left_mono) simp_all
    then show "rnd (3 * i) * min step 1 < 1" using r(2) [of "3 * i"] by simp
  qed
  have "star_ok (new_star (Z_FAR - random_double_range (rnd (3 * i)) 0 (min step (Z_FAR - Z_NEAR))) (rnd (3 * i + 1)) (rnd (3 * i + 2)))"
    using m r by (intro new_star_ok) (simp_all add: Z_FAR_def Z_NEAR_def random_double_range_def)
  note new = this
  let ?s = "s\<lparr>s_z := s_z s - step\<rparr>"
  show ?thesis
  proof (cases "s_z ?s \<le> Z_NEAR \<or> s_x ?s > s_z ?s * XY_CLIP_LIMIT \<or> s_x ?s < s_z ?s * - XY_CLIP_LIMIT
         \<or> s_y ?s > s_z ?s * XY_CLIP_LIMIT \<or> s_y ?s < s_z ?s * - XY_CLIP_LIMIT")
    case True
    then show ?thesis unfolding move_star_def Let_def using new by (simp only: if_True)
  next
    case False
    then have b: "0 < s_z ?s" "s_x s \<le> s_z ?s / 2" "- (s_z ?s / 2) \<le> s_x s" "s_y s \<le> s_z ?s / 2" "- (s_z ?s / 2) \<le> s_y s"
      by (simp_all add: Z_NEAR_def XY_CLIP_LIMIT_def not_less not_le)
    have "\<bar>s_x s\<bar> \<le> s_z ?s / 2" "\<bar>s_y s\<bar> \<le> s_z ?s / 2" by (rule abs_leI; use b in linarith)+
    moreover have "s_z ?s \<le> 1" using s step by (simp add: star_ok_def)
    ultimately have "star_ok ?s" using b(1) by (simp add: star_ok_def)
    then show ?thesis unfolding move_star_def Let_def using False by (simp only: if_False)
  qed
qed

lemma star_dot_inside:
  assumes "star_ok s" and "0 \<le> fst dims" "0 \<le> snd dims" and "0 \<le> m"
  shows "0 \<le> d_x (star_dot dims m s) \<and> d_x (star_dot dims m s) \<le> of_int (fst dims)
     \<and> 0 \<le> d_y (star_dot dims m s) \<and> d_y (star_dot dims m s) \<le> of_int (snd dims)
     \<and> 0 < d_illum (star_dot dims m s) \<and> d_illum (star_dot dims m s) < 1
     \<and> 0 \<le> d_radius (star_dot dims m s) \<and> d_radius (star_dot dims m s) \<le> m"
proof -
  have z: "0 < s_z s" "s_z s \<le> 1" using assms(1) by (simp_all add: star_ok_def)
  have q: "0 \<le> x / s_z s + 1 / 2 \<and> x / s_z s + 1 / 2 \<le> 1" if "\<bar>x\<bar> \<le> s_z s / 2" for x
  proof -
    have "x \<le> s_z s / 2" "- (s_z s / 2) \<le> x" using that by (simp_all add: abs_le_iff)
    then have "x / s_z s \<le> 1 / 2" "- (1 / 2) \<le> x / s_z s"
      unfolding pos_divide_le_eq [OF z(1)] pos_le_divide_eq [OF z(1)] by linarith+
    then show ?thesis by linarith
  qed
  have in_range: "0 \<le> a * of_int n \<and> a * of_int n \<le> (of_int n :: real)" if "0 \<le> a \<and> a \<le> 1" "0 \<le> n" for a n
    using that mult_right_mono [of a 1 "of_int n"] by simp
  have i: "0 < 1 / (1 + s_z s)" "1 / (1 + s_z s) < 1" using z by simp_all
  have ii: "0 < 1 / (1 + s_z s) * (1 / (1 + s_z s))" "1 / (1 + s_z s) * (1 / (1 + s_z s)) < 1"
    using mult_pos_pos [OF i(1) i(1)] mult_strict_mono' [OF i(2) i(2)] i(1) by simp_all
  have "m * (1 - s_z s) \<le> m * 1" using z assms(4) by (intro mult_left_mono) simp_all
  then show ?thesis
    using z assms(4) in_range [OF q assms(2)] in_range [OF q assms(3)] ii assms(1)
    unfolding star_dot_def Let_def XY_CLIP_LIMIT_def star_ok_def by simp
qed

text \<open>One frame of a sky that is in order.\<close>

lemma sf_draw_frame_ok:
  assumes ok: "starfield_ok sf" and r: "randoms rnd" and t: "sf_timestamp sf \<le> now" and d: "0 \<le> fst dims" "0 \<le> snd dims"
  shows "\<exists>dots sf'. sf_draw_frame rnd (Some dims) now sf = Inr (dots, sf') \<and> starfield_ok sf' \<and> length dots = sf_count sf
     \<and> sf_current_speed sf \<le> sf_current_speed sf'
     \<and> (\<forall>p \<in> set dots. 0 \<le> d_x p \<and> d_x p \<le> of_int (fst dims) \<and> 0 \<le> d_y p \<and> d_y p \<le> of_int (snd dims)
          \<and> 0 < d_illum p \<and> d_illum p < 1 \<and> 0 \<le> d_radius p)"
proof -
  obtain stars where s: "sf_stars sf = Some stars" "length stars = sf_count sf" "\<forall>s \<in> set stars. star_ok s"
    and sp: "0 \<le> sf_current_speed sf" "sf_current_speed sf \<le> sf_speed sf" "0 \<le> sf_acceleration sf" "0 \<le> sf_size sf"
    using ok by (auto simp: starfield_ok_def)
  define elapsed where "elapsed = (of_int (now - sf_timestamp sf) / 1000000 :: real)"
  define step where "step = SPEED_FACTOR * sf_current_speed sf * elapsed"
  define radius where "radius = max (sf_size sf * SIZE_RATIO * of_int (snd dims)) 1"
  define moved where "moved = map (\<lambda>i. move_star rnd step i (stars ! i)) [0..<sf_count sf]"
  define sf' where "sf' = (let s = sf\<lparr>sf_timestamp := now, sf_stars := Some moved\<rparr> in
     if sf_current_speed sf \<noteq> sf_speed sf
     then s\<lparr>sf_current_speed := min (sf_current_speed sf + sf_acceleration sf * elapsed) (sf_speed sf)\<rparr> else s)"
  have e: "0 \<le> elapsed" using t by (simp add: elapsed_def)
  then have st: "0 \<le> step" using sp by (simp add: step_def SPEED_FACTOR_def)
  have m: "\<forall>s \<in> set moved. star_ok s" using move_star_ok [OF _ st r] s(2,3) by (auto simp: moved_def)
  have f: "sf_draw_frame rnd (Some dims) now sf = Inr (map (star_dot dims radius) moved, sf')"
    using s(1,2)
    by (simp add: sf_draw_frame_def get_elapsed_time_def Let_def elapsed_def step_def radius_def moved_def sf'_def)
  have "0 \<le> radius" by (simp add: radius_def)
  then have dots: "\<forall>p \<in> set (map (star_dot dims radius) moved). 0 \<le> d_x p \<and> d_x p \<le> of_int (fst dims) \<and> 0 \<le> d_y p
      \<and> d_y p \<le> of_int (snd dims) \<and> 0 < d_illum p \<and> d_illum p < 1 \<and> 0 \<le> d_radius p"
    using star_dot_inside [OF _ d] m by auto
  have grow: "sf_current_speed sf \<le> min (sf_current_speed sf + sf_acceleration sf * elapsed) (sf_speed sf)"
    using sp e by simp
  have "starfield_ok sf'" "sf_current_speed sf \<le> sf_current_speed sf'"
    using m s(2) sp grow by (auto simp: starfield_ok_def sf'_def Let_def moved_def)
  then show ?thesis using f dots by (auto simp: moved_def)
qed

lemma set_property_ok:
  assumes "property_range pr" and "0 \<le> sf_speed sf" "0 \<le> sf_acceleration sf" "0 \<le> sf_size sf"
  shows "0 \<le> sf_speed (gste_starfield_set_property pr sf) \<and> 0 \<le> sf_acceleration (gste_starfield_set_property pr sf)
     \<and> 0 \<le> sf_size (gste_starfield_set_property pr sf)"
  using assms by (cases pr) (simp_all add: property_range_def gste_starfield_set_property_def)

lemma star_reachable_ok: "star_reachable sf \<Longrightarrow> starfield_ok sf"
proof (induction rule: star_reachable.induct)
  case (start props rnd now)
  have "0 \<le> sf_speed (fold gste_starfield_set_property props sf) \<and> 0 \<le> sf_acceleration (fold gste_starfield_set_property props sf)
      \<and> 0 \<le> sf_size (fold gste_starfield_set_property props sf)"
    if "0 \<le> sf_speed sf" "0 \<le> sf_acceleration sf" "0 \<le> sf_size sf" for sf
    using start(1) that set_property_ok by (induction props arbitrary: sf) auto
  then have "starfield_ok (setup_stars rnd now (fold gste_starfield_set_property props gste_starfield_init))"
    using start(2) by (intro setup_stars_ok) (simp_all add: gste_starfield_init_def)
  then show ?case by (simp add: gste_starfield_real_show_def starfield_ok_def Let_def)
next
  case (step sf ev sf')
  show ?case
  proof (cases ev)
    case (Star_Draw rnd dims now)
    then show ?thesis
      using step sf_draw_frame_ok [of sf rnd now dims] by (auto simp: star_ready_def star_react_def)
  next
    case (Star_Configure rnd now)
    then show ?thesis
      using step setup_stars_ok [of rnd sf now]
      by (auto simp: star_ready_def star_react_def gste_starfield_real_configure_def starfield_ok_def)
  qed
qed

text \<open>
  The stars stay in sight.  From whatever properties within their ranges the program starts, each frame finds every star
  in memory, divides by no zero, paints every star within the window, darker than white and with a radius
  that is not negative, and the flight does not slow down.
\<close>

theorem stars_in_sight:
  assumes "star_reachable sf" and "randoms rnd" "sf_timestamp sf \<le> now" "0 \<le> fst dims" "0 \<le> snd dims"
  shows "\<exists>dots sf'. sf_draw_frame rnd (Some dims) now sf = Inr (dots, sf') \<and> length dots = sf_count sf
     \<and> (\<forall>s \<in> set (the (sf_stars sf')). s_z s \<noteq> 0)
     \<and> sf_current_speed sf \<le> sf_current_speed sf' \<and> sf_current_speed sf' \<le> sf_speed sf'
     \<and> (\<forall>p \<in> set dots. 0 \<le> d_x p \<and> d_x p \<le> of_int (fst dims) \<and> 0 \<le> d_y p \<and> d_y p \<le> of_int (snd dims)
          \<and> 0 < d_illum p \<and> d_illum p < 1 \<and> 0 \<le> d_radius p)"
proof -
  obtain dots sf' where f: "sf_draw_frame rnd (Some dims) now sf = Inr (dots, sf')" "starfield_ok sf'" "length dots = sf_count sf"
    "sf_current_speed sf \<le> sf_current_speed sf'"
    "\<forall>p \<in> set dots. 0 \<le> d_x p \<and> d_x p \<le> of_int (fst dims) \<and> 0 \<le> d_y p \<and> d_y p \<le> of_int (snd dims)
          \<and> 0 < d_illum p \<and> d_illum p < 1 \<and> 0 \<le> d_radius p"
    using sf_draw_frame_ok [OF star_reachable_ok [OF assms(1)] assms(2-5)] by blast
  have z: "star_ok s \<Longrightarrow> s_z s \<noteq> 0" for s by (simp add: star_ok_def)
  have "\<forall>s \<in> set (the (sf_stars sf')). s_z s \<noteq> 0" "sf_current_speed sf' \<le> sf_speed sf'"
    using f(2) z by (auto simp: starfield_ok_def)
  with f show ?thesis by blast
qed

theorem stars_in_sight_witness:
  "\<exists>sf dots sf'. sf_draw_frame (\<lambda>_. 1 / 2) (Some (640, 480)) 40000 sf = Inr (dots, sf') \<and> length dots = 300
     \<and> (\<forall>p \<in> set dots. 0 \<le> d_x p \<and> d_x p \<le> 640)"
proof -
  let ?sf = "gste_starfield_real_show (\<lambda>_. 1 / 2) 0 (fold gste_starfield_set_property [PROP_COUNT 300] gste_starfield_init)"
  have r: "star_reachable ?sf" by (rule star_reachable.start) (simp_all add: property_range_def randoms_def)
  have c: "sf_timestamp ?sf = 0" "sf_count ?sf = 300"
    by (simp_all add: gste_starfield_real_show_def setup_stars_def gste_starfield_set_property_def gste_starfield_init_def Let_def)
  obtain dots sf' where "sf_draw_frame (\<lambda>_. 1 / 2) (Some (640, 480)) 40000 ?sf = Inr (dots, sf')" "length dots = 300"
    "\<forall>p \<in> set dots. 0 \<le> d_x p \<and> d_x p \<le> 640"
    using stars_in_sight [OF r, of "\<lambda>_. 1 / 2" 40000 "(640, 480)"] c by (auto simp: randoms_def)
  then show ?thesis by blast
qed

text \<open>
  More stars than there is memory for.  A number of stars that is raised while the widget is shown is not
  followed by an allocation; the next frame reads behind the array.
\<close>

theorem more_stars_overrun:
  assumes "starfield_ok sf" and "sf_count sf < n"
  shows "sf_draw_frame rnd (Some dims) now (gste_starfield_set_property (PROP_COUNT n) sf) = Inl Out_Of_Bounds"
  using assms by (auto simp: starfield_ok_def sf_draw_frame_def gste_starfield_set_property_def get_elapsed_time_def Let_def)

theorem more_stars_overrun_witness:
  "sf_draw_frame (\<lambda>_. 0) (Some (640, 480)) 0
     (gste_starfield_set_property (PROP_COUNT 500) (gste_starfield_real_show (\<lambda>_. 1 / 2) 0 gste_starfield_init)) = Inl Out_Of_Bounds"
proof (rule more_stars_overrun)
  have "star_reachable (gste_starfield_real_show (\<lambda>_. 1 / 2) 0 (fold gste_starfield_set_property [] gste_starfield_init))"
    by (rule star_reachable.start) (simp_all add: randoms_def)
  then show "starfield_ok (gste_starfield_real_show (\<lambda>_. 1 / 2) 0 gste_starfield_init)" using star_reachable_ok by simp
  show "sf_count (gste_starfield_real_show (\<lambda>_. 1 / 2) 0 gste_starfield_init) < 500"
    by (simp add: gste_starfield_real_show_def setup_stars_def gste_starfield_init_def Let_def)
qed

end
