(* ===== verification/Floaters.thy ===== *)
theory Floaters
  imports Complex_Main Prelude
begin

text \<open>
  \<open>savers/floaters.c\<close>: the screensaver that floats pictures along Bezier curves.  Coordinates and times are real
  numbers where the code uses doubles: rounding and overflow are left out, and a division by zero, which gives an
  infinite number or none in C, ends the model with \<open>Float_Div_Zero\<close>.  Random numbers, the clock and the loading
  of the picture are parameters.  \<open>rnd k\<close> is what the k-th place of the code that asks for a random number gets.
\<close>

section \<open>State\<close>

record fpoint =
  fx :: real
  fy :: real

record fpath =
  start_point :: fpoint
  start_control_point :: fpoint
  end_control_point :: fpoint
  end_point :: fpoint
  x_linear_coefficient :: real
  y_linear_coefficient :: real
  x_quadratic_coefficient :: real
  y_quadratic_coefficient :: real
  x_cubic_coefficient :: real
  y_cubic_coefficient :: real
  duration :: real

record bounds =
  bo_x :: int
  bo_y :: int
  bo_width :: int
  bo_height :: int

record floater =
  fl_bounds :: bounds
  fl_start_position :: fpoint
  fl_position :: fpoint
  fl_scale :: real
  fl_opacity :: real
  fl_path :: "fpath option"
  fl_path_start_time :: real
  fl_path_start_scale :: real
  fl_path_end_scale :: real
  fl_angle :: real
  fl_angle_increment :: real

text \<open>\<open>sv_cached_sources\<close> maps a size to the width and height of the picture that was loaded for it.\<close>

record screen_saver =
  sv_realized :: bool
  sv_top_left :: fpoint
  sv_bottom_right :: fpoint
  sv_cached_sources :: "(int \<times> (int \<times> int)) list"
  sv_first_update_time :: real
  sv_last_calculated_stats_time :: real
  sv_current_calculated_stats_time :: real
  sv_update_count :: nat
  sv_frame_count :: nat
  sv_updates_per_second :: real
  sv_frames_per_second :: real
  sv_state_update_timeout_id :: bool
  sv_stats_update_timeout_id :: bool
  sv_floaters :: "floater list"
  sv_max_floater_count :: int
  sv_should_do_rotations :: bool
  sv_should_show_paths :: bool
  sv_draw_ops_pending :: bool

definition OPTIMAL_FRAME_RATE :: real where "OPTIMAL_FRAME_RATE = 25"
definition FLOATER_MAX_SIZE :: int where "FLOATER_MAX_SIZE = 128"
definition FLOATER_MIN_SIZE :: int where "FLOATER_MIN_SIZE = 16"
definition SMALL_ANGLE :: real where "SMALL_ANGLE = 25 / 1000 * pi"
definition BIG_ANGLE :: real where "BIG_ANGLE = 125 / 1000 * pi"
definition GAMMA :: real where "GAMMA = 22 / 10"
definition G_MINDOUBLE :: real where "G_MINDOUBLE = 1 / 2 ^ 1022"

definition random_range :: "real \<Rightarrow> real \<Rightarrow> real \<Rightarrow> real" where
  "random_range r a b = a + r * (b - a)"

definition trunc_real :: "real \<Rightarrow> int" where
  "trunc_real x = (if 0 \<le> x then \<lfloor>x\<rfloor> else \<lceil>x\<rceil>)"

text \<open>The macro, for numbers; what it does with a NaN (it lets it through) has no counterpart here.\<close>

definition CLAMP :: "'a::linorder \<Rightarrow> 'a \<Rightarrow> 'a \<Rightarrow> 'a" where
  "CLAMP x low high = (if high < x then high else if x < low then low else x)"

text \<open>A division of doubles whose divisor may be zero.\<close>

definition div_double :: "real \<Rightarrow> real \<Rightarrow> real res" where
  "div_double a b = (if b = 0 then Inl Float_Div_Zero else ret (a / b))"

section \<open>Paths\<close>

definition path_new :: "fpoint \<Rightarrow> fpoint \<Rightarrow> fpoint \<Rightarrow> fpoint \<Rightarrow> real \<Rightarrow> fpath" where
  "path_new s sc ec e d =
     (let xl = 3 * (fx sc - fx s);
          xq = 3 * (fx ec - fx sc) - xl;
          xc = fx e - fx s - xl - xq;
          yl = 3 * (fy sc - fy s);
          yq = 3 * (fy ec - fy sc) - yl;
          yc = fy e - fy s - yl - yq in
      \<lparr>start_point = s, start_control_point = sc, end_control_point = ec, end_point = e,
       x_linear_coefficient = xl, y_linear_coefficient = yl, x_quadratic_coefficient = xq, y_quadratic_coefficient = yq,
       x_cubic_coefficient = xc, y_cubic_coefficient = yc, duration = d\<rparr>)"

text \<open>The functions of the time follow the pointer to the path.\<close>

definition screen_saver_floater_get_position_from_time :: "floater \<Rightarrow> real \<Rightarrow> fpoint res" where
  "screen_saver_floater_get_position_from_time f time =
     (case fl_path f of
        None \<Rightarrow> Inl Null_Deref
      | Some p \<Rightarrow>
          rbind (div_double time (duration p)) (\<lambda>t.
           ret \<lparr>fx = x_cubic_coefficient p * (t * t * t) + x_quadratic_coefficient p * (t * t) + x_linear_coefficient p * t + fx (start_point p),
                fy = y_cubic_coefficient p * (t * t * t) + y_quadratic_coefficient p * (t * t) + y_linear_coefficient p * t + fy (start_point p)\<rparr>))"

definition screen_saver_floater_get_scale_from_time :: "floater \<Rightarrow> real \<Rightarrow> real res" where
  "screen_saver_floater_get_scale_from_time f time =
     (case fl_path f of
        None \<Rightarrow> Inl Null_Deref
      | Some p \<Rightarrow>
          rbind (div_double time (duration p)) (\<lambda>completion_ratio.
          let total_scale_growth = fl_path_end_scale f - fl_path_start_scale f;
              new_scale = fl_path_start_scale f + total_scale_growth * completion_ratio in
          ret (CLAMP new_scale 0 1)))"

definition screen_saver_floater_get_angle_from_time :: "floater \<Rightarrow> real \<Rightarrow> real res" where
  "screen_saver_floater_get_angle_from_time f time =
     (case fl_path f of
        None \<Rightarrow> Inl Null_Deref
      | Some p \<Rightarrow>
          rbind (div_double time (duration p)) (\<lambda>completion_ratio.
          let total_rotation = fl_angle_increment f * duration p in
          ret (fl_angle f + total_rotation * completion_ratio)))"

definition screen_saver_floater_is_off_canvas :: "screen_saver \<Rightarrow> floater \<Rightarrow> bool" where
  "screen_saver_floater_is_off_canvas s f =
     (fx (fl_position f) < fx (sv_top_left s) \<or> fx (fl_position f) > fx (sv_bottom_right s)
      \<or> fy (fl_position f) < fy (sv_top_left s) \<or> fy (fl_position f) > fy (sv_bottom_right s))"

text \<open>The duration, if the answer is yes.\<close>

definition screen_saver_floater_should_bubble_up :: "(nat \<Rightarrow> real) \<Rightarrow> floater \<Rightarrow> real \<Rightarrow> real option" where
  "screen_saver_floater_should_bubble_up rnd f performance_ratio =
     (if performance_ratio < 1 / 2 \<and> rnd 0 > 1 / 2 then Some (performance_ratio * 30)
      else if fl_scale f < 3 / 10 \<and> rnd 1 > 6 / 10 then Some 30
      else None)"

definition screen_saver_floater_should_come_on_screen :: "(nat \<Rightarrow> real) \<Rightarrow> screen_saver \<Rightarrow> floater \<Rightarrow> real \<Rightarrow> real option" where
  "screen_saver_floater_should_come_on_screen rnd s f performance_ratio =
     (if \<not> screen_saver_floater_is_off_canvas s f then None
      else if G_MINDOUBLE \<le> \<bar>performance_ratio - 1 / 2\<bar> \<and> rnd 2 > 1 / 2 then Some (random_range (rnd 3) 3 7)
      else None)"

text \<open>A point on the way.\<close>

definition on_the_way :: "real \<Rightarrow> fpoint \<Rightarrow> fpoint \<Rightarrow> fpoint" where
  "on_the_way r a b = \<lparr>fx = fx a + r * (fx b - fx a), fy = fy a + r * (fy b - fy a)\<rparr>"

definition screen_saver_floater_create_path_to_on_screen :: "(nat \<Rightarrow> real) \<Rightarrow> screen_saver \<Rightarrow> floater \<Rightarrow> real \<Rightarrow> fpath" where
  "screen_saver_floater_create_path_to_on_screen rnd s f d =
     (let a = fl_position f;
          b = \<lparr>fx = random_range (rnd 4) (1 / 4) (3 / 4) * (fx (sv_top_left s) + fx (sv_bottom_right s)),
               fy = random_range (rnd 5) (1 / 4) (3 / 4) * (fy (sv_top_left s) + fy (sv_bottom_right s))\<rparr> in
      path_new a (on_the_way (9 / 10) a b) (on_the_way 1 a b) b d)"

definition screen_saver_floater_create_path_to_bubble_up :: "screen_saver \<Rightarrow> floater \<Rightarrow> real \<Rightarrow> fpath" where
  "screen_saver_floater_create_path_to_bubble_up s f d =
     (let a = fl_position f;
          b = \<lparr>fx = fx a, fy = fy (sv_top_left s) - of_int FLOATER_MAX_SIZE\<rparr> in
      path_new a \<lparr>fx = 1 / 2 * fx a, fy = 1 / 2 * fy a\<rparr> \<lparr>fx = 3 / 2 * fx b, fy = 1 / 2 * fy b\<rparr> b d)"

definition screen_saver_floater_create_path_to_random_point :: "(nat \<Rightarrow> real) \<Rightarrow> floater \<Rightarrow> real \<Rightarrow> fpath" where
  "screen_saver_floater_create_path_to_random_point rnd f d =
     (let a = fl_position f;
          b = \<lparr>fx = fx a + random_range (rnd 6) (- 1 / 2) (1 / 2) * 4 * of_int FLOATER_MAX_SIZE,
               fy = fy a + random_range (rnd 7) (- 1 / 2) (1 / 2) * 4 * of_int FLOATER_MAX_SIZE\<rparr> in
      path_new a (on_the_way (95 / 100) a b) (on_the_way 1 a b) b d)"

definition screen_saver_floater_create_path :: "(nat \<Rightarrow> real) \<Rightarrow> screen_saver \<Rightarrow> floater \<Rightarrow> fpath" where
  "screen_saver_floater_create_path rnd s f =
     (let performance_ratio = sv_frames_per_second s / OPTIMAL_FRAME_RATE;
          performance_ratio = (if \<bar>performance_ratio\<bar> \<le> G_MINDOUBLE then 1 else performance_ratio) in
      case screen_saver_floater_should_bubble_up rnd f performance_ratio of
        Some d \<Rightarrow> screen_saver_floater_create_path_to_bubble_up s f d
      | None \<Rightarrow>
          (case screen_saver_floater_should_come_on_screen rnd s f performance_ratio of
             Some d \<Rightarrow> screen_saver_floater_create_path_to_on_screen rnd s f d
           | None \<Rightarrow> screen_saver_floater_create_path_to_random_point rnd f (random_range (rnd 8) 3 7)))"

section \<open>Floaters\<close>

definition screen_saver_floater_new :: "bounds \<Rightarrow> fpoint \<Rightarrow> real \<Rightarrow> floater" where
  "screen_saver_floater_new memory position scale =
     \<lparr>fl_bounds = memory\<lparr>bo_width := 0\<rparr>, fl_start_position = position, fl_position = position, fl_scale = scale,
      fl_opacity = scale powr (1 / GAMMA), fl_path = None, fl_path_start_time = 0, fl_path_start_scale = 1,
      fl_path_end_scale = 0, fl_angle = 0, fl_angle_increment = 0\<rparr>"

text \<open>A new path, if there is none, with its scale and its rotation.\<close>

definition floater_start_path :: "(nat \<Rightarrow> real) \<Rightarrow> screen_saver \<Rightarrow> real \<Rightarrow> floater \<Rightarrow> floater" where
  "floater_start_path rnd s time f =
     (let performance_ratio = sv_frames_per_second s / OPTIMAL_FRAME_RATE;
          f = f\<lparr>fl_path := Some (screen_saver_floater_create_path rnd s f), fl_path_start_time := time, fl_path_start_scale := fl_scale f\<rparr>;
          f = (if rnd 9 > 1 / 2 then f\<lparr>fl_path_end_scale := random_range (rnd 10) (1 / 10) performance_ratio\<rparr> else f) in
      if sv_should_do_rotations s \<and> rnd 11 < 3 / 4 * performance_ratio
      then
        (let r = \<lfloor>100 * rnd 12\<rfloor> in
         if r < 80 then f\<lparr>fl_angle_increment := 0\<rparr>
         else if r < 95 then f\<lparr>fl_angle_increment := random_range (rnd 13) (- SMALL_ANGLE) SMALL_ANGLE\<rparr>
         else f\<lparr>fl_angle_increment := random_range (rnd 14) (- BIG_ANGLE) BIG_ANGLE\<rparr>)
      else f)"

definition screen_saver_floater_update_state :: "(nat \<Rightarrow> real) \<Rightarrow> screen_saver \<Rightarrow> real \<Rightarrow> floater \<Rightarrow> floater res" where
  "screen_saver_floater_update_state rnd s time f =
     (let f = (if fl_path f = None then floater_start_path rnd s time f else f) in
      case fl_path f of
        None \<Rightarrow> Inl Null_Deref
      | Some p \<Rightarrow>
          if time < fl_path_start_time f + duration p
          then
            (let path_time = time - fl_path_start_time f in
             rbind (screen_saver_floater_get_position_from_time f path_time) (\<lambda>position.
             let f = f\<lparr>fl_position := position\<rparr> in
             rbind (screen_saver_floater_get_scale_from_time f path_time) (\<lambda>scale.
             let f = f\<lparr>fl_scale := scale\<rparr> in
             rbind (screen_saver_floater_get_angle_from_time f path_time) (\<lambda>angle.
             ret (f\<lparr>fl_angle := angle, fl_opacity := scale powr (1 / GAMMA)\<rparr>)))))
          else ret (f\<lparr>fl_path := None, fl_path_start_time := 0\<rparr>))"

definition floater_size :: "floater \<Rightarrow> int" where
  "floater_size f = CLAMP (trunc_real (of_int FLOATER_MAX_SIZE * fl_scale f)) FLOATER_MIN_SIZE FLOATER_MAX_SIZE"

section \<open>Drawing\<close>

record float_pixbuf =
  pb_width :: nat
  pb_height :: nat
  pb_rowstride :: nat
  pb_has_alpha :: bool
  pb_pixels :: "nat list"

definition gamma_opacity :: "nat \<Rightarrow> nat" where
  "gamma_opacity a = nat \<lfloor>255 * (of_nat a / 255) powr (1 / GAMMA)\<rfloor>"

definition gamma_pixel :: "nat \<Rightarrow> nat list \<Rightarrow> nat list res" where
  "gamma_pixel i pixels = (if i < length pixels then ret (pixels[i := gamma_opacity (pixels ! i)]) else Inl Out_Of_Bounds)"

text \<open>The index is the code's: it counts a quarter of a row for each row and one byte for each pixel.\<close>

definition gamma_correct :: "float_pixbuf \<Rightarrow> float_pixbuf res" where
  "gamma_correct input =
     rbind (rfold (\<lambda>y. rfold (\<lambda>x. gamma_pixel (y * (pb_rowstride input div 4) + x + 3)) [0..<pb_width input])
              [0..<pb_height input] (pb_pixels input))
       (\<lambda>pixels. ret (input\<lparr>pb_pixels := pixels\<rparr>))"

datatype cairo_op =
    Save | Restore | Stroke | Fill | Clip | Cap_Round
  | Translate real real | Rotate real
  | Set_Source "int \<times> int" | Set_Source_Rgba real real real real | Set_Dash "real list"
  | Rectangle real real real real | Move_To fpoint | Line_To fpoint | Curve_To fpoint fpoint fpoint | Arc fpoint real real real
  | Paint_With_Alpha real

definition trunc_at :: "real \<Rightarrow> real" where "trunc_at x = of_int (trunc_real x)"

text \<open>The box that is drawn again when the picture has moved on.\<close>

definition picture_bounds :: "screen_saver \<Rightarrow> floater \<Rightarrow> int \<times> int \<Rightarrow> bounds" where
  "picture_bounds s f source =
     (case source of (w, h) \<Rightarrow>
        let x = fx (fl_position f); y = fy (fl_position f) in
        if sv_should_do_rotations s \<and> G_MINDOUBLE < \<bar>fl_angle f\<bar>
        then \<lparr>bo_x = trunc_real (x - 1 / 2 * sqrt 2 * of_int w) - 1, bo_y = trunc_real (y - 1 / 2 * sqrt 2 * of_int h) - 1,
              bo_width = trunc_real (sqrt 2 * of_int w + 2), bo_height = trunc_real (sqrt 2 * of_int h + 2)\<rparr>
        else \<lparr>bo_x = trunc_real (x - 1 / 2 * of_int w) - 1, bo_y = trunc_real (y - 1 / 2 * of_int h) - 1,
              bo_width = w + 2, bo_height = h + 2\<rparr>)"

text \<open>\<open>f\<close> has its new bounds.\<close>

definition draw_picture :: "screen_saver \<Rightarrow> floater \<Rightarrow> int \<times> int \<Rightarrow> cairo_op list" where
  "draw_picture s f source =
     (case source of (w, h) \<Rightarrow>
        let x = fx (fl_position f); y = fy (fl_position f) in
        [Save]
        @ (if sv_should_do_rotations s \<and> G_MINDOUBLE < \<bar>fl_angle f\<bar>
           then [Translate (trunc_at x) (trunc_at y), Rotate (fl_angle f), Translate (- trunc_at x) (- trunc_at y)] else [])
        @ [Translate (trunc_at (x - 1 / 2 * of_int w)) (trunc_at (y - 1 / 2 * of_int h)), Set_Source source,
           Rectangle (trunc_at (1 / 2 * of_int (w - bo_width (fl_bounds f)))) (trunc_at (1 / 2 * of_int (h - bo_height (fl_bounds f))))
             (of_int (bo_width (fl_bounds f))) (of_int (bo_height (fl_bounds f))),
           Clip, Paint_With_Alpha (fl_opacity f), Restore])"





section \<open>The screensaver\<close>




definition screen_saver_destroy_floaters :: "screen_saver \<Rightarrow> screen_saver" where
  "screen_saver_destroy_floaters s = s\<lparr>sv_floaters := []\<rparr>"



text \<open>The parts of the window that are drawn again.\<close>

datatype redraw = Redraw_Area bounds | Redraw_All

definition floater_regions :: "screen_saver \<Rightarrow> floater \<Rightarrow> redraw list" where
  "floater_regions s f =
     (let size = of_int (floater_size f) :: real;
          x = fx (fl_position f);
          y = fy (fl_position f) in
      if sv_realized s \<and> 0 < bo_width (fl_bounds f) \<and> 0 < bo_height (fl_bounds f)
      then
        [Redraw_Area (fl_bounds f),
         Redraw_Area (if sv_should_do_rotations s
         then \<lparr>bo_x = trunc_real (x - 1 / 2 * sqrt 2 * size), bo_y = trunc_real (y - 1 / 2 * sqrt 2 * size),
               bo_width = trunc_real (sqrt 2 * size + 2), bo_height = trunc_real (sqrt 2 * size + 2)\<rparr>
         else \<lparr>bo_x = trunc_real (x - 1 / 2 * size), bo_y = trunc_real (y - 1 / 2 * size),
               bo_width = floater_size f + 2, bo_height = floater_size f + 2\<rparr>)]
        @ (if sv_should_show_paths s then [Redraw_All] else [])
      else [])"

primrec update_floaters ::
  "(nat \<Rightarrow> nat \<Rightarrow> real) \<Rightarrow> screen_saver \<Rightarrow> real \<Rightarrow> nat \<Rightarrow> floater list \<Rightarrow> (floater list \<times> redraw list) res" where
  "update_floaters rnd s time i [] = ret ([], [])"
| "update_floaters rnd s time i (f # fs) =
     rbind (screen_saver_floater_update_state (rnd i) s time f) (\<lambda>f.
     rbind (update_floaters rnd s time (Suc i) fs) (\<lambda>(fs, rs). ret (f # fs, floater_regions s f @ rs)))"

definition screen_saver_update_state :: "(nat \<Rightarrow> nat \<Rightarrow> real) \<Rightarrow> real \<Rightarrow> screen_saver \<Rightarrow> (screen_saver \<times> redraw list) res" where
  "screen_saver_update_state rnd time s =
     rbind (update_floaters rnd s time 0 (sv_floaters s)) (\<lambda>(fs, rs). ret (s\<lparr>sv_floaters := fs\<rparr>, rs))"

definition screen_saver_get_initial_state :: "(nat \<Rightarrow> nat \<Rightarrow> real) \<Rightarrow> real \<Rightarrow> screen_saver \<Rightarrow> screen_saver res" where
  "screen_saver_get_initial_state rnd timestamp s =
     rbind (screen_saver_update_state rnd 0 (s\<lparr>sv_first_update_time := timestamp\<rparr>)) (\<lambda>(s, _). ret s)"




text \<open>\<open>pending\<close> is what the memory held that \<open>g_new\<close> returned.\<close>

definition screen_saver_new ::
  "bool \<Rightarrow> fpoint \<times> fpoint \<Rightarrow> (nat \<Rightarrow> nat \<Rightarrow> real) \<Rightarrow> real \<Rightarrow> bool \<Rightarrow> int \<Rightarrow> bool \<Rightarrow> bool \<Rightarrow> screen_saver res" where
  "screen_saver_new pending canvas rnd timestamp realized max_floater_count should_do_rotations should_show_paths =
     rbind (screen_saver_get_initial_state rnd timestamp
        \<lparr>sv_realized = realized, sv_top_left = fst canvas, sv_bottom_right = snd canvas, sv_cached_sources = [],
         sv_first_update_time = 0, sv_last_calculated_stats_time = 0, sv_current_calculated_stats_time = 0, sv_update_count = 0,
         sv_frame_count = 0, sv_updates_per_second = 0, sv_frames_per_second = 0, sv_state_update_timeout_id = False,
         sv_stats_update_timeout_id = False, sv_floaters = [], sv_max_floater_count = max_floater_count,
         sv_should_do_rotations = should_do_rotations, sv_should_show_paths = should_show_paths, sv_draw_ops_pending = pending\<rparr>)
       (\<lambda>s. ret (s\<lparr>sv_state_update_timeout_id := True, sv_stats_update_timeout_id := True\<rparr>))"

section \<open>The program\<close>






section \<open>Curves\<close>

text \<open>The polynomial of Bernstein form; a convex combination for times between 0 and 1.\<close>

definition bezier :: "real \<Rightarrow> real \<Rightarrow> real \<Rightarrow> real \<Rightarrow> real \<Rightarrow> real" where
  "bezier a b c d u = (1 - u) ^ 3 * a + 3 * u * (1 - u) ^ 2 * b + 3 * u ^ 2 * (1 - u) * c + u ^ 3 * d"

lemma bezier_bounds:
  assumes "0 \<le> u" "u \<le> 1" and "m \<le> a" "m \<le> b" "m \<le> c" "m \<le> d" and "a \<le> M" "b \<le> M" "c \<le> M" "d \<le> M"
  shows "m \<le> bezier a b c d u \<and> bezier a b c d u \<le> M"
proof -
  define w0 w1 w2 w3 where "w0 = (1 - u) ^ 3" and "w1 = 3 * u * (1 - u) ^ 2" and "w2 = 3 * u ^ 2 * (1 - u)" and "w3 = u ^ 3"
  have w: "0 \<le> w0" "0 \<le> w1" "0 \<le> w2" "0 \<le> w3" using assms(1,2) by (simp_all add: w0_def w1_def w2_def w3_def)
  have one: "w0 + w1 + w2 + w3 = 1"
    unfolding w0_def w1_def w2_def w3_def by (simp add: power2_eq_square power3_eq_cube algebra_simps)
  have "w0 * m \<le> w0 * a" "w1 * m \<le> w1 * b" "w2 * m \<le> w2 * c" "w3 * m \<le> w3 * d"
    "w0 * a \<le> w0 * M" "w1 * b \<le> w1 * M" "w2 * c \<le> w2 * M" "w3 * d \<le> w3 * M"
    using w assms by (simp_all add: mult_left_mono)
  moreover have "w0 * m + w1 * m + w2 * m + w3 * m = m" "w0 * M + w1 * M + w2 * M + w3 * M = M"
    using one by (simp_all add: distrib_right [symmetric])
  moreover have "bezier a b c d u = w0 * a + w1 * b + w2 * c + w3 * d"
    by (simp add: bezier_def w0_def w1_def w2_def w3_def)
  ultimately show ?thesis by linarith
qed

lemma cubic_is_bezier:
  fixes a b c d u :: real
  shows "(d - a - 3 * (b - a) - (3 * (c - b) - 3 * (b - a))) * (u * u * u) + (3 * (c - b) - 3 * (b - a)) * (u * u) + 3 * (b - a) * u + a
     = bezier a b c d u"
  by (simp add: bezier_def power2_eq_square power3_eq_cube algebra_simps)

text \<open>
  A floater follows its curve.  During the time of its path it is on the Bezier curve of the four points, it
  starts at the first and ends at the last, and it never leaves the box around the four.
\<close>

theorem path_in_box:
  assumes "fl_path f = Some (path_new a b c d dur)" and "0 < dur" "0 \<le> t" "t \<le> dur"
    and box: "\<forall>p \<in> {a, b, c, d}. x0 \<le> fx p \<and> fx p \<le> x1 \<and> y0 \<le> fy p \<and> fy p \<le> y1"
  shows "\<exists>p. screen_saver_floater_get_position_from_time f t = Inr p
     \<and> x0 \<le> fx p \<and> fx p \<le> x1 \<and> y0 \<le> fy p \<and> fy p \<le> y1 \<and> (t = 0 \<longrightarrow> p = a) \<and> (t = dur \<longrightarrow> p = d)"
proof -
  have u: "0 \<le> t / dur" "t / dur \<le> 1" using assms(2-4) by simp_all
  have p: "screen_saver_floater_get_position_from_time f t
      = Inr \<lparr>fx = bezier (fx a) (fx b) (fx c) (fx d) (t / dur), fy = bezier (fy a) (fy b) (fy c) (fy d) (t / dur)\<rparr>"
    using assms(1,2) unfolding screen_saver_floater_get_position_from_time_def div_double_def path_new_def Let_def cubic_is_bezier [symmetric] by simp
  have "x0 \<le> bezier (fx a) (fx b) (fx c) (fx d) (t / dur) \<and> bezier (fx a) (fx b) (fx c) (fx d) (t / dur) \<le> x1"
    using box by (intro bezier_bounds [OF u]) simp_all
  moreover have "y0 \<le> bezier (fy a) (fy b) (fy c) (fy d) (t / dur) \<and> bezier (fy a) (fy b) (fy c) (fy d) (t / dur) \<le> y1"
    using box by (intro bezier_bounds [OF u]) simp_all
  ultimately show ?thesis using p assms(2) by (auto simp: bezier_def)
qed

definition sample_floater :: floater where
  "sample_floater =
     (screen_saver_floater_new \<lparr>bo_x = 0, bo_y = 0, bo_width = 0, bo_height = 0\<rparr> \<lparr>fx = 0, fy = 0\<rparr> (1 / 2))
       \<lparr>fl_path := Some (path_new \<lparr>fx = 0, fy = 0\<rparr> \<lparr>fx = 9, fy = 9\<rparr> \<lparr>fx = 10, fy = 10\<rparr> \<lparr>fx = 10, fy = 10\<rparr> 4)\<rparr>"

theorem path_in_box_witness:
  "\<exists>p. screen_saver_floater_get_position_from_time sample_floater 4 = Inr p \<and> p = \<lparr>fx = 10, fy = 10\<rparr>"
proof -
  have "fl_path sample_floater = Some (path_new \<lparr>fx = 0, fy = 0\<rparr> \<lparr>fx = 9, fy = 9\<rparr> \<lparr>fx = 10, fy = 10\<rparr> \<lparr>fx = 10, fy = 10\<rparr> 4)"
    by (simp add: sample_floater_def)
  from path_in_box [OF this, of 4 0 10 0 10] show ?thesis by auto
qed

section \<open>Invariant\<close>






lemma path_new_duration [simp]: "duration (path_new a b c d dur) = dur"
  by (simp add: path_new_def Let_def)


























section \<open>What is left on the screen\<close>

text \<open>
  A picture that is not turned is drawn inside the box that the next update draws again: nothing of it
  stays behind.
\<close>

lemma unturned_picture_in_bounds:
  assumes "\<not> (sv_should_do_rotations s \<and> G_MINDOUBLE < \<bar>fl_angle f\<bar>)"
  shows "\<exists>x y. Translate (of_int x) (of_int y) \<in> set (draw_picture s (f\<lparr>fl_bounds := picture_bounds s f (w, h)\<rparr>) (w, h))
     \<and> bo_x (picture_bounds s f (w, h)) < x \<and> x + w < bo_x (picture_bounds s f (w, h)) + bo_width (picture_bounds s f (w, h))
     \<and> bo_y (picture_bounds s f (w, h)) < y \<and> y + h < bo_y (picture_bounds s f (w, h)) + bo_height (picture_bounds s f (w, h))"
  using assms
  by (intro exI [of _ "trunc_real (fx (fl_position f) - 1 / 2 * of_int w)"] exI [of _ "trunc_real (fy (fl_position f) - 1 / 2 * of_int h)"])
     (auto simp: draw_picture_def picture_bounds_def Let_def trunc_at_def)

text \<open>A point of the picture, \<open>a\<close> and \<open>b\<close> pixels from its corner, on the screen.\<close>

definition drawn_at :: "floater \<Rightarrow> int \<times> int \<Rightarrow> real \<Rightarrow> real \<Rightarrow> fpoint" where
  "drawn_at f source a b =
     (case source of (w, h) \<Rightarrow>
        let cx = trunc_at (fx (fl_position f)); cy = trunc_at (fy (fl_position f));
            px = trunc_at (fx (fl_position f) - 1 / 2 * of_int w) + a - cx; py = trunc_at (fy (fl_position f) - 1 / 2 * of_int h) + b - cy in
        \<lparr>fx = cx + px * cos (fl_angle f) - py * sin (fl_angle f), fy = cy + px * sin (fl_angle f) + py * cos (fl_angle f)\<rparr>)"

text \<open>
  A high picture that is turned by a right angle sticks out of its box, whose width is that of the picture
  times the square root of 2; what is outside is not drawn again by the next update.
\<close>

theorem turned_picture_leaves_trail:
  assumes "sv_should_do_rotations s" and "fl_position f = \<lparr>fx = 100, fy = 100\<rparr>" and "fl_angle f = pi / 2"
  shows "bo_x (picture_bounds s f (16, 64)) + bo_width (picture_bounds s f (16, 64)) \<le> 111
     \<and> drawn_at f (16, 64) 8 0 = \<lparr>fx = 132, fy = 100\<rparr>"
proof -
  have r: "14 / 10 \<le> sqrt 2" "sqrt 2 \<le> (142 / 100 :: real)"
    by (rule real_le_rsqrt, simp add: power2_eq_square) (rule real_le_lsqrt, simp_all add: power2_eq_square)
  have "(2 :: real) ^ 1 \<le> 2 ^ 1022" by (rule power_increasing) simp_all
  then have "G_MINDOUBLE < 1" unfolding G_MINDOUBLE_def by simp
  moreover have "1 \<le> pi / 2" using pi_ge_two by simp
  ultimately have turned: "sv_should_do_rotations s \<and> G_MINDOUBLE < \<bar>fl_angle f\<bar>" using assms by simp
  have x: "100 - 1 / 2 * sqrt 2 * 16 < 89" "(0 :: real) \<le> 100 - 1 / 2 * sqrt 2 * 16" "sqrt 2 * 16 + 2 < 25" "(0 :: real) \<le> sqrt 2 * 16 + 2"
    using r by simp_all
  have "trunc_real (100 - 1 / 2 * sqrt 2 * 16) \<le> 88" unfolding trunc_real_def using x(1,2) by (simp add: floor_le_iff)
  moreover have "trunc_real (sqrt 2 * 16 + 2) \<le> 24" unfolding trunc_real_def using x(3,4) by (simp add: floor_le_iff)
  moreover have sc: "sin (fl_angle f) = 1" "cos (fl_angle f) = 0" unfolding assms(3) by simp_all
  ultimately have "bo_x (picture_bounds s f (16, 64)) + bo_width (picture_bounds s f (16, 64)) \<le> 111"
    using turned assms(2) by (simp add: picture_bounds_def Let_def mult.commute)
  moreover have "drawn_at f (16, 64) 8 0 = \<lparr>fx = 132, fy = 100\<rparr>"
    using sc assms(2) by (simp add: drawn_at_def trunc_at_def trunc_real_def)
  ultimately show ?thesis by blast
qed

text \<open>
  The correction of the opacity does not reach the alpha channel of most pixels: in a picture of one row no byte
  behind the third after the width changes, though the channel of the last pixel is the last byte.
\<close>

lemma gamma_pixels_same:
  "rfold (\<lambda>x. gamma_pixel (x + 3)) xs pixels = Inr pixels' \<Longrightarrow> \<forall>x \<in> set xs. x + 3 < i \<Longrightarrow> pixels' ! i = pixels ! i"
  by (induction xs arbitrary: pixels) (auto simp: gamma_pixel_def res_simps split: if_splits)

lemma gamma_misses_alpha:
  assumes "gamma_correct p = Inr q" "pb_height p = 1" "pb_width p + 3 \<le> i"
  shows "pb_pixels q ! i = pb_pixels p ! i"
proof -
  obtain pixels where "rfold (\<lambda>x. gamma_pixel (x + 3)) [0..<pb_width p] (pb_pixels p) = Inr pixels" "q = p\<lparr>pb_pixels := pixels\<rparr>"
    using assms(1,2) by (auto simp: gamma_correct_def res_simps)
  then show ?thesis using gamma_pixels_same [of "[0..<pb_width p]" "pb_pixels p" pixels i] assms(3) by simp
qed

section \<open>The start of the program\<close>

text \<open>Either an exit status, or the saver and whether the usage is printed from time to time.\<close>

record float_options =
  fo_show_paths :: bool
  fo_do_rotations :: bool
  fo_print_stats :: bool
  fo_number_of_images :: int
  fo_geometry :: "string option"
  fo_filenames :: "string list option"

definition no_float_options :: float_options where
  "no_float_options =
     \<lparr>fo_show_paths = False, fo_do_rotations = False, fo_print_stats = False, fo_number_of_images = 5, fo_geometry = None,
      fo_filenames = None\<rparr>"

text \<open>\<open>parse\<close> is the option parser of GLib, from the defaults; the size is the default one without a usable geometry.\<close>

definition floaters_main ::
  "(float_options \<Rightarrow> float_options option) \<Rightarrow> (string \<Rightarrow> bool) \<Rightarrow> bool \<Rightarrow> fpoint \<times> fpoint \<Rightarrow> (nat \<Rightarrow> nat \<Rightarrow> real) \<Rightarrow> real \<Rightarrow>
     int + (screen_saver res \<times> string \<times> bool \<times> (int \<times> int) option)" where
  "floaters_main parse parse_geometry pending canvas rnd timestamp =
     (case parse no_float_options of
        None \<Rightarrow> Inl 70
      | Some opts \<Rightarrow>
          (case fo_filenames opts of
             Some [name] \<Rightarrow>
               Inr (screen_saver_new pending canvas rnd timestamp False (fo_number_of_images opts) (fo_do_rotations opts) (fo_show_paths opts),
                    name, fo_print_stats opts,
                    (case fo_geometry opts of None \<Rightarrow> Some (640, 480) | Some g \<Rightarrow> if parse_geometry g then None else Some (640, 480)))
           | _ \<Rightarrow> Inl 64))"

lemma floaters_main_one_picture:
  "floaters_main parse pg pending canvas rnd now = Inr r \<Longrightarrow> \<exists>opts name. parse no_float_options = Some opts \<and> fo_filenames opts = Some [name]"
  by (auto simp: floaters_main_def split: option.splits list.splits)

end
