(* ===== verification/Theme_Window.thy ===== *)
theory Theme_Window
  imports GS_Realize Starfield
begin

text \<open>
  What the screensaver programs share: the window of \<open>savers/gs-theme-window.c\<close>, which takes over the window whose
  number the daemon has put into the environment, the engine of \<open>savers/gs-theme-engine.c\<close>, and the
  start of \<open>savers/popsquares.c\<close> and \<open>savers/starfield.c\<close>.  GTK and the X server are parameters.
\<close>

section \<open>The number of the window\<close>

text \<open>\<open>getenv\<close>: the first entry of the name.\<close>

primrec env_value :: "string \<Rightarrow> string list \<Rightarrow> string option" where
  "env_value name [] = None"
| "env_value name (entry # env) =
     (case strip_literal (name @ ''='') entry of None \<Rightarrow> env_value name env | Some v \<Rightarrow> Some v)"

definition c_isoctal :: "char \<Rightarrow> bool" where
  "c_isoctal c = (48 \<le> (of_char c :: nat) \<and> (of_char c :: nat) \<le> 55)"

definition number_value :: "nat \<Rightarrow> string \<Rightarrow> nat" where
  "number_value base ds = foldl (\<lambda>n c. base * n + xdigit_value c) 0 ds"

text \<open>
  \<open>strtoul (s, &end, 0)\<close>: the value, whether \<open>errno\<close> was set to \<open>ERANGE\<close>, and the text at \<open>end\<close>.
\<close>

definition strtoul_auto :: "string \<Rightarrow> nat \<times> bool \<times> string" where
  "strtoul_auto s =
     (let t = skip_ws s;
          neg = has_prefix ''-'' t;
          t = (if neg \<or> has_prefix ''+'' t then tl t else t);
          hex = ((has_prefix ''0x'' t \<or> has_prefix ''0X'' t) \<and> takeWhile c_isxdigit (drop 2 t) \<noteq> []);
          base = (if hex then 16 else if has_prefix ''0'' t then 8 else 10);
          t = (if hex then drop 2 t else t);
          digit = (if base = 16 then c_isxdigit else if base = 8 then c_isoctal else c_isdigit);
          ds = takeWhile digit t;
          v = number_value base ds in
      if ds = [] then (0, False, s)
      else if 2 ^ 64 \<le> v then (2 ^ 64 - 1, True, dropWhile digit t)
      else (if neg then (2 ^ 64 - v) mod 2 ^ 64 else v, False, dropWhile digit t))"

text \<open>\<open>erange\<close>: \<open>errno\<close> was \<open>ERANGE\<close> before; nothing resets it.\<close>

definition preview_window :: "bool \<Rightarrow> string \<Rightarrow> nat option" where
  "preview_window erange preview_xid =
     (let (remote_xwindow, overflow, e) = strtoul_auto preview_xid in
      if remote_xwindow \<noteq> 0 \<and> (e = [] \<or> hd e = CHR '' '') \<and> (remote_xwindow < 2 ^ 64 - 1 \<or> \<not> (erange \<or> overflow))
      then Some remote_xwindow else None)"

section \<open>The window\<close>

datatype event_kind = Exposure_Events | Structure_Events | Other_Events nat

datatype gdk_window = Own_Window | Foreign_Window nat

text \<open>\<open>tw_foreign_events\<close> and \<open>tw_foreign_decorated\<close> are properties of the window that was taken over.\<close>

record theme_window =
  tw_app_paintable :: bool
  tw_decorated :: bool
  tw_skip_taskbar :: bool
  tw_skip_pager :: bool
  tw_keep_above :: bool
  tw_fullscreen :: bool
  tw_events :: "event_kind set"
  tw_window :: "gdk_window option"
  tw_foreign_events :: "event_kind set"
  tw_foreign_decorated :: bool
  tw_realized :: bool
  tw_allocation :: rect
  tw_size :: "(int \<times> int) option"

definition gs_theme_window_init :: theme_window where
  "gs_theme_window_init =
     \<lparr>tw_app_paintable = True, tw_decorated = True, tw_skip_taskbar = False, tw_skip_pager = False, tw_keep_above = False,
      tw_fullscreen = False, tw_events = {}, tw_window = None, tw_foreign_events = {}, tw_foreign_decorated = True,
      tw_realized = False, tw_allocation = \<lparr>r_x = - 1, r_y = - 1, r_width = 1, r_height = 1\<rparr>, tw_size = None\<rparr>"

definition gs_theme_window_new :: theme_window where
  "gs_theme_window_new = gs_theme_window_init"

definition MIN_SIZE :: int where "MIN_SIZE = 10"

text \<open>The hints that the window of the daemon has, too.\<close>

definition hint_window :: "theme_window \<Rightarrow> theme_window" where
  "hint_window w =
     w\<lparr>tw_decorated := False, tw_skip_taskbar := True, tw_skip_pager := True, tw_keep_above := True, tw_fullscreen := True,
       tw_events := tw_events w \<union> {Exposure_Events, Structure_Events}\<rparr>"

text \<open>
  \<open>foreign\<close> gives the geometry and the events of a window of the server; \<open>Inl\<close> is the exit status.
\<close>

definition gs_theme_window_real_realize ::
  "string list \<Rightarrow> bool \<Rightarrow> (nat \<Rightarrow> (rect \<times> event_kind set) option) \<Rightarrow> theme_window \<Rightarrow> int + theme_window" where
  "gs_theme_window_real_realize env erange foreign w =
     (case (case env_value ''XSCREENSAVER_WINDOW'' env of
              None \<Rightarrow> None
            | Some preview_xid \<Rightarrow>
                (case preview_window erange preview_xid of
                   None \<Rightarrow> None
                 | Some xid \<Rightarrow> (case foreign xid of None \<Rightarrow> None | Some props \<Rightarrow> Some (xid, props)))) of
        None \<Rightarrow> Inr (w\<lparr>tw_window := Some Own_Window, tw_realized := True\<rparr>)
      | Some (xid, geometry, events) \<Rightarrow>
          (let w = hint_window w;
               w = w\<lparr>tw_foreign_decorated := False, tw_foreign_events := events \<union> {Exposure_Events, Structure_Events},
                     tw_window := Some (Foreign_Window xid), tw_realized := True\<rparr> in
           if r_width geometry < MIN_SIZE \<or> r_height geometry < MIN_SIZE then Inl 1
           else Inr (w\<lparr>tw_allocation := geometry, tw_size := Some (r_width geometry, r_height geometry)\<rparr>)))"

section \<open>The engine\<close>

text \<open>\<open>None\<close> for an object that is no engine; the window as GDK knows it, if the widget is realized.\<close>

definition gs_theme_engine_get_window_size :: "(bool \<times> rect) option \<Rightarrow> int \<times> int" where
  "gs_theme_engine_get_window_size engine =
     (case engine of
        None \<Rightarrow> (0, 0)
      | Some (visible, geometry) \<Rightarrow> if visible then (r_width geometry, r_height geometry) else (0, 0))"

definition gs_theme_engine_get_window :: "gdk_window option option \<Rightarrow> gdk_window option" where
  "gs_theme_engine_get_window engine = (case engine of None \<Rightarrow> None | Some window \<Rightarrow> window)"

text \<open>The name of the file that is looked for, so that a trace of system calls shows it.\<close>

definition gs_theme_engine_profile_log :: "string \<Rightarrow> string option \<Rightarrow> string option \<Rightarrow> string \<Rightarrow> string" where
  "gs_theme_engine_profile_log prgname func note formatted =
     (case func of
        Some f \<Rightarrow> ''MARK: '' @ prgname @ '' '' @ f @ '': '' @ (case note of None \<Rightarrow> '''' | Some n \<Rightarrow> n) @ '' '' @ formatted
      | None \<Rightarrow> ''MARK: '' @ prgname @ '': '' @ (case note of None \<Rightarrow> '''' | Some n \<Rightarrow> n) @ '' '' @ formatted)"

section \<open>The programs\<close>

text \<open>An exit status, or the name and the size of the window; the main loop follows.\<close>

definition popsquares_main :: "bool \<Rightarrow> int + (string \<times> int \<times> int)" where
  "popsquares_main gtk_starts = (if \<not> gtk_starts then Inl 1 else Inr (''popsquares'', 640, 480))"

record star_options =
  so_count :: int
  so_speed :: real
  so_acceleration :: real
  so_delay :: int
  so_size :: real

definition no_star_options :: star_options where
  "no_star_options = \<lparr>so_count = 0, so_speed = 0, so_acceleration = 0, so_delay = 0, so_size = 0\<rparr>"

text \<open>\<open>g_object_set\<close> leaves a property alone whose value is out of the range of its specification.\<close>

definition g_object_set :: "star_property \<Rightarrow> starfield \<Rightarrow> starfield" where
  "g_object_set pr sf = (if property_range pr then gste_starfield_set_property pr sf else sf)"

text \<open>\<open>parse\<close> is the option parser of GLib, from the defaults.\<close>

definition starfield_main :: "(star_options \<Rightarrow> star_options option) \<Rightarrow> int + (starfield \<times> int \<times> int)" where
  "starfield_main parse =
     (case parse no_star_options of
        None \<Rightarrow> Inl 1
      | Some opts \<Rightarrow>
          (let engine = gste_starfield_init;
               engine = (if so_count opts \<noteq> 0 then g_object_set (PROP_COUNT (nat (so_count opts))) engine else engine);
               engine = (if so_speed opts \<noteq> 0 then g_object_set (PROP_SPEED (so_speed opts)) engine else engine);
               engine = (if so_acceleration opts \<noteq> 0 then g_object_set (PROP_ACCEL (so_acceleration opts)) engine else engine);
               engine = (if so_delay opts \<noteq> 0 then g_object_set (PROP_DELAY (nat (so_delay opts))) engine else engine);
               engine = (if so_size opts \<noteq> 0 then g_object_set (PROP_SIZE (so_size opts)) engine else engine) in
           Inr (engine, 640, 480)))"

section \<open>Any options give a star field that is in sight\<close>

text \<open>Setting a property is a step of the list that leads to the first picture.\<close>

definition configured :: "starfield \<Rightarrow> bool" where
  "configured sf = (\<exists>props. (\<forall>pr \<in> set props. property_range pr) \<and> sf = fold gste_starfield_set_property props gste_starfield_init)"

lemma configured_set: "configured sf \<Longrightarrow> configured (g_object_set pr sf)"
proof -
  assume "configured sf"
  then obtain props where "\<forall>pr \<in> set props. property_range pr" "sf = fold gste_starfield_set_property props gste_starfield_init"
    unfolding configured_def by blast
  note props = this
  show ?thesis
  proof (cases "property_range pr")
    case True
    then show ?thesis
      unfolding configured_def g_object_set_def using props by (intro exI [of _ "props @ [pr]"]) simp
  next
    case False
    then show ?thesis using \<open>configured sf\<close> by (simp add: g_object_set_def)
  qed
qed

lemma starfield_main_reachable:
  assumes "starfield_main parse = Inr (engine, dims)" and "randoms rnd"
  shows "star_reachable (gste_starfield_real_show rnd now engine)"
proof -
  have "configured gste_starfield_init" unfolding configured_def by (rule exI [of _ "[]"]) simp
  then have "configured engine"
    using assms(1) by (auto simp: starfield_main_def Let_def configured_set split: option.splits)
  then show ?thesis unfolding configured_def using assms(2) by (auto intro: star_reachable.start)
qed

section \<open>The way of the number\<close>

lemma upper_digit: "d < 16 \<Longrightarrow> c_isxdigit (''0123456789ABCDEF'' ! d) \<and> xdigit_value (''0123456789ABCDEF'' ! d) = d"
proof -
  have "list_all (\<lambda>d. c_isxdigit (''0123456789ABCDEF'' ! d) \<and> xdigit_value (''0123456789ABCDEF'' ! d) = d) [0..<16]" by code_simp
  then show "d < 16 \<Longrightarrow> ?thesis" by (simp add: list_all_iff)
qed

lemma number_value_snoc: "number_value b (ds @ [c]) = b * number_value b ds + xdigit_value c"
  by (simp add: number_value_def)

declare hex_digits.simps [simp del]

lemma hex_digits_props:
  "number_value 16 (hex_digits n) = n \<and> hex_digits n \<noteq> [] \<and> (\<forall>c \<in> set (hex_digits n). c_isxdigit c)"
proof (induction n rule: hex_digits.induct)
  case (1 n)
  show ?case
  proof (cases "n < 16")
    case True
    then show ?thesis using upper_digit [of n] by (simp add: hex_digits.simps [of n] number_value_def)
  next
    case False
    have "n mod 16 < 16" by simp
    from upper_digit [OF this] show ?thesis
      using False 1 [OF refl False] by (simp add: hex_digits.simps [of n] Let_def number_value_snoc ball_Un)
  qed
qed

lemma strtoul_hex:
  assumes "n < 2 ^ 64"
  shows "strtoul_auto (''0x'' @ hex_digits n) = (n, False, [])"
proof -
  have ws: "skip_ws (''0x'' @ hex_digits n) = ''0x'' @ hex_digits n" by (simp add: skip_ws_def c_isspace_def)
  have t: "takeWhile c_isxdigit (hex_digits n) = hex_digits n" "dropWhile c_isxdigit (hex_digits n) = []"
    using hex_digits_props [of n] by (simp_all add: takeWhile_eq_all_conv dropWhile_eq_Nil_conv)
  have "\<not> 2 ^ 64 \<le> n" using assms by simp
  then show ?thesis
    using hex_digits_props [of n] unfolding strtoul_auto_def Let_def ws by (simp add: t)
qed

lemma preview_window_id:
  assumes "pe_xid pe widget mod 2 ^ 32 \<noteq> 0"
  shows "preview_window erange (widget_get_id_string pe widget) = Some (pe_xid pe widget mod 2 ^ 32)"
proof -
  have "pe_xid pe widget mod 2 ^ 32 < 2 ^ 32" by simp
  then have b: "pe_xid pe widget mod 2 ^ 32 < 2 ^ 64 - 1" by (rule order.strict_trans) simp
  then have "pe_xid pe widget mod 2 ^ 32 < 2 ^ 64" by simp
  from strtoul_hex [OF this] show ?thesis
    using assms b unfolding preview_window_def widget_get_id_string_def by simp
qed

lemma env_value_append:
  "\<forall>entry \<in> set env. strip_literal (name @ ''='') entry = None \<Longrightarrow> env_value name (env @ env') = env_value name env'"
  by (induction env) simp_all

lemma env_of_daemon: "env_value ''XSCREENSAVER_WINDOW'' (get_env_vars pe widget) = Some (widget_get_id_string pe widget)"
proof -
  have "\<forall>entry \<in> set (add_env_vars pe allowed_env_vars). strip_literal (''XSCREENSAVER_WINDOW'' @ ''='') entry = None"
    by (simp add: allowed_env_vars_def strip_literal_def split: option.splits)
  then have "\<forall>entry \<in> set ([''DISPLAY='' @ pe_display pe, ''HOME='' @ pe_home pe] @ add_env_vars pe allowed_env_vars).
      strip_literal (''XSCREENSAVER_WINDOW'' @ ''='') entry = None"
    by (simp add: strip_literal_def)
  from env_value_append [OF this, of "[''XSCREENSAVER_WINDOW='' @ widget_get_id_string pe widget]"] show ?thesis
    unfolding get_env_vars_def by (simp add: strip_literal_def)
qed

text \<open>
  C37: a screensaver paints on the window of the daemon.  In the environment that the job makes for a window, and
  whatever else is in it, the program takes over exactly that window with its geometry, hides the decorations and
  asks to hear of exposure and of changes; it stops with status 1 when the window is smaller than 10
  pixels, and opens a window of its own when the server does not know the number.
\<close>

theorem saver_on_daemon_window:
  assumes "pe_xid pe widget mod 2 ^ 32 \<noteq> 0"
  shows "case foreign (pe_xid pe widget mod 2 ^ 32) of
       None \<Rightarrow> (\<exists>w'. gs_theme_window_real_realize (get_env_vars pe widget) erange foreign w = Inr w' \<and> tw_window w' = Some Own_Window)
     | Some (g, events) \<Rightarrow>
         if r_width g < 10 \<or> r_height g < 10
         then gs_theme_window_real_realize (get_env_vars pe widget) erange foreign w = Inl 1
         else (\<exists>w'. gs_theme_window_real_realize (get_env_vars pe widget) erange foreign w = Inr w'
                \<and> tw_window w' = Some (Foreign_Window (pe_xid pe widget mod 2 ^ 32)) \<and> tw_allocation w' = g
                \<and> tw_foreign_events w' = events \<union> {Exposure_Events, Structure_Events} \<and> \<not> tw_decorated w' \<and> tw_realized w')"
  by (auto simp: gs_theme_window_real_realize_def env_of_daemon preview_window_id [OF assms] MIN_SIZE_def hint_window_def Let_def
      split: option.splits prod.splits)

definition sample_proc_env :: proc_env where
  "sample_proc_env =
     \<lparr>pe_parse_argv = (\<lambda>s. Some [s]), pe_spawn = (\<lambda>_ _. Some 7), pe_display = '':0'', pe_home = ''/home/u'', pe_getenv = (\<lambda>_. None),
      pe_basename = (\<lambda>s. s), pe_saved_args = (\<lambda>_. None), pe_test_run = (\<lambda>_. True), pe_xid = (\<lambda>_. 41943045), pe_exits = (\<lambda>_ _. True)\<rparr>"

theorem saver_on_daemon_window_witness:
  "\<exists>w'. gs_theme_window_real_realize (get_env_vars sample_proc_env 0) False
         (\<lambda>xid. if xid = 41943045 then Some (\<lparr>r_x = 0, r_y = 0, r_width = 800, r_height = 600\<rparr>, {}) else None) gs_theme_window_new = Inr w'
     \<and> tw_window w' = Some (Foreign_Window 41943045)"
  using saver_on_daemon_window [where pe = sample_proc_env and widget = 0 and erange = False and w = gs_theme_window_new and foreign =
      "\<lambda>xid. if xid = 41943045 then Some (\<lparr>r_x = 0, r_y = 0, r_width = 800, r_height = 600\<rparr>, {}) else None"]
  by (auto simp: sample_proc_env_def)

end
