(* ===== verification/GS_Debug.thy ===== *)
theory GS_Debug
  imports Prelude
begin

text \<open>
  \<open>src/gs-debug.c\<close>: the debugging output of all programs.  The time, the temporary file and the formatted
  message are parameters.
\<close>

section \<open>State\<close>

text \<open>
  \<open>dg_out\<close> is the descriptor under the stream \<open>debug_out\<close>, \<open>dg_fds\<close> are the descriptors that the module has open,
  \<open>dg_written\<close> is what was written, with \<open>None\<close> for the standard error.
\<close>

record debug_log =
  dg_debugging :: bool
  dg_out :: "nat option"
  dg_fds :: "nat list"
  dg_written :: "(nat option \<times> string) list"

definition debug_unloaded :: debug_log where
  "debug_unloaded = \<lparr>dg_debugging = False, dg_out = None, dg_fds = [], dg_written = []\<rparr>"

section \<open>Operations\<close>

text \<open>The place of a call of the macro \<open>gs_debug\<close>.\<close>

record debug_place =
  dp_func :: string
  dp_file :: string
  dp_line :: nat

definition gs_debug_real :: "string \<Rightarrow> debug_place \<Rightarrow> string \<Rightarrow> debug_log \<Rightarrow> debug_log" where
  "gs_debug_real str_time place message dg =
     (if \<not> dg_debugging dg then dg
      else
        (let buffer = take 1023 message; str_time = take 253 str_time in
         dg\<lparr>dg_written := dg_written dg @
              [(dg_out dg,
                ''['' @ dp_func place @ ''] '' @ dp_file place @ '':'' @ dec_digits (dp_line place) @ '' ('' @ str_time @ ''):'' @
                [CHR 0x09, CHR '' ''] @ buffer @ ''\<newline>'')]\<rparr>))"

definition gs_debug_enabled :: "debug_log \<Rightarrow> bool" where
  "gs_debug_enabled dg = dg_debugging dg"

text \<open>\<open>tmp\<close> is the descriptor of the new file, \<open>stream\<close> whether \<open>fdopen\<close> succeeds.\<close>

definition gs_debug_init :: "string \<Rightarrow> nat option \<Rightarrow> bool \<Rightarrow> bool \<Rightarrow> bool \<Rightarrow> debug_log \<Rightarrow> debug_log" where
  "gs_debug_init str_time tmp stream debug to_file dg =
     (if dg_debugging dg then dg
      else
        (let dg = dg\<lparr>dg_debugging := debug\<rparr>;
             dg = (if debug \<and> to_file
                   then
                     (case tmp of
                        None \<Rightarrow> dg
                      | Some fd \<Rightarrow>
                          (let dg = dg\<lparr>dg_fds := fd # dg_fds dg\<rparr> in
                           dg\<lparr>dg_out := (if stream then Some fd else None)\<rparr>))
                   else dg) in
         gs_debug_real str_time \<lparr>dp_func = ''gs_debug_init'', dp_file = ''gs-debug.c'', dp_line = 110\<rparr>
           (''Debugging '' @ (if debug then ''enabled'' else ''disabled'')) dg))"

definition gs_debug_shutdown :: "string \<Rightarrow> debug_log \<Rightarrow> debug_log" where
  "gs_debug_shutdown str_time dg =
     (if \<not> dg_debugging dg then dg
      else
        (let dg = gs_debug_real str_time \<lparr>dp_func = ''gs_debug_shutdown'', dp_file = ''gs-debug.c'', dp_line = 119\<rparr> ''Shutting down debugging'' dg;
             dg = dg\<lparr>dg_debugging := False\<rparr> in
         case dg_out dg of
           None \<Rightarrow> dg
         | Some fd \<Rightarrow> dg\<lparr>dg_fds := remove1 fd (dg_fds dg), dg_out := None\<rparr>))"

text \<open>The name that is looked up, so that it shows in a trace of the system calls; \<open>formatted\<close> is missing for a null format.\<close>

definition gs_profile_log :: "string \<Rightarrow> string option \<Rightarrow> string option \<Rightarrow> string option \<Rightarrow> string" where
  "gs_profile_log prgname func note formatted =
     (let formatted = (case formatted of None \<Rightarrow> '''' | Some s \<Rightarrow> s); note = (case note of None \<Rightarrow> '''' | Some n \<Rightarrow> n) in
      case func of
        Some f \<Rightarrow> ''MARK: '' @ prgname @ '' '' @ f @ '': '' @ note @ '' '' @ formatted
      | None \<Rightarrow> ''MARK: '' @ prgname @ '': '' @ note @ '' '' @ formatted)"

section \<open>Runs\<close>

datatype debug_call =
    Debug_Init string "nat option" bool bool bool
  | Debug_Message string debug_place string
  | Debug_Shutdown string

definition debug_call :: "debug_call \<Rightarrow> debug_log \<Rightarrow> debug_log" where
  "debug_call c dg =
     (case c of
        Debug_Init t tmp stream debug to_file \<Rightarrow> gs_debug_init t tmp stream debug to_file dg
      | Debug_Message t place message \<Rightarrow> gs_debug_real t place message dg
      | Debug_Shutdown t \<Rightarrow> gs_debug_shutdown t dg)"

text \<open>The C library makes a stream of every descriptor.\<close>

definition streams_made :: "debug_call \<Rightarrow> bool" where
  "streams_made c = (case c of Debug_Init t tmp stream debug to_file \<Rightarrow> stream | _ \<Rightarrow> True)"

text \<open>The open file is the one the stream writes to, and only while debugging is on.\<close>

definition debug_log_ok :: "debug_log \<Rightarrow> bool" where
  "debug_log_ok dg = (dg_fds dg = (case dg_out dg of None \<Rightarrow> [] | Some fd \<Rightarrow> [fd]) \<and> (\<not> dg_debugging dg \<longrightarrow> dg_out dg = None))"

lemma gs_debug_real_frame [simp]:
  "dg_debugging (gs_debug_real t place message dg) = dg_debugging dg" "dg_out (gs_debug_real t place message dg) = dg_out dg"
  "dg_fds (gs_debug_real t place message dg) = dg_fds dg"
  by (simp_all add: gs_debug_real_def Let_def)

lemma debug_call_ok:
  assumes "debug_log_ok dg" "streams_made c"
  shows "debug_log_ok (debug_call c dg)"
  using assms
  by (cases c) (auto simp: debug_call_def debug_log_ok_def streams_made_def gs_debug_init_def gs_debug_shutdown_def Let_def split: option.splits)

lemma debug_run_ok:
  assumes "\<forall>c \<in> set cs. streams_made c"
  shows "debug_log_ok (fold debug_call cs debug_unloaded)"
proof -
  have "debug_log_ok (fold debug_call cs dg)" if "debug_log_ok dg" for dg
    using that assms debug_call_ok by (induction cs arbitrary: dg) auto
  then show ?thesis by (simp add: debug_unloaded_def debug_log_ok_def)
qed

text \<open>
  Debugging output goes to one place and leaves nothing open.  After any calls in any order at most one file is
  open, it is the one that messages go to, and after a shutdown none is; while debugging is off a
  message writes nothing.
\<close>

theorem debug_closes_files:
  assumes "\<forall>c \<in> set cs. streams_made c"
  shows "dg_fds (gs_debug_shutdown t (fold debug_call cs debug_unloaded)) = []
     \<and> length (dg_fds (fold debug_call cs debug_unloaded)) \<le> 1
     \<and> (\<not> gs_debug_enabled dg \<longrightarrow> debug_call (Debug_Message t place message) dg = dg)"
proof -
  have ok: "debug_log_ok (fold debug_call cs debug_unloaded)" using debug_run_ok [OF assms] .
  then have "dg_fds (gs_debug_shutdown t (fold debug_call cs debug_unloaded)) = []"
    by (auto simp: gs_debug_shutdown_def debug_log_ok_def Let_def split: option.splits)
  moreover have "length (dg_fds (fold debug_call cs debug_unloaded)) \<le> 1"
    using ok by (auto simp: debug_log_ok_def split: option.splits)
  ultimately show ?thesis by (simp add: gs_debug_enabled_def debug_call_def gs_debug_real_def)
qed

theorem debug_closes_files_witness:
  "dg_fds (gs_debug_shutdown ''12:00:00'' (debug_call (Debug_Init ''12:00:00'' (Some 5) True True True) debug_unloaded)) = []
   \<and> dg_fds (debug_call (Debug_Init ''12:00:00'' (Some 5) True True True) debug_unloaded) = [5]"
  using debug_closes_files [of "[Debug_Init ''12:00:00'' (Some 5) True True True]" "''12:00:00''"]
  by (simp add: streams_made_def) (simp add: debug_call_def gs_debug_init_def debug_unloaded_def Let_def)

text \<open>The message that debugging is disabled is never seen.\<close>

lemma disabled_is_silent: "dg_written (gs_debug_init t tmp stream False to_file dg) = dg_written dg"
  by (simp add: gs_debug_init_def gs_debug_real_def Let_def)

end
