(* ===== verification/GS_Main.thy ===== *)
theory GS_Main
  imports GS_Daemon GS_Debug
begin

text \<open>
  \<open>src/mate-screensaver.c\<close>: the start and the end of the daemon around its main loop (\<open>GS_Daemon\<close>).
\<close>

section \<open>The program\<close>

record daemon_options =
  do_version :: bool
  do_no_daemon :: bool
  do_debug :: bool

definition default_options :: daemon_options where
  "default_options = \<lparr>do_version = False, do_no_daemon = True, do_debug = False\<rparr>"

definition main_place :: "nat \<Rightarrow> debug_place" where
  "main_place n = \<lparr>dp_func = ''main'', dp_file = ''mate-screensaver.c'', dp_line = n\<rparr>"

text \<open>
  An exit status, or the daemon at the begin of its main loop.  \<open>parse\<close> is \<open>gtk_init_with_args\<close> with the options of
  the program, \<open>t\<close> the time of day, \<open>version\<close> the version of the package.
\<close>

definition daemon_main ::
  "(daemon_options \<Rightarrow> daemon_options option) \<Rightarrow> string \<Rightarrow> string \<Rightarrow> manager_env \<Rightarrow> start_env \<Rightarrow> 'msg dbus_env \<Rightarrow> bus_names \<Rightarrow>
     debug_log \<Rightarrow> (int + daemon \<times> debug_log) res" where
  "daemon_main parse t version e st be b dg =
     (case parse default_options of
        None \<Rightarrow> ret (Inl 1)
      | Some opts \<Rightarrow>
          if do_version opts then ret (Inl 1)
          else
            (let dg = gs_debug_init t None False (do_debug opts) False dg;
                 dg = gs_debug_real t (main_place 93) (''initializing mate-screensaver '' @ version) dg in
             rbind (gs_monitor_init e st) (\<lambda>ls.
             case gs_monitor_start be b ls of
               (started, ls) \<Rightarrow> if \<not> started then ret (Inl 1) else ret (Inr (ls, dg)))))"

text \<open>What follows the main loop.\<close>

definition mate_screensaver_quit :: "bool \<Rightarrow> bool" where
  "mate_screensaver_quit running = False"

definition daemon_end :: "string \<Rightarrow> manager_env \<Rightarrow> daemon \<times> debug_log \<Rightarrow> (int \<times> daemon \<times> debug_log) res" where
  "daemon_end t e st =
     (case st of (ls, dg) \<Rightarrow>
        rbind (gs_monitor_finalize e ls) (\<lambda>ls.
        let dg = gs_debug_real t (main_place 123) ''mate-screensaver finished'' dg; dg = gs_debug_shutdown t dg in
        ret (0, ls, dg)))"

section \<open>One daemon\<close>

text \<open>
  A daemon that starts is one of those whose behaviour is examined, and it is the only one: if another program
  has the name on the bus, or there is no bus, the program ends with status 1 before its main loop.
\<close>

theorem one_daemon:
  assumes "env_ok e" and "be \<in> buses" and "daemon_main parse t version e st be b dg = Inr r"
  shows "(\<forall>ls dg'. r = Inr (ls, dg') \<longrightarrow> reachable buses ls \<and> \<not> bn_has_owner b \<and> env_connected be)
     \<and> (bn_has_owner b \<or> \<not> env_connected be \<longrightarrow> r = Inl 1)"
proof -
  have acq: "gs_listener_acquire be b l = (True, l') \<Longrightarrow> \<not> bn_has_owner b \<and> env_connected be" for l l'
    by (auto simp: gs_listener_acquire_def split: option.splits if_splits)
  have start: "gs_monitor_start be b ls = (True, ls') \<Longrightarrow> \<not> bn_has_owner b \<and> env_connected be" for ls ls'
    by (auto simp: gs_monitor_start_def split: prod.splits if_splits dest: acq)
  have ends: "r = Inl 1 \<or> (\<exists>ls0 ls dg'. gs_monitor_init e st = Inr ls0 \<and> gs_monitor_start be b ls0 = (True, ls) \<and> r = Inr (ls, dg'))"
  proof (cases "parse default_options")
    case (Some opts)
    show ?thesis
    proof (cases "do_version opts")
      case False
      then obtain ls0 where init: "gs_monitor_init e st = Inr ls0"
        using assms(3) Some by (cases "gs_monitor_init e st") (simp_all add: daemon_main_def Let_def)
      obtain started ls where s: "gs_monitor_start be b ls0 = (started, ls)" by (cases "gs_monitor_start be b ls0")
      show ?thesis using assms(3) Some False init s by (cases started) (auto simp: daemon_main_def Let_def)
    qed (use assms(3) Some in \<open>simp add: daemon_main_def\<close>)
  qed (use assms(3) in \<open>simp add: daemon_main_def\<close>)
  then show ?thesis
  proof
    assume "r = Inl 1"
    then show ?thesis by simp
  next
    assume "\<exists>ls0 ls dg'. gs_monitor_init e st = Inr ls0 \<and> gs_monitor_start be b ls0 = (True, ls) \<and> r = Inr (ls, dg')"
    then obtain ls0 ls dg' where r: "gs_monitor_init e st = Inr ls0" "gs_monitor_start be b ls0 = (True, ls)" "r = Inr (ls, dg')" by blast
    then show ?thesis using start [OF r(2)] reachable.start [OF assms(1) r(1) assms(2) r(2)] by simp
  qed
qed

end
