(* ===== verification/Subprocs.thy ===== *)
theory Subprocs
  imports Prelude
begin

text \<open>
  \<open>src/subprocs.c\<close>: \<open>await_dying_children\<close>, which collects the children that have ended.  The rest of the file
  is in \<open>GS_Job\<close>.
\<close>

section \<open>The loop\<close>

definition EINTR :: int where "EINTR = 4"
definition ECHILD :: int where "ECHILD = 10"

text \<open>The value and \<open>errno\<close> of the k-th call of \<open>waitpid\<close> without blocking.\<close>

type_synonym waits = "nat \<Rightarrow> int \<times> int"

definition wait_failed :: "int \<times> int \<Rightarrow> bool" where
  "wait_failed r = (fst r < 0 \<and> snd r \<noteq> EINTR)"

text \<open>The number of calls, if there is an end.\<close>

partial_function (option) await_dying_children :: "waits \<Rightarrow> nat \<Rightarrow> nat option" where
  "await_dying_children waitpid k =
     (if wait_failed (waitpid k) then Some (Suc k) else await_dying_children waitpid (Suc k))"

section \<open>When it returns\<close>

lemma await_stops_early:
  assumes "await_dying_children waitpid k = Some n"
  shows "k < n \<and> wait_failed (waitpid (n - 1)) \<and> (\<forall>j. k \<le> j \<and> j < n - 1 \<longrightarrow> \<not> wait_failed (waitpid j))"
proof (rule await_dying_children.raw_induct [of "\<lambda>w k n. k < n \<and> wait_failed (w (n - 1)) \<and> (\<forall>j. k \<le> j \<and> j < n - 1 \<longrightarrow> \<not> wait_failed (w j))", OF _ assms])
  fix f :: "waits \<Rightarrow> nat \<Rightarrow> nat option" and w k n
  assume IH: "\<And>w k n. f w k = Some n \<Longrightarrow> k < n \<and> wait_failed (w (n - 1)) \<and> (\<forall>j. k \<le> j \<and> j < n - 1 \<longrightarrow> \<not> wait_failed (w j))"
    and step: "(if wait_failed (w k) then Some (Suc k) else f w (Suc k)) = Some n"
  show "k < n \<and> wait_failed (w (n - 1)) \<and> (\<forall>j. k \<le> j \<and> j < n - 1 \<longrightarrow> \<not> wait_failed (w j))"
  proof (cases "wait_failed (w k)")
    case True
    then show ?thesis using step by auto
  next
    case False
    then have "f w (Suc k) = Some n" using step by simp
    from IH [OF this] have r: "Suc k < n" "wait_failed (w (n - 1))" "\<forall>j. Suc k \<le> j \<and> j < n - 1 \<longrightarrow> \<not> wait_failed (w j)" by simp_all
    have "\<not> wait_failed (w j)" if "k \<le> j" "j < n - 1" for j
      using False r(3) that by (cases "j = k") simp_all
    then show ?thesis using r(1,2) by auto
  qed
qed

lemma await_finds_end:
  assumes "wait_failed (waitpid (k + d))"
  shows "\<exists>n. await_dying_children waitpid k = Some n"
  using assms
proof (induction d arbitrary: k)
  case 0
  then show ?case by (simp add: await_dying_children.simps)
next
  case (Suc d)
  from Suc.IH [of "Suc k"] Suc.prems show ?case by (subst await_dying_children.simps) simp
qed

text \<open>
  The collecting of children ends exactly when a call fails for another reason than a signal, and then with the
  first such call; as long as there is a child that has not ended, every call returns 0, and the loop
  never ends.
\<close>

theorem await_needs_last_child:
  "(await_dying_children waitpid 0 = None) = (\<forall>k. \<not> wait_failed (waitpid k))
   \<and> (await_dying_children waitpid 0 = Some (Suc n)) = (wait_failed (waitpid n) \<and> (\<forall>k < n. \<not> wait_failed (waitpid k)))
   \<and> await_dying_children (\<lambda>_. (0, 0)) 0 = None"
proof -
  have none: "(await_dying_children w 0 = None) = (\<forall>k. \<not> wait_failed (w k))" for w
  proof
    show "\<forall>k. \<not> wait_failed (w k)" if "await_dying_children w 0 = None"
      using await_finds_end [of w 0] that by auto
    show "await_dying_children w 0 = None" if "\<forall>k. \<not> wait_failed (w k)"
      using await_stops_early [of w 0] that by (cases "await_dying_children w 0") auto
  qed
  have some: "(await_dying_children waitpid 0 = Some (Suc n)) = (wait_failed (waitpid n) \<and> (\<forall>k < n. \<not> wait_failed (waitpid k)))"
  proof
    show "wait_failed (waitpid n) \<and> (\<forall>k < n. \<not> wait_failed (waitpid k))" if "await_dying_children waitpid 0 = Some (Suc n)"
      using await_stops_early [OF that] by simp
    show "await_dying_children waitpid 0 = Some (Suc n)" if first: "wait_failed (waitpid n) \<and> (\<forall>k < n. \<not> wait_failed (waitpid k))"
    proof -
      obtain m where m: "await_dying_children waitpid 0 = Some m" using await_finds_end [of waitpid 0 n] first by auto
      have "0 < m" "wait_failed (waitpid (m - 1))" "\<forall>j < m - 1. \<not> wait_failed (waitpid j)" using await_stops_early [OF m] by auto
      then have "m - 1 = n" using first by (meson linorder_neqE_nat)
      then show ?thesis using m \<open>0 < m\<close> by simp
    qed
  qed
  show ?thesis using none [of waitpid] none [of "\<lambda>_. (0, 0)"] some by (simp add: wait_failed_def)
qed

text \<open>Two children have ended and none is left.\<close>

lemma await_sample: "await_dying_children (\<lambda>k. if k < 2 then (7 + int k, 0) else (- 1, ECHILD)) 0 = Some 3"
  by (simp add: await_dying_children.simps wait_failed_def EINTR_def ECHILD_def)

end
