(* ===== verification/Spec2Isabelle.thy ===== *)
theory Spec2Isabelle
  imports System GS_Command GS_Preferences_Props Copy_Theme GS_Stacking GS_Realize Slideshow Popsquares Starfield Floaters
    Theme_Window GS_Debug GS_Introspect GS_Main Subprocs
begin

text \<open>
  \<^bold>\<open>mate-screensaver: a verification development.\<close>

  \<^bold>\<open>The program.\<close>  The daemon \<open>mate-screensaver\<close> (sources under \<open>src/src\<close>) waits for the session to
  become idle or for a request on the session bus, covers every monitor with a window, runs a
  screensaver program in each, and locks the screen.  A locked window is opened by the unlock dialog,
  a program of its own that talks to the daemon over a pipe and asks PAM, directly or through the
  set-uid helper under \<open>src/helper\<close>, whether the user may get in.

    \<^item> \<open>gs-watcher-x11.c\<close> turns the presence status of the session into idleness signals;
    \<^item> \<open>gs-listener-dbus.c\<close> owns the name on the session bus, keeps inhibitors and throttlers and the
      flags \<open>active\<close> and \<open>session_idle\<close>, and follows the login manager on the system bus;
    \<^item> \<open>gs-manager.c\<close> owns the windows (\<open>gs-window-x11.c\<close>), the screensaver programs (\<open>gs-job.c\<close>,
      \<open>subprocs.c\<close>), the grab (\<open>gs-grab-x11.c\<close>), the fade (\<open>gs-fade.c\<close>) and the lock;
    \<^item> \<open>gs-theme-manager.c\<close> finds the programs, \<open>gs-prefs.c\<close> the settings;
    \<^item> \<open>gs-monitor.c\<close> connects all of these: signals of the watcher and the listener become calls of
      the manager and the other way round.

  The unlock dialog is \<open>mate-screensaver-dialog.c\<close>.  It gives up its rights (\<open>setuid.c\<close>), shows a widget
  (\<open>gs-lock-plug.c\<close>) and asks one of four backends behind the interface \<open>gs-auth.h\<close>: PAM on a
  thread of its own (\<open>gs-auth-pam.c\<close>), PAM in the set-uid helper (\<open>gs-auth-helper.c\<close> and
  \<open>helper/pam-helper.c\<close>, over the pipes of \<open>helper/helper_proto.c\<close>), the password file
  (\<open>gs-auth-pwent.c\<close>) or BSD authentication (\<open>gs-auth-bsdauth.c\<close>).  Its verdict is a line on its
  standard output, which the window that started it reads.

  The command \<open>mate-screensaver-command.c\<close> turns its options into messages to the daemon.  The
  application \<open>mate-screensaver-preferences.c\<close> shows and writes the settings the daemon reads, plays
  previews of the themes and copies dropped themes to the user's directory
  (\<open>copy-theme-dialog.c\<close>).  The slide show finds the directory of the pictures with
  \<open>savers/xdg-user-dir-lookup.c\<close>.

  \<^bold>\<open>How the code is modelled.\<close>  Every C struct is a record, every enumeration a datatype, every
  function a definition of the same name that takes the object and returns it updated.  A function
  that can run into undefined behaviour, abort or loop for ever returns \<open>'a res\<close> (\<open>Prelude\<close>), whose
  left values are the faults.  Signals of GObject are passed as functions: the handlers of the
  monitor are arguments of the listener's operations, so that a change of state runs them in the
  place where the code emits the signal.  GLib sources are fields: an identifier that is not 0 is a
  pending source.  Code outside the repository (the buses, GSettings, the X server, GTK, spawning,
  the login manager) is a parameter: a record of functions such as \<open>dbus_env\<close>, \<open>manager_env\<close>,
  \<open>fade_env\<close> or \<open>x_seat\<close> that answers the calls, and that may differ from step to step.

  \<^bold>\<open>Theories.\<close>
    \<^item> \<open>Prelude\<close>: results, sequencing, post-conditions (\<open>rpost\<close>), unbounded loops, C integers, strings.
    \<^item> \<open>Helper_Proto\<close> (\<open>helper/helper_proto.c\<close>): the framing of the pipes to the helper, down to the
      bytes, for every portioning of the system calls.  Round trip, memory safety, truncated streams.
    \<^item> \<open>GHash\<close>: GLib's hash tables as the listener and the manager use them; locale \<open>hash_table\<close>.
    \<^item> \<open>GS_Watcher\<close>, \<open>GS_Listener\<close>, \<open>GS_Listener_Bus\<close>, \<open>GS_Grab\<close>, \<open>GS_Job\<close>, \<open>GS_Theme\<close>, \<open>GS_Window\<close>,
      \<open>GS_Fade\<close>, \<open>GS_Prefs\<close>, \<open>GS_Manager\<close>, \<open>GS_Monitor\<close>: one theory per source file, with the
      functional behaviour of its operations.
    \<^item> \<open>GS_Listener_Sync\<close>: the contract between the listener and whoever handles its signals, as the
      locales \<open>listener_up\<close>, \<open>listener_calm\<close> and \<open>listener_sync\<close>: if the handlers keep a relation between
      the flags of the listener and the rest of the daemon, every bus message does.
    \<^item> \<open>GS_Manager_Inv\<close>, \<open>GS_Manager_Life\<close>, \<open>GS_Manager_Switch\<close>, \<open>GS_Manager_Props\<close>: the invariant of
      the manager (windows carry its settings, one window per monitor, jobs exist exactly while it is
      active and rest while the dialog is up, one dialog at most), that every operation keeps it, and
      what activation, deactivation, timers and throttling achieve.
    \<^item> \<open>GS_Monitor_Inv\<close>, \<open>GS_Daemon\<close>, \<open>GS_Daemon_Props\<close>: the handlers of the monitor meet the contracts
      of the listener; the main loop as the step relation \<open>daemon_step\<close> over the sources it
      dispatches; what holds in every reachable state, and that a locked screen stays locked.
    \<^item> \<open>Setuid\<close>: the identifiers of a process and the calls that change them; what \<open>hack_uid\<close> leaves.
    \<^item> \<open>GS_Lock_Plug\<close>: the widget, its timers and its inner main loop, which always returns; label texts.
    \<^item> \<open>GS_Auth\<close>: the contract of a backend, locale \<open>auth_backend\<close>: it says yes only if the authority
      behind it does (\<open>sound\<close>), and changes the dialog only through the callback (\<open>keeps\<close>).
    \<^item> \<open>GS_Auth_Pam\<close>, \<open>GS_Auth_Helper\<close>, \<open>GS_Auth_Pwent\<close>: the backends, each an interpretation of the
      contract.  A PAM stack is any finite tree of conversations (\<open>pam_prog\<close>); a module or a user that never
      comes to an end is left out.  Over faithful pipes, and within the bounds of its buffers, the helper behaves as PAM
      that the dialog calls itself; what the account modules say is ignored.
    \<^item> \<open>GS_Auth_Threads\<close>: every interleaving of the two threads that hand a message over, and every wake-up of
      the condition that they share, those without a signal included: what holds of all, and what a wait that ends too
      early breaks.
    \<^item> \<open>GS_Dialog\<close>, \<open>GS_Dialog_Props\<close>: the dialog over an arbitrary backend; locale \<open>dialog_backend\<close>
      extends \<open>auth_backend\<close> and is interpreted for all four: no positive answer without an approval,
      one notice per failed attempt and at most five of them.
    \<^item> \<open>GS_Command\<close>: the command line client; locale \<open>screensaver_service\<close> is what it relies on, the listener
      of the daemon provides it, so that a query tells the truth and an inhibitor works.
    \<^item> \<open>GS_Prefs_Text\<close>: the texts of the preferences application: the list of dropped files, the order of
      the themes, the times next to the scales.
    \<^item> \<open>GS_Preferences\<close>, \<open>GS_Preferences_Props\<close>: its settings, widgets, selection and previews as the
      events of its main loop; the invariant of its state, what opening it writes, and that what it
      writes is what the daemon reads (\<open>GS_Prefs\<close>).
    \<^item> \<open>Copy_Theme\<close> (\<open>copy-theme-dialog.c\<close>): the copies, one after the other; no file is replaced.
    \<^item> \<open>GS_Stacking\<close>, \<open>GS_Realize\<close> (\<open>gs-window-x11.c\<close>, \<open>gs-visual-gl.c\<close>, the helper for the visual): how a window
      gets its visual and its place, whether the windows cover the monitors again after these have changed, and which windows
      come back above those of other clients after these have moved, cut or covered any of them.
    \<^item> \<open>Xdg_Dirs\<close> (\<open>savers/xdg-user-dir-lookup.c\<close>): the lookup of a user directory, down to the buffer.
    \<^item> \<open>Slideshow\<close> (\<open>savers/gste-slideshow.c\<close>, \<open>savers/slideshow.c\<close>): the main loop and the loading thread of the slide
      show, in every interleaving; what a fade puts on the screen, and the rounds through the pictures.
    \<^item> \<open>Popsquares\<close>, \<open>Starfield\<close>, \<open>Floaters\<close> (\<open>savers/gste-popsquares.c\<close>, \<open>savers/gste-starfield.c\<close>,
      \<open>savers/floaters.c\<close>): the other screensaver programs as the events of their main loops; what is drawn is
      a list of rectangles, dots or operations, and memory safety of every frame.
    \<^item> \<open>Theme_Window\<close> (\<open>savers/gs-theme-window.c\<close>, \<open>savers/gs-theme-engine.c\<close>, the \<open>main\<close> functions): a screensaver
      program finds the window of the daemon through the environment that \<open>GS_Job\<close> makes.
    \<^item> \<open>GS_Debug\<close> (\<open>gs-debug.c\<close>): the stream of the messages.
    \<^item> \<open>GS_Introspect_Text\<close>, \<open>GS_Introspect\<close>: the text of the description that the listener sends of its objects, a reader
      of such texts, and that what it reads is what the listener handles.
    \<^item> \<open>GS_Main\<close> (\<open>mate-screensaver.c\<close>): the start and end of the daemon; only one daemon runs.
    \<^item> \<open>Subprocs\<close> (\<open>subprocs.c\<close>): the loop that collects children, and when it ends.
    \<^item> \<open>System\<close>: dialog and daemon together: a locked screen opens only with an approval.

  \<^bold>\<open>Loops and fuel.\<close>  There is no fuel.  Structural and measured recursion covers all loops but three:
  \<open>gs_grab_move_to_window\<close>, which retries until the server gives in, is \<open>until_success\<close>, with its
  return proved when the server grants an attempt; a synchronous fade runs the timer until it
  has finished, with its return proved when the fade starts and its hanging when it does not;
  \<open>await_dying_children\<close> is a partial function whose return is characterised.  The
  waiting of the dialog for an answer is recursion over the events that arrive, followed by the timers
  of the widget; without a timer its value is the fault \<open>No_Return\<close>.

  \<^bold>\<open>Not modelled.\<close>  The programs \<open>test-*.c\<close> are manual tests that are not installed.  Floating point numbers
  are rational or real numbers, so that rounding, overflow, infinite numbers and NaN are not modelled; where \<open>Floaters\<close> may
  divide by zero, the model ends with a fault.  A program or a module outside the repository that a caller waits for
  is taken to return, if nothing else is said.  Of the modelled files the layout of GTK
  widgets, drawing, class boilerplate and memory that is freed correctly are left out.
\<close>

end
